(* ===== verification/Go_Prelude.thy ===== *)
theory Go_Prelude
  imports Main "HOL-Library.Word" "HOL-Library.Char_ord" "HOL-Library.List_Lexorder"
    "HOL-Library.AList" "HOL-Library.Sublist"
begin

text \<open>
  Shared vocabulary of the development: the Go types and the parts of Go's standard library the
  modelled packages use, with the generic lemmas about them.

  \<^item> A Go \<open>string\<close> is a byte string, so it is a HOL \<open>string\<close> (a list of 8-bit \<open>char\<close>s);
    \<open>len\<close> is \<open>length\<close>. Functions that look at runes decode UTF-8 as package \<open>unicode/utf8\<close>
    does, replacing every invalid byte by the rune error.
  \<^item> \<open>uint64\<close> is \<open>64 word\<close>: its arithmetic wraps and its comparison is unsigned.
  \<^item> A pointer to a value is an \<open>option\<close>, a slice a \<open>list\<close> (a nil and an empty slice encode to the
    same JSON record), a Go \<open>error\<close> result an \<open>option\<close> of an error value (\<open>None\<close> is \<open>nil\<close>), and
    a value-or-error result a sum with the error on the left.
  \<^item> A \<open>map[string]T\<close> is the list of its entries in key order (the order in which
    \<open>encoding/json\<close> writes them and in which the code iterates it after sorting its keys).
  \<^item> A SQL table keyed by a string is an association list in \<open>rowid\<close> order;
    \<open>AList.update\<close> is the upsert that keeps the row's place.
\<close>

named_theorems enum_simps \<open>codes, values and wire names of the modelled enumerations\<close>
named_theorems wf_intros \<open>preservation of well-formedness\<close>
named_theorems go_eval \<open>evaluation of the string library on literals\<close>

type_synonym u64 = "64 word"
type_synonym 'e go_error = "'e option"
type_synonym ('e, 'a) result = "'e + 'a"
type_synonym 'v smap = "(string \<times> 'v) list"

subsection \<open>Sequences of checks\<close>

text \<open>A function that returns the first error of a sequence of checks.\<close>

definition check :: "bool \<Rightarrow> 'e \<Rightarrow> 'e go_error" where
  "check ok e = (if ok then None else Some e)"

fun first_error :: "'e go_error list \<Rightarrow> 'e go_error" where
  "first_error [] = None"
| "first_error (None # es) = first_error es"
| "first_error (Some e # es) = Some e"

subsection \<open>Package strings, bytewise\<close>

abbreviation byte :: "char \<Rightarrow> nat" where
  "byte c \<equiv> of_char c"

definition has_prefix :: "string \<Rightarrow> string \<Rightarrow> bool" where
  "has_prefix s p \<longleftrightarrow> prefix p s"

definition has_suffix :: "string \<Rightarrow> string \<Rightarrow> bool" where
  "has_suffix s p \<longleftrightarrow> suffix p s"

definition str_contains :: "string \<Rightarrow> string \<Rightarrow> bool" where
  "str_contains s p \<longleftrightarrow> sublist p s"

definition trim_suffix :: "string \<Rightarrow> string \<Rightarrow> string" where
  "trim_suffix s p = (if has_suffix s p then take (length s - length p) s else s)"

fun split_on :: "char \<Rightarrow> string \<Rightarrow> string list" where
  "split_on d [] = [[]]"
| "split_on d (c # cs) =
     (if c = d then [] # split_on d cs
      else (case split_on d cs of [] \<Rightarrow> [[c]] | p # ps \<Rightarrow> (c # p) # ps))"

text \<open>The decimal form of an unsigned number (the \<open>d\<close> verb of package fmt).\<close>

fun show_nat :: "nat \<Rightarrow> string" where
  "show_nat n = (if n < 10 then [char_of (48 + n)] else show_nat (n div 10) @ [char_of (48 + n mod 10)])"

declare show_nat.simps [simp del]

fun join_with :: "string \<Rightarrow> string list \<Rightarrow> string" where
  "join_with d [] = []"
| "join_with d [p] = p"
| "join_with d (p # ps) = p @ d @ join_with d ps"

definition ascii_lower :: "char \<Rightarrow> char" where
  "ascii_lower c = (if CHR ''A'' \<le> c \<and> c \<le> CHR ''Z'' then char_of (byte c + 32) else c)"

subsection \<open>Package unicode/utf8\<close>

definition rune_error :: nat where
  "rune_error = 65533"

definition cont_byte :: "nat \<Rightarrow> bool" where
  "cont_byte b \<longleftrightarrow> 128 \<le> b \<and> b \<le> 191"

text \<open>\<open>utf8.DecodeRuneInString\<close>: the first rune and its width in bytes; an invalid
  sequence is the rune error of width one, the empty string the rune error of width zero.\<close>

definition decode_rune :: "string \<Rightarrow> nat \<times> nat" where
  "decode_rune s =
     (case map byte (take 4 s) of
        [] \<Rightarrow> (rune_error, 0)
      | b0 # t \<Rightarrow>
        if b0 < 128 then (b0, 1)
        else if b0 < 194 \<or> 244 < b0 then (rune_error, 1)
        else if b0 < 224 then
          (case t of b1 # _ \<Rightarrow>
             if cont_byte b1 then ((b0 - 192) * 64 + (b1 - 128), 2) else (rune_error, 1)
           | _ \<Rightarrow> (rune_error, 1))
        else if b0 < 240 then
          (case t of b1 # b2 # _ \<Rightarrow>
             if (if b0 = 224 then 160 else 128) \<le> b1 \<and> b1 \<le> (if b0 = 237 then 159 else 191) \<and> cont_byte b2
             then ((b0 - 224) * 4096 + (b1 - 128) * 64 + (b2 - 128), 3) else (rune_error, 1)
           | _ \<Rightarrow> (rune_error, 1))
        else
          (case t of [b1, b2, b3] \<Rightarrow>
             if (if b0 = 240 then 144 else 128) \<le> b1 \<and> b1 \<le> (if b0 = 244 then 143 else 191)
                \<and> cont_byte b2 \<and> cont_byte b3
             then ((b0 - 240) * 262144 + (b1 - 128) * 4096 + (b2 - 128) * 64 + (b3 - 128), 4)
             else (rune_error, 1)
           | _ \<Rightarrow> (rune_error, 1)))"

text \<open>\<open>utf8.DecodeLastRuneInString\<close> walks back over at most three continuation bytes, decodes
  forward from there and accepts the rune only when it ends the string.\<close>

fun last_rune_start :: "nat \<Rightarrow> string \<Rightarrow> nat \<Rightarrow> nat" where
  "last_rune_start 0 s i = i"
| "last_rune_start (Suc n) s i =
     (if i = 0 then 0
      else if \<not> cont_byte (byte (s ! (i - 1))) then i - 1 else last_rune_start n s (i - 1))"

definition decode_last_rune :: "string \<Rightarrow> nat \<times> nat" where
  "decode_last_rune s =
     (if s = [] then (rune_error, 0)
      else if byte (last s) < 128 then (byte (last s), 1)
      else let start = last_rune_start 3 s (length s - 1);
               (r, n) = decode_rune (drop start s)
           in if start + n = length s then (r, n) else (rune_error, 1))"

definition encode_rune :: "nat \<Rightarrow> string" where
  "encode_rune r0 =
     (let r = (if 1114111 < r0 \<or> (55296 \<le> r0 \<and> r0 \<le> 57343) then rune_error else r0) in
      map char_of
       (if r < 128 then [r]
        else if r < 2048 then [192 + r div 64, 128 + r mod 64]
        else if r < 65536 then [224 + r div 4096, 128 + r div 64 mod 64, 128 + r mod 64]
        else [240 + r div 262144, 128 + r div 4096 mod 64, 128 + r div 64 mod 64, 128 + r mod 64]))"

lemma decode_rune_width:
  "s \<noteq> [] \<Longrightarrow> 1 \<le> snd (decode_rune s)"
  by (cases s) (auto simp: decode_rune_def Let_def split: list.splits if_splits)

lemma decode_last_rune_width:
  assumes "s \<noteq> []"
  shows "1 \<le> snd (decode_last_rune s)"
proof (cases "byte (last s) < 128")
  case True
  with assms show ?thesis by (simp add: decode_last_rune_def)
next
  case False
  let ?d = "last_rune_start 3 s (length s - 1)"
  have "last_rune_start n s i \<le> i" for n i
    by (induction n s i rule: last_rune_start.induct) auto
  then have "?d \<le> length s - 1" .
  with assms have "?d < length s" by (cases s) auto
  then have "drop ?d s \<noteq> []" by simp
  then show ?thesis
    using False assms decode_rune_width [of "drop ?d s"]
    by (auto simp: decode_last_rune_def Let_def split: prod.splits)
qed

text \<open>The rune sequence a \<open>range\<close> loop over a string visits.\<close>

function runes :: "string \<Rightarrow> nat list" where
  "runes s = (if s = [] then [] else fst (decode_rune s) # runes (drop (snd (decode_rune s)) s))"
  by pat_completeness auto
termination
  by (relation "measure length")
    (auto simp: diff_less, metis decode_rune_width diff_less length_greater_0_conv less_eq_Suc_le One_nat_def)

declare runes.simps [simp del]

definition valid_utf8 :: "string \<Rightarrow> bool" where
  "valid_utf8 s \<longleftrightarrow> concat (map encode_rune (runes s)) = s"


subsection \<open>Package unicode: the classes the code tests\<close>

definition is_control :: "nat \<Rightarrow> bool" where
  "is_control r \<longleftrightarrow> r \<le> 31 \<or> (127 \<le> r \<and> r \<le> 159)"

definition is_space :: "nat \<Rightarrow> bool" where
  "is_space r \<longleftrightarrow>
     (9 \<le> r \<and> r \<le> 13) \<or> r = 32 \<or> r = 133 \<or> r = 160 \<or> r = 5760 \<or> (8192 \<le> r \<and> r \<le> 8202) \<or>
     r = 8232 \<or> r = 8233 \<or> r = 8239 \<or> r = 8287 \<or> r = 12288"

definition contains_rune :: "(nat \<Rightarrow> bool) \<Rightarrow> string \<Rightarrow> bool" where
  "contains_rune P s \<longleftrightarrow> list_ex P (runes s)"

function trim_left_space :: "string \<Rightarrow> string" where
  "trim_left_space s =
     (if s \<noteq> [] \<and> is_space (fst (decode_rune s))
      then trim_left_space (drop (snd (decode_rune s)) s) else s)"
  by pat_completeness auto
termination
  by (relation "measure length")
    (auto, metis One_nat_def decode_rune_width diff_less length_greater_0_conv less_eq_Suc_le)

function trim_right_space :: "string \<Rightarrow> string" where
  "trim_right_space s =
     (if s \<noteq> [] \<and> is_space (fst (decode_last_rune s))
      then trim_right_space (take (length s - snd (decode_last_rune s)) s) else s)"
  by pat_completeness auto
termination
proof (relation "measure length")
  fix s :: string
  assume "s \<noteq> [] \<and> is_space (fst (decode_last_rune s))"
  then show "(take (length s - snd (decode_last_rune s)) s, s) \<in> measure length"
    using decode_last_rune_width [of s] by (cases s) auto
qed simp

declare trim_left_space.simps [simp del] trim_right_space.simps [simp del]

definition trim_space :: "string \<Rightarrow> string" where
  "trim_space s = trim_right_space (trim_left_space s)"

text \<open>
  The tables of package \<open>unicode\<close> beyond Latin-1 and the third-party case mapper
  \<open>golang.org/x/text/cases\<close> are parameters: a record of the functions the code calls.
\<close>

record unicode_tables =
  to_lower_rune :: "nat \<Rightarrow> nat"
  cased_rune :: "nat \<Rightarrow> bool"
  ignorable_rune :: "nat \<Rightarrow> bool"
  cases_lower :: "string \<Rightarrow> string"

definition lower_rune :: "unicode_tables \<Rightarrow> nat \<Rightarrow> nat" where
  "lower_rune u r = (if r < 128 then byte (ascii_lower (char_of r)) else to_lower_rune u r)"

definition to_lower :: "unicode_tables \<Rightarrow> string \<Rightarrow> string" where
  "to_lower u s = concat (map (encode_rune \<circ> lower_rune u) (runes s))"

subsection \<open>Maps with string keys\<close>

fun smap_put :: "string \<Rightarrow> 'v \<Rightarrow> 'v smap \<Rightarrow> 'v smap" where
  "smap_put k v [] = [(k, v)]"
| "smap_put k v ((k', v') # m) =
     (if k = k' then (k, v) # m
      else if k < k' then (k, v) # (k', v') # m
      else (k', v') # smap_put k v m)"

definition smap_wf :: "'v smap \<Rightarrow> bool" where
  "smap_wf m \<longleftrightarrow> sorted_wrt (<) (map fst m)"

definition smap_of_list :: "(string \<times> 'v) list \<Rightarrow> 'v smap" where
  "smap_of_list kvs = fold (\<lambda>(k, v). smap_put k v) kvs []"

text \<open>The contract a Go map with string keys gives its users.\<close>

locale string_map =
  fixes empty :: "'m"
    and put :: "string \<Rightarrow> 'v \<Rightarrow> 'm \<Rightarrow> 'm"
    and get :: "'m \<Rightarrow> string \<Rightarrow> 'v option"
    and wf :: "'m \<Rightarrow> bool"
  assumes get_empty: "get empty k = None"
    and get_put: "wf m \<Longrightarrow> get (put k v m) k' = (if k' = k then Some v else get m k')"
    and wf_empty: "wf empty"
    and wf_put: "wf m \<Longrightarrow> wf (put k v m)"
begin

definition put_all :: "(string \<times> 'v) list \<Rightarrow> 'm \<Rightarrow> 'm" where
  "put_all kvs m = fold (\<lambda>(k, v). put k v) kvs m"

lemma wf_put_all: "wf m \<Longrightarrow> wf (put_all kvs m)"
  by (induction kvs arbitrary: m) (auto simp: put_all_def wf_put)

lemma get_put_all:
  "wf m \<Longrightarrow> get (put_all kvs m) k =
     (case map_of (rev kvs) k of None \<Rightarrow> get m k | Some v \<Rightarrow> Some v)"
proof (induction kvs arbitrary: m)
  case Nil
  then show ?case by (simp add: put_all_def)
next
  case (Cons kv kvs)
  obtain k1 v1 where kv: "kv = (k1, v1)" by (cases kv)
  have "put_all (kv # kvs) m = put_all kvs (put k1 v1 m)"
    by (simp add: put_all_def kv)
  then show ?case
    using Cons.IH [of "put k1 v1 m"] Cons.prems
    by (auto simp: kv wf_put get_put map_add_def split: option.splits)
qed

end

lemma smap_wf_Nil [simp]: "smap_wf []"
  by (simp add: smap_wf_def)

lemma smap_put_keys: "set (map fst (smap_put k v m)) = insert k (set (map fst m))"
  by (induction k v m rule: smap_put.induct) auto

lemma smap_wf_put [wf_intros]: "smap_wf m \<Longrightarrow> smap_wf (smap_put k v m)"
proof (induction k v m rule: smap_put.induct)
  case (1 k v)
  then show ?case by (simp add: smap_wf_def)
next
  case (2 k v k' v' m)
  have "\<forall>x \<in> set (map fst (smap_put k v m)). k' < x" if "k' < k"
    using "2.prems" that unfolding smap_put_keys by (auto simp: smap_wf_def)
  with 2 show ?case
    by (auto simp: smap_wf_def not_less order_le_less intro: order.strict_trans)
qed

lemma smap_get_put: "smap_wf m \<Longrightarrow> map_of (smap_put k v m) k' = (if k' = k then Some v else map_of m k')"
proof (induction k v m rule: smap_put.induct)
  case (1 k v)
  then show ?case by simp
next
  case (2 k v k1 v1 m)
  then have "smap_wf m" by (simp add: smap_wf_def)
  with 2 show ?case by auto
qed

interpretation gomap: string_map "[]" smap_put map_of smap_wf
  by unfold_locales (simp_all add: smap_get_put smap_wf_put)

lemma smap_of_list_wf [wf_intros, simp]: "smap_wf (smap_of_list kvs)"
  using gomap.wf_put_all [OF gomap.wf_empty, of kvs]
  by (simp add: smap_of_list_def gomap.put_all_def)

lemma smap_of_list_get: "map_of (smap_of_list kvs) k = map_of (rev kvs) k"
  using gomap.get_put_all [OF gomap.wf_empty, of kvs k]
  by (simp add: smap_of_list_def gomap.put_all_def split: option.splits)

lemma smap_put_length:
  "smap_wf m \<Longrightarrow> length (smap_put k v m) = (if map_of m k = None then Suc (length m) else length m)"
proof (induction k v m rule: smap_put.induct)
  case (1 k v)
  then show ?case by simp
next
  case (2 k v k' v' m)
  have "map_of m k = None" if "k < k'"
    using "2.prems" that by (auto simp: smap_wf_def map_of_eq_None_iff dest: order.strict_trans)
  with 2 show ?case by (auto simp: smap_wf_def)
qed

subsection \<open>Generic lemmas\<close>

lemma check_None [simp]: "check ok e = None \<longleftrightarrow> ok"
  by (simp add: check_def)

lemma check_Some [simp]: "check ok e = Some e' \<longleftrightarrow> \<not> ok \<and> e' = e"
  by (auto simp: check_def)

lemma first_error_None: "first_error es = None \<longleftrightarrow> (\<forall>e \<in> set es. e = None)"
  by (induction es rule: first_error.induct) auto

lemma first_error_Cons: "first_error (e # es) = (case e of None \<Rightarrow> first_error es | Some x \<Rightarrow> Some x)"
  by (cases e) auto

lemma first_error_append:
  "first_error (es @ es') = (case first_error es of None \<Rightarrow> first_error es' | Some x \<Rightarrow> Some x)"
  by (induction es rule: first_error.induct) auto

lemma split_on_not_Nil [simp]: "split_on d s \<noteq> []"
  by (induction d s rule: split_on.induct) (auto split: list.splits)

lemma join_split [simp]: "join_with [d] (split_on d s) = s"
proof (induction s)
  case Nil
  then show ?case by simp
next
  case (Cons c s)
  obtain p ps where ps: "split_on d s = p # ps"
    using split_on_not_Nil [of d s] by (cases "split_on d s") auto
  with Cons show ?case by (cases ps) auto
qed

lemma split_on_no_sep: "p \<in> set (split_on d s) \<Longrightarrow> d \<notin> set p"
  by (induction s arbitrary: p) (auto split: list.splits if_splits)

lemma split_on_append: "split_on d (a @ d # b) = split_on d a @ split_on d b"
proof (induction a)
  case (Cons c a)
  obtain p ps where "split_on d a = p # ps"
    using split_on_not_Nil [of d a] by (cases "split_on d a") auto
  with Cons show ?case by auto
qed simp

lemma sublist_Cons_iff: "sublist xs (y # ys) \<longleftrightarrow> prefix xs (y # ys) \<or> sublist xs ys"
  by (meson sublist_Cons_right)

lemma split_on_hd_Nil: "split_on d s = [] # ps \<Longrightarrow> s = [] \<or> hd s = d"
  by (cases s) (auto split: list.splits if_splits)

text \<open>A component is empty only at a separator that starts, ends or doubles.\<close>

lemma split_on_empty_tl:
  "[] \<in> set (tl (split_on d s)) \<Longrightarrow> last s = d \<or> sublist [d, d] s"
proof (induction s)
  case (Cons c s)
  obtain p ps where ps: "split_on d s = p # ps"
    using split_on_not_Nil [of d s] by (cases "split_on d s") auto
  have tl_case: "last (c # s) = d \<or> sublist [d, d] (c # s)" if "[] \<in> set ps"
  proof -
    have "s \<noteq> []" using that ps by auto
    with Cons.IH that ps show ?thesis by (auto simp: sublist_Cons_iff)
  qed
  show ?case
  proof (cases "c = d \<and> p = []")
    case True
    with ps split_on_hd_Nil [of d s ps] have "s = [] \<or> hd s = d" by blast
    with True show ?thesis by (cases s) (auto simp: sublist_Cons_iff)
  next
    case False
    with Cons.prems ps have "[] \<in> set ps" by (auto split: if_splits)
    then show ?thesis by (rule tl_case)
  qed
qed simp

lemma split_on_empty_component:
  assumes "[] \<in> set (split_on d s)"
  shows "s = [] \<or> hd s = d \<or> last s = d \<or> sublist [d, d] s"
proof -
  obtain p ps where ps: "split_on d s = p # ps"
    using split_on_not_Nil [of d s] by (cases "split_on d s") auto
  with assms have "p = [] \<or> [] \<in> set (tl (split_on d s))" by auto
  with ps show ?thesis using split_on_hd_Nil split_on_empty_tl by blast
qed

lemma sint_unat_small:
  assumes "unat (w :: u64) < 2 ^ 63"
  shows "sint w = int (unat w)"
proof -
  have "int (unat w) < 2 ^ 63"
    using assms by (simp only: of_nat_less_numeral_power_cancel_iff)
  then have "signed_take_bit 63 (uint w) = uint w"
    by (intro signed_take_bit_int_eq_self) (auto intro: order_trans [of _ 0])
  then show ?thesis by (simp add: sint_uint)
qed

lemma list_ex_filter_empty: "\<not> list_ex P xs \<longleftrightarrow> filter P xs = []"
  by (induction xs) auto

lemma runes_ascii:
  "\<forall>c \<in> set s. byte c < 128 \<Longrightarrow> runes s = map byte s"
proof (induction s)
  case Nil
  then show ?case by (simp add: runes.simps)
next
  case (Cons c s)
  then have "decode_rune (c # s) = (byte c, 1)"
    by (simp add: decode_rune_def)
  with Cons show ?case by (simp add: runes.simps [of "c # s"])
qed

lemma encode_rune_ascii: "r < 128 \<Longrightarrow> encode_rune r = [char_of r]"
  by (simp add: encode_rune_def rune_error_def Let_def)

lemma ascii_lower_byte: "byte c < 128 \<Longrightarrow> byte (ascii_lower c) < 128"
  by (auto simp: ascii_lower_def less_eq_char_def)

lemma to_lower_ascii:
  assumes "\<forall>c \<in> set s. byte c < 128"
  shows "to_lower u s = map ascii_lower s"
proof -
  have "concat (map (encode_rune \<circ> lower_rune u) (map byte s)) = map ascii_lower s"
    using assms by (induction s) (auto simp: lower_rune_def encode_rune_ascii ascii_lower_byte)
  then show ?thesis using assms by (simp add: to_lower_def runes_ascii)
qed

subsection \<open>Evaluation on literals\<close>

lemma contains_rune_ascii [go_eval]:
  "\<forall>c \<in> set s. byte c < 128 \<Longrightarrow> contains_rune P s = list_ex (\<lambda>c. P (byte c)) s"
  by (simp add: contains_rune_def runes_ascii list_ex_iff)

lemma trim_space_plain [go_eval]:
  assumes "s \<noteq> []" "byte (hd s) < 128" "\<not> is_space (byte (hd s))" "byte (last s) < 128"
    "\<not> is_space (byte (last s))"
  shows "trim_space s = s"
proof -
  have "fst (decode_rune s) = byte (hd s)"
    using assms(1,2) by (cases s) (simp_all add: decode_rune_def)
  then have "trim_left_space s = s"
    using assms by (subst trim_left_space.simps) simp
  moreover have "trim_right_space s = s"
    using assms by (subst trim_right_space.simps) (simp add: decode_last_rune_def)
  ultimately show ?thesis by (simp add: trim_space_def)
qed

lemma trim_space_Nil [go_eval]: "trim_space [] = []"
  by (simp add: trim_space_def trim_left_space.simps trim_right_space.simps)

lemma valid_utf8_Nil [go_eval]: "valid_utf8 []"
  by code_simp

declare has_prefix_def [go_eval] has_suffix_def [go_eval] suffix_to_prefix [go_eval]
  str_contains_def [go_eval] sublist_Cons_iff [go_eval] is_control_def [go_eval] is_space_def [go_eval]
  less_eq_char_def [go_eval] less_char_def [go_eval] ascii_lower_def [go_eval] to_lower_ascii [go_eval]

end
