(* ===== verification/Wire_Enums.thy ===== *)
theory Wire_Enums
  imports Go_Prelude
begin

text \<open>
  The wire enumerations of \<open>internal/model\<close> and \<open>internal/config\<close> and the generic text codec of
  \<open>internal/wirejson\<close> they share. A Go enumeration is a \<open>uint8\<close> with named constants and a slice
  of wire names; here each is a datatype with the source's constants as constructors, the list
  \<open>..._values\<close> of them in the order of their codes, and the source's name slice.
  The locale \<open>wire_enum\<close> is the contract between such a type and the codec; it is interpreted
  for every enumeration, and the round trip of all of them rests on it.
\<close>

subsection \<open>The codec of package wirejson\<close>

datatype enum_error = InvalidEnumValue

definition EnumName :: "nat \<Rightarrow> string list \<Rightarrow> string" where
  "EnumName value names = (if length names \<le> value then [] else names ! value)"

definition EnumText :: "nat \<Rightarrow> string list \<Rightarrow> (enum_error, string) result" where
  "EnumText value names =
     (let name = EnumName value names in if name = [] then Inl InvalidEnumValue else Inr name)"

fun ParseEnum_from :: "nat \<Rightarrow> string \<Rightarrow> string list \<Rightarrow> (enum_error, nat) result" where
  "ParseEnum_from i word [] = Inl InvalidEnumValue"
| "ParseEnum_from i word (allowed # names) =
     (if word = allowed then Inr i else ParseEnum_from (Suc i) word names)"

definition ParseEnum :: "string \<Rightarrow> string list \<Rightarrow> (enum_error, nat) result" where
  "ParseEnum word names = ParseEnum_from 0 word names"

text \<open>The code of a constant is its place in the source's \<open>const\<close> block.\<close>

fun enum_code :: "'e list \<Rightarrow> 'e \<Rightarrow> nat" where
  "enum_code [] e = 0"
| "enum_code (v # vs) e = (if v = e then 0 else Suc (enum_code vs e))"

definition enum_string :: "'e list \<Rightarrow> string list \<Rightarrow> 'e \<Rightarrow> string" where
  "enum_string vs names e = EnumName (enum_code vs e) names"

definition enum_marshal :: "'e list \<Rightarrow> string list \<Rightarrow> 'e \<Rightarrow> (enum_error, string) result" where
  "enum_marshal vs names e = EnumText (enum_code vs e) names"

definition enum_unmarshal :: "'e list \<Rightarrow> string list \<Rightarrow> string \<Rightarrow> (enum_error, 'e) result" where
  "enum_unmarshal vs names word =
     (case ParseEnum word names of Inl e \<Rightarrow> Inl e | Inr i \<Rightarrow> Inr (vs ! i))"

subsection \<open>The enumerations\<close>

datatype status =
    StatusQueued | StatusExecuting | StatusReviewing | StatusRepairing | StatusVerifying
  | StatusPublishing | StatusPublished | StatusBlocked | StatusFailed | StatusCancelled

definition status_values :: "status list" where [enum_simps]:
  "status_values =
     [StatusQueued, StatusExecuting, StatusReviewing, StatusRepairing, StatusVerifying,
     StatusPublishing, StatusPublished, StatusBlocked, StatusFailed, StatusCancelled]"

definition statusNames :: "string list" where [enum_simps]:
  "statusNames =
     [''queued'', ''executing'', ''reviewing'', ''repairing'', ''verifying'', ''publishing'',
     ''published'', ''blocked'', ''failed'', ''cancelled'']"

definition Status_String :: "status \<Rightarrow> string" where
  "Status_String = enum_string status_values statusNames"

definition Status_MarshalText :: "status \<Rightarrow> (enum_error, string) result" where
  "Status_MarshalText = enum_marshal status_values statusNames"

definition Status_UnmarshalText :: "string \<Rightarrow> (enum_error, status) result" where
  "Status_UnmarshalText = enum_unmarshal status_values statusNames"

datatype blocked_reason =
    BlockedBudgetExhausted | BlockedStorageLimit | BlockedStaleBase | BlockedRemoteConflict
  | BlockedPublicationUncertain | BlockedRunnerUnavailable | BlockedInvalidReview
  | BlockedVerificationFailed | BlockedDependencyBlocked | BlockedInvalidPlan
  | BlockedWorkspaceInvalid | BlockedRetryLimit | BlockedTimeout | BlockedUnknown

definition blocked_reason_values :: "blocked_reason list" where [enum_simps]:
  "blocked_reason_values =
     [BlockedBudgetExhausted, BlockedStorageLimit, BlockedStaleBase, BlockedRemoteConflict,
     BlockedPublicationUncertain, BlockedRunnerUnavailable, BlockedInvalidReview,
     BlockedVerificationFailed, BlockedDependencyBlocked, BlockedInvalidPlan,
     BlockedWorkspaceInvalid, BlockedRetryLimit, BlockedTimeout, BlockedUnknown]"

definition blockedReasonNames :: "string list" where [enum_simps]:
  "blockedReasonNames =
     [''budget_exhausted'', ''storage_limit'', ''stale_base'', ''remote_conflict'',
     ''publication_uncertain'', ''runner_unavailable'', ''invalid_review'',
     ''verification_failed'', ''dependency_blocked'', ''invalid_plan'', ''workspace_invalid'',
     ''retry_limit'', ''timeout'', ''unknown'']"

definition BlockedReason_String :: "blocked_reason \<Rightarrow> string" where
  "BlockedReason_String = enum_string blocked_reason_values blockedReasonNames"

definition BlockedReason_MarshalText :: "blocked_reason \<Rightarrow> (enum_error, string) result" where
  "BlockedReason_MarshalText = enum_marshal blocked_reason_values blockedReasonNames"

definition BlockedReason_UnmarshalText :: "string \<Rightarrow> (enum_error, blocked_reason) result" where
  "BlockedReason_UnmarshalText = enum_unmarshal blocked_reason_values blockedReasonNames"

datatype capacity_status =
    CapacityReady | CapacityExhausted | CapacityTooLow

definition capacity_status_values :: "capacity_status list" where [enum_simps]:
  "capacity_status_values =
     [CapacityReady, CapacityExhausted, CapacityTooLow]"

definition planningCapacityStatusNames :: "string list" where [enum_simps]:
  "planningCapacityStatusNames =
     [''ready'', ''daily_exhausted'', ''limit_too_low'']"

definition CapacityStatus_String :: "capacity_status \<Rightarrow> string" where
  "CapacityStatus_String = enum_string capacity_status_values planningCapacityStatusNames"

definition CapacityStatus_MarshalText :: "capacity_status \<Rightarrow> (enum_error, string) result" where
  "CapacityStatus_MarshalText = enum_marshal capacity_status_values planningCapacityStatusNames"

definition CapacityStatus_UnmarshalText :: "string \<Rightarrow> (enum_error, capacity_status) result" where
  "CapacityStatus_UnmarshalText = enum_unmarshal capacity_status_values planningCapacityStatusNames"

datatype baseline_status =
    BaselineStatusRunning | BaselineStatusPassed | BaselineStatusFailed
  | BaselineStatusCancelled | BaselineStatusTimedOut | BaselineStatusInterrupted

definition baseline_status_values :: "baseline_status list" where [enum_simps]:
  "baseline_status_values =
     [BaselineStatusRunning, BaselineStatusPassed, BaselineStatusFailed,
     BaselineStatusCancelled, BaselineStatusTimedOut, BaselineStatusInterrupted]"

definition baselineStatusNames :: "string list" where [enum_simps]:
  "baselineStatusNames =
     [''running'', ''passed'', ''failed'', ''cancelled'', ''timed_out'', ''interrupted'']"

definition BaselineStatus_String :: "baseline_status \<Rightarrow> string" where
  "BaselineStatus_String = enum_string baseline_status_values baselineStatusNames"

definition BaselineStatus_MarshalText :: "baseline_status \<Rightarrow> (enum_error, string) result" where
  "BaselineStatus_MarshalText = enum_marshal baseline_status_values baselineStatusNames"

definition BaselineStatus_UnmarshalText :: "string \<Rightarrow> (enum_error, baseline_status) result" where
  "BaselineStatus_UnmarshalText = enum_unmarshal baseline_status_values baselineStatusNames"

datatype cycle_status =
    CycleRunning | CycleCompleted | CycleIdle | CycleFailed | CycleInterrupted

definition cycle_status_values :: "cycle_status list" where [enum_simps]:
  "cycle_status_values =
     [CycleRunning, CycleCompleted, CycleIdle, CycleFailed, CycleInterrupted]"

definition cycleStatusNames :: "string list" where [enum_simps]:
  "cycleStatusNames =
     [''running'', ''completed'', ''idle'', ''failed'', ''interrupted'']"

definition CycleStatus_String :: "cycle_status \<Rightarrow> string" where
  "CycleStatus_String = enum_string cycle_status_values cycleStatusNames"

definition CycleStatus_MarshalText :: "cycle_status \<Rightarrow> (enum_error, string) result" where
  "CycleStatus_MarshalText = enum_marshal cycle_status_values cycleStatusNames"

definition CycleStatus_UnmarshalText :: "string \<Rightarrow> (enum_error, cycle_status) result" where
  "CycleStatus_UnmarshalText = enum_unmarshal cycle_status_values cycleStatusNames"

datatype session_status =
    SessionRunning | SessionCompleted | SessionFailed | SessionInterrupted

definition session_status_values :: "session_status list" where [enum_simps]:
  "session_status_values =
     [SessionRunning, SessionCompleted, SessionFailed, SessionInterrupted]"

definition sessionStatusNames :: "string list" where [enum_simps]:
  "sessionStatusNames =
     [''running'', ''completed'', ''failed'', ''interrupted'']"

definition SessionStatus_String :: "session_status \<Rightarrow> string" where
  "SessionStatus_String = enum_string session_status_values sessionStatusNames"

definition SessionStatus_MarshalText :: "session_status \<Rightarrow> (enum_error, string) result" where
  "SessionStatus_MarshalText = enum_marshal session_status_values sessionStatusNames"

definition SessionStatus_UnmarshalText :: "string \<Rightarrow> (enum_error, session_status) result" where
  "SessionStatus_UnmarshalText = enum_unmarshal session_status_values sessionStatusNames"

datatype cycle_mode =
    CycleModeExecution | CycleModeAudit

definition cycle_mode_values :: "cycle_mode list" where [enum_simps]:
  "cycle_mode_values =
     [CycleModeExecution, CycleModeAudit]"

definition cycleModeNames :: "string list" where [enum_simps]:
  "cycleModeNames =
     [''execution'', ''audit'']"

definition CycleMode_String :: "cycle_mode \<Rightarrow> string" where
  "CycleMode_String = enum_string cycle_mode_values cycleModeNames"

definition CycleMode_MarshalText :: "cycle_mode \<Rightarrow> (enum_error, string) result" where
  "CycleMode_MarshalText = enum_marshal cycle_mode_values cycleModeNames"

definition CycleMode_UnmarshalText :: "string \<Rightarrow> (enum_error, cycle_mode) result" where
  "CycleMode_UnmarshalText = enum_unmarshal cycle_mode_values cycleModeNames"

datatype operating_mode =
    OperatingModePaused | OperatingModeRunOnce | OperatingModeContinuous

definition operating_mode_values :: "operating_mode list" where [enum_simps]:
  "operating_mode_values =
     [OperatingModePaused, OperatingModeRunOnce, OperatingModeContinuous]"

definition operatingModeNames :: "string list" where [enum_simps]:
  "operatingModeNames =
     [''paused'', ''run_once'', ''continuous'']"

definition OperatingMode_String :: "operating_mode \<Rightarrow> string" where
  "OperatingMode_String = enum_string operating_mode_values operatingModeNames"

definition OperatingMode_MarshalText :: "operating_mode \<Rightarrow> (enum_error, string) result" where
  "OperatingMode_MarshalText = enum_marshal operating_mode_values operatingModeNames"

definition OperatingMode_UnmarshalText :: "string \<Rightarrow> (enum_error, operating_mode) result" where
  "OperatingMode_UnmarshalText = enum_unmarshal operating_mode_values operatingModeNames"

datatype batch_phase =
    BatchPhaseDraining | BatchPhasePlanning | BatchPhaseExecuting | BatchPhaseMerging

definition batch_phase_values :: "batch_phase list" where [enum_simps]:
  "batch_phase_values =
     [BatchPhaseDraining, BatchPhasePlanning, BatchPhaseExecuting, BatchPhaseMerging]"

definition batchPhaseNames :: "string list" where [enum_simps]:
  "batchPhaseNames =
     [''draining'', ''planning'', ''executing'', ''merging'']"

definition BatchPhase_String :: "batch_phase \<Rightarrow> string" where
  "BatchPhase_String = enum_string batch_phase_values batchPhaseNames"

definition BatchPhase_MarshalText :: "batch_phase \<Rightarrow> (enum_error, string) result" where
  "BatchPhase_MarshalText = enum_marshal batch_phase_values batchPhaseNames"

definition BatchPhase_UnmarshalText :: "string \<Rightarrow> (enum_error, batch_phase) result" where
  "BatchPhase_UnmarshalText = enum_unmarshal batch_phase_values batchPhaseNames"

datatype auto_merge_status =
    AutoMergeWaiting | AutoMergeManual | AutoMergeMerging | AutoMergeUncertain
  | AutoMergeMerged | AutoMergeClosed

definition auto_merge_status_values :: "auto_merge_status list" where [enum_simps]:
  "auto_merge_status_values =
     [AutoMergeWaiting, AutoMergeManual, AutoMergeMerging, AutoMergeUncertain, AutoMergeMerged,
     AutoMergeClosed]"

definition autoMergeStatusNames :: "string list" where [enum_simps]:
  "autoMergeStatusNames =
     [''waiting'', ''manual'', ''merging'', ''uncertain'', ''merged'', ''closed'']"

definition AutoMergeStatus_String :: "auto_merge_status \<Rightarrow> string" where
  "AutoMergeStatus_String = enum_string auto_merge_status_values autoMergeStatusNames"

definition AutoMergeStatus_MarshalText :: "auto_merge_status \<Rightarrow> (enum_error, string) result" where
  "AutoMergeStatus_MarshalText = enum_marshal auto_merge_status_values autoMergeStatusNames"

definition AutoMergeStatus_UnmarshalText :: "string \<Rightarrow> (enum_error, auto_merge_status) result" where
  "AutoMergeStatus_UnmarshalText = enum_unmarshal auto_merge_status_values autoMergeStatusNames"

datatype request_status =
    RequestPending | RequestAccepted | RequestRejected | RequestWithdrawn

definition request_status_values :: "request_status list" where [enum_simps]:
  "request_status_values =
     [RequestPending, RequestAccepted, RequestRejected, RequestWithdrawn]"

definition requestStatusNames :: "string list" where [enum_simps]:
  "requestStatusNames =
     [''pending'', ''accepted'', ''rejected'', ''withdrawn'']"

definition RequestStatus_String :: "request_status \<Rightarrow> string" where
  "RequestStatus_String = enum_string request_status_values requestStatusNames"

definition RequestStatus_MarshalText :: "request_status \<Rightarrow> (enum_error, string) result" where
  "RequestStatus_MarshalText = enum_marshal request_status_values requestStatusNames"

definition RequestStatus_UnmarshalText :: "string \<Rightarrow> (enum_error, request_status) result" where
  "RequestStatus_UnmarshalText = enum_unmarshal request_status_values requestStatusNames"

datatype task_action =
    TaskActionCancel | TaskActionRetry | TaskActionSupersede | TaskActionArchive
  | TaskActionDiscard | TaskActionReconcile

definition task_action_values :: "task_action list" where [enum_simps]:
  "task_action_values =
     [TaskActionCancel, TaskActionRetry, TaskActionSupersede, TaskActionArchive,
     TaskActionDiscard, TaskActionReconcile]"

definition taskActionNames :: "string list" where [enum_simps]:
  "taskActionNames =
     [''cancel'', ''retry'', ''supersede'', ''archive'', ''discard'', ''reconcile'']"

definition TaskAction_String :: "task_action \<Rightarrow> string" where
  "TaskAction_String = enum_string task_action_values taskActionNames"

definition TaskAction_MarshalText :: "task_action \<Rightarrow> (enum_error, string) result" where
  "TaskAction_MarshalText = enum_marshal task_action_values taskActionNames"

definition TaskAction_UnmarshalText :: "string \<Rightarrow> (enum_error, task_action) result" where
  "TaskAction_UnmarshalText = enum_unmarshal task_action_values taskActionNames"

datatype cycle_action =
    CycleActionArchive | CycleActionDiscard

definition cycle_action_values :: "cycle_action list" where [enum_simps]:
  "cycle_action_values =
     [CycleActionArchive, CycleActionDiscard]"

definition cycleActionNames :: "string list" where [enum_simps]:
  "cycleActionNames =
     [''archive'', ''discard'']"

definition CycleAction_String :: "cycle_action \<Rightarrow> string" where
  "CycleAction_String = enum_string cycle_action_values cycleActionNames"

definition CycleAction_MarshalText :: "cycle_action \<Rightarrow> (enum_error, string) result" where
  "CycleAction_MarshalText = enum_marshal cycle_action_values cycleActionNames"

definition CycleAction_UnmarshalText :: "string \<Rightarrow> (enum_error, cycle_action) result" where
  "CycleAction_UnmarshalText = enum_unmarshal cycle_action_values cycleActionNames"

datatype request_action =
    RequestActionWithdraw

definition request_action_values :: "request_action list" where [enum_simps]:
  "request_action_values =
     [RequestActionWithdraw]"

definition requestActionNames :: "string list" where [enum_simps]:
  "requestActionNames =
     [''withdraw'']"

definition RequestAction_String :: "request_action \<Rightarrow> string" where
  "RequestAction_String = enum_string request_action_values requestActionNames"

definition RequestAction_MarshalText :: "request_action \<Rightarrow> (enum_error, string) result" where
  "RequestAction_MarshalText = enum_marshal request_action_values requestActionNames"

definition RequestAction_UnmarshalText :: "string \<Rightarrow> (enum_error, request_action) result" where
  "RequestAction_UnmarshalText = enum_unmarshal request_action_values requestActionNames"

datatype control_action =
    ControlPause | ControlResume | ControlCycle | ControlAudit

definition control_action_values :: "control_action list" where [enum_simps]:
  "control_action_values =
     [ControlPause, ControlResume, ControlCycle, ControlAudit]"

definition controlActionNames :: "string list" where [enum_simps]:
  "controlActionNames =
     [''pause'', ''resume'', ''cycle'', ''audit'']"

definition ControlAction_String :: "control_action \<Rightarrow> string" where
  "ControlAction_String = enum_string control_action_values controlActionNames"

definition ControlAction_MarshalText :: "control_action \<Rightarrow> (enum_error, string) result" where
  "ControlAction_MarshalText = enum_marshal control_action_values controlActionNames"

definition ControlAction_UnmarshalText :: "string \<Rightarrow> (enum_error, control_action) result" where
  "ControlAction_UnmarshalText = enum_unmarshal control_action_values controlActionNames"

datatype event_kind =
    EventAttemptPolicy | EventAutomerge | EventBaseline | EventBaselineError
  | EventCleanupError | EventConfiguration | EventError | EventGrounding
  | EventHousekeepingError | EventInterrupted | EventMaintenance | EventOperator
  | EventPlanningCapacity | EventPlanningError | EventRecovery | EventRecoveryError
  | EventRunComplete | EventSandboxEvidence | EventSessionProgress | EventSessionStarted
  | EventStatus | EventUpgrade | EventWorkerError | EventRequest

definition event_kind_values :: "event_kind list" where [enum_simps]:
  "event_kind_values =
     [EventAttemptPolicy, EventAutomerge, EventBaseline, EventBaselineError, EventCleanupError,
     EventConfiguration, EventError, EventGrounding, EventHousekeepingError, EventInterrupted,
     EventMaintenance, EventOperator, EventPlanningCapacity, EventPlanningError, EventRecovery,
     EventRecoveryError, EventRunComplete, EventSandboxEvidence, EventSessionProgress,
     EventSessionStarted, EventStatus, EventUpgrade, EventWorkerError, EventRequest]"

definition eventKindNames :: "string list" where [enum_simps]:
  "eventKindNames =
     [''attempt_policy'', ''automerge'', ''baseline'', ''baseline_error'', ''cleanup_error'',
     ''configuration'', ''error'', ''grounding'', ''housekeeping_error'', ''interrupted'',
     ''maintenance'', ''operator'', ''planning_capacity'', ''planning_error'', ''recovery'',
     ''recovery_error'', ''run_complete'', ''sandbox_evidence'', ''session_progress'',
     ''session_started'', ''status'', ''upgrade'', ''worker_error'', ''request'']"

definition EventKind_String :: "event_kind \<Rightarrow> string" where
  "EventKind_String = enum_string event_kind_values eventKindNames"

definition EventKind_MarshalText :: "event_kind \<Rightarrow> (enum_error, string) result" where
  "EventKind_MarshalText = enum_marshal event_kind_values eventKindNames"

definition EventKind_UnmarshalText :: "string \<Rightarrow> (enum_error, event_kind) result" where
  "EventKind_UnmarshalText = enum_unmarshal event_kind_values eventKindNames"

datatype backend =
    BackendCodex | BackendOpencode

definition backend_values :: "backend list" where [enum_simps]:
  "backend_values =
     [BackendCodex, BackendOpencode]"

definition backendNames :: "string list" where [enum_simps]:
  "backendNames =
     [''codex'', ''opencode'']"

definition Backend_String :: "backend \<Rightarrow> string" where
  "Backend_String = enum_string backend_values backendNames"

definition Backend_MarshalText :: "backend \<Rightarrow> (enum_error, string) result" where
  "Backend_MarshalText = enum_marshal backend_values backendNames"

definition Backend_UnmarshalText :: "string \<Rightarrow> (enum_error, backend) result" where
  "Backend_UnmarshalText = enum_unmarshal backend_values backendNames"

datatype delivery_mode =
    DeliveryModeStandard | DeliveryModeMaintenance

definition delivery_mode_values :: "delivery_mode list" where [enum_simps]:
  "delivery_mode_values =
     [DeliveryModeStandard, DeliveryModeMaintenance]"

definition deliveryModeNames :: "string list" where [enum_simps]:
  "deliveryModeNames =
     [''standard'', ''maintenance'']"

definition DeliveryMode_String :: "delivery_mode \<Rightarrow> string" where
  "DeliveryMode_String = enum_string delivery_mode_values deliveryModeNames"

definition DeliveryMode_MarshalText :: "delivery_mode \<Rightarrow> (enum_error, string) result" where
  "DeliveryMode_MarshalText = enum_marshal delivery_mode_values deliveryModeNames"

definition DeliveryMode_UnmarshalText :: "string \<Rightarrow> (enum_error, delivery_mode) result" where
  "DeliveryMode_UnmarshalText = enum_unmarshal delivery_mode_values deliveryModeNames"

definition AutoMergeStatus_Pending :: "auto_merge_status \<Rightarrow> bool" where
  "AutoMergeStatus_Pending v \<longleftrightarrow>
     v = AutoMergeWaiting \<or> v = AutoMergeMerging \<or> v = AutoMergeUncertain"

definition ErrorEventKinds :: "event_kind list" where
  "ErrorEventKinds =
     [EventError, EventPlanningError, EventWorkerError, EventRecoveryError, EventCleanupError,
      EventHousekeepingError, EventBaselineError]"

subsection \<open>The contract of an enumeration and its codec\<close>

lemma ParseEnum_from_Inr:
  "ParseEnum_from i word names = Inr j \<Longrightarrow> i \<le> j \<and> j - i < length names \<and> names ! (j - i) = word"
proof (induction i word names arbitrary: j rule: ParseEnum_from.induct)
  case (2 i word allowed names)
  show ?case
  proof (cases "word = allowed")
    case False
    with 2 have "Suc i \<le> j \<and> j - Suc i < length names \<and> names ! (j - Suc i) = word"
      by simp
    moreover from this have "j - i = Suc (j - Suc i)" by linarith
    ultimately show ?thesis by simp
  qed (use 2 in simp)
qed simp

lemma ParseEnum_from_nth:
  "distinct names \<Longrightarrow> k < length names \<Longrightarrow> ParseEnum_from i (names ! k) names = Inr (i + k)"
proof (induction names arbitrary: i k)
  case (Cons a names)
  then show ?case by (cases k) auto
qed simp

locale wire_enum =
  fixes vals :: "'e list" and names :: "string list"
  assumes all_vals: "e \<in> set vals"
    and distinct_names: "distinct names"
    and same_length: "length names = length vals"
    and no_empty_name: "[] \<notin> set names"
begin

lemma code_less: "enum_code vals e < length vals"
proof -
  have "e \<in> set vs \<Longrightarrow> enum_code vs e < length vs" for vs
    by (induction vs) auto
  then show ?thesis using all_vals by blast
qed

lemma nth_code: "vals ! enum_code vals e = e"
proof -
  have "e \<in> set vs \<Longrightarrow> vs ! enum_code vs e = e" for vs
    by (induction vs) auto
  then show ?thesis using all_vals by blast
qed

lemma code_less_names: "enum_code vals e < length names"
  using code_less same_length by simp

lemma string_in_names: "enum_string vals names e \<in> set names"
  using code_less_names [of e] by (simp add: enum_string_def EnumName_def)

lemma marshal_string: "enum_marshal vals names e = Inr (enum_string vals names e)"
  using string_in_names [of e] no_empty_name
  by (auto simp: enum_marshal_def EnumText_def enum_string_def Let_def)

lemma unmarshal_string: "enum_unmarshal vals names (enum_string vals names e) = Inr e"
  using ParseEnum_from_nth [OF distinct_names code_less_names, of 0 e] code_less_names [of e]
  by (simp add: enum_unmarshal_def ParseEnum_def enum_string_def EnumName_def nth_code)

lemma unmarshal_sound:
  assumes "enum_unmarshal vals names word = Inr e" and "distinct vals"
  shows "enum_string vals names e = word"
proof -
  from assms(1) obtain i where i: "ParseEnum word names = Inr i" and e: "e = vals ! i"
    by (auto simp: enum_unmarshal_def split: sum.splits)
  from i have ii: "i < length names" "names ! i = word"
    using ParseEnum_from_Inr [of 0 word names i] by (auto simp: ParseEnum_def)
  have "enum_code vs (vs ! j) = j" if "distinct vs" "j < length vs" for vs j
    using that
  proof (induction vs arbitrary: j)
    case (Cons a vs)
    then show ?case by (cases j) auto
  qed simp
  from this [OF assms(2), of i] ii same_length have "enum_code vals e = i"
    by (simp add: e)
  with ii show ?thesis by (simp add: enum_string_def EnumName_def)
qed

text \<open>Decoding accepts exactly the wire names, and the value it returns encodes back to them.\<close>

lemma unmarshal_iff:
  assumes "distinct vals"
  shows "enum_unmarshal vals names word = Inr e \<longleftrightarrow> enum_string vals names e = word"
  using unmarshal_sound [OF _ assms] unmarshal_string by blast

lemma string_inj: "enum_string vals names e = enum_string vals names e' \<Longrightarrow> e = e'"
  by (metis unmarshal_string sum.inject(2))

end

subsection \<open>Every enumeration keeps the contract\<close>

interpretation en_status: wire_enum status_values statusNames
proof
  fix e :: status
  show "e \<in> set status_values" by (cases e) (simp_all add: enum_simps)
qed (simp_all add: enum_simps)

interpretation en_blocked_reason: wire_enum blocked_reason_values blockedReasonNames
proof
  fix e :: blocked_reason
  show "e \<in> set blocked_reason_values" by (cases e) (simp_all add: enum_simps)
qed (simp_all add: enum_simps)

interpretation en_capacity_status: wire_enum capacity_status_values planningCapacityStatusNames
proof
  fix e :: capacity_status
  show "e \<in> set capacity_status_values" by (cases e) (simp_all add: enum_simps)
qed (simp_all add: enum_simps)

interpretation en_baseline_status: wire_enum baseline_status_values baselineStatusNames
proof
  fix e :: baseline_status
  show "e \<in> set baseline_status_values" by (cases e) (simp_all add: enum_simps)
qed (simp_all add: enum_simps)

interpretation en_cycle_status: wire_enum cycle_status_values cycleStatusNames
proof
  fix e :: cycle_status
  show "e \<in> set cycle_status_values" by (cases e) (simp_all add: enum_simps)
qed (simp_all add: enum_simps)

interpretation en_session_status: wire_enum session_status_values sessionStatusNames
proof
  fix e :: session_status
  show "e \<in> set session_status_values" by (cases e) (simp_all add: enum_simps)
qed (simp_all add: enum_simps)

interpretation en_cycle_mode: wire_enum cycle_mode_values cycleModeNames
proof
  fix e :: cycle_mode
  show "e \<in> set cycle_mode_values" by (cases e) (simp_all add: enum_simps)
qed (simp_all add: enum_simps)

interpretation en_operating_mode: wire_enum operating_mode_values operatingModeNames
proof
  fix e :: operating_mode
  show "e \<in> set operating_mode_values" by (cases e) (simp_all add: enum_simps)
qed (simp_all add: enum_simps)

interpretation en_batch_phase: wire_enum batch_phase_values batchPhaseNames
proof
  fix e :: batch_phase
  show "e \<in> set batch_phase_values" by (cases e) (simp_all add: enum_simps)
qed (simp_all add: enum_simps)

interpretation en_auto_merge_status: wire_enum auto_merge_status_values autoMergeStatusNames
proof
  fix e :: auto_merge_status
  show "e \<in> set auto_merge_status_values" by (cases e) (simp_all add: enum_simps)
qed (simp_all add: enum_simps)

interpretation en_request_status: wire_enum request_status_values requestStatusNames
proof
  fix e :: request_status
  show "e \<in> set request_status_values" by (cases e) (simp_all add: enum_simps)
qed (simp_all add: enum_simps)

interpretation en_task_action: wire_enum task_action_values taskActionNames
proof
  fix e :: task_action
  show "e \<in> set task_action_values" by (cases e) (simp_all add: enum_simps)
qed (simp_all add: enum_simps)

interpretation en_cycle_action: wire_enum cycle_action_values cycleActionNames
proof
  fix e :: cycle_action
  show "e \<in> set cycle_action_values" by (cases e) (simp_all add: enum_simps)
qed (simp_all add: enum_simps)

interpretation en_request_action: wire_enum request_action_values requestActionNames
proof
  fix e :: request_action
  show "e \<in> set request_action_values" by (cases e) (simp_all add: enum_simps)
qed (simp_all add: enum_simps)

interpretation en_control_action: wire_enum control_action_values controlActionNames
proof
  fix e :: control_action
  show "e \<in> set control_action_values" by (cases e) (simp_all add: enum_simps)
qed (simp_all add: enum_simps)

interpretation en_event_kind: wire_enum event_kind_values eventKindNames
proof
  fix e :: event_kind
  show "e \<in> set event_kind_values" by (cases e) (simp_all add: enum_simps)
qed (simp_all add: enum_simps)

interpretation en_backend: wire_enum backend_values backendNames
proof
  fix e :: backend
  show "e \<in> set backend_values" by (cases e) (simp_all add: enum_simps)
qed (simp_all add: enum_simps)

interpretation en_delivery_mode: wire_enum delivery_mode_values deliveryModeNames
proof
  fix e :: delivery_mode
  show "e \<in> set delivery_mode_values" by (cases e) (simp_all add: enum_simps)
qed (simp_all add: enum_simps)

lemmas enum_text_defs =
  Status_MarshalText_def Status_UnmarshalText_def BlockedReason_MarshalText_def
  BlockedReason_UnmarshalText_def CapacityStatus_MarshalText_def
  CapacityStatus_UnmarshalText_def BaselineStatus_MarshalText_def
  BaselineStatus_UnmarshalText_def CycleStatus_MarshalText_def CycleStatus_UnmarshalText_def
  SessionStatus_MarshalText_def SessionStatus_UnmarshalText_def CycleMode_MarshalText_def
  CycleMode_UnmarshalText_def OperatingMode_MarshalText_def OperatingMode_UnmarshalText_def
  BatchPhase_MarshalText_def BatchPhase_UnmarshalText_def AutoMergeStatus_MarshalText_def
  AutoMergeStatus_UnmarshalText_def RequestStatus_MarshalText_def
  RequestStatus_UnmarshalText_def TaskAction_MarshalText_def TaskAction_UnmarshalText_def
  CycleAction_MarshalText_def CycleAction_UnmarshalText_def RequestAction_MarshalText_def
  RequestAction_UnmarshalText_def ControlAction_MarshalText_def ControlAction_UnmarshalText_def
  EventKind_MarshalText_def EventKind_UnmarshalText_def Backend_MarshalText_def
  Backend_UnmarshalText_def DeliveryMode_MarshalText_def DeliveryMode_UnmarshalText_def


lemmas enum_string_defs =
  Status_String_def BlockedReason_String_def CapacityStatus_String_def BaselineStatus_String_def
  CycleStatus_String_def SessionStatus_String_def CycleMode_String_def OperatingMode_String_def
  BatchPhase_String_def AutoMergeStatus_String_def RequestStatus_String_def TaskAction_String_def
  CycleAction_String_def RequestAction_String_def ControlAction_String_def EventKind_String_def
  Backend_String_def DeliveryMode_String_def

lemma distinct_enum_values:
  "distinct status_values"
  "distinct blocked_reason_values"
  "distinct capacity_status_values"
  "distinct baseline_status_values"
  "distinct cycle_status_values"
  "distinct session_status_values"
  "distinct cycle_mode_values"
  "distinct operating_mode_values"
  "distinct batch_phase_values"
  "distinct auto_merge_status_values"
  "distinct request_status_values"
  "distinct task_action_values"
  "distinct cycle_action_values"
  "distinct request_action_values"
  "distinct control_action_values"
  "distinct event_kind_values"
  "distinct backend_values"
  "distinct delivery_mode_values"
  by (simp_all add: enum_simps)

lemmas enum_decoding =
  en_status.unmarshal_iff [OF distinct_enum_values(1)]
  en_blocked_reason.unmarshal_iff [OF distinct_enum_values(2)]
  en_capacity_status.unmarshal_iff [OF distinct_enum_values(3)]
  en_baseline_status.unmarshal_iff [OF distinct_enum_values(4)]
  en_cycle_status.unmarshal_iff [OF distinct_enum_values(5)]
  en_session_status.unmarshal_iff [OF distinct_enum_values(6)]
  en_cycle_mode.unmarshal_iff [OF distinct_enum_values(7)]
  en_operating_mode.unmarshal_iff [OF distinct_enum_values(8)]
  en_batch_phase.unmarshal_iff [OF distinct_enum_values(9)]
  en_auto_merge_status.unmarshal_iff [OF distinct_enum_values(10)]
  en_request_status.unmarshal_iff [OF distinct_enum_values(11)]
  en_task_action.unmarshal_iff [OF distinct_enum_values(12)]
  en_cycle_action.unmarshal_iff [OF distinct_enum_values(13)]
  en_request_action.unmarshal_iff [OF distinct_enum_values(14)]
  en_control_action.unmarshal_iff [OF distinct_enum_values(15)]
  en_event_kind.unmarshal_iff [OF distinct_enum_values(16)]
  en_backend.unmarshal_iff [OF distinct_enum_values(17)]
  en_delivery_mode.unmarshal_iff [OF distinct_enum_values(18)]

lemmas enum_encoding =
  en_status.marshal_string
  en_blocked_reason.marshal_string
  en_capacity_status.marshal_string
  en_baseline_status.marshal_string
  en_cycle_status.marshal_string
  en_session_status.marshal_string
  en_cycle_mode.marshal_string
  en_operating_mode.marshal_string
  en_batch_phase.marshal_string
  en_auto_merge_status.marshal_string
  en_request_status.marshal_string
  en_task_action.marshal_string
  en_cycle_action.marshal_string
  en_request_action.marshal_string
  en_control_action.marshal_string
  en_event_kind.marshal_string
  en_backend.marshal_string
  en_delivery_mode.marshal_string

subsection \<open>Properties\<close>

text \<open>Decoding the text of any of the eighteen wire enumerations succeeds exactly on the wire names and
  returns the one value whose name it was: decoding inverts encoding, distinct values have distinct names
  and every other text is refused.\<close>

lemma enum_text_decodes:
  "(\<forall>word v. Status_UnmarshalText word = Inr v \<longleftrightarrow> Status_String v = word) \<and>
   (\<forall>word v. BlockedReason_UnmarshalText word = Inr v \<longleftrightarrow> BlockedReason_String v = word) \<and>
   (\<forall>word v. CapacityStatus_UnmarshalText word = Inr v \<longleftrightarrow> CapacityStatus_String v = word) \<and>
   (\<forall>word v. BaselineStatus_UnmarshalText word = Inr v \<longleftrightarrow> BaselineStatus_String v = word) \<and>
   (\<forall>word v. CycleStatus_UnmarshalText word = Inr v \<longleftrightarrow> CycleStatus_String v = word) \<and>
   (\<forall>word v. SessionStatus_UnmarshalText word = Inr v \<longleftrightarrow> SessionStatus_String v = word) \<and>
   (\<forall>word v. CycleMode_UnmarshalText word = Inr v \<longleftrightarrow> CycleMode_String v = word) \<and>
   (\<forall>word v. OperatingMode_UnmarshalText word = Inr v \<longleftrightarrow> OperatingMode_String v = word) \<and>
   (\<forall>word v. BatchPhase_UnmarshalText word = Inr v \<longleftrightarrow> BatchPhase_String v = word) \<and>
   (\<forall>word v. AutoMergeStatus_UnmarshalText word = Inr v \<longleftrightarrow> AutoMergeStatus_String v = word) \<and>
   (\<forall>word v. RequestStatus_UnmarshalText word = Inr v \<longleftrightarrow> RequestStatus_String v = word) \<and>
   (\<forall>word v. TaskAction_UnmarshalText word = Inr v \<longleftrightarrow> TaskAction_String v = word) \<and>
   (\<forall>word v. CycleAction_UnmarshalText word = Inr v \<longleftrightarrow> CycleAction_String v = word) \<and>
   (\<forall>word v. RequestAction_UnmarshalText word = Inr v \<longleftrightarrow> RequestAction_String v = word) \<and>
   (\<forall>word v. ControlAction_UnmarshalText word = Inr v \<longleftrightarrow> ControlAction_String v = word) \<and>
   (\<forall>word v. EventKind_UnmarshalText word = Inr v \<longleftrightarrow> EventKind_String v = word) \<and>
   (\<forall>word v. Backend_UnmarshalText word = Inr v \<longleftrightarrow> Backend_String v = word) \<and>
   (\<forall>word v. DeliveryMode_UnmarshalText word = Inr v \<longleftrightarrow> DeliveryMode_String v = word)"
  by (intro conjI allI) (simp_all only: enum_text_defs enum_string_defs enum_decoding)

text \<open>Every value of the eighteen wire enumerations can be encoded: the error branch of the encoder,
  which guards an out-of-range code, is never taken.\<close>

lemma enum_text_encodes:
  "(\<forall>v. Status_MarshalText v = Inr (Status_String v)) \<and>
   (\<forall>v. BlockedReason_MarshalText v = Inr (BlockedReason_String v)) \<and>
   (\<forall>v. CapacityStatus_MarshalText v = Inr (CapacityStatus_String v)) \<and>
   (\<forall>v. BaselineStatus_MarshalText v = Inr (BaselineStatus_String v)) \<and>
   (\<forall>v. CycleStatus_MarshalText v = Inr (CycleStatus_String v)) \<and>
   (\<forall>v. SessionStatus_MarshalText v = Inr (SessionStatus_String v)) \<and>
   (\<forall>v. CycleMode_MarshalText v = Inr (CycleMode_String v)) \<and>
   (\<forall>v. OperatingMode_MarshalText v = Inr (OperatingMode_String v)) \<and>
   (\<forall>v. BatchPhase_MarshalText v = Inr (BatchPhase_String v)) \<and>
   (\<forall>v. AutoMergeStatus_MarshalText v = Inr (AutoMergeStatus_String v)) \<and>
   (\<forall>v. RequestStatus_MarshalText v = Inr (RequestStatus_String v)) \<and>
   (\<forall>v. TaskAction_MarshalText v = Inr (TaskAction_String v)) \<and>
   (\<forall>v. CycleAction_MarshalText v = Inr (CycleAction_String v)) \<and>
   (\<forall>v. RequestAction_MarshalText v = Inr (RequestAction_String v)) \<and>
   (\<forall>v. ControlAction_MarshalText v = Inr (ControlAction_String v)) \<and>
   (\<forall>v. EventKind_MarshalText v = Inr (EventKind_String v)) \<and>
   (\<forall>v. Backend_MarshalText v = Inr (Backend_String v)) \<and>
   (\<forall>v. DeliveryMode_MarshalText v = Inr (DeliveryMode_String v))"
  by (intro conjI allI) (simp_all only: enum_text_defs enum_string_defs enum_encoding)

end
