(* ===== verification/Config.thy ===== *)
theory Config
  imports Wire_Enums
begin

text \<open>
  Package \<open>internal/config\<close>: routes, the saved repository policy and its validation, path and
  repository identities, branch names and the manual-merge paths. The filesystem probe of
  \<open>validateRepository\<close> is the parameter \<open>fs_exists\<close> (whether \<open>os.Stat\<close> succeeds on a path), and
  \<open>ManualMergePath\<close> takes the case tables of package \<open>unicode\<close>.
  The lemmas show what a policy that passes validation guarantees: no integer wrap in the costs and
  deadlines derived from it, an owned-branch namespace disjoint from the default branch, and
  branch names that are safe ref names.
\<close>

subsection \<open>Routes\<close>

record route =
  r_Backend :: backend
  r_Model :: string
  r_Effort :: string
  r_Provider :: "string option"
  r_Variant :: "string option"

datatype route_error =
    ModelInvalid | EffortInvalid | ProviderInvalid | VariantInvalid
  | CodexProviderOrVariant | CodexIncomplete | OpencodeEffort | OpencodeIncomplete | WrongRunner

definition NewRoute :: "string \<Rightarrow> string \<Rightarrow> route" where
  "NewRoute m e =
     \<lparr>r_Backend = BackendCodex, r_Model = m, r_Effort = e, r_Provider = None, r_Variant = None\<rparr>"

definition DefaultRepairRoute :: route where
  "DefaultRepairRoute = NewRoute ''gpt-6.1-sol'' ''medium''"

definition Backend_Display :: "backend \<Rightarrow> string" where
  "Backend_Display b = (if b = BackendCodex then ''Codex'' else ''OpenCode'')"

definition middle_dot :: string where
  "middle_dot = [CHR 0xC2, CHR 0xB7]"

definition Route_String :: "route \<Rightarrow> string" where
  "Route_String r =
     (if r_Backend r = BackendCodex
      then ''Codex '' @ middle_dot @ '' '' @ r_Model r @ '' / '' @ r_Effort r
      else let provider = (case r_Provider r of None \<Rightarrow> [] | Some p \<Rightarrow> p);
               variant = (case r_Variant r of None \<Rightarrow> ''provider default'' | Some v \<Rightarrow> v)
           in ''OpenCode '' @ middle_dot @ '' '' @ provider @ ''/'' @ r_Model r @ '' / '' @ variant)"

definition Route_RequireBackend :: "route \<Rightarrow> backend \<Rightarrow> route_error go_error" where
  "Route_RequireBackend r b = check (r_Backend r = b) WrongRunner"

definition valid_name :: "string \<Rightarrow> nat \<Rightarrow> bool" where
  "valid_name s limit \<longleftrightarrow> length s \<le> limit \<and> trim_space s = s \<and> \<not> contains_rune is_control s"

definition Route_Validate :: "route \<Rightarrow> bool \<Rightarrow> route_error go_error" where
  "Route_Validate r ready =
     (let limit = (if r_Backend r = BackendOpencode then 512 else 100) in
      first_error
       ([check (valid_name (r_Model r) limit) ModelInvalid,
         check (valid_name (r_Effort r) 20) EffortInvalid,
         check (case r_Provider r of None \<Rightarrow> True | Some p \<Rightarrow> valid_name p 100) ProviderInvalid,
         check (case r_Variant r of None \<Rightarrow> True | Some v \<Rightarrow> v \<noteq> [] \<and> valid_name v 100)
           VariantInvalid]
        @ (case r_Backend r of
             BackendCodex \<Rightarrow>
               [check (r_Provider r = None \<and> r_Variant r = None) CodexProviderOrVariant,
                check (\<not> (ready \<and> (r_Model r = [] \<or> r_Effort r = []))) CodexIncomplete]
           | BackendOpencode \<Rightarrow>
               [check (r_Effort r = []) OpencodeEffort,
                check (\<not> (ready \<and> (r_Model r = [] \<or> r_Provider r = None \<or> r_Provider r = Some [])))
                  OpencodeIncomplete])))"

subsection \<open>The saved policy\<close>

record config =
  c_Repository :: string
  c_GitHubRepo :: string
  c_DefaultBranch :: string
  c_BranchPrefix :: string
  c_CodexBinary :: string
  c_OpencodeBinary :: string
  c_Roles :: "route smap"
  c_Tiers :: "route smap"
  c_RepairRoute :: route
  c_Categories :: "string list"
  c_PlanningGuidance :: string
  c_DeliveryMode :: delivery_mode
  c_AutoMergeMaxLines :: u64
  c_AutoMergeMaxFiles :: u64
  c_AutoMergeExcludedPaths :: "string list"
  c_VerificationCommands :: "string list"
  c_DiscoveryAgents :: u64
  c_ExecutionConcurrency :: u64
  c_CycleIntervalSeconds :: u64
  c_MaintenanceEveryCycles :: u64
  c_LargePRLines :: u64
  c_LongLivedPRDays :: u64
  c_MaxTasksPerCycle :: u64
  c_MaxRepairRounds :: u64
  c_MaxNoProgressRounds :: u64
  c_MaxRetries :: u64
  c_SessionTimeoutSeconds :: u64
  c_TaskTimeoutSeconds :: u64
  c_CommandTimeoutSeconds :: u64
  c_MaxSessionsPerDay :: u64
  c_MaxOpenPRs :: u64
  c_MaxWorkspaceBytes :: u64
  c_RunnerStoragePaths :: "string smap"
  c_RetainCompletedDays :: u64
  c_RetainEvents :: u64

record instance_settings =
  is_MaxSessionsPerDay :: u64

definition Categories :: "string list" where
  "Categories =
     [''features'', ''correctness'', ''performance'', ''ux-dx'', ''refactoring'', ''simplification'',
      ''tests'', ''dependencies'', ''documentation'']"

definition Roles :: "string list" where
  "Roles = [''orchestrator'', ''discovery'', ''proposal_reviewer'', ''code_reviewer'']"

definition Tiers :: "string list" where
  "Tiers = [''XS'', ''S'', ''M'', ''L'', ''XL'']"

definition Default :: config where
  "Default =
     \<lparr>c_Repository = [], c_GitHubRepo = [], c_DefaultBranch = ''main'', c_BranchPrefix = ''octomus/'',
      c_CodexBinary = ''codex'', c_OpencodeBinary = ''opencode'',
      c_Roles = smap_of_list
        [(''orchestrator'', NewRoute ''gpt-6.1-sol'' ''high''),
         (''discovery'', NewRoute ''gpt-6-luna'' ''high''),
         (''proposal_reviewer'', NewRoute ''gpt-6.1-sol'' ''high''),
         (''code_reviewer'', NewRoute ''gpt-6-astra'' ''high'')],
      c_Tiers = smap_of_list
        [(''XS'', NewRoute ''gpt-6-luna'' ''xhigh''), (''S'', NewRoute ''gpt-6-luna'' ''max''),
         (''M'', NewRoute ''gpt-6.1-sol'' ''low''), (''L'', NewRoute ''gpt-6.1-sol'' ''medium''),
         (''XL'', NewRoute ''gpt-6-astra'' ''high'')],
      c_RepairRoute = DefaultRepairRoute, c_Categories = Categories, c_PlanningGuidance = [],
      c_DeliveryMode = DeliveryModeStandard, c_AutoMergeMaxLines = 500, c_AutoMergeMaxFiles = 10,
      c_AutoMergeExcludedPaths = [], c_VerificationCommands = [], c_DiscoveryAgents = 9,
      c_ExecutionConcurrency = 2, c_CycleIntervalSeconds = 1800, c_MaintenanceEveryCycles = 3,
      c_LargePRLines = 1000, c_LongLivedPRDays = 7, c_MaxTasksPerCycle = 5, c_MaxRepairRounds = 4,
      c_MaxNoProgressRounds = 2, c_MaxRetries = 2, c_SessionTimeoutSeconds = 1800,
      c_TaskTimeoutSeconds = 14400, c_CommandTimeoutSeconds = 600, c_MaxSessionsPerDay = 150,
      c_MaxOpenPRs = 5, c_MaxWorkspaceBytes = 20000000000, c_RunnerStoragePaths = [],
      c_RetainCompletedDays = 14, c_RetainEvents = 10000\<rparr>"

definition IsChatSecretEnv :: "string \<Rightarrow> bool" where
  "IsChatSecretEnv key \<longleftrightarrow>
     key \<in> set [''OCTOMUS_SLACK_APP_TOKEN'', ''OCTOMUS_SLACK_BOT_TOKEN'', ''OCTOMUS_DISCORD_BOT_TOKEN'',
       ''OCTOMUS_SLACK_APP_TOKEN_FILE'', ''OCTOMUS_SLACK_BOT_TOKEN_FILE'',
       ''OCTOMUS_DISCORD_BOT_TOKEN_FILE'']"

definition Config_Binary :: "config \<Rightarrow> backend \<Rightarrow> string" where
  "Config_Binary c b = (if b = BackendCodex then c_CodexBinary c else c_OpencodeBinary c)"

text \<open>\<open>RoutesFor\<close> lists the named routes in key order; an audit needs the planning roles only.\<close>

definition RoutesFor :: "config \<Rightarrow> bool \<Rightarrow> (string \<times> route) list" where
  "RoutesFor c audit =
     (let result = filter (\<lambda>(key, _). \<not> (audit \<and> key = ''code_reviewer'')) (c_Roles c) in
      if audit then result else result @ c_Tiers c @ [(''repair'', c_RepairRoute c)])"

definition EffectiveCategories :: "config \<Rightarrow> string list" where
  "EffectiveCategories c =
     (if c_DeliveryMode c \<noteq> DeliveryModeMaintenance then c_Categories c
      else filter (\<lambda>category. category \<noteq> ''features'') (c_Categories c))"

definition PlanningCost :: "config \<Rightarrow> u64" where
  "PlanningCost c = c_DiscoveryAgents c + 4"

text \<open>\<open>time.Duration\<close> is a signed count of nanoseconds; the product wraps.\<close>

definition TaskTimeout :: "config \<Rightarrow> int" where
  "TaskTimeout c = sint (c_TaskTimeoutSeconds c * 1000000000)"

subsection \<open>Identities\<close>

definition EqualASCII :: "string \<Rightarrow> string \<Rightarrow> bool" where
  "EqualASCII a b \<longleftrightarrow>
     length a = length b \<and> list_all (\<lambda>(x, y). ascii_lower x = ascii_lower y) (zip a b)"

definition pathIdentity :: "string \<Rightarrow> string" where
  "pathIdentity path =
     join_with ''/''
       ((if has_prefix path ''/'' then [''/''] else []) @
        map snd (filter (\<lambda>(i, p). p \<noteq> [] \<and> (p \<noteq> ''.'' \<or> i = 0)) (enumerate 0 (split_on (CHR ''/'') path))))"

definition SamePath :: "string \<Rightarrow> string \<Rightarrow> bool" where
  "SamePath a b \<longleftrightarrow> pathIdentity a = pathIdentity b"

definition SameRemoteIdentity :: "config \<Rightarrow> config \<Rightarrow> bool" where
  "SameRemoteIdentity c other \<longleftrightarrow>
     SamePath (c_Repository c) (c_Repository other) \<and> EqualASCII (c_GitHubRepo c) (c_GitHubRepo other) \<and>
     c_DefaultBranch c = c_DefaultBranch other"

definition SamePRPolicy :: "config \<Rightarrow> config \<Rightarrow> bool" where
  "SamePRPolicy a b \<longleftrightarrow> SameRemoteIdentity a b \<and> c_BranchPrefix a = c_BranchPrefix b"

subsection \<open>Validation\<close>

datatype config_error =
    DiscoveryAgentsRange | ConcurrencyRange | TasksPerCycleRange | RepairRoundsRange | NoProgressRange
  | RetryRange | IntervalRange | CadenceRange | SessionTimeoutRange | CommandTimeoutRange
  | TaskTimeoutRange | SessionBudgetRange | OpenPRRange | WorkspaceRange | RetentionRange | EventsRange
  | DefaultBranchInvalid | PrefixInvalid | PrefixCoversDefault | PrefixUnderDefault
  | CategoriesInvalid | MaintenanceNeedsCategory | MergeLinesRange | MergeFilesRange
  | TooManyExcludedPaths | DuplicateExcludedPath string | ExcludedPathInvalid string | GuidanceInvalid
  | RolesNotExact | TiersNotExact | RouteInvalid string route_error | StoragePathInvalid
  | BinaryInvalid | CommandInvalid | NotACheckout | GitHubRepoInvalid | NoVerificationCommand

definition between :: "u64 \<Rightarrow> u64 \<Rightarrow> u64 \<Rightarrow> bool" where
  "between v low high \<longleftrightarrow> low \<le> v \<and> v \<le> high"

definition asciiAlphanumeric :: "char \<Rightarrow> bool" where
  "asciiAlphanumeric c \<longleftrightarrow>
     (CHR ''a'' \<le> c \<and> c \<le> CHR ''z'') \<or> (CHR ''A'' \<le> c \<and> c \<le> CHR ''Z'') \<or>
     (CHR ''0'' \<le> c \<and> c \<le> CHR ''9'')"

definition ValidBranch :: "string \<Rightarrow> bool" where
  "ValidBranch s \<longleftrightarrow>
     \<not> (has_prefix s ''refs/'' \<or>
        length s = 40 \<and> list_all (\<lambda>c. c \<in> set ''0123456789abcdefABCDEF'') s) \<and>
     \<not> (s = [] \<or> hd s \<in> set ''-/.'' \<or> last s \<in> set ''/.'' \<or> str_contains s ''..'' \<or>
        str_contains s [CHR ''@'', CHR ''{''] \<or> str_contains s ''//'') \<and>
     list_all (\<lambda>p. \<not> (has_prefix p ''.'' \<or> has_suffix p ''.lock'')) (split_on (CHR ''/'') s) \<and>
     list_all (\<lambda>b. asciiAlphanumeric b \<or> b \<in> set ''-_./'') s"

definition ValidGitHubRepo :: "string \<Rightarrow> bool" where
  "ValidGitHubRepo repo \<longleftrightarrow>
     (let parts = split_on (CHR ''/'') repo in
      length parts = 2 \<and>
      list_all (\<lambda>part. part \<noteq> [] \<and> list_all (\<lambda>b. asciiAlphanumeric b \<or> b \<in> set ''-_.'') part) parts)"

definition ValidateBinary :: "string \<Rightarrow> config_error go_error" where
  "ValidateBinary binary =
     check (\<not> (trim_space binary = [] \<or> 4096 < length binary \<or> contains_rune is_control binary))
       BinaryInvalid"

definition validGuidance :: "string \<Rightarrow> bool" where
  "validGuidance guidance \<longleftrightarrow>
     length guidance \<le> 4096 \<and> valid_utf8 guidance \<and>
     \<not> contains_rune (\<lambda>r. is_control r \<and> r \<noteq> 10 \<and> r \<noteq> 9) guidance"

text \<open>The characters an excluded path may not contain: the raw literal of the source followed by
  its interpreted one (34 is the double quote, 92 the backslash, 96 the backquote).\<close>

definition expression_chars :: string where
  "expression_chars = ''*?[]{}()!&;|<>'' @ map char_of [39::nat, 34, 92, 96] @ ''$~:^#@%''"

definition validExcludedPath :: "string \<Rightarrow> bool" where
  "validExcludedPath entry \<longleftrightarrow>
     \<not> (entry = [] \<or> 4096 < length entry) \<and>
     \<not> (has_prefix entry ''/'' \<or> contains_rune (\<lambda>r. is_control r \<or> is_space r) entry) \<and>
     list_all (\<lambda>component. \<not> (component = [] \<or> component = ''.'' \<or> component = ''..''))
       (split_on (CHR ''/'') (trim_suffix entry ''/'')) \<and>
     \<not> list_ex (\<lambda>c. c \<in> set expression_chars) entry"

fun validExcludedPaths_loop :: "string list \<Rightarrow> string list \<Rightarrow> config_error go_error" where
  "validExcludedPaths_loop seen [] = None"
| "validExcludedPaths_loop seen (entry # paths) =
     (let key = trim_suffix entry ''/'' in
      if key \<in> set seen then Some (DuplicateExcludedPath entry)
      else if \<not> validExcludedPath entry then Some (ExcludedPathInvalid entry)
      else validExcludedPaths_loop (key # seen) paths)"

definition validExcludedPaths :: "string list \<Rightarrow> config_error go_error" where
  "validExcludedPaths paths =
     (if 100 < length paths then Some TooManyExcludedPaths else validExcludedPaths_loop [] paths)"

definition exact_keys :: "route smap \<Rightarrow> string list \<Rightarrow> bool" where
  "exact_keys routes keys \<longleftrightarrow>
     length routes = length keys \<and> list_all (\<lambda>key. map_of routes key \<noteq> None) keys"

definition validate_routes :: "(string \<times> route) list \<Rightarrow> bool \<Rightarrow> config_error go_error" where
  "validate_routes routes ready =
     first_error (map (\<lambda>(name, r). map_option (RouteInvalid name) (Route_Validate r ready)) routes)"

definition validateRepository :: "(string \<Rightarrow> bool) \<Rightarrow> config \<Rightarrow> config_error go_error" where
  "validateRepository fs_exists c =
     first_error
       [check (has_prefix (c_Repository c) ''/'' \<and> fs_exists (c_Repository c @ ''/'' @ ''.git'')) NotACheckout,
        check (ValidGitHubRepo (c_GitHubRepo c)) GitHubRepoInvalid]"

definition range_checks :: "config \<Rightarrow> config_error go_error list" where
  "range_checks c =
     [check (between (c_DiscoveryAgents c) 8 10) DiscoveryAgentsRange,
      check (between (c_ExecutionConcurrency c) 1 8) ConcurrencyRange,
      check (between (c_MaxTasksPerCycle c) 1 20) TasksPerCycleRange,
      check (between (c_MaxRepairRounds c) 1 20) RepairRoundsRange,
      check (0 < c_MaxNoProgressRounds c) NoProgressRange,
      check (c_MaxRetries c \<le> 10) RetryRange,
      check (between (c_CycleIntervalSeconds c) 30 604800) IntervalRange,
      check (between (c_MaintenanceEveryCycles c) 1 10000) CadenceRange,
      check (between (c_SessionTimeoutSeconds c) 10 604800) SessionTimeoutRange,
      check (between (c_CommandTimeoutSeconds c) 1 604800) CommandTimeoutRange,
      check (between (c_TaskTimeoutSeconds c) (c_SessionTimeoutSeconds c) 604800) TaskTimeoutRange,
      check (between (c_MaxSessionsPerDay c) 1 1000000) SessionBudgetRange,
      check (between (c_MaxOpenPRs c) 1 1000) OpenPRRange,
      check (between (c_MaxWorkspaceBytes c) 1000000 1000000000000000) WorkspaceRange,
      check (between (c_RetainCompletedDays c) 1 36500) RetentionRange,
      check (between (c_RetainEvents c) 100 100000) EventsRange,
      check (ValidBranch (c_DefaultBranch c)) DefaultBranchInvalid,
      check (ValidBranch (c_BranchPrefix c @ ''task'') \<and> has_suffix (c_BranchPrefix c) ''/'') PrefixInvalid,
      check (\<not> has_prefix (c_DefaultBranch c) (c_BranchPrefix c)) PrefixCoversDefault,
      check (\<not> has_prefix (c_BranchPrefix c) (c_DefaultBranch c @ ''/'')) PrefixUnderDefault]"

definition validateMode :: "(string \<Rightarrow> bool) \<Rightarrow> config \<Rightarrow> bool \<Rightarrow> bool \<Rightarrow> config_error go_error" where
  "validateMode fs_exists c ready audit =
     first_error
       (range_checks c @
        [check (c_Categories c \<noteq> []) CategoriesInvalid,
         check (list_all (\<lambda>v. v \<in> set Categories) (c_Categories c)) CategoriesInvalid,
         check (c_DeliveryMode c = DeliveryModeMaintenance \<longrightarrow> EffectiveCategories c \<noteq> [])
           MaintenanceNeedsCategory,
         check (between (c_AutoMergeMaxLines c) 1 10000) MergeLinesRange,
         check (between (c_AutoMergeMaxFiles c) 1 100) MergeFilesRange,
         validExcludedPaths (c_AutoMergeExcludedPaths c),
         check (validGuidance (c_PlanningGuidance c)) GuidanceInvalid,
         check (exact_keys (c_Roles c) Roles) RolesNotExact,
         check (exact_keys (c_Tiers c) Tiers) TiersNotExact,
         validate_routes (RoutesFor c False) False,
         check (list_all (\<lambda>(b, path). (b = ''codex'' \<or> b = ''opencode'') \<and> has_prefix path ''/'')
           (c_RunnerStoragePaths c)) StoragePathInvalid,
         ValidateBinary (c_CodexBinary c),
         ValidateBinary (c_OpencodeBinary c),
         check (list_all (\<lambda>cmd. \<not> (trim_space cmd = [] \<or> 4096 < length cmd)) (c_VerificationCommands c))
           CommandInvalid] @
        (if ready then
           [validate_routes (RoutesFor c audit) True,
            validateRepository fs_exists c,
            check (audit \<or> c_VerificationCommands c \<noteq> []) NoVerificationCommand]
         else []))"

definition Validate :: "(string \<Rightarrow> bool) \<Rightarrow> config \<Rightarrow> bool \<Rightarrow> config_error go_error" where
  "Validate fs_exists c ready = validateMode fs_exists c ready False"

definition ValidateAudit :: "(string \<Rightarrow> bool) \<Rightarrow> config \<Rightarrow> config_error go_error" where
  "ValidateAudit fs_exists c = validateMode fs_exists c True True"

definition ValidateBaseline :: "(string \<Rightarrow> bool) \<Rightarrow> config \<Rightarrow> config_error go_error" where
  "ValidateBaseline fs_exists c =
     first_error
       [Validate fs_exists c False,
        validateRepository fs_exists c,
        check (c_VerificationCommands c \<noteq> []) NoVerificationCommand]"

subsection \<open>Manual-merge paths\<close>

definition manualMergeNames :: "string list" where
  "manualMergeNames =
     [''.github'', ''.circleci'', ''.buildkite'', ''.gitlab-ci.yml'', ''.travis.yml'',
      ''jenkinsfile'', ''azure-pipelines.yml'', ''makefile'',
      ''agents.md'', ''security.md'', ''codeowners'', ''.devin'', ''.agents'', ''.claude'', ''.cursor'',
      ''deploy'', ''deployment'', ''deployments'', ''migrations'', ''migration'', ''schema.sql'',
      ''dockerfile'', ''containerfile'', ''.dockerignore'', ''compose.yml'', ''compose.yaml'',
      ''docker-compose.yml'', ''docker-compose.yaml'',
      ''.gitmodules'', ''.gitattributes'']"

definition manual_component :: "string \<Rightarrow> bool" where
  "manual_component lower \<longleftrightarrow>
     lower \<in> set manualMergeNames \<or>
     has_prefix lower ''dockerfile.'' \<or> has_suffix lower ''.dockerfile'' \<or>
     has_prefix lower ''containerfile.'' \<or> has_suffix lower ''.containerfile'' \<or>
     ((has_prefix lower ''compose.'' \<or> has_prefix lower ''docker-compose.'') \<and>
      (has_suffix lower ''.yml'' \<or> has_suffix lower ''.yaml''))"

definition excluded_match :: "string \<Rightarrow> string \<Rightarrow> bool" where
  "excluded_match name entry0 \<longleftrightarrow>
     (let entry = trim_suffix entry0 ''/'' in
      if \<not> str_contains entry ''/'' then entry \<in> set (split_on (CHR ''/'') name)
      else name = entry \<or> has_prefix name (entry @ ''/''))"

definition ManualMergePath :: "unicode_tables \<Rightarrow> string \<Rightarrow> string list \<Rightarrow> bool" where
  "ManualMergePath u name excluded \<longleftrightarrow>
     list_ex (\<lambda>component. manual_component (to_lower u component)) (split_on (CHR ''/'') name) \<or>
     list_ex (excluded_match name) excluded"


subsection \<open>Lemmas: validated policies\<close>

lemma validateMode_ranges:
  "validateMode fs c ready audit = None \<Longrightarrow> first_error (range_checks c) = None"
  by (auto simp: validateMode_def first_error_append split: option.splits)

lemma validated_bounds:
  assumes "validateMode fs c ready audit = None"
  shows "between (c_DiscoveryAgents c) 8 10" "between (c_MaxTasksPerCycle c) 1 20"
    "between (c_SessionTimeoutSeconds c) 10 604800" "c_MaxRetries c \<le> 10"
    "between (c_TaskTimeoutSeconds c) (c_SessionTimeoutSeconds c) 604800"
    "between (c_MaxSessionsPerDay c) 1 1000000" "between (c_MaxOpenPRs c) 1 1000"
  using validateMode_ranges [OF assms] by (simp_all add: range_checks_def first_error_None)

lemma validated_branches:
  assumes "validateMode fs c ready audit = None"
  shows "ValidBranch (c_DefaultBranch c)" "ValidBranch (c_BranchPrefix c @ ''task'')"
    "suffix ''/'' (c_BranchPrefix c)"
    "\<not> prefix (c_BranchPrefix c) (c_DefaultBranch c)"
    "\<not> prefix (c_DefaultBranch c @ ''/'') (c_BranchPrefix c)"
  using validateMode_ranges [OF assms]
  by (simp_all add: range_checks_def first_error_None has_prefix_def has_suffix_def)

lemma validated_cycle_config:
  assumes "validateMode fs c ready audit = None"
  shows "exact_keys (c_Tiers c) Tiers" "exact_keys (c_Roles c) Roles" "c_Categories c \<noteq> []"
    "EffectiveCategories c \<noteq> []"
  using assms
  by (auto simp: validateMode_def first_error_None EffectiveCategories_def)

lemma between_unat: "between v low high \<longleftrightarrow> unat low \<le> unat v \<and> unat v \<le> unat high"
  by (simp add: between_def word_le_nat_alt)

lemma PlanningCost_unat:
  assumes "between (c_DiscoveryAgents c) 8 10"
  shows "unat (PlanningCost c) = unat (c_DiscoveryAgents c) + 4"
  using assms by (simp add: PlanningCost_def between_unat unat_word_ariths)

lemma TaskTimeout_int:
  assumes "unat (c_TaskTimeoutSeconds c) \<le> 604800"
  shows "TaskTimeout c = int (unat (c_TaskTimeoutSeconds c)) * 1000000000"
proof -
  let ?w = "c_TaskTimeoutSeconds c * 1000000000"
  have "unat ?w = unat (c_TaskTimeoutSeconds c) * 1000000000"
    using assms by (simp add: unat_word_ariths)
  moreover from this assms have "unat ?w < 2 ^ 63" by simp
  then have "sint ?w = int (unat ?w)" by (rule sint_unat_small)
  ultimately show ?thesis by (simp add: TaskTimeout_def)
qed

text \<open>No branch the service owns collides with the default branch, as a name or as a ref
  directory.\<close>

lemma owned_branch_disjoint:
  assumes "validateMode fs c ready audit = None"
  shows "c_BranchPrefix c @ x \<noteq> c_DefaultBranch c"
    and "\<not> prefix (c_BranchPrefix c @ x) (c_DefaultBranch c @ y)
      \<or> prefix (c_DefaultBranch c) (c_BranchPrefix c)"
    and "\<not> prefix (c_DefaultBranch c @ ''/'') (c_BranchPrefix c @ x)"
proof -
  note v = validated_branches [OF assms]
  show "c_BranchPrefix c @ x \<noteq> c_DefaultBranch c"
    using v(4) by (metis prefixI)
  show "\<not> prefix (c_BranchPrefix c @ x) (c_DefaultBranch c @ y)
      \<or> prefix (c_DefaultBranch c) (c_BranchPrefix c)"
    using v(4) by (metis append_prefixD prefix_append prefix_same_cases prefixI)
  show "\<not> prefix (c_DefaultBranch c @ ''/'') (c_BranchPrefix c @ x)"
  proof
    assume "prefix (c_DefaultBranch c @ ''/'') (c_BranchPrefix c @ x)"
    then have "prefix (c_BranchPrefix c) (c_DefaultBranch c @ ''/'')"
      using v(5) by (metis prefix_same_cases prefixI)
    with v(4,5) show False by (auto simp: prefix_snoc)
  qed
qed

lemma ValidBranch_component:
  assumes "ValidBranch s" and "p \<in> set (split_on (CHR ''/'') s)"
  shows "p \<noteq> []" "hd p \<noteq> CHR ''.''" "\<not> suffix ''.lock'' p" "CHR ''/'' \<notin> set p"
proof -
  have "p \<noteq> []"
    using assms split_on_empty_component [of "CHR ''/''" s]
    by (auto simp: ValidBranch_def str_contains_def)
  then show "p \<noteq> []" .
  then show "hd p \<noteq> CHR ''.''"
    using assms by (cases p) (auto simp: ValidBranch_def list_all_iff has_prefix_def)
  show "\<not> suffix ''.lock'' p"
    using assms by (auto simp: ValidBranch_def list_all_iff has_suffix_def)
  show "CHR ''/'' \<notin> set p" using assms(2) by (rule split_on_no_sep)
qed

subsection \<open>Lemmas: identities\<close>

lemma EqualASCII_map: "EqualASCII a b \<longleftrightarrow> map ascii_lower a = map ascii_lower b"
proof -
  have "length a = length b \<Longrightarrow>
      list_all (\<lambda>(x, y). ascii_lower x = ascii_lower y) (zip a b) = (map ascii_lower a = map ascii_lower b)"
    by (induction a b rule: list_induct2) auto
  then show ?thesis by (metis EqualASCII_def length_map)
qed

lemma EqualASCII_refl [simp]: "EqualASCII a a"
  and EqualASCII_sym: "EqualASCII a b \<Longrightarrow> EqualASCII b a"
  and EqualASCII_trans: "EqualASCII a b \<Longrightarrow> EqualASCII b c \<Longrightarrow> EqualASCII a c"
  by (simp_all add: EqualASCII_map)

lemma SamePRPolicy_equivp: "equivp SamePRPolicy"
  by (intro equivpI reflpI sympI transpI)
    (auto simp: SamePRPolicy_def SameRemoteIdentity_def SamePath_def EqualASCII_map)

subsection \<open>Lemmas: categories, routes and manual-merge paths\<close>

lemma EffectiveCategories_subset: "set (EffectiveCategories c) \<subseteq> set (c_Categories c)"
  by (auto simp: EffectiveCategories_def)

lemma EffectiveCategories_maintenance:
  "c_DeliveryMode c = DeliveryModeMaintenance \<Longrightarrow> ''features'' \<notin> set (EffectiveCategories c)"
  by (simp add: EffectiveCategories_def)

lemma RoutesFor_audit_subset: "set (RoutesFor c True) \<subseteq> set (RoutesFor c False)"
  by (auto simp: RoutesFor_def)

lemma ValidateAudit_if_Validate:
  assumes "Validate fs c True = None"
  shows "ValidateAudit fs c = None"
proof -
  have "validate_routes (RoutesFor c True) True = None"
    using assms RoutesFor_audit_subset [of c]
    by (fastforce simp: Validate_def validateMode_def first_error_None validate_routes_def)
  with assms show ?thesis
    by (auto simp: Validate_def ValidateAudit_def validateMode_def first_error_None)
qed

lemma excluded_match_below:
  assumes "excluded_match name entry"
  shows "excluded_match (name @ ''/'' @ rest) entry"
proof -
  have "prefix (e @ ''/'') (name @ ''/'' @ rest)" if "name = e \<or> prefix (e @ ''/'') name" for e
    using that by (auto intro: prefix_prefix)
  with assms show ?thesis
    by (auto simp: excluded_match_def Let_def has_prefix_def split_on_append split: if_splits)
qed

lemma ManualMergePath_below:
  assumes "ManualMergePath u name excluded"
  shows "ManualMergePath u (name @ ''/'' @ rest) excluded"
  using assms excluded_match_below
  by (fastforce simp: ManualMergePath_def list_ex_iff split_on_append)

lemma ManualMergePath_mono:
  "ManualMergePath u name excluded \<Longrightarrow> set excluded \<subseteq> set excluded' \<Longrightarrow> ManualMergePath u name excluded'"
  by (auto simp: ManualMergePath_def list_ex_iff)


subsection \<open>The default configuration\<close>

lemmas config_eval = range_checks_def between_def ValidBranch_def asciiAlphanumeric_def validExcludedPaths_def
  validGuidance_def exact_keys_def Roles_def Tiers_def Categories_def validate_routes_def RoutesFor_def
  ValidateBinary_def Route_Validate_def NewRoute_def DefaultRepairRoute_def valid_name_def smap_of_list_def

lemma Default_valid: "validateMode fs Default False audit = None"
  by (simp add: validateMode_def Default_def first_error_None check_def config_eval go_eval)

subsection \<open>Properties\<close>

text \<open>In a configuration that passes validation the derived quantities do not wrap: planning costs the
  discovery agents plus four sessions (between 12 and 14), the task time limit is the configured seconds in
  nanoseconds, positive and at least the session limit, and the day's budget and the pull-request limit
  are positive.\<close>

lemma validated_arithmetic:
  assumes "validateMode fs c ready audit = None"
  shows "unat (PlanningCost c) = unat (c_DiscoveryAgents c) + 4 \<and>
     unat (PlanningCost c) \<in> {12..14} \<and>
     TaskTimeout c = int (unat (c_TaskTimeoutSeconds c)) * 1000000000 \<and> 0 < TaskTimeout c \<and>
     int (unat (c_SessionTimeoutSeconds c)) * 1000000000 \<le> TaskTimeout c \<and>
     0 < c_MaxSessionsPerDay c \<and> 0 < c_MaxOpenPRs c"
proof -
  note v = validated_bounds [OF assms, unfolded between_unat]
  have agents: "unat (PlanningCost c) = unat (c_DiscoveryAgents c) + 4"
    by (rule PlanningCost_unat) (rule validated_bounds(1) [OF assms])
  have timeout: "TaskTimeout c = int (unat (c_TaskTimeoutSeconds c)) * 1000000000"
    using v(5) by (intro TaskTimeout_int) simp
  have "0 < unat (c_MaxSessionsPerDay c)" "0 < unat (c_MaxOpenPRs c)"
    using v(6,7) by simp_all
  then have "0 < c_MaxSessionsPerDay c" "0 < c_MaxOpenPRs c"
    by (simp_all add: word_less_nat_alt)
  moreover have "10 \<le> unat (c_SessionTimeoutSeconds c)"
    "unat (c_SessionTimeoutSeconds c) \<le> unat (c_TaskTimeoutSeconds c)"
    using v(3,5) by simp_all
  then have "0 < int (unat (c_TaskTimeoutSeconds c)) * 1000000000"
    "int (unat (c_SessionTimeoutSeconds c)) * 1000000000 \<le> int (unat (c_TaskTimeoutSeconds c)) * 1000000000"
    by linarith+
  moreover have "unat (PlanningCost c) \<in> {12..14}" using v(1) by (simp add: agents)
  ultimately show ?thesis using agents by (simp only: timeout simp_thms)
qed

lemma validated_arithmetic_witness:
  "Validate (\<lambda>_. False) Default False = None \<and> unat (PlanningCost Default) = 13"
  using validated_arithmetic [OF Default_valid]
  by (simp add: Validate_def Default_valid) (simp add: Default_def)

text \<open>Under a validated configuration no branch the service creates can be the default branch, lie below
  it as a ref directory, or contain it: publication can never overwrite the default branch or be
  refused by git for a file/directory ref conflict with it.\<close>

lemma owned_branches_disjoint:
  assumes "validateMode fs c ready audit = None"
  shows "c_BranchPrefix c @ x \<noteq> c_DefaultBranch c \<and>
     \<not> prefix (c_DefaultBranch c @ ''/'') (c_BranchPrefix c @ x) \<and>
     \<not> prefix ((c_BranchPrefix c @ x) @ ''/'') (c_DefaultBranch c)"
  using owned_branch_disjoint(1,3) [OF assms, of x] validated_branches(4) [OF assms]
  by (auto dest: append_prefixD)

theorem owned_branches_disjoint_witness:
  "c_BranchPrefix Default @ ''t1'' \<noteq> c_DefaultBranch Default"
  using owned_branches_disjoint [OF Default_valid] by blast

text \<open>A branch name that passes validation is a safe git ref: every slash-separated component is
  non-empty, does not start with a dot and does not end in \<open>.lock\<close>; the name never starts with a dash, so
  it cannot be read as an option, never starts with \<open>refs/\<close> and contains no space or control character.\<close>

lemma valid_branch_is_safe_ref:
  assumes "ValidBranch s"
  shows "(\<forall>p \<in> set (split_on (CHR ''/'') s). p \<noteq> [] \<and> hd p \<noteq> CHR ''.'' \<and> \<not> suffix ''.lock'' p) \<and>
     s \<noteq> [] \<and> hd s \<noteq> CHR ''-'' \<and> \<not> prefix ''refs/'' s \<and>
     (\<forall>b \<in> set s. 32 < (of_char b :: nat) \<and> of_char b < (127 :: nat))"
proof -
  have "32 < (of_char b :: nat) \<and> of_char b < (127 :: nat)" if "b \<in> set s" for b
  proof -
    have "asciiAlphanumeric b \<or> b \<in> set ''-_./''"
      using assms that by (auto simp: ValidBranch_def list_all_iff)
    then show ?thesis
      by (auto simp: asciiAlphanumeric_def less_eq_char_def)
  qed
  then show ?thesis
    using ValidBranch_component [OF assms] assms by (auto simp: ValidBranch_def has_prefix_def)
qed

lemma valid_branch_is_safe_ref_witness:
  "ValidBranch ''octomus/t1'' \<and> \<not> prefix ''refs/'' ''octomus/t1''"
proof -
  have "ValidBranch ''octomus/t1''" by (simp add: config_eval go_eval)
  with valid_branch_is_safe_ref [OF this] show ?thesis by blast
qed

text \<open>A path that needs a manual merge still needs one at every deeper level and under every longer list
  of excluded paths: nothing below a protected directory escapes the protection.\<close>

lemma manual_merge_inherited:
  assumes "ManualMergePath u name excluded" and "set excluded \<subseteq> set excluded'"
  shows "ManualMergePath u name excluded' \<and> ManualMergePath u (name @ ''/'' @ rest) excluded'"
  using ManualMergePath_mono [OF assms] ManualMergePath_below by blast

theorem manual_merge_inherited_witness:
  "ManualMergePath \<lparr>to_lower_rune = (\<lambda>r. r), cased_rune = (\<lambda>_. False), ignorable_rune = (\<lambda>_. False),
       cases_lower = (\<lambda>s. s)\<rparr> ''.github/workflows/ci.yml'' [''docs'']"
proof -
  have "ManualMergePath \<lparr>to_lower_rune = (\<lambda>r. r), cased_rune = (\<lambda>_. False), ignorable_rune = (\<lambda>_. False),
       cases_lower = (\<lambda>s. s)\<rparr> ''.github'' []"
    by (simp add: ManualMergePath_def manual_component_def manualMergeNames_def go_eval)
  from manual_merge_inherited [OF this, of "[''docs'']" "''workflows/ci.yml''"] show ?thesis by simp
qed

end
