(* ===== verification/Records.thy ===== *)
theory Records
  imports Config
begin

text \<open>
  The durable records of \<open>internal/model\<close> (\<open>types.go\<close>, \<open>pullrequest.go\<close>, \<open>requests.go\<close>,
  \<open>sandbox.go\<close>), one HOL record per Go struct with the source's fields in the source's order. The
  field prefix abbreviates the record. Records are compared in the code by
  \<open>wirejson.Equal\<close>, that is by their encoding, which is injective on the records modelled here
  (strings are valid UTF-8, collections are normalised), so it is HOL equality; \<open>Clone\<close> is the
  identity. Raw JSON values (\<open>any\<close>) are the datatype \<open>json\<close>.
\<close>

datatype json =
    JNull | JBool bool | JNumber string | JString string | JArray "json list"
  | JObject "(string \<times> json) list"

record proposal =
  p_ID :: string
  p_Title :: string
  p_Problem :: string
  p_Evidence :: "string list"
  p_Benefit :: string
  p_Category :: string
  p_Target :: string
  p_Tier :: string
  p_Scope :: string
  p_Dependencies :: "string list"
  p_Prompt :: string
  p_Decision :: string
  p_Reason :: string
  p_ProblemKey :: string
  p_RelevantPaths :: "string list"
  p_Reconsiders :: "string list"

record planning_capacity =
  pc_Day :: string
  pc_Limit :: u64
  pc_Used :: u64
  pc_Remaining :: u64
  pc_Required :: u64
  pc_NextResetAt :: int
  pc_Status :: capacity_status

record attempt_policy =
  ap_MaxRepairRounds :: u64
  ap_MaxNoProgressRounds :: u64
  ap_MaxRetries :: u64
  ap_TaskTimeoutSeconds :: u64
  ap_SessionTimeoutSeconds :: u64
  ap_CommandTimeoutSeconds :: u64

record workspace_lifecycle =
  wl_ArchivedAt :: "string option"
  wl_DiscardedAt :: "string option"

record finding =
  f_Title :: string
  f_File :: string
  f_Detail :: string
  f_Priority :: string

record review =
  rv_Completed :: bool
  rv_Summary :: string
  rv_Findings :: "finding list"

record assessment =
  as_ID :: string
  as_Decision :: string
  as_Reason :: string

record maintenance_assessment =
  ma_Qualifies :: bool
  ma_ManualMergeRequired :: bool
  ma_Reason :: string

record maintenance_footprint =
  mf_ComparisonBase :: string
  mf_Revision :: string
  mf_ChangedLines :: "u64 option"
  mf_ChangedFiles :: "u64 option"
  mf_Paths :: "string list"
  mf_Complete :: bool
  mf_ManualReasons :: "string list"

record auto_merge_state =
  am_TaskID :: string
  am_Head :: string
  am_HeadBranch :: string
  am_BaseBranch :: string
  am_ComparisonBase :: string
  am_PolicyRevision :: string
  am_Authorized :: bool
  am_Footprint :: "maintenance_footprint option"
  am_Status :: auto_merge_status
  am_Reason :: string
  am_ObservedAt :: string
  am_AttemptID :: "string option"
  am_AttemptedAt :: "string option"
  am_MergeCommit :: "string option"
  am_ResultSource :: "string option"

record auto_merge_snapshot =
  ams_Repository :: string
  ams_PRNumber :: u64
  ams_State :: auto_merge_state

record review_round =
  rr_SessionID :: string
  rr_Revision :: string
  rr_ComparisonBase :: string
  rr_Result :: review
  rr_CreatedAt :: string
  rr_Maintenance :: "maintenance_assessment option"
  rr_TrustedDiffComplete :: bool

record sandbox_egress =
  se_Allowed :: "u64 smap"
  se_Denied :: "u64 smap"
  se_Failed :: "u64 smap"

record sandbox_record =
  sr_ImageID :: string
  sr_Runtime :: string
  sr_Runs :: u64
  sr_OOM :: bool
  sr_Incomplete :: bool
  sr_Egress :: sandbox_egress

record verification =
  v_Command :: string
  v_Success :: bool
  v_Output :: string
  v_Revision :: string
  v_CreatedAt :: string
  v_Sandbox :: "sandbox_record option"

record baseline_command =
  bc_Command :: string
  bc_Success :: bool
  bc_Output :: string
  bc_OutputTruncated :: bool
  bc_CreatedAt :: string
  bc_Sandbox :: "sandbox_record option"

record baseline_check =
  bk_ID :: string
  bk_Status :: baseline_status
  bk_Config :: config
  bk_ConfigFingerprint :: string
  bk_Revision :: "string option"
  bk_StartedAt :: string
  bk_CompletedAt :: "string option"
  bk_Commands :: "baseline_command list"
  bk_Error :: "string option"
  bk_WorkspaceRemoved :: bool
  bk_CleanupError :: "string option"

record default_branch_observation =
  db_Repository :: string
  db_DefaultBranch :: string
  db_Revision :: string
  db_ObservedAt :: string

record session =
  s_ID :: string
  s_Role :: string
  s_Route :: route
  s_Status :: session_status
  s_StartedAt :: string
  s_Summary :: string
  s_FirstTurnStarted :: "bool option"
  s_Sandbox :: "sandbox_record option"

record repair_progress =
  rp_Revision :: string
  rp_NoProgressRounds :: u64
  rp_AwaitingReview :: bool

record task =
  t_ID :: string
  t_CycleID :: string
  t_Proposal :: proposal
  t_Status :: status
  t_Route :: route
  t_Config :: config
  t_SourceRevision :: string
  t_ComparisonBase :: string
  t_DefaultRevision :: string
  t_Branch :: string
  t_Workspace :: string
  t_ExecutionSession :: "string option"
  t_RepairSession :: "string option"
  t_Sessions :: "session list"
  t_Reviews :: "review_round list"
  t_Verification :: "verification list"
  t_OutputCommit :: "string option"
  t_PRNumber :: "u64 option"
  t_PRURL :: "string option"
  t_Attempts :: u64
  t_Error :: "string option"
  t_CreatedAt :: string
  t_UpdatedAt :: string
  t_AttemptPolicy :: "attempt_policy option"
  t_ReviewBaseline :: u64
  t_RepairRounds :: "u64 option"
  t_RepairProgress :: "repair_progress option"
  t_BlockedReason :: "blocked_reason option"
  t_RunID :: "string option"
  t_SupersededBy :: "string list"
  t_Supersedes :: "string list"
  t_RediscoveryRequested :: bool
  t_RediscoveryResult :: "string option"
  t_Lifecycle :: workspace_lifecycle
  t_MaintenanceFootprint :: "maintenance_footprint option"
  t_AutoMergeSnapshot :: "auto_merge_snapshot option"

record pull_request =
  pr_Number :: u64
  pr_Title :: string
  pr_Branch :: string
  pr_Head :: string
  pr_Base :: string
  pr_URL :: string
  pr_Body :: string
  pr_State :: string
  pr_ChangedLines :: u64
  pr_CreatedAt :: string
  pr_Owned :: bool
  pr_HeadRepository :: string
  pr_BaseRepository :: string
  pr_ReviewDecision :: string
  pr_CheckStatus :: string
  pr_Mergeability :: string
  pr_StatusSource :: string
  pr_StatusObservedAt :: string

record pr_observation =
  po_Repository :: string
  po_PR :: pull_request
  po_ObservedAt :: string
  po_DeliveredHead :: "string option"
  po_ExternalHeadMovement :: bool
  po_AutoMerge :: "auto_merge_state option"

record external_pr_context =
  ex_Number :: u64
  ex_URL :: string
  ex_Title :: string
  ex_Body :: string
  ex_Branch :: string
  ex_Head :: string
  ex_Base :: string
  ex_HeadRepository :: string
  ex_BaseRepository :: string
  ex_TitleTruncated :: bool
  ex_BodyTruncated :: bool
  ex_LocalHeadAvailable :: bool

record pr_coverage =
  cv_ObservedAt :: "string option"
  cv_Complete :: bool
  cv_TotalOpen :: u64
  cv_TotalExternal :: u64
  cv_IncludedExternal :: u64
  cv_OmittedExternal :: u64
  cv_MaxExternal :: u64
  cv_MaxTitleChars :: u64
  cv_MaxBodyChars :: u64
  cv_MaxContextBytes :: u64

record grounding =
  g_Revision :: string
  g_PRs :: "pull_request list"
  g_ExternalPRs :: "external_pr_context list"
  g_PRCoverage :: pr_coverage
  g_History :: json
  g_MaintenanceDue :: bool
  g_MaintenanceTargets :: "string list"

record open_pr_inventory =
  inv_Repository :: string
  inv_ObservedAt :: string
  inv_PRs :: "pull_request list"

record pr_capacity =
  prc_Limit :: u64
  prc_OwnedOpen :: "u64 option"
  prc_Reserved :: u64
  prc_Remaining :: "u64 option"
  prc_ObservedAt :: "string option"
  prc_Status :: string
  prc_Reason :: "string option"

record decision_record =
  d_Kind :: string
  d_ID :: string
  d_CycleMode :: cycle_mode
  d_Repository :: string
  d_Target :: string
  d_ProblemKey :: string
  d_RelevantPaths :: "string list"
  d_Decision :: string
  d_Reason :: string
  d_SourceRevision :: string
  d_ContextFingerprint :: string
  d_ReconsiderAfter :: string
  d_CycleID :: string
  d_ReconsiderationDue :: bool

record cycle =
  cy_Mode :: cycle_mode
  cy_DeliveryMode :: delivery_mode
  cy_ID :: string
  cy_Number :: u64
  cy_Status :: cycle_status
  cy_StartedAt :: string
  cy_CompletedAt :: "string option"
  cy_Grounding :: "grounding option"
  cy_Proposals :: "proposal list"
  cy_Assessments :: "json list"
  cy_Sessions :: "session list"
  cy_Error :: "string option"
  cy_Repository :: string
  cy_DecisionMemory :: "decision_record list"
  cy_RunID :: "string option"
  cy_Lifecycle :: workspace_lifecycle

record run_batch =
  b_ID :: string
  b_Phase :: batch_phase
  b_CycleID :: "string option"

record control =
  ct_Paused :: bool
  ct_CycleNumber :: u64
  ct_NextCycleAt :: int
  ct_BudgetWaiting :: bool
  ct_Error :: "string option"
  ct_Mode :: operating_mode
  ct_Batch :: "run_batch option"
  ct_IdleStreak :: "32 word"
  ct_ContextFingerprint :: string

record event =
  e_ID :: int
  e_At :: string
  e_EntityID :: string
  e_Kind :: event_kind
  e_Message :: string

record request_assessment =
  ra_CycleID :: string
  ra_ProposalID :: "string option"
  ra_Mode :: cycle_mode
  ra_Decision :: string
  ra_Reason :: string
  ra_At :: string

record operator_request =
  rq_ID :: string
  rq_Repository :: string
  rq_Title :: string
  rq_Description :: string
  rq_Target :: string
  rq_Status :: request_status
  rq_CreatedAt :: string
  rq_UpdatedAt :: string
  rq_Assessment :: "request_assessment option"
  rq_TaskID :: "string option"

end
