(* ===== verification/Task_Model.thy ===== *)
theory Task_Model
  imports Records
begin

text \<open>
  The rules over the durable records: \<open>internal/model/model.go\<close>, \<open>lowercase.go\<close>,
  \<open>verification.go\<close>, \<open>maintenance.go\<close>, \<open>actions.go\<close>, \<open>requests.go\<close> and \<open>sandbox.go\<close>.
  Timestamps come from the caller. The lemmas cover the status classes, session bookkeeping, the
  selection of verification evidence, what authorises a publication or an automatic merge, and the
  bound on the hosts a sandbox record names.
\<close>

subsection \<open>Status classes and identities\<close>

definition Status_Active :: "status \<Rightarrow> bool" where
  "Status_Active s \<longleftrightarrow>
     enum_code status_values StatusExecuting \<le> enum_code status_values s \<and>
     enum_code status_values s \<le> enum_code status_values StatusPublishing"

definition Status_Retryable :: "status \<Rightarrow> bool" where
  "Status_Retryable s \<longleftrightarrow> s = StatusFailed \<or> s = StatusBlocked"

definition ActiveStatuses :: "status list" where
  "ActiveStatuses = [StatusExecuting, StatusReviewing, StatusRepairing, StatusVerifying, StatusPublishing]"

definition AttentionStatuses :: "status list" where
  "AttentionStatuses = [StatusBlocked, StatusFailed]"

definition UnresolvedStatuses :: "status list" where
  "UnresolvedStatuses = [StatusBlocked, StatusFailed, StatusCancelled]"

definition TerminalStatuses :: "status list" where
  "TerminalStatuses = [StatusPublished, StatusCancelled]"

definition ReviewerSlots :: "string list" where
  "ReviewerSlots = [''adversary-a'', ''adversary-b'']"

definition isCased :: "unicode_tables \<Rightarrow> nat \<Rightarrow> bool" where
  "isCased u r \<longleftrightarrow> cased_rune u r"

definition isCaseIgnorable :: "unicode_tables \<Rightarrow> nat \<Rightarrow> bool" where
  "isCaseIgnorable u r \<longleftrightarrow>
     ignorable_rune u r \<or>
     r \<in> set [39, 46, 58, 0xb7, 0x387, 0x55f, 0x5f4, 0x2018, 0x2019, 0x2024, 0x2027, 0xfe13, 0xfe52,
       0xfe55, 0xff07, 0xff0e, 0xff1a]"

fun followedByCased :: "unicode_tables \<Rightarrow> nat list \<Rightarrow> bool" where
  "followedByCased u [] = False"
| "followedByCased u (r # rs) = (if \<not> isCaseIgnorable u r then isCased u r else followedByCased u rs)"

text \<open>The loop of \<open>lowercaseIdentity\<close>: a capital sigma (931) at the end of a word becomes the final
  small sigma (962) before the case mapper runs.\<close>

fun final_sigma :: "unicode_tables \<Rightarrow> bool \<Rightarrow> nat list \<Rightarrow> nat list" where
  "final_sigma u precededByCased [] = []"
| "final_sigma u precededByCased (r0 # rs) =
     (let r = (if r0 = 931 \<and> precededByCased \<and> \<not> followedByCased u rs then 962 else r0)
      in r # final_sigma u (if \<not> isCaseIgnorable u r then isCased u r else precededByCased) rs)"

definition lowercaseIdentity :: "unicode_tables \<Rightarrow> string \<Rightarrow> string" where
  "lowercaseIdentity u s = cases_lower u (concat (map encode_rune (final_sigma u False (runes s))))"

definition ProblemIdentity :: "unicode_tables \<Rightarrow> string \<Rightarrow> string \<Rightarrow> string" where
  "ProblemIdentity u title key0 =
     (let key = (if trim_space key0 = [] then title else key0) in lowercaseIdentity u (trim_space key))"

definition Proposal_ProblemIdentity :: "unicode_tables \<Rightarrow> proposal \<Rightarrow> string" where
  "Proposal_ProblemIdentity u p = ProblemIdentity u (p_Title p) (p_ProblemKey p)"

definition SameWork :: "unicode_tables \<Rightarrow> proposal \<Rightarrow> proposal \<Rightarrow> bool" where
  "SameWork u p other \<longleftrightarrow>
     p_Target p = p_Target other \<and>
     (EqualASCII (trim_space (p_Title p)) (trim_space (p_Title other)) \<or>
      Proposal_ProblemIdentity u p = Proposal_ProblemIdentity u other)"

subsection \<open>Blocked reasons\<close>

definition blockedReasonMessages :: "string list" where
  "blockedReasonMessages =
     [''Daily admission budget exhausted; adjust the current limit or wait until UTC midnight'',
      ''Storage admission limit reached; resolve retained workspaces or adjust the limit'',
      ''Source or default branch moved; supersede this task and rediscover against current context'',
      ''Remote branch moved outside recorded task outputs; reconcile the preserved work'',
      ''Publication result is uncertain; reconcile the preserved output commit'',
      ''Runner request failed; inspect the saved route and runner diagnostics'',
      ''Incomplete or invalid review cannot authorize publication'',
      ''Verification or repairs remain unresolved; evidence is preserved'',
      ''A dependency is unresolved; deliver it or rediscover dependent work'',
      ''The saved dependency plan cannot execute; rediscover a valid task order'',
      ''Workspace initialization or recorded evidence is inconsistent; preserve and inspect it'',
      ''Attempt or repair limit exhausted; inspect evidence before adjusting attempt limits'',
      ''Task time limit exceeded; inspect the preserved workspace'',
      ''Unclassified task failure; inspect the recorded diagnostics'']"

definition BlockedReason_Error :: "blocked_reason \<Rightarrow> string" where
  "BlockedReason_Error b =
     (if length blockedReasonMessages \<le> enum_code blocked_reason_values b
      then blockedReasonMessages ! enum_code blocked_reason_values BlockedUnknown
      else blockedReasonMessages ! enum_code blocked_reason_values b)"

text \<open>A Go error value as the traversal sees it: a typed reason, an error that unwraps to nothing, one
  that unwraps to one error and one that unwraps to several.\<close>

datatype error_tree = Reason blocked_reason | Plain | Wrap error_tree | Join "error_tree list"

fun visit_reason :: "error_tree \<Rightarrow> blocked_reason \<Rightarrow> blocked_reason" where
  "visit_reason (Reason r) result = r"
| "visit_reason Plain result = result"
| "visit_reason (Wrap e) result = visit_reason e result"
| "visit_reason (Join es) result = fold visit_reason es result"

definition BlockedReasonFromError :: "error_tree option \<Rightarrow> blocked_reason" where
  "BlockedReasonFromError err =
     (case err of None \<Rightarrow> BlockedUnknown | Some e \<Rightarrow> visit_reason e BlockedUnknown)"

subsection \<open>Planning capacity and attempt policy\<close>

definition Capacity_Available :: "planning_capacity \<Rightarrow> bool" where
  "Capacity_Available p \<longleftrightarrow> pc_Status p = CapacityReady"

definition Capacity_Message :: "planning_capacity \<Rightarrow> string" where
  "Capacity_Message p =
     (let guidance =
        (if pc_Status p = CapacityTooLow
         then ''The configured daily limit cannot fund a complete planning pass; increase it.''
         else if pc_Status p = CapacityExhausted
         then ''Wait until UTC midnight or increase the daily limit.''
         else ''Planning can start.'')
      in ''A complete planning pass requires '' @ show_nat (unat (pc_Required p)) @
         '' daily admissions; '' @ show_nat (unat (pc_Remaining p)) @ '' remain ('' @
         show_nat (unat (pc_Used p)) @ '' of '' @ show_nat (unat (pc_Limit p)) @ '' used). '' @ guidance)"

text \<open>\<open>EnsureAvailable\<close> wraps the budget reason around the message.\<close>

definition Capacity_EnsureAvailable :: "planning_capacity \<Rightarrow> (string \<times> blocked_reason) go_error" where
  "Capacity_EnsureAvailable p =
     (if Capacity_Available p then None else Some (Capacity_Message p, BlockedBudgetExhausted))"

definition PolicyOf :: "config \<Rightarrow> attempt_policy" where
  "PolicyOf c =
     \<lparr>ap_MaxRepairRounds = c_MaxRepairRounds c, ap_MaxNoProgressRounds = c_MaxNoProgressRounds c,
      ap_MaxRetries = c_MaxRetries c, ap_TaskTimeoutSeconds = c_TaskTimeoutSeconds c,
      ap_SessionTimeoutSeconds = c_SessionTimeoutSeconds c,
      ap_CommandTimeoutSeconds = c_CommandTimeoutSeconds c\<rparr>"

definition Policy_Apply :: "attempt_policy \<Rightarrow> config \<Rightarrow> config" where
  "Policy_Apply p c =
     c\<lparr>c_MaxRepairRounds := ap_MaxRepairRounds p, c_MaxNoProgressRounds := ap_MaxNoProgressRounds p,
       c_MaxRetries := ap_MaxRetries p, c_TaskTimeoutSeconds := ap_TaskTimeoutSeconds p,
       c_SessionTimeoutSeconds := ap_SessionTimeoutSeconds p,
       c_CommandTimeoutSeconds := ap_CommandTimeoutSeconds p\<rparr>"

definition ExecutionConfig :: "task \<Rightarrow> config" where
  "ExecutionConfig t =
     (case t_AttemptPolicy t of None \<Rightarrow> t_Config t | Some p \<Rightarrow> Policy_Apply p (t_Config t))"

definition Describes :: "default_branch_observation \<Rightarrow> config \<Rightarrow> bool" where
  "Describes ob c \<longleftrightarrow> EqualASCII (db_Repository ob) (c_GitHubRepo c) \<and> db_DefaultBranch ob = c_DefaultBranch c"

subsection \<open>Decisions, reviews and sessions\<close>

abbreviation DecisionAccepted :: string where "DecisionAccepted \<equiv> ''accepted''"
abbreviation DecisionRejected :: string where "DecisionRejected \<equiv> ''rejected''"
abbreviation DecisionDeferred :: string where "DecisionDeferred \<equiv> ''deferred''"
abbreviation DecisionCandidate :: string where "DecisionCandidate \<equiv> ''candidate''"

definition Decisions :: "string list" where
  "Decisions = [DecisionAccepted, DecisionRejected, DecisionDeferred, DecisionCandidate]"

definition Assessments :: "string list" where
  "Assessments = [DecisionAccepted, DecisionRejected, DecisionDeferred]"

definition Review_Valid :: "review \<Rightarrow> bool" where
  "Review_Valid r \<longleftrightarrow> rv_Completed r \<and> trim_space (rv_Summary r) \<noteq> []"

definition Review_Clean :: "review \<Rightarrow> bool" where
  "Review_Clean r \<longleftrightarrow> Review_Valid r \<and> rv_Findings r = []"

definition NewSession :: "string \<Rightarrow> string \<Rightarrow> route \<Rightarrow> string \<Rightarrow> session" where
  "NewSession sid role r now =
     \<lparr>s_ID = sid, s_Role = role, s_Route = r, s_Status = SessionRunning, s_StartedAt = now, s_Summary = [],
      s_FirstTurnStarted = None, s_Sandbox = None\<rparr>"

definition MarkRunning :: "session \<Rightarrow> session" where
  "MarkRunning s = s\<lparr>s_Status := SessionRunning, s_Summary := []\<rparr>"

definition MarkCompleted :: "string \<Rightarrow> session \<Rightarrow> session" where
  "MarkCompleted summary s = s\<lparr>s_Status := SessionCompleted, s_Summary := summary\<rparr>"

definition MarkFailed :: "string \<Rightarrow> session \<Rightarrow> session" where
  "MarkFailed summary s = s\<lparr>s_Status := SessionFailed, s_Summary := summary\<rparr>"

definition MarkInterrupted :: "session \<Rightarrow> session" where
  "MarkInterrupted s = s\<lparr>s_Status := SessionInterrupted\<rparr>"

definition InterruptRunning :: "session list \<Rightarrow> session list" where
  "InterruptRunning sessions = map (\<lambda>s. if s_Status s = SessionRunning then MarkInterrupted s else s) sessions"

definition CompletedSessions :: "session list \<Rightarrow> nat" where
  "CompletedSessions sessions = length (filter (\<lambda>s. s_Status s = SessionCompleted) sessions)"

definition fail_session :: "string \<Rightarrow> session \<Rightarrow> session" where
  "fail_session summary s =
     (if s_Status s \<noteq> SessionRunning then s
      else s\<lparr>s_Status := SessionFailed, s_Summary := (if s_Summary s = [] then summary else s_Summary s)\<rparr>)"

definition FailRunning :: "session list \<Rightarrow> string \<Rightarrow> session list" where
  "FailRunning sessions summary = map (fail_session summary) sessions"

definition AttemptReviews :: "task \<Rightarrow> u64" where
  "AttemptReviews t =
     (if of_nat (length (t_Reviews t)) < t_ReviewBaseline t then 0
      else of_nat (length (t_Reviews t)) - t_ReviewBaseline t)"

subsection \<open>Operator actions\<close>

definition AllowedActions :: "task \<Rightarrow> task_action list" where
  "AllowedActions t =
     (if wl_ArchivedAt (t_Lifecycle t) \<noteq> None then
        (if wl_DiscardedAt (t_Lifecycle t) \<noteq> None then [] else [TaskActionDiscard])
      else if t_Status t = StatusPublished then [TaskActionArchive]
      else if t_Status t = StatusCancelled then
        [TaskActionArchive] @
        (if wl_DiscardedAt (t_Lifecycle t) = None \<and> t_OutputCommit t = None \<and>
            \<not> t_RediscoveryRequested t \<and> length (t_SupersededBy t) = 0
         then [TaskActionSupersede] else [])
      else if wl_DiscardedAt (t_Lifecycle t) \<noteq> None \<or> t_Status t = StatusPublishing then []
      else if \<not> Status_Retryable (t_Status t) then
        (if t_OutputCommit t = None then [TaskActionCancel] else [])
      else
        (if t_OutputCommit t = None then [TaskActionCancel] else []) @ [TaskActionArchive] @
        (let reason = (case t_BlockedReason t of None \<Rightarrow> BlockedUnknown | Some r \<Rightarrow> r) in
         if reason \<in> {BlockedStaleBase, BlockedInvalidPlan, BlockedWorkspaceInvalid} then [TaskActionSupersede]
         else if reason \<in> {BlockedRemoteConflict, BlockedPublicationUncertain} then [TaskActionReconcile]
         else if reason \<in> {BlockedDependencyBlocked, BlockedRunnerUnavailable}
         then [TaskActionRetry, TaskActionSupersede]
         else [TaskActionRetry]))"

definition CycleActions :: "cycle_status \<Rightarrow> workspace_lifecycle \<Rightarrow> cycle_action list" where
  "CycleActions status lifecycle =
     (if status = CycleRunning \<or> wl_DiscardedAt lifecycle \<noteq> None then []
      else if wl_ArchivedAt lifecycle = None then [CycleActionArchive] else [CycleActionDiscard])"

definition RequestProposalPrefix :: string where
  "RequestProposalPrefix = ''request-''"

definition RequestPendingLimit :: nat where
  "RequestPendingLimit = 20"

definition RequestSeedLimit :: nat where
  "RequestSeedLimit = 10"

definition Request_ProposalID :: "operator_request \<Rightarrow> string" where
  "Request_ProposalID r = RequestProposalPrefix @ rq_ID r"

definition OwnedOpen :: "pull_request \<Rightarrow> bool" where
  "OwnedOpen p \<longleftrightarrow> pr_Owned p \<and> pr_State p = ''open''"

definition OwnedBranches :: "open_pr_inventory \<Rightarrow> string list" where
  "OwnedBranches v = remdups (map pr_Branch (filter OwnedOpen (inv_PRs v)))"

definition DefaultControl :: control where
  "DefaultControl =
     \<lparr>ct_Paused = True, ct_CycleNumber = 0, ct_NextCycleAt = 0, ct_BudgetWaiting = False, ct_Error = None,
      ct_Mode = OperatingModePaused, ct_Batch = None, ct_IdleStreak = 0, ct_ContextFingerprint = []\<rparr>"

definition SetMode :: "operating_mode \<Rightarrow> control \<Rightarrow> control" where
  "SetMode mode c =
     (let c = c\<lparr>ct_Mode := mode, ct_BudgetWaiting := False, ct_Paused := (mode = OperatingModePaused)\<rparr>
      in if mode \<noteq> OperatingModeRunOnce then c\<lparr>ct_Batch := None\<rparr> else c)"

subsection \<open>Verification evidence and merge authority\<close>

text \<open>\<open>VerificationFor\<close> keeps the last result recorded for a command and counts them.\<close>

definition VerificationFor :: "task \<Rightarrow> string \<Rightarrow> verification option \<times> nat" where
  "VerificationFor t cmd =
     fold (\<lambda>v (latest, recorded). if v_Command v = cmd then (Some v, Suc recorded) else (latest, recorded))
       (t_Verification t) (None, 0)"

definition ReviewAuthorizes :: "task \<Rightarrow> string \<Rightarrow> bool" where
  "ReviewAuthorizes t revision \<longleftrightarrow>
     \<not> (revision = [] \<or> length (t_Reviews t) = 0) \<and>
     (let rnd = last (t_Reviews t) in
      \<not> (rr_Revision rnd \<noteq> revision \<or> \<not> Review_Clean (rr_Result rnd)) \<and>
      (c_DeliveryMode (t_Config t) = DeliveryModeStandard \<or>
       (c_DeliveryMode (t_Config t) = DeliveryModeMaintenance \<and>
        p_Category (t_Proposal t) \<noteq> ''features'' \<and>
        p_Category (t_Proposal t) \<in> set (EffectiveCategories (t_Config t)) \<and>
        t_ComparisonBase t \<noteq> [] \<and> rr_ComparisonBase rnd = t_ComparisonBase t \<and>
        (case rr_Maintenance rnd of None \<Rightarrow> False
         | Some m \<Rightarrow> ma_Qualifies m \<and> trim_space (ma_Reason m) \<noteq> []) \<and>
        list_ex (\<lambda>s. s_ID s = rr_SessionID rnd \<and> s_Role s = ''reviewer'' \<and> s_Status s = SessionCompleted)
          (t_Sessions t))))"

definition AutoMergeLimits :: "config \<Rightarrow> config \<Rightarrow> u64 \<times> u64" where
  "AutoMergeLimits saved live =
     (min (c_AutoMergeMaxLines saved) (c_AutoMergeMaxLines live),
      min (c_AutoMergeMaxFiles saved) (c_AutoMergeMaxFiles live))"

definition footprint_fits :: "unicode_tables \<Rightarrow> task \<Rightarrow> string \<Rightarrow> config \<Rightarrow> maintenance_footprint \<Rightarrow> bool" where
  "footprint_fits u t commit live fp \<longleftrightarrow>
     mf_Complete fp \<and> mf_ComparisonBase fp = t_ComparisonBase t \<and> mf_Revision fp = commit \<and>
     (case (mf_ChangedLines fp, mf_ChangedFiles fp) of
        (Some lines, Some files) \<Rightarrow>
          files \<noteq> 0 \<and> of_nat (length (mf_Paths fp)) = files \<and> length (mf_ManualReasons fp) = 0 \<and>
          \<not> list_ex (\<lambda>name. ManualMergePath u name (c_AutoMergeExcludedPaths live)) (mf_Paths fp) \<and>
          (let (maxLines, maxFiles) = AutoMergeLimits (t_Config t) live in
           \<not> (maxLines = 0 \<or> maxFiles = 0 \<or> maxLines < lines \<or> maxFiles < files))
      | _ \<Rightarrow> False)"

text \<open>The dereferences of the last round and its maintenance assessment are guarded by
  \<open>ReviewAuthorizes\<close> (lemma \<open>ReviewAuthorizes_round\<close> below), so no branch of the model stands for a
  nil dereference.\<close>

definition MaintenanceMergeAuthorized :: "unicode_tables \<Rightarrow> task \<Rightarrow> config \<Rightarrow> bool" where
  "MaintenanceMergeAuthorized u t live \<longleftrightarrow>
     c_DeliveryMode live = DeliveryModeMaintenance \<and>
     c_DeliveryMode (t_Config t) = DeliveryModeMaintenance \<and>
     SameRemoteIdentity live (t_Config t) \<and> c_BranchPrefix live = c_BranchPrefix (t_Config t) \<and>
     (case t_OutputCommit t of None \<Rightarrow> False
      | Some commit \<Rightarrow>
          wl_ArchivedAt (t_Lifecycle t) = None \<and>
          p_Category (t_Proposal t) \<in> set (EffectiveCategories live) \<and>
          ReviewAuthorizes t commit \<and>
          rr_TrustedDiffComplete (last (t_Reviews t)) \<and>
          (case rr_Maintenance (last (t_Reviews t)) of None \<Rightarrow> False
           | Some m \<Rightarrow> \<not> ma_ManualMergeRequired m) \<and>
          (case t_MaintenanceFootprint t of None \<Rightarrow> False
           | Some fp \<Rightarrow> footprint_fits u t commit live fp) \<and>
          (let commands = c_VerificationCommands (ExecutionConfig t) in
           length commands \<noteq> 0 \<and>
           list_all (\<lambda>cmd. case fst (VerificationFor t cmd) of None \<Rightarrow> False
             | Some result \<Rightarrow> v_Success result \<and> v_Revision result = commit) commands))"

subsection \<open>Sandbox records\<close>

definition SandboxHostLimit :: nat where
  "SandboxHostLimit = 64"

definition smap_get0 :: "u64 smap \<Rightarrow> string \<Rightarrow> u64" where
  "smap_get0 m k = (case map_of m k of None \<Rightarrow> 0 | Some v \<Rightarrow> v)"

text \<open>One iteration of the loop of \<open>addHosts\<close> over the hosts in sorted order; \<open>named\<close> counts the hosts
  other than \<open>other\<close> the record names.\<close>

definition add_host :: "string \<times> u64 \<Rightarrow> nat \<times> u64 smap \<Rightarrow> nat \<times> u64 smap" where
  "add_host hc st =
     (let (host, count) = hc; (named, into) = st;
          fresh = (map_of into host = None \<and> host \<noteq> ''other'');
          key = (if fresh \<and> SandboxHostLimit \<le> named then ''other'' else host);
          named' = (if fresh \<and> \<not> SandboxHostLimit \<le> named then Suc named else named)
      in (named', smap_put key (smap_get0 into key + count) into))"

definition addHosts :: "u64 smap \<Rightarrow> u64 smap \<Rightarrow> u64 smap" where
  "addHosts into from0 =
     (let named = (if map_of into ''other'' \<noteq> None then length into - 1 else length into)
      in snd (fold add_host from0 (named, into)))"

definition MergeSandbox :: "sandbox_record option \<Rightarrow> sandbox_record option \<Rightarrow> sandbox_record option" where
  "MergeSandbox into run =
     (case run of
        None \<Rightarrow> into
      | Some run \<Rightarrow>
          let merged =
                (case into of
                   None \<Rightarrow> \<lparr>sr_ImageID = [], sr_Runtime = [], sr_Runs = 0, sr_OOM = False, sr_Incomplete = False,
                     sr_Egress = \<lparr>se_Allowed = [], se_Denied = [], se_Failed = []\<rparr>\<rparr>
                 | Some i \<Rightarrow> i);
              mixed = (case into of None \<Rightarrow> False
                | Some i \<Rightarrow> sr_ImageID i = ''mixed'' \<or> sr_ImageID i \<noteq> sr_ImageID run \<or> sr_Runtime i \<noteq> sr_Runtime run)
          in Some (merged
               \<lparr>sr_ImageID := (if mixed then ''mixed'' else sr_ImageID run),
                sr_Runtime := (if mixed then [] else sr_Runtime run),
                sr_Runs := sr_Runs merged + sr_Runs run,
                sr_OOM := (sr_OOM merged \<or> sr_OOM run),
                sr_Incomplete := (sr_Incomplete merged \<or> sr_Incomplete run),
                sr_Egress :=
                  \<lparr>se_Allowed = addHosts (se_Allowed (sr_Egress merged)) (se_Allowed (sr_Egress run)),
                   se_Denied = addHosts (se_Denied (sr_Egress merged)) (se_Denied (sr_Egress run)),
                   se_Failed = addHosts (se_Failed (sr_Egress merged)) (se_Failed (sr_Egress run))\<rparr>\<rparr>))"


subsection \<open>Lemmas: status classes\<close>

lemma Status_Active_iff: "Status_Active s \<longleftrightarrow> s \<in> set ActiveStatuses"
  by (cases s) (simp_all add: Status_Active_def ActiveStatuses_def enum_simps)

lemma Status_Active_simps [simp]:
  "\<not> Status_Active StatusQueued" "Status_Active StatusExecuting" "Status_Active StatusReviewing"
  "Status_Active StatusRepairing" "Status_Active StatusVerifying" "Status_Active StatusPublishing"
  "\<not> Status_Active StatusPublished" "\<not> Status_Active StatusBlocked" "\<not> Status_Active StatusFailed"
  "\<not> Status_Active StatusCancelled"
  by (simp_all add: Status_Active_iff ActiveStatuses_def)

lemma Status_Retryable_simps [simp]:
  "\<not> Status_Retryable StatusQueued" "\<not> Status_Retryable StatusExecuting" "\<not> Status_Retryable StatusReviewing"
  "\<not> Status_Retryable StatusRepairing" "\<not> Status_Retryable StatusVerifying"
  "\<not> Status_Retryable StatusPublishing" "\<not> Status_Retryable StatusPublished" "Status_Retryable StatusBlocked"
  "Status_Retryable StatusFailed" "\<not> Status_Retryable StatusCancelled"
  by (simp_all add: Status_Retryable_def)

lemma status_classes:
  "s = StatusQueued \<or> Status_Active s \<or> Status_Retryable s \<or> s \<in> set TerminalStatuses"
  by (cases s) (simp_all add: TerminalStatuses_def)

subsection \<open>Lemmas: errors, policies and sessions\<close>

fun reasons_of :: "error_tree \<Rightarrow> blocked_reason list" where
  "reasons_of (Reason r) = [r]"
| "reasons_of Plain = []"
| "reasons_of (Wrap e) = reasons_of e"
| "reasons_of (Join es) = concat (map reasons_of es)"

lemma visit_reason_last: "visit_reason e r = last (r # reasons_of e)"
proof (induction e arbitrary: r)
  case (Join es)
  have "fold visit_reason es r = last (r # concat (map reasons_of es))" for r
    using Join by (induction es arbitrary: r) (auto simp: last_append)
  then show ?case by simp
qed simp_all

lemma PolicyOf_Apply: "PolicyOf (Policy_Apply p c) = p"
  by (simp add: PolicyOf_def Policy_Apply_def)

lemma Policy_Apply_PolicyOf: "Policy_Apply (PolicyOf c) c = c"
  by (simp add: PolicyOf_def Policy_Apply_def)

lemma ExecutionConfig_frame [simp]:
  "c_VerificationCommands (ExecutionConfig t) = c_VerificationCommands (t_Config t)"
  "c_GitHubRepo (ExecutionConfig t) = c_GitHubRepo (t_Config t)"
  "c_DefaultBranch (ExecutionConfig t) = c_DefaultBranch (t_Config t)"
  "c_BranchPrefix (ExecutionConfig t) = c_BranchPrefix (t_Config t)"
  by (simp_all add: ExecutionConfig_def Policy_Apply_def split: option.splits)

lemma FailRunning_frame [simp]:
  "length (FailRunning ss m) = length ss"
  "map s_ID (FailRunning ss m) = map s_ID ss"
  by (simp_all add: FailRunning_def fail_session_def)

lemma FailRunning_none_running: "x \<in> set (FailRunning ss m) \<Longrightarrow> s_Status x \<noteq> SessionRunning"
  by (auto simp: FailRunning_def fail_session_def)

lemma FailRunning_completed: "CompletedSessions (FailRunning ss m) = CompletedSessions ss"
  by (induction ss) (auto simp: FailRunning_def fail_session_def CompletedSessions_def)

lemma InterruptRunning_none_running: "x \<in> set (InterruptRunning ss) \<Longrightarrow> s_Status x \<noteq> SessionRunning"
  by (auto simp: InterruptRunning_def MarkInterrupted_def)

lemma InterruptRunning_completed: "CompletedSessions (InterruptRunning ss) = CompletedSessions ss"
  by (induction ss) (auto simp: InterruptRunning_def MarkInterrupted_def CompletedSessions_def)

definition control_wf :: "control \<Rightarrow> bool" where
  "control_wf c \<longleftrightarrow>
     (ct_Paused c \<longleftrightarrow> ct_Mode c = OperatingModePaused) \<and>
     (ct_Batch c \<noteq> None \<longrightarrow> ct_Mode c = OperatingModeRunOnce)"

lemma control_wf_Default [wf_intros]: "control_wf DefaultControl"
  by (simp add: control_wf_def DefaultControl_def)

lemma control_wf_SetMode [wf_intros]: "control_wf (SetMode mode c)"
  by (auto simp: control_wf_def SetMode_def Let_def)

subsection \<open>Lemmas: verification evidence and merge authority\<close>

lemma VerificationFor_filter:
  "VerificationFor t cmd =
     (let ms = filter (\<lambda>v. v_Command v = cmd) (t_Verification t)
      in (if ms = [] then None else Some (last ms), length ms))"
proof -
  have "fold (\<lambda>v (latest, recorded). if v_Command v = cmd then (Some v, Suc recorded) else (latest, recorded))
      vs (None, 0) =
    (let ms = filter (\<lambda>v. v_Command v = cmd) vs in (if ms = [] then None else Some (last ms), length ms))" for vs
    by (induction vs rule: rev_induct) (auto simp: Let_def)
  then show ?thesis by (simp add: VerificationFor_def)
qed

lemma VerificationFor_append:
  "fst (VerificationFor (t\<lparr>t_Verification := vs @ [x]\<rparr>) (v_Command x)) = Some x"
  by (simp add: VerificationFor_filter Let_def)

lemma ReviewAuthorizes_round:
  assumes "ReviewAuthorizes t revision"
  shows "t_Reviews t \<noteq> []" "rr_Revision (last (t_Reviews t)) = revision"
    "Review_Clean (rr_Result (last (t_Reviews t)))"
    "c_DeliveryMode (t_Config t) = DeliveryModeMaintenance \<Longrightarrow> rr_Maintenance (last (t_Reviews t)) \<noteq> None"
  using assms by (auto simp: ReviewAuthorizes_def Let_def split: option.splits)

lemma ReviewAuthorizes_unique: "ReviewAuthorizes t a \<Longrightarrow> ReviewAuthorizes t b \<Longrightarrow> a = b"
  by (metis ReviewAuthorizes_round(2))

lemma merge_authority_footprint:
  assumes "MaintenanceMergeAuthorized u t live"
  obtains commit fp where "t_OutputCommit t = Some commit" "t_MaintenanceFootprint t = Some fp"
    "footprint_fits u t commit live fp" "ReviewAuthorizes t commit"
  using assms by (auto simp: MaintenanceMergeAuthorized_def split: option.splits)

lemma merge_authority_verified:
  assumes "MaintenanceMergeAuthorized u t live" and "t_OutputCommit t = Some commit"
    and "cmd \<in> set (c_VerificationCommands (t_Config t))"
  obtains v where "fst (VerificationFor t cmd) = Some v" "v_Success v" "v_Revision v = commit"
  using assms by (auto simp: MaintenanceMergeAuthorized_def Let_def list_all_iff split: option.splits)

subsection \<open>Lemmas: sandbox records\<close>

definition named_hosts :: "u64 smap \<Rightarrow> nat" where
  "named_hosts m = length (filter (\<lambda>(k, _). k \<noteq> ''other'') m)"

definition total_count :: "u64 smap \<Rightarrow> u64" where
  "total_count m = sum_list (map snd m)"

lemma total_count_put:
  "smap_wf m \<Longrightarrow> total_count (smap_put k (smap_get0 m k + n) m) = total_count m + n"
proof (induction m)
  case Nil
  then show ?case by (simp add: total_count_def smap_get0_def)
next
  case (Cons kv m)
  obtain k' v' where kv: "kv = (k', v')" by (cases kv)
  have wf: "smap_wf m" using Cons.prems by (simp add: smap_wf_def)
  have none: "map_of m k = None" if "k < k'"
    using Cons.prems that kv by (auto simp: smap_wf_def map_of_eq_None_iff dest: order.strict_trans)
  show ?case
    using Cons.IH [OF wf] none
    by (auto simp: kv total_count_def smap_get0_def split: option.splits)
qed

lemma named_hosts_put:
  "smap_wf m \<Longrightarrow> named_hosts (smap_put k v m) =
     (if k \<noteq> ''other'' \<and> map_of m k = None then Suc (named_hosts m) else named_hosts m)"
proof (induction k v m rule: smap_put.induct)
  case (1 k v)
  then show ?case by (simp add: named_hosts_def)
next
  case (2 k v k' v' m)
  have wf: "smap_wf m" using "2.prems" by (simp add: smap_wf_def)
  have none: "map_of m k = None" if "k < k'"
    using "2.prems" that by (auto simp: smap_wf_def map_of_eq_None_iff dest: order.strict_trans)
  show ?case
    using 2 wf none by (auto simp: named_hosts_def)
qed

lemma named_hosts_length:
  "smap_wf m \<Longrightarrow> named_hosts m = (if map_of m ''other'' \<noteq> None then length m - 1 else length m)"
proof (induction m)
  case (Cons kv m)
  obtain k v where kv: "kv = (k, v)" by (cases kv)
  have wf: "smap_wf m" and d: "k \<notin> fst ` set m"
    using Cons.prems by (auto simp: smap_wf_def kv)
  have ne: "map_of m ''other'' \<noteq> None \<Longrightarrow> m \<noteq> []" by auto
  show ?case
  proof (cases "k = ''other''")
    case True
    with d have "map_of m ''other'' = None" by (simp add: map_of_eq_None_iff)
    with Cons.IH [OF wf] True show ?thesis by (simp add: kv named_hosts_def)
  next
    case False
    with Cons.IH [OF wf] ne show ?thesis
      by (auto simp: kv named_hosts_def neq_Nil_conv split: if_splits)
  qed
qed (simp add: named_hosts_def)

text \<open>The loop invariant of \<open>addHosts\<close>.\<close>

lemma fold_add_host:
  "smap_wf into \<Longrightarrow>
   \<exists>into'. fold add_host hs (named_hosts into, into) = (named_hosts into', into') \<and> smap_wf into' \<and>
     named_hosts into' \<le> max (named_hosts into) SandboxHostLimit \<and>
     total_count into' = total_count into + sum_list (map snd hs)"
proof (induction hs arbitrary: into)
  case (Cons h hs)
  obtain host n where h: "h = (host, n)" by (cases h)
  define key where
    "key = (if (map_of into host = None \<and> host \<noteq> ''other'') \<and> SandboxHostLimit \<le> named_hosts into
            then ''other'' else host)"
  define into1 where "into1 = smap_put key (smap_get0 into key + n) into"
  have st: "add_host h (named_hosts into, into) = (named_hosts into1, into1)"
    using Cons.prems by (auto simp: add_host_def h Let_def named_hosts_put into1_def key_def)
  have wf1: "smap_wf into1" using Cons.prems unfolding into1_def by (rule smap_wf_put)
  have le: "max (named_hosts into1) SandboxHostLimit \<le> max (named_hosts into) SandboxHostLimit"
    using Cons.prems by (auto simp: named_hosts_put into1_def key_def)
  have tc: "total_count into1 = total_count into + n"
    using Cons.prems unfolding into1_def by (rule total_count_put)
  obtain into' where "fold add_host hs (named_hosts into1, into1) = (named_hosts into', into')"
    "smap_wf into'" "named_hosts into' \<le> max (named_hosts into1) SandboxHostLimit"
    "total_count into' = total_count into1 + sum_list (map snd hs)"
    using Cons.IH [OF wf1] by blast
  with le show ?case
    by (intro exI [of _ into']) (auto simp: st [unfolded h] h tc intro: order_trans)
qed simp

lemma addHosts_correct:
  assumes "smap_wf into"
  shows "smap_wf (addHosts into from0)"
    and "named_hosts (addHosts into from0) \<le> max (named_hosts into) SandboxHostLimit"
    and "total_count (addHosts into from0) = total_count into + total_count from0"
proof -
  obtain into' where st: "fold add_host from0 (named_hosts into, into) = (named_hosts into', into')"
    and inv: "smap_wf into'" "named_hosts into' \<le> max (named_hosts into) SandboxHostLimit"
      "total_count into' = total_count into + sum_list (map snd from0)"
    using fold_add_host [OF assms, of from0] by blast
  have eq: "addHosts into from0 = into'"
    using st by (simp add: addHosts_def Let_def named_hosts_length [OF assms])
  show "smap_wf (addHosts into from0)" "named_hosts (addHosts into from0) \<le> max (named_hosts into) SandboxHostLimit"
    "total_count (addHosts into from0) = total_count into + total_count from0"
    using inv by (simp_all add: eq total_count_def)
qed

end
