(* ===== verification/Sample_Data.thy ===== *)
theory Sample_Data
  imports Task_Model
begin

text \<open>
  Concrete records of one small plan: a standard-mode configuration, an accepted proposal, the task
  planned from it, a clean review of the commit the task delivers, and the pull request the delivery
  opens. The component theories evaluate their properties on these records.
\<close>

definition sample_config :: config where
  "sample_config = Default\<lparr>c_Repository := ''/srv/app'', c_GitHubRepo := ''octo/app''\<rparr>"

definition sample_maintenance :: config where
  "sample_maintenance = sample_config\<lparr>c_DeliveryMode := DeliveryModeMaintenance,
     c_AutoMergeMaxLines := 200, c_AutoMergeMaxFiles := 10,
     c_VerificationCommands := [''make test'']\<rparr>"

definition sample_route :: route where
  "sample_route = NewRoute ''gpt-6-astra'' ''high''"

definition sample_proposal :: proposal where
  "sample_proposal =
     \<lparr>p_ID = ''p1'', p_Title = ''Close the file'', p_Problem = ''a leak'', p_Evidence = [''main.go:12''],
      p_Benefit = ''no leak'', p_Category = ''correctness'', p_Target = ''main'', p_Tier = ''M'',
      p_Scope = ''main.go'', p_Dependencies = [], p_Prompt = ''close it'', p_Decision = ''accepted'',
      p_Reason = ''real'', p_ProblemKey = ''leak'', p_RelevantPaths = [''main.go''], p_Reconsiders = []\<rparr>"

definition sample_task :: task where
  "sample_task =
     \<lparr>t_ID = ''t1'', t_CycleID = ''c1'', t_Proposal = sample_proposal, t_Status = StatusQueued,
      t_Route = sample_route, t_Config = sample_config, t_SourceRevision = ''rev0'', t_ComparisonBase = [],
      t_DefaultRevision = ''rev0'', t_Branch = ''octomus/t1'', t_Workspace = [], t_ExecutionSession = None,
      t_RepairSession = None, t_Sessions = [], t_Reviews = [], t_Verification = [], t_OutputCommit = None,
      t_PRNumber = None, t_PRURL = None, t_Attempts = 0, t_Error = None,
      t_CreatedAt = ''2025-01-01T00:00:00Z'', t_UpdatedAt = ''2025-01-01T00:00:00Z'',
      t_AttemptPolicy = None, t_ReviewBaseline = 0, t_RepairRounds = None, t_RepairProgress = None,
      t_BlockedReason = None, t_RunID = None, t_SupersededBy = [], t_Supersedes = [],
      t_RediscoveryRequested = False, t_RediscoveryResult = None,
      t_Lifecycle = \<lparr>wl_ArchivedAt = None, wl_DiscardedAt = None\<rparr>, t_MaintenanceFootprint = None,
      t_AutoMergeSnapshot = None\<rparr>"

definition sample_review :: review_round where
  "sample_review =
     \<lparr>rr_SessionID = ''s2'', rr_Revision = ''rev1'', rr_ComparisonBase = ''rev0'',
      rr_Result = \<lparr>rv_Completed = True, rv_Summary = ''ok'', rv_Findings = []\<rparr>,
      rr_CreatedAt = ''2025-01-01T01:00:00Z'', rr_Maintenance = None, rr_TrustedDiffComplete = True\<rparr>"

definition sample_executing :: task where
  "sample_executing = sample_task\<lparr>t_Status := StatusExecuting\<rparr>"

definition sample_reviewing :: task where
  "sample_reviewing = sample_executing\<lparr>t_Status := StatusReviewing, t_Reviews := [sample_review]\<rparr>"

definition sample_publishing :: task where
  "sample_publishing = sample_reviewing\<lparr>t_Status := StatusPublishing, t_OutputCommit := Some ''rev1''\<rparr>"

definition sample_published :: task where
  "sample_published = sample_publishing\<lparr>t_Status := StatusPublished, t_PRNumber := Some 7\<rparr>"

lemmas sample_defs = sample_published_def sample_publishing_def sample_reviewing_def sample_executing_def
  sample_task_def sample_review_def sample_proposal_def sample_route_def sample_config_def

lemma sample_review_clean [simp]: "Review_Clean (rr_Result sample_review)"
  by (simp add: Review_Clean_def Review_Valid_def sample_review_def go_eval is_space_def)

end
