(* ===== verification/Task_Lifecycle.thy ===== *)
theory Task_Lifecycle
  imports Sample_Data
begin

text \<open>
  \<open>internal/model/task_lifecycle.go\<close>: the policy that decides which change of a saved task each
  authority may commit, and the two ways pending worker evidence is merged into a saved task.
  The lemmas show, for any sequence of accepted changes, that the planning identity and the
  authorised output commit of a task never change, that review and verification evidence only grows,
  and that a published task was authorised by a clean review of exactly its output commit.
\<close>

subsection \<open>Definitions\<close>

datatype task_change =
    TaskCheckpoint | TaskPrepare | TaskAdmission | TaskAuthorizePublication | TaskPublication
  | TaskSettlement | TaskRecovery | TaskRetry | TaskResolve | TaskInspect | TaskCancel | TaskArchive
  | TaskDiscard | TaskLineage | TaskMergeSnapshot

datatype task_error =
    ReplacesPlanningIdentity | ReplacesOutputCommit | ErrTaskCancelled | WorkspacesIneligible
  | TransitionNotAuthorized status status | ReplacesForeignFields | ReplacesEvidence
  | RepeatsSessionIdentity | ReplacesSessionIdentity | ForgetsStartedTurn
  | RepairAccountingMismatch | LegacyAccountingMismatch | RepairWithoutAccounting
  | EvidenceChangedIndependently

definition copyTaskEvidence :: "task \<Rightarrow> task \<Rightarrow> task" where
  "copyTaskEvidence next evidence =
     next\<lparr>t_Sessions := t_Sessions evidence, t_Reviews := t_Reviews evidence,
       t_Verification := t_Verification evidence, t_RepairRounds := t_RepairRounds evidence,
       t_RepairProgress := t_RepairProgress evidence\<rparr>"

definition taskHistoryPrefix :: "'a list \<Rightarrow> 'a list \<Rightarrow> bool" where
  "taskHistoryPrefix before after \<longleftrightarrow>
     \<not> length after < length before \<and> list_all (\<lambda>(b, a). b = a) (zip before after)"

text \<open>The session loop of \<open>validateTaskEvidence\<close>: the sessions already committed at the same
  positions, the identities seen so far and the number of repairs newly completed.\<close>

fun check_sessions ::
  "session list \<Rightarrow> string list \<Rightarrow> u64 \<Rightarrow> session list \<Rightarrow> (task_error, u64) result" where
  "check_sessions olds seen repairs [] = Inr repairs"
| "check_sessions olds seen repairs (s # ss) =
     (if s_ID s = [] \<or> s_ID s \<in> set seen then Inl RepeatsSessionIdentity
      else case olds of
        [] \<Rightarrow>
          check_sessions [] (s_ID s # seen)
            (if s_Role s = ''repair'' \<and> s_Status s = SessionCompleted then repairs + 1 else repairs) ss
      | old # olds' \<Rightarrow>
          if s_ID old \<noteq> s_ID s \<or> s_Role old \<noteq> s_Role s \<or> s_StartedAt old \<noteq> s_StartedAt s \<or>
             s_Route old \<noteq> s_Route s
          then Inl ReplacesSessionIdentity
          else if s_FirstTurnStarted old = Some True \<and> s_FirstTurnStarted s \<noteq> Some True
          then Inl ForgetsStartedTurn
          else check_sessions olds' (s_ID s # seen)
            (if s_Role s = ''repair'' \<and> s_Status s = SessionCompleted \<and> s_Status old \<noteq> SessionCompleted
             then repairs + 1 else repairs) ss)"

definition validateTaskEvidence :: "task \<Rightarrow> task \<Rightarrow> task_error go_error" where
  "validateTaskEvidence expected pending =
     (if length (t_Sessions pending) < length (t_Sessions expected) \<or>
         \<not> taskHistoryPrefix (t_Reviews expected) (t_Reviews pending) \<or>
         \<not> taskHistoryPrefix (t_Verification expected) (t_Verification pending)
      then Some ReplacesEvidence
      else case check_sessions (t_Sessions expected) [] 0 (t_Sessions pending) of
        Inl e \<Rightarrow> Some e
      | Inr repairs \<Rightarrow>
          (case t_RepairRounds expected of
             Some before \<Rightarrow>
               (case t_RepairRounds pending of
                  None \<Rightarrow> Some RepairAccountingMismatch
                | Some after \<Rightarrow> check (after = before + repairs) RepairAccountingMismatch)
           | None \<Rightarrow>
               (case t_RepairRounds pending of
                  Some after \<Rightarrow> check (after = AttemptReviews expected + repairs) LegacyAccountingMismatch
                | None \<Rightarrow> check (repairs = 0) RepairWithoutAccounting)))"

text \<open>The status transition each authority may make.\<close>

definition transition_valid :: "task \<Rightarrow> task \<Rightarrow> task_change \<Rightarrow> bool \<Rightarrow> bool" where
  "transition_valid cur nxt change cancelled =
     (case change of
        TaskCheckpoint \<Rightarrow>
          (if t_Status cur = t_Status nxt then Status_Active (t_Status cur)
           else case t_Status cur of
               StatusExecuting \<Rightarrow> t_Status nxt = StatusReviewing
             | StatusRepairing \<Rightarrow> t_Status nxt = StatusReviewing
             | StatusReviewing \<Rightarrow> t_Status nxt = StatusVerifying \<or> t_Status nxt = StatusRepairing
             | StatusVerifying \<Rightarrow> t_Status nxt = StatusRepairing
             | _ \<Rightarrow> False)
      | TaskPrepare \<Rightarrow>
          t_Status cur = StatusExecuting \<and> t_Status nxt = t_Status cur \<and> t_ExecutionSession cur = None
      | TaskAdmission \<Rightarrow> t_Status cur = StatusQueued \<and> t_Status nxt = StatusExecuting
      | TaskAuthorizePublication \<Rightarrow>
          Status_Active (t_Status cur) \<and> t_Status nxt = StatusPublishing \<and>
          (case t_OutputCommit nxt of None \<Rightarrow> False | Some commit \<Rightarrow> ReviewAuthorizes nxt commit)
      | TaskPublication \<Rightarrow>
          t_Status cur = StatusPublishing \<and> t_Status nxt = StatusPublished \<and> t_OutputCommit cur \<noteq> None
      | TaskSettlement \<Rightarrow>
          (if cancelled \<and> t_OutputCommit cur = None then t_Status nxt = StatusCancelled
           else t_Status nxt = t_Status cur \<or>
             ((Status_Active (t_Status cur) \<or> t_Status cur = StatusQueued) \<and>
              (t_Status nxt = StatusBlocked \<or> t_Status nxt = StatusFailed \<or> t_Status nxt = StatusCancelled)))
      | TaskRecovery \<Rightarrow>
          (if cancelled \<and> t_OutputCommit cur = None then t_Status nxt = StatusCancelled
           else Status_Active (t_Status cur) \<and>
             (t_Status nxt = StatusQueued \<or> t_Status nxt = StatusBlocked \<or> t_Status nxt = StatusCancelled))
      | TaskRetry \<Rightarrow>
          Status_Retryable (t_Status cur) \<and> t_Status nxt = StatusQueued \<and> t_Attempts nxt = t_Attempts cur + 1
      | TaskResolve \<Rightarrow>
          (Status_Retryable (t_Status cur) \<or> t_Status cur = StatusCancelled) \<and>
          (t_Status nxt = t_Status cur \<or> t_Status nxt = StatusCancelled \<or>
           (t_Status nxt = StatusPublishing \<and> t_OutputCommit cur \<noteq> None))
      | TaskInspect \<Rightarrow> Status_Retryable (t_Status cur) \<and> t_Status nxt = t_Status cur
      | TaskCancel \<Rightarrow>
          t_OutputCommit cur = None \<and> t_Status cur \<noteq> StatusPublishing \<and> t_Status cur \<noteq> StatusPublished \<and>
          t_Status nxt = StatusCancelled
      | TaskArchive \<Rightarrow>
          \<not> Status_Active (t_Status cur) \<and> t_Status cur \<noteq> StatusQueued \<and>
          wl_ArchivedAt (t_Lifecycle nxt) \<noteq> None \<and>
          (t_Status nxt = t_Status cur \<or> Status_Retryable (t_Status cur) \<and> t_Status nxt = StatusCancelled)
      | TaskDiscard \<Rightarrow>
          \<not> Status_Active (t_Status cur) \<and> t_Status cur \<noteq> StatusQueued \<and> t_Status nxt = t_Status cur \<and>
          wl_DiscardedAt (t_Lifecycle nxt) \<noteq> None
      | TaskLineage \<Rightarrow> t_Status nxt = t_Status cur
      | TaskMergeSnapshot \<Rightarrow> t_Status nxt = t_Status cur)"

text \<open>The fields each authority may write: the current task with exactly those taken from the next.\<close>

definition allowed_change :: "task \<Rightarrow> task \<Rightarrow> task_change \<Rightarrow> task" where
  "allowed_change cur nxt change =
     (let allowed = cur\<lparr>t_Status := t_Status nxt, t_UpdatedAt := t_UpdatedAt nxt,
                t_Error := t_Error nxt, t_BlockedReason := t_BlockedReason nxt\<rparr>;
          worker = (copyTaskEvidence allowed nxt)\<lparr>t_ExecutionSession := t_ExecutionSession nxt,
                t_RepairSession := t_RepairSession nxt,
                t_MaintenanceFootprint := t_MaintenanceFootprint nxt\<rparr>
      in case change of
        TaskCheckpoint \<Rightarrow> worker
      | TaskPrepare \<Rightarrow> worker\<lparr>t_SourceRevision := t_SourceRevision nxt, t_Workspace := t_Workspace nxt,
            t_ComparisonBase := t_ComparisonBase nxt\<rparr>
      | TaskAuthorizePublication \<Rightarrow> worker\<lparr>t_OutputCommit := t_OutputCommit nxt\<rparr>
      | TaskSettlement \<Rightarrow> worker
      | TaskPublication \<Rightarrow> allowed\<lparr>t_PRNumber := t_PRNumber nxt, t_PRURL := t_PRURL nxt,
            t_AutoMergeSnapshot := t_AutoMergeSnapshot nxt\<rparr>
      | TaskRecovery \<Rightarrow> allowed\<lparr>t_Sessions := t_Sessions nxt, t_Attempts := t_Attempts nxt\<rparr>
      | TaskRetry \<Rightarrow> allowed\<lparr>t_Attempts := t_Attempts nxt, t_AttemptPolicy := t_AttemptPolicy nxt,
            t_RunID := t_RunID nxt, t_ReviewBaseline := t_ReviewBaseline nxt,
            t_RepairRounds := t_RepairRounds nxt, t_RepairProgress := t_RepairProgress nxt\<rparr>
      | TaskInspect \<Rightarrow> allowed\<lparr>t_AttemptPolicy := t_AttemptPolicy nxt\<rparr>
      | TaskResolve \<Rightarrow> allowed\<lparr>t_RediscoveryRequested := t_RediscoveryRequested nxt,
            t_RediscoveryResult := t_RediscoveryResult nxt\<rparr>
      | TaskArchive \<Rightarrow> allowed\<lparr>t_Lifecycle := (t_Lifecycle allowed)\<lparr>wl_ArchivedAt := wl_ArchivedAt (t_Lifecycle nxt)\<rparr>\<rparr>
      | TaskDiscard \<Rightarrow> allowed\<lparr>t_Lifecycle := (t_Lifecycle allowed)\<lparr>wl_DiscardedAt := wl_DiscardedAt (t_Lifecycle nxt)\<rparr>\<rparr>
      | TaskLineage \<Rightarrow> allowed\<lparr>t_SupersededBy := t_SupersededBy nxt,
            t_RediscoveryRequested := t_RediscoveryRequested nxt, t_RediscoveryResult := t_RediscoveryResult nxt\<rparr>
      | TaskMergeSnapshot \<Rightarrow> allowed\<lparr>t_AutoMergeSnapshot := t_AutoMergeSnapshot nxt\<rparr>
      | _ \<Rightarrow> allowed)"

definition worker_change :: "task_change \<Rightarrow> bool" where
  "worker_change change \<longleftrightarrow>
     change = TaskCheckpoint \<or> change = TaskPrepare \<or> change = TaskAuthorizePublication \<or> change = TaskSettlement"

definition ValidateTaskChange :: "task \<Rightarrow> task \<Rightarrow> task_change \<Rightarrow> bool \<Rightarrow> task_error go_error" where
  "ValidateTaskChange cur nxt change cancelled =
     (if t_ID cur \<noteq> t_ID nxt \<or> t_CycleID cur \<noteq> t_CycleID nxt \<or> t_CreatedAt cur \<noteq> t_CreatedAt nxt \<or>
         t_Branch cur \<noteq> t_Branch nxt \<or> t_DefaultRevision cur \<noteq> t_DefaultRevision nxt \<or>
         t_Proposal cur \<noteq> t_Proposal nxt \<or> t_Config cur \<noteq> t_Config nxt \<or> t_Route cur \<noteq> t_Route nxt
      then Some ReplacesPlanningIdentity
      else if t_OutputCommit cur \<noteq> None \<and> t_OutputCommit cur \<noteq> t_OutputCommit nxt
      then Some ReplacesOutputCommit
      else if cancelled \<and> t_OutputCommit cur = None \<and>
         (change = TaskCheckpoint \<or> change = TaskPrepare \<or> change = TaskAdmission \<or>
          change = TaskAuthorizePublication)
      then Some ErrTaskCancelled
      else if (wl_ArchivedAt (t_Lifecycle cur) \<noteq> None \<or> wl_DiscardedAt (t_Lifecycle cur) \<noteq> None) \<and>
         change \<noteq> TaskSettlement \<and> change \<noteq> TaskDiscard \<and> change \<noteq> TaskMergeSnapshot
      then Some WorkspacesIneligible
      else if \<not> transition_valid cur nxt change cancelled
      then Some (TransitionNotAuthorized (t_Status cur) (t_Status nxt))
      else if worker_change change \<and> validateTaskEvidence cur nxt \<noteq> None
      then validateTaskEvidence cur nxt
      else if allowed_change cur nxt change \<noteq> nxt
      then Some ReplacesForeignFields
      else None)"

definition cancelled_message :: string where
  "cancelled_message = ''Cancelled by the operator''"

definition MergeCancelledTask :: "task \<Rightarrow> task \<Rightarrow> task \<Rightarrow> (task_error, task) result" where
  "MergeCancelledTask expected cur pending =
     (let baseline = cur\<lparr>t_Status := t_Status expected, t_UpdatedAt := t_UpdatedAt expected,
            t_Error := t_Error expected, t_BlockedReason := t_BlockedReason expected\<rparr>
      in if t_OutputCommit cur \<noteq> None \<or> baseline \<noteq> expected then Inl EvidenceChangedIndependently
      else case validateTaskEvidence expected pending of
        Some e \<Rightarrow> Inl e
      | None \<Rightarrow>
          let nxt = (copyTaskEvidence cur pending)\<lparr>t_Status := StatusCancelled,
                 t_Error := Some cancelled_message, t_BlockedReason := None,
                 t_UpdatedAt := t_UpdatedAt pending\<rparr>
          in Inr (nxt\<lparr>t_Sessions := FailRunning (t_Sessions nxt) cancelled_message\<rparr>))"

definition SettleTaskEvidence :: "task \<Rightarrow> task \<Rightarrow> task" where
  "SettleTaskEvidence expected pending =
     (copyTaskEvidence expected pending)\<lparr>t_ExecutionSession := t_ExecutionSession pending,
       t_RepairSession := t_RepairSession pending, t_Status := t_Status pending,
       t_UpdatedAt := t_UpdatedAt pending, t_Error := t_Error pending,
       t_BlockedReason := t_BlockedReason pending,
       t_MaintenanceFootprint := t_MaintenanceFootprint pending\<rparr>"


subsection \<open>Lemmas: evidence\<close>

lemma taskHistoryPrefix_prefix: "taskHistoryPrefix xs ys \<longleftrightarrow> prefix xs ys"
proof -
  have "length xs \<le> length ys \<Longrightarrow> list_all (\<lambda>(b, a). b = a) (zip xs ys) = prefix xs ys" for xs ys :: "'a list"
  proof (induction xs arbitrary: ys)
    case (Cons x xs)
    then show ?case by (cases ys) auto
  qed simp
  then show ?thesis
    unfolding taskHistoryPrefix_def by (metis not_less prefix_length_le)
qed

lemma check_sessions_identity:
  "check_sessions olds seen r ss = Inr n \<Longrightarrow> length olds \<le> length ss \<Longrightarrow>
     distinct (map s_ID ss) \<and> set (map s_ID ss) \<inter> set seen = {} \<and> prefix (map s_ID olds) (map s_ID ss)"
proof (induction olds seen r ss arbitrary: n rule: check_sessions.induct)
  case (2 olds seen r s ss)
  then show ?case by (cases olds) (auto split: if_splits)
qed simp

text \<open>Failing the running sessions changes neither identity nor repair accounting.\<close>

lemma check_sessions_FailRunning:
  "check_sessions olds seen r (FailRunning ss m) = check_sessions olds seen r ss"
proof (induction olds seen r ss rule: check_sessions.induct)
  case (2 olds seen r s ss)
  have fr: "FailRunning (s # ss) m = fail_session m s # FailRunning ss m" by (simp add: FailRunning_def)
  have keep: "s_ID (fail_session m s) = s_ID s" "s_Role (fail_session m s) = s_Role s"
    "s_StartedAt (fail_session m s) = s_StartedAt s" "s_Route (fail_session m s) = s_Route s"
    "s_FirstTurnStarted (fail_session m s) = s_FirstTurnStarted s"
    "s_Status (fail_session m s) = SessionCompleted \<longleftrightarrow> s_Status s = SessionCompleted"
    by (auto simp: fail_session_def)
  show ?case
    using 2 by (cases olds) (simp_all add: fr keep)
qed (simp add: FailRunning_def)

lemma validateTaskEvidence_prefix:
  assumes "validateTaskEvidence expected pending = None"
  shows "prefix (t_Reviews expected) (t_Reviews pending)"
    "prefix (t_Verification expected) (t_Verification pending)"
    "prefix (map s_ID (t_Sessions expected)) (map s_ID (t_Sessions pending))"
    "distinct (map s_ID (t_Sessions pending))"
proof -
  from assms obtain n where
    "check_sessions (t_Sessions expected) [] 0 (t_Sessions pending) = Inr n"
    "length (t_Sessions expected) \<le> length (t_Sessions pending)"
    by (auto simp: validateTaskEvidence_def not_less split: if_splits sum.splits)
  from check_sessions_identity [OF this]
  show "prefix (map s_ID (t_Sessions expected)) (map s_ID (t_Sessions pending))"
    "distinct (map s_ID (t_Sessions pending))" by auto
  show "prefix (t_Reviews expected) (t_Reviews pending)"
    "prefix (t_Verification expected) (t_Verification pending)"
    using assms by (auto simp: validateTaskEvidence_def taskHistoryPrefix_prefix split: if_splits)
qed

text \<open>Evidence validation reads five fields of each side only.\<close>

lemma validateTaskEvidence_cong:
  assumes "t_Sessions e = t_Sessions e'" "t_Reviews e = t_Reviews e'" "t_Verification e = t_Verification e'"
    "t_RepairRounds e = t_RepairRounds e'" "t_ReviewBaseline e = t_ReviewBaseline e'"
    "t_Reviews p = t_Reviews p'" "t_Verification p = t_Verification p'"
    "t_RepairRounds p = t_RepairRounds p'"
    "t_Sessions p = t_Sessions p' \<or> t_Sessions p = FailRunning (t_Sessions p') m"
  shows "validateTaskEvidence e p = validateTaskEvidence e' p'"
proof -
  have "AttemptReviews e = AttemptReviews e'"
    using assms by (simp add: AttemptReviews_def)
  moreover have "check_sessions (t_Sessions e') [] 0 (t_Sessions p) =
      check_sessions (t_Sessions e') [] 0 (t_Sessions p')"
    and "length (t_Sessions p) = length (t_Sessions p')"
    using assms(9) by (metis check_sessions_FailRunning, metis FailRunning_def length_map)
  ultimately show ?thesis
    by (simp only: validateTaskEvidence_def assms(1-8))
qed

subsection \<open>Lemmas: the fields a change may write\<close>

lemmas allowed_defs = allowed_change_def copyTaskEvidence_def Let_def

lemma allowed_change_output:
  "change \<noteq> TaskAuthorizePublication \<Longrightarrow> t_OutputCommit (allowed_change c n change) = t_OutputCommit c"
  by (cases change) (simp_all add: allowed_defs)

lemma allowed_change_lifecycle:
  "change \<noteq> TaskArchive \<Longrightarrow> change \<noteq> TaskDiscard \<Longrightarrow> t_Lifecycle (allowed_change c n change) = t_Lifecycle c"
  by (cases change) (simp_all add: allowed_defs)

lemma allowed_change_archived:
  "change \<noteq> TaskArchive \<Longrightarrow> wl_ArchivedAt (t_Lifecycle (allowed_change c n change)) = wl_ArchivedAt (t_Lifecycle c)"
  by (cases change) (simp_all add: allowed_defs)

lemma allowed_change_evidence:
  "\<not> worker_change change \<Longrightarrow>
     t_Reviews (allowed_change c n change) = t_Reviews c \<and>
     t_Verification (allowed_change c n change) = t_Verification c"
  by (cases change) (simp_all add: allowed_defs worker_change_def)

lemma allowed_change_supersedes: "t_Supersedes (allowed_change c n change) = t_Supersedes c"
  by (cases change) (simp_all add: allowed_defs)

lemma ValidateTaskChange_None:
  assumes "ValidateTaskChange cur nxt change cancelled = None"
  shows "t_ID nxt = t_ID cur" "t_CycleID nxt = t_CycleID cur" "t_CreatedAt nxt = t_CreatedAt cur"
    "t_Branch nxt = t_Branch cur" "t_DefaultRevision nxt = t_DefaultRevision cur"
    "t_Proposal nxt = t_Proposal cur" "t_Config nxt = t_Config cur" "t_Route nxt = t_Route cur"
    "t_OutputCommit cur \<noteq> None \<Longrightarrow> t_OutputCommit nxt = t_OutputCommit cur"
    "transition_valid cur nxt change cancelled"
    "worker_change change \<Longrightarrow> validateTaskEvidence cur nxt = None"
    "allowed_change cur nxt change = nxt"
    "cancelled \<Longrightarrow> t_OutputCommit cur = None \<Longrightarrow>
       change \<notin> {TaskCheckpoint, TaskPrepare, TaskAdmission, TaskAuthorizePublication}"
    "wl_ArchivedAt (t_Lifecycle cur) \<noteq> None \<or> wl_DiscardedAt (t_Lifecycle cur) \<noteq> None \<Longrightarrow>
       change \<in> {TaskSettlement, TaskDiscard, TaskMergeSnapshot}"
  using assms by (auto simp: ValidateTaskChange_def split: if_splits)

lemma ValidateTaskChange_NoneI:
  assumes "t_ID nxt = t_ID cur" "t_CycleID nxt = t_CycleID cur" "t_CreatedAt nxt = t_CreatedAt cur"
    "t_Branch nxt = t_Branch cur" "t_DefaultRevision nxt = t_DefaultRevision cur"
    "t_Proposal nxt = t_Proposal cur" "t_Config nxt = t_Config cur" "t_Route nxt = t_Route cur"
    "t_OutputCommit cur \<noteq> None \<Longrightarrow> t_OutputCommit nxt = t_OutputCommit cur"
    "transition_valid cur nxt change cancelled"
    "worker_change change \<Longrightarrow> validateTaskEvidence cur nxt = None"
    "allowed_change cur nxt change = nxt"
    "cancelled \<Longrightarrow> t_OutputCommit cur = None \<Longrightarrow>
       change \<notin> {TaskCheckpoint, TaskPrepare, TaskAdmission, TaskAuthorizePublication}"
    "wl_ArchivedAt (t_Lifecycle cur) \<noteq> None \<or> wl_DiscardedAt (t_Lifecycle cur) \<noteq> None \<Longrightarrow>
       change \<in> {TaskSettlement, TaskDiscard, TaskMergeSnapshot}"
  shows "ValidateTaskChange cur nxt change cancelled = None"
proof -
  have "\<not> (t_OutputCommit cur \<noteq> None \<and> t_OutputCommit cur \<noteq> t_OutputCommit nxt)"
    using assms(9) by fastforce
  moreover have "\<not> (worker_change change \<and> validateTaskEvidence cur nxt \<noteq> None)"
    using assms(11) by auto
  moreover have "\<not> (cancelled \<and> t_OutputCommit cur = None \<and>
      (change = TaskCheckpoint \<or> change = TaskPrepare \<or> change = TaskAdmission \<or>
       change = TaskAuthorizePublication))"
    using assms(13) by blast
  moreover have "\<not> ((wl_ArchivedAt (t_Lifecycle cur) \<noteq> None \<or> wl_DiscardedAt (t_Lifecycle cur) \<noteq> None) \<and>
      change \<noteq> TaskSettlement \<and> change \<noteq> TaskDiscard \<and> change \<noteq> TaskMergeSnapshot)"
    using assms(14) by blast
  ultimately show ?thesis
    unfolding ValidateTaskChange_def by (simp only: assms(1-8,10,12) if_False simp_thms)
qed

lemma accepted_output:
  assumes "ValidateTaskChange cur nxt change cancelled = None" and "change \<noteq> TaskAuthorizePublication"
  shows "t_OutputCommit nxt = t_OutputCommit cur"
  using ValidateTaskChange_None(12) [OF assms(1)] allowed_change_output [OF assms(2)] by metis

lemma accepted_evidence:
  assumes "ValidateTaskChange cur nxt change cancelled = None"
  shows "prefix (t_Reviews cur) (t_Reviews nxt)" "prefix (t_Verification cur) (t_Verification nxt)"
proof -
  note v = ValidateTaskChange_None [OF assms]
  have "prefix (t_Reviews cur) (t_Reviews nxt) \<and> prefix (t_Verification cur) (t_Verification nxt)"
  proof (cases "worker_change change")
    case True
    with v(11) show ?thesis using validateTaskEvidence_prefix by blast
  next
    case False
    with v(12) allowed_change_evidence [of change cur nxt] show ?thesis by simp
  qed
  then show "prefix (t_Reviews cur) (t_Reviews nxt)" "prefix (t_Verification cur) (t_Verification nxt)"
    by blast+
qed

subsection \<open>Lemmas: merged settlements\<close>

lemma MergeCancelledTask_Inr:
  assumes "MergeCancelledTask expected cur pending = Inr nxt"
  shows "t_OutputCommit cur = None" "validateTaskEvidence cur nxt = None"
    "t_Status nxt = StatusCancelled" "allowed_change cur nxt TaskSettlement = nxt"
    "t_ID nxt = t_ID cur \<and> t_CycleID nxt = t_CycleID cur \<and> t_CreatedAt nxt = t_CreatedAt cur \<and>
     t_Branch nxt = t_Branch cur \<and> t_DefaultRevision nxt = t_DefaultRevision cur \<and>
     t_Proposal nxt = t_Proposal cur \<and> t_Config nxt = t_Config cur \<and> t_Route nxt = t_Route cur"
proof -
  let ?base = "cur\<lparr>t_Status := t_Status expected, t_UpdatedAt := t_UpdatedAt expected,
            t_Error := t_Error expected, t_BlockedReason := t_BlockedReason expected\<rparr>"
  have base: "?base = expected" and out: "t_OutputCommit cur = None"
    and ev: "validateTaskEvidence expected pending = None"
    using assms by (auto simp: MergeCancelledTask_def Let_def split: if_splits option.splits)
  have nxt: "nxt = (copyTaskEvidence cur pending)\<lparr>t_Status := StatusCancelled,
      t_Error := Some cancelled_message, t_BlockedReason := None, t_UpdatedAt := t_UpdatedAt pending,
      t_Sessions := FailRunning (t_Sessions pending) cancelled_message\<rparr>"
    using assms base out ev by (simp add: MergeCancelledTask_def copyTaskEvidence_def)
  show "t_OutputCommit cur = None" by (rule out)
  have "validateTaskEvidence ?base pending = validateTaskEvidence cur nxt"
    by (subst (2) validateTaskEvidence_cong [where e' = ?base and p' = pending and m = cancelled_message])
      (simp_all add: nxt copyTaskEvidence_def)
  with ev show "validateTaskEvidence cur nxt = None" by (simp add: base)
  show "t_Status nxt = StatusCancelled" by (simp add: nxt)
  show "allowed_change cur nxt TaskSettlement = nxt" by (simp add: nxt allowed_defs)
  show "t_ID nxt = t_ID cur \<and> t_CycleID nxt = t_CycleID cur \<and> t_CreatedAt nxt = t_CreatedAt cur \<and>
     t_Branch nxt = t_Branch cur \<and> t_DefaultRevision nxt = t_DefaultRevision cur \<and>
     t_Proposal nxt = t_Proposal cur \<and> t_Config nxt = t_Config cur \<and> t_Route nxt = t_Route cur"
    by (simp add: nxt copyTaskEvidence_def)
qed

lemma MergeCancelledTask_same_ID:
  assumes "MergeCancelledTask expected cur pending = Inr nxt"
  shows "t_ID cur = t_ID expected"
proof -
  have "cur\<lparr>t_Status := t_Status expected, t_UpdatedAt := t_UpdatedAt expected,
      t_Error := t_Error expected, t_BlockedReason := t_BlockedReason expected\<rparr> = expected"
    using assms by (auto simp: MergeCancelledTask_def Let_def split: if_splits)
  from arg_cong [OF this, of t_ID] show ?thesis by simp
qed

lemma MergeCancelledTask_accepted:
  assumes "MergeCancelledTask expected cur pending = Inr nxt"
  shows "ValidateTaskChange cur nxt TaskSettlement True = None"
  using MergeCancelledTask_Inr [OF assms]
  by (intro ValidateTaskChange_NoneI) (simp_all add: transition_valid_def)

lemma SettleTaskEvidence_accepted:
  assumes "validateTaskEvidence expected pending = None"
    and "transition_valid expected pending TaskSettlement cancelled"
  shows "ValidateTaskChange expected (SettleTaskEvidence expected pending) TaskSettlement cancelled = None"
proof (rule ValidateTaskChange_NoneI)
  have "validateTaskEvidence expected (SettleTaskEvidence expected pending) =
      validateTaskEvidence expected pending"
    by (rule validateTaskEvidence_cong) (simp_all add: SettleTaskEvidence_def copyTaskEvidence_def)
  with assms(1) show "validateTaskEvidence expected (SettleTaskEvidence expected pending) = None" by simp
qed (use assms(2) in \<open>simp_all add: SettleTaskEvidence_def allowed_defs transition_valid_def\<close>)


subsection \<open>The lifecycle as a state machine\<close>

text \<open>A task as plan creation saves it, one step of a saved task, and the tasks a sequence of steps
  reaches. A step is a change the policy accepts, or the enrolment of a queued task in a run-once batch,
  which the store writes directly (\<open>txStartBatch\<close>). The cancellation marker is part of each step:
  \<open>task_run\<close> records whether it was set at every step of the sequence.\<close>

definition fresh_task :: "task \<Rightarrow> bool" where
  "fresh_task t \<longleftrightarrow>
     t_Status t = StatusQueued \<and> t_OutputCommit t = None \<and> t_Reviews t = [] \<and> t_Verification t = [] \<and>
     t_Sessions t = [] \<and> wl_ArchivedAt (t_Lifecycle t) = None \<and> wl_DiscardedAt (t_Lifecycle t) = None"

inductive task_step :: "bool \<Rightarrow> task \<Rightarrow> task \<Rightarrow> bool" where
  commit: "ValidateTaskChange cur nxt change cancelled = None \<Longrightarrow> task_step cancelled cur nxt"
| enroll: "t_Status cur = StatusQueued \<Longrightarrow> wl_ArchivedAt (t_Lifecycle cur) = None \<Longrightarrow>
    task_step cancelled cur (cur\<lparr>t_RunID := Some run\<rparr>)"

inductive task_run :: "bool \<Rightarrow> task \<Rightarrow> task \<Rightarrow> bool" for always where
  none: "task_run always t t"
| more: "task_run always t u \<Longrightarrow> task_step cancelled u v \<Longrightarrow> (always \<Longrightarrow> cancelled) \<Longrightarrow> task_run always t v"

inductive_cases task_stepE: "task_step cancelled cur nxt"

definition reviewed_commit :: "task \<Rightarrow> string \<Rightarrow> bool" where
  "reviewed_commit t c \<longleftrightarrow>
     list_ex (\<lambda>r. rr_Revision r = c \<and> Review_Clean (rr_Result r) \<and>
       (c_DeliveryMode (t_Config t) = DeliveryModeMaintenance \<longrightarrow>
        (case rr_Maintenance r of None \<Rightarrow> False | Some m \<Rightarrow> ma_Qualifies m))) (t_Reviews t)"

definition settled :: "task \<Rightarrow> bool" where
  "settled t \<longleftrightarrow> \<not> Status_Active (t_Status t) \<and> t_Status t \<noteq> StatusQueued"

definition retired :: "task \<Rightarrow> bool" where
  "retired t \<longleftrightarrow> wl_ArchivedAt (t_Lifecycle t) \<noteq> None \<or> wl_DiscardedAt (t_Lifecycle t) \<noteq> None"

definition lifecycle_inv :: "task \<Rightarrow> bool" where
  "lifecycle_inv t \<longleftrightarrow>
     (t_Status t \<in> {StatusPublishing, StatusPublished} \<longrightarrow> t_OutputCommit t \<noteq> None) \<and>
     (case t_OutputCommit t of None \<Rightarrow> True | Some c \<Rightarrow> c \<noteq> [] \<and> reviewed_commit t c) \<and>
     (retired t \<longrightarrow> settled t)"

lemma reviewed_commit_mono:
  "reviewed_commit t c \<Longrightarrow> t_Config u = t_Config t \<Longrightarrow> prefix (t_Reviews t) (t_Reviews u) \<Longrightarrow> reviewed_commit u c"
  by (auto simp: reviewed_commit_def list_ex_iff prefix_def)

lemma reviewed_commit_enrolled [simp]: "reviewed_commit (t\<lparr>t_RunID := run\<rparr>) c = reviewed_commit t c"
  by (simp add: reviewed_commit_def)

lemma ReviewAuthorizes_reviewed: "ReviewAuthorizes t c \<Longrightarrow> c \<noteq> [] \<and> reviewed_commit t c"
  by (auto simp: ReviewAuthorizes_def reviewed_commit_def list_ex_iff Let_def split: option.splits
      intro!: bexI [where x = "last (t_Reviews t)"])

lemma step_inv_publishing:
  assumes v: "ValidateTaskChange t u change cancelled = None" and i: "lifecycle_inv t"
    and s: "t_Status u \<in> {StatusPublishing, StatusPublished}"
  shows "t_OutputCommit u \<noteq> None"
proof (cases "change = TaskAuthorizePublication")
  case True
  with ValidateTaskChange_None(10) [OF v] show ?thesis
    by (auto simp: transition_valid_def split: option.splits)
next
  case False
  have "t_OutputCommit t \<noteq> None"
    using ValidateTaskChange_None(10) [OF v] i s False
    by (cases change; cases "t_Status t")
      (auto simp: transition_valid_def lifecycle_inv_def split: if_splits)
  then show ?thesis using accepted_output [OF v False] by simp
qed

lemma step_inv_reviewed:
  assumes v: "ValidateTaskChange t u change cancelled = None" and i: "lifecycle_inv t"
    and c: "t_OutputCommit u = Some c"
  shows "c \<noteq> [] \<and> reviewed_commit u c"
proof (cases "t_OutputCommit t = Some c")
  case True
  with i have "c \<noteq> [] \<and> reviewed_commit t c" by (simp add: lifecycle_inv_def)
  with reviewed_commit_mono ValidateTaskChange_None(7) [OF v] accepted_evidence(1) [OF v]
  show ?thesis by blast
next
  case False
  then have "change = TaskAuthorizePublication"
    using accepted_output [OF v] c by metis
  with ValidateTaskChange_None(10) [OF v] c have "ReviewAuthorizes u c" by (simp add: transition_valid_def)
  then show ?thesis by (rule ReviewAuthorizes_reviewed)
qed

lemma step_inv_retired:
  assumes v: "ValidateTaskChange t u change cancelled = None" and i: "lifecycle_inv t" and r: "retired u"
  shows "settled u"
proof (cases "retired t")
  case True
  then have "change \<in> {TaskSettlement, TaskDiscard, TaskMergeSnapshot}" and "settled t"
    using ValidateTaskChange_None(14) [OF v] i by (auto simp: retired_def lifecycle_inv_def)
  with ValidateTaskChange_None(10) [OF v] show ?thesis
    by (auto simp: transition_valid_def settled_def split: if_splits)
next
  case False
  then have "change = TaskArchive \<or> change = TaskDiscard"
    using r ValidateTaskChange_None(12) [OF v] allowed_change_lifecycle [of change t u]
    by (metis retired_def)
  with ValidateTaskChange_None(10) [OF v] show ?thesis
    by (auto simp: transition_valid_def settled_def)
qed

lemma step_lifecycle_inv:
  assumes "task_step cancelled t u" and "lifecycle_inv t"
  shows "lifecycle_inv u"
  using assms(1)
proof cases
  case (commit change)
  note v = commit
  show ?thesis
    using step_inv_publishing [OF v assms(2)] step_inv_reviewed [OF v assms(2)] step_inv_retired [OF v assms(2)]
    by (auto simp: lifecycle_inv_def split: option.splits)
next
  case (enroll run)
  then show ?thesis
    using assms(2)
    by (auto simp: lifecycle_inv_def retired_def settled_def split: option.splits)
qed

lemma run_lifecycle_inv: "task_run always t u \<Longrightarrow> lifecycle_inv t \<Longrightarrow> lifecycle_inv u"
  by (induction rule: task_run.induct) (auto intro: step_lifecycle_inv)

lemma fresh_lifecycle_inv: "fresh_task t \<Longrightarrow> lifecycle_inv t"
  by (simp add: fresh_task_def lifecycle_inv_def retired_def)


subsection \<open>Properties\<close>

text \<open>C1: Whatever sequence of changes the lifecycle policy accepts from a freshly planned task, a task that
  is publishing or published carries an output commit; an output commit is non-empty and was reviewed
  clean at exactly that revision (with a qualifying maintenance assessment in maintenance mode); and a
  task whose workspaces were archived or discarded is neither queued nor running.\<close>

theorem reachable_task_safe:
  assumes "fresh_task t" and "task_run always t u"
  shows "(t_Status u \<in> {StatusPublishing, StatusPublished} \<longrightarrow> t_OutputCommit u \<noteq> None) \<and>
     (\<forall>c. t_OutputCommit u = Some c \<longrightarrow> c \<noteq> [] \<and> reviewed_commit u c) \<and>
     (retired u \<longrightarrow> settled u)"
  using run_lifecycle_inv [OF assms(2) fresh_lifecycle_inv [OF assms(1)]]
  by (simp add: lifecycle_inv_def split: option.splits)

lemma run_step:
  "task_run always t u \<Longrightarrow> ValidateTaskChange u v change cancelled = None \<Longrightarrow> (always \<Longrightarrow> cancelled) \<Longrightarrow>
     task_run always t v"
  by (rule task_run.more [where cancelled = cancelled]) (auto intro: task_step.commit)

lemmas policy_defs = ValidateTaskChange_def transition_valid_def worker_change_def allowed_defs

lemma sample_admitted: "ValidateTaskChange sample_task sample_executing TaskAdmission False = None"
  by (simp add: policy_defs sample_executing_def sample_task_def)

lemma sample_reviewed: "ValidateTaskChange sample_executing sample_reviewing TaskCheckpoint False = None"
  by (simp add: policy_defs sample_reviewing_def sample_executing_def sample_task_def
      validateTaskEvidence_def taskHistoryPrefix_def check_def)

lemma sample_authorized: "ValidateTaskChange sample_reviewing sample_publishing TaskAuthorizePublication False = None"
  by (simp add: policy_defs sample_publishing_def sample_reviewing_def sample_executing_def sample_task_def
      validateTaskEvidence_def taskHistoryPrefix_def check_def ReviewAuthorizes_def sample_config_def Default_def)
    (simp add: sample_review_def)

lemma sample_delivered: "ValidateTaskChange sample_publishing sample_published TaskPublication False = None"
  by (simp add: policy_defs sample_published_def sample_publishing_def sample_reviewing_def sample_executing_def
      sample_task_def)

lemma sample_run: "task_run False sample_task sample_published"
  by (rule run_step [OF run_step [OF run_step [OF run_step [OF task_run.none sample_admitted]
      sample_reviewed] sample_authorized] sample_delivered]) simp_all

theorem reachable_task_safe_witness:
  "t_OutputCommit sample_published = Some ''rev1'' \<and> reviewed_commit sample_published ''rev1''"
proof -
  have "fresh_task sample_task" by (simp add: fresh_task_def sample_task_def)
  moreover have "t_OutputCommit sample_published = Some ''rev1''"
    by (simp add: sample_published_def sample_publishing_def)
  ultimately show ?thesis using reachable_task_safe [OF _ sample_run] by simp
qed

definition same_identity :: "task \<Rightarrow> task \<Rightarrow> bool" where
  "same_identity t u \<longleftrightarrow>
     t_ID u = t_ID t \<and> t_CycleID u = t_CycleID t \<and> t_Proposal u = t_Proposal t \<and>
     t_Config u = t_Config t \<and> t_Route u = t_Route t \<and> t_Branch u = t_Branch t \<and>
     t_DefaultRevision u = t_DefaultRevision t \<and> t_CreatedAt u = t_CreatedAt t"

lemma step_history:
  assumes "task_step cancelled t u"
  shows "same_identity t u \<and> (t_OutputCommit t \<noteq> None \<longrightarrow> t_OutputCommit u = t_OutputCommit t) \<and>
     prefix (t_Reviews t) (t_Reviews u) \<and> prefix (t_Verification t) (t_Verification u)"
  using assms
proof cases
  case (commit change)
  note s = ValidateTaskChange_None [OF commit]
  have "same_identity t u" using s(1-8) by (simp add: same_identity_def)
  with s(9) accepted_evidence [OF commit] show ?thesis by blast
qed (simp_all add: same_identity_def)

text \<open>C2: Across every accepted sequence of changes the planning identity of a task (its cycle, proposal,
  configuration, route, branch and revision) never changes, an output commit once authorised is never
  replaced or dropped, and the recorded review rounds and verification results are never rewritten: the
  earlier history is a prefix of the later one.\<close>

theorem run_preserves_history:
  assumes "task_run always t u"
  shows "same_identity t u \<and> (t_OutputCommit t \<noteq> None \<longrightarrow> t_OutputCommit u = t_OutputCommit t) \<and>
     prefix (t_Reviews t) (t_Reviews u) \<and> prefix (t_Verification t) (t_Verification u)"
  using assms
proof induction
  case (more t u cancelled v)
  note s = step_history [OF more(2)]
  have "t_OutputCommit t \<noteq> None \<longrightarrow> t_OutputCommit v = t_OutputCommit t"
    using more.IH s by metis
  moreover have "prefix (t_Reviews t) (t_Reviews v)" "prefix (t_Verification t) (t_Verification v)"
    using more.IH s prefix_order.trans by blast+
  ultimately show ?case using more.IH s by (simp add: same_identity_def)
qed (simp add: same_identity_def)

theorem run_preserves_history_witness:
  "t_Proposal sample_published = sample_proposal \<and> prefix [] (t_Reviews sample_published)"
  using run_preserves_history [OF sample_run] by (simp add: sample_task_def same_identity_def)

lemma marked_step:
  assumes v: "ValidateTaskChange t u change True = None" and o: "t_OutputCommit t = None"
  shows "t_OutputCommit u = None"
    and "t_Status u \<in> {t_Status t, StatusCancelled, StatusQueued}"
  using ValidateTaskChange_None(13) [OF v] ValidateTaskChange_None(10) [OF v] o accepted_output [OF v]
  by (cases change; auto simp: transition_valid_def)+

text \<open>C6: Cancellation is final for unpublished work. While the cancellation marker of a task is set, no
  sequence of accepted changes gives a task without output commit an output commit, so it is never
  published; and the only statuses it can newly enter are cancelled and, through an explicit retry,
  queued.\<close>

theorem marked_never_publishes:
  assumes "task_run True t u" and "t_OutputCommit t = None"
  shows "t_OutputCommit u = None \<and> t_Status u \<in> {t_Status t, StatusCancelled, StatusQueued}"
  using assms
proof induction
  case (more t u cancelled v)
  then have cancelled by simp
  with more(2) have "task_step True u v" by simp
  then show ?case
  proof cases
    case (commit change)
    from marked_step [OF this] more show ?thesis by auto
  qed (use more in auto)
qed simp

definition sample_cancelled :: task where
  "sample_cancelled = sample_executing\<lparr>t_Status := StatusCancelled, t_Error := Some cancelled_message\<rparr>"

lemma sample_cancel: "ValidateTaskChange sample_executing sample_cancelled TaskCancel True = None"
  by (simp add: policy_defs sample_cancelled_def sample_executing_def sample_task_def)

theorem marked_never_publishes_witness:
  "t_OutputCommit sample_cancelled = None \<and> t_Status sample_cancelled = StatusCancelled"
  using marked_never_publishes [OF run_step [OF task_run.none sample_cancel]]
  by (simp add: sample_cancelled_def sample_executing_def sample_task_def)

text \<open>Settling a cancelled worker never loses its evidence and is always committable: when the pending
  evidence extends the worker's own checkpoint and nobody else changed the task, the merged task is
  accepted as a settlement under the cancellation marker, is cancelled, has no running session left and
  keeps every review and verification the worker recorded.\<close>

lemma cancelled_settlement_commits:
  assumes "MergeCancelledTask expected cur pending = Inr nxt"
  shows "ValidateTaskChange cur nxt TaskSettlement True = None \<and> t_Status nxt = StatusCancelled \<and>
     (\<forall>s \<in> set (t_Sessions nxt). s_Status s \<noteq> SessionRunning) \<and>
     t_Reviews nxt = t_Reviews pending \<and> t_Verification nxt = t_Verification pending \<and>
     map s_ID (t_Sessions nxt) = map s_ID (t_Sessions pending)"
proof -
  have nxt: "nxt = (copyTaskEvidence cur pending)\<lparr>t_Status := StatusCancelled,
      t_Error := Some cancelled_message, t_BlockedReason := None, t_UpdatedAt := t_UpdatedAt pending,
      t_Sessions := FailRunning (t_Sessions pending) cancelled_message\<rparr>"
    using assms by (auto simp: MergeCancelledTask_def Let_def copyTaskEvidence_def split: if_splits option.splits)
  have "s_Status s \<noteq> SessionRunning" if "s \<in> set (t_Sessions nxt)" for s
    using FailRunning_none_running [of s "t_Sessions pending" cancelled_message] that by (simp add: nxt)
  with MergeCancelledTask_accepted [OF assms] show ?thesis
    by (simp add: nxt copyTaskEvidence_def)
qed

lemma cancelled_settlement_commits_witness:
  "t_Reviews (projr (MergeCancelledTask sample_executing sample_cancelled sample_reviewing)) = [sample_review]"
proof -
  have "MergeCancelledTask sample_executing sample_cancelled sample_reviewing =
      Inr (sample_cancelled\<lparr>t_Reviews := [sample_review]\<rparr>)"
    by (simp add: MergeCancelledTask_def sample_cancelled_def sample_reviewing_def sample_executing_def
        sample_task_def validateTaskEvidence_def taskHistoryPrefix_def check_def copyTaskEvidence_def FailRunning_def)
  from cancelled_settlement_commits [OF this] this show ?thesis by (simp add: sample_reviewing_def)
qed

end
