(* ===== verification/Task_Evidence.thy ===== *)
theory Task_Evidence
  imports Sample_Data
begin

text \<open>
  Properties of the evidence a task carries: what an automatic merge is authorised by
  (\<open>internal/model/maintenance.go\<close>, \<open>verification.go\<close>), that newer evidence revokes it, how a joined
  error is classified (\<open>model.go\<close>) and that merging sandbox records keeps their counts and their size
  bound (\<open>sandbox.go\<close>).
\<close>

subsection \<open>Merge authority\<close>

definition sample_mergeable :: task where
  "sample_mergeable = sample_published\<lparr>t_Config := sample_maintenance, t_ComparisonBase := ''rev0'',
     t_Sessions := [\<lparr>s_ID = ''s2'', s_Role = ''reviewer'', s_Route = sample_route, s_Status = SessionCompleted,
       s_StartedAt = ''2025-01-01T00:30:00Z'', s_Summary = ''ok'', s_FirstTurnStarted = Some True, s_Sandbox = None\<rparr>],
     t_Reviews := [sample_review\<lparr>rr_Maintenance := Some \<lparr>ma_Qualifies = True, ma_ManualMergeRequired = False,
       ma_Reason = ''safe''\<rparr>\<rparr>],
     t_Verification := [\<lparr>v_Command = ''make test'', v_Success = True, v_Output = [], v_Revision = ''rev1'',
       v_CreatedAt = ''2025-01-01T01:00:00Z'', v_Sandbox = None\<rparr>],
     t_MaintenanceFootprint := Some \<lparr>mf_ComparisonBase = ''rev0'', mf_Revision = ''rev1'',
       mf_ChangedLines = Some 12, mf_ChangedFiles = Some 1, mf_Paths = [''main.go''], mf_Complete = True,
       mf_ManualReasons = []\<rparr>\<rparr>"

definition ascii_tables :: unicode_tables where
  "ascii_tables = \<lparr>to_lower_rune = (\<lambda>r. r), cased_rune = (\<lambda>_. False), ignorable_rune = (\<lambda>_. False),
     cases_lower = map ascii_lower\<rparr>"

lemma sample_mergeable_authorized: "MaintenanceMergeAuthorized ascii_tables sample_mergeable sample_maintenance"
  by (simp add: MaintenanceMergeAuthorized_def sample_mergeable_def sample_defs sample_maintenance_def
      SameRemoteIdentity_def SamePath_def Default_def EffectiveCategories_def Categories_def ReviewAuthorizes_def
      footprint_fits_def AutoMergeLimits_def ExecutionConfig_def VerificationFor_def ManualMergePath_def
      manual_component_def manualMergeNames_def Review_Clean_def Review_Valid_def go_eval)

text \<open>The least the merge policy promises of a delivery it authorises.\<close>

definition merge_safe :: "unicode_tables \<Rightarrow> task \<Rightarrow> config \<Rightarrow> bool" where
  "merge_safe u t live \<longleftrightarrow>
     (case (t_OutputCommit t, t_MaintenanceFootprint t, rev (t_Reviews t)) of
        (Some commit, Some fp, round # _) \<Rightarrow>
          commit \<noteq> [] \<and> rr_Revision round = commit \<and> Review_Clean (rr_Result round) \<and>
          rr_ComparisonBase round = t_ComparisonBase t \<and> rr_TrustedDiffComplete round \<and>
          mf_Revision fp = commit \<and> mf_ComparisonBase fp = t_ComparisonBase t \<and> mf_Complete fp \<and>
          mf_Paths fp \<noteq> [] \<and> mf_ManualReasons fp = [] \<and>
          (\<forall>p \<in> set (mf_Paths fp). \<not> ManualMergePath u p (c_AutoMergeExcludedPaths live)) \<and>
          (case mf_ChangedLines fp of None \<Rightarrow> False
           | Some n \<Rightarrow> n \<le> c_AutoMergeMaxLines live \<and> n \<le> c_AutoMergeMaxLines (t_Config t)) \<and>
          (case mf_ChangedFiles fp of None \<Rightarrow> False
           | Some n \<Rightarrow> n \<le> c_AutoMergeMaxFiles live \<and> n \<le> c_AutoMergeMaxFiles (t_Config t)) \<and>
          c_VerificationCommands (t_Config t) \<noteq> [] \<and>
          (\<forall>cmd \<in> set (c_VerificationCommands (t_Config t)).
             case filter (\<lambda>v. v_Command v = cmd) (rev (t_Verification t)) of [] \<Rightarrow> False
             | v # _ \<Rightarrow> v_Success v \<and> v_Revision v = commit)
      | _ \<Rightarrow> False)"

lemma VerificationFor_latest:
  "fst (VerificationFor t cmd) =
     (case filter (\<lambda>v. v_Command v = cmd) (rev (t_Verification t)) of [] \<Rightarrow> None | v # _ \<Rightarrow> Some v)"
proof -
  have "filter P (rev xs) = rev (filter P xs)" for P :: "verification \<Rightarrow> bool" and xs by (simp add: rev_filter)
  then show ?thesis
    by (auto simp: VerificationFor_filter Let_def split: list.splits)
qed

lemma footprint_fits_bounds:
  assumes "footprint_fits u t commit live fp"
  shows "mf_Complete fp" "mf_ComparisonBase fp = t_ComparisonBase t" "mf_Revision fp = commit"
    "mf_Paths fp \<noteq> []" "mf_ManualReasons fp = []"
    "\<forall>p \<in> set (mf_Paths fp). \<not> ManualMergePath u p (c_AutoMergeExcludedPaths live)"
    "\<exists>n. mf_ChangedLines fp = Some n \<and> n \<le> c_AutoMergeMaxLines live \<and> n \<le> c_AutoMergeMaxLines (t_Config t)"
    "\<exists>n. mf_ChangedFiles fp = Some n \<and> n \<le> c_AutoMergeMaxFiles live \<and> n \<le> c_AutoMergeMaxFiles (t_Config t)"
  using assms
  by (auto simp: footprint_fits_def AutoMergeLimits_def list_ex_iff min_def split: option.splits if_splits)

lemma ReviewAuthorizes_maintenance:
  assumes "ReviewAuthorizes t c" and "c_DeliveryMode (t_Config t) = DeliveryModeMaintenance"
  shows "c \<noteq> []" "rr_ComparisonBase (last (t_Reviews t)) = t_ComparisonBase t"
  using assms by (auto simp: ReviewAuthorizes_def Let_def)

text \<open>C3: An automatic merge is authorised only for a delivery whose output commit is the revision of the
  latest review, that review is clean and over the recorded comparison base and a complete trusted diff;
  the measured footprint is of exactly that commit, complete, within both the saved and the live limits
  and touches no path that needs a manual merge; and the latest result of every configured verification
  command is a success at exactly that commit.\<close>

theorem merge_authority_sound:
  assumes "MaintenanceMergeAuthorized u t live"
  shows "merge_safe u t live"
proof -
  obtain commit fp where out: "t_OutputCommit t = Some commit" and fp: "t_MaintenanceFootprint t = Some fp"
    and fits: "footprint_fits u t commit live fp" and auth: "ReviewAuthorizes t commit"
    by (rule merge_authority_footprint [OF assms])
  have mode: "c_DeliveryMode (t_Config t) = DeliveryModeMaintenance"
    and trusted: "rr_TrustedDiffComplete (last (t_Reviews t))"
    and cmds: "c_VerificationCommands (t_Config t) \<noteq> []"
    using assms out by (simp_all add: MaintenanceMergeAuthorized_def Let_def)
  note r = ReviewAuthorizes_round [OF auth] ReviewAuthorizes_maintenance [OF auth mode]
  obtain rs where rs: "rev (t_Reviews t) = last (t_Reviews t) # rs"
    using r(1) by (cases "t_Reviews t" rule: rev_cases) auto
  have "case filter (\<lambda>v. v_Command v = cmd) (rev (t_Verification t)) of [] \<Rightarrow> False
      | v # _ \<Rightarrow> v_Success v \<and> v_Revision v = commit"
    if cmd: "cmd \<in> set (c_VerificationCommands (t_Config t))" for cmd
  proof -
    obtain v where "fst (VerificationFor t cmd) = Some v" "v_Success v" "v_Revision v = commit"
      by (rule merge_authority_verified [OF assms out cmd])
    then show ?thesis by (simp add: VerificationFor_latest split: list.splits)
  qed
  with footprint_fits_bounds [OF fits] r trusted cmds show ?thesis
    by (auto simp: merge_safe_def out fp rs)
qed

theorem merge_authority_sound_witness: "merge_safe ascii_tables sample_mergeable sample_maintenance"
  by (rule merge_authority_sound [OF sample_mergeable_authorized])

text \<open>Merge authority follows the newest evidence. Recording a verification result of a configured
  command that failed or ran at another revision, or a review round that is not a clean review of the
  output commit, revokes the authority, whatever was recorded before.\<close>

lemma newer_evidence_revokes:
  assumes "t_OutputCommit t = Some commit"
  shows "(v_Command v \<in> set (c_VerificationCommands (t_Config t)) \<and> \<not> (v_Success v \<and> v_Revision v = commit) \<longrightarrow>
       \<not> MaintenanceMergeAuthorized u (t\<lparr>t_Verification := t_Verification t @ [v]\<rparr>) live) \<and>
     (\<not> (rr_Revision r = commit \<and> Review_Clean (rr_Result r)) \<longrightarrow>
       \<not> MaintenanceMergeAuthorized u (t\<lparr>t_Reviews := t_Reviews t @ [r]\<rparr>) live)"
proof (intro conjI impI notI)
  let ?t = "t\<lparr>t_Verification := t_Verification t @ [v]\<rparr>"
  assume v: "v_Command v \<in> set (c_VerificationCommands (t_Config t)) \<and> \<not> (v_Success v \<and> v_Revision v = commit)"
    and a: "MaintenanceMergeAuthorized u ?t live"
  obtain w where "fst (VerificationFor ?t (v_Command v)) = Some w" "v_Success w" "v_Revision w = commit"
    using merge_authority_verified [OF a, of commit "v_Command v"] v assms by auto
  with v show False by (simp add: VerificationFor_append)
next
  let ?t = "t\<lparr>t_Reviews := t_Reviews t @ [r]\<rparr>"
  assume r: "\<not> (rr_Revision r = commit \<and> Review_Clean (rr_Result r))" and a: "MaintenanceMergeAuthorized u ?t live"
  obtain c where "t_OutputCommit ?t = Some c" "ReviewAuthorizes ?t c"
    by (rule merge_authority_footprint [OF a])
  with ReviewAuthorizes_round(2,3) [of ?t c] r assms show False by simp
qed

theorem newer_evidence_revokes_witness:
  "\<not> MaintenanceMergeAuthorized ascii_tables
     (sample_mergeable\<lparr>t_Reviews := t_Reviews sample_mergeable @ [sample_review\<lparr>rr_Revision := ''rev2''\<rparr>]\<rparr>)
     sample_maintenance"
proof -
  have "t_OutputCommit sample_mergeable = Some ''rev1''"
    by (simp add: sample_mergeable_def sample_published_def sample_publishing_def)
  from newer_evidence_revokes [OF this] show ?thesis by simp
qed

subsection \<open>Error classification\<close>

text \<open>The reason a failed task is blocked by is the last blocked reason met when the error and the
  errors it wraps or joins are visited outermost first and left to right, and unknown when there is none;
  wrapping an error that carries a reason never changes the classification.\<close>

lemma blocked_reason_classification:
  "BlockedReasonFromError None = BlockedUnknown \<and>
   BlockedReasonFromError (Some e) = last (BlockedUnknown # reasons_of e) \<and>
   BlockedReasonFromError (Some (Wrap e)) = BlockedReasonFromError (Some e) \<and>
   BlockedReasonFromError (Some (Join [e, Plain])) = BlockedReasonFromError (Some e)"
  by (simp add: BlockedReasonFromError_def visit_reason_last)

subsection \<open>Sandbox records\<close>

definition egress_ok :: "sandbox_record \<Rightarrow> bool" where
  "egress_ok r \<longleftrightarrow>
     (\<forall>m \<in> {se_Allowed (sr_Egress r), se_Denied (sr_Egress r), se_Failed (sr_Egress r)}.
        smap_wf m \<and> named_hosts m \<le> SandboxHostLimit)"

lemma addHosts_ok:
  "smap_wf m \<Longrightarrow> named_hosts m \<le> SandboxHostLimit \<Longrightarrow>
     smap_wf (addHosts m h) \<and> named_hosts (addHosts m h) \<le> SandboxHostLimit"
  using addHosts_correct [of m h] by auto

lemma addHosts_Nil_ok: "smap_wf (addHosts [] h) \<and> named_hosts (addHosts [] h) \<le> SandboxHostLimit"
  by (rule addHosts_ok) (simp_all add: smap_wf_def named_hosts_def)

text \<open>Merging the record of a sandbox run never loses a connection count and stays bounded: each merged
  map is well formed, names at most 64 hosts besides the overflow entry, and its counts add up to the
  counts of both sides (modulo 64 bits).\<close>

lemma merge_sandbox_counts:
  assumes "egress_ok i"
  shows "\<exists>m. MergeSandbox (Some i) (Some r) = Some m \<and> egress_ok m \<and>
     total_count (se_Allowed (sr_Egress m)) = total_count (se_Allowed (sr_Egress i)) + total_count (se_Allowed (sr_Egress r)) \<and>
     total_count (se_Denied (sr_Egress m)) = total_count (se_Denied (sr_Egress i)) + total_count (se_Denied (sr_Egress r)) \<and>
     total_count (se_Failed (sr_Egress m)) = total_count (se_Failed (sr_Egress i)) + total_count (se_Failed (sr_Egress r)) \<and>
     sr_Runs m = sr_Runs i + sr_Runs r"
  using assms
  by (simp add: MergeSandbox_def Let_def egress_ok_def addHosts_ok addHosts_correct(3))

theorem merge_sandbox_counts_witness:
  "\<exists>m. MergeSandbox (Some \<lparr>sr_ImageID = ''a'', sr_Runtime = ''runc'', sr_Runs = 1, sr_OOM = False,
        sr_Incomplete = False, sr_Egress = \<lparr>se_Allowed = [(''x.org'', 2)], se_Denied = [], se_Failed = []\<rparr>\<rparr>)
      (Some \<lparr>sr_ImageID = ''a'', sr_Runtime = ''runc'', sr_Runs = 1, sr_OOM = False,
        sr_Incomplete = False, sr_Egress = \<lparr>se_Allowed = [(''y.org'', 3)], se_Denied = [], se_Failed = []\<rparr>\<rparr>) = Some m \<and>
    total_count (se_Allowed (sr_Egress m)) = 5"
proof -
  let ?i = "\<lparr>sr_ImageID = ''a'', sr_Runtime = ''runc'', sr_Runs = 1, sr_OOM = False,
        sr_Incomplete = False, sr_Egress = \<lparr>se_Allowed = [(''x.org'', 2)], se_Denied = [], se_Failed = []\<rparr>\<rparr>"
  have "egress_ok ?i" by (simp add: egress_ok_def smap_wf_def named_hosts_def SandboxHostLimit_def)
  from merge_sandbox_counts [OF this, of "\<lparr>sr_ImageID = ''a'', sr_Runtime = ''runc'', sr_Runs = 1, sr_OOM = False,
        sr_Incomplete = False, sr_Egress = \<lparr>se_Allowed = [(''y.org'', 3)], se_Denied = [], se_Failed = []\<rparr>\<rparr>"]
  show ?thesis by (auto simp: total_count_def)
qed

end
