(* ===== verification/Store_State.thy ===== *)
theory Store_State
  imports Task_Lifecycle
begin

text \<open>
  The state database of \<open>internal/store\<close>: its tables as one record, the repository-scoped handle and its
  record identities (\<open>keys.go\<close>), reading and writing records with the effects of the schema's triggers
  (\<open>records.go\<close>, \<open>schema.sql\<close>) and transactions (\<open>store.go\<close>, \<open>capacity.go\<close>).

  A table keyed by a string is an association list in \<open>rowid\<close> order. The store mutex serialises every
  operation, so an operation is a function of the database. Failures of SQLite itself and saved JSON
  that no longer decodes are not represented: the tables hold decoded records. The clock
  (\<open>model.Now\<close>, read once per operation), fresh identities, text redaction, the Unicode tables and the JSON
  text of an attempt policy are the fields of an environment record.

  Of the triggers, those that maintain state the store's decisions read are part of the writes: release
  of a pull-request reservation, release of a planning reservation and batch membership. The projection
  tables (\<open>record_meta\<close>, \<open>record_counts\<close>, \<open>proposal_records\<close>) duplicate the records and are read through
  them; the notification outbox and the retention of old events are left out, so \<open>tb_Events\<close> is the
  sequence of all events inserted.
\<close>

subsection \<open>Environment, tables and errors\<close>

record env =
  env_Now :: string
  env_ID :: string
  env_Redact :: "string \<Rightarrow> string"
  env_Unicode :: unicode_tables
  env_PolicyJSON :: "attempt_policy option \<Rightarrow> string"

record admission =
  ad_ID :: string
  ad_At :: string
  ad_CycleID :: string
  ad_TaskID :: "string option"
  ad_Role :: string
  ad_Route :: route
  ad_Repository :: string

record pr_reservation =
  res_TaskID :: string
  res_Repository :: string
  res_Branch :: string
  res_AdmittedAt :: string

record repository_entry =
  re_GitHubRepo :: string
  re_DataDir :: string

record event_row =
  er_At :: string
  er_Entity :: string
  er_Kind :: event_kind
  er_Message :: string
  er_Repository :: string

record database =
  tb_Tasks :: "(string \<times> task) list"
  tb_Cycles :: "(string \<times> cycle) list"
  tb_Baselines :: "(string \<times> baseline_check) list"
  tb_PRs :: "(string \<times> pr_observation) list"
  tb_Decisions :: "(string \<times> decision_record) list"
  tb_Requests :: "(string \<times> operator_request) list"
  tb_Cancel :: "(string \<times> string option) list"
  tb_BaselineCancel :: "(string \<times> string option) list"
  tb_Configs :: "(string \<times> config) list"
  tb_Controls :: "(string \<times> control) list"
  tb_Inventories :: "(string \<times> open_pr_inventory) list"
  tb_LatestBaselines :: "(string \<times> string) list"
  tb_Registry :: "repository_entry list option"
  tb_Instance :: "instance_settings option"
  tb_BatchMembers :: "((string \<times> string) \<times> status) list"
  tb_Reservations :: "(string \<times> pr_reservation) list"
  tb_Planning :: "(string \<times> int) list"
  tb_Usage :: "((string \<times> string) \<times> int) list"
  tb_Admissions :: "(string \<times> admission) list"
  tb_Events :: "event_row list"

record handle =
  h_Repo :: string
  h_Primary :: string

datatype store_error =
    ErrTaskConflict string | MergeConflict string task_error | CommitCancelled | ErrTaskInvalid task_error
  | ErrRollback | ErrRequestLimit | ErrRequestChanged | UniqueConstraint
  | MissingLineageTask string | LineageArchived string | InvalidLineage | MissingDecisionIdentity
  | IneligibleRediscovery | MissingCycle string | NotAtPublishingCheckpoint string
  | UnresolvedMergeIntent u64 | InvalidTime | BudgetNotPositive | StorageLimitReached u64
  | InstanceCeilingExhausted | DailyBudgetExhausted | EmptyRepositoryIdentity | DataDirOutside string
  | DataDirTaken string string | CommitContextDone | SavedTimestampInvalid | TimestampInvalid

text \<open>The sequence operator of fallible steps.\<close>

fun rbind :: "('e, 'a) result \<Rightarrow> ('a \<Rightarrow> ('e, 'b) result) \<Rightarrow> ('e, 'b) result" where
  "rbind (Inl e) f = Inl e"
| "rbind (Inr a) f = f a"

fun fold_tx :: "('a \<Rightarrow> 's \<Rightarrow> ('e, 's) result) \<Rightarrow> 'a list \<Rightarrow> 's \<Rightarrow> ('e, 's) result" where
  "fold_tx f [] s = Inr s"
| "fold_tx f (x # xs) s = rbind (f x s) (fold_tx f xs)"

subsection \<open>Transactions\<close>

text \<open>\<open>runTx\<close>: the database of a failed transaction is the one it started from.\<close>

definition runTx :: "database \<Rightarrow> (database \<Rightarrow> (store_error, 'a \<times> database) result) \<Rightarrow>
    (store_error, 'a) result \<times> database" where
  "runTx db fn = (case fn db of Inl e \<Rightarrow> (Inl e, db) | Inr (a, db') \<Rightarrow> (Inr a, db'))"

definition conditional :: "database \<Rightarrow> (database \<Rightarrow> (store_error, 'a \<times> database) result) \<Rightarrow>
    (store_error, 'a option) result \<times> database" where
  "conditional db fn =
     (case runTx db fn of
        (Inl ErrRollback, db') \<Rightarrow> (Inr None, db')
      | (Inl e, db') \<Rightarrow> (Inl e, db')
      | (Inr a, db') \<Rightarrow> (Inr (Some a), db'))"

subsection \<open>Record identities\<close>

definition scopedSetting :: "handle \<Rightarrow> string \<Rightarrow> string" where
  "scopedSetting h id0 =
     (if h_Repo h = [] \<or> EqualASCII (h_Repo h) (h_Primary h) then id0 else id0 @ '':'' @ h_Repo h)"

definition store_ConfigKey :: "handle \<Rightarrow> string" where
  "store_ConfigKey h = scopedSetting h ''config''"

definition store_ControlKey :: "handle \<Rightarrow> string" where
  "store_ControlKey h = scopedSetting h ''control''"

definition store_prInventoryKey :: "handle \<Rightarrow> string" where
  "store_prInventoryKey h = scopedSetting h ''pr_inventory''"

definition store_latestBaselineKey :: "handle \<Rightarrow> string" where
  "store_latestBaselineKey h = scopedSetting h ''baseline_latest''"

definition ForRepository :: "handle \<Rightarrow> string \<Rightarrow> handle" where
  "ForRepository h repo = (if repo = h_Repo h then h else h\<lparr>h_Repo := repo\<rparr>)"

subsection \<open>Writing records\<close>

text \<open>\<open>txPut\<close> of a task, with the triggers \<open>batch_member_*\<close> and \<open>release_pr_reservation_*\<close>.\<close>

definition put_task :: "string \<Rightarrow> task \<Rightarrow> database \<Rightarrow> database" where
  "put_task i t db =
     db\<lparr>tb_Tasks := AList.update i t (tb_Tasks db),
        tb_BatchMembers :=
          (case t_RunID t of None \<Rightarrow> tb_BatchMembers db
           | Some run \<Rightarrow> AList.update (run, i) (t_Status t) (tb_BatchMembers db)),
        tb_Reservations :=
          (if t_Status t \<in> {StatusBlocked, StatusFailed, StatusCancelled} \<and> t_OutputCommit t = None
           then AList.delete i (tb_Reservations db) else tb_Reservations db)\<rparr>"

text \<open>\<open>txPut\<close> of a cycle, with the trigger \<open>release_planning_reservation\<close>, which fires on updates only.\<close>

definition put_cycle :: "string \<Rightarrow> cycle \<Rightarrow> database \<Rightarrow> database" where
  "put_cycle i c db =
     db\<lparr>tb_Cycles := AList.update i c (tb_Cycles db),
        tb_Planning :=
          (if map_of (tb_Cycles db) i \<noteq> None \<and> cy_Status c \<noteq> CycleRunning
           then AList.delete i (tb_Planning db) else tb_Planning db)\<rparr>"

definition put_pr :: "string \<Rightarrow> pr_observation \<Rightarrow> database \<Rightarrow> database" where
  "put_pr i ob db = db\<lparr>tb_PRs := AList.update i ob (tb_PRs db)\<rparr>"

definition put_cancel :: "string \<Rightarrow> string option \<Rightarrow> database \<Rightarrow> database" where
  "put_cancel i m db = db\<lparr>tb_Cancel := AList.update i m (tb_Cancel db)\<rparr>"

definition put_control :: "string \<Rightarrow> control \<Rightarrow> database \<Rightarrow> database" where
  "put_control i c db = db\<lparr>tb_Controls := AList.update i c (tb_Controls db)\<rparr>"

definition txRepositoryEvent :: "env \<Rightarrow> string \<Rightarrow> string \<Rightarrow> event_kind \<Rightarrow> string \<Rightarrow> database \<Rightarrow> database" where
  "txRepositoryEvent env repository entity kind message db =
     db\<lparr>tb_Events := tb_Events db @
       [\<lparr>er_At = env_Now env, er_Entity = entity, er_Kind = kind, er_Message = env_Redact env message,
         er_Repository = repository\<rparr>]\<rparr>"

text \<open>A cancellation marker is set when its record exists and is not JSON null.\<close>

definition marker :: "(string \<times> string option) list \<Rightarrow> string \<Rightarrow> string option" where
  "marker table i = (case map_of table i of None \<Rightarrow> None | Some m \<Rightarrow> m)"

definition storedConfig :: "database \<Rightarrow> string \<Rightarrow> config" where
  "storedConfig db key = (case map_of (tb_Configs db) key of None \<Rightarrow> Default | Some c \<Rightarrow> c)"

definition storedInstanceSettings :: "database \<Rightarrow> instance_settings" where
  "storedInstanceSettings db =
     (case tb_Instance db of None \<Rightarrow> \<lparr>is_MaxSessionsPerDay = 0\<rparr> | Some s \<Rightarrow> s)"

definition liveControl :: "database \<Rightarrow> string \<Rightarrow> control" where
  "liveControl db key = (case map_of (tb_Controls db) key of None \<Rightarrow> DefaultControl | Some c \<Rightarrow> c)"

definition SaveControl :: "handle \<Rightarrow> control \<Rightarrow> database \<Rightarrow> database" where
  "SaveControl h c db = put_control (store_ControlKey h) c db"

definition ClearCancel :: "string \<Rightarrow> database \<Rightarrow> database" where
  "ClearCancel i db = put_cancel i None db"

definition MarkCancel :: "env \<Rightarrow> string \<Rightarrow> database \<Rightarrow> database" where
  "MarkCancel env i db = put_cancel i (Some (env_Now env)) db"

definition CancelMarked :: "database \<Rightarrow> string \<Rightarrow> bool" where
  "CancelMarked db i \<longleftrightarrow> marker (tb_Cancel db) i \<noteq> None"

definition MarkBaselineCancel :: "env \<Rightarrow> string \<Rightarrow> database \<Rightarrow> database" where
  "MarkBaselineCancel env i db =
     db\<lparr>tb_BaselineCancel := AList.update i (Some (env_Now env)) (tb_BaselineCancel db)\<rparr>"

definition BaselineCancelMarked :: "database \<Rightarrow> string \<Rightarrow> bool" where
  "BaselineCancelMarked db i \<longleftrightarrow> marker (tb_BaselineCancel db) i \<noteq> None"

definition store_Event :: "env \<Rightarrow> handle \<Rightarrow> string \<Rightarrow> event_kind \<Rightarrow> string \<Rightarrow> database \<Rightarrow> database" where
  "store_Event env h entity kind message db = txRepositoryEvent env (h_Repo h) entity kind message db"

definition BeginBaseline :: "handle \<Rightarrow> baseline_check \<Rightarrow> database \<Rightarrow> database" where
  "BeginBaseline h chk db =
     db\<lparr>tb_Baselines := AList.update (bk_ID chk) chk (tb_Baselines db),
        tb_LatestBaselines := AList.update (store_latestBaselineKey h) (bk_ID chk) (tb_LatestBaselines db)\<rparr>"

definition LatestBaseline :: "handle \<Rightarrow> database \<Rightarrow> baseline_check option" where
  "LatestBaseline h db =
     (case map_of (tb_LatestBaselines db) (store_latestBaselineKey h) of
        None \<Rightarrow> None | Some i \<Rightarrow> map_of (tb_Baselines db) i)"


subsection \<open>Lemmas\<close>

lemma rbind_Inr_iff: "rbind m f = Inr b \<longleftrightarrow> (\<exists>a. m = Inr a \<and> f a = Inr b)"
  by (cases m) auto

lemma rbind_Inl_iff: "rbind m f = Inl e \<longleftrightarrow> m = Inl e \<or> (\<exists>a. m = Inr a \<and> f a = Inl e)"
  by (cases m) auto

text \<open>An invariant of every step is an invariant of the loop.\<close>

lemma fold_tx_invariant:
  assumes "fold_tx f xs s = Inr s'" and "P s"
    and "\<And>x s s'. x \<in> set xs \<Longrightarrow> P s \<Longrightarrow> f x s = Inr s' \<Longrightarrow> P s'"
  shows "P s'"
  using assms
proof (induction xs arbitrary: s)
  case (Cons x xs)
  from Cons.prems(1) obtain s1 where s1: "f x s = Inr s1" "fold_tx f xs s1 = Inr s'"
    by (auto simp: rbind_Inr_iff)
  have P1: "P s1" using Cons.prems(3) [OF _ Cons.prems(2) s1(1)] by simp
  show ?case
  proof (rule Cons.IH [OF s1(2) P1])
    fix y u v assume "y \<in> set xs" "P u" "f y u = Inr v"
    then show "P v" using Cons.prems(3) [of y u v] by simp
  qed
qed simp

lemma runTx_error: "fst (runTx db fn) = Inl e \<Longrightarrow> snd (runTx db fn) = db"
  by (auto simp: runTx_def split: sum.splits)

lemma runTx_ok: "fn db = Inr (a, db') \<Longrightarrow> runTx db fn = (Inr a, db')"
  by (simp add: runTx_def)

lemma runTx_cases:
  obtains e where "fn db = Inl e" "runTx db fn = (Inl e, db)"
  | a db' where "fn db = Inr (a, db')" "runTx db fn = (Inr a, db')"
  by (cases "fn db") (auto simp: runTx_def)

text \<open>A conditional transaction changes the database only when it reports success.\<close>

lemma conditional_cases:
  obtains e where "fn db = Inl e" "conditional db fn = (if e = ErrRollback then Inr None else Inl e, db)"
  | a db' where "fn db = Inr (a, db')" "conditional db fn = (Inr (Some a), db')"
proof (cases "fn db")
  case (Inl e)
  then have "conditional db fn = (if e = ErrRollback then Inr None else Inl e, db)"
    by (cases e) (simp_all add: conditional_def runTx_def)
  with Inl that show ?thesis by blast
next
  case (Inr r)
  then show ?thesis using that by (cases r) (simp add: conditional_def runTx_def)
qed

lemma conditional_Some:
  assumes "conditional db fn = (Inr (Some a), db')"
  shows "fn db = Inr (a, db')"
  using assms by (cases rule: conditional_cases [of fn db]) (auto split: if_splits)

text \<open>What a write leaves alone.\<close>

lemma put_frames [simp]:
  "tb_Tasks (put_cycle i c db) = tb_Tasks db" "tb_Tasks (put_pr i ob db) = tb_Tasks db"
  "tb_Tasks (put_cancel i m db) = tb_Tasks db" "tb_Tasks (put_control i ct db) = tb_Tasks db"
  "tb_Tasks (txRepositoryEvent env r e k msg db) = tb_Tasks db"
  "tb_Tasks (put_task i t db) = AList.update i t (tb_Tasks db)"
  "tb_Cancel (put_task i t db) = tb_Cancel db" "tb_Cancel (put_pr i ob db) = tb_Cancel db"
  "tb_Cancel (put_cycle i c db) = tb_Cancel db" "tb_Cancel (put_control i ct db) = tb_Cancel db"
  "tb_Cancel (txRepositoryEvent env r e k msg db) = tb_Cancel db"
  "tb_Cancel (put_cancel i m db) = AList.update i m (tb_Cancel db)"
  "tb_PRs (put_task i t db) = tb_PRs db" "tb_PRs (put_cycle i c db) = tb_PRs db"
  "tb_PRs (put_pr i ob db) = AList.update i ob (tb_PRs db)" "tb_PRs (put_cancel i m db) = tb_PRs db"
  "tb_PRs (txRepositoryEvent env r e k msg db) = tb_PRs db" "tb_PRs (put_control i ct db) = tb_PRs db"
  "tb_Reservations (put_pr i ob db) = tb_Reservations db" "tb_Reservations (put_cycle i c db) = tb_Reservations db"
  "tb_Reservations (put_cancel i m db) = tb_Reservations db"
  "tb_Reservations (txRepositoryEvent env r e k msg db) = tb_Reservations db"
  "tb_Configs (put_task i t db) = tb_Configs db" "tb_Inventories (put_task i t db) = tb_Inventories db"
  "tb_Configs (txRepositoryEvent env r e k msg db) = tb_Configs db"
  "tb_Controls (put_task i t db) = tb_Controls db" "tb_Controls (put_cycle i c db) = tb_Controls db"
  "tb_Requests (put_task i t db) = tb_Requests db"
  by (simp_all add: put_task_def put_cycle_def put_pr_def put_cancel_def put_control_def txRepositoryEvent_def)

lemma map_of_update [simp]: "map_of (AList.update k v al) i = (if i = k then Some v else map_of al i)"
  by (simp add: update_conv)

lemma map_of_delete [simp]: "map_of (AList.delete k al) i = (if i = k then None else map_of al i)"
  by (simp add: delete_conv)

lemma keys_update: "fst ` set (AList.update k v al) = insert k (fst ` set al)"
  by (induction al) auto

subsection \<open>Concrete databases\<close>

definition empty_db :: database where
  "empty_db =
     \<lparr>tb_Tasks = [], tb_Cycles = [], tb_Baselines = [], tb_PRs = [], tb_Decisions = [], tb_Requests = [],
      tb_Cancel = [], tb_BaselineCancel = [], tb_Configs = [], tb_Controls = [], tb_Inventories = [],
      tb_LatestBaselines = [], tb_Registry = None, tb_Instance = None, tb_BatchMembers = [],
      tb_Reservations = [], tb_Planning = [], tb_Usage = [], tb_Admissions = [], tb_Events = []\<rparr>"

definition sample_env :: env where
  "sample_env = \<lparr>env_Now = ''2025-01-02T00:00:00Z'', env_ID = ''run1'', env_Redact = (\<lambda>s. s),
     env_Unicode = \<lparr>to_lower_rune = (\<lambda>r. r), cased_rune = (\<lambda>_. False), ignorable_rune = (\<lambda>_. False),
       cases_lower = (\<lambda>s. s)\<rparr>,
     env_PolicyJSON = (\<lambda>_. ''{}'')\<rparr>"

definition root_handle :: handle where
  "root_handle = \<lparr>h_Repo = [], h_Primary = []\<rparr>"

end
