(* ===== verification/Store_Tasks.thy ===== *)
theory Store_Tasks
  imports Store_State
begin

text \<open>
  The task transactions of \<open>internal/store\<close>: \<open>task_lifecycle.go\<close> (commit, insert, resolve, retry),
  \<open>requests.go\<close> and the plan, lineage and cancellation transactions of \<open>store.go\<close>. The lemmas show that
  every transaction is atomic and that, through every one of them, each saved task moves only by steps
  the lifecycle policy accepts, so the invariants of \<open>Task_Lifecycle\<close> hold of the whole table.
\<close>

subsection \<open>Committing one task\<close>

definition finish_commit :: "task \<Rightarrow> task \<Rightarrow> task_change \<Rightarrow> bool \<Rightarrow> database \<Rightarrow>
    (store_error, task \<times> database) result" where
  "finish_commit cur nxt change marked db =
     (case ValidateTaskChange cur nxt change marked of
        Some e \<Rightarrow> Inl (ErrTaskInvalid e)
      | None \<Rightarrow> Inr (nxt, put_task (t_ID nxt) nxt db))"

definition txCommitTask :: "task \<Rightarrow> task \<Rightarrow> task_change \<Rightarrow> database \<Rightarrow> (store_error, task \<times> database) result" where
  "txCommitTask expected nxt change db =
     (case map_of (tb_Tasks db) (t_ID expected) of
        None \<Rightarrow> Inl (ErrTaskConflict (t_ID expected))
      | Some cur \<Rightarrow>
          if t_ID nxt \<noteq> t_ID expected then Inl (ErrTaskConflict (t_ID expected))
          else let marked = (marker (tb_Cancel db) (t_ID expected) \<noteq> None) in
          if marked \<and> t_OutputCommit cur = None \<and> change = TaskSettlement then
            (case MergeCancelledTask expected cur nxt of
               Inl e \<Rightarrow> Inl (MergeConflict (t_ID expected) e)
             | Inr merged \<Rightarrow> finish_commit cur merged change marked db)
          else if cur \<noteq> expected then
            (if marked \<and> t_OutputCommit cur = None \<and>
                (change = TaskCheckpoint \<or> change = TaskPrepare \<or> change = TaskAuthorizePublication)
             then Inl CommitCancelled else Inl (ErrTaskConflict (t_ID expected)))
          else finish_commit cur nxt change marked db)"

definition CommitTask :: "task \<Rightarrow> task \<Rightarrow> task_change \<Rightarrow> database \<Rightarrow> (store_error, task) result \<times> database" where
  "CommitTask expected nxt change db = runTx db (txCommitTask expected nxt change)"

definition insertTask :: "task \<Rightarrow> database \<Rightarrow> (store_error, database) result" where
  "insertTask t db =
     (if map_of (tb_Tasks db) (t_ID t) \<noteq> None then Inl (ErrTaskConflict (t_ID t))
      else Inr (put_task (t_ID t) t db))"

text \<open>A step that commits a task and continues with the database only.\<close>

definition commit_db :: "task \<Rightarrow> task \<Rightarrow> task_change \<Rightarrow> database \<Rightarrow> (store_error, database) result" where
  "commit_db expected nxt change db = rbind (txCommitTask expected nxt change db) (\<lambda>(_, db'). Inr db')"

definition ResetTaskCancellation :: "task \<Rightarrow> task \<Rightarrow> database \<Rightarrow> (store_error, unit) result \<times> database" where
  "ResetTaskCancellation expected t db =
     runTx db (\<lambda>db. rbind (commit_db expected t TaskResolve (put_cancel (t_ID t) None db)) (\<lambda>db. Inr ((), db)))"

definition RetryTask :: "env \<Rightarrow> handle \<Rightarrow> task \<Rightarrow> task \<Rightarrow> database \<Rightarrow> (store_error, unit) result \<times> database" where
  "RetryTask env h expected t db =
     runTx db (\<lambda>db.
       rbind (commit_db expected t TaskRetry (put_cancel (t_ID t) None db)) (\<lambda>db.
         Inr ((), txRepositoryEvent env (h_Repo h) (t_ID t) EventAttemptPolicy
                (env_PolicyJSON env (t_AttemptPolicy t)) db)))"

text \<open>\<open>CancelTask\<close> reports whether it cancelled; a task whose publication started is left alone.\<close>

definition cancel_next :: "env \<Rightarrow> task \<Rightarrow> task" where
  "cancel_next env t =
     t\<lparr>t_Status := StatusCancelled, t_UpdatedAt := env_Now env, t_Error := Some ''Cancelled by the operator'',
       t_BlockedReason := None\<rparr>"

definition CancelTask :: "env \<Rightarrow> string \<Rightarrow> database \<Rightarrow> (store_error, bool) result \<times> database" where
  "CancelTask env i db =
     runTx db (\<lambda>db.
       case map_of (tb_Tasks db) i of
         None \<Rightarrow> Inr (False, db)
       | Some cur \<Rightarrow>
           if t_OutputCommit cur \<noteq> None \<or> t_Status cur = StatusPublishing \<or> t_Status cur = StatusPublished
           then Inr (False, db)
           else rbind (commit_db cur (cancel_next env cur) TaskCancel db) (\<lambda>db. Inr (True, db)))"

subsection \<open>Operator requests\<close>

record request_update =
  ru_Expected :: operator_request
  ru_Next :: operator_request

definition pending_requests :: "string \<Rightarrow> database \<Rightarrow> operator_request list" where
  "pending_requests repository db =
     filter (\<lambda>r. EqualASCII (rq_Repository r) repository \<and> rq_Status r = RequestPending) (map snd (tb_Requests db))"

definition put_request :: "string \<Rightarrow> operator_request \<Rightarrow> database \<Rightarrow> database" where
  "put_request i r db = db\<lparr>tb_Requests := AList.update i r (tb_Requests db)\<rparr>"

definition CreateRequest :: "operator_request \<Rightarrow> int \<Rightarrow> database \<Rightarrow> (store_error, unit) result \<times> database" where
  "CreateRequest r limit db =
     runTx db (\<lambda>db.
       if limit \<le> int (length (pending_requests (rq_Repository r) db)) then Inl ErrRequestLimit
       else Inr ((), put_request (rq_ID r) r db))"

definition PendingRequests :: "string \<Rightarrow> nat \<Rightarrow> database \<Rightarrow> operator_request list" where
  "PendingRequests repository limit db = take limit (pending_requests repository db)"

definition CountPendingRequests :: "string \<Rightarrow> database \<Rightarrow> nat" where
  "CountPendingRequests repository db = length (pending_requests repository db)"

definition txUpdateRequest :: "request_update \<Rightarrow> database \<Rightarrow> (store_error, database) result" where
  "txUpdateRequest u db =
     (if map_of (tb_Requests db) (rq_ID (ru_Expected u)) \<noteq> Some (ru_Expected u) then Inl ErrRequestChanged
      else Inr (put_request (rq_ID (ru_Next u)) (ru_Next u) db))"

definition UpdateRequest :: "request_update \<Rightarrow> database \<Rightarrow> (store_error, unit) result \<times> database" where
  "UpdateRequest u db = runTx db (\<lambda>db. rbind (txUpdateRequest u db) (\<lambda>db. Inr ((), db)))"

subsection \<open>Committing a plan\<close>

definition updateLineageTask :: "string \<Rightarrow> (task \<Rightarrow> (store_error, task) result) \<Rightarrow> database \<Rightarrow>
    (store_error, database) result" where
  "updateLineageTask i chk db =
     (case map_of (tb_Tasks db) i of
        None \<Rightarrow> Inl (MissingLineageTask i)
      | Some t \<Rightarrow>
          if wl_ArchivedAt (t_Lifecycle t) \<noteq> None then Inl (LineageArchived i)
          else rbind (chk t) (\<lambda>t'. commit_db t t' TaskLineage db))"

definition supersede_lineage :: "task \<Rightarrow> task \<Rightarrow> (store_error, task) result" where
  "supersede_lineage t old =
     (if \<not> (t_RediscoveryRequested old \<and> EqualASCII (c_GitHubRepo (t_Config old)) (c_GitHubRepo (t_Config t)))
      then Inl InvalidLineage
      else Inr (old\<lparr>t_SupersededBy := t_SupersededBy old @ [t_ID t]\<rparr>))"

definition settle_rediscovery :: "cycle \<Rightarrow> proposal \<Rightarrow> task \<Rightarrow> (store_error, task) result" where
  "settle_rediscovery cycle p old =
     (if \<not> (t_RediscoveryRequested old \<and> t_Status old = StatusCancelled \<and>
            EqualASCII (c_GitHubRepo (t_Config old)) (cy_Repository cycle) \<and>
            p_Target (t_Proposal old) = p_Target p)
      then Inl IneligibleRediscovery
      else Inr (old\<lparr>t_RediscoveryRequested := False,
             t_RediscoveryResult := Some (p_Decision p @ '': '' @ p_Reason p)\<rparr>))"

definition put_decision :: "decision_record \<Rightarrow> database \<Rightarrow> (store_error, database) result" where
  "put_decision d db =
     (if d_ID d = [] then Inl MissingDecisionIdentity
      else Inr (db\<lparr>tb_Decisions := AList.update (d_ID d) d (tb_Decisions db)\<rparr>))"

text \<open>The control record after a plan: the batch it belongs to starts executing, and an execution cycle
  counts idle plans with saturation.\<close>

definition plan_batch :: "cycle \<Rightarrow> control \<Rightarrow> bool" where
  "plan_batch cycle ct =
     (case ct_Batch ct of None \<Rightarrow> False
      | Some b \<Rightarrow> cy_RunID cycle = Some (b_ID b) \<and> b_CycleID b = Some (cy_ID cycle))"

definition plan_control :: "cycle \<Rightarrow> task list \<Rightarrow> control \<Rightarrow> control" where
  "plan_control cycle tasks ct =
     (let ct = (if plan_batch cycle ct
                then ct\<lparr>ct_Batch := map_option (\<lambda>b. b\<lparr>b_Phase := BatchPhaseExecuting\<rparr>) (ct_Batch ct)\<rparr> else ct)
      in if cy_Mode cycle \<noteq> CycleModeExecution then ct
         else if tasks = [] then
           (if ct_IdleStreak ct < - 1 then ct\<lparr>ct_IdleStreak := ct_IdleStreak ct + 1\<rparr> else ct)
         else ct\<lparr>ct_IdleStreak := 0\<rparr>)"

definition txCommitPlan :: "handle \<Rightarrow> cycle \<Rightarrow> task list \<Rightarrow> request_update list \<Rightarrow> database \<Rightarrow>
    (store_error, unit \<times> database) result" where
  "txCommitPlan h cycle tasks requests db =
     rbind (fold_tx insertTask tasks (put_cycle (cy_ID cycle) cycle db)) (\<lambda>db.
     let saved = map_of (tb_Controls db) (store_ControlKey h) in
     rbind (fold_tx (\<lambda>t. fold_tx (\<lambda>old. updateLineageTask old (supersede_lineage t)) (t_Supersedes t)) tasks db) (\<lambda>db.
     rbind (fold_tx put_decision (cy_DecisionMemory cycle) db) (\<lambda>db.
     rbind (fold_tx txUpdateRequest requests db) (\<lambda>db.
     rbind (if cy_Mode cycle = CycleModeExecution
            then fold_tx (\<lambda>p. fold_tx (\<lambda>i. updateLineageTask i (settle_rediscovery cycle p)) (p_Reconsiders p))
                   (cy_Proposals cycle) db
            else Inr db) (\<lambda>db.
     Inr ((), case saved of
                None \<Rightarrow> db
              | Some ct \<Rightarrow>
                  if plan_batch cycle ct \<or> cy_Mode cycle = CycleModeExecution
                  then put_control (store_ControlKey h) (plan_control cycle tasks ct) db else db))))))"

definition CommitPlan :: "handle \<Rightarrow> bool \<Rightarrow> cycle \<Rightarrow> task list \<Rightarrow> request_update list \<Rightarrow> database \<Rightarrow>
    (store_error, unit) result \<times> database" where
  "CommitPlan h ctx_done cycle tasks requests db =
     (if ctx_done then (Inl CommitContextDone, db) else runTx db (txCommitPlan h cycle tasks requests))"

definition AppendCycleSession :: "string \<Rightarrow> session \<Rightarrow> database \<Rightarrow> (store_error, unit) result \<times> database" where
  "AppendCycleSession i s db =
     (case map_of (tb_Cycles db) i of
        None \<Rightarrow> (Inl (MissingCycle i), db)
      | Some c \<Rightarrow>
          if list_ex (\<lambda>x. s_ID x = s_ID s) (cy_Sessions c) then (Inr (), db)
          else (Inr (), put_cycle i (c\<lparr>cy_Sessions := cy_Sessions c @ [s]\<rparr>) db))"

subsection \<open>Lemmas: what a successful commit is\<close>

lemma finish_commit_Inr:
  "finish_commit cur nxt change marked db = Inr (t, db') \<longleftrightarrow>
     ValidateTaskChange cur nxt change marked = None \<and> t = nxt \<and> db' = put_task (t_ID nxt) nxt db"
  by (auto simp: finish_commit_def split: option.splits)

lemma txCommitTask_Inr:
  assumes "txCommitTask expected nxt change db = Inr (t, db')"
  obtains cur marked where "map_of (tb_Tasks db) (t_ID expected) = Some cur" "t_ID cur = t_ID expected"
    "t_ID t = t_ID expected" "ValidateTaskChange cur t change marked = None"
    "marked = (marker (tb_Cancel db) (t_ID expected) \<noteq> None)"
    "db' = put_task (t_ID expected) t db"
proof -
  define marked where "marked = (marker (tb_Cancel db) (t_ID expected) \<noteq> None)"
  obtain cur where cur: "map_of (tb_Tasks db) (t_ID expected) = Some cur" and i: "t_ID nxt = t_ID expected"
    using assms by (auto simp: txCommitTask_def split: option.splits if_splits)
  obtain n where f: "finish_commit cur n change marked db = Inr (t, db')" and c: "t_ID cur = t_ID expected"
  proof (cases "marked \<and> t_OutputCommit cur = None \<and> change = TaskSettlement")
    case True
    then obtain n where n: "MergeCancelledTask expected cur nxt = Inr n"
      and f: "finish_commit cur n change marked db = Inr (t, db')"
      using assms cur i by (auto simp: txCommitTask_def Let_def marked_def split: sum.splits)
    with f that MergeCancelledTask_same_ID show ?thesis by blast
  next
    case False
    then have "cur = expected" "finish_commit cur nxt change marked db = Inr (t, db')"
      using assms cur i by (auto simp: txCommitTask_def Let_def marked_def split: if_splits)
    with that show ?thesis by blast
  qed
  then have v: "ValidateTaskChange cur t change marked = None" "db' = put_task (t_ID t) t db"
    by (auto simp: finish_commit_Inr)
  have "t_ID t = t_ID expected" using ValidateTaskChange_None(1) [OF v(1)] c by simp
  with that cur c v show ?thesis by (simp add: marked_def)
qed

lemma commit_db_Inr:
  "commit_db expected nxt change db = Inr db' \<longleftrightarrow> (\<exists>t. txCommitTask expected nxt change db = Inr (t, db'))"
  by (auto simp: commit_db_def rbind_Inr_iff)

text \<open>A commit that does not merge commits exactly the task it was given.\<close>

lemma txCommitTask_result:
  assumes "txCommitTask expected nxt change db = Inr (t, db')" and "change \<noteq> TaskSettlement"
  shows "t = nxt" "map_of (tb_Tasks db) (t_ID expected) = Some expected"
  using assms by (auto simp: txCommitTask_def finish_commit_Inr Let_def split: option.splits if_splits sum.splits)

subsection \<open>Invariants of the task table\<close>

definition tasks_ok :: "(string \<times> task) list \<Rightarrow> bool" where
  "tasks_ok ts \<longleftrightarrow>
     distinct (map fst ts) \<and> (\<forall>i t. map_of ts i = Some t \<longrightarrow> t_ID t = i \<and> lifecycle_inv t)"

text \<open>What a property of the task table has to be closed under to hold through every transaction: the
  accepted changes of a saved task, its enrolment in a batch, and the insertion of a planned task.\<close>

locale task_table_invariant =
  fixes Inv :: "(string \<times> task) list \<Rightarrow> bool"
  assumes step: "Inv ts \<Longrightarrow> map_of ts i = Some cur \<Longrightarrow> t_ID cur = i \<Longrightarrow> task_step marked cur nxt \<Longrightarrow>
      Inv (AList.update i nxt ts)"
    and insert: "Inv ts \<Longrightarrow> map_of ts (t_ID t) = None \<Longrightarrow> fresh_task t \<Longrightarrow> Inv (AList.update (t_ID t) t ts)"
begin

lemma commit_inv:
  assumes "txCommitTask expected nxt change db = Inr (t, db')" and "Inv (tb_Tasks db)"
  shows "Inv (tb_Tasks db')"
proof (rule txCommitTask_Inr [OF assms(1)])
  fix cur marked
  assume a: "map_of (tb_Tasks db) (t_ID expected) = Some cur" "t_ID cur = t_ID expected"
    "ValidateTaskChange cur t change marked = None" "db' = put_task (t_ID expected) t db"
  from step [OF assms(2) a(1,2) task_step.commit [OF a(3)]] show "Inv (tb_Tasks db')" by (simp add: a(4))
qed

lemma commit_db_inv: "commit_db expected nxt change db = Inr db' \<Longrightarrow> Inv (tb_Tasks db) \<Longrightarrow> Inv (tb_Tasks db')"
  by (auto simp: commit_db_Inr intro: commit_inv)

lemma commit_db_cancel_inv:
  "commit_db expected nxt change (put_cancel i m db) = Inr db' \<Longrightarrow> Inv (tb_Tasks db) \<Longrightarrow> Inv (tb_Tasks db')"
  by (erule commit_db_inv) simp

lemma insertTask_inv:
  "insertTask t db = Inr db' \<Longrightarrow> fresh_task t \<Longrightarrow> Inv (tb_Tasks db) \<Longrightarrow> Inv (tb_Tasks db')"
  by (auto simp: insertTask_def intro: insert split: if_splits)

lemma runTx_inv:
  assumes "\<And>a db'. fn db = Inr (a, db') \<Longrightarrow> Inv (tb_Tasks db')" and "Inv (tb_Tasks db)"
  shows "Inv (tb_Tasks (snd (runTx db fn)))"
  using assms by (cases rule: runTx_cases [of fn db]) auto

lemma conditional_inv:
  assumes "\<And>a db'. fn db = Inr (a, db') \<Longrightarrow> Inv (tb_Tasks db')" and "Inv (tb_Tasks db)"
  shows "Inv (tb_Tasks (snd (conditional db fn)))"
  using assms by (cases rule: conditional_cases [of fn db]) auto

lemma CommitTask_inv: "Inv (tb_Tasks db) \<Longrightarrow> Inv (tb_Tasks (snd (CommitTask expected nxt change db)))"
  unfolding CommitTask_def by (rule runTx_inv) (auto intro: commit_inv)

lemma ResetTaskCancellation_inv:
  "Inv (tb_Tasks db) \<Longrightarrow> Inv (tb_Tasks (snd (ResetTaskCancellation expected t db)))"
  unfolding ResetTaskCancellation_def
  by (rule runTx_inv) (auto simp: rbind_Inr_iff dest: commit_db_cancel_inv)

lemma RetryTask_inv: "Inv (tb_Tasks db) \<Longrightarrow> Inv (tb_Tasks (snd (RetryTask env h expected t db)))"
  unfolding RetryTask_def
  by (rule runTx_inv) (auto simp: rbind_Inr_iff dest: commit_db_cancel_inv)

lemma CancelTask_inv: "Inv (tb_Tasks db) \<Longrightarrow> Inv (tb_Tasks (snd (CancelTask env i db)))"
  unfolding CancelTask_def
  by (rule runTx_inv) (auto simp: rbind_Inr_iff split: option.splits if_splits intro: commit_db_inv)

lemma updateLineageTask_inv:
  "updateLineageTask i chk db = Inr db' \<Longrightarrow> Inv (tb_Tasks db) \<Longrightarrow> Inv (tb_Tasks db')"
  by (auto simp: updateLineageTask_def rbind_Inr_iff split: option.splits if_splits intro: commit_db_inv)

lemma lineage_loop_inv:
  assumes "fold_tx (\<lambda>x. fold_tx (\<lambda>i. updateLineageTask i (chk x)) (ids x)) xs db = Inr db'" and "Inv (tb_Tasks db)"
  shows "Inv (tb_Tasks db')"
proof (rule fold_tx_invariant [OF assms(1), where P = "\<lambda>db. Inv (tb_Tasks db)", OF assms(2)])
  fix x u v
  assume u: "Inv (tb_Tasks u)" and v: "fold_tx (\<lambda>i. updateLineageTask i (chk x)) (ids x) u = Inr v"
  show "Inv (tb_Tasks v)"
    by (rule fold_tx_invariant [OF v, where P = "\<lambda>db. Inv (tb_Tasks db)", OF u]) (auto intro: updateLineageTask_inv)
qed

lemma put_decision_tasks: "put_decision d db = Inr db' \<Longrightarrow> tb_Tasks db' = tb_Tasks db"
  by (auto simp: put_decision_def split: if_splits)

lemma txUpdateRequest_tasks: "txUpdateRequest u db = Inr db' \<Longrightarrow> tb_Tasks db' = tb_Tasks db"
  by (auto simp: txUpdateRequest_def put_request_def split: if_splits)

lemma txCommitPlan_inv:
  assumes "txCommitPlan h cycle tasks requests db = Inr (u, db')" and "Inv (tb_Tasks db)"
    and "\<forall>t \<in> set tasks. fresh_task t"
  shows "Inv (tb_Tasks db')"
proof -
  obtain d1 d2 d3 d4 d5 where
      1: "fold_tx insertTask tasks (put_cycle (cy_ID cycle) cycle db) = Inr d1"
    and 2: "fold_tx (\<lambda>t. fold_tx (\<lambda>old. updateLineageTask old (supersede_lineage t)) (t_Supersedes t)) tasks d1 = Inr d2"
    and 3: "fold_tx put_decision (cy_DecisionMemory cycle) d2 = Inr d3"
    and 4: "fold_tx txUpdateRequest requests d3 = Inr d4"
    and 5: "(if cy_Mode cycle = CycleModeExecution
            then fold_tx (\<lambda>p. fold_tx (\<lambda>i. updateLineageTask i (settle_rediscovery cycle p)) (p_Reconsiders p))
                   (cy_Proposals cycle) d4
            else Inr d4) = Inr d5"
    and 6: "tb_Tasks db' = tb_Tasks d5"
    using assms(1) by (auto simp: txCommitPlan_def rbind_Inr_iff Let_def split: option.splits if_splits)
  have i1: "Inv (tb_Tasks d1)"
    by (rule fold_tx_invariant [OF 1, where P = "\<lambda>db. Inv (tb_Tasks db)"])
      (use assms in \<open>auto intro: insertTask_inv\<close>)
  have i2: "Inv (tb_Tasks d2)" by (rule lineage_loop_inv [OF 2 i1])
  have i3: "Inv (tb_Tasks d3)"
    by (rule fold_tx_invariant [OF 3, where P = "\<lambda>db. Inv (tb_Tasks db)"]) (auto simp: i2 dest: put_decision_tasks)
  have i4: "Inv (tb_Tasks d4)"
    by (rule fold_tx_invariant [OF 4, where P = "\<lambda>db. Inv (tb_Tasks db)"]) (auto simp: i3 dest: txUpdateRequest_tasks)
  have "Inv (tb_Tasks d5)"
    using 5 i4 lineage_loop_inv by (auto split: if_splits)
  with 6 show ?thesis by simp
qed

lemma CommitPlan_inv:
  assumes "Inv (tb_Tasks db)" and "\<forall>t \<in> set tasks. fresh_task t"
  shows "Inv (tb_Tasks (snd (CommitPlan h ctx_done cycle tasks requests db)))"
  unfolding CommitPlan_def using assms by (auto intro: runTx_inv txCommitPlan_inv)

end

subsection \<open>The table refines the lifecycle\<close>

definition tasks_extend :: "(string \<times> task) list \<Rightarrow> (string \<times> task) list \<Rightarrow> bool" where
  "tasks_extend old new \<longleftrightarrow>
     (\<forall>i t. map_of old i = Some t \<longrightarrow> (\<exists>u. map_of new i = Some u \<and> task_run False t u))"

lemma step_identity: "task_step marked t u \<Longrightarrow> t_ID u = t_ID t"
  using step_history by (auto simp: same_identity_def)

interpretation ok: task_table_invariant tasks_ok
proof
  show "tasks_ok (AList.update i nxt ts)" if "tasks_ok ts" "map_of ts i = Some cur" "t_ID cur = i"
    "task_step marked cur nxt" for ts i cur nxt marked
    using that step_lifecycle_inv step_identity [OF that(4)] by (auto simp: tasks_ok_def distinct_update)
  show "tasks_ok (AList.update (t_ID t) t ts)" if "tasks_ok ts" "fresh_task t" for ts t
    using that fresh_lifecycle_inv by (auto simp: tasks_ok_def distinct_update)
qed

interpretation ext: task_table_invariant "tasks_extend old" for old
proof
  show "tasks_extend old (AList.update i nxt ts)" if "tasks_extend old ts" "map_of ts i = Some cur"
    "task_step marked cur nxt" for ts i cur nxt marked
    using that by (fastforce simp: tasks_extend_def intro: task_run.more)
  show "tasks_extend old (AList.update (t_ID t) t ts)" if "tasks_extend old ts" "map_of ts (t_ID t) = None" for ts t
    using that by (fastforce simp: tasks_extend_def)
qed

end
