(* ===== verification/Store_Merge.thy ===== *)
theory Store_Merge
  imports Store_Tasks
begin

text \<open>
  Pull-request observations and automatic merges, \<open>internal/store/automerge.go\<close> with its queries
  (\<open>automerge_queries.go\<close>) and the observation writes of \<open>queries.go\<close>. An observation carries the merge
  state of the delivery: authorised or not, and waiting, merging, uncertain, manual, merged or closed.

  The lemmas show that one merge attempt at a time can be claimed, that an observation only ever revokes
  authority, that merged and closed are final, and that archiving a task leaves it no authority.
\<close>

subsection \<open>Reading observations\<close>

text \<open>The newest observation of a pull request. The number is bound as a signed 64-bit parameter, so a
  number of \<open>2 ^ 63\<close> or more matches nothing.\<close>

definition pr_matches :: "string \<Rightarrow> u64 \<Rightarrow> string \<times> pr_observation \<Rightarrow> bool" where
  "pr_matches repository number row \<longleftrightarrow>
     EqualASCII (po_Repository (snd row)) repository \<and> unat number < 2 ^ 63 \<and> pr_Number (po_PR (snd row)) = number"

definition prObservationAt :: "database \<Rightarrow> string \<Rightarrow> u64 \<Rightarrow> (string \<times> pr_observation) option" where
  "prObservationAt db repository number = find (pr_matches repository number) (rev (tb_PRs db))"

text \<open>The output commit of the published task of a pull request updated last; of several updated at the
  same time, which SQL leaves open, the oldest row.\<close>

definition latestPROutputAt :: "database \<Rightarrow> string \<Rightarrow> u64 \<Rightarrow> string option" where
  "latestPROutputAt db repository number =
     (case fold (\<lambda>t best. case best of None \<Rightarrow> Some t
                  | Some b \<Rightarrow> if t_UpdatedAt b < t_UpdatedAt t then Some t else Some b)
             (filter (\<lambda>t. EqualASCII (c_GitHubRepo (t_Config t)) repository \<and> t_Status t = StatusPublished \<and>
                unat number < 2 ^ 63 \<and> t_PRNumber t = Some number) (map snd (tb_Tasks db))) None of
        None \<Rightarrow> None | Some t \<Rightarrow> t_OutputCommit t)"

definition MergeObservation :: "string \<Rightarrow> u64 \<Rightarrow> database \<Rightarrow> pr_observation option" where
  "MergeObservation repository number db = map_option snd (prObservationAt db repository number)"

text \<open>\<open>MergeCandidates\<close> with the row position for the sequence number.\<close>

definition merge_candidate :: "string \<Rightarrow> pr_observation \<Rightarrow> bool" where
  "merge_candidate repo ob \<longleftrightarrow>
     (repo = [] \<or> EqualASCII (po_Repository ob) repo) \<and>
     (case po_AutoMerge ob of None \<Rightarrow> False
      | Some m \<Rightarrow> AutoMergeStatus_Pending (am_Status m) \<or> am_Status m = AutoMergeManual \<and> am_Authorized m)"

definition MergeCandidates :: "handle \<Rightarrow> nat \<Rightarrow> nat \<Rightarrow> database \<Rightarrow> (nat \<times> pr_observation) list" where
  "MergeCandidates h afterSeq limit db =
     take limit (filter (\<lambda>(seq, ob). afterSeq < seq \<and> merge_candidate (h_Repo h) ob)
       (enumerate 1 (map snd (tb_PRs db))))"

definition UnfinishedBranchWork :: "string \<Rightarrow> string \<Rightarrow> string \<Rightarrow> database \<Rightarrow> bool" where
  "UnfinishedBranchWork repository branch exceptTaskID db \<longleftrightarrow>
     list_ex (\<lambda>(i, t). EqualASCII (c_GitHubRepo (t_Config t)) repository \<and> i \<noteq> exceptTaskID \<and>
         wl_ArchivedAt (t_Lifecycle t) = None \<and> t_Branch t = branch \<and>
         t_Status t \<in> {StatusQueued, StatusExecuting, StatusReviewing, StatusRepairing, StatusVerifying,
           StatusPublishing, StatusBlocked, StatusFailed}) (tb_Tasks db)"

definition BatchMergeWait :: "string \<Rightarrow> database \<Rightarrow> nat" where
  "BatchMergeWait run db =
     length (filter (\<lambda>ob. case po_AutoMerge ob of None \<Rightarrow> False
       | Some m \<Rightarrow>
           map_of (tb_BatchMembers db) (run, am_TaskID m) \<noteq> None \<and>
           (case map_of (tb_Tasks db) (am_TaskID m) of None \<Rightarrow> False
            | Some t \<Rightarrow> t_RunID t = Some run \<and> EqualASCII (po_Repository ob) (c_GitHubRepo (t_Config t)) \<and>
                t_PRNumber t = Some (pr_Number (po_PR ob))) \<and>
           AutoMergeStatus_Pending (am_Status m)) (map snd (tb_PRs db)))"

definition MergeCounts :: "string \<Rightarrow> database \<Rightarrow> auto_merge_status \<Rightarrow> nat" where
  "MergeCounts repository db status =
     length (filter (\<lambda>ob. EqualASCII (po_Repository ob) repository \<and>
       map_option am_Status (po_AutoMerge ob) = Some status) (map snd (tb_PRs db)))"

subsection \<open>What an observation does to the merge state\<close>

definition delivery_bound :: "auto_merge_state \<Rightarrow> pull_request \<Rightarrow> bool" where
  "delivery_bound m p \<longleftrightarrow>
     pr_Owned p \<and> pr_Head p = am_Head m \<and> am_HeadBranch m \<noteq> [] \<and> am_BaseBranch m \<noteq> [] \<and>
     pr_Branch p = am_HeadBranch m \<and> pr_Base p = am_BaseBranch m"

definition sameDeliveryHead :: "auto_merge_state \<Rightarrow> pull_request \<Rightarrow> bool" where
  "sameDeliveryHead m p \<longleftrightarrow>
     pr_State p = ''open'' \<and> pr_Owned p \<and> pr_Head p = am_Head m \<and> am_HeadBranch m \<noteq> [] \<and> am_BaseBranch m \<noteq> [] \<and>
     pr_Branch p = am_HeadBranch m \<and> pr_Base p = am_BaseBranch m"

definition preserve_merge :: "env \<Rightarrow> auto_merge_state \<Rightarrow> pull_request \<Rightarrow> auto_merge_state" where
  "preserve_merge env m p =
     (let pending = (am_Status m = AutoMergeMerging \<or> am_Status m = AutoMergeUncertain) in
      if pr_State p = ''merged'' \<or> pr_State p = ''closed'' then
        if pending then
          (if \<not> delivery_bound m p then
             m\<lparr>am_Authorized := False,
               am_Reason := ''The pull request is '' @ pr_State p @ '' after its head, branch, base or ownership changed; the recorded intent remains for reconciliation'',
               am_ObservedAt := env_Now env\<rparr>
           else m)
        else
          let outcome = (if pr_State p = ''closed'' then AutoMergeClosed else AutoMergeMerged);
              why = (if pr_State p = ''closed'' then ''The pull request was closed without merging''
                     else ''The pull request is merged on the remote'')
          in if am_Status m = outcome \<or> (\<not> AutoMergeStatus_Pending (am_Status m) \<and> am_Status m \<noteq> AutoMergeManual) then m
             else if \<not> delivery_bound m p then
               m\<lparr>am_Authorized := False, am_Status := AutoMergeManual,
                 am_Reason := ''The pull request is '' @ pr_State p @ '' after its head or ownership changed; the outcome does not apply to the recorded reviewed head'',
                 am_ObservedAt := env_Now env\<rparr>
             else
               m\<lparr>am_Status := outcome, am_ResultSource := Some ''observed'', am_Reason := why,
                 am_ObservedAt := env_Now env\<rparr>
      else if pending then
        (if \<not> delivery_bound m p then
           m\<lparr>am_Authorized := False,
             am_Reason := ''The pull request head, branch, base or ownership changed; the recorded intent remains for reconciliation'',
             am_ObservedAt := env_Now env\<rparr>
         else m)
      else if am_Status m = AutoMergeWaiting \<or> am_Status m = AutoMergeManual \<and> am_Authorized m then
        (if \<not> sameDeliveryHead m p then
           m\<lparr>am_Authorized := False, am_Status := AutoMergeManual,
             am_Reason := ''The pull request head, ownership or open state changed; automatic merge authority is revoked'',
             am_ObservedAt := env_Now env\<rparr>
         else m)
      else m)"

definition preserveAutoMerge :: "env \<Rightarrow> pr_observation option \<Rightarrow> pull_request \<Rightarrow> auto_merge_state option" where
  "preserveAutoMerge env previous p =
     (case previous of None \<Rightarrow> None
      | Some ob \<Rightarrow> (case po_AutoMerge ob of None \<Rightarrow> None | Some m \<Rightarrow> Some (preserve_merge env m p)))"

definition pr_record_id :: "env \<Rightarrow> string \<Rightarrow> u64 \<Rightarrow> string" where
  "pr_record_id env repository number = to_lower (env_Unicode env) repository @ '':'' @ show_nat (unat number)"

definition RecordPRObservation :: "env \<Rightarrow> string \<Rightarrow> pull_request \<Rightarrow> bool \<Rightarrow> database \<Rightarrow> database" where
  "RecordPRObservation env repository p deliveredNow db =
     (let previous = prObservationAt db repository (pr_Number p);
          recordID = (case previous of None \<Rightarrow> pr_record_id env repository (pr_Number p) | Some (i, _) \<Rightarrow> i);
          delivered =
            (if deliveredNow then Some (pr_Head p)
             else case previous of
                 Some (_, ob) \<Rightarrow> (case po_DeliveredHead ob of Some h \<Rightarrow> Some h | None \<Rightarrow> latestPROutputAt db repository (pr_Number p))
               | None \<Rightarrow> latestPROutputAt db repository (pr_Number p))
      in put_pr recordID
           \<lparr>po_Repository = repository, po_PR = p, po_ObservedAt = env_Now env, po_DeliveredHead = delivered,
            po_ExternalHeadMovement = (case delivered of None \<Rightarrow> False | Some h \<Rightarrow> h \<noteq> pr_Head p),
            po_AutoMerge = preserveAutoMerge env (map_option snd previous) p\<rparr> db)"

subsection \<open>Publication\<close>

definition snapshot_applies :: "string \<Rightarrow> pull_request \<Rightarrow> auto_merge_state \<Rightarrow> task \<Rightarrow> bool" where
  "snapshot_applies repository p m old \<longleftrightarrow>
     EqualASCII (c_GitHubRepo (t_Config old)) repository \<and> t_PRNumber old = Some (pr_Number p) \<and>
     t_OutputCommit old = Some (am_Head m) \<and> t_ID old = am_TaskID m \<and>
     t_ComparisonBase old = am_ComparisonBase m \<and> t_Branch old = am_HeadBranch m \<and>
     c_DefaultBranch (t_Config old) = am_BaseBranch m"

definition snapshot_previous :: "string \<Rightarrow> task \<Rightarrow> pull_request \<Rightarrow> pr_observation option \<Rightarrow> database \<Rightarrow>
    (store_error, database) result" where
  "snapshot_previous repository t p previous db =
     (case previous of None \<Rightarrow> Inr db
      | Some ob \<Rightarrow>
          (case po_AutoMerge ob of None \<Rightarrow> Inr db
           | Some m \<Rightarrow>
               if am_TaskID m = t_ID t then Inr db
               else (case map_of (tb_Tasks db) (am_TaskID m) of None \<Rightarrow> Inr db
                 | Some old \<Rightarrow>
                     if snapshot_applies repository p m old
                     then commit_db old (old\<lparr>t_AutoMergeSnapshot := Some
                            \<lparr>ams_Repository = po_Repository ob, ams_PRNumber = pr_Number (po_PR ob), ams_State = m\<rparr>\<rparr>)
                            TaskMergeSnapshot db
                     else Inr db)))"

definition unresolved_intent :: "pr_observation option \<Rightarrow> bool" where
  "unresolved_intent previous =
     (case previous of None \<Rightarrow> False
      | Some ob \<Rightarrow> (case po_AutoMerge ob of None \<Rightarrow> False
         | Some m \<Rightarrow> am_Status m = AutoMergeMerging \<or> am_Status m = AutoMergeUncertain))"

definition txCompletePublication :: "env \<Rightarrow> handle \<Rightarrow> task \<Rightarrow> task \<Rightarrow> pull_request \<Rightarrow> auto_merge_state option \<Rightarrow>
    database \<Rightarrow> (store_error, task \<times> database) result" where
  "txCompletePublication env h expected t p merge db =
     (let repository = c_GitHubRepo (t_Config t) in
      case map_of (tb_Tasks db) (t_ID t) of
        None \<Rightarrow> Inl (NotAtPublishingCheckpoint (t_ID t))
      | Some stored \<Rightarrow>
          if t_Status stored \<noteq> StatusPublishing \<or> t_OutputCommit stored = None \<or> t_OutputCommit t = None \<or>
             t_OutputCommit stored \<noteq> t_OutputCommit t
          then Inl (NotAtPublishingCheckpoint (t_ID t))
          else
            let previous = prObservationAt db repository (pr_Number p) in
            if unresolved_intent (map_option snd previous) then Inl (UnresolvedMergeIntent (pr_Number p))
            else
              let t = (if t_AutoMergeSnapshot t = None
                       then t\<lparr>t_AutoMergeSnapshot := t_AutoMergeSnapshot stored\<rparr> else t);
                  recordID = (case previous of None \<Rightarrow> pr_record_id env repository (pr_Number p) | Some (i, _) \<Rightarrow> i);
                  observation = \<lparr>po_Repository = repository, po_PR = p, po_ObservedAt = env_Now env,
                    po_DeliveredHead = Some (pr_Head p), po_ExternalHeadMovement = False, po_AutoMerge = merge\<rparr>
              in rbind (snapshot_previous repository t p (map_option snd previous) db) (\<lambda>db.
                 rbind (commit_db expected t TaskPublication db) (\<lambda>db.
                 Inr (t, txRepositoryEvent env (h_Repo h) (t_ID t) EventStatus ''Published''
                       (put_pr recordID observation db)))))"

definition CompletePublication :: "env \<Rightarrow> handle \<Rightarrow> task \<Rightarrow> task \<Rightarrow> pull_request \<Rightarrow> auto_merge_state option \<Rightarrow>
    database \<Rightarrow> (store_error, task) result \<times> database" where
  "CompletePublication env h expected t p merge db = runTx db (txCompletePublication env h expected t p merge)"

subsection \<open>Claiming, settling and revoking merges\<close>

definition intent_complete :: "auto_merge_state \<Rightarrow> bool" where
  "intent_complete intent \<longleftrightarrow>
     am_Status intent = AutoMergeMerging \<and> am_Authorized intent \<and>
     am_HeadBranch intent \<noteq> [] \<and> am_BaseBranch intent \<noteq> [] \<and>
     am_AttemptID intent \<noteq> None \<and> am_AttemptID intent \<noteq> Some [] \<and>
     am_AttemptedAt intent \<noteq> None \<and> am_AttemptedAt intent \<noteq> Some []"

definition same_delivery :: "auto_merge_state \<Rightarrow> auto_merge_state \<Rightarrow> bool" where
  "same_delivery a b \<longleftrightarrow>
     am_TaskID a = am_TaskID b \<and> am_Head a = am_Head b \<and> am_ComparisonBase a = am_ComparisonBase b \<and>
     am_HeadBranch a = am_HeadBranch b \<and> am_BaseBranch a = am_BaseBranch b \<and>
     am_PolicyRevision a = am_PolicyRevision b"

definition claim_message :: "auto_merge_state \<Rightarrow> string" where
  "claim_message intent =
     ''Automatic squash merge attempt '' @ (case am_AttemptID intent of None \<Rightarrow> [] | Some a \<Rightarrow> a) @
     '' recorded for '' @ am_Head intent"

definition txClaimMerge :: "env \<Rightarrow> handle \<Rightarrow> string \<Rightarrow> u64 \<Rightarrow> auto_merge_state \<Rightarrow> bool \<Rightarrow> database \<Rightarrow>
    (store_error, unit \<times> database) result" where
  "txClaimMerge env h repository number intent allowManual db =
     (case prObservationAt db repository number of None \<Rightarrow> Inl ErrRollback
      | Some (i, ob) \<Rightarrow>
          (case po_AutoMerge ob of None \<Rightarrow> Inl ErrRollback
           | Some cur \<Rightarrow>
               if \<not> am_Authorized cur \<or>
                  \<not> (am_Status cur = AutoMergeWaiting \<or> allowManual \<and> am_Status cur = AutoMergeManual) \<or>
                  \<not> same_delivery cur intent
               then Inl ErrRollback
               else Inr ((), txRepositoryEvent env (h_Repo h) (am_TaskID intent) EventAutomerge
                      (claim_message intent)
                      (put_pr i (ob\<lparr>po_AutoMerge := Some intent\<rparr>) db))))"

definition ClaimMerge :: "env \<Rightarrow> handle \<Rightarrow> string \<Rightarrow> u64 \<Rightarrow> auto_merge_state \<Rightarrow> bool \<Rightarrow> database \<Rightarrow>
    (store_error, unit option) result \<times> database" where
  "ClaimMerge env h repository number intent allowManual db =
     (if \<not> intent_complete intent then (Inr None, db)
      else conditional db (txClaimMerge env h repository number intent allowManual))"

definition merge_terminal :: "auto_merge_status \<Rightarrow> bool" where
  "merge_terminal s \<longleftrightarrow> s = AutoMergeMerged \<or> s = AutoMergeClosed"

definition confirm_terminal :: "env \<Rightarrow> auto_merge_state \<Rightarrow> string \<Rightarrow> string \<Rightarrow> string option \<Rightarrow> auto_merge_state" where
  "confirm_terminal env m reason source commit =
     (let m = (if commit \<noteq> None then m\<lparr>am_MergeCommit := commit\<rparr> else m);
          confirmed = (am_ResultSource m = Some ''confirmed'') in
      if \<not> confirmed \<and> (source = ''confirmed'' \<or> source \<noteq> [] \<and> am_ResultSource m = None)
      then m\<lparr>am_ResultSource := Some source, am_Reason := reason, am_ObservedAt := env_Now env\<rparr>
      else m)"

definition settle_merge :: "env \<Rightarrow> auto_merge_state \<Rightarrow> auto_merge_status \<Rightarrow> string \<Rightarrow> string \<Rightarrow> string option \<Rightarrow> bool \<Rightarrow>
    auto_merge_state" where
  "settle_merge env m status reason source commit revoke =
     m\<lparr>am_Status := status, am_Reason := reason, am_ObservedAt := env_Now env,
       am_Authorized := (if revoke then False else am_Authorized m),
       am_AttemptID := (if status = AutoMergeWaiting then None else am_AttemptID m),
       am_ResultSource := (if source \<noteq> [] then Some source else am_ResultSource m),
       am_MergeCommit := (if commit \<noteq> None then commit else am_MergeCommit m)\<rparr>"

definition txSettleMerge :: "env \<Rightarrow> string \<Rightarrow> u64 \<Rightarrow> auto_merge_state \<Rightarrow> auto_merge_status \<Rightarrow> string \<Rightarrow> string \<Rightarrow>
    string option \<Rightarrow> bool \<Rightarrow> database \<Rightarrow> (store_error, unit \<times> database) result" where
  "txSettleMerge env repository number expected status reason source commit revoke db =
     (case prObservationAt db repository number of None \<Rightarrow> Inl ErrRollback
      | Some (i, ob) \<Rightarrow>
          (case po_AutoMerge ob of None \<Rightarrow> Inl ErrRollback
           | Some m \<Rightarrow>
               if \<not> same_delivery m expected \<or> am_AttemptID m \<noteq> am_AttemptID expected then Inl ErrRollback
               else if AutoMergeStatus_Pending (am_Status m) \<or> am_Status m = AutoMergeManual \<and> am_Authorized m then
                 Inr ((), put_pr i
                   (ob\<lparr>po_AutoMerge := Some (settle_merge env m status reason source commit revoke),
                       po_PR := (if merge_terminal status then (po_PR ob)\<lparr>pr_State := AutoMergeStatus_String status\<rparr>
                                 else po_PR ob)\<rparr>) db)
               else if merge_terminal (am_Status m) \<and> status = am_Status m then
                 (if commit \<noteq> None \<and> am_MergeCommit m \<noteq> None \<and> am_MergeCommit m \<noteq> commit then Inl ErrRollback
                  else Inr ((), put_pr i (ob\<lparr>po_AutoMerge := Some (confirm_terminal env m reason source commit)\<rparr>) db))
               else Inl ErrRollback))"

definition SettleMerge :: "env \<Rightarrow> string \<Rightarrow> u64 \<Rightarrow> auto_merge_state \<Rightarrow> auto_merge_status \<Rightarrow> string \<Rightarrow> string \<Rightarrow>
    string option \<Rightarrow> bool \<Rightarrow> database \<Rightarrow> (store_error, unit option) result \<times> database" where
  "SettleMerge env repository number expected status reason source commit revoke db =
     conditional db (txSettleMerge env repository number expected status reason source commit revoke)"

definition revoke_merge :: "env \<Rightarrow> string \<Rightarrow> auto_merge_state \<Rightarrow> auto_merge_state" where
  "revoke_merge env reason m =
     (let m = m\<lparr>am_Authorized := False\<rparr> in
      if merge_terminal (am_Status m) then m
      else let m = m\<lparr>am_Reason := reason, am_ObservedAt := env_Now env\<rparr> in
           if am_Status m \<noteq> AutoMergeMerging \<and> am_Status m \<noteq> AutoMergeUncertain
           then m\<lparr>am_Status := AutoMergeManual\<rparr> else m)"

definition revoked_by :: "string \<Rightarrow> pr_observation \<Rightarrow> bool" where
  "revoked_by taskID ob =
     (case po_AutoMerge ob of None \<Rightarrow> False
      | Some m \<Rightarrow> am_TaskID m = taskID \<and> (AutoMergeStatus_Pending (am_Status m) \<or> am_Authorized m))"

definition txRevokeTaskMerges :: "env \<Rightarrow> string \<Rightarrow> string \<Rightarrow> database \<Rightarrow> database" where
  "txRevokeTaskMerges env taskID reason db =
     fold (\<lambda>(i, ob). put_pr i (ob\<lparr>po_AutoMerge := map_option (revoke_merge env reason) (po_AutoMerge ob)\<rparr>))
       (filter (\<lambda>(i, ob). revoked_by taskID ob) (tb_PRs db)) db"

definition ArchiveTask :: "env \<Rightarrow> task \<Rightarrow> task \<Rightarrow> database \<Rightarrow> (store_error, unit) result \<times> database" where
  "ArchiveTask env expected t db =
     runTx db (\<lambda>db. rbind (commit_db expected t TaskArchive db) (\<lambda>db.
       Inr ((), txRevokeTaskMerges env (t_ID t) ''The authorizing task was archived'' db)))"


subsection \<open>Lemmas: writing back an observation\<close>

lemma find_snoc: "find P (xs @ [x]) = (case find P xs of None \<Rightarrow> (if P x then Some x else None) | Some y \<Rightarrow> Some y)"
  by (induction xs) auto

lemma find_rev_update:
  assumes "distinct (map fst xs)" and "find P (rev xs) = Some (i, v)" and "P (i, v')"
  shows "find P (rev (AList.update i v' xs)) = Some (i, v')"
  using assms(1,2)
proof (induction xs)
  case (Cons x xs)
  obtain k w where x: "x = (k, w)" by (cases x)
  show ?case
  proof (cases "k = i")
    case True
    with Cons.prems(1) have "i \<notin> fst ` set xs" by (auto simp: x)
    then have "find P (rev xs) \<noteq> Some (i, u)" for u
      by (auto simp: find_Some_iff image_iff) (metis fst_conv nth_mem set_rev length_rev)
    then have "find P (rev xs) = None"
      using Cons.prems(2) by (auto simp: x find_snoc split: option.splits)
    with True assms(3) show ?thesis by (simp add: x find_snoc)
  next
    case False
    then have "find P (rev xs) = Some (i, v)"
      using Cons.prems(2) by (auto simp: x find_snoc split: option.splits if_splits)
    with Cons.IH Cons.prems(1) False show ?thesis by (simp add: x find_snoc)
  qed
qed simp

definition prs_wf :: "database \<Rightarrow> bool" where
  "prs_wf db \<longleftrightarrow> distinct (map fst (tb_PRs db))"

lemma prObservationAt_matches:
  "prObservationAt db repository number = Some (i, ob) \<Longrightarrow>
     pr_matches repository number (i, ob) \<and> (i, ob) \<in> set (tb_PRs db)"
  by (auto simp: prObservationAt_def find_Some_iff) (metis nth_mem set_rev length_rev)

lemma prObservationAt_put:
  assumes "prs_wf db" and "prObservationAt db repository number = Some (i, ob)"
    and "po_Repository ob' = po_Repository ob" and "pr_Number (po_PR ob') = pr_Number (po_PR ob)"
  shows "prObservationAt (put_pr i ob' db) repository number = Some (i, ob')"
proof -
  have "pr_matches repository number (i, ob')"
    using prObservationAt_matches [OF assms(2)] assms(3,4) by (simp add: pr_matches_def)
  with find_rev_update [of "tb_PRs db"] assms(1,2) show ?thesis
    by (simp add: prObservationAt_def prs_wf_def)
qed

lemma find_rev_update_new:
  assumes "find P (rev xs) = None" and "P (i, v')"
  shows "find P (rev (AList.update i v' xs)) = Some (i, v')"
  using assms(1)
proof (induction xs)
  case (Cons x xs)
  obtain k w where x: "x = (k, w)" by (cases x)
  have "find P (rev xs) = None" "\<not> P (k, w)"
    using Cons.prems by (auto simp: x find_snoc split: option.splits if_splits)
  with Cons.IH assms(2) show ?case by (simp add: x find_snoc)
qed (simp add: assms(2))

text \<open>Writing the observation of a pull request where the store looks for it makes it the one found.\<close>

lemma prObservationAt_written:
  assumes "prs_wf db" and "pr_matches repository number (i, ob)"
    and "i = (case prObservationAt db repository number of None \<Rightarrow> fresh | Some (j, _) \<Rightarrow> j)"
  shows "prObservationAt (put_pr i ob db) repository number = Some (i, ob)"
  using assms find_rev_update [of "tb_PRs db" "pr_matches repository number" i] find_rev_update_new [of "pr_matches repository number" "tb_PRs db" i]
  by (auto simp: prObservationAt_def prs_wf_def split: option.splits)

lemma commit_db_prs: "commit_db expected nxt change db = Inr db' \<Longrightarrow> tb_PRs db' = tb_PRs db"
  by (auto simp: commit_db_Inr elim!: txCommitTask_Inr)

lemma prObservationAt_event [simp]:
  "prObservationAt (txRepositoryEvent env r e k msg db) repository number = prObservationAt db repository number"
  by (simp add: prObservationAt_def)

subsection \<open>Lemmas: revoking\<close>

text \<open>The loop writes each selected row once, so with distinct keys it maps the table.\<close>

lemma map_of_filter_values:
  "distinct (map fst xs) \<Longrightarrow>
     map_of (filter (\<lambda>(i, v). P v) xs) i = (case map_of xs i of None \<Rightarrow> None | Some v \<Rightarrow> if P v then Some v else None)"
proof (induction xs)
  case (Cons x xs)
  obtain k w where x: "x = (k, w)" by (cases x)
  have "map_of xs k = None" using Cons.prems by (simp add: x map_of_eq_None_iff)
  with Cons show ?case by (auto simp: x)
qed simp

lemma fold_put_pr:
  assumes "distinct (map fst xs)"
  shows "map_of (tb_PRs (fold (\<lambda>(i, ob). put_pr i (f ob)) xs db)) i =
      (case map_of xs i of None \<Rightarrow> map_of (tb_PRs db) i | Some ob \<Rightarrow> Some (f ob))"
  using assms
proof (induction xs arbitrary: db)
  case (Cons x xs)
  obtain k w where x: "x = (k, w)" by (cases x)
  from Cons.prems have "map_of xs k = None" by (auto simp: x map_of_eq_None_iff)
  with Cons show ?case by (auto simp: x split: option.splits)
qed simp

lemma fold_put_pr_distinct:
  "distinct (map fst (tb_PRs db)) \<Longrightarrow>
     distinct (map fst (tb_PRs (fold (\<lambda>(i, ob). put_pr i (f ob)) xs db)))"
proof (induction xs arbitrary: db)
  case (Cons x xs)
  obtain k w where x: "x = (k, w)" by (cases x)
  have "distinct (map fst (tb_PRs (put_pr k (f w) db)))"
    using Cons.prems by (simp add: distinct_update)
  from Cons.IH [OF this] show ?case by (simp add: x)
qed simp

lemma fold_put_pr_tasks: "tb_Tasks (fold (\<lambda>(i, ob). put_pr i (f ob)) xs db) = tb_Tasks db"
proof (induction xs arbitrary: db)
  case (Cons x xs)
  then show ?case by (cases x) simp
qed simp

lemma revoke_tasks [simp]: "tb_Tasks (txRevokeTaskMerges env taskID reason db) = tb_Tasks db"
  using fold_put_pr_tasks [of "\<lambda>ob. ob\<lparr>po_AutoMerge := map_option (revoke_merge env reason) (po_AutoMerge ob)\<rparr>"]
  by (simp add: txRevokeTaskMerges_def)

lemma revoke_rows:
  assumes "prs_wf db"
  shows "prs_wf (txRevokeTaskMerges env taskID reason db)"
    and "map_of (tb_PRs (txRevokeTaskMerges env taskID reason db)) i =
      map_option (\<lambda>ob. if revoked_by taskID ob
        then ob\<lparr>po_AutoMerge := map_option (revoke_merge env reason) (po_AutoMerge ob)\<rparr> else ob) (map_of (tb_PRs db) i)"
proof -
  let ?f = "\<lambda>ob. ob\<lparr>po_AutoMerge := map_option (revoke_merge env reason) (po_AutoMerge ob)\<rparr>"
  let ?xs = "filter (\<lambda>(i, ob). revoked_by taskID ob) (tb_PRs db)"
  have d: "distinct (map fst (tb_PRs db))" using assms by (simp add: prs_wf_def)
  have dx: "distinct (map fst ?xs)" using d by (simp add: distinct_map_filter)
  have eq: "txRevokeTaskMerges env taskID reason db = fold (\<lambda>(i, ob). put_pr i (?f ob)) ?xs db"
    by (simp add: txRevokeTaskMerges_def)
  show "prs_wf (txRevokeTaskMerges env taskID reason db)"
    using fold_put_pr_distinct [OF d] by (simp add: eq prs_wf_def)
  have "map_of ?xs i = (case map_of (tb_PRs db) i of None \<Rightarrow> None | Some ob \<Rightarrow> if revoked_by taskID ob then Some ob else None)"
    by (rule map_of_filter_values [OF d])
  then show "map_of (tb_PRs (txRevokeTaskMerges env taskID reason db)) i =
      map_option (\<lambda>ob. if revoked_by taskID ob then ?f ob else ob) (map_of (tb_PRs db) i)"
    using fold_put_pr [OF dx, of ?f db i] by (auto simp: eq split: option.splits)
qed

subsection \<open>Lemmas: the task table\<close>

context task_table_invariant
begin

lemma ArchiveTask_inv: "Inv (tb_Tasks db) \<Longrightarrow> Inv (tb_Tasks (snd (ArchiveTask env expected t db)))"
  unfolding ArchiveTask_def by (rule runTx_inv) (auto simp: rbind_Inr_iff intro: commit_db_inv)

lemma snapshot_previous_inv:
  "snapshot_previous repository t p previous db = Inr db' \<Longrightarrow> Inv (tb_Tasks db) \<Longrightarrow> Inv (tb_Tasks db')"
  by (auto simp: snapshot_previous_def intro: commit_db_inv split: option.splits if_splits)

lemma CompletePublication_inv:
  "Inv (tb_Tasks db) \<Longrightarrow> Inv (tb_Tasks (snd (CompletePublication env h expected t p merge db)))"
  unfolding CompletePublication_def
proof (rule runTx_inv)
  fix a db'
  assume i: "Inv (tb_Tasks db)" and "txCompletePublication env h expected t p merge db = Inr (a, db')"
  then obtain repository t' previous d1 d2 where
    "snapshot_previous repository t' p previous db = Inr d1" "commit_db expected t' TaskPublication d1 = Inr d2"
    "tb_Tasks db' = tb_Tasks d2"
    by (auto simp: txCompletePublication_def Let_def rbind_Inr_iff split: option.splits if_splits)
  with i snapshot_previous_inv commit_db_inv show "Inv (tb_Tasks db')" by metis
qed

end

lemma merge_writes_tasks:
  "tb_Tasks (snd (ClaimMerge env h repository number intent allow db)) = tb_Tasks db"
  "tb_Tasks (snd (SettleMerge env repository number expected status reason source commit revoke db)) = tb_Tasks db"
  "tb_Tasks (RecordPRObservation env repository p delivered db) = tb_Tasks db"
proof -
  show "tb_Tasks (snd (ClaimMerge env h repository number intent allow db)) = tb_Tasks db"
    by (cases rule: conditional_cases [of "txClaimMerge env h repository number intent allow" db])
      (auto simp: ClaimMerge_def txClaimMerge_def split: option.splits if_splits)
  show "tb_Tasks (snd (SettleMerge env repository number expected status reason source commit revoke db)) = tb_Tasks db"
    by (cases rule: conditional_cases [of "txSettleMerge env repository number expected status reason source commit revoke" db])
      (auto simp: SettleMerge_def txSettleMerge_def split: option.splits if_splits)
  show "tb_Tasks (RecordPRObservation env repository p delivered db) = tb_Tasks db"
    by (simp add: RecordPRObservation_def Let_def)
qed

subsection \<open>Properties\<close>


definition sample_merge :: auto_merge_state where
  "sample_merge = \<lparr>am_TaskID = ''t1'', am_Head = ''rev1'', am_HeadBranch = ''octomus/t1'', am_BaseBranch = ''main'',
     am_ComparisonBase = ''rev0'', am_PolicyRevision = ''p1'', am_Authorized = True, am_Footprint = None,
     am_Status = AutoMergeWaiting, am_Reason = ''ready'', am_ObservedAt = ''2025-01-02T00:00:00Z'', am_AttemptID = None,
     am_AttemptedAt = None, am_MergeCommit = None, am_ResultSource = None\<rparr>"

definition sample_pr :: pull_request where
  "sample_pr = \<lparr>pr_Number = 7, pr_Title = ''Close the file'', pr_Branch = ''octomus/t1'', pr_Head = ''rev1'',
     pr_Base = ''main'', pr_URL = ''https://example.org/7'', pr_Body = [], pr_State = ''open'', pr_ChangedLines = 12,
     pr_CreatedAt = ''2025-01-02T00:00:00Z'', pr_Owned = True, pr_HeadRepository = ''octo/app'',
     pr_BaseRepository = ''octo/app'', pr_ReviewDecision = [], pr_CheckStatus = [], pr_Mergeability = [],
     pr_StatusSource = [], pr_StatusObservedAt = []\<rparr>"

definition sample_observation :: pr_observation where
  "sample_observation = \<lparr>po_Repository = ''octo/app'', po_PR = sample_pr, po_ObservedAt = ''2025-01-02T00:00:00Z'',
     po_DeliveredHead = Some ''rev1'', po_ExternalHeadMovement = False, po_AutoMerge = Some sample_merge\<rparr>"

definition merge_db :: database where
  "merge_db = empty_db\<lparr>tb_PRs := [(''octo/app:7'', sample_observation)], tb_Tasks := [(''t1'', sample_published)]\<rparr>"

definition sample_intent :: auto_merge_state where
  "sample_intent = sample_merge\<lparr>am_Status := AutoMergeMerging, am_AttemptID := Some ''x1'',
     am_AttemptedAt := Some ''2025-01-02T00:01:00Z''\<rparr>"

lemma merge_db_wf: "prs_wf merge_db"
  by (simp add: prs_wf_def merge_db_def)

lemma merge_db_at: "prObservationAt merge_db ''octo/app'' 7 = Some (''octo/app:7'', sample_observation)"
  by (simp add: prObservationAt_def merge_db_def pr_matches_def sample_observation_def sample_pr_def)

lemma sample_claim:
  "ClaimMerge sample_env root_handle ''octo/app'' 7 sample_intent False merge_db =
     (Inr (Some ()), snd (ClaimMerge sample_env root_handle ''octo/app'' 7 sample_intent False merge_db))"
  by (simp add: ClaimMerge_def intent_complete_def sample_intent_def sample_merge_def conditional_def runTx_def
      txClaimMerge_def merge_db_at sample_observation_def same_delivery_def)


text \<open>Observing a pull request never grants merge authority: the merge state it preserves is authorised
  only if it was before; a state still waiting for an automatic merge describes an open, owned pull
  request at exactly the reviewed head, branch and base; and the only states an observation can move to are
  manual, merged and closed.\<close>

lemma observation_only_revokes:
  "(am_Authorized (preserve_merge env m p) \<longrightarrow> am_Authorized m) \<and>
   (am_Status (preserve_merge env m p) = AutoMergeWaiting \<longrightarrow> sameDeliveryHead m p) \<and>
   am_Status (preserve_merge env m p) \<in> {am_Status m, AutoMergeManual, AutoMergeMerged, AutoMergeClosed} \<and>
   same_delivery (preserve_merge env m p) m"
  by (auto simp: preserve_merge_def Let_def same_delivery_def sameDeliveryHead_def delivery_bound_def
      AutoMergeStatus_Pending_def)

lemma observation_only_revokes_witness:
  "sameDeliveryHead sample_merge sample_pr \<and> am_Status (preserve_merge sample_env sample_merge sample_pr) = AutoMergeWaiting"
proof -
  have "am_Status (preserve_merge sample_env sample_merge sample_pr) = AutoMergeWaiting"
    by (simp add: preserve_merge_def Let_def sample_merge_def sample_pr_def sameDeliveryHead_def)
  with observation_only_revokes [of sample_env sample_merge sample_pr] show ?thesis by simp
qed

text \<open>A merged or closed outcome is final: an observation keeps it, revoking the authority of its task
  keeps it, no merge can be claimed on it, and settling it again can only confirm the same outcome, never
  another one and never another merge commit.\<close>

lemma terminal_outcome_final:
  assumes "merge_terminal (am_Status m)"
  shows "preserve_merge env m p = m \<and> am_Status (revoke_merge env reason m) = am_Status m \<and>
     (prObservationAt db repository number = Some (i, ob) \<and> po_AutoMerge ob = Some m \<longrightarrow>
       txClaimMerge env h repository number intent allow db = Inl ErrRollback \<and>
       (txSettleMerge env repository number expected status reason source commit revoke db = Inr (u, db') \<longrightarrow>
         status = am_Status m \<and>
         (\<exists>m'. db' = put_pr i (ob\<lparr>po_AutoMerge := Some m'\<rparr>) db \<and> am_Status m' = am_Status m \<and>
            (am_MergeCommit m \<noteq> None \<longrightarrow> am_MergeCommit m' = am_MergeCommit m))))"
proof (intro conjI impI)
  show "preserve_merge env m p = m"
    using assms unfolding merge_terminal_def
    by (elim disjE) (simp_all add: preserve_merge_def Let_def AutoMergeStatus_Pending_def)
  show "am_Status (revoke_merge env reason m) = am_Status m"
    using assms by (simp add: revoke_merge_def Let_def)
  assume at: "prObservationAt db repository number = Some (i, ob) \<and> po_AutoMerge ob = Some m"
  then show "txClaimMerge env h repository number intent allow db = Inl ErrRollback"
    using assms by (auto simp: txClaimMerge_def merge_terminal_def)
  assume "txSettleMerge env repository number expected status reason source commit revoke db = Inr (u, db')"
  then have s: "status = am_Status m" "commit = None \<or> am_MergeCommit m = None \<or> am_MergeCommit m = commit"
    "db' = put_pr i (ob\<lparr>po_AutoMerge := Some (confirm_terminal env m reason source commit)\<rparr>) db"
    using at assms by (auto simp: txSettleMerge_def merge_terminal_def AutoMergeStatus_Pending_def split: if_splits)
  show "status = am_Status m" by (fact s(1))
  have "am_Status (confirm_terminal env m reason source commit) = am_Status m"
    "am_MergeCommit m \<noteq> None \<Longrightarrow> am_MergeCommit (confirm_terminal env m reason source commit) = am_MergeCommit m"
    using s(2) by (auto simp: confirm_terminal_def Let_def)
  with s(3) show "\<exists>m'. db' = put_pr i (ob\<lparr>po_AutoMerge := Some m'\<rparr>) db \<and> am_Status m' = am_Status m \<and>
      (am_MergeCommit m \<noteq> None \<longrightarrow> am_MergeCommit m' = am_MergeCommit m)" by blast
qed

lemma terminal_outcome_final_witness:
  "preserve_merge sample_env (sample_merge\<lparr>am_Status := AutoMergeMerged\<rparr>) (sample_pr\<lparr>pr_State := ''closed''\<rparr>) =
     sample_merge\<lparr>am_Status := AutoMergeMerged\<rparr>"
  using terminal_outcome_final [of "sample_merge\<lparr>am_Status := AutoMergeMerged\<rparr>" sample_env
      "sample_pr\<lparr>pr_State := ''closed''\<rparr>"]
  by (simp add: merge_terminal_def)

text \<open>Archiving a task revokes every merge it authorised in the same transaction: afterwards no saved
  observation of a delivery of that task is authorised or waiting, a recorded merged or closed outcome is
  kept, the saved task is archived, and a refused archive changes nothing.\<close>

lemma archive_revokes_authority:
  assumes wf: "prs_wf db" and a: "ArchiveTask env expected t db = (r, db')"
  shows "case r of Inl _ \<Rightarrow> db' = db
    | Inr _ \<Rightarrow> map_of (tb_Tasks db') (t_ID t) = Some t \<and> wl_ArchivedAt (t_Lifecycle t) \<noteq> None \<and>
        (\<forall>i ob m. map_of (tb_PRs db') i = Some ob \<and> po_AutoMerge ob = Some m \<and> am_TaskID m = t_ID t \<longrightarrow>
           \<not> am_Authorized m \<and> am_Status m \<noteq> AutoMergeWaiting) \<and>
        (\<forall>i ob m. map_of (tb_PRs db) i = Some ob \<and> po_AutoMerge ob = Some m \<and> merge_terminal (am_Status m) \<longrightarrow>
           (\<exists>ob'. map_of (tb_PRs db') i = Some ob' \<and> po_AutoMerge ob' \<in> {Some m, Some (m\<lparr>am_Authorized := False\<rparr>)}))"
proof (cases "commit_db expected t TaskArchive db")
  case (Inl e)
  with a show ?thesis by (auto simp: ArchiveTask_def runTx_def)
next
  case (Inr d)
  have r: "r = Inr ()" "db' = txRevokeTaskMerges env (t_ID t) ''The authorizing task was archived'' d"
    using a Inr by (auto simp: ArchiveTask_def runTx_def)
  from Inr obtain u where u: "txCommitTask expected t TaskArchive db = Inr (u, d)" by (auto simp: commit_db_Inr)
  have "u = t" using txCommitTask_result(1) [OF u] by simp
  with txCommitTask_Inr [OF u] obtain cur marked where
    v: "ValidateTaskChange cur t TaskArchive marked = None" and d: "d = put_task (t_ID t) t db"
    by metis
  have "wl_ArchivedAt (t_Lifecycle t) \<noteq> None"
    using ValidateTaskChange_None(10) [OF v] by (simp add: transition_valid_def)
  moreover have "prs_wf d" using wf by (simp add: d prs_wf_def)
  moreover have "\<not> am_Authorized m \<and> am_Status m \<noteq> AutoMergeWaiting"
    if ob: "map_of (tb_PRs db') i = Some ob" "po_AutoMerge ob = Some m" "am_TaskID m = t_ID t" for i ob m
  proof -
    obtain ob0 where ob0: "map_of (tb_PRs d) i = Some ob0"
      and eq: "ob = (if revoked_by (t_ID t) ob0
        then ob0\<lparr>po_AutoMerge := map_option (revoke_merge env ''The authorizing task was archived'') (po_AutoMerge ob0)\<rparr> else ob0)"
      using ob(1) revoke_rows(2) [OF \<open>prs_wf d\<close>, of env "t_ID t" "''The authorizing task was archived''" i]
      by (auto simp: r(2))
    show ?thesis
      using ob(2,3) eq
      by (auto simp: revoked_by_def revoke_merge_def merge_terminal_def Let_def AutoMergeStatus_Pending_def split: option.splits if_splits)
  qed
  moreover have "\<exists>ob'. map_of (tb_PRs db') i = Some ob' \<and> po_AutoMerge ob' \<in> {Some m, Some (m\<lparr>am_Authorized := False\<rparr>)}"
    if "map_of (tb_PRs db) i = Some ob" "po_AutoMerge ob = Some m" "merge_terminal (am_Status m)" for i ob m
    using that revoke_rows(2) [OF \<open>prs_wf d\<close>, of env "t_ID t" "''The authorizing task was archived''" i]
    by (auto simp: r(2) d revoke_merge_def)
  ultimately show ?thesis by (auto simp: r d)
qed

lemma archive_revokes_authority_witness:
  "\<nexists>ob m. map_of (tb_PRs (snd (ArchiveTask sample_env sample_published
       (sample_published\<lparr>t_Lifecycle := \<lparr>wl_ArchivedAt = Some ''2025-01-03T00:00:00Z'', wl_DiscardedAt = None\<rparr>\<rparr>) merge_db)))
       ''octo/app:7'' = Some ob \<and> po_AutoMerge ob = Some m \<and> am_TaskID m = ''t1'' \<and> am_Authorized m"
proof -
  let ?t = "sample_published\<lparr>t_Lifecycle := \<lparr>wl_ArchivedAt = Some ''2025-01-03T00:00:00Z'', wl_DiscardedAt = None\<rparr>\<rparr>"
  let ?out = "ArchiveTask sample_env sample_published ?t merge_db"
  have "txCommitTask sample_published ?t TaskArchive merge_db = Inr (?t, put_task ''t1'' ?t merge_db)"
    by (simp add: txCommitTask_def merge_db_def empty_db_def marker_def finish_commit_def policy_defs sample_published_def
        sample_publishing_def sample_reviewing_def sample_executing_def sample_task_def)
  then have "fst ?out = Inr ()" by (simp add: ArchiveTask_def runTx_def commit_db_def)
  then have "?out = (Inr (), snd ?out)" by (simp add: prod_eq_iff)
  moreover have "t_ID ?t = ''t1''"
    by (simp add: sample_published_def sample_publishing_def sample_reviewing_def sample_executing_def sample_task_def)
  ultimately show ?thesis
    using archive_revokes_authority [OF merge_db_wf, of sample_env sample_published ?t "Inr ()" "snd ?out"]
    by (simp only: sum.case) blast
qed

text \<open>Publication is recorded all at once. It succeeds only for a task saved at its publishing checkpoint
  with the same output commit, when the pull request carries no unresolved merge attempt; then the saved
  task is published with that commit and the pull request's newest observation is the delivered one with
  the given merge state. When it fails, neither record changes.\<close>

lemma publication_atomic:
  assumes wf: "prs_wf db" and c: "CompletePublication env h expected t p merge db = (r, db')"
    and n: "unat (pr_Number p) < 2 ^ 63"
  shows "case r of Inl _ \<Rightarrow> db' = db
    | Inr t' \<Rightarrow>
        (\<exists>stored. map_of (tb_Tasks db) (t_ID t) = Some stored \<and> t_Status stored = StatusPublishing \<and>
           t_OutputCommit stored = t_OutputCommit t \<and> t_OutputCommit t \<noteq> None) \<and>
        map_of (tb_Tasks db') (t_ID t) = Some t' \<and> t_Status t' = StatusPublished \<and> t_OutputCommit t' = t_OutputCommit t \<and>
        \<not> unresolved_intent (MergeObservation (c_GitHubRepo (t_Config t)) (pr_Number p) db) \<and>
        (\<exists>ob. MergeObservation (c_GitHubRepo (t_Config t)) (pr_Number p) db' = Some ob \<and> po_PR ob = p \<and>
           po_DeliveredHead ob = Some (pr_Head p) \<and> po_AutoMerge ob = merge)"
proof (cases rule: runTx_cases [of "txCompletePublication env h expected t p merge" db])
  case (1 e)
  then show ?thesis using c by (auto simp: CompletePublication_def)
next
  case (2 t' d)
  have r: "r = Inr t'" "db' = d" using c 2 by (simp_all add: CompletePublication_def)
  define repo where "repo = c_GitHubRepo (t_Config t)"
  define obs where "obs = \<lparr>po_Repository = repo, po_PR = p, po_ObservedAt = env_Now env,
      po_DeliveredHead = Some (pr_Head p), po_ExternalHeadMovement = False, po_AutoMerge = merge\<rparr>"
  define i where "i = (case prObservationAt db repo (pr_Number p) of None \<Rightarrow> pr_record_id env repo (pr_Number p) | Some (j, _) \<Rightarrow> j)"
  obtain stored d1 d2 where
      st: "map_of (tb_Tasks db) (t_ID t) = Some stored" "t_Status stored = StatusPublishing"
        "t_OutputCommit stored = t_OutputCommit t" "t_OutputCommit t \<noteq> None"
    and un: "\<not> unresolved_intent (map_option snd (prObservationAt db repo (pr_Number p)))"
    and t': "t' = (if t_AutoMergeSnapshot t = None then t\<lparr>t_AutoMergeSnapshot := t_AutoMergeSnapshot stored\<rparr> else t)"
    and s1: "snapshot_previous repo t' p (map_option snd (prObservationAt db repo (pr_Number p))) db = Inr d1"
    and s2: "commit_db expected t' TaskPublication d1 = Inr d2"
    and d: "d = txRepositoryEvent env (h_Repo h) (t_ID t') EventStatus ''Published'' (put_pr i obs d2)"
    using 2(1) unfolding txCompletePublication_def
    by (auto simp: Let_def rbind_Inr_iff repo_def [symmetric] i_def obs_def split: option.splits if_splits)
  have id: "t_ID t' = t_ID t" "t_OutputCommit t' = t_OutputCommit t" by (simp_all add: t')
  from s2 obtain u where u: "txCommitTask expected t' TaskPublication d1 = Inr (u, d2)" by (auto simp: commit_db_Inr)
  have ut: "u = t'" using txCommitTask_result(1) [OF u] by simp
  with txCommitTask_Inr [OF u] obtain cur marked where
    v: "ValidateTaskChange cur t' TaskPublication marked = None" and d2: "d2 = put_task (t_ID t') t' d1"
    by metis
  have pub: "t_Status t' = StatusPublished"
    using ValidateTaskChange_None(10) [OF v] by (simp add: transition_valid_def)
  have saved: "map_of (tb_Tasks d) (t_ID t) = Some t'" by (simp add: d d2 id)
  have "tb_PRs d1 = tb_PRs db"
    using s1 commit_db_prs by (auto simp: snapshot_previous_def split: option.splits if_splits)
  then have prs: "tb_PRs d2 = tb_PRs db" by (simp add: d2)
  have "prObservationAt (put_pr i obs d2) repo (pr_Number p) = Some (i, obs)"
  proof (rule prObservationAt_written)
    show "prs_wf d2" using wf prs by (simp add: prs_wf_def)
    show "pr_matches repo (pr_Number p) (i, obs)" using n by (simp add: pr_matches_def obs_def)
    show "i = (case prObservationAt d2 repo (pr_Number p) of None \<Rightarrow> pr_record_id env repo (pr_Number p) | Some (j, _) \<Rightarrow> j)"
      by (simp add: i_def prObservationAt_def prs)
  qed
  then have "MergeObservation repo (pr_Number p) d = Some obs" by (simp add: MergeObservation_def d)
  with st un pub saved id show ?thesis
    by (simp add: r repo_def [symmetric]) (simp add: obs_def MergeObservation_def)
qed

definition publishing_db :: database where
  "publishing_db = empty_db\<lparr>tb_Tasks := [(''t1'', sample_publishing)]\<rparr>"

lemma publication_atomic_witness:
  "\<exists>ob. MergeObservation ''octo/app'' 7
     (snd (CompletePublication sample_env root_handle sample_publishing sample_published sample_pr None publishing_db)) = Some ob \<and>
     po_PR ob = sample_pr"
proof -
  let ?out = "CompletePublication sample_env root_handle sample_publishing sample_published sample_pr None publishing_db"
  have base: "t_ID sample_published = ''t1''" "t_ID sample_publishing = ''t1''" "t_OutputCommit sample_published = Some ''rev1''"
    "t_OutputCommit sample_publishing = Some ''rev1''" "t_Status sample_publishing = StatusPublishing"
    "t_AutoMergeSnapshot sample_published = None" "t_AutoMergeSnapshot sample_publishing = None"
    "c_GitHubRepo (t_Config sample_published) = ''octo/app''"
    by (simp_all add: sample_defs)
  have same: "sample_published\<lparr>t_AutoMergeSnapshot := None\<rparr> = sample_published"
    by (simp add: sample_defs)
  have "txCommitTask sample_publishing sample_published TaskPublication publishing_db =
      Inr (sample_published, put_task ''t1'' sample_published publishing_db)"
    by (simp add: txCommitTask_def publishing_db_def base marker_def empty_db_def finish_commit_def sample_delivered)
  then have "fst ?out = Inr sample_published"
    by (simp add: CompletePublication_def runTx_def txCompletePublication_def publishing_db_def base Let_def
        prObservationAt_def empty_db_def unresolved_intent_def snapshot_previous_def same commit_db_def)
  then have "?out = (Inr sample_published, snd ?out)" by (simp add: prod_eq_iff)
  moreover have "prs_wf publishing_db" by (simp add: prs_wf_def publishing_db_def empty_db_def)
  moreover have "unat (pr_Number sample_pr) < 2 ^ 63" "pr_Number sample_pr = 7" by (simp_all add: sample_pr_def)
  ultimately show ?thesis
    using publication_atomic [of publishing_db sample_env root_handle sample_publishing sample_published sample_pr None
        "Inr sample_published" "snd ?out"] by (simp add: base) blast
qed

end
