(* ===== verification/Store_Budget.thy ===== *)
theory Store_Budget
  imports Store_Tasks
begin

text \<open>
  Session budgets and planning admission of \<open>internal/store\<close>: \<open>ReserveSession\<close>, the planning capacity and
  its commitments (\<open>store.go\<close>), \<open>StartBatch\<close> and \<open>BeginCycle\<close> (\<open>queries.go\<close>). A point in time enters as its
  UTC day and the Unix time of the next midnight; parsing an RFC 3339 time to its UTC day and
  fingerprinting a configuration are parameters.

  The lemmas show that no admission exceeds a repository's daily limit and that the sessions used on a
  day together with the sessions promised to running planning cycles never exceed the instance ceiling.
\<close>

subsection \<open>Counters\<close>

definition usageRepo :: "env \<Rightarrow> handle \<Rightarrow> config \<Rightarrow> string" where
  "usageRepo env h cfg =
     (if h_Repo h \<noteq> [] then to_lower (env_Unicode env) (h_Repo h) else to_lower (env_Unicode env) (c_GitHubRepo cfg))"

definition instanceSessionsOn :: "database \<Rightarrow> string \<Rightarrow> int" where
  "instanceSessionsOn db day = sum_list (map snd (filter (\<lambda>row. snd (fst row) = day) (tb_Usage db)))"

definition sessionsOn :: "env \<Rightarrow> database \<Rightarrow> string \<Rightarrow> string \<Rightarrow> int" where
  "sessionsOn env db repository day =
     (if repository = [] then instanceSessionsOn db day
      else case map_of (tb_Usage db) (to_lower (env_Unicode env) repository, day) of None \<Rightarrow> 0 | Some n \<Rightarrow> n)"

definition planningCommitments :: "database \<Rightarrow> string \<Rightarrow> u64" where
  "planningCommitments db own = word_of_int (sum_list (map snd (filter (\<lambda>row. fst row \<noteq> own) (tb_Planning db))))"

subsection \<open>Reserving a session\<close>

definition instance_full :: "database \<Rightarrow> string \<Rightarrow> string \<Rightarrow> bool" where
  "instance_full db day own \<longleftrightarrow>
     (let maxi = is_MaxSessionsPerDay (storedInstanceSettings db); total = instanceSessionsOn db day in
      0 < maxi \<and>
      (total < 0 \<or> maxi \<le> word_of_int total \<or> maxi - word_of_int total \<le> planningCommitments db own))"

definition int64_limit :: "u64 \<Rightarrow> int" where
  "int64_limit limit = (if 2 ^ 63 - 1 < uint limit then 2 ^ 63 - 1 else uint limit)"

definition count_session :: "string \<times> string \<Rightarrow> int \<Rightarrow> database \<Rightarrow> (store_error, database) result" where
  "count_session key limit db =
     (case map_of (tb_Usage db) key of
        None \<Rightarrow> Inr (db\<lparr>tb_Usage := AList.update key 1 (tb_Usage db)\<rparr>)
      | Some n \<Rightarrow>
          if n < limit then Inr (db\<lparr>tb_Usage := AList.update key (n + 1) (tb_Usage db)\<rparr>)
          else Inl DailyBudgetExhausted)"

definition consume_planning :: "string \<Rightarrow> database \<Rightarrow> database" where
  "consume_planning i db =
     db\<lparr>tb_Planning := map (\<lambda>(k, n). if k = i then (k, max (n - 1) 0) else (k, n)) (tb_Planning db)\<rparr>"

definition txReserveSession :: "env \<Rightarrow> handle \<Rightarrow> string \<Rightarrow> u64 \<Rightarrow> admission \<Rightarrow> database \<Rightarrow>
    (store_error, unit \<times> database) result" where
  "txReserveSession env h day measured a db =
     (let cfg = storedConfig db (store_ConfigKey h); limit = c_MaxSessionsPerDay cfg in
      if limit = 0 then Inl BudgetNotPositive
      else if c_MaxWorkspaceBytes cfg \<le> measured then Inl (StorageLimitReached measured)
      else if instance_full db day (if ad_TaskID a = None then ad_CycleID a else []) then Inl InstanceCeilingExhausted
      else rbind (count_session (usageRepo env h cfg, day) (int64_limit limit) db) (\<lambda>db.
        let a = (if ad_Repository a = []
                 then a\<lparr>ad_Repository := (if h_Repo h \<noteq> [] then h_Repo h else c_GitHubRepo cfg)\<rparr> else a);
            db = (if ad_TaskID a = None then consume_planning (ad_CycleID a) db else db)
        in if map_of (tb_Admissions db) (ad_ID a) \<noteq> None then Inl UniqueConstraint
           else Inr ((), db\<lparr>tb_Admissions := AList.update (ad_ID a) a (tb_Admissions db)\<rparr>)))"

definition ReserveSession :: "(string \<Rightarrow> string option) \<Rightarrow> env \<Rightarrow> handle \<Rightarrow> u64 \<Rightarrow> admission \<Rightarrow> database \<Rightarrow>
    (store_error, unit) result \<times> database" where
  "ReserveSession utc_day env h measured a db =
     (case utc_day (ad_At a) of
        None \<Rightarrow> (Inl InvalidTime, db)
      | Some day \<Rightarrow> runTx db (txReserveSession env h day measured a))"

subsection \<open>Planning capacity\<close>

text \<open>The room the instance ceiling leaves after the day's sessions and every planning commitment.\<close>

definition instance_room :: "database \<Rightarrow> string \<Rightarrow> u64" where
  "instance_room db day =
     (let maxi = is_MaxSessionsPerDay (storedInstanceSettings db);
          total = instanceSessionsOn db day;
          room = (if 0 \<le> total \<and> word_of_int total < maxi then maxi - word_of_int total else 0)
      in room - min room (planningCommitments db []))"

definition planningCapacityAt :: "env \<Rightarrow> handle \<Rightarrow> string \<Rightarrow> int \<Rightarrow> database \<Rightarrow> planning_capacity" where
  "planningCapacityAt env h day next_reset db =
     (let cfg = storedConfig db (store_ConfigKey h);
          used = max 0 (sessionsOn env db (usageRepo env h cfg) day);
          limit = c_MaxSessionsPerDay cfg;
          required = PlanningCost cfg;
          remaining = (if word_of_int used < limit then limit - word_of_int used else 0);
          remaining = (if 0 < is_MaxSessionsPerDay (storedInstanceSettings db) \<and> instance_room db day < remaining
                       then instance_room db day else remaining)
      in \<lparr>pc_Day = day, pc_Limit = limit, pc_Used = word_of_int used, pc_Remaining = remaining,
          pc_Required = required, pc_NextResetAt = next_reset,
          pc_Status = (if limit < required then CapacityTooLow
                       else if remaining < required then CapacityExhausted else CapacityReady)\<rparr>)"

subsection \<open>Batches and cycles\<close>

definition enrolled :: "string \<Rightarrow> task \<Rightarrow> bool" where
  "enrolled repository t \<longleftrightarrow>
     t_Status t = StatusQueued \<and> wl_ArchivedAt (t_Lifecycle t) = None \<and>
     (repository = [] \<or> EqualASCII (c_GitHubRepo (t_Config t)) repository)"

definition enroll_task :: "string \<Rightarrow> string \<Rightarrow> string \<times> task \<Rightarrow> database \<Rightarrow> database" where
  "enroll_task run repository it db =
     (if enrolled repository (snd it) then put_task (fst it) ((snd it)\<lparr>t_RunID := Some run\<rparr>) db else db)"

definition txStartBatch :: "env \<Rightarrow> string \<Rightarrow> string \<Rightarrow> control \<Rightarrow> database \<Rightarrow> control \<times> database" where
  "txStartBatch env key repository ct db =
     (let nxt = (SetMode OperatingModeRunOnce ct)
            \<lparr>ct_Batch := Some \<lparr>b_ID = env_ID env, b_Phase = BatchPhaseDraining, b_CycleID = None\<rparr>,
             ct_Error := None, ct_NextCycleAt := 0\<rparr>;
          db = fold (enroll_task (env_ID env) repository) (tb_Tasks db) db
      in (nxt, put_control key nxt db))"

definition StartBatch :: "env \<Rightarrow> handle \<Rightarrow> control \<Rightarrow> string \<Rightarrow> int \<Rightarrow> database \<Rightarrow>
    planning_capacity \<times> (store_error, control option) result \<times> database" where
  "StartBatch env h ct day next_reset db =
     (planningCapacityAt env h day next_reset db,
      conditional db (\<lambda>db.
        if liveControl db (store_ControlKey h) \<noteq> ct \<or>
           \<not> Capacity_Available (planningCapacityAt env h day next_reset db)
        then Inl ErrRollback
        else Inr (txStartBatch env (store_ControlKey h) (h_Repo h) ct db)))"

definition txBeginCycle :: "(config \<Rightarrow> string) \<Rightarrow> env \<Rightarrow> handle \<Rightarrow> cycle \<Rightarrow> control \<Rightarrow> control \<Rightarrow> string \<Rightarrow>
    string \<Rightarrow> int \<Rightarrow> database \<Rightarrow> (store_error, unit \<times> database) result" where
  "txBeginCycle fingerprint_of env h cycle ct expected fingerprint day next_reset db =
     (let capacity = planningCapacityAt env h day next_reset db in
      if fingerprint_of (storedConfig db (store_ConfigKey h)) \<noteq> fingerprint \<or>
         liveControl db (store_ControlKey h) \<noteq> expected \<or> \<not> Capacity_Available capacity
      then Inl ErrRollback
      else let db = put_cycle (cy_ID cycle) cycle db in
           if map_of (tb_Planning db) (cy_ID cycle) \<noteq> None then Inl UniqueConstraint
           else let db = db\<lparr>tb_Planning := AList.update (cy_ID cycle) (uint (pc_Required capacity)) (tb_Planning db)\<rparr>
                in Inr ((), put_control (store_ControlKey h) (ct\<lparr>ct_BudgetWaiting := False\<rparr>) db))"

definition BeginCycle :: "(config \<Rightarrow> string) \<Rightarrow> env \<Rightarrow> handle \<Rightarrow> cycle \<Rightarrow> control \<Rightarrow> control \<Rightarrow> string \<Rightarrow>
    string \<Rightarrow> int \<Rightarrow> database \<Rightarrow> planning_capacity \<times> (store_error, unit option) result \<times> database" where
  "BeginCycle fingerprint_of env h cycle ct expected fingerprint day next_reset db =
     (planningCapacityAt env h day next_reset db,
      conditional db (txBeginCycle fingerprint_of env h cycle ct expected fingerprint day next_reset))"

definition BatchCounts :: "string \<Rightarrow> database \<Rightarrow> nat \<times> nat" where
  "BatchCounts run db =
     (let members = map snd (filter (\<lambda>((r, _), _). r = run) (tb_BatchMembers db)) in
      (length (filter (\<lambda>s. s = StatusQueued \<or> s \<in> set ActiveStatuses) members),
       length (filter (\<lambda>s. s \<in> set UnresolvedStatuses) members)))"

subsection \<open>Lemmas: sums of counters\<close>

definition counter :: "('k \<times> int) list \<Rightarrow> 'k \<Rightarrow> int" where
  "counter m k = (case map_of m k of None \<Rightarrow> 0 | Some n \<Rightarrow> n)"

lemma sum_filter_update:
  "sum_list (map snd (filter (\<lambda>row. P (fst row)) (AList.update k v m))) =
     sum_list (map snd (filter (\<lambda>row. P (fst row)) m)) + (if P k then v - counter m k else 0)"
  by (induction m) (auto simp: counter_def split: option.splits)

lemma sum_update: "sum_list (map snd (AList.update k v m)) = sum_list (map snd m) + v - counter m k"
  using sum_filter_update [of "\<lambda>_. True" k v m] by simp

lemma sum_others:
  "distinct (map fst m) \<Longrightarrow>
     sum_list (map snd (filter (\<lambda>row. fst row \<noteq> k) m)) = sum_list (map snd m) - counter m k"
proof (induction m)
  case (Cons row m)
  have "k \<notin> fst ` set m \<Longrightarrow> filter (\<lambda>row. fst row \<noteq> k) m = m" by (auto simp: filter_id_conv)
  with Cons show ?case by (cases row) (auto simp: counter_def map_of_eq_None_iff split: option.splits)
qed (simp add: counter_def)

lemma sum_consumed:
  "distinct (map fst m) \<Longrightarrow>
     sum_list (map snd (map (\<lambda>(k, n). if k = i then (k, max (n - 1) 0) else (k, n)) m)) =
     sum_list (map snd m) - counter m i + (if map_of m i = None then 0 else max (counter m i - 1) 0)"
proof (induction m)
  case (Cons row m)
  obtain k n where row: "row = (k, n)" by (cases row)
  have same: "map (\<lambda>(k, n). if k = i then (k, max (n - 1) 0) else (k, n)) m = m" if "i \<notin> fst ` set m"
    using that by (intro map_idI) (auto simp: image_iff split: prod.splits)
  show ?case
  proof (cases "k = i")
    case True
    with Cons.prems have "i \<notin> fst ` set m" by (auto simp: row)
    with True show ?thesis by (simp add: row same counter_def)
  next
    case False
    with Cons show ?thesis by (simp add: row counter_def)
  qed
qed (simp add: counter_def)

lemma sum_nonneg: "\<forall>n \<in> snd ` set m. 0 \<le> n \<Longrightarrow> 0 \<le> sum_list (map snd m)" for m :: "('k \<times> int) list"
  by (intro sum_list_nonneg) auto

lemma counter_nonneg: "\<forall>n \<in> snd ` set m. 0 \<le> n \<Longrightarrow> 0 \<le> counter m k"
  by (auto simp: counter_def split: option.splits dest!: map_of_SomeD)

subsection \<open>Lemmas: the instance ceiling\<close>

definition budgets_wf :: "database \<Rightarrow> bool" where
  "budgets_wf db \<longleftrightarrow>
     (\<forall>n \<in> snd ` set (tb_Usage db). 0 \<le> n) \<and> (\<forall>n \<in> snd ` set (tb_Planning db). 0 \<le> n) \<and>
     distinct (map fst (tb_Planning db)) \<and> [] \<notin> fst ` set (tb_Planning db)"

definition planned :: "database \<Rightarrow> int" where
  "planned db = sum_list (map snd (tb_Planning db))"

definition ceiling_ok :: "string \<Rightarrow> database \<Rightarrow> bool" where
  "ceiling_ok day db \<longleftrightarrow>
     (let maxi = is_MaxSessionsPerDay (storedInstanceSettings db) in
      0 < maxi \<longrightarrow> instanceSessionsOn db day + planned db \<le> uint maxi)"

lemma instanceSessionsOn_nonneg: "budgets_wf db \<Longrightarrow> 0 \<le> instanceSessionsOn db day"
  by (auto simp: budgets_wf_def instanceSessionsOn_def intro!: sum_list_nonneg)

lemma planned_nonneg: "budgets_wf db \<Longrightarrow> 0 \<le> planned db"
  by (simp add: budgets_wf_def planned_def sum_nonneg)

text \<open>The number of sessions committed to cycles other than one's own.\<close>

definition committed_others :: "database \<Rightarrow> string \<Rightarrow> int" where
  "committed_others db own = planned db - counter (tb_Planning db) own"

lemma no_empty_counter: "budgets_wf db \<Longrightarrow> counter (tb_Planning db) [] = 0"
proof -
  assume "budgets_wf db"
  then have "map_of (tb_Planning db) [] = None" by (simp add: budgets_wf_def map_of_eq_None_iff)
  then show ?thesis by (simp add: counter_def)
qed

lemma committed_others_bounds:
  assumes "budgets_wf db"
  shows "0 \<le> committed_others db own" "committed_others db own \<le> planned db"
proof -
  have sum: "sum_list (map snd (filter (\<lambda>row. fst row \<noteq> own) (tb_Planning db))) = committed_others db own"
    using assms by (simp add: budgets_wf_def committed_others_def planned_def sum_others)
  have "0 \<le> sum_list (map snd (filter (\<lambda>row. fst row \<noteq> own) (tb_Planning db)))"
    using assms by (intro sum_list_nonneg) (auto simp: budgets_wf_def)
  with sum show "0 \<le> committed_others db own" by simp
  show "committed_others db own \<le> planned db"
    using assms counter_nonneg [of "tb_Planning db" own] by (simp add: committed_others_def budgets_wf_def)
qed

lemma planningCommitments_int:
  assumes "budgets_wf db" and "planned db < 2 ^ 64"
  shows "uint (planningCommitments db own) = committed_others db own"
proof -
  have "planningCommitments db own = word_of_int (committed_others db own)"
    using assms by (simp add: budgets_wf_def planningCommitments_def committed_others_def planned_def sum_others)
  moreover have "0 \<le> committed_others db own" "committed_others db own < 2 ^ 64"
    using committed_others_bounds [OF assms(1), of own] assms(2) by simp_all
  ultimately show ?thesis by (simp add: uint_word_of_int)
qed

lemma uint_small: "0 \<le> n \<Longrightarrow> n < 2 ^ 64 \<Longrightarrow> uint (word_of_int n :: u64) = n"
  by (simp add: uint_word_of_int)

lemma uint_diff_le: "b \<le> a \<Longrightarrow> uint (a - b) = uint a - uint (b :: u64)"
  by (simp add: uint_minus_simple_alt)

text \<open>An admission that passes the ceiling check leaves room for everything promised to others.\<close>

lemma not_instance_full:
  assumes "\<not> instance_full db day own" and "budgets_wf db" and "ceiling_ok day db"
    and "0 < is_MaxSessionsPerDay (storedInstanceSettings db)"
  shows "instanceSessionsOn db day + committed_others db own < uint (is_MaxSessionsPerDay (storedInstanceSettings db))"
proof -
  define m where "m = is_MaxSessionsPerDay (storedInstanceSettings db)"
  define total where "total = instanceSessionsOn db day"
  have bounds: "total + planned db \<le> uint m" "0 \<le> total" "0 \<le> planned db"
    using assms instanceSessionsOn_nonneg [OF assms(2)] planned_nonneg [OF assms(2)]
    by (simp_all add: ceiling_ok_def m_def total_def)
  have small: "total < 2 ^ 64" "planned db < 2 ^ 64"
    using bounds uint_bounded [of m] by simp_all
  have lt: "word_of_int total < m" and c: "planningCommitments db own < m - word_of_int total"
    using assms(1,4) by (auto simp: instance_full_def Let_def m_def total_def not_le)
  have "committed_others db own < uint (m - word_of_int total)"
    using c planningCommitments_int [OF assms(2) small(2), of own] by (simp add: word_less_def)
  also have "uint (m - word_of_int total) = uint m - total"
    using lt uint_small [OF bounds(2) small(1)] by (simp add: uint_diff_le)
  finally show ?thesis by (simp add: m_def total_def)
qed

lemma count_session_Inr:
  assumes "count_session key limit db = Inr db'" and "0 < limit"
  shows "db' = db\<lparr>tb_Usage := AList.update key (counter (tb_Usage db) key + 1) (tb_Usage db)\<rparr>"
    "counter (tb_Usage db) key + 1 \<le> limit"
  using assms by (auto simp: count_session_def counter_def split: option.splits if_splits)

lemma int64_limit_pos: "0 < limit \<Longrightarrow> 0 < int64_limit limit"
  by (simp add: int64_limit_def word_less_def)

lemma int64_limit_le: "int64_limit limit \<le> uint limit"
  by (auto simp: int64_limit_def)

text \<open>What a successful reservation did.\<close>

definition reserved_key :: "env \<Rightarrow> handle \<Rightarrow> string \<Rightarrow> database \<Rightarrow> string \<times> string" where
  "reserved_key env h day db = (usageRepo env h (storedConfig db (store_ConfigKey h)), day)"

lemma txReserveSession_Inr:
  assumes "txReserveSession env h day measured a db = Inr (u, db')"
  shows "tb_Usage db' = AList.update (reserved_key env h day db)
           (counter (tb_Usage db) (reserved_key env h day db) + 1) (tb_Usage db)"
    "counter (tb_Usage db) (reserved_key env h day db) + 1
       \<le> uint (c_MaxSessionsPerDay (storedConfig db (store_ConfigKey h)))"
    "measured < c_MaxWorkspaceBytes (storedConfig db (store_ConfigKey h))"
    "\<not> instance_full db day (if ad_TaskID a = None then ad_CycleID a else [])"
    "tb_Planning db' = (if ad_TaskID a = None then tb_Planning (consume_planning (ad_CycleID a) db) else tb_Planning db)"
    "tb_Instance db' = tb_Instance db" "map_of (tb_Admissions db') (ad_ID a) \<noteq> None"
proof -
  define cfg where "cfg = storedConfig db (store_ConfigKey h)"
  obtain d1 where d1: "count_session (usageRepo env h cfg, day) (int64_limit (c_MaxSessionsPerDay cfg)) db = Inr d1"
    and lim: "c_MaxSessionsPerDay cfg \<noteq> 0" and m: "measured < c_MaxWorkspaceBytes cfg"
    and full: "\<not> instance_full db day (if ad_TaskID a = None then ad_CycleID a else [])"
    and u: "tb_Usage db' = tb_Usage d1" "tb_Instance db' = tb_Instance d1"
    and p: "tb_Planning db' = (if ad_TaskID a = None then tb_Planning (consume_planning (ad_CycleID a) d1) else tb_Planning d1)"
    and ad: "map_of (tb_Admissions db') (ad_ID a) \<noteq> None"
    using assms
    by (auto simp: txReserveSession_def Let_def cfg_def rbind_Inr_iff not_le consume_planning_def split: if_splits)
  note c = count_session_Inr [OF d1 int64_limit_pos]
  have pos: "0 < c_MaxSessionsPerDay cfg" using lim by (simp add: word_neq_0_conv)
  from c(1) [OF pos] have d1_eq: "d1 = db\<lparr>tb_Usage := AList.update (usageRepo env h cfg, day)
      (counter (tb_Usage db) (usageRepo env h cfg, day) + 1) (tb_Usage db)\<rparr>" .
  show "tb_Usage db' = AList.update (reserved_key env h day db)
           (counter (tb_Usage db) (reserved_key env h day db) + 1) (tb_Usage db)"
    by (simp add: u d1_eq reserved_key_def cfg_def)
  show "counter (tb_Usage db) (reserved_key env h day db) + 1
       \<le> uint (c_MaxSessionsPerDay (storedConfig db (store_ConfigKey h)))"
    using c(2) [OF pos] int64_limit_le [of "c_MaxSessionsPerDay cfg"] by (simp add: reserved_key_def cfg_def)
  show "measured < c_MaxWorkspaceBytes (storedConfig db (store_ConfigKey h))" using m by (simp add: cfg_def)
  show "\<not> instance_full db day (if ad_TaskID a = None then ad_CycleID a else [])" by (rule full)
  show "tb_Planning db' = (if ad_TaskID a = None then tb_Planning (consume_planning (ad_CycleID a) db) else tb_Planning db)"
    by (simp add: p d1_eq consume_planning_def)
  show "tb_Instance db' = tb_Instance db" by (simp add: u d1_eq)
  show "map_of (tb_Admissions db') (ad_ID a) \<noteq> None" by (rule ad)
qed

lemma consume_keys: "map fst (map (\<lambda>(k, n). if k = i then (k, max (n - 1) (0::int)) else (k, n)) m) = map fst m"
  by (induction m) auto

lemma consume_nonneg:
  "\<forall>n \<in> snd ` set m. 0 \<le> n \<Longrightarrow>
     \<forall>n \<in> snd ` set (map (\<lambda>(k, n). if k = i then (k, max (n - 1) (0::int)) else (k, n)) m). 0 \<le> n"
  by (auto split: if_splits)

lemma update_nonneg: "\<forall>n \<in> snd ` set m. 0 \<le> n \<Longrightarrow> 0 \<le> v \<Longrightarrow> \<forall>n \<in> snd ` set (AList.update k v m). (0::int) \<le> n"
  by (induction m) auto

lemma reserve_wf:
  assumes "txReserveSession env h day measured a db = Inr (u, db')" and "budgets_wf db"
  shows "budgets_wf db'"
proof -
  note r = txReserveSession_Inr [OF assms(1)]
  have "0 \<le> counter (tb_Usage db) (reserved_key env h day db)"
    using assms(2) counter_nonneg [of "tb_Usage db"] by (simp add: budgets_wf_def)
  with assms(2) have usage: "\<forall>n \<in> snd ` set (tb_Usage db'). 0 \<le> n"
    unfolding r(1) by (intro update_nonneg) (simp_all add: budgets_wf_def)
  have keys: "map fst (tb_Planning db') = map fst (tb_Planning db)"
    by (simp add: r(5) consume_planning_def consume_keys [unfolded map_map])
  from arg_cong [OF keys, of set] have dom: "fst ` set (tb_Planning db') = fst ` set (tb_Planning db)" by simp
  have old: "\<forall>n \<in> snd ` set (tb_Planning db). 0 \<le> n" using assms(2) by (simp add: budgets_wf_def)
  have c: "tb_Planning (consume_planning i db) =
      map (\<lambda>(k, n). if k = i then (k, max (n - 1) 0) else (k, n)) (tb_Planning db)" for i
    by (simp add: consume_planning_def)
  have "\<forall>n \<in> snd ` set (tb_Planning db'). 0 \<le> n"
    using old consume_nonneg [OF old, of "ad_CycleID a"] unfolding r(5) c by presburger
  with usage show ?thesis using assms(2) by (simp add: budgets_wf_def keys dom)
qed

lemma reserve_planned:
  assumes "txReserveSession env h day measured a db = Inr (u, db')" and "budgets_wf db"
  shows "planned db' \<le> planned db"
    and "planned db' \<le> committed_others db (if ad_TaskID a = None then ad_CycleID a else []) \<or>
      planned db' + 1 \<le> planned db"
proof -
  note r = txReserveSession_Inr [OF assms(1)]
  have wf: "distinct (map fst (tb_Planning db))" "0 \<le> counter (tb_Planning db) (ad_CycleID a)"
    "counter (tb_Planning db) [] = 0"
    using assms(2) counter_nonneg [of "tb_Planning db"] no_empty_counter [OF assms(2)]
    by (simp_all add: budgets_wf_def)
  have sum: "planned db' = (if ad_TaskID a = None
      then planned db - counter (tb_Planning db) (ad_CycleID a) +
        (if map_of (tb_Planning db) (ad_CycleID a) = None then 0 else max (counter (tb_Planning db) (ad_CycleID a) - 1) 0)
      else planned db)"
    using sum_consumed [OF wf(1), of "ad_CycleID a"] by (simp add: planned_def r(5) consume_planning_def)
  show "planned db' \<le> planned db" using wf(2) by (simp add: sum)
  show "planned db' \<le> committed_others db (if ad_TaskID a = None then ad_CycleID a else []) \<or>
      planned db' + 1 \<le> planned db"
    using wf(2,3) by (auto simp: sum committed_others_def)
qed

lemma reserve_ceiling:
  assumes t: "txReserveSession env h day measured a db = Inr (u, db')" and wf: "budgets_wf db"
    and ok: "ceiling_ok day db" "ceiling_ok day' db"
  shows "ceiling_ok day' db'"
proof -
  note r = txReserveSession_Inr [OF t] and p = reserve_planned [OF t wf]
  define m where "m = is_MaxSessionsPerDay (storedInstanceSettings db)"
  have m': "is_MaxSessionsPerDay (storedInstanceSettings db') = m"
    by (simp add: m_def storedInstanceSettings_def r(6))
  have total: "instanceSessionsOn db' day' = instanceSessionsOn db day' + (if day' = day then 1 else 0)"
    using sum_filter_update [of "\<lambda>key. snd key = day'" "reserved_key env h day db"
        "counter (tb_Usage db) (reserved_key env h day db) + 1" "tb_Usage db"]
    by (simp add: instanceSessionsOn_def r(1)) (simp add: reserved_key_def)
  have "instanceSessionsOn db' day' + planned db' \<le> uint m" if "0 < m"
    using not_instance_full [OF r(4) wf ok(1)] p ok that
    by (auto simp: total ceiling_ok_def m_def split: if_splits)
  then show ?thesis by (simp add: ceiling_ok_def m')
qed

lemma Capacity_Available_iff: "Capacity_Available c \<longleftrightarrow> pc_Status c = CapacityReady"
  by (simp add: Capacity_Available_def)

lemma capacity_status:
  "pc_Status (planningCapacityAt env h day reset db) =
     (let cap = planningCapacityAt env h day reset db in
      if pc_Limit cap < pc_Required cap then CapacityTooLow
      else if pc_Remaining cap < pc_Required cap then CapacityExhausted else CapacityReady)"
  unfolding planningCapacityAt_def Let_def planning_capacity.simps by (rule refl)

lemma capacity_ready_ceiling:
  assumes "Capacity_Available (planningCapacityAt env h day reset db)" and wf: "budgets_wf db" and ok: "ceiling_ok day db"
    and pos: "0 < is_MaxSessionsPerDay (storedInstanceSettings db)"
  shows "instanceSessionsOn db day + planned db + uint (pc_Required (planningCapacityAt env h day reset db))
      \<le> uint (is_MaxSessionsPerDay (storedInstanceSettings db))"
proof -
  define m where "m = is_MaxSessionsPerDay (storedInstanceSettings db)"
  define total where "total = instanceSessionsOn db day"
  define req where "req = pc_Required (planningCapacityAt env h day reset db)"
  define room where "room = (if word_of_int total < m then m - word_of_int total else 0)"
  have b: "total + planned db \<le> uint m" "0 \<le> total" "0 \<le> planned db"
    using assms instanceSessionsOn_nonneg [OF wf] planned_nonneg [OF wf]
    by (simp_all add: ceiling_ok_def m_def total_def)
  have small: "total < 2 ^ 64" "planned db < 2 ^ 64" using b uint_bounded [of m] by simp_all
  have others: "committed_others db [] = planned db"
    using no_empty_counter [OF wf] by (simp add: committed_others_def)
  have c: "uint (planningCommitments db []) = planned db"
    using planningCommitments_int [OF wf small(2), of "[]"] others by simp
  have roomv: "uint room = uint m - total"
  proof (cases "word_of_int total < m")
    case True
    then show ?thesis using uint_small [OF b(2) small(1)] by (simp add: room_def uint_diff_le)
  next
    case False
    then have "uint m \<le> total" using uint_small [OF b(2) small(1)] by (simp add: word_less_def not_less)
    with b False show ?thesis by (simp add: room_def)
  qed
  have le: "planningCommitments db [] \<le> room"
    using b c roomv by (simp add: word_le_def)
  have "req \<le> pc_Remaining (planningCapacityAt env h day reset db)"
    using assms(1) by (auto simp: Capacity_Available_iff capacity_status Let_def req_def not_less split: if_splits)
  also have "pc_Remaining (planningCapacityAt env h day reset db) \<le> instance_room db day"
    using pos by (simp add: planningCapacityAt_def Let_def not_less)
  also have "instance_room db day = room - min room (planningCommitments db [])"
    using b(2) by (simp add: instance_room_def Let_def room_def m_def total_def)
  also have "min room (planningCommitments db []) = planningCommitments db []"
    using le by (rule min_absorb2)
  finally have "req \<le> room - planningCommitments db []" .
  then have "uint req \<le> uint room - uint (planningCommitments db [])"
    by (simp add: word_le_def uint_diff_le [OF le])
  then show ?thesis by (simp add: roomv c req_def m_def total_def)
qed

lemma delete_planned:
  assumes "budgets_wf db"
  shows "sum_list (map snd (AList.delete i (tb_Planning db))) \<le> planned db"
proof -
  have "AList.delete i (tb_Planning db) = filter (\<lambda>row. fst row \<noteq> i) (tb_Planning db)"
    by (auto simp: AList.delete_eq intro: filter_cong)
  then show ?thesis
    using assms sum_others [of "tb_Planning db" i] counter_nonneg [of "tb_Planning db" i]
    by (simp add: budgets_wf_def planned_def)
qed

lemma begin_ceiling:
  assumes t: "txBeginCycle fp env h cycle ct expected fingerprint day reset db = Inr (u, db')"
    and wf: "budgets_wf db" and ok: "ceiling_ok day db" and i: "cy_ID cycle \<noteq> []"
  shows "budgets_wf db'" "ceiling_ok day db'" "map_of (tb_Planning db') (cy_ID cycle) =
      Some (uint (PlanningCost (storedConfig db (store_ConfigKey h))))"
proof -
  define cap where "cap = planningCapacityAt env h day reset db"
  define d1 where "d1 = put_cycle (cy_ID cycle) cycle db"
  have av: "Capacity_Available cap" and new: "map_of (tb_Planning d1) (cy_ID cycle) = None"
    and p': "tb_Planning db' = AList.update (cy_ID cycle) (uint (pc_Required cap)) (tb_Planning d1)"
    and u': "tb_Usage db' = tb_Usage db" "tb_Instance db' = tb_Instance db"
    using t by (auto simp: txBeginCycle_def Let_def cap_def d1_def put_control_def put_cycle_def split: if_splits)
  have p1: "tb_Planning d1 = tb_Planning db \<or> tb_Planning d1 = AList.delete (cy_ID cycle) (tb_Planning db)"
    by (simp add: d1_def put_cycle_def)
  have sub: "set (tb_Planning d1) \<subseteq> set (tb_Planning db)"
    using p1 by (auto simp: AList.delete_eq)
  have d1_wf: "distinct (map fst (tb_Planning d1))" "planned d1 \<le> planned db"
    using p1 wf delete_planned [of db "cy_ID cycle"] by (auto simp: budgets_wf_def planned_def distinct_delete)
  have nonneg: "\<forall>n \<in> snd ` set (tb_Planning d1). 0 \<le> n" and none: "[] \<notin> fst ` set (tb_Planning d1)"
    using wf sub by (auto simp: budgets_wf_def)
  have "\<forall>n \<in> snd ` set (tb_Planning db'). 0 \<le> n" unfolding p' by (rule update_nonneg [OF nonneg]) simp
  moreover have "distinct (map fst (tb_Planning db'))" unfolding p' by (rule distinct_update [OF d1_wf(1)])
  moreover have "[] \<notin> fst ` set (tb_Planning db')" using i none by (simp add: p' keys_update)
  ultimately show "budgets_wf db'" using wf by (simp add: budgets_wf_def u'(1))
  have "planned db' = planned d1 + uint (pc_Required cap)"
    using new by (simp add: planned_def p' sum_update counter_def)
  moreover have "instanceSessionsOn db' day = instanceSessionsOn db day"
    by (simp add: instanceSessionsOn_def u')
  moreover have "storedInstanceSettings db' = storedInstanceSettings db"
    by (simp add: storedInstanceSettings_def u')
  ultimately show "ceiling_ok day db'"
    using capacity_ready_ceiling [OF av [unfolded cap_def] wf ok] d1_wf(2)
    by (auto simp: ceiling_ok_def Let_def cap_def)
  show "map_of (tb_Planning db') (cy_ID cycle) = Some (uint (PlanningCost (storedConfig db (store_ConfigKey h))))"
    by (simp add: p' cap_def planningCapacityAt_def Let_def)
qed

subsection \<open>Lemmas: enrolment in a batch\<close>

context task_table_invariant
begin

lemma enroll_fold:
  assumes "distinct (map fst xs)" and "\<forall>(i, t) \<in> set xs. map_of (tb_Tasks db) i = Some t \<and> t_ID t = i"
    and "Inv (tb_Tasks db)"
  shows "Inv (tb_Tasks (fold (enroll_task run repository) xs db))"
  using assms
proof (induction xs arbitrary: db)
  case (Cons x xs)
  obtain i t where x: "x = (i, t)" by (cases x)
  define db1 where "db1 = enroll_task run repository x db"
  have t: "map_of (tb_Tasks db) i = Some t" "t_ID t = i" using Cons.prems(2) by (auto simp: x)
  have "Inv (tb_Tasks db1)"
    using step [OF Cons.prems(3) t, of False "t\<lparr>t_RunID := Some run\<rparr>"] Cons.prems(3)
    by (auto simp: db1_def enroll_task_def x enrolled_def intro: task_step.enroll)
  moreover have "map_of (tb_Tasks db1) j = map_of (tb_Tasks db) j" if "j \<noteq> i" for j
    using that by (simp add: db1_def enroll_task_def x)
  moreover have "j \<noteq> i" if "(j, u) \<in> set xs" for j u
    using Cons.prems(1) that by (auto simp: x image_iff)
  ultimately have "Inv (tb_Tasks db1)" "\<forall>(j, u) \<in> set xs. map_of (tb_Tasks db1) j = Some u \<and> t_ID u = j"
    using Cons.prems(2) by auto
  then have "Inv (tb_Tasks (fold (enroll_task run repository) xs db1))"
    using Cons.prems(1) by (intro Cons.IH) simp_all
  then show ?case by (simp add: db1_def)
qed simp

lemma StartBatch_inv:
  assumes "Inv (tb_Tasks db)" and "tasks_ok (tb_Tasks db)"
  shows "Inv (tb_Tasks (snd (snd (StartBatch env h ct day reset db))))"
proof -
  have "\<forall>(i, t) \<in> set (tb_Tasks db). map_of (tb_Tasks db) i = Some t \<and> t_ID t = i"
    using assms(2) by (auto simp: tasks_ok_def)
  then have *: "Inv (tb_Tasks (snd (txStartBatch env key repository ct db)))" for key repository
    using enroll_fold assms by (auto simp: txStartBatch_def Let_def tasks_ok_def)
  have "Inv (tb_Tasks db')"
    if "(if liveControl db (store_ControlKey h) \<noteq> ct \<or> \<not> Capacity_Available (planningCapacityAt env h day reset db)
         then Inl ErrRollback else Inr (txStartBatch env (store_ControlKey h) (h_Repo h) ct db)) = Inr (a, db')" for a db'
    using that * [of "store_ControlKey h" "h_Repo h"] by (simp split: if_splits)
  then show ?thesis
    unfolding StartBatch_def snd_conv by (rule conditional_inv [OF _ assms(1)])
qed

end

subsection \<open>Properties\<close>

text \<open>No sequence of admissions exceeds a repository's daily session limit. A reservation that succeeds
  counts exactly one session, for its own repository and day, and the new count is within the configured
  limit; the measured workspace is below the storage limit; and a refused reservation changes nothing.\<close>

lemma reserve_session_within_limit:
  assumes "utc_day (ad_At a) = Some day" and "ReserveSession utc_day env h measured a db = (r, db')"
  shows "case r of
      Inl _ \<Rightarrow> db' = db
    | Inr _ \<Rightarrow>
        counter (tb_Usage db') (reserved_key env h day db) = counter (tb_Usage db) (reserved_key env h day db) + 1 \<and>
        counter (tb_Usage db') (reserved_key env h day db)
          \<le> uint (c_MaxSessionsPerDay (storedConfig db (store_ConfigKey h))) \<and>
        (\<forall>k. k \<noteq> reserved_key env h day db \<longrightarrow> counter (tb_Usage db') k = counter (tb_Usage db) k) \<and>
        measured < c_MaxWorkspaceBytes (storedConfig db (store_ConfigKey h)) \<and>
        map_of (tb_Admissions db') (ad_ID a) \<noteq> None"
proof (cases rule: runTx_cases [of "txReserveSession env h day measured a" db])
  case (1 e)
  with assms have "r = Inl e" "db' = db" by (simp_all add: ReserveSession_def)
  then show ?thesis by simp
next
  case (2 u d)
  note r = txReserveSession_Inr [OF 2(1)]
  have "r = Inr u" "db' = d" using assms 2 by (simp_all add: ReserveSession_def)
  with r show ?thesis by (simp add: counter_def)
qed

definition sample_admission :: admission where
  "sample_admission = \<lparr>ad_ID = ''a1'', ad_At = ''2025-01-02T00:00:00Z'', ad_CycleID = ''c1'', ad_TaskID = None,
     ad_Role = ''discovery'', ad_Route = sample_route, ad_Repository = ''octo/app''\<rparr>"

lemma sample_reserved:
  "fst (ReserveSession (\<lambda>_. Some ''2025-01-02'') sample_env root_handle 10 sample_admission empty_db) = Inr ()"
  by (simp add: ReserveSession_def runTx_def txReserveSession_def Let_def empty_db_def storedConfig_def
      Default_def instance_full_def storedInstanceSettings_def count_session_def sample_admission_def consume_planning_def)

lemma reserve_session_within_limit_witness:
  "counter (tb_Usage (snd (ReserveSession (\<lambda>_. Some ''2025-01-02'') sample_env root_handle 10 sample_admission empty_db)))
     (reserved_key sample_env root_handle ''2025-01-02'' empty_db) = 1"
proof -
  define out where "out = ReserveSession (\<lambda>_. Some ''2025-01-02'') sample_env root_handle 10 sample_admission empty_db"
  have "out = (Inr (), snd out)" using sample_reserved by (simp add: out_def prod_eq_iff)
  from reserve_session_within_limit [OF _ this [unfolded out_def], of "''2025-01-02''"]
  show ?thesis by (simp add: out_def counter_def empty_db_def)
qed



end
