(* ===== verification/Store_Capacity.thy ===== *)
theory Store_Capacity
  imports Store_Tasks
begin

text \<open>
  Pull-request capacity, \<open>internal/store/capacity.go\<close>: reservations of pull-request slots, their union
  with the observed open pull requests, admission of a task that will open a new pull request, and
  persisting an observed inventory. Parsing an RFC 3339 time to a comparable instant is a parameter.

  The lemmas show that admission never takes the open and promised pull requests over the configured
  limit, that it is atomic, and that a slot is given back only when the task can no longer push or its
  pull request is settled.
\<close>

subsection \<open>Reservations\<close>

definition reservationRows :: "env \<Rightarrow> database \<Rightarrow> string \<Rightarrow> pr_reservation list" where
  "reservationRows env db repository =
     filter (\<lambda>r. res_Repository r = to_lower (env_Unicode env) repository) (map snd (tb_Reservations db))"

definition insertReservation :: "string \<Rightarrow> string \<Rightarrow> string \<Rightarrow> string \<Rightarrow> bool \<Rightarrow> database \<Rightarrow>
    (store_error, database) result" where
  "insertReservation taskID repository branch admittedAt orIgnore db =
     (if map_of (tb_Reservations db) taskID \<noteq> None then (if orIgnore then Inr db else Inl UniqueConstraint)
      else Inr (db\<lparr>tb_Reservations := AList.update taskID
             \<lparr>res_TaskID = taskID, res_Repository = repository, res_Branch = branch, res_AdmittedAt = admittedAt\<rparr>
             (tb_Reservations db)\<rparr>))"

definition releaseReservation :: "string \<Rightarrow> database \<Rightarrow> database" where
  "releaseReservation taskID db = db\<lparr>tb_Reservations := AList.delete taskID (tb_Reservations db)\<rparr>"

definition store_OpenPRInventory :: "handle \<Rightarrow> database \<Rightarrow> open_pr_inventory option" where
  "store_OpenPRInventory h db = map_of (tb_Inventories db) (store_prInventoryKey h)"

definition PRUnion :: "open_pr_inventory \<Rightarrow> pr_reservation list \<Rightarrow> u64 \<Rightarrow> u64 \<times> u64 \<times> u64" where
  "PRUnion inventory reservations limit =
     (let observed = of_nat (length (remdups (map pr_Number (filter OwnedOpen (inv_PRs inventory)))));
          unrepresented = of_nat (length (filter (\<lambda>r. res_Branch r \<notin> set (OwnedBranches inventory)) reservations));
          remaining = (if observed + unrepresented < limit then limit - observed - unrepresented else 0)
      in (observed, unrepresented, remaining))"

definition HasPRReservation :: "string \<Rightarrow> database \<Rightarrow> bool" where
  "HasPRReservation taskID db \<longleftrightarrow> map_of (tb_Reservations db) taskID \<noteq> None"

definition ReservableTasks :: "handle \<Rightarrow> database \<Rightarrow> task list" where
  "ReservableTasks h db =
     filter (\<lambda>t. (h_Repo h = [] \<or> EqualASCII (c_GitHubRepo (t_Config t)) (h_Repo h)) \<and>
         (t_Status t \<in> set ActiveStatuses \<or> t_Status t \<noteq> StatusPublished \<and> t_OutputCommit t \<noteq> None))
       (map snd (tb_Tasks db))"

definition SeedPRReservation :: "env \<Rightarrow> task \<Rightarrow> database \<Rightarrow> (store_error, database) result" where
  "SeedPRReservation env t db =
     insertReservation (t_ID t) (to_lower (env_Unicode env) (c_GitHubRepo (t_Config t))) (t_Branch t) (env_Now env) True db"

subsection \<open>Admission\<close>

definition admit_next :: "env \<Rightarrow> task \<Rightarrow> task" where
  "admit_next env t = t\<lparr>t_Status := StatusExecuting, t_UpdatedAt := env_Now env\<rparr>"

definition txAdmitNewPRTask :: "env \<Rightarrow> handle \<Rightarrow> task \<Rightarrow> open_pr_inventory \<Rightarrow> database \<Rightarrow>
    (store_error, task \<times> database) result" where
  "txAdmitNewPRTask env h t inventory db =
     (let cfg = storedConfig db (store_ConfigKey h) in
      if \<not> EqualASCII (inv_Repository inventory) (c_GitHubRepo cfg) then Inl ErrRollback
      else if store_OpenPRInventory h db \<noteq> Some inventory then Inl ErrRollback
      else if p_Target (t_Proposal t) \<noteq> c_DefaultBranch (t_Config t) \<or> \<not> SamePRPolicy (t_Config t) cfg then Inl ErrRollback
      else case map_of (tb_Tasks db) (t_ID t) of
        None \<Rightarrow> Inl ErrRollback
      | Some canonical \<Rightarrow>
          if t_Status canonical \<noteq> StatusQueued \<or> canonical \<noteq> t then Inl ErrRollback
          else case PRUnion inventory (reservationRows env db (c_GitHubRepo cfg)) (c_MaxOpenPRs cfg) of
            (_, _, remaining) \<Rightarrow>
              if remaining = 0 then Inl ErrRollback
              else rbind (commit_db canonical (admit_next env t) TaskAdmission db) (\<lambda>db.
                   rbind (insertReservation (t_ID t) (to_lower (env_Unicode env) (c_GitHubRepo cfg)) (t_Branch t)
                      (env_Now env) False db) (\<lambda>db.
                   Inr (admit_next env t,
                     txRepositoryEvent env (h_Repo h) (t_ID t) EventStatus ''Executing'' db))))"

definition AdmitNewPRTask :: "env \<Rightarrow> handle \<Rightarrow> task \<Rightarrow> open_pr_inventory \<Rightarrow> database \<Rightarrow>
    (store_error, task option) result \<times> database" where
  "AdmitNewPRTask env h t inventory db = conditional db (txAdmitNewPRTask env h t inventory)"

subsection \<open>Persisting an inventory\<close>

definition release_confirmed :: "task option \<Rightarrow> bool" where
  "release_confirmed found =
     (case found of None \<Rightarrow> False
      | Some t \<Rightarrow> t_OutputCommit t \<noteq> None \<and> (t_Status t = StatusPublished \<or> t_Status t = StatusCancelled))"

definition settle_reservation :: "string list \<Rightarrow> string list \<Rightarrow> pr_reservation \<Rightarrow> database \<Rightarrow> database" where
  "settle_reservation released represented r db =
     (let found = map_of (tb_Tasks db) (res_TaskID r) in
      if res_TaskID r \<in> set released \<and> release_confirmed found then releaseReservation (res_TaskID r) db
      else if res_Branch r \<in> set represented \<and> map_option t_Status found = Some StatusPublished
      then releaseReservation (res_TaskID r) db
      else db)"

definition txPersistPRInventory :: "(string \<Rightarrow> int option) \<Rightarrow> env \<Rightarrow> handle \<Rightarrow> open_pr_inventory \<Rightarrow> string list \<Rightarrow>
    database \<Rightarrow> (store_error, unit \<times> database) result" where
  "txPersistPRInventory parse env h inventory released db =
     (let cfg = storedConfig db (store_ConfigKey h);
          store_it = (\<lambda>db.
            let db = db\<lparr>tb_Inventories := AList.update (store_prInventoryKey h) inventory (tb_Inventories db)\<rparr>
            in Inr ((), fold (settle_reservation released (OwnedBranches inventory))
                          (reservationRows env db (c_GitHubRepo cfg)) db))
      in if \<not> EqualASCII (inv_Repository inventory) (c_GitHubRepo cfg) then Inl ErrRollback
      else case store_OpenPRInventory h db of
        None \<Rightarrow> store_it db
      | Some existing \<Rightarrow>
          if EqualASCII (inv_Repository existing) (inv_Repository inventory) then
            (case parse (inv_ObservedAt existing) of
               None \<Rightarrow> Inl SavedTimestampInvalid
             | Some previous \<Rightarrow>
                 (case parse (inv_ObservedAt inventory) of
                    None \<Rightarrow> Inl TimestampInvalid
                  | Some candidate \<Rightarrow> if candidate < previous then Inl ErrRollback else store_it db))
          else store_it db)"

definition PersistPRInventory :: "(string \<Rightarrow> int option) \<Rightarrow> env \<Rightarrow> handle \<Rightarrow> open_pr_inventory \<Rightarrow> string list \<Rightarrow>
    database \<Rightarrow> (store_error, unit option) result \<times> database" where
  "PersistPRInventory parse env h inventory released db =
     conditional db (txPersistPRInventory parse env h inventory released)"


subsection \<open>Lemmas: the limit\<close>

definition open_numbers :: "open_pr_inventory \<Rightarrow> nat" where
  "open_numbers inventory = card (pr_Number ` {p \<in> set (inv_PRs inventory). OwnedOpen p})"

definition promised :: "open_pr_inventory \<Rightarrow> pr_reservation list \<Rightarrow> nat" where
  "promised inventory rs = length (filter (\<lambda>r. res_Branch r \<notin> set (OwnedBranches inventory)) rs)"

lemma PRUnion_remaining:
  assumes "PRUnion inventory rs limit = (obs, unrep, remaining)" and "remaining \<noteq> 0"
    and "open_numbers inventory + promised inventory rs < 2 ^ 64"
  shows "open_numbers inventory + promised inventory rs < unat limit"
proof -
  have obs: "obs = of_nat (open_numbers inventory)"
    using assms(1) by (auto simp: PRUnion_def Let_def open_numbers_def length_remdups_card_conv)
  have unrep: "unrep = of_nat (promised inventory rs)"
    using assms(1) by (auto simp: PRUnion_def Let_def promised_def)
  have "obs + unrep < limit"
    using assms(1,2) by (auto simp: PRUnion_def Let_def split: if_splits)
  moreover define n where "n = open_numbers inventory + promised inventory rs"
  ultimately have "(of_nat n :: u64) < limit"
    by (simp add: obs unrep)
  moreover have "n < 2 ^ 64" using assms(3) by (simp add: n_def)
  ultimately show ?thesis by (simp add: word_less_nat_alt unat_of_nat flip: n_def)
qed

lemma insertReservation_new:
  assumes "insertReservation i repo branch at False db = Inr db'"
  shows "tb_Reservations db' = tb_Reservations db @
      [(i, \<lparr>res_TaskID = i, res_Repository = repo, res_Branch = branch, res_AdmittedAt = at\<rparr>)]"
    "tb_Tasks db' = tb_Tasks db" "map_of (tb_Reservations db) i = None"
proof -
  have none: "map_of (tb_Reservations db) i = None"
    using assms by (simp add: insertReservation_def split: if_splits)
  have "AList.update i v m = m @ [(i, v)]" if "map_of m i = None" for v and m :: "(string \<times> pr_reservation) list"
    using that by (induction m) (auto split: if_splits)
  with none assms show "tb_Reservations db' = tb_Reservations db @
      [(i, \<lparr>res_TaskID = i, res_Repository = repo, res_Branch = branch, res_AdmittedAt = at\<rparr>)]"
    by (auto simp: insertReservation_def split: if_splits)
  show "tb_Tasks db' = tb_Tasks db" using assms by (auto simp: insertReservation_def split: if_splits)
  show "map_of (tb_Reservations db) i = None" by (rule none)
qed

lemma commit_reservations:
  assumes "commit_db expected nxt change db = Inr db'" and "t_Status nxt = StatusExecuting" and "change = TaskAdmission"
  shows "tb_Reservations db' = tb_Reservations db" "map_of (tb_Tasks db') (t_ID nxt) = Some nxt"
proof -
  from assms(1) obtain t where t: "txCommitTask expected nxt change db = Inr (t, db')" by (auto simp: commit_db_Inr)
  have "t = nxt" using txCommitTask_result(1) [OF t] assms(3) by simp
  with txCommitTask_Inr [OF t] have "db' = put_task (t_ID nxt) nxt db" by metis
  then show "tb_Reservations db' = tb_Reservations db" "map_of (tb_Tasks db') (t_ID nxt) = Some nxt"
    using assms(2) by (simp_all add: put_task_def)
qed

lemma txAdmit_Inr:
  assumes "txAdmitNewPRTask env h t inventory db = Inr (n, db')"
  shows "n = admit_next env t" "map_of (tb_Tasks db) (t_ID t) = Some t" "t_Status t = StatusQueued"
    "map_of (tb_Tasks db') (t_ID t) = Some n" "store_OpenPRInventory h db = Some inventory"
    "snd (snd (PRUnion inventory (reservationRows env db (c_GitHubRepo (storedConfig db (store_ConfigKey h))))
       (c_MaxOpenPRs (storedConfig db (store_ConfigKey h))))) \<noteq> 0"
    "tb_Reservations db' = tb_Reservations db @
      [(t_ID t, \<lparr>res_TaskID = t_ID t,
         res_Repository = to_lower (env_Unicode env) (c_GitHubRepo (storedConfig db (store_ConfigKey h))),
         res_Branch = t_Branch t, res_AdmittedAt = env_Now env\<rparr>)]"
proof -
  obtain d1 d2 where c: "commit_db t (admit_next env t) TaskAdmission db = Inr d1"
    and i: "insertReservation (t_ID t) (to_lower (env_Unicode env) (c_GitHubRepo (storedConfig db (store_ConfigKey h))))
        (t_Branch t) (env_Now env) False d1 = Inr d2"
    and n: "n = admit_next env t" and e: "tb_Tasks db' = tb_Tasks d2" "tb_Reservations db' = tb_Reservations d2"
    and f: "map_of (tb_Tasks db) (t_ID t) = Some t" "t_Status t = StatusQueued" "store_OpenPRInventory h db = Some inventory"
    and u: "snd (snd (PRUnion inventory (reservationRows env db (c_GitHubRepo (storedConfig db (store_ConfigKey h))))
       (c_MaxOpenPRs (storedConfig db (store_ConfigKey h))))) \<noteq> 0"
    using assms
    by (auto simp: txAdmitNewPRTask_def Let_def rbind_Inr_iff split: if_splits option.splits prod.splits)
  have st: "t_Status (admit_next env t) = StatusExecuting" "t_ID (admit_next env t) = t_ID t"
    by (simp_all add: admit_next_def)
  note k = commit_reservations [OF c st(1) refl] and r = insertReservation_new [OF i]
  show "n = admit_next env t" "map_of (tb_Tasks db) (t_ID t) = Some t" "t_Status t = StatusQueued"
    "store_OpenPRInventory h db = Some inventory" by (fact n f)+
  show "map_of (tb_Tasks db') (t_ID t) = Some n" using k(2) r(2) e st n by simp
  show "tb_Reservations db' = tb_Reservations db @
      [(t_ID t, \<lparr>res_TaskID = t_ID t,
         res_Repository = to_lower (env_Unicode env) (c_GitHubRepo (storedConfig db (store_ConfigKey h))),
         res_Branch = t_Branch t, res_AdmittedAt = env_Now env\<rparr>)]"
    using r(1) k(1) e by simp
  show "snd (snd (PRUnion inventory (reservationRows env db (c_GitHubRepo (storedConfig db (store_ConfigKey h))))
       (c_MaxOpenPRs (storedConfig db (store_ConfigKey h))))) \<noteq> 0" by (fact u)
qed

subsection \<open>Lemmas: giving a slot back\<close>

definition reservations_wf :: "database \<Rightarrow> bool" where
  "reservations_wf db \<longleftrightarrow> (\<forall>(i, r) \<in> set (tb_Reservations db). res_TaskID r = i)"

definition slot_settled :: "string list \<Rightarrow> database \<Rightarrow> string \<Rightarrow> bool" where
  "slot_settled released db i =
     (case map_of (tb_Tasks db) i of None \<Rightarrow> False
      | Some t \<Rightarrow> t_Status t = StatusPublished \<or>
          (t_Status t = StatusCancelled \<and> t_OutputCommit t \<noteq> None \<and> i \<in> set released))"

lemma settle_reservation_tasks [simp]: "tb_Tasks (settle_reservation released reps r db) = tb_Tasks db"
  by (simp add: settle_reservation_def Let_def releaseReservation_def)

lemma settle_reservation_slot:
  "HasPRReservation i db \<Longrightarrow> \<not> HasPRReservation i (settle_reservation released reps r db) \<Longrightarrow> slot_settled released db i"
  by (auto simp: HasPRReservation_def settle_reservation_def Let_def releaseReservation_def release_confirmed_def
      slot_settled_def split: if_splits option.splits)

lemma settle_fold_slot:
  "HasPRReservation i db \<Longrightarrow> \<not> HasPRReservation i (fold (settle_reservation released reps) rs db) \<Longrightarrow>
     slot_settled released db i"
proof (induction rs arbitrary: db)
  case (Cons r rs)
  show ?case
  proof (cases "HasPRReservation i (settle_reservation released reps r db)")
    case True
    from Cons.IH [OF this] Cons.prems(2) show ?thesis by (simp add: slot_settled_def)
  next
    case False
    with Cons.prems(1) show ?thesis by (rule settle_reservation_slot)
  qed
qed simp

lemma txPersist_Inr:
  assumes "txPersistPRInventory parse env h inventory released db = Inr (u, db')"
  shows "\<exists>rs. db' = fold (settle_reservation released (OwnedBranches inventory)) rs
      (db\<lparr>tb_Inventories := AList.update (store_prInventoryKey h) inventory (tb_Inventories db)\<rparr>)"
  using assms by (auto simp: txPersistPRInventory_def Let_def split: if_splits option.splits)

lemma settle_fold_tasks: "tb_Tasks (fold (settle_reservation released reps) rs db) = tb_Tasks db"
  by (induction rs arbitrary: db) simp_all

context task_table_invariant
begin

lemma AdmitNewPRTask_inv: "Inv (tb_Tasks db) \<Longrightarrow> Inv (tb_Tasks (snd (AdmitNewPRTask env h t inventory db)))"
  unfolding AdmitNewPRTask_def
proof (rule conditional_inv)
  fix a db'
  assume i: "Inv (tb_Tasks db)" and "txAdmitNewPRTask env h t inventory db = Inr (a, db')"
  then obtain c d1 where "commit_db c (admit_next env t) TaskAdmission db = Inr d1" "tb_Tasks db' = tb_Tasks d1"
    by (auto simp: txAdmitNewPRTask_def Let_def rbind_Inr_iff insertReservation_def
        split: if_splits option.splits prod.splits)
  with commit_db_inv i show "Inv (tb_Tasks db')" by metis
qed

lemma PersistPRInventory_inv:
  "Inv (tb_Tasks db) \<Longrightarrow> Inv (tb_Tasks (snd (PersistPRInventory parse env h inventory released db)))"
  unfolding PersistPRInventory_def
  by (rule conditional_inv) (auto dest!: txPersist_Inr simp: settle_fold_tasks)

end

subsection \<open>Properties\<close>


definition capacity_db :: database where
  "capacity_db = empty_db\<lparr>tb_Tasks := [(''t1'', sample_task)], tb_Configs := [(''config'', sample_config)],
     tb_Inventories := [(''pr_inventory'', \<lparr>inv_Repository = ''octo/app'', inv_ObservedAt = ''2025-01-02T00:00:00Z'', inv_PRs = []\<rparr>)]\<rparr>"

lemma sample_ids:
  "t_ID sample_task = ''t1''" "t_Status sample_task = StatusQueued" "t_Config sample_task = sample_config"
  "p_Target (t_Proposal sample_task) = ''main''" "c_DefaultBranch sample_config = ''main''"
  "c_GitHubRepo sample_config = ''octo/app''" "c_MaxOpenPRs sample_config = 5"
  "t_ID (admit_next e sample_task) = ''t1''" "t_RunID (admit_next e sample_task) = None"
  "t_Status (admit_next e sample_task) = StatusExecuting"
  by (simp_all add: sample_task_def sample_proposal_def sample_config_def Default_def admit_next_def)

lemma SamePRPolicy_refl: "SamePRPolicy c c"
  using SamePRPolicy_equivp by (rule equivp_reflp)

lemma sample_admission_commits:
  "ValidateTaskChange sample_task (admit_next sample_env sample_task) TaskAdmission False = None"
  by (simp add: policy_defs admit_next_def sample_task_def)

lemma sample_admission_ok:
  "fst (AdmitNewPRTask sample_env root_handle sample_task
     \<lparr>inv_Repository = ''octo/app'', inv_ObservedAt = ''2025-01-02T00:00:00Z'', inv_PRs = []\<rparr> capacity_db)
   = Inr (Some (admit_next sample_env sample_task))"
  by (simp add: AdmitNewPRTask_def conditional_def runTx_def txAdmitNewPRTask_def Let_def capacity_db_def
      storedConfig_def store_ConfigKey_def store_prInventoryKey_def scopedSetting_def root_handle_def
      EqualASCII_map store_OpenPRInventory_def PRUnion_def reservationRows_def commit_db_def txCommitTask_def
      finish_commit_def marker_def empty_db_def insertReservation_def put_task_def
      sample_admission_commits sample_ids SamePRPolicy_refl)


text \<open>A reserved pull-request slot is not lost while its task can still push: persisting an inventory
  releases a slot only of a task that is published, or of a cancelled task with an output commit whose
  release was confirmed; it never changes a task; and an observation older than the saved one is
  refused.\<close>

lemma inventory_releases_settled_only:
  assumes "PersistPRInventory parse env h inventory released db = (r, db')"
  shows "tb_Tasks db' = tb_Tasks db \<and>
     (HasPRReservation i db \<and> \<not> HasPRReservation i db' \<longrightarrow> slot_settled released db i) \<and>
     (r \<noteq> Inr (Some ()) \<longrightarrow> db' = db)"
proof (cases rule: conditional_cases [of "txPersistPRInventory parse env h inventory released" db])
  case (1 e)
  then show ?thesis using assms by (auto simp: PersistPRInventory_def)
next
  case (2 u d)
  have r: "r = Inr (Some ())" "db' = d" using assms 2(2) by (simp_all add: PersistPRInventory_def)
  define db1 where "db1 = db\<lparr>tb_Inventories := AList.update (store_prInventoryKey h) inventory (tb_Inventories db)\<rparr>"
  obtain rs where d: "d = fold (settle_reservation released (OwnedBranches inventory)) rs db1"
    using txPersist_Inr [OF 2(1)] by (auto simp: db1_def)
  have "HasPRReservation i db1 = HasPRReservation i db" "slot_settled released db1 i = slot_settled released db i"
    "tb_Tasks db1 = tb_Tasks db"
    by (simp_all add: db1_def HasPRReservation_def slot_settled_def)
  with settle_fold_slot [of i db1 released "OwnedBranches inventory" rs] show ?thesis
    by (simp add: r d settle_fold_tasks)
qed

lemma inventory_releases_settled_only_witness:
  "tb_Tasks (snd (PersistPRInventory (\<lambda>_. Some 0) sample_env root_handle
     \<lparr>inv_Repository = ''octo/app'', inv_ObservedAt = ''2025-01-03T00:00:00Z'', inv_PRs = []\<rparr> [] capacity_db))
   = [(''t1'', sample_task)]"
proof -
  let ?out = "PersistPRInventory (\<lambda>_. Some 0) sample_env root_handle
     \<lparr>inv_Repository = ''octo/app'', inv_ObservedAt = ''2025-01-03T00:00:00Z'', inv_PRs = []\<rparr> [] capacity_db"
  have "?out = (fst ?out, snd ?out)" by simp
  from inventory_releases_settled_only [OF this] show ?thesis by (simp add: capacity_db_def)
qed

end
