(* ===== verification/Plan_Graph.thy ===== *)
theory Plan_Graph
  imports Task_Model
begin

text \<open>
  The dependency rules of a plan, \<open>validateDependencies\<close> of \<open>internal/engine/plan_rules.go\<close>: the checks of single
  dependencies, the depth-first search for cycles and the loop that looks for the one order of the
  writers to each branch. The search carries fuel for its recursion depth; \<open>visit_ids_finishes\<close> shows that the
  number of nodes is enough. The lemmas lead to an exact specification: the checks accept a plan
  if and only if its dependencies are local and every pull request branch has exactly one order.
\<close>

subsection \<open>The checks\<close>

record dep_node =
  dn_ID :: string
  dn_Target :: string
  dn_Deps :: "string list"

datatype plan_error =
    UnknownDependency string string | DefaultBranchDepends string string | ForeignDependency string string
  | DependencyCycle string | IncompleteOrder string | SearchUnfinished
  | EmptyIdentity | DuplicateIdentity string | InvalidDecision string string | NoRationale string
  | DuplicateWork string string | TooLarge string | MissingContext string string | UnknownTierOrCategory string
  | TargetAmbiguous string | TargetUnknown string | RecordedWork string string | TooManyAccepted nat
  | IncompatiblePlan string

text \<open>The map \<open>byID\<close>: a later node replaces an earlier one of the same identity.\<close>

definition by_id :: "dep_node list \<Rightarrow> string \<Rightarrow> dep_node option" where
  "by_id nodes = map_of (map (\<lambda>n. (dn_ID n, n)) (rev nodes))"

definition deps_of :: "dep_node list \<Rightarrow> string \<Rightarrow> string list" where
  "deps_of nodes i = (case by_id nodes i of None \<Rightarrow> [] | Some n \<Rightarrow> dn_Deps n)"

definition check_dependency :: "string \<Rightarrow> dep_node list \<Rightarrow> dep_node \<Rightarrow> string \<Rightarrow> plan_error go_error" where
  "check_dependency defaultBranch nodes n i =
     (case by_id nodes i of
        None \<Rightarrow> Some (UnknownDependency (dn_ID n) i)
      | Some d \<Rightarrow>
          if dn_Target n = defaultBranch then Some (DefaultBranchDepends (dn_ID n) i)
          else if dn_Target d \<noteq> dn_Target n then Some (ForeignDependency (dn_ID n) i)
          else None)"

definition check_dependencies :: "string \<Rightarrow> dep_node list \<Rightarrow> plan_error go_error" where
  "check_dependencies defaultBranch nodes =
     first_error (concat (map (\<lambda>n. map (check_dependency defaultBranch nodes n) (dn_Deps n)) nodes))"

text \<open>The closure \<open>visit\<close>, over the list of identities still to visit at one level: 1 (visiting) marks a node
  on the current path, 2 (visited) a finished one. Fuel bounds the depth of the recursion.\<close>

datatype mark = Unvisited | Visiting | Visited

fun visit_ids :: "nat \<Rightarrow> (string \<Rightarrow> string list) \<Rightarrow> string list \<Rightarrow> (string \<Rightarrow> mark) \<Rightarrow>
    (plan_error, string \<Rightarrow> mark) result option" where
  "visit_ids fuel deps [] state = Some (Inr state)"
| "visit_ids 0 deps (i # is) state = None"
| "visit_ids (Suc fuel) deps (i # is) state =
     (case state i of
        Visiting \<Rightarrow> Some (Inl (DependencyCycle i))
      | Visited \<Rightarrow> visit_ids (Suc fuel) deps is state
      | Unvisited \<Rightarrow>
          (case visit_ids fuel deps (deps i) (state(i := Visiting)) of
             None \<Rightarrow> None
           | Some (Inl e) \<Rightarrow> Some (Inl e)
           | Some (Inr state') \<Rightarrow> visit_ids (Suc fuel) deps is (state'(i := Visited))))"

definition check_cycles :: "dep_node list \<Rightarrow> plan_error go_error" where
  "check_cycles nodes =
     (case visit_ids (Suc (length nodes)) (deps_of nodes) (map dn_ID nodes) (\<lambda>_. Unvisited) of
        None \<Rightarrow> Some SearchUnfinished
      | Some (Inl e) \<Rightarrow> Some e
      | Some (Inr _) \<Rightarrow> None)"

text \<open>The loop over \<open>remaining\<close>: the unblocked remaining members of a branch must be exactly one, which is
  then removed.\<close>

definition ready_members :: "dep_node list \<Rightarrow> string list \<Rightarrow> string list" where
  "ready_members members remaining =
     map dn_ID (filter (\<lambda>m. dn_ID m \<in> set remaining \<and> \<not> list_ex (\<lambda>d. d \<in> set remaining) (dn_Deps m)) members)"

function one_order :: "dep_node list \<Rightarrow> string list \<Rightarrow> bool" where
  "one_order members remaining =
     (if remaining = [] then True
      else case ready_members members remaining of
          [m] \<Rightarrow> one_order members (filter (\<lambda>i. i \<noteq> m) remaining)
        | _ \<Rightarrow> False)"
  by pat_completeness auto
termination
proof (relation "measure (\<lambda>(members, remaining). length remaining)", goal_cases)
  case (2 members remaining m ms)
  then have "m \<in> set remaining" by (auto simp: ready_members_def map_eq_Cons_conv filter_eq_Cons_iff)
  then show ?case by (auto intro: length_filter_less)
qed simp

declare one_order.simps [simp del]

definition members_of :: "dep_node list \<Rightarrow> string \<Rightarrow> dep_node list" where
  "members_of nodes branch = filter (\<lambda>n. dn_Target n = branch) nodes"

text \<open>\<open>remdups\<close> keeps a branch where it is last seen, the code where it is first seen: which of several
  incomplete branches the message names is the only difference, so the reversals restore the code's choice.\<close>

definition plan_branches :: "string \<Rightarrow> dep_node list \<Rightarrow> string list" where
  "plan_branches defaultBranch nodes =
     rev (remdups (rev (filter (\<lambda>b. b \<noteq> defaultBranch) (map dn_Target nodes))))"

definition check_order :: "dep_node list \<Rightarrow> string \<Rightarrow> plan_error go_error" where
  "check_order nodes branch =
     (let members = members_of nodes branch in check (one_order members (map dn_ID members)) (IncompleteOrder branch))"

definition validateDependencies :: "string \<Rightarrow> dep_node list \<Rightarrow> plan_error go_error" where
  "validateDependencies defaultBranch nodes =
     first_error
       [check_dependencies defaultBranch nodes,
        check_cycles nodes,
        first_error (map (check_order nodes) (plan_branches defaultBranch nodes))]"

subsection \<open>Specification\<close>

text \<open>Every dependency names a node that writes the same pull request branch.\<close>

definition deps_local :: "string \<Rightarrow> dep_node list \<Rightarrow> bool" where
  "deps_local defaultBranch nodes \<longleftrightarrow>
     (\<forall>n \<in> set nodes. \<forall>d \<in> set (dn_Deps n).
        dn_Target n \<noteq> defaultBranch \<and> (\<exists>m \<in> set nodes. dn_ID m = d \<and> dn_Target m = dn_Target n))"

text \<open>An order of a set of nodes in which nothing precedes its dependencies.\<close>

fun ordered_by :: "(string \<Rightarrow> string list) \<Rightarrow> string list \<Rightarrow> bool" where
  "ordered_by deps [] \<longleftrightarrow> True"
| "ordered_by deps (x # xs) \<longleftrightarrow> set (deps x) \<inter> set (x # xs) = {} \<and> ordered_by deps xs"

definition orders :: "(string \<Rightarrow> string list) \<Rightarrow> string set \<Rightarrow> string list set" where
  "orders deps R = {xs. distinct xs \<and> set xs = R \<and> ordered_by deps xs}"

definition branch_orders :: "dep_node list \<Rightarrow> string \<Rightarrow> string list set" where
  "branch_orders nodes branch = orders (deps_of nodes) (dn_ID ` set (members_of nodes branch))"

definition uniquely_ordered :: "dep_node list \<Rightarrow> string \<Rightarrow> bool" where
  "uniquely_ordered nodes branch \<longleftrightarrow> (\<exists>!xs. xs \<in> branch_orders nodes branch)"

definition ready_ids :: "(string \<Rightarrow> string list) \<Rightarrow> string set \<Rightarrow> string set" where
  "ready_ids deps R = {i \<in> R. set (deps i) \<inter> R = {}}"

subsection \<open>The one order of a branch\<close>

lemma orders_Cons: "m \<in> ready_ids deps R \<Longrightarrow> m # ys \<in> orders deps R \<longleftrightarrow> ys \<in> orders deps (R - {m})"
  by (auto simp: orders_def ready_ids_def)

lemma orders_first: "x # ys \<in> orders deps R \<Longrightarrow> x \<in> ready_ids deps R"
  by (auto simp: orders_def ready_ids_def)

lemma ordered_by_remove: "ordered_by deps xs \<Longrightarrow> ordered_by deps (remove1 m xs)"
  using set_remove1_subset by (induction xs) fastforce+

lemma orders_remove: "xs \<in> orders deps R \<Longrightarrow> remove1 m xs \<in> orders deps (R - {m})"
  by (simp add: orders_def ordered_by_remove set_remove1_eq)

lemma orders_unique_ready:
  assumes "\<exists>!xs. xs \<in> orders deps R" and "R \<noteq> {}"
  shows "\<exists>m. ready_ids deps R = {m}"
proof -
  from assms(1) obtain xs where xs: "xs \<in> orders deps R" and only: "\<And>ys. ys \<in> orders deps R \<Longrightarrow> ys = xs" by auto
  from xs assms(2) obtain m ys where m: "xs = m # ys" by (cases xs) (auto simp: orders_def)
  have "k = m" if "k \<in> ready_ids deps R" for k
    using only [of "k # remove1 k xs"] orders_Cons [OF that] orders_remove [OF xs] m by simp
  moreover have "m \<in> ready_ids deps R" using orders_first xs m by simp
  ultimately show ?thesis by blast
qed

lemma orders_step:
  assumes "ready_ids deps R = {m}"
  shows "(\<exists>!xs. xs \<in> orders deps R) \<longleftrightarrow> (\<exists>!xs. xs \<in> orders deps (R - {m}))"
proof -
  have m: "m \<in> ready_ids deps R" using assms by simp
  then have "R \<noteq> {}" by (auto simp: ready_ids_def)
  have "xs \<in> orders deps R \<longleftrightarrow> (\<exists>ys. xs = m # ys \<and> ys \<in> orders deps (R - {m}))" for xs
  proof (cases xs)
    case Nil
    with \<open>R \<noteq> {}\<close> show ?thesis by (auto simp: orders_def)
  next
    case (Cons x ys)
    with assms orders_first [of x ys deps R] orders_Cons [OF m, of ys] show ?thesis by auto
  qed
  then have "orders deps R = (#) m ` orders deps (R - {m})" by auto
  then show ?thesis by (simp add: Bex_def [symmetric] image_iff) (use list.inject in blast)
qed

lemma ready_members_ids:
  assumes "distinct (map dn_ID members)" and "\<forall>m \<in> set members. dn_Deps m = deps (dn_ID m)"
    and "set remaining \<subseteq> dn_ID ` set members"
  shows "set (ready_members members remaining) = ready_ids deps (set remaining)"
    and "distinct (ready_members members remaining)"
proof -
  show "set (ready_members members remaining) = ready_ids deps (set remaining)"
  proof (intro subset_antisym subsetI)
    fix i assume "i \<in> ready_ids deps (set remaining)"
    then have i: "i \<in> set remaining" "set (deps i) \<inter> set remaining = {}" by (auto simp: ready_ids_def)
    with assms(3) obtain m where "m \<in> set members" "i = dn_ID m" by auto
    with i assms(2) have "m \<in> set (filter (\<lambda>m. dn_ID m \<in> set remaining \<and>
        \<not> list_ex (\<lambda>d. d \<in> set remaining) (dn_Deps m)) members)"
      by (auto simp: list_ex_iff)
    with \<open>i = dn_ID m\<close> show "i \<in> set (ready_members members remaining)"
      unfolding ready_members_def set_map by blast
  qed (use assms(2) in \<open>auto simp: ready_members_def ready_ids_def list_ex_iff\<close>)
  show "distinct (ready_members members remaining)"
    using assms(1) by (simp add: ready_members_def distinct_map_filter)
qed

lemma one_order_unique:
  assumes "distinct (map dn_ID members)" and "\<forall>m \<in> set members. dn_Deps m = deps (dn_ID m)"
  shows "set remaining \<subseteq> dn_ID ` set members \<Longrightarrow>
    one_order members remaining \<longleftrightarrow> (\<exists>!xs. xs \<in> orders deps (set remaining))"
proof (induction remaining rule: length_induct)
  case (1 remaining)
  note ready = ready_members_ids [OF assms 1(2)]
  show ?case
  proof (cases "remaining = []")
    case True
    then have "xs \<in> orders deps (set remaining) \<longleftrightarrow> xs = []" for xs by (auto simp: orders_def)
    with True show ?thesis by (simp add: one_order.simps)
  next
    case nonempty: False
    show ?thesis
    proof (cases "\<exists>m. ready_ids deps (set remaining) = {m}")
      case True
      then obtain m where m: "ready_ids deps (set remaining) = {m}" by blast
      with ready have eq: "ready_members members remaining = [m]"
        by (metis distinct_card card.empty card_insert_disjoint empty_iff finite.emptyI One_nat_def
            length_Suc_conv length_0_conv list.set_intros(1) singletonD)
      from m have "m \<in> set remaining" by (auto simp: ready_ids_def)
      then have "length (filter (\<lambda>i. i \<noteq> m) remaining) < length remaining" by (auto intro: length_filter_less)
      moreover have rest: "set (filter (\<lambda>i. i \<noteq> m) remaining) = set remaining - {m}" by auto
      moreover from 1(2) rest have "set (filter (\<lambda>i. i \<noteq> m) remaining) \<subseteq> dn_ID ` set members" by blast
      ultimately have "one_order members (filter (\<lambda>i. i \<noteq> m) remaining) \<longleftrightarrow>
          (\<exists>!xs. xs \<in> orders deps (set remaining - {m}))"
        using 1(1) by simp
      then show ?thesis using nonempty eq orders_step [OF m] by (simp add: one_order.simps [of members remaining])
    next
      case False
      then have "ready_members members remaining \<noteq> [m]" for m using ready(1) by (metis list.set(1,2))
      then have "\<not> one_order members remaining"
        using nonempty by (auto simp: one_order.simps [of members remaining] split: list.splits)
      then show ?thesis using orders_unique_ready [of deps "set remaining"] False nonempty by auto
    qed
  qed
qed

subsection \<open>The search for cycles\<close>

text \<open>A finished search leaves the nodes on the path as they were and unvisits nothing.\<close>

lemma visit_ids_frame:
  "visit_ids fuel deps is state = Some (Inr state') \<Longrightarrow>
     (state' g = Visiting \<longleftrightarrow> state g = Visiting) \<and> (state' g = Unvisited \<longrightarrow> state g = Unvisited)"
proof (induction fuel deps "is" state arbitrary: state' g rule: visit_ids.induct)
  case (3 fuel deps i "is" state)
  show ?case
  proof (cases "state i")
    case Unvisited
    with 3(4) obtain s1 where s1: "visit_ids fuel deps (deps i) (state(i := Visiting)) = Some (Inr s1)"
      and s2: "visit_ids (Suc fuel) deps is (s1(i := Visited)) = Some (Inr state')"
      by (simp split: option.splits sum.splits)
    note a = 3(1) [OF Unvisited s1, of g] and b = 3(2) [OF Unvisited s1 refl s2, of g]
    from a b Unvisited show ?thesis by (cases "g = i") simp_all
  next
    case Visited
    with 3(4) show ?thesis by (simp add: 3(3))
  qed (use 3(4) in simp)
qed simp_all

text \<open>Fuel above the number of unvisited nodes is enough.\<close>

lemma visit_ids_finishes:
  assumes "finite U"
  shows "(\<And>i. set (deps i) \<subseteq> U) \<Longrightarrow> set is \<subseteq> U \<Longrightarrow> card {u \<in> U. state u = Unvisited} < fuel \<Longrightarrow>
    visit_ids fuel deps is state \<noteq> None"
proof (induction fuel deps "is" state rule: visit_ids.induct)
  case (3 fuel deps i "is" state)
  note closed = 3(4) and sub = 3(5) and fuel = 3(6)
  show ?case
  proof (cases "state i")
    case Unvisited
    have "{u \<in> U. (state(i := Visiting)) u = Unvisited} \<subset> {u \<in> U. state u = Unvisited}"
      using sub Unvisited by auto
    then have "card {u \<in> U. (state(i := Visiting)) u = Unvisited} < card {u \<in> U. state u = Unvisited}"
      using assms by (intro psubset_card_mono) auto
    with fuel have "card {u \<in> U. (state(i := Visiting)) u = Unvisited} < fuel" by linarith
    from 3(1) [OF Unvisited closed closed this]
    obtain r where r: "visit_ids fuel deps (deps i) (state(i := Visiting)) = Some r" by blast
    show ?thesis
    proof (cases r)
      case (Inl e)
      with r Unvisited show ?thesis by simp
    next
      case (Inr s1)
      have "{u \<in> U. (s1(i := Visited)) u = Unvisited} \<subseteq> {u \<in> U. state u = Unvisited}"
      proof
        fix u assume "u \<in> {u \<in> U. (s1(i := Visited)) u = Unvisited}"
        with visit_ids_frame [OF r [unfolded Inr], of u] show "u \<in> {u \<in> U. state u = Unvisited}"
          by (cases "u = i") auto
      qed
      then have "card {u \<in> U. (s1(i := Visited)) u = Unvisited} \<le> card {u \<in> U. state u = Unvisited}"
        using assms by (intro card_mono) auto
      then have "card {u \<in> U. (s1(i := Visited)) u = Unvisited} < Suc fuel" using fuel by linarith
      with sub have "visit_ids (Suc fuel) deps is (s1(i := Visited)) \<noteq> None"
        by (intro 3(2) [OF Unvisited r Inr closed]) auto
      with r Inr Unvisited show ?thesis by simp
    qed
  next
    case Visited
    with 3(3) [OF Visited closed] sub fuel show ?thesis by simp
  qed simp
qed simp_all

text \<open>When dependencies have smaller rank, no node is met twice on a path.\<close>

lemma visit_ids_ranked:
  fixes rank :: "string \<Rightarrow> nat"
  shows "(\<And>i d. d \<in> set (deps i) \<Longrightarrow> rank d < rank i) \<Longrightarrow>
    (\<And>g i. state g = Visiting \<Longrightarrow> i \<in> set is \<Longrightarrow> rank i < rank g) \<Longrightarrow>
    visit_ids fuel deps is state \<noteq> Some (Inl e)"
proof (induction fuel deps "is" state arbitrary: e rule: visit_ids.induct)
  case (3 fuel deps i "is" state)
  note ranked = 3(4) and path = 3(5)
  show ?case
  proof (cases "state i")
    case Unvisited
    have "rank d < rank g" if "(state(i := Visiting)) g = Visiting" "d \<in> set (deps i)" for g d
      using that ranked [of d i] path [of g i] by (cases "g = i") auto
    then have below: "visit_ids fuel deps (deps i) (state(i := Visiting)) \<noteq> Some (Inl e)" for e
      using 3(1) [OF Unvisited ranked] by blast
    show ?thesis
    proof (cases "visit_ids fuel deps (deps i) (state(i := Visiting))")
      case None
      with Unvisited show ?thesis by simp
    next
      case (Some r)
      show ?thesis
      proof (cases r)
        case (Inl x)
        with Some below show ?thesis by simp
      next
        case (Inr s1)
        have "rank d < rank g" if "(s1(i := Visited)) g = Visiting" "d \<in> set is" for g d
          using that path [of g d] visit_ids_frame [OF Some [unfolded Inr], of g] by (auto split: if_splits)
        then have "visit_ids (Suc fuel) deps is (s1(i := Visited)) \<noteq> Some (Inl e)"
          using 3(2) [OF Unvisited Some Inr ranked] by blast
        with Some Inr Unvisited show ?thesis by simp
      qed
    qed
  next
    case Visiting
    with path [of i i] show ?thesis by simp
  next
    case Visited
    then have "visit_ids (Suc fuel) deps is state \<noteq> Some (Inl e)"
      using 3(3) [OF Visited ranked] path by simp
    with Visited show ?thesis by simp
  qed
qed simp_all

subsection \<open>Accepted plans\<close>

lemma by_id_iff:
  "distinct (map dn_ID nodes) \<Longrightarrow> by_id nodes i = Some n \<longleftrightarrow> n \<in> set nodes \<and> dn_ID n = i"
  by (subst by_id_def, subst map_of_eq_Some_iff) (auto simp: comp_def rev_map [symmetric])

lemma by_id_None: "by_id nodes i = None \<longleftrightarrow> i \<notin> dn_ID ` set nodes"
  by (auto simp: by_id_def map_of_eq_None_iff image_image)

lemma deps_of_node:
  "distinct (map dn_ID nodes) \<Longrightarrow> n \<in> set nodes \<Longrightarrow> deps_of nodes (dn_ID n) = dn_Deps n"
  using by_id_iff [of nodes "dn_ID n" n] by (simp add: deps_of_def)

lemma check_dependencies_local:
  assumes "distinct (map dn_ID nodes)"
  shows "check_dependencies defaultBranch nodes = None \<longleftrightarrow> deps_local defaultBranch nodes"
proof -
  have "check_dependency defaultBranch nodes n i = None \<longleftrightarrow>
      dn_Target n \<noteq> defaultBranch \<and> (\<exists>m \<in> set nodes. dn_ID m = i \<and> dn_Target m = dn_Target n)" for n i
    using by_id_iff [OF assms, of i] by_id_None [of nodes i]
    by (cases "by_id nodes i") (auto simp: check_dependency_def, metis)
  then show ?thesis by (auto simp: check_dependencies_def first_error_None deps_local_def)
qed

lemma deps_of_closed:
  assumes "distinct (map dn_ID nodes)" and "deps_local defaultBranch nodes"
  shows "set (deps_of nodes i) \<subseteq> dn_ID ` set nodes"
proof (cases "by_id nodes i")
  case (Some n)
  then have "n \<in> set nodes" using by_id_iff [OF assms(1)] by simp
  with assms(2) have "d \<in> dn_ID ` set nodes" if "d \<in> set (dn_Deps n)" for d
    using that unfolding deps_local_def by (metis imageI)
  with Some show ?thesis by (auto simp: deps_of_def)
qed (simp add: deps_of_def)

lemma ordered_by_position:
  "ordered_by deps xs \<Longrightarrow> i \<in> set xs \<Longrightarrow> d \<in> set xs \<Longrightarrow> d \<in> set (deps i) \<Longrightarrow>
     length (takeWhile (\<lambda>x. x \<noteq> d) xs) < length (takeWhile (\<lambda>x. x \<noteq> i) xs)"
  by (induction xs) auto

text \<open>Positions in the orders of the branches rank every node above its dependencies.\<close>

lemma ordered_rank:
  assumes distinct: "distinct (map dn_ID nodes)" and local: "deps_local defaultBranch nodes"
    and order: "\<And>b. b \<noteq> defaultBranch \<Longrightarrow> uniquely_ordered nodes b"
  obtains rank :: "string \<Rightarrow> nat" where "\<And>i d. d \<in> set (deps_of nodes i) \<Longrightarrow> rank d < rank i"
proof -
  obtain order where order: "\<And>b. b \<noteq> defaultBranch \<Longrightarrow> order b \<in> branch_orders nodes b"
    using assms(3) unfolding uniquely_ordered_def by metis
  define rank where "rank i = (case by_id nodes i of None \<Rightarrow> 0
      | Some n \<Rightarrow> length (takeWhile (\<lambda>x. x \<noteq> i) (order (dn_Target n))))" for i
  have "rank d < rank i" if d: "d \<in> set (deps_of nodes i)" for i d
  proof -
    from d obtain n where n: "by_id nodes i = Some n" and dn: "d \<in> set (dn_Deps n)"
      by (cases "by_id nodes i") (auto simp: deps_of_def)
    have i: "n \<in> set nodes" "dn_ID n = i" using n by_id_iff [OF distinct] by auto
    with local dn obtain m where m: "m \<in> set nodes" "dn_ID m = d" "dn_Target m = dn_Target n"
      and other: "dn_Target n \<noteq> defaultBranch"
      unfolding deps_local_def by blast
    with i have "by_id nodes d = Some m" "i \<in> set (order (dn_Target n))" "d \<in> set (order (dn_Target n))"
      and "ordered_by (deps_of nodes) (order (dn_Target n))"
      using order [OF other] by_id_iff [OF distinct] by (auto simp: branch_orders_def orders_def members_of_def)
    with n m(3) ordered_by_position [of "deps_of nodes" "order (dn_Target n)" i d] d show ?thesis
      by (simp add: rank_def)
  qed
  then show thesis by (rule that)
qed

lemma check_cycles_None:
  assumes "distinct (map dn_ID nodes)" and "deps_local defaultBranch nodes"
    and "\<And>b. b \<noteq> defaultBranch \<Longrightarrow> uniquely_ordered nodes b"
  shows "check_cycles nodes = None"
proof -
  obtain rank :: "string \<Rightarrow> nat" where "\<And>i d. d \<in> set (deps_of nodes i) \<Longrightarrow> rank d < rank i"
    using ordered_rank [OF assms] by blast
  then have "visit_ids (Suc (length nodes)) (deps_of nodes) (map dn_ID nodes) (\<lambda>_. Unvisited) \<noteq> Some (Inl e)" for e
    by (intro visit_ids_ranked [of _ rank]) simp_all
  moreover have "visit_ids (Suc (length nodes)) (deps_of nodes) (map dn_ID nodes) (\<lambda>_. Unvisited) \<noteq> None"
    using card_length [of "map dn_ID nodes"]
    by (intro visit_ids_finishes [of "dn_ID ` set nodes"] deps_of_closed [OF assms(1,2)]) auto
  ultimately show ?thesis by (auto simp: check_cycles_def split: option.splits sum.splits)
qed

lemma check_order_unique:
  assumes "distinct (map dn_ID nodes)"
  shows "check_order nodes branch = None \<longleftrightarrow> uniquely_ordered nodes branch"
proof -
  let ?ms = "members_of nodes branch"
  have "distinct (map dn_ID ?ms)" "\<forall>m \<in> set ?ms. dn_Deps m = deps_of nodes (dn_ID m)"
    using assms by (auto simp: members_of_def distinct_map_filter deps_of_node)
  from one_order_unique [OF this, of "map dn_ID ?ms"]
  show ?thesis by (simp add: check_order_def Let_def branch_orders_def uniquely_ordered_def)
qed

lemma empty_branch_order: "branch \<notin> dn_Target ` set nodes \<Longrightarrow> uniquely_ordered nodes branch"
proof -
  assume "branch \<notin> dn_Target ` set nodes"
  then have "members_of nodes branch = []" by (auto simp: members_of_def filter_empty_conv)
  then have "branch_orders nodes branch = {[]}" by (auto simp: branch_orders_def orders_def)
  then show ?thesis by (auto simp: uniquely_ordered_def)
qed

lemma set_branches: "set (plan_branches defaultBranch nodes) = dn_Target ` set nodes - {defaultBranch}"
  by (auto simp: plan_branches_def)

lemma dependencies_exact:
  assumes "distinct (map dn_ID nodes)"
  shows "validateDependencies defaultBranch nodes = None \<longleftrightarrow>
    deps_local defaultBranch nodes \<and> (\<forall>branch. branch \<noteq> defaultBranch \<longrightarrow> uniquely_ordered nodes branch)"
  (is "_ \<longleftrightarrow> ?local \<and> ?ordered")
proof -
  have order: "first_error (map (check_order nodes) (plan_branches defaultBranch nodes)) = None \<longleftrightarrow> ?ordered"
  proof -
    have "first_error (map (check_order nodes) (plan_branches defaultBranch nodes)) = None \<longleftrightarrow>
        (\<forall>b \<in> set (plan_branches defaultBranch nodes). uniquely_ordered nodes b)"
      by (auto simp: first_error_None check_order_unique [OF assms])
    then show ?thesis using empty_branch_order [of _ nodes] by (auto simp: set_branches)
  qed
  have "check_cycles nodes = None" if ?local ?ordered
    using that by (intro check_cycles_None [OF assms]) auto
  then show ?thesis
    using check_dependencies_local [OF assms] order
    by (auto simp: validateDependencies_def first_error_None)
qed

text \<open>The dependencies of an accepted plan, as a relation from a prerequisite to its dependents.\<close>

definition dependency_graph :: "dep_node list \<Rightarrow> (string \<times> string) set" where
  "dependency_graph nodes = {(d, dn_ID n) | d n. n \<in> set nodes \<and> d \<in> set (dn_Deps n)}"

lemma dependencies_acyclic:
  assumes "distinct (map dn_ID nodes)" and "validateDependencies defaultBranch nodes = None"
  shows "acyclic (dependency_graph nodes)"
proof -
  obtain rank :: "string \<Rightarrow> nat" where "\<And>i d. d \<in> set (deps_of nodes i) \<Longrightarrow> rank d < rank i"
    using ordered_rank [OF assms(1)] assms(2) dependencies_exact [OF assms(1)] by blast
  then have "dependency_graph nodes \<subseteq> measure rank"
    using deps_of_node [OF assms(1)] by (fastforce simp: dependency_graph_def)
  then show ?thesis using wf_subset [OF wf_measure] wf_acyclic by blast
qed

text \<open>Renaming the nodes of a plan injectively changes nothing.\<close>

definition rename_node :: "(string \<Rightarrow> string) \<Rightarrow> dep_node \<Rightarrow> dep_node" where
  "rename_node f n = n\<lparr>dn_ID := f (dn_ID n), dn_Deps := map f (dn_Deps n)\<rparr>"

lemma ordered_by_rename:
  assumes "inj_on f U" and "set xs \<subseteq> U" and "\<And>x. x \<in> set xs \<Longrightarrow> set (deps x) \<subseteq> U \<and> deps' (f x) = map f (deps x)"
  shows "ordered_by deps' (map f xs) \<longleftrightarrow> ordered_by deps xs"
  using assms
proof (induction xs)
  case (Cons x xs)
  have "set (deps' (f x)) \<inter> set (map f (x # xs)) = f ` (set (deps x) \<inter> set (x # xs))"
    using Cons(2-) inj_on_image_Int [OF Cons(2), of "set (deps x)" "set (x # xs)"] by auto
  with Cons show ?case by auto
qed simp

lemma renamed_dependencies:
  assumes distinct: "distinct (map dn_ID nodes)" and inj: "inj_on f (dn_ID ` set nodes)"
    and ok: "validateDependencies defaultBranch nodes = None"
  shows "validateDependencies defaultBranch (map (rename_node f) nodes) = None"
proof -
  let ?new = "map (rename_node f) nodes" and ?U = "dn_ID ` set nodes"
  have local: "deps_local defaultBranch nodes" and ordered: "\<And>b. b \<noteq> defaultBranch \<Longrightarrow> uniquely_ordered nodes b"
    using ok dependencies_exact [OF distinct] by auto
  have distinct': "distinct (map dn_ID ?new)"
    using distinct inj by (simp add: rename_node_def comp_def distinct_map inj_on_def)
  have "deps_local defaultBranch ?new"
    using local unfolding deps_local_def by (fastforce simp: rename_node_def)
  moreover have "uniquely_ordered ?new b" if "b \<noteq> defaultBranch" for b
  proof -
    let ?R = "dn_ID ` set (members_of nodes b)"
    have ids: "dn_ID ` set (members_of ?new b) = f ` ?R" by (force simp: members_of_def rename_node_def)
    have sub: "?R \<subseteq> ?U" by (auto simp: members_of_def)
    have deps: "set (deps_of nodes x) \<subseteq> ?U \<and> deps_of ?new (f x) = map f (deps_of nodes x)" if "x \<in> ?R" for x
    proof -
      from that obtain n where n: "n \<in> set nodes" "x = dn_ID n" by (auto simp: members_of_def)
      then have "deps_of ?new (dn_ID (rename_node f n)) = dn_Deps (rename_node f n)"
        by (intro deps_of_node [OF distinct']) simp
      with n deps_of_closed [OF distinct local, of x] deps_of_node [OF distinct n(1)] show ?thesis
        by (simp add: rename_node_def)
    qed
    have "branch_orders ?new b = map f ` branch_orders nodes b"
    proof (intro set_eqI iffI)
      fix ys assume ys: "ys \<in> branch_orders ?new b"
      then have "set ys = f ` ?R" by (simp add: branch_orders_def orders_def ids)
      moreover from this have "map (\<lambda>x. f (inv_into ?R f x)) ys = ys" by (intro map_idI) (simp add: f_inv_into_f)
      ultimately obtain xs where xs: "ys = map f xs" "set xs = ?R"
        using inv_into_image_cancel [OF inj_on_subset [OF inj sub], of ?R] that [of "map (inv_into ?R f) ys"]
        by (simp add: comp_def)
      with ys deps ordered_by_rename [OF inj, of xs "deps_of nodes" "deps_of ?new"] sub
      show "ys \<in> map f ` branch_orders nodes b" by (auto simp: branch_orders_def orders_def distinct_map)
    next
      fix ys assume "ys \<in> map f ` branch_orders nodes b"
      then obtain xs where "ys = map f xs" "distinct xs" "set xs = ?R" "ordered_by (deps_of nodes) xs"
        by (auto simp: branch_orders_def orders_def)
      with deps ordered_by_rename [OF inj, of xs "deps_of nodes" "deps_of ?new"] sub inj_on_subset [OF inj sub]
      show "ys \<in> branch_orders ?new b" by (auto simp: branch_orders_def orders_def ids distinct_map)
    qed
    then show ?thesis using ordered [OF that] by (auto simp: uniquely_ordered_def)
  qed
  ultimately show ?thesis using dependencies_exact [OF distinct'] by simp
qed

end
