(* ===== verification/Plan_Rules.thy ===== *)
theory Plan_Rules
  imports Plan_Graph Task_Evidence
begin

text \<open>
  The rules a consolidated plan has to meet, \<open>internal/engine/plan_rules.go\<close>: \<open>validateProposals\<close> before a plan is
  committed, \<open>validateTaskPlan\<close> again before dispatch, the identity checks on what reviewers and the
  orchestrator return, and the bounds of the external pull request context given to planners. The sorting
  of external pull requests is stable here; pull requests of one inventory have distinct numbers. The
  encoded size of a context entry and the redaction of secrets are parameters.
\<close>

subsection \<open>Proposals\<close>

definition missingField :: "proposal \<Rightarrow> string" where
  "missingField p =
     (case find (\<lambda>(name, text). trim_space text = [])
         [(''title'', p_Title p), (''problem'', p_Problem p), (''benefit'', p_Benefit p), (''scope'', p_Scope p),
          (''prompt'', p_Prompt p)] of
        Some (name, _) \<Rightarrow> name
      | None \<Rightarrow> if p_Evidence p = [] then ''evidence'' else [])"

definition target_matches :: "config \<Rightarrow> string \<Rightarrow> pull_request \<Rightarrow> bool" where
  "target_matches cfg target pr \<longleftrightarrow>
     pr_Branch pr = target \<and> OwnedOpen pr \<and> pr_Base pr = c_DefaultBranch cfg \<and>
     EqualASCII (pr_BaseRepository pr) (c_GitHubRepo cfg)"

definition resolveTarget :: "config \<Rightarrow> pull_request list \<Rightarrow> string \<Rightarrow> (plan_error, pull_request option) result" where
  "resolveTarget cfg prs target =
     (if target = c_DefaultBranch cfg then Inr None
      else case filter (target_matches cfg target) prs of
          [] \<Rightarrow> Inl (TargetUnknown target)
        | [pr] \<Rightarrow> Inr (Some pr)
        | _ \<Rightarrow> Inl (TargetAmbiguous target))"

text \<open>The checks of one accepted proposal, after it joined the accepted ones.\<close>

definition check_accepted :: "unicode_tables \<Rightarrow> config \<Rightarrow> pull_request list \<Rightarrow> task list \<Rightarrow> proposal \<Rightarrow> plan_error go_error" where
  "check_accepted u cfg prs history p =
     first_error
       [check (\<not> (200 < length (p_Title p) \<or> 32000 < length (p_Prompt p) \<or> 40 < length (p_Evidence p))) (TooLarge (p_ID p)),
        check (missingField p = []) (MissingContext (p_ID p) (missingField p)),
        check (map_of (c_Tiers cfg) (p_Tier p) \<noteq> None \<and> p_Category p \<in> set (EffectiveCategories cfg))
          (UnknownTierOrCategory (p_ID p)),
        (case resolveTarget cfg prs (p_Target p) of Inl e \<Rightarrow> Some e | Inr _ \<Rightarrow> None),
        first_error (map (\<lambda>t. check (\<not> (t_Status t \<noteq> StatusCancelled \<and> SameWork u (t_Proposal t) p))
          (RecordedWork (p_ID p) (t_ID t))) history)]"

fun check_proposals :: "unicode_tables \<Rightarrow> config \<Rightarrow> pull_request list \<Rightarrow> task list \<Rightarrow> proposal list \<Rightarrow> string list \<Rightarrow>
    proposal list \<Rightarrow> (plan_error, proposal list) result" where
  "check_proposals u cfg prs history accepted allIDs [] = Inr accepted"
| "check_proposals u cfg prs history accepted allIDs (p # ps) =
     (if trim_space (p_ID p) = [] then Inl EmptyIdentity
      else if p_ID p \<in> set allIDs then Inl (DuplicateIdentity (p_ID p))
      else if p_Decision p \<notin> set Assessments then Inl (InvalidDecision (p_ID p) (p_Decision p))
      else if trim_space (p_Reason p) = [] then Inl (NoRationale (p_ID p))
      else if p_Decision p \<noteq> DecisionAccepted then check_proposals u cfg prs history accepted (p_ID p # allIDs) ps
      else case find (\<lambda>other. SameWork u other p) accepted of
          Some other \<Rightarrow> Inl (DuplicateWork (p_ID p) (p_ID other))
        | None \<Rightarrow>
            (case check_accepted u cfg prs history p of
               Some e \<Rightarrow> Inl e
             | None \<Rightarrow> check_proposals u cfg prs history (accepted @ [p]) (p_ID p # allIDs) ps))"

definition proposal_node :: "proposal \<Rightarrow> dep_node" where
  "proposal_node p = \<lparr>dn_ID = p_ID p, dn_Target = p_Target p, dn_Deps = p_Dependencies p\<rparr>"

definition validateProposals :: "unicode_tables \<Rightarrow> config \<Rightarrow> proposal list \<Rightarrow> grounding \<Rightarrow> task list \<Rightarrow> plan_error go_error" where
  "validateProposals u cfg proposals grounding history =
     (case check_proposals u cfg (g_PRs grounding) history [] [] proposals of
        Inl e \<Rightarrow> Some e
      | Inr accepted \<Rightarrow>
          if (of_nat (length accepted) :: u64) > c_MaxTasksPerCycle cfg then Some (TooManyAccepted (length accepted))
          else validateDependencies (c_DefaultBranch cfg) (map proposal_node accepted))"

subsection \<open>Tasks before dispatch\<close>

definition task_compatible :: "config \<Rightarrow> task \<Rightarrow> bool" where
  "task_compatible live t \<longleftrightarrow>
     c_DeliveryMode (t_Config t) = c_DeliveryMode live \<and>
     p_Category (t_Proposal t) \<in> set (EffectiveCategories (t_Config t))"

fun check_tasks :: "config \<Rightarrow> string list \<Rightarrow> task list \<Rightarrow> plan_error go_error" where
  "check_tasks live seen [] = None"
| "check_tasks live seen (t # ts) =
     (if t_ID t \<in> set seen then Some (DuplicateIdentity (t_ID t))
      else if \<not> task_compatible live t then Some (IncompatiblePlan (t_ID t))
      else check_tasks live (t_ID t # seen) ts)"

definition task_node :: "task \<Rightarrow> dep_node" where
  "task_node t = \<lparr>dn_ID = t_ID t, dn_Target = p_Target (t_Proposal t), dn_Deps = p_Dependencies (t_Proposal t)\<rparr>"

definition plan_default_branch :: "task list \<Rightarrow> string" where
  "plan_default_branch tasks = (if tasks = [] then [] else c_DefaultBranch (t_Config (last tasks)))"

definition validateTaskPlan :: "task list \<Rightarrow> config \<Rightarrow> plan_error go_error" where
  "validateTaskPlan tasks live =
     first_error
       [check_tasks live [] tasks,
        validateDependencies (plan_default_branch tasks) (map task_node tasks)]"

subsection \<open>Identities returned by reviewers and the orchestrator\<close>

datatype id_error =
  Invented string | Returned_Twice string | Omitted string | InvalidAssessment string string | NoAssessmentReason string

fun match_loop :: "string list \<Rightarrow> (string \<times> id_error go_error) list \<Rightarrow> string list \<Rightarrow> id_error go_error" where
  "match_loop want [] seen =
     map_option Omitted (find (\<lambda>i. i \<notin> set seen) want)"
| "match_loop want ((i, each) # got) seen =
     (if i \<notin> set want then Some (Invented i)
      else if i \<in> set seen then Some (Returned_Twice i)
      else case each of Some e \<Rightarrow> Some e | None \<Rightarrow> match_loop want got (i # seen))"

text \<open>\<open>each\<close> is evaluated at the returned identities beforehand; its result is looked at in the loop's order.\<close>

definition matchIDs :: "string list \<Rightarrow> (string \<times> id_error go_error) list \<Rightarrow> id_error go_error" where
  "matchIDs want got = match_loop want got []"

definition check_assessment :: "assessment \<Rightarrow> id_error go_error" where
  "check_assessment a =
     first_error [check (as_Decision a \<in> set Assessments) (InvalidAssessment (as_ID a) (as_Decision a)),
       check (trim_space (as_Reason a) \<noteq> []) (NoAssessmentReason (as_ID a))]"

definition checkAssessments :: "proposal list \<Rightarrow> assessment list \<Rightarrow> id_error go_error" where
  "checkAssessments candidates assessments =
     matchIDs (map p_ID candidates) (map (\<lambda>a. (as_ID a, check_assessment a)) assessments)"

definition checkConsolidation :: "proposal list \<Rightarrow> proposal list \<Rightarrow> id_error go_error" where
  "checkConsolidation candidates returned = matchIDs (map p_ID candidates) (map (\<lambda>p. (p_ID p, None)) returned)"

datatype request_error = RequestNotReturned string | RequestTargetChanged string string string

definition checkOperatorRequests :: "operator_request list \<Rightarrow> proposal list \<Rightarrow> request_error go_error" where
  "checkOperatorRequests seeded proposals =
     first_error (map (\<lambda>r.
       case map_of (map (\<lambda>p. (p_ID p, p)) (rev proposals)) (Request_ProposalID r) of
         None \<Rightarrow> Some (RequestNotReturned (rq_ID r))
       | Some p \<Rightarrow>
           check (\<not> (p_Decision p = DecisionAccepted \<and> p_Target p \<noteq> rq_Target r))
             (RequestTargetChanged (rq_ID r) (rq_Target r) (p_Target p))) seeded)"

definition checkRediscoveries :: "string list \<Rightarrow> proposal list \<Rightarrow> (string \<times> nat) go_error" where
  "checkRediscoveries requests proposals =
     first_error (map (\<lambda>i. let n = length (filter (\<lambda>p. i \<in> set (p_Reconsiders p)) proposals) in check (n = 1) (i, n))
       requests)"

definition plannedStatus :: "proposal list \<Rightarrow> cycle_status" where
  "plannedStatus proposals =
     (if list_ex (\<lambda>p. p_Decision p = DecisionAccepted) proposals then CycleCompleted else CycleIdle)"

subsection \<open>Planning context bounds\<close>

definition maxPlanningProposals :: int where
  "maxPlanningProposals = 100"

definition discoveryProposalLimit :: "int \<Rightarrow> u64 \<Rightarrow> int" where
  "discoveryProposalLimit seeded agents =
     (let room = maxPlanningProposals - seeded in
      if room \<le> 0 \<or> agents = 0 \<or> uint agents > room then 0 else room div uint agents)"

definition maxExternalPRs :: nat where
  "maxExternalPRs = 100"

definition maxPRTitleChars :: nat where
  "maxPRTitleChars = 200"

definition maxPRBodyChars :: nat where
  "maxPRBodyChars = 2000"

definition maxPRContextBytes :: nat where
  "maxPRContextBytes = 512 * 1024"

definition truncateRunes :: "string \<Rightarrow> nat \<Rightarrow> string \<times> bool" where
  "truncateRunes text limit =
     (if length (runes text) \<le> limit then (text, False)
      else (concat (map encode_rune (take limit (runes text))), True))"

definition external_entry :: "(string \<Rightarrow> string) \<Rightarrow> pull_request \<Rightarrow> external_pr_context" where
  "external_entry redact pr =
     (let (title, titleCut) = truncateRunes (redact (pr_Title pr)) maxPRTitleChars;
          (body, bodyCut) = truncateRunes (redact (pr_Body pr)) maxPRBodyChars
      in \<lparr>ex_Number = pr_Number pr, ex_URL = pr_URL pr, ex_Title = title, ex_Body = body, ex_Branch = pr_Branch pr,
          ex_Head = pr_Head pr, ex_Base = pr_Base pr, ex_HeadRepository = pr_HeadRepository pr,
          ex_BaseRepository = pr_BaseRepository pr, ex_TitleTruncated = titleCut, ex_BodyTruncated = bodyCut,
          ex_LocalHeadAvailable = False\<rparr>)"

fun context_loop :: "(external_pr_context \<Rightarrow> nat) \<Rightarrow> (string \<Rightarrow> string) \<Rightarrow> external_pr_context list \<Rightarrow> nat \<Rightarrow>
    pull_request list \<Rightarrow> external_pr_context list" where
  "context_loop encoded redact acc bytesUsed [] = acc"
| "context_loop encoded redact acc bytesUsed (pr # prs) =
     (if maxExternalPRs \<le> length acc then acc
      else let entry = external_entry redact pr;
               extra = encoded entry + (if acc = [] then 0 else 1) in
        if maxPRContextBytes < bytesUsed + extra then acc
        else context_loop encoded redact (acc @ [entry]) (bytesUsed + extra) prs)"

definition externalContext :: "(external_pr_context \<Rightarrow> nat) \<Rightarrow> (string \<Rightarrow> string) \<Rightarrow> open_pr_inventory \<Rightarrow>
    external_pr_context list \<times> pr_coverage" where
  "externalContext encoded redact inventory =
     (let external = sort_key pr_Number (filter (\<lambda>pr. \<not> pr_Owned pr) (inv_PRs inventory));
          included = context_loop encoded redact [] 2 external
      in (included,
          \<lparr>cv_ObservedAt = Some (inv_ObservedAt inventory), cv_Complete = True,
           cv_TotalOpen = of_nat (length (inv_PRs inventory)), cv_TotalExternal = of_nat (length external),
           cv_IncludedExternal = of_nat (length included),
           cv_OmittedExternal = of_nat (length external - length included), cv_MaxExternal = of_nat maxExternalPRs,
           cv_MaxTitleChars = of_nat maxPRTitleChars, cv_MaxBodyChars = of_nat maxPRBodyChars,
           cv_MaxContextBytes = of_nat maxPRContextBytes\<rparr>))"

subsection \<open>Specification of an accepted plan\<close>

definition decided :: "proposal \<Rightarrow> bool" where
  "decided p \<longleftrightarrow> trim_space (p_ID p) \<noteq> [] \<and> p_Decision p \<in> set Assessments \<and> trim_space (p_Reason p) \<noteq> []"

definition executable_proposal :: "unicode_tables \<Rightarrow> config \<Rightarrow> pull_request list \<Rightarrow> task list \<Rightarrow> proposal \<Rightarrow> bool" where
  "executable_proposal u cfg prs history p \<longleftrightarrow>
     length (p_Title p) \<le> 200 \<and> length (p_Prompt p) \<le> 32000 \<and> p_Evidence p \<noteq> [] \<and> length (p_Evidence p) \<le> 40 \<and>
     (\<forall>text \<in> {p_Title p, p_Problem p, p_Benefit p, p_Scope p, p_Prompt p}. trim_space text \<noteq> []) \<and>
     map_of (c_Tiers cfg) (p_Tier p) \<noteq> None \<and> p_Category p \<in> set (EffectiveCategories cfg) \<and>
     (p_Target p = c_DefaultBranch cfg \<or> length (filter (target_matches cfg (p_Target p)) prs) = 1) \<and>
     (\<forall>t \<in> set history. t_Status t \<noteq> StatusCancelled \<longrightarrow> \<not> SameWork u (t_Proposal t) p)"

definition accepted_of :: "proposal list \<Rightarrow> proposal list" where
  "accepted_of proposals = filter (\<lambda>p. p_Decision p = DecisionAccepted) proposals"

definition plan_ok :: "unicode_tables \<Rightarrow> config \<Rightarrow> pull_request list \<Rightarrow> task list \<Rightarrow> proposal list \<Rightarrow> bool" where
  "plan_ok u cfg prs history proposals \<longleftrightarrow>
     distinct (map p_ID proposals) \<and> list_all decided proposals \<and>
     list_all (executable_proposal u cfg prs history) (accepted_of proposals) \<and>
     sorted_wrt (\<lambda>p q. \<not> SameWork u p q) (accepted_of proposals) \<and>
     length (accepted_of proposals) \<le> unat (c_MaxTasksPerCycle cfg) \<and>
     deps_local (c_DefaultBranch cfg) (map proposal_node (accepted_of proposals)) \<and>
     (\<forall>branch. branch \<noteq> c_DefaultBranch cfg \<longrightarrow>
        uniquely_ordered (map proposal_node (accepted_of proposals)) branch)"

subsection \<open>Lemmas\<close>

lemma missingField_empty:
  "missingField p = [] \<longleftrightarrow>
     p_Evidence p \<noteq> [] \<and> (\<forall>text \<in> {p_Title p, p_Problem p, p_Benefit p, p_Scope p, p_Prompt p}. trim_space text \<noteq> [])"
  by (simp add: missingField_def)

lemma resolveTarget_ok:
  "(\<exists>target. resolveTarget cfg prs branch = Inr target) \<longleftrightarrow>
     branch = c_DefaultBranch cfg \<or> length (filter (target_matches cfg branch) prs) = 1"
  by (auto simp: resolveTarget_def length_Suc_conv split: list.splits)

lemma check_accepted_None:
  "check_accepted u cfg prs history p = None \<longleftrightarrow> executable_proposal u cfg prs history p"
proof -
  have "(case resolveTarget cfg prs (p_Target p) of Inl e \<Rightarrow> Some e | Inr _ \<Rightarrow> None) = None \<longleftrightarrow>
      (\<exists>target. resolveTarget cfg prs (p_Target p) = Inr target)"
    by (simp split: sum.split)
  then show ?thesis
    unfolding check_accepted_def executable_proposal_def first_error_None
    by (simp add: missingField_empty resolveTarget_ok first_error_None image_iff) (auto simp: not_less)
qed

lemma check_proposals_Inr:
  "check_proposals u cfg prs history accepted allIDs ps = Inr result \<longleftrightarrow>
     result = accepted @ accepted_of ps \<and> distinct (map p_ID ps) \<and> set (map p_ID ps) \<inter> set allIDs = {} \<and>
     list_all decided ps \<and> list_all (executable_proposal u cfg prs history) (accepted_of ps) \<and>
     sorted_wrt (\<lambda>p q. \<not> SameWork u p q) (accepted_of ps) \<and>
     (\<forall>a \<in> set accepted. \<forall>p \<in> set (accepted_of ps). \<not> SameWork u a p)"
proof (induction ps arbitrary: accepted allIDs)
  case Nil
  then show ?case by (auto simp: accepted_of_def)
next
  case (Cons p ps)
  show ?case
  proof (cases "decided p \<and> p_ID p \<notin> set allIDs")
    case False
    then show ?thesis by (auto simp: decided_def)
  next
    case True
    show ?thesis
    proof (cases "p_Decision p = DecisionAccepted")
      case no: False
      with True have "check_proposals u cfg prs history accepted allIDs (p # ps) =
          check_proposals u cfg prs history accepted (p_ID p # allIDs) ps"
        by (simp add: decided_def)
      moreover have "accepted_of (p # ps) = accepted_of ps" using no by (simp add: accepted_of_def)
      ultimately show ?thesis using True Cons by auto
    next
      case yes: True
      have acc: "accepted_of (p # ps) = p # accepted_of ps" using yes by (simp add: accepted_of_def)
      show ?thesis
      proof (cases "\<exists>a \<in> set accepted. SameWork u a p")
        case True
        then obtain a where "find (\<lambda>other. SameWork u other p) accepted = Some a"
          by (metis find_None_iff not_Some_eq)
        with True \<open>decided p \<and> p_ID p \<notin> set allIDs\<close> yes acc show ?thesis by (auto simp: decided_def)
      next
        case new: False
        then have "find (\<lambda>other. SameWork u other p) accepted = None" by (auto simp: find_None_iff)
        then have step: "check_proposals u cfg prs history accepted allIDs (p # ps) =
            (case check_accepted u cfg prs history p of Some e \<Rightarrow> Inl e
             | None \<Rightarrow> check_proposals u cfg prs history (accepted @ [p]) (p_ID p # allIDs) ps)"
          using True yes by (simp add: decided_def)
        show ?thesis
        proof (cases "check_accepted u cfg prs history p")
          case None
          with step Cons True new acc show ?thesis by (auto simp: check_accepted_None [symmetric])
        next
          case (Some e)
          with step acc show ?thesis by (auto simp: check_accepted_None [symmetric])
        qed
      qed
    qed
  qed
qed

subsection \<open>Properties\<close>

text \<open>C29: \<open>validateProposals\<close> accepts a plan exactly when identities are distinct, every proposal is decided with a
  reason, and the accepted ones are complete, within the size limits, of a known tier and enabled category,
  aimed at the default branch or exactly one owned open pull request, new against recorded and
  accepted work, at most the configured number, with dependencies only between
  proposals for the same pull request and exactly one possible order of the work on every pull request branch.\<close>

theorem accepted_plan_exact:
  assumes "length proposals < 2 ^ 63"
  shows "validateProposals u cfg proposals grounding history = None \<longleftrightarrow>
    plan_ok u cfg (g_PRs grounding) history proposals"
proof -
  let ?acc = "accepted_of proposals" and ?nodes = "map proposal_node (accepted_of proposals)"
  have "length ?acc \<le> length proposals" by (simp add: accepted_of_def)
  then have count: "(of_nat (length ?acc) :: u64) > c_MaxTasksPerCycle cfg \<longleftrightarrow>
      unat (c_MaxTasksPerCycle cfg) < length ?acc"
    using assms by (simp add: word_less_nat_alt unat_of_nat take_bit_nat_eq_self)
  show ?thesis
  proof (cases "check_proposals u cfg (g_PRs grounding) history [] [] proposals")
    case (Inl e)
    then have "\<nexists>r. check_proposals u cfg (g_PRs grounding) history [] [] proposals = Inr r" by simp
    then have "\<not> plan_ok u cfg (g_PRs grounding) history proposals"
      by (auto simp: check_proposals_Inr plan_ok_def)
    with Inl show ?thesis by (simp add: validateProposals_def)
  next
    case (Inr acc)
    note ok = Inr [unfolded check_proposals_Inr]
    then have acc: "acc = ?acc" by simp
    have "distinct (map dn_ID ?nodes)"
      using ok by (auto simp: proposal_node_def comp_def accepted_of_def distinct_map_filter)
    from dependencies_exact [OF this] show ?thesis
      using ok count by (auto simp: validateProposals_def Inr acc plan_ok_def)
  qed
qed

definition pr_proposal :: "string \<Rightarrow> string \<Rightarrow> string list \<Rightarrow> proposal" where
  "pr_proposal i key deps =
     sample_proposal\<lparr>p_ID := i, p_Title := key, p_Target := ''octomus/t0'', p_Dependencies := deps, p_ProblemKey := key\<rparr>"

definition owned_pr :: pull_request where
  "owned_pr = \<lparr>pr_Number = 7, pr_Title = ''Leak'', pr_Branch = ''octomus/t0'', pr_Head = ''rev0'', pr_Base = ''main'',
     pr_URL = [], pr_Body = [], pr_State = ''open'', pr_ChangedLines = 3, pr_CreatedAt = [], pr_Owned = True,
     pr_HeadRepository = ''octo/app'', pr_BaseRepository = ''octo/app'', pr_ReviewDecision = [], pr_CheckStatus = [],
     pr_Mergeability = [], pr_StatusSource = [], pr_StatusObservedAt = []\<rparr>"

definition sample_grounding :: grounding where
  "sample_grounding = \<lparr>g_Revision = ''rev0'', g_PRs = [owned_pr], g_ExternalPRs = [],
     g_PRCoverage = snd (externalContext (\<lambda>_. 0) (\<lambda>s. s) \<lparr>inv_Repository = ''octo/app'', inv_ObservedAt = [], inv_PRs = []\<rparr>),
     g_History = JNull, g_MaintenanceDue = False, g_MaintenanceTargets = []\<rparr>"

definition sample_proposals :: "proposal list" where
  "sample_proposals = [pr_proposal ''p2'' ''b'' [''p1''], pr_proposal ''p1'' ''a'' []]"

lemma sample_executable:
  "list_all (executable_proposal ascii_tables sample_config [owned_pr] []) sample_proposals"
  by (simp add: sample_proposals_def executable_proposal_def pr_proposal_def sample_proposal_def owned_pr_def
      sample_config_def Default_def EffectiveCategories_def Categories_def target_matches_def OwnedOpen_def
      EqualASCII_refl smap_of_list_get Tiers_def go_eval)

lemma sample_distinct_work:
  "sorted_wrt (\<lambda>p q. \<not> SameWork ascii_tables p q) sample_proposals"
  by (simp add: sample_proposals_def pr_proposal_def sample_proposal_def SameWork_def Proposal_ProblemIdentity_def
      ProblemIdentity_def lowercaseIdentity_def ascii_tables_def isCaseIgnorable_def isCased_def EqualASCII_def runes_ascii encode_rune_ascii ascii_lower_def go_eval)

lemma sample_dependencies: "validateDependencies ''main'' (map proposal_node sample_proposals) = None"
  by (simp add: sample_proposals_def pr_proposal_def sample_proposal_def proposal_node_def validateDependencies_def
      check_dependencies_def check_dependency_def by_id_def check_cycles_def deps_of_def plan_branches_def
      check_order_def members_of_def one_order.simps ready_members_def first_error_None)

lemma sample_plan_valid: "validateProposals ascii_tables sample_config sample_proposals sample_grounding [] = None"
proof -
  have accepted: "accepted_of sample_proposals = sample_proposals"
    by (simp add: accepted_of_def sample_proposals_def pr_proposal_def sample_proposal_def)
  have "check_proposals ascii_tables sample_config (g_PRs sample_grounding) [] [] [] sample_proposals = Inr sample_proposals"
    using sample_executable sample_distinct_work
    by (simp add: check_proposals_Inr accepted sample_grounding_def)
      (simp add: sample_proposals_def pr_proposal_def sample_proposal_def decided_def Assessments_def go_eval)
  then show ?thesis
    using sample_dependencies
    by (simp add: validateProposals_def sample_config_def Default_def) (simp add: sample_proposals_def)
qed

theorem accepted_plan_exact_witness:
  "plan_ok ascii_tables sample_config (g_PRs sample_grounding) [] sample_proposals"
proof -
  have "length sample_proposals < 2 ^ 63" by (simp add: sample_proposals_def)
  with accepted_plan_exact sample_plan_valid show ?thesis by blast
qed

definition task_plan_ok :: "config \<Rightarrow> task list \<Rightarrow> bool" where
  "task_plan_ok live tasks \<longleftrightarrow>
     distinct (map t_ID tasks) \<and> list_all (task_compatible live) tasks \<and>
     deps_local (plan_default_branch tasks) (map task_node tasks) \<and>
     (\<forall>branch. branch \<noteq> plan_default_branch tasks \<longrightarrow> uniquely_ordered (map task_node tasks) branch) \<and>
     acyclic (dependency_graph (map task_node tasks))"

lemma check_tasks_None:
  "check_tasks live seen tasks = None \<longleftrightarrow>
     distinct (map t_ID tasks) \<and> set (map t_ID tasks) \<inter> set seen = {} \<and> list_all (task_compatible live) tasks"
  by (induction tasks arbitrary: seen) auto

text \<open>The recheck before dispatch accepts exactly the queued cycles whose tasks are distinct, were planned under
  the live delivery mode with an enabled category and still have local dependencies with one
  order per pull request branch; the dependencies of an accepted cycle are acyclic.\<close>

lemma task_plan_exact: "validateTaskPlan tasks live = None \<longleftrightarrow> task_plan_ok live tasks"
proof (cases "distinct (map t_ID tasks)")
  case True
  then have d: "distinct (map dn_ID (map task_node tasks))" by (simp add: task_node_def comp_def)
  show ?thesis
    using dependencies_exact [OF d, of "plan_default_branch tasks"]
      dependencies_acyclic [OF d, of "plan_default_branch tasks"] True
    by (auto simp: validateTaskPlan_def first_error_None check_tasks_None task_plan_ok_def)
next
  case False
  then show ?thesis by (simp add: validateTaskPlan_def first_error_None check_tasks_None task_plan_ok_def)
qed

lemma match_loop_None:
  "match_loop want got seen = None \<longleftrightarrow>
     distinct (map fst got) \<and> set (map fst got) \<inter> set seen = {} \<and> set (map fst got) \<subseteq> set want \<and>
     set want \<subseteq> set (map fst got) \<union> set seen \<and> (\<forall>x \<in> set got. snd x = None)"
proof (induction want got seen rule: match_loop.induct)
  case (1 want seen)
  then show ?case by (auto simp: find_None_iff)
next
  case (2 want i each got seen)
  then show ?case by (cases each) auto
qed

definition returned_exactly :: "string list \<Rightarrow> string list \<Rightarrow> bool" where
  "returned_exactly want got \<longleftrightarrow> distinct got \<and> set got = set want"

text \<open>Reviewers and the orchestrator can neither invent, repeat nor drop a proposal: an assessment list is accepted
  exactly when it has every candidate once, each with a valid decision and a reason, and a
  consolidation exactly when it returns every candidate once.\<close>

lemma returned_identities_exact:
  "(checkAssessments candidates assessments = None \<longleftrightarrow>
      returned_exactly (map p_ID candidates) (map as_ID assessments) \<and>
      list_all (\<lambda>a. as_Decision a \<in> set Assessments \<and> trim_space (as_Reason a) \<noteq> []) assessments) \<and>
   (checkConsolidation candidates returned = None \<longleftrightarrow>
      returned_exactly (map p_ID candidates) (map p_ID returned))"
  by (auto simp: checkAssessments_def checkConsolidation_def matchIDs_def match_loop_None returned_exactly_def comp_def
      check_assessment_def first_error_None list_all_iff)

subsection \<open>Planning context bounds\<close>

lemma context_loop_bounds:
  assumes "length acc \<le> maxExternalPRs" and "used \<le> maxPRContextBytes"
    and "used = 2 + sum_list (map encoded acc) + (length acc - 1)"
  shows "let r = context_loop encoded redact acc used prs in
    length r \<le> maxExternalPRs \<and> 2 + sum_list (map encoded r) + (length r - 1) \<le> maxPRContextBytes \<and>
    (\<exists>k \<le> length prs. r = acc @ map (external_entry redact) (take k prs))"
  using assms
proof (induction prs arbitrary: acc used)
  case Nil
  then show ?case by simp
next
  case (Cons pr prs)
  let ?e = "external_entry redact pr"
  let ?extra = "encoded ?e + (if acc = [] then 0 else 1)"
  show ?case
  proof (cases "maxExternalPRs \<le> length acc \<or> maxPRContextBytes < used + ?extra")
    case True
    then have "context_loop encoded redact acc used (pr # prs) = acc" by (auto simp: Let_def)
    moreover have "acc = acc @ map (external_entry redact) (take 0 (pr # prs))" by simp
    ultimately show ?thesis using Cons.prems by (metis (no_types, lifting) le0)
  next
    case False
    then have step: "context_loop encoded redact acc used (pr # prs) =
        context_loop encoded redact (acc @ [?e]) (used + ?extra) prs"
      by (simp add: Let_def)
    have "length (acc @ [?e]) \<le> maxExternalPRs" "used + ?extra \<le> maxPRContextBytes"
      "used + ?extra = 2 + sum_list (map encoded (acc @ [?e])) + (length (acc @ [?e]) - 1)"
      using False Cons.prems(3) by (cases acc; simp)+
    from Cons.IH [OF this] obtain k where "k \<le> length prs"
      "context_loop encoded redact (acc @ [?e]) (used + ?extra) prs = (acc @ [?e]) @ map (external_entry redact) (take k prs)"
      and b: "let r = context_loop encoded redact (acc @ [?e]) (used + ?extra) prs in
        length r \<le> maxExternalPRs \<and> 2 + sum_list (map encoded r) + (length r - 1) \<le> maxPRContextBytes"
      by (auto simp: Let_def)
    then have "Suc k \<le> length (pr # prs)"
      "context_loop encoded redact acc used (pr # prs) = acc @ map (external_entry redact) (take (Suc k) (pr # prs))"
      unfolding step by simp_all
    with b show ?thesis unfolding step Let_def by blast
  qed
qed

text \<open>The external pull requests shown to planners are bounded: at most one hundred, within 512 KiB of
  encoded context, the ones with the smallest numbers, redacted before they are cut; the
  coverage record accounts for every external pull request as included or omitted.\<close>

lemma external_context_bounded:
  "case externalContext encoded redact inventory of (included, coverage) \<Rightarrow>
     length included \<le> 100 \<and> 2 + sum_list (map encoded included) + (length included - 1) \<le> 524288 \<and>
     (\<exists>k. included = map (external_entry redact) (take k (sort_key pr_Number (filter (\<lambda>pr. \<not> pr_Owned pr) (inv_PRs inventory))))) \<and>
     cv_IncludedExternal coverage + cv_OmittedExternal coverage = cv_TotalExternal coverage \<and>
     cv_IncludedExternal coverage = of_nat (length included)"
proof -
  let ?ext = "sort_key pr_Number (filter (\<lambda>pr. \<not> pr_Owned pr) (inv_PRs inventory))"
  let ?r = "context_loop encoded redact [] 2 ?ext"
  have b: "length ?r \<le> maxExternalPRs" "2 + sum_list (map encoded ?r) + (length ?r - 1) \<le> maxPRContextBytes"
    "\<exists>k \<le> length ?ext. ?r = map (external_entry redact) (take k ?ext)"
    using context_loop_bounds [of "[]" 2 encoded redact ?ext]
    by (simp_all add: Let_def maxExternalPRs_def maxPRContextBytes_def)
  then have "length ?r \<le> length ?ext" by auto
  then have "(of_nat (length ?r) :: u64) + of_nat (length ?ext - length ?r) = of_nat (length ?ext)"
    by (simp flip: of_nat_add)
  with b show ?thesis
    by (auto simp: externalContext_def Let_def maxExternalPRs_def maxPRContextBytes_def)
qed

end
