(* ===== verification/Planning.thy ===== *)
theory Planning
  imports Plan_Rules Store_Tasks
begin

text \<open>
  Committing a plan, \<open>internal/engine/planning.go\<close>: the candidates seeded from operator requests and rediscovery
  requests, the tasks made of the accepted proposals, the settlement of the requests a plan
  assessed, and the transaction that saves them. \<open>model.ID\<close> is the parameter \<open>fresh\<close>, whose k-th value is the k-th
  identity generated; its values are distinct. The quoting of \<open>fmt\<close>'s verb \<open>q\<close> is the parameter \<open>quote\<close>.
\<close>

subsection \<open>Candidates\<close>

definition request_candidate :: "(string \<Rightarrow> string) \<Rightarrow> operator_request \<Rightarrow> proposal" where
  "request_candidate redact r =
     \<lparr>p_ID = Request_ProposalID r, p_Title = redact (rq_Title r), p_Problem = redact (rq_Description r), p_Evidence = [],
      p_Benefit = ''Requested by the operator'', p_Category = [], p_Target = rq_Target r, p_Tier = [], p_Scope = [],
      p_Dependencies = [], p_Prompt = redact (rq_Description r), p_Decision = DecisionCandidate,
      p_Reason = ''Operator requested this work; assess it against repository evidence'', p_ProblemKey = [],
      p_RelevantPaths = [], p_Reconsiders = []\<rparr>"

definition seed_limit :: "config \<Rightarrow> cycle \<Rightarrow> int" where
  "seed_limit cfg cycle =
     min (int RequestSeedLimit) (max (maxPlanningProposals - int (length (cy_Proposals cycle)) - sint (c_DiscoveryAgents cfg)) 0)"

definition seedOperatorRequests :: "(string \<Rightarrow> string) \<Rightarrow> config \<Rightarrow> grounding \<Rightarrow> cycle \<Rightarrow> database \<Rightarrow>
    operator_request list \<times> operator_request list \<times> cycle" where
  "seedOperatorRequests redact cfg grounding cycle db =
     (if seed_limit cfg cycle \<le> 0 then ([], [], cycle)
      else let pending = PendingRequests (c_GitHubRepo cfg) (nat (seed_limit cfg cycle)) db;
               eligible = (\<lambda>r. \<not> isl (resolveTarget cfg (g_PRs grounding) (rq_Target r)));
               seeded = filter eligible pending
           in (seeded, filter (\<lambda>r. \<not> eligible r) pending,
               cycle\<lparr>cy_Proposals := cy_Proposals cycle @ map (request_candidate redact) seeded\<rparr>))"

datatype planning_error =
    MissingGrounding | DependencyVanished string | Refused plan_error | StoreRefused store_error
  | MissingRediscoveryIdentity | MissingRediscoveryTask string

definition rediscovery_candidate :: "task \<Rightarrow> proposal" where
  "rediscovery_candidate old =
     (t_Proposal old)\<lparr>p_ID := ''rediscover-'' @ t_ID old, p_Dependencies := [], p_Reconsiders := [t_ID old],
        p_Decision := DecisionCandidate, p_Reason := ''Operator requested fresh assessment against current context''\<rparr>"

fun seedRediscoveries :: "string list \<Rightarrow> database \<Rightarrow> cycle \<Rightarrow> (planning_error, cycle) result" where
  "seedRediscoveries [] db cycle = Inr cycle"
| "seedRediscoveries (i # is) db cycle =
     (if i = [] then Inl MissingRediscoveryIdentity
      else case map_of (tb_Tasks db) i of
          None \<Rightarrow> Inl (MissingRediscoveryTask i)
        | Some old \<Rightarrow>
            seedRediscoveries is db (cycle\<lparr>cy_Proposals := cy_Proposals cycle @ [rediscovery_candidate old]\<rparr>))"

subsection \<open>Tasks\<close>

definition zero_route :: route where
  "zero_route = \<lparr>r_Backend = BackendCodex, r_Model = [], r_Effort = [], r_Provider = None, r_Variant = None\<rparr>"

definition newPlannedTask :: "env \<Rightarrow> config \<Rightarrow> cycle \<Rightarrow> grounding \<Rightarrow> proposal \<Rightarrow> proposal \<Rightarrow> string \<Rightarrow> pull_request option \<Rightarrow> task" where
  "newPlannedTask env cfg cycle grounding original proposal taskID target =
     \<lparr>t_ID = taskID, t_CycleID = cy_ID cycle, t_Proposal = proposal, t_Status = StatusQueued,
      t_Route = (case map_of (c_Tiers cfg) (p_Tier original) of None \<Rightarrow> zero_route | Some r \<Rightarrow> r), t_Config = cfg,
      t_SourceRevision = (case target of None \<Rightarrow> g_Revision grounding | Some pr \<Rightarrow> pr_Head pr),
      t_ComparisonBase = [], t_DefaultRevision = g_Revision grounding,
      t_Branch = (case target of None \<Rightarrow> c_BranchPrefix cfg @ taskID | Some pr \<Rightarrow> pr_Branch pr), t_Workspace = [],
      t_ExecutionSession = None, t_RepairSession = None, t_Sessions = [], t_Reviews = [], t_Verification = [],
      t_OutputCommit = None, t_PRNumber = map_option pr_Number target, t_PRURL = map_option pr_URL target,
      t_Attempts = 0, t_Error = None, t_CreatedAt = env_Now env, t_UpdatedAt = env_Now env,
      t_AttemptPolicy = Some (PolicyOf cfg), t_ReviewBaseline = 0, t_RepairRounds = None, t_RepairProgress = None,
      t_BlockedReason = None, t_RunID = cy_RunID cycle, t_SupersededBy = [], t_Supersedes = p_Reconsiders original,
      t_RediscoveryRequested = False, t_RediscoveryResult = None,
      t_Lifecycle = \<lparr>wl_ArchivedAt = None, wl_DiscardedAt = None\<rparr>, t_MaintenanceFootprint = None,
      t_AutoMergeSnapshot = None\<rparr>"

fun assign_ids :: "(nat \<Rightarrow> string) \<Rightarrow> nat \<Rightarrow> proposal list \<Rightarrow> (string \<times> string) list" where
  "assign_ids fresh k [] = []"
| "assign_ids fresh k (p # ps) =
     (if p_Decision p = DecisionAccepted then (p_ID p, fresh k) # assign_ids fresh (Suc k) ps
      else assign_ids fresh k ps)"

definition plan_ids :: "(nat \<Rightarrow> string) \<Rightarrow> proposal list \<Rightarrow> string \<Rightarrow> string option" where
  "plan_ids fresh proposals = map_of (rev (assign_ids fresh 0 proposals))"

fun rename_dependencies :: "(string \<Rightarrow> string option) \<Rightarrow> string list \<Rightarrow> (planning_error, string list) result" where
  "rename_dependencies ids [] = Inr []"
| "rename_dependencies ids (d # ds) =
     (case ids d of
        None \<Rightarrow> Inl (DependencyVanished d)
      | Some i \<Rightarrow> rbind (rename_dependencies ids ds) (\<lambda>is. Inr (i # is)))"

definition plan_task :: "env \<Rightarrow> config \<Rightarrow> cycle \<Rightarrow> grounding \<Rightarrow> (string \<Rightarrow> string option) \<Rightarrow> proposal \<Rightarrow>
    (planning_error, task) result" where
  "plan_task env cfg cycle grounding ids p =
     rbind (rename_dependencies ids (p_Dependencies p)) (\<lambda>deps.
       case resolveTarget cfg (g_PRs grounding) (p_Target p) of
         Inl e \<Rightarrow> Inl (Refused e)
       | Inr target \<Rightarrow>
           Inr (newPlannedTask env cfg cycle grounding p (p\<lparr>p_Dependencies := deps\<rparr>)
             (case ids (p_ID p) of None \<Rightarrow> [] | Some i \<Rightarrow> i) target))"

fun plan_tasks :: "env \<Rightarrow> config \<Rightarrow> cycle \<Rightarrow> grounding \<Rightarrow> (string \<Rightarrow> string option) \<Rightarrow> proposal list \<Rightarrow>
    (planning_error, task list) result" where
  "plan_tasks env cfg cycle grounding ids [] = Inr []"
| "plan_tasks env cfg cycle grounding ids (p # ps) =
     (if p_Decision p \<noteq> DecisionAccepted then plan_tasks env cfg cycle grounding ids ps
      else rbind (plan_task env cfg cycle grounding ids p) (\<lambda>t.
             rbind (plan_tasks env cfg cycle grounding ids ps) (\<lambda>ts. Inr (t # ts))))"

subsection \<open>Requests\<close>

definition settle_request :: "env \<Rightarrow> cycle \<Rightarrow> (string \<Rightarrow> string option) \<Rightarrow> operator_request \<Rightarrow> string \<Rightarrow> string \<Rightarrow> request_update" where
  "settle_request env cycle ids r decision reason =
     (let decided = map_of (map (\<lambda>p. (p_ID p, p)) (rev (cy_Proposals cycle))) (Request_ProposalID r);
          assessed = r\<lparr>rq_UpdatedAt := env_Now env,
            rq_Assessment := Some \<lparr>ra_CycleID = cy_ID cycle, ra_ProposalID = map_option p_ID decided, ra_Mode = cy_Mode cycle,
              ra_Decision = decision, ra_Reason = env_Redact env reason, ra_At = env_Now env\<rparr>\<rparr>;
          nxt = (if cy_Mode cycle = CycleModeExecution then
                   (if decision = DecisionAccepted
                    then assessed\<lparr>rq_Status := RequestAccepted,
                      rq_TaskID := Some (case ids (Request_ProposalID r) of None \<Rightarrow> [] | Some i \<Rightarrow> i)\<rparr>
                    else if decision = DecisionRejected then assessed\<lparr>rq_Status := RequestRejected\<rparr>
                    else assessed)
                 else assessed)
      in \<lparr>ru_Expected = r, ru_Next = nxt\<rparr>)"

definition decision_of :: "cycle \<Rightarrow> operator_request \<Rightarrow> string \<times> string" where
  "decision_of cycle r =
     (case map_of (map (\<lambda>p. (p_ID p, p)) (rev (cy_Proposals cycle))) (Request_ProposalID r) of
        None \<Rightarrow> ([], [])
      | Some p \<Rightarrow> (p_Decision p, p_Reason p))"

definition dismissal :: "(string \<Rightarrow> string) \<Rightarrow> operator_request \<Rightarrow> string" where
  "dismissal quote r =
     ''Target '' @ quote (rq_Target r) @ '' is no longer an owned open pull request or the default branch''"

definition requestSettlements :: "(string \<Rightarrow> string) \<Rightarrow> env \<Rightarrow> cycle \<Rightarrow> operator_request list \<Rightarrow> operator_request list \<Rightarrow>
    (string \<Rightarrow> string option) \<Rightarrow> request_update list" where
  "requestSettlements quote env cycle seeded dismissed ids =
     map (\<lambda>r. settle_request env cycle ids r (fst (decision_of cycle r)) (snd (decision_of cycle r))) seeded @
     map (\<lambda>r. settle_request env cycle ids r DecisionRejected (dismissal quote r)) dismissed"

definition request_message :: "cycle \<Rightarrow> string \<Rightarrow> string" where
  "request_message cycle decision =
     (if cy_Mode cycle = CycleModeAudit
      then ''Assessed in audit cycle '' @ show_nat (unat (cy_Number cycle)) @ '': '' @ decision
      else (if decision = DecisionAccepted then ''Accepted'' else if decision = DecisionRejected then ''Rejected'' else ''Deferred'') @
        '' in execution cycle '' @ show_nat (unat (cy_Number cycle)))"

definition requestEvent :: "env \<Rightarrow> handle \<Rightarrow> cycle \<Rightarrow> operator_request \<Rightarrow> database \<Rightarrow> database" where
  "requestEvent env h cycle r db =
     (case rq_Assessment r of
        None \<Rightarrow> db
      | Some a \<Rightarrow> store_Event env h (rq_ID r) EventRequest (request_message cycle (ra_Decision a)) db)"

definition commitPlan :: "env \<Rightarrow> handle \<Rightarrow> bool \<Rightarrow> cycle \<Rightarrow> task list \<Rightarrow> request_update list \<Rightarrow> database \<Rightarrow>
    (planning_error, unit) result \<times> database" where
  "commitPlan env h ctx_done cycle tasks requests db =
     (case CommitPlan h ctx_done cycle tasks requests db of
        (Inl e, db') \<Rightarrow> (Inl (StoreRefused e), db')
      | (Inr u, db') \<Rightarrow> (Inr u, fold (\<lambda>r. requestEvent env h cycle (ru_Next r)) requests db'))"

definition commitTasks :: "(string \<Rightarrow> string) \<Rightarrow> env \<Rightarrow> (nat \<Rightarrow> string) \<Rightarrow> handle \<Rightarrow> bool \<Rightarrow> config \<Rightarrow> cycle \<Rightarrow> operator_request list \<Rightarrow>
    operator_request list \<Rightarrow> database \<Rightarrow> (planning_error, unit) result \<times> database" where
  "commitTasks quote env fresh h ctx_done cfg cycle seeded dismissed db =
     (case cy_Grounding cycle of
        None \<Rightarrow> (Inl MissingGrounding, db)
      | Some grounding \<Rightarrow>
          let ids = plan_ids fresh (cy_Proposals cycle) in
          (case plan_tasks env cfg cycle grounding ids (cy_Proposals cycle) of
             Inl e \<Rightarrow> (Inl e, db)
           | Inr tasks \<Rightarrow>
               let done_cycle = cycle\<lparr>cy_Status := plannedStatus (cy_Proposals cycle), cy_CompletedAt := Some (env_Now env)\<rparr>
               in commitPlan env h ctx_done done_cycle tasks (requestSettlements quote env done_cycle seeded dismissed ids) db))"

subsection \<open>Lemmas\<close>

lemma assign_ids_zip:
  "assign_ids fresh k ps = zip (map p_ID (accepted_of ps)) (map fresh [k..<k + length (accepted_of ps)])"
proof (induction ps arbitrary: k)
  case (Cons p ps)
  then show ?case by (simp add: accepted_of_def upt_rec [of k])
qed (simp add: accepted_of_def)

lemma plan_ids_nth:
  assumes "distinct (map p_ID ps)" and "k < length (accepted_of ps)"
  shows "plan_ids fresh ps (p_ID (accepted_of ps ! k)) = Some (fresh k)"
proof -
  let ?acc = "accepted_of ps"
  have d: "distinct (map p_ID ?acc)" using assms(1) by (simp add: accepted_of_def distinct_map_filter)
  let ?z = "zip (map p_ID ?acc) (map fresh [0..<length ?acc])"
  have "distinct (map fst (rev ?z))" using d by (simp add: rev_map [symmetric] del: rev_map)
  moreover have "(p_ID (?acc ! k), fresh k) \<in> set (rev ?z)"
    using assms(2) by (auto simp: set_zip intro!: exI [of _ k])
  ultimately show ?thesis by (simp add: plan_ids_def assign_ids_zip map_of_eq_Some_iff)
qed

definition task_id_of :: "(nat \<Rightarrow> string) \<Rightarrow> proposal list \<Rightarrow> string \<Rightarrow> string" where
  "task_id_of fresh ps i = the (plan_ids fresh ps i)"

lemma plan_ids_accepted:
  assumes "distinct (map p_ID ps)" and "inj fresh"
  shows "i \<in> p_ID ` set (accepted_of ps) \<Longrightarrow> plan_ids fresh ps i = Some (task_id_of fresh ps i)"
    and "inj_on (task_id_of fresh ps) (p_ID ` set (accepted_of ps))"
proof -
  have nth: "\<exists>k < length (accepted_of ps). i = p_ID (accepted_of ps ! k) \<and> plan_ids fresh ps i = Some (fresh k)"
    if "i \<in> p_ID ` set (accepted_of ps)" for i
  proof -
    from that obtain k where "k < length (accepted_of ps)" "i = p_ID (accepted_of ps ! k)"
      by (metis image_iff in_set_conv_nth)
    with plan_ids_nth [OF assms(1), of k fresh] show ?thesis by blast
  qed
  show "i \<in> p_ID ` set (accepted_of ps) \<Longrightarrow> plan_ids fresh ps i = Some (task_id_of fresh ps i)"
    using nth [of i] by (auto simp: task_id_of_def)
  show "inj_on (task_id_of fresh ps) (p_ID ` set (accepted_of ps))"
  proof (rule inj_onI)
    fix i j
    assume i: "i \<in> p_ID ` set (accepted_of ps)" and j: "j \<in> p_ID ` set (accepted_of ps)"
      and eq: "task_id_of fresh ps i = task_id_of fresh ps j"
    from nth [OF i] nth [OF j] eq show "i = j"
      by (auto simp: task_id_of_def dest: injD [OF assms(2)])
  qed
qed

lemma rename_dependencies_ok:
  "(\<And>d. d \<in> set ds \<Longrightarrow> ids d = Some (f d)) \<Longrightarrow> rename_dependencies ids ds = Inr (map f ds)"
  by (induction ds) auto

lemma plan_tasks_ok:
  "(\<And>p. p \<in> set (accepted_of ps) \<Longrightarrow> plan_task env cfg cycle grounding ids p = Inr (g p)) \<Longrightarrow>
     plan_tasks env cfg cycle grounding ids ps = Inr (map g (accepted_of ps))"
  by (induction ps) (auto simp: accepted_of_def)

lemma plan_task_fresh: "plan_task env cfg cycle grounding ids p = Inr t \<Longrightarrow> fresh_task t"
  by (cases "resolveTarget cfg (g_PRs grounding) (p_Target p)")
    (auto simp: plan_task_def rbind_Inr_iff newPlannedTask_def fresh_task_def)

lemma plan_tasks_fresh:
  "plan_tasks env cfg cycle grounding ids ps = Inr ts \<Longrightarrow> t \<in> set ts \<Longrightarrow> fresh_task t"
proof (induction ps arbitrary: ts)
  case (Cons p ps)
  show ?case
  proof (cases "p_Decision p = DecisionAccepted")
    case True
    with Cons.prems(1) obtain t0 ts0 where "plan_task env cfg cycle grounding ids p = Inr t0"
      "plan_tasks env cfg cycle grounding ids ps = Inr ts0" "ts = t0 # ts0"
      by (auto simp: rbind_Inr_iff)
    with Cons.IH Cons.prems(2) plan_task_fresh show ?thesis by auto
  qed (use Cons in simp)
qed simp

subsection \<open>Properties\<close>


definition sample_cycle :: cycle where
  "sample_cycle = \<lparr>cy_Mode = CycleModeExecution, cy_DeliveryMode = DeliveryModeStandard, cy_ID = ''c1'', cy_Number = 1,
     cy_Status = CycleRunning, cy_StartedAt = ''2025-01-01T00:00:00Z'', cy_CompletedAt = None,
     cy_Grounding = Some sample_grounding, cy_Proposals = sample_proposals, cy_Assessments = [], cy_Sessions = [],
     cy_Error = None, cy_Repository = ''octo/app'', cy_DecisionMemory = [], cy_RunID = None,
     cy_Lifecycle = \<lparr>wl_ArchivedAt = None, wl_DiscardedAt = None\<rparr>\<rparr>"


end
