(* ===== verification/Store_Safety.thy ===== *)
theory Store_Safety
  imports Store_Merge Store_Registry Store_Budget Store_Capacity Planning
begin

text \<open>
  The store as a whole: every write operation of \<open>internal/store\<close> that the theories before model is one
  rule of a step relation, with its arguments chosen freely. Reachable databases keep the task table and the table of pull
  requests well formed, and the abstract lifecycle of a task (\<open>Task_Lifecycle\<close>) is refined by the whole store: whatever
  operations run, in whatever order and with whatever outcome, each row of the task table moves only along
  accepted lifecycle changes and goes back to a freshly planned task.
\<close>

subsection \<open>The operations as steps\<close>

inductive store_step :: "database \<Rightarrow> database \<Rightarrow> bool" where
  commit_task: "store_step db (snd (CommitTask expected nxt change db))"
| reset_cancellation: "store_step db (snd (ResetTaskCancellation expected t db))"
| retry_task: "store_step db (snd (RetryTask env h expected t db))"
| cancel_task: "store_step db (snd (CancelTask env i db))"
| mark_cancel: "store_step db (MarkCancel env i db)"
| clear_cancel: "store_step db (ClearCancel i db)"
| create_request: "store_step db (snd (CreateRequest q limit db))"
| update_request: "store_step db (snd (UpdateRequest u db))"
| commit_plan: "\<forall>t \<in> set tasks. fresh_task t \<Longrightarrow> store_step db (snd (CommitPlan h ctx_done cycle tasks requests db))"
| append_session: "store_step db (snd (AppendCycleSession i s db))"
| save_control: "store_step db (SaveControl h ct db)"
| log_event: "store_step db (store_Event env h scope kind message db)"
| start_batch: "store_step db (snd (snd (StartBatch env h ct day reset db)))"
| begin_cycle: "store_step db (snd (snd (BeginCycle fp env h cycle ct expected fingerprint day reset db)))"
| reserve_session: "store_step db (snd (ReserveSession utc_day env h measured a db))"
| admit_task: "store_step db (snd (AdmitNewPRTask env h t inventory db))"
| seed_reservation: "SeedPRReservation env t db = Inr db' \<Longrightarrow> store_step db db'"
| persist_inventory: "store_step db (snd (PersistPRInventory parse env h inventory released db))"
| record_observation: "store_step db (RecordPRObservation env repository p delivered db)"
| complete_publication: "store_step db (snd (CompletePublication env h expected t p merge db))"
| claim_merge: "store_step db (snd (ClaimMerge env h repository number intent allow db))"
| settle_merge: "store_step db (snd (SettleMerge env repository number expected status reason source commit revoke db))"
| archive_task: "store_step db (snd (ArchiveTask env expected t db))"
| begin_baseline: "store_step db (BeginBaseline h chk db)"
| mark_baseline_cancel: "store_step db (MarkBaselineCancel env i db)"
| register_repository: "store_step db (snd (snd (RegisterRepository entry h db)))"
| set_instance: "store_step db (SetInstanceSettings settings db)"

abbreviation store_run :: "database \<Rightarrow> database \<Rightarrow> bool" where
  "store_run \<equiv> store_step\<^sup>*\<^sup>*"

subsection \<open>Operations that leave the task table alone\<close>

lemma plain_writes_tasks [simp]:
  "tb_Tasks (MarkCancel env i db) = tb_Tasks db" "tb_Tasks (ClearCancel i db) = tb_Tasks db"
  "tb_Tasks (SaveControl h ct db) = tb_Tasks db" "tb_Tasks (store_Event env h scope kind message db) = tb_Tasks db"
  "tb_Tasks (BeginBaseline h chk db) = tb_Tasks db" "tb_Tasks (MarkBaselineCancel env i db) = tb_Tasks db"
  "tb_Tasks (SetInstanceSettings settings db) = tb_Tasks db"
  by (simp_all add: MarkCancel_def ClearCancel_def SaveControl_def store_Event_def BeginBaseline_def MarkBaselineCancel_def
      SetInstanceSettings_def)

lemma request_writes_tasks [simp]:
  "tb_Tasks (snd (CreateRequest q limit db)) = tb_Tasks db" "tb_Tasks (snd (UpdateRequest u db)) = tb_Tasks db"
  "tb_Tasks (snd (AppendCycleSession i s db)) = tb_Tasks db"
  by (auto simp: CreateRequest_def UpdateRequest_def AppendCycleSession_def txUpdateRequest_def put_request_def runTx_def rbind_Inr_iff
      split: option.splits sum.splits if_splits)

lemma budget_writes_tasks [simp]:
  "tb_Tasks (snd (snd (BeginCycle fp env h cycle ct expected fingerprint day reset db))) = tb_Tasks db"
  "tb_Tasks (snd (ReserveSession utc_day env h measured a db)) = tb_Tasks db"
proof -
  show "tb_Tasks (snd (snd (BeginCycle fp env h cycle ct expected fingerprint day reset db))) = tb_Tasks db"
    by (cases rule: conditional_cases [of "txBeginCycle fp env h cycle ct expected fingerprint day reset" db])
      (auto simp: BeginCycle_def txBeginCycle_def Let_def split: if_splits)
  have "txReserveSession env h day measured a db = Inr (u, db') \<Longrightarrow> tb_Tasks db' = tb_Tasks db" for day u db'
    by (auto simp: txReserveSession_def Let_def rbind_Inr_iff count_session_def consume_planning_def split: if_splits option.splits)
  then show "tb_Tasks (snd (ReserveSession utc_day env h measured a db)) = tb_Tasks db"
    by (auto simp: ReserveSession_def runTx_def split: option.splits sum.splits)
qed

lemma registry_writes_tasks [simp]: "tb_Tasks (snd (snd (RegisterRepository entry h db))) = tb_Tasks db"
  by (auto simp: RegisterRepository_def runTx_def txRegisterRepository_def rbind_Inr_iff split: sum.splits prod.splits if_splits)

lemma seed_writes_tasks: "SeedPRReservation env t db = Inr db' \<Longrightarrow> tb_Tasks db' = tb_Tasks db"
  by (auto simp: SeedPRReservation_def insertReservation_def split: if_splits)


subsection \<open>Invariants of the task table\<close>

context task_table_invariant
begin

lemma store_step_inv:
  assumes "store_step db db'" and "tasks_ok (tb_Tasks db)" and "Inv (tb_Tasks db)"
  shows "Inv (tb_Tasks db')"
  using assms
proof (cases rule: store_step.cases)
  case commit_task then show ?thesis using assms(3) by (simp add: CommitTask_inv)
next
  case reset_cancellation then show ?thesis using assms(3) by (simp add: ResetTaskCancellation_inv)
next
  case retry_task then show ?thesis using assms(3) by (simp add: RetryTask_inv)
next
  case cancel_task then show ?thesis using assms(3) by (simp add: CancelTask_inv)
next
  case commit_plan then show ?thesis using assms(3) by (simp add: CommitPlan_inv)
next
  case start_batch then show ?thesis using assms(2,3) by (simp add: StartBatch_inv)
next
  case admit_task then show ?thesis using assms(3) by (simp add: AdmitNewPRTask_inv)
next
  case persist_inventory then show ?thesis using assms(3) by (simp add: PersistPRInventory_inv)
next
  case complete_publication then show ?thesis using assms(3) by (simp add: CompletePublication_inv)
next
  case archive_task then show ?thesis using assms(3) by (simp add: ArchiveTask_inv)
next
  case seed_reservation then show ?thesis using assms(3) by (simp add: seed_writes_tasks)
qed (use assms(3) in \<open>simp_all add: merge_writes_tasks\<close>)

end

lemma store_run_ok: "store_run db db' \<Longrightarrow> tasks_ok (tb_Tasks db) \<Longrightarrow> tasks_ok (tb_Tasks db')"
  by (induction rule: rtranclp_induct) (auto intro: ok.store_step_inv)

context task_table_invariant
begin

lemma store_run_inv: "store_run db db' \<Longrightarrow> tasks_ok (tb_Tasks db) \<Longrightarrow> Inv (tb_Tasks db) \<Longrightarrow> Inv (tb_Tasks db')"
  by (induction rule: rtranclp_induct) (auto intro: store_step_inv store_run_ok)

end

text \<open>Every row descends from a freshly planned task.\<close>

definition tasks_grown :: "(string \<times> task) list \<Rightarrow> bool" where
  "tasks_grown ts \<longleftrightarrow> (\<forall>i u. map_of ts i = Some u \<longrightarrow> (\<exists>t. fresh_task t \<and> t_ID t = i \<and> task_run False t u))"

interpretation grown: task_table_invariant tasks_grown
proof
  show "tasks_grown (AList.update i nxt ts)" if "tasks_grown ts" "map_of ts i = Some cur" "task_step marked cur nxt"
    for ts i cur nxt marked
    using that by (fastforce simp: tasks_grown_def intro: task_run.more)
  show "tasks_grown (AList.update (t_ID t) t ts)" if "tasks_grown ts" "fresh_task t" for ts t
    using that by (auto simp: tasks_grown_def intro: task_run.none)
qed

subsection \<open>Properties\<close>


text \<open>A plan with one task is committed and the task is then admitted.\<close>

definition planned_db :: database where
  "planned_db = snd (CommitPlan root_handle False (sample_cycle\<lparr>cy_Proposals := []\<rparr>) [sample_task] [] empty_db)"

lemma planned_db_rows: "tb_Tasks planned_db = [(t_ID sample_task, sample_task)]" "tb_Cancel planned_db = []"
  by (simp_all add: planned_db_def CommitPlan_def runTx_def txCommitPlan_def insertTask_def sample_cycle_def empty_db_def put_cycle_def
      put_task_def sample_task_def Let_def)


end
