(* ===== verification/Engine_State.thy ===== *)
theory Engine_State
  imports Store_Merge Store_Budget Store_Capacity
begin

text \<open>
  The state of the engine, \<open>internal/engine/runtime.go\<close> and \<open>engine.go\<close>: the jobs the process owns and the barriers that
  block admission, beside the database. Jobs carry a serial number, which stands for the identity of the job's
  pointer. Cancel functions, timers and notifications have no counterpart. An operation runs under the
  gate and is one step; where the code releases the gate, the operation takes the function \<open>window\<close>, which
  stands for everything other operations do to the state meanwhile.
\<close>

datatype task_worker_kind = executionWorker | reconciliationWorker

record task_job =
  tj_Serial :: nat
  tj_Branch :: string
  tj_Kind :: task_worker_kind
  tj_Committed :: task
  tj_Pending :: "task option"

datatype cleanup_kind = cleanupTask | cleanupCycle | cleanupBaseline

record fresh_prs =
  fp_Policy :: config
  fp_Inventory :: open_pr_inventory
  fp_FetchedAt :: int
  fp_AdmissionConsumed :: bool

text \<open>A merge settlement whose write failed while it only recorded a precheck decision.\<close>

record merge_precheck =
  mp_Message :: string
  mp_Repository :: string
  mp_Number :: u64
  mp_Expected :: auto_merge_state
  mp_Status :: auto_merge_status
  mp_Reason :: string
  mp_Source :: string
  mp_Commit :: "string option"
  mp_Revoke :: bool

text \<open>Times of the monotonic clock are integers (nanoseconds); the zero time is None.\<close>

record cleanup_report =
  cr_Message :: string
  cr_At :: int

record runtime_state =
  rt_Cycle :: "(string \<times> cycle_mode) option"
  rt_Preflight :: "cycle_mode option"
  rt_Tasks :: "(string \<times> task_job) list"
  rt_Settlements :: "(string \<times> task_job) list"
  rt_CheckedCycles :: "string list"
  rt_PRRefresh :: bool
  rt_PRObservation :: "fresh_prs option"
  rt_PRRefreshError :: string
  rt_LastPRAttempt :: "int option"
  rt_PRAdmissionRefused :: bool
  rt_Housekeeping :: bool
  rt_LastRetention :: "int option"
  rt_LastObserve :: "int option"
  rt_Baseline :: "string option"
  rt_Merges :: "string list"
  rt_MergeWorker :: bool
  rt_MergeCursor :: nat
  rt_LastMergeCheck :: "int option"
  rt_MergeRecoveryErrors :: "(string \<times> string) list"
  rt_MergePrecheckErrors :: "(string \<times> merge_precheck) list"
  rt_DefaultObservation :: "default_branch_observation option"
  rt_Cleanups :: "(cleanup_kind \<times> string) list"
  rt_CleanupReports :: "((cleanup_kind \<times> string) \<times> cleanup_report) list"
  rt_RetentionCursors :: "(cleanup_kind \<times> string) list"
  rt_ActiveRecoveryError :: "string option"
  rt_CancelScanDone :: bool
  rt_NextSerial :: nat

record engine =
  en_RT :: runtime_state
  en_DB :: database

text \<open>An error as the engine sees it: the reasons its tree carries, its redacted text and whether it
  is \<open>context.Canceled\<close>.\<close>

record cause =
  ca_Tree :: error_tree
  ca_Text :: string
  ca_Canceled :: bool

datatype engine_error =
    ActionConflict string | TaskConflict store_error | StoreFailed store_error | ActionNotFound string
  | NotOwned | WorkFailed cause | RecoveryBlocked | PlanRefused string

subsection \<open>Runtime predicates\<close>

definition rt_planning :: "runtime_state \<Rightarrow> bool" where
  "rt_planning r \<longleftrightarrow> rt_Cycle r \<noteq> None \<or> rt_Preflight r \<noteq> None"

definition rt_idle :: "runtime_state \<Rightarrow> bool" where
  "rt_idle r \<longleftrightarrow>
     \<not> rt_planning r \<and> length (rt_Tasks r) = 0 \<and> length (rt_Settlements r) = 0 \<and> rt_Baseline r = None \<and>
     \<not> rt_MergeWorker r"

definition rt_reconciling :: "runtime_state \<Rightarrow> bool" where
  "rt_reconciling r \<longleftrightarrow> list_ex (\<lambda>(_, job). tj_Kind job = reconciliationWorker) (rt_Tasks r)"

definition rt_auditActive :: "runtime_state \<Rightarrow> bool" where
  "rt_auditActive r \<longleftrightarrow> map_option snd (rt_Cycle r) = Some CycleModeAudit \<or> rt_Preflight r = Some CycleModeAudit"

definition startPreflight :: "cycle_mode \<Rightarrow> runtime_state \<Rightarrow> runtime_state" where
  "startPreflight mode r = r\<lparr>rt_Preflight := Some mode\<rparr>"

definition endPreflight :: "engine \<Rightarrow> engine" where
  "endPreflight e = e\<lparr>en_RT := (en_RT e)\<lparr>rt_Preflight := None\<rparr>\<rparr>"

definition ownedTaskIDs :: "runtime_state \<Rightarrow> string list" where
  "ownedTaskIDs r =
     map fst (rt_Tasks r) @ map fst (rt_Settlements r) @
     map snd (filter (\<lambda>(kind, _). kind = cleanupTask) (rt_Cleanups r))"

definition setRecoveryError :: "string \<Rightarrow> engine \<Rightarrow> engine" where
  "setRecoveryError message e = e\<lparr>en_RT := (en_RT e)\<lparr>rt_ActiveRecoveryError := Some message\<rparr>\<rparr>"

definition recoveryConflict :: "engine \<Rightarrow> engine_error go_error" where
  "recoveryConflict e =
     (if rt_ActiveRecoveryError (en_RT e) \<noteq> None \<or> length (rt_MergeRecoveryErrors (en_RT e)) \<noteq> 0 \<or>
         length (rt_MergePrecheckErrors (en_RT e)) \<noteq> 0
      then Some RecoveryBlocked else None)"

definition cleanupClaimed :: "cleanup_kind \<Rightarrow> string \<Rightarrow> engine \<Rightarrow> bool" where
  "cleanupClaimed kind i e \<longleftrightarrow> (kind, i) \<in> set (rt_Cleanups (en_RT e))"

definition claimCleanup :: "cleanup_kind \<Rightarrow> string \<Rightarrow> engine \<Rightarrow> bool \<times> engine" where
  "claimCleanup kind i e =
     (if cleanupClaimed kind i e then (False, e)
      else (True, e\<lparr>en_RT := (en_RT e)\<lparr>rt_Cleanups := (kind, i) # rt_Cleanups (en_RT e)\<rparr>\<rparr>))"

definition releaseCleanup :: "cleanup_kind \<Rightarrow> string \<Rightarrow> engine \<Rightarrow> engine" where
  "releaseCleanup kind i e =
     e\<lparr>en_RT := (en_RT e)\<lparr>rt_Cleanups := filter (\<lambda>key. key \<noteq> (kind, i)) (rt_Cleanups (en_RT e)),
        rt_CancelScanDone := (if kind = cleanupTask then False else rt_CancelScanDone (en_RT e))\<rparr>\<rparr>"

definition cleanupReportInterval :: int where
  "cleanupReportInterval = 24 * 3600 * 1000000000"

definition reportCleanupFailure :: "env \<Rightarrow> handle \<Rightarrow> int \<Rightarrow> cleanup_kind \<Rightarrow> string \<Rightarrow> string \<Rightarrow> engine \<Rightarrow> engine" where
  "reportCleanupFailure env h now kind i message e =
     (if (case map_of (rt_CleanupReports (en_RT e)) (kind, i) of None \<Rightarrow> False
          | Some prior \<Rightarrow> cr_Message prior = message \<and> now - cr_At prior < cleanupReportInterval)
      then e
      else e\<lparr>en_RT := (en_RT e)\<lparr>rt_CleanupReports :=
               AList.update (kind, i) \<lparr>cr_Message = message, cr_At = now\<rparr> (rt_CleanupReports (en_RT e))\<rparr>,
             en_DB := store_Event env h i EventCleanupError message (en_DB e)\<rparr>)"

definition clearCleanupReport :: "cleanup_kind \<Rightarrow> string \<Rightarrow> engine \<Rightarrow> engine" where
  "clearCleanupReport kind i e =
     e\<lparr>en_RT := (en_RT e)\<lparr>rt_CleanupReports := AList.delete (kind, i) (rt_CleanupReports (en_RT e))\<rparr>\<rparr>"

definition Drained :: "engine \<Rightarrow> bool" where
  "Drained e \<longleftrightarrow>
     (let r = en_RT e in
      length (rt_Tasks r) = 0 \<and> \<not> rt_planning r \<and> \<not> rt_Housekeeping r \<and> \<not> rt_PRRefresh r \<and> rt_Baseline r = None \<and>
      \<not> rt_MergeWorker r)"

subsection \<open>Records\<close>

text \<open>The deployment pins the repository identity of whatever configuration is saved.\<close>

definition engine_Config :: "(config \<Rightarrow> config) \<Rightarrow> handle \<Rightarrow> engine \<Rightarrow> config" where
  "engine_Config pin h e = pin (storedConfig (en_DB e) (store_ConfigKey h))"

definition engine_Control :: "handle \<Rightarrow> engine \<Rightarrow> control" where
  "engine_Control h e = liveControl (en_DB e) (store_ControlKey h)"

definition engine_Event :: "env \<Rightarrow> handle \<Rightarrow> string \<Rightarrow> event_kind \<Rightarrow> string \<Rightarrow> engine \<Rightarrow> engine" where
  "engine_Event env h entity kind message e = e\<lparr>en_DB := store_Event env h entity kind message (en_DB e)\<rparr>"

definition on_db :: "(database \<Rightarrow> (store_error, 'a) result \<times> database) \<Rightarrow> engine \<Rightarrow> (store_error, 'a) result \<times> engine" where
  "on_db op e = (let (r, db) = op (en_DB e) in (r, e\<lparr>en_DB := db\<rparr>))"

lemma on_db_simps: "fst (on_db op e) = fst (op (en_DB e))" "snd (on_db op e) = e\<lparr>en_DB := snd (op (en_DB e))\<rparr>"
  by (simp_all add: on_db_def split_def Let_def)

end
