(* ===== verification/Engine_Tasks.thy ===== *)
theory Engine_Tasks
  imports Engine_State
begin

text \<open>
  The task writes of the engine: \<open>internal/engine/task_commit.go\<close> (the commit boundary of orchestrator and workers),
  \<open>task_worker.go\<close> (worker ownership and settlement) and the task part of \<open>recovery.go\<close>. \<open>workspace.Initialized\<close> reads the file
  system and is the parameter \<open>initialized\<close>.
\<close>

subsection \<open>The commit boundary\<close>

definition is_conflict :: "store_error \<Rightarrow> bool" where
  "is_conflict err = (case err of ErrTaskConflict _ \<Rightarrow> True | MergeConflict _ _ \<Rightarrow> True | _ \<Rightarrow> False)"

definition is_invalid :: "store_error \<Rightarrow> bool" where
  "is_invalid err = (case err of ErrTaskInvalid _ \<Rightarrow> True | _ \<Rightarrow> False)"

definition commitTaskLocked :: "env \<Rightarrow> task \<Rightarrow> task \<Rightarrow> task_change \<Rightarrow> engine \<Rightarrow> (engine_error, task) result \<times> engine" where
  "commitTaskLocked env expected t change e =
     (case on_db (CommitTask expected (t\<lparr>t_UpdatedAt := env_Now env\<rparr>) change) e of
        (Inl err, e') \<Rightarrow> (Inl (if is_conflict err then TaskConflict err else StoreFailed err), e')
      | (Inr committed, e') \<Rightarrow> (Inr committed, e'))"

definition statusLabel :: "status \<Rightarrow> string" where
  "statusLabel s =
     (case Status_String s of
        [] \<Rightarrow> []
      | c # cs \<Rightarrow> (if CHR ''a'' \<le> c \<and> c \<le> CHR ''z'' then char_of (of_char c - 32 :: nat) else c) # cs)"

definition recordTaskError :: "cause \<Rightarrow> task \<Rightarrow> task" where
  "recordTaskError err t =
     (let reason = BlockedReasonFromError (Some (ca_Tree err));
          reason = (if reason = BlockedUnknown \<and> t_Status t = StatusPublishing \<and> t_OutputCommit t \<noteq> None
                    then BlockedPublicationUncertain else reason)
      in t\<lparr>t_BlockedReason := Some reason, t_Error := Some (ca_Text err)\<rparr>)"

definition admitTaskLocked :: "env \<Rightarrow> handle \<Rightarrow> task \<Rightarrow> engine \<Rightarrow> (engine_error, task) result \<times> engine" where
  "admitTaskLocked env h t e =
     (case commitTaskLocked env t (t\<lparr>t_Status := StatusExecuting\<rparr>) TaskAdmission e of
        (Inl err, e') \<Rightarrow> (Inl err, e')
      | (Inr nxt, e') \<Rightarrow> (Inr nxt, engine_Event env h (t_ID nxt) EventStatus (statusLabel (t_Status nxt)) e'))"

definition blockTaskLocked :: "env \<Rightarrow> handle \<Rightarrow> task \<Rightarrow> cause \<Rightarrow> engine \<Rightarrow> (engine_error, task) result \<times> engine" where
  "blockTaskLocked env h t err e =
     (case commitTaskLocked env t ((recordTaskError err t)\<lparr>t_Status := StatusBlocked\<rparr>) TaskSettlement e of
        (Inl x, e') \<Rightarrow> (Inl x, e')
      | (Inr nxt, e') \<Rightarrow> (Inr nxt, engine_Event env h (t_ID nxt) EventStatus (statusLabel (t_Status nxt)) e'))"

definition cancelledByOperator :: string where
  "cancelledByOperator = ''Cancelled by the operator''"

definition taskCancellationApplies :: "task \<Rightarrow> engine \<Rightarrow> bool" where
  "taskCancellationApplies t e \<longleftrightarrow> t_OutputCommit t = None \<and> CancelMarked (en_DB e) (t_ID t)"

text \<open>The record a worker's exit leaves behind.\<close>

definition exited_next :: "bool \<Rightarrow> cause \<Rightarrow> task \<Rightarrow> task" where
  "exited_next cancelled err t =
     (let nxt = t\<lparr>t_Sessions := FailRunning (t_Sessions t) (ca_Text err)\<rparr> in
      if cancelled
      then nxt\<lparr>t_Status := StatusCancelled, t_Error := Some cancelledByOperator, t_BlockedReason := None\<rparr>
      else if Status_Active (t_Status nxt) then (recordTaskError err nxt)\<lparr>t_Status := StatusBlocked\<rparr>
      else nxt)"

definition settleExitedTask :: "env \<Rightarrow> handle \<Rightarrow> task \<Rightarrow> cause \<Rightarrow> engine \<Rightarrow> (engine_error, task) result \<times> engine" where
  "settleExitedTask env h t err e =
     (let cancelled = taskCancellationApplies t e; nxt = exited_next cancelled err t in
      if \<not> cancelled \<and> \<not> Status_Active (t_Status t) \<and> nxt = t then (Inr t, e)
      else case commitTaskLocked env t nxt TaskSettlement e of
          (Inl x, e') \<Rightarrow> (Inl x, e')
        | (Inr committed, e') \<Rightarrow>
            let e1 = (if t_Status committed \<noteq> t_Status t
                      then engine_Event env h (t_ID committed) EventStatus (statusLabel (t_Status committed)) e' else e');
                e2 = (if cancelled then engine_Event env h (t_ID committed) EventError (ca_Text err) e1 else e1)
            in (Inr committed, e2))"

subsection \<open>Worker ownership\<close>

definition worker_owns :: "nat \<Rightarrow> string \<Rightarrow> engine \<Rightarrow> task_job option" where
  "worker_owns serial i e =
     (case map_of (rt_Tasks (en_RT e)) i of
        None \<Rightarrow> None
      | Some job \<Rightarrow> if tj_Serial job = serial then Some job else None)"

definition set_job :: "string \<Rightarrow> task_job \<Rightarrow> engine \<Rightarrow> engine" where
  "set_job i job e = e\<lparr>en_RT := (en_RT e)\<lparr>rt_Tasks := AList.update i job (rt_Tasks (en_RT e))\<rparr>\<rparr>"

text \<open>Registering a second worker of a task panics: None.\<close>

definition registerTaskWorker :: "task \<Rightarrow> task_worker_kind \<Rightarrow> engine \<Rightarrow> (nat \<times> engine) option" where
  "registerTaskWorker t kind e =
     (if map_of (rt_Tasks (en_RT e)) (t_ID t) \<noteq> None then None
      else let serial = rt_NextSerial (en_RT e);
               job = \<lparr>tj_Serial = serial, tj_Branch = t_Branch t, tj_Kind = kind, tj_Committed = t, tj_Pending = None\<rparr>
           in Some (serial, set_job (t_ID t) job (e\<lparr>en_RT := (en_RT e)\<lparr>rt_NextSerial := Suc serial\<rparr>\<rparr>)))"

definition commitWorkerTaskLocked :: "env \<Rightarrow> nat \<Rightarrow> task \<Rightarrow> task_change \<Rightarrow> engine \<Rightarrow> (engine_error, task) result \<times> engine" where
  "commitWorkerTaskLocked env serial t change e =
     (case worker_owns serial (t_ID t) e of
        None \<Rightarrow> (Inl NotOwned, e)
      | Some job \<Rightarrow>
          let nxt = (if change = TaskSettlement then SettleTaskEvidence (tj_Committed job) t else t)\<lparr>t_UpdatedAt := env_Now env\<rparr>
          in (case on_db (CommitTask (tj_Committed job) nxt change) e of
                (Inl err, e') \<Rightarrow> (Inl (StoreFailed err), set_job (t_ID t) (job\<lparr>tj_Pending := Some nxt\<rparr>) e')
              | (Inr committed, e') \<Rightarrow>
                  (Inr committed, set_job (t_ID t) (job\<lparr>tj_Committed := committed, tj_Pending := None\<rparr>) e')))"

definition settles_status :: "status \<Rightarrow> bool" where
  "settles_status s \<longleftrightarrow> s = StatusBlocked \<or> s = StatusCancelled \<or> s = StatusFailed"

definition transitionTask :: "env \<Rightarrow> handle \<Rightarrow> nat \<Rightarrow> task \<Rightarrow> status \<Rightarrow> engine \<Rightarrow> (engine_error, task) result \<times> engine" where
  "transitionTask env h serial t s e =
     (case commitWorkerTaskLocked env serial (t\<lparr>t_Status := s\<rparr>) (if settles_status s then TaskSettlement else TaskCheckpoint) e of
        (Inl x, e') \<Rightarrow> (Inl x, e')
      | (Inr nxt, e') \<Rightarrow> (Inr nxt, engine_Event env h (t_ID nxt) EventStatus (statusLabel (t_Status nxt)) e'))"

definition unexpected_exit :: cause where
  "unexpected_exit = \<lparr>ca_Tree = Plain, ca_Text = ''Task worker exited unexpectedly; inspect the preserved workspace'',
     ca_Canceled = False\<rparr>"

definition causeOrUnexpected :: "cause option \<Rightarrow> cause" where
  "causeOrUnexpected c = (case c of None \<Rightarrow> unexpected_exit | Some x \<Rightarrow> x)"

definition settlement_next :: "(task \<Rightarrow> bool) \<Rightarrow> bool \<Rightarrow> env \<Rightarrow> task_job \<Rightarrow> task \<Rightarrow> cause option \<Rightarrow> task" where
  "settlement_next initialized stopping env job pending cause =
     (let nxt = SettleTaskEvidence (tj_Committed job) pending;
          interrupted = tj_Kind job = executionWorker \<and> stopping \<and> initialized (tj_Committed job) \<and> Status_Active (t_Status nxt);
          failed = nxt\<lparr>t_Sessions := FailRunning (t_Sessions nxt) (ca_Text (causeOrUnexpected cause))\<rparr>
      in (if interrupted then nxt
          else if Status_Active (t_Status failed)
          then (recordTaskError (causeOrUnexpected cause) failed)\<lparr>t_Status := StatusBlocked\<rparr>
          else failed)\<lparr>t_UpdatedAt := env_Now env\<rparr>)"

text \<open>\<open>flushTaskSettlement\<close> returns the job it leaves, which the caller keeps or drops.\<close>

definition flushTaskSettlement :: "(task \<Rightarrow> bool) \<Rightarrow> bool \<Rightarrow> env \<Rightarrow> handle \<Rightarrow> task_job \<Rightarrow> cause option \<Rightarrow> engine \<Rightarrow>
    (store_error, unit) result \<times> task_job \<times> engine" where
  "flushTaskSettlement initialized stopping env h job cause e =
     (case tj_Pending job of
        None \<Rightarrow> (Inr (), job, e)
      | Some pending \<Rightarrow>
          let nxt = settlement_next initialized stopping env job pending cause in
          (case on_db (CommitTask (tj_Committed job) nxt TaskSettlement) e of
             (Inl err, e') \<Rightarrow> (Inl err, job\<lparr>tj_Pending := Some nxt\<rparr>, e')
           | (Inr committed, e') \<Rightarrow>
               (Inr (), job\<lparr>tj_Committed := committed, tj_Pending := None\<rparr>,
                if t_Status committed \<noteq> t_Status (tj_Committed job)
                then engine_Event env h (t_ID committed) EventStatus (statusLabel (t_Status committed)) e' else e')))"

text \<open>\<open>describe\<close> is the redacted text of an error of the store.\<close>

definition store_cause :: "(store_error \<Rightarrow> string) \<Rightarrow> store_error \<Rightarrow> cause" where
  "store_cause describe err = \<lparr>ca_Tree = Plain, ca_Text = describe err, ca_Canceled = False\<rparr>"

definition drop_worker :: "string \<Rightarrow> bool \<Rightarrow> engine \<Rightarrow> engine" where
  "drop_worker i rescan e =
     e\<lparr>en_RT := (en_RT e)\<lparr>rt_Tasks := AList.delete i (rt_Tasks (en_RT e)),
        rt_CancelScanDone := (if rescan then False else rt_CancelScanDone (en_RT e))\<rparr>\<rparr>"

definition keep_settlement :: "string \<Rightarrow> task_job \<Rightarrow> string \<Rightarrow> engine \<Rightarrow> engine" where
  "keep_settlement i job message e =
     (let e1 = setRecoveryError message e
      in e1\<lparr>en_RT := (en_RT e1)\<lparr>rt_Settlements := AList.update i job (rt_Settlements (en_RT e1))\<rparr>\<rparr>)"

definition engine_message :: "(store_error \<Rightarrow> string) \<Rightarrow> engine_error \<Rightarrow> string" where
  "engine_message describe err =
     (case err of TaskConflict x \<Rightarrow> describe x | StoreFailed x \<Rightarrow> describe x | ActionConflict m \<Rightarrow> m | _ \<Rightarrow> [])"

definition settle_current :: "(store_error \<Rightarrow> string) \<Rightarrow> (task \<Rightarrow> bool) \<Rightarrow> bool \<Rightarrow> env \<Rightarrow> handle \<Rightarrow> string \<Rightarrow> task_job \<Rightarrow>
    cause option \<Rightarrow> engine \<Rightarrow> engine" where
  "settle_current describe initialized stopping env h i job cause e =
     (case map_of (tb_Tasks (en_DB e)) i of
        None \<Rightarrow> drop_worker i False e
      | Some cur \<Rightarrow>
          if tj_Kind job = executionWorker \<and> stopping \<and> initialized cur then drop_worker i (t_Status cur = StatusCancelled) e
          else
            let why = (case cause of None \<Rightarrow> unexpected_exit | Some c \<Rightarrow> if ca_Canceled c then unexpected_exit else c) in
            (case settleExitedTask env h cur why e of
               (Inl err, e') \<Rightarrow>
                 drop_worker i (t_Status cur = StatusCancelled)
                   (keep_settlement i (job\<lparr>tj_Committed := cur, tj_Pending := Some cur\<rparr>) (engine_message describe err) e')
             | (Inr after, e') \<Rightarrow> drop_worker i (t_Status after = StatusCancelled) e'))"

definition finishTaskWorker :: "(store_error \<Rightarrow> string) \<Rightarrow> (task \<Rightarrow> bool) \<Rightarrow> bool \<Rightarrow> env \<Rightarrow> handle \<Rightarrow> string \<Rightarrow> cause option \<Rightarrow>
    engine \<Rightarrow> engine" where
  "finishTaskWorker describe initialized stopping env h i cause e =
     (case map_of (rt_Tasks (en_RT e)) i of
        None \<Rightarrow> e
      | Some job \<Rightarrow>
          (case flushTaskSettlement initialized stopping env h job cause e of
             (Inr _, job', e') \<Rightarrow> settle_current describe initialized stopping env h i job' cause e'
           | (Inl err, job', e') \<Rightarrow>
               if is_conflict err \<or> is_invalid err
               then settle_current describe initialized stopping env h i (job'\<lparr>tj_Pending := None\<rparr>)
                      (Some (store_cause describe err)) e'
               else drop_worker i (map_option t_Status (map_of (tb_Tasks (en_DB e')) i) = Some StatusCancelled)
                      (keep_settlement i job' (describe err) e')))"

text \<open>The settlements kept after a refused write, retried in one pass; the map is visited in list order.\<close>

definition drop_settlement :: "string \<Rightarrow> engine \<Rightarrow> engine" where
  "drop_settlement i e =
     e\<lparr>en_RT := (en_RT e)\<lparr>rt_Settlements := AList.delete i (rt_Settlements (en_RT e)), rt_CancelScanDone := False\<rparr>\<rparr>"

fun settle_pending :: "(task \<Rightarrow> bool) \<Rightarrow> bool \<Rightarrow> env \<Rightarrow> handle \<Rightarrow> (string \<times> task_job) list \<Rightarrow> engine \<Rightarrow>
    (store_error, unit) result \<times> engine" where
  "settle_pending initialized stopping env h [] e = (Inr (), e)"
| "settle_pending initialized stopping env h ((i, job) # rest) e =
     (case flushTaskSettlement initialized stopping env h job None e of
        (Inl err, job', e') \<Rightarrow>
          if \<not> is_conflict err \<and> \<not> is_invalid err
          then (Inl err, e'\<lparr>en_RT := (en_RT e')\<lparr>rt_Settlements := AList.update i job' (rt_Settlements (en_RT e'))\<rparr>\<rparr>)
          else settle_pending initialized stopping env h rest (drop_settlement i e')
      | (Inr _, job', e') \<Rightarrow> settle_pending initialized stopping env h rest (drop_settlement i e'))"

definition settlePendingTasks :: "(task \<Rightarrow> bool) \<Rightarrow> bool \<Rightarrow> env \<Rightarrow> handle \<Rightarrow> engine \<Rightarrow> (store_error, unit) result \<times> engine" where
  "settlePendingTasks initialized stopping env h e =
     settle_pending initialized stopping env h (rt_Settlements (en_RT e)) e"

subsection \<open>Recovery\<close>

definition PageLimit :: nat where
  "PageLimit = 500"

definition in_scope :: "handle \<Rightarrow> task \<Rightarrow> bool" where
  "in_scope h t \<longleftrightarrow> h_Repo h = [] \<or> EqualASCII (c_GitHubRepo (t_Config t)) (h_Repo h)"

definition active_tasks :: "handle \<Rightarrow> database \<Rightarrow> task list" where
  "active_tasks h db =
     filter (\<lambda>t. Status_Active (t_Status t) \<and> wl_ArchivedAt (t_Lifecycle t) = None \<and> in_scope h t) (map snd (tb_Tasks db))"

definition ActiveTasks :: "handle \<Rightarrow> database \<Rightarrow> task list" where
  "ActiveTasks h db = take PageLimit (active_tasks h db)"

definition ActiveTasksExcept :: "handle \<Rightarrow> string list \<Rightarrow> database \<Rightarrow> task list" where
  "ActiveTasksExcept h excluded db =
     take PageLimit (filter (\<lambda>t. wl_DiscardedAt (t_Lifecycle t) = None \<and> t_ID t \<notin> set excluded) (active_tasks h db))"

definition CancelledWithLiveSessions :: "handle \<Rightarrow> string list \<Rightarrow> database \<Rightarrow> task list" where
  "CancelledWithLiveSessions h excluded db =
     take PageLimit (filter (\<lambda>t. t_Status t = StatusCancelled \<and> in_scope h t \<and> t_ID t \<notin> set excluded \<and>
       list_ex (\<lambda>s. s_Status s = SessionRunning) (t_Sessions t)) (map snd (tb_Tasks db)))"

text \<open>What \<open>Recover\<close> writes for a task that was active when the service stopped.\<close>

definition recover_next :: "(task \<Rightarrow> bool) \<Rightarrow> bool \<Rightarrow> task \<Rightarrow> task" where
  "recover_next initialized marked t =
     (let u = t\<lparr>t_Sessions := InterruptRunning (t_Sessions t)\<rparr> in
      if marked \<and> t_OutputCommit u = None
      then u\<lparr>t_Status := StatusCancelled, t_Error := Some ''Operator cancellation preserved across restart''\<rparr>
      else if initialized u \<and> t_Attempts u < c_MaxRetries (ExecutionConfig u)
      then u\<lparr>t_Status := StatusQueued, t_Attempts := t_Attempts u + 1,
             t_Error := Some ''Recovering an interrupted task: inspecting the recorded workspace and reconciling remote state before continuing.''\<rparr>
      else u\<lparr>t_Status := StatusBlocked,
             t_BlockedReason := Some
               (if initialized u then (if t_OutputCommit u \<noteq> None then BlockedPublicationUncertain else BlockedRetryLimit)
                else BlockedWorkspaceInvalid),
             t_Error := Some
               (if initialized u \<and> t_OutputCommit u \<noteq> None
                then ''Service interrupted during publication after the retry budget was exhausted. Reconcile publication to finish delivery without another model turn.''
                else ''Service interrupted before workspace initialization completed, or retry budget exhausted. Inspect the preserved task before retrying.'')\<rparr>)"

definition recover_task :: "(task \<Rightarrow> bool) \<Rightarrow> env \<Rightarrow> handle \<Rightarrow> task \<Rightarrow> engine \<Rightarrow> (engine_error, unit) result \<times> engine" where
  "recover_task initialized env h t e =
     (case commitTaskLocked env t (recover_next initialized (CancelMarked (en_DB e) (t_ID t)) t) TaskRecovery e of
        (Inl err, e') \<Rightarrow> (Inl err, e')
      | (Inr u, e') \<Rightarrow>
          (Inr (), engine_Event env h (t_ID u) EventRecovery (case t_Error u of None \<Rightarrow> [] | Some m \<Rightarrow> m) e'))"

fun each_task :: "(task \<Rightarrow> engine \<Rightarrow> (engine_error, unit) result \<times> engine) \<Rightarrow> task list \<Rightarrow> engine \<Rightarrow>
    (engine_error, unit) result \<times> engine" where
  "each_task f [] e = (Inr (), e)"
| "each_task f (t # ts) e =
     (case f t e of (Inl err, e') \<Rightarrow> (Inl err, e') | (Inr _, e') \<Rightarrow> each_task f ts e')"

text \<open>The loop drains the active tasks page by page; a pass over a page that is not full is the last one.
  Fuel bounds the number of passes.\<close>

fun recover_tasks :: "nat \<Rightarrow> (task \<Rightarrow> bool) \<Rightarrow> env \<Rightarrow> handle \<Rightarrow> engine \<Rightarrow> ((engine_error, unit) result \<times> engine) option" where
  "recover_tasks 0 initialized env h e = None"
| "recover_tasks (Suc fuel) initialized env h e =
     (let tasks = ActiveTasks h (en_DB e) in
      case each_task (recover_task initialized env h) tasks e of
        (Inl err, e') \<Rightarrow> Some (Inl err, e')
      | (Inr _, e') \<Rightarrow>
          if length tasks < PageLimit then Some (Inr (), e') else recover_tasks fuel initialized env h e')"

definition settle_cancelled :: "env \<Rightarrow> task \<Rightarrow> engine \<Rightarrow> (engine_error, unit) result \<times> engine" where
  "settle_cancelled env t e =
     (case commitTaskLocked env t (t\<lparr>t_Sessions := InterruptRunning (t_Sessions t)\<rparr>) TaskSettlement e of
        (Inl err, e') \<Rightarrow> (Inl err, e') | (Inr _, e') \<Rightarrow> (Inr (), e'))"

definition settleCancelledSessions :: "env \<Rightarrow> handle \<Rightarrow> engine \<Rightarrow> (engine_error, unit) result \<times> engine" where
  "settleCancelledSessions env h e =
     (if rt_CancelScanDone (en_RT e) then (Inr (), e)
      else let tasks = CancelledWithLiveSessions h (ownedTaskIDs (en_RT e)) (en_DB e) in
        case each_task (settle_cancelled env) tasks e of
          (Inl err, e') \<Rightarrow> (Inl err, e')
        | (Inr _, e') \<Rightarrow>
            (Inr (), if length tasks < PageLimit then e'\<lparr>en_RT := (en_RT e')\<lparr>rt_CancelScanDone := True\<rparr>\<rparr> else e'))"

definition orphan_cause :: "task \<Rightarrow> cause" where
  "orphan_cause t =
     (if t_Status t = StatusPublishing \<and> t_OutputCommit t \<noteq> None
      then \<lparr>ca_Tree = Wrap (Reason BlockedPublicationUncertain),
            ca_Text = ''Publication has no active worker; reconcile publication to check delivery: '' @
              BlockedReason_Error BlockedPublicationUncertain,
            ca_Canceled = False\<rparr>
      else unexpected_exit)"

definition block_orphan :: "env \<Rightarrow> handle \<Rightarrow> task \<Rightarrow> engine \<Rightarrow> (engine_error, unit) result \<times> engine" where
  "block_orphan env h t e =
     (case settleExitedTask env h t (orphan_cause t) e of (Inl err, e') \<Rightarrow> (Inl err, e') | (Inr _, e') \<Rightarrow> (Inr (), e'))"

text \<open>A stopping service leaves the remaining orphans to the next start.\<close>

fun block_orphans :: "nat \<Rightarrow> bool \<Rightarrow> env \<Rightarrow> handle \<Rightarrow> string list \<Rightarrow> engine \<Rightarrow>
    ((engine_error, unit) result \<times> engine) option" where
  "block_orphans 0 stopping env h excluded e = None"
| "block_orphans (Suc fuel) stopping env h excluded e =
     (let tasks = ActiveTasksExcept h excluded (en_DB e) in
      if stopping then Some (Inr (), e)
      else case each_task (block_orphan env h) tasks e of
        (Inl err, e') \<Rightarrow> Some (Inl err, e')
      | (Inr _, e') \<Rightarrow>
          if length tasks < PageLimit then Some (Inr (), e') else block_orphans fuel stopping env h excluded e')"

definition blockOrphanedTasks :: "nat \<Rightarrow> bool \<Rightarrow> env \<Rightarrow> handle \<Rightarrow> engine \<Rightarrow>
    ((engine_error, unit) result \<times> engine) option" where
  "blockOrphanedTasks fuel stopping env h e = block_orphans fuel stopping env h (ownedTaskIDs (en_RT e)) e"

subsection \<open>Lemmas: commits that succeed\<close>

lemma CommitTask_ok:
  assumes "map_of (tb_Tasks db) (t_ID t) = Some t" and "t_ID nxt = t_ID t" and "change \<noteq> TaskSettlement"
    and "ValidateTaskChange t nxt change (CancelMarked db (t_ID t)) = None"
  shows "CommitTask t nxt change db = (Inr nxt, put_task (t_ID t) nxt db)"
  using assms by (simp add: CommitTask_def runTx_def txCommitTask_def finish_commit_def CancelMarked_def Let_def)

lemma recover_next_valid:
  assumes "lifecycle_inv t" and "Status_Active (t_Status t)"
  shows "ValidateTaskChange t ((recover_next initialized marked t)\<lparr>t_UpdatedAt := at\<rparr>) TaskRecovery marked = None"
proof -
  have "\<not> retired t" using assms by (auto simp: lifecycle_inv_def settled_def)
  with assms(2) show ?thesis
    by (intro ValidateTaskChange_NoneI;
      simp add: recover_next_def Let_def transition_valid_def worker_change_def allowed_change_def retired_def)
qed

lemma recover_next_inactive: "\<not> Status_Active (t_Status (recover_next initialized marked t))"
  and recover_next_ID [simp]: "t_ID (recover_next initialized marked t) = t_ID t"
  by (simp_all add: recover_next_def Let_def)

lemma tasks_extend_refl: "tasks_extend ts ts"
  by (auto simp: tasks_extend_def intro: task_run.none)

lemma task_run_trans: "task_run False u v \<Longrightarrow> task_run False t u \<Longrightarrow> task_run False t v"
  by (induction rule: task_run.induct) (auto intro: task_run.more)

lemma tasks_extend_trans: "tasks_extend a b \<Longrightarrow> tasks_extend b c \<Longrightarrow> tasks_extend a c"
  unfolding tasks_extend_def by (meson task_run_trans)

lemma recover_task_ok:
  assumes "tasks_ok (tb_Tasks (en_DB e))" and "map_of (tb_Tasks (en_DB e)) (t_ID t) = Some t" and "Status_Active (t_Status t)"
  shows "\<exists>u e'. recover_task initialized env h t e = (Inr (), e') \<and> \<not> Status_Active (t_Status u) \<and>
    tb_Tasks (en_DB e') = AList.update (t_ID t) u (tb_Tasks (en_DB e)) \<and>
    (CancelMarked (en_DB e) (t_ID t) \<and> t_OutputCommit t = None \<longrightarrow> t_Status u = StatusCancelled) \<and>
    tasks_ok (tb_Tasks (en_DB e')) \<and> tasks_extend (tb_Tasks (en_DB e)) (tb_Tasks (en_DB e')) \<and>
    tb_Cancel (en_DB e') = tb_Cancel (en_DB e)"
proof -
  let ?marked = "CancelMarked (en_DB e) (t_ID t)"
  let ?u = "(recover_next initialized ?marked t)\<lparr>t_UpdatedAt := env_Now env\<rparr>"
  have inv: "lifecycle_inv t" using assms(1,2) by (auto simp: tasks_ok_def)
  have commit: "CommitTask t ?u TaskRecovery (en_DB e) = (Inr ?u, put_task (t_ID t) ?u (en_DB e))"
    using assms(2) recover_next_valid [OF inv assms(3)] by (intro CommitTask_ok) simp_all
  have "tasks_ok (tb_Tasks (put_task (t_ID t) ?u (en_DB e)))"
    using ok.CommitTask_inv [OF assms(1), of t ?u TaskRecovery] by (simp add: commit)
  moreover have "tasks_extend (tb_Tasks (en_DB e)) (tb_Tasks (put_task (t_ID t) ?u (en_DB e)))"
    using ext.CommitTask_inv [OF tasks_extend_refl, of "en_DB e" t ?u TaskRecovery] by (simp add: commit)
  moreover have "t_Status ?u = StatusCancelled" if "?marked" "t_OutputCommit t = None"
    using that by (simp add: recover_next_def Let_def)
  moreover define e' where "e' = engine_Event env h (t_ID ?u) EventRecovery (case t_Error ?u of None \<Rightarrow> [] | Some m \<Rightarrow> m)
      (e\<lparr>en_DB := put_task (t_ID t) ?u (en_DB e)\<rparr>)"
  moreover from this have "tb_Tasks (en_DB e') = tb_Tasks (put_task (t_ID t) ?u (en_DB e))" "tb_Cancel (en_DB e') = tb_Cancel (en_DB e)"
    by (simp_all add: engine_Event_def store_Event_def txRepositoryEvent_def put_task_def)
  moreover have "recover_task initialized env h t e = (Inr (), e')"
    by (simp add: recover_task_def commitTaskLocked_def on_db_def commit e'_def)
  ultimately show ?thesis
    by (intro exI [of _ ?u] exI [of _ e'] conjI impI) (simp_all add: recover_next_inactive)
qed

subsection \<open>Lemmas: draining the active tasks\<close>

lemma filter_values_update:
  assumes "distinct (map fst ts)" and "\<And>i t. (i, t) \<in> set ts \<Longrightarrow> t_ID t = i" and "i \<in> fst ` set ts" and "\<not> P u"
  shows "filter P (map snd (AList.update i u ts)) = filter (\<lambda>x. t_ID x \<noteq> i) (filter P (map snd ts))"
  using assms
proof (induction ts)
  case (Cons x ts)
  obtain j t where x: "x = (j, t)" by force
  have j: "t_ID t = j" using Cons.prems(2) x by auto
  show ?case
  proof (cases "i = j")
    case True
    have "t_ID s \<noteq> i" if s: "s \<in> set (map snd ts)" for s
    proof -
      from s obtain k where k: "(k, s) \<in> set ts" by auto
      then have "t_ID s = k" using Cons.prems(2) by simp
      moreover have "k \<noteq> j" using k Cons.prems(1) x by (metis distinct.simps(2) fst_conv image_eqI list.set_map list.simps(9))
      ultimately show ?thesis using True by simp
    qed
    then have "filter (\<lambda>s. t_ID s \<noteq> i) (filter P (map snd ts)) = filter P (map snd ts)"
      by (intro filter_True) auto
    with True x j Cons.prems(4) show ?thesis by simp
  next
    case False
    have "distinct (map fst ts)" "i \<in> fst ` set ts" using Cons.prems(1,3) False x by simp_all
    moreover have "\<And>k s. (k, s) \<in> set ts \<Longrightarrow> t_ID s = k" using Cons.prems(2) by simp
    ultimately have "filter P (map snd (AList.update i u ts)) = filter (\<lambda>x. t_ID x \<noteq> i) (filter P (map snd ts))"
      using Cons.IH Cons.prems(4) by blast
    with False x j show ?thesis by simp
  qed
qed simp

lemma tasks_ok_rows: "tasks_ok ts \<Longrightarrow> (i, t) \<in> set ts \<Longrightarrow> t_ID t = i \<and> map_of ts i = Some t"
  by (auto simp: tasks_ok_def)

lemma active_saved: "tasks_ok (tb_Tasks db) \<Longrightarrow> t \<in> set (active_tasks h db) \<Longrightarrow> map_of (tb_Tasks db) (t_ID t) = Some t"
  using tasks_ok_rows by (fastforce simp: active_tasks_def)

lemma active_distinct: "tasks_ok (tb_Tasks db) \<Longrightarrow> distinct (map t_ID (active_tasks h db))"
proof -
  assume ok: "tasks_ok (tb_Tasks db)"
  have "map t_ID (map snd (tb_Tasks db)) = map fst (tb_Tasks db)"
    using tasks_ok_rows [OF ok] by auto
  moreover have "distinct (map fst (tb_Tasks db))" using ok by (simp add: tasks_ok_def)
  ultimately have "distinct (map t_ID (map snd (tb_Tasks db)))" by (simp only:)
  then show ?thesis unfolding active_tasks_def by (rule distinct_map_filter)
qed

lemma active_update:
  assumes "tasks_ok (tb_Tasks db)" and "map_of (tb_Tasks db) i = Some t" and "\<not> Status_Active (t_Status u)"
    and "tb_Tasks db' = AList.update i u (tb_Tasks db)"
  shows "active_tasks h db' = filter (\<lambda>x. t_ID x \<noteq> i) (active_tasks h db)"
proof -
  have "i \<in> fst ` set (tb_Tasks db)" using assms(2) by (metis fst_conv image_eqI map_of_SomeD)
  then show ?thesis
    using assms(1,3) tasks_ok_rows [OF assms(1)] unfolding active_tasks_def assms(4)
    by (intro filter_values_update) (auto simp: tasks_ok_def)
qed

lemma recover_page:
  assumes "tasks_ok (tb_Tasks (en_DB e))" and "set page \<subseteq> set (active_tasks h (en_DB e))" and "distinct (map t_ID page)"
  shows "\<exists>e'. each_task (recover_task initialized env h) page e = (Inr (), e') \<and>
    active_tasks h (en_DB e') = filter (\<lambda>x. t_ID x \<notin> t_ID ` set page) (active_tasks h (en_DB e)) \<and>
    tasks_ok (tb_Tasks (en_DB e')) \<and> tasks_extend (tb_Tasks (en_DB e)) (tb_Tasks (en_DB e'))"
  using assms
proof (induction page arbitrary: e)
  case Nil
  then show ?case by (simp add: tasks_extend_refl)
next
  case (Cons t page)
  have act: "t \<in> set (active_tasks h (en_DB e))" using Cons.prems(2) by simp
  then have "Status_Active (t_Status t)" by (simp add: active_tasks_def)
  then obtain u e1 where e1: "recover_task initialized env h t e = (Inr (), e1)" "\<not> Status_Active (t_Status u)"
      "tb_Tasks (en_DB e1) = AList.update (t_ID t) u (tb_Tasks (en_DB e))" "tasks_ok (tb_Tasks (en_DB e1))"
      "tasks_extend (tb_Tasks (en_DB e)) (tb_Tasks (en_DB e1))"
    using recover_task_ok [OF Cons.prems(1) active_saved [OF Cons.prems(1) act]] by blast
  have rest: "active_tasks h (en_DB e1) = filter (\<lambda>x. t_ID x \<noteq> t_ID t) (active_tasks h (en_DB e))"
    using active_update [OF Cons.prems(1) active_saved [OF Cons.prems(1) act] e1(2,3)] .
  have "set page \<subseteq> set (active_tasks h (en_DB e1))" "distinct (map t_ID page)"
    using Cons.prems(2,3) unfolding rest by (auto simp: image_iff)
  from Cons.IH [OF e1(4) this] obtain e2 where e2: "each_task (recover_task initialized env h) page e1 = (Inr (), e2)"
      "active_tasks h (en_DB e2) = filter (\<lambda>x. t_ID x \<notin> t_ID ` set page) (active_tasks h (en_DB e1))"
      "tasks_ok (tb_Tasks (en_DB e2))" "tasks_extend (tb_Tasks (en_DB e1)) (tb_Tasks (en_DB e2))"
    by blast
  have "active_tasks h (en_DB e2) = filter (\<lambda>x. t_ID x \<notin> t_ID ` set (t # page)) (active_tasks h (en_DB e))"
    by (simp add: e2(2) rest conj_commute)
  with e1 e2 tasks_extend_trans [OF e1(5) e2(4)] show ?case by simp
qed

lemma filter_take_drop:
  "distinct (map f xs) \<Longrightarrow> filter (\<lambda>x. f x \<notin> f ` set (take n xs)) xs = drop n xs"
proof -
  assume d: "distinct (map f xs)"
  have "filter (\<lambda>x. f x \<notin> f ` set (take n xs)) (take n xs @ drop n xs) = drop n xs"
  proof -
    have "f x \<notin> f ` set (take n xs)" if "x \<in> set (drop n xs)" for x
      using d that by (metis append_take_drop_id disjoint_iff distinct_append image_eqI list.set_map map_append)
    then have "filter (\<lambda>x. f x \<notin> f ` set (take n xs)) (drop n xs) = drop n xs" by (intro filter_True) auto
    moreover have "filter (\<lambda>x. f x \<notin> f ` set (take n xs)) (take n xs) = []" by (auto simp: filter_empty_conv)
    ultimately show ?thesis by (simp only: filter_append append_Nil)
  qed
  then show ?thesis by simp
qed

lemma recover_tasks_drains:
  assumes "tasks_ok (tb_Tasks (en_DB e))" and "length (active_tasks h (en_DB e)) < fuel * PageLimit"
  shows "\<exists>e'. recover_tasks fuel initialized env h e = Some (Inr (), e') \<and> active_tasks h (en_DB e') = [] \<and>
    tasks_ok (tb_Tasks (en_DB e')) \<and> tasks_extend (tb_Tasks (en_DB e)) (tb_Tasks (en_DB e'))"
  using assms
proof (induction fuel arbitrary: e)
  case (Suc fuel)
  let ?page = "ActiveTasks h (en_DB e)"
  have "set ?page \<subseteq> set (active_tasks h (en_DB e))" by (simp add: ActiveTasks_def set_take_subset)
  moreover have d: "distinct (map t_ID (active_tasks h (en_DB e)))" by (rule active_distinct [OF Suc.prems(1)])
  then have "distinct (map t_ID ?page)" unfolding ActiveTasks_def take_map [symmetric] by (rule distinct_take)
  ultimately obtain e1 where e1: "each_task (recover_task initialized env h) ?page e = (Inr (), e1)"
      "active_tasks h (en_DB e1) = filter (\<lambda>x. t_ID x \<notin> t_ID ` set ?page) (active_tasks h (en_DB e))"
      "tasks_ok (tb_Tasks (en_DB e1))" "tasks_extend (tb_Tasks (en_DB e)) (tb_Tasks (en_DB e1))"
    using recover_page [OF Suc.prems(1)] by blast
  have rest: "active_tasks h (en_DB e1) = drop PageLimit (active_tasks h (en_DB e))"
    using e1(2) filter_take_drop [OF d] by (simp add: ActiveTasks_def)
  show ?case
  proof (cases "length ?page < PageLimit")
    case True
    then have "active_tasks h (en_DB e1) = []" by (simp add: rest ActiveTasks_def min_def split: if_splits)
    with True e1 show ?thesis by (simp add: Let_def)
  next
    case False
    have "length (active_tasks h (en_DB e1)) < fuel * PageLimit"
      using Suc.prems(2) False by (simp add: rest ActiveTasks_def PageLimit_def)
    from Suc.IH [OF e1(3) this] obtain e2 where "recover_tasks fuel initialized env h e1 = Some (Inr (), e2)"
        "active_tasks h (en_DB e2) = []" "tasks_ok (tb_Tasks (en_DB e2))" "tasks_extend (tb_Tasks (en_DB e1)) (tb_Tasks (en_DB e2))"
      by blast
    moreover have "tasks_extend (tb_Tasks (en_DB e)) (tb_Tasks (en_DB e2))"
      using tasks_extend_trans [OF e1(4)] calculation(4) .
    ultimately show ?thesis using False e1(1) by (simp add: Let_def)
  qed
qed simp

subsection \<open>Restart recovery drains every active task\<close>

text \<open>An engine that owns no work.\<close>

definition idle_runtime :: runtime_state where
  "idle_runtime =
     \<lparr>rt_Cycle = None, rt_Preflight = None, rt_Tasks = [], rt_Settlements = [], rt_CheckedCycles = [], rt_PRRefresh = False,
      rt_PRObservation = None, rt_PRRefreshError = [], rt_LastPRAttempt = None, rt_PRAdmissionRefused = False,
      rt_Housekeeping = False, rt_LastRetention = None, rt_LastObserve = None, rt_Baseline = None, rt_Merges = [],
      rt_MergeWorker = False, rt_MergeCursor = 0, rt_LastMergeCheck = None, rt_MergeRecoveryErrors = [],
      rt_MergePrecheckErrors = [], rt_DefaultObservation = None, rt_Cleanups = [], rt_CleanupReports = [],
      rt_RetentionCursors = [], rt_ActiveRecoveryError = None, rt_CancelScanDone = False, rt_NextSerial = 0\<rparr>"

definition idle_engine :: "database \<Rightarrow> engine" where
  "idle_engine db = \<lparr>en_RT = idle_runtime, en_DB = db\<rparr>"

text \<open>C40: The restart loop over the active tasks ends and succeeds, however many pages of tasks were active when the
  service stopped: from a database whose tasks satisfy the lifecycle invariant, with fuel for one pass more than there are full
  pages, it returns no error and no active task of the repository is left for the scheduler to mistake for an exited
  worker. The lifecycle invariant still holds, and every record moved only by accepted lifecycle changes.\<close>

theorem recovery_drains:
  assumes "tasks_ok (tb_Tasks (en_DB e))" and "length (active_tasks h (en_DB e)) div PageLimit < fuel"
  shows "\<exists>e'. recover_tasks fuel initialized env h e = Some (Inr (), e') \<and> active_tasks h (en_DB e') = [] \<and>
    tasks_ok (tb_Tasks (en_DB e')) \<and> tasks_extend (tb_Tasks (en_DB e)) (tb_Tasks (en_DB e'))"
proof -
  have "length (active_tasks h (en_DB e)) < fuel * PageLimit"
    using assms(2) by (simp add: PageLimit_def less_mult_imp_div_less div_less_iff_less_mult)
  with assms(1) show ?thesis by (rule recover_tasks_drains)
qed

lemma active_sample: "active_tasks root_handle (empty_db\<lparr>tb_Tasks := [(''t1'', sample_executing)]\<rparr>) = [sample_executing]"
  by (simp add: active_tasks_def in_scope_def root_handle_def sample_executing_def sample_task_def empty_db_def)

theorem recovery_drains_witness:
  "\<exists>e'. recover_tasks 1 (\<lambda>_. False) sample_env root_handle
      (idle_engine (empty_db\<lparr>tb_Tasks := [(''t1'', sample_executing)]\<rparr>)) = Some (Inr (), e') \<and>
    active_tasks root_handle (en_DB e') = [] \<and>
    tasks_ok (tb_Tasks (en_DB e')) \<and> tasks_extend [(''t1'', sample_executing)] (tb_Tasks (en_DB e'))"
proof -
  have "tasks_ok [(''t1'', sample_executing)]"
    by (simp add: tasks_ok_def lifecycle_inv_def settled_def retired_def sample_executing_def sample_task_def)
  then show ?thesis
    using recovery_drains [of "idle_engine (empty_db\<lparr>tb_Tasks := [(''t1'', sample_executing)]\<rparr>)" root_handle 1
        "\<lambda>_. False" sample_env]
    by (simp add: idle_engine_def active_sample PageLimit_def)
qed

end
