(* ===== verification/Engine_Capacity.thy ===== *)
theory Engine_Capacity
  imports Engine_Tasks
begin

text \<open>
  The engine's view of pull-request capacity (\<open>internal/engine/capacity.go\<close>) and the queries the scheduler
  reads (\<open>internal/store/queries.go\<close>). A process observes the remote inventory, and one observation authorises at
  most one admission batch while it is fresh. Times are nanoseconds of the process clock and are passed in.
\<close>

definition second :: int where
  "second = 1000000000"

definition observeInterval :: int where
  "observeInterval = 5 * 60 * second"

definition observationLifetime :: int where
  "observationLifetime = 2 * observeInterval"

definition prAdmissionLifetime :: int where
  "prAdmissionLifetime = 60 * second"

definition prRefreshRetryDelay :: int where
  "prRefreshRetryDelay = 60 * second"

definition prFullReason :: string where
  "prFullReason = ''The configured owned open-PR limit is reached; new-PR work waits for an observed closure or merge''"

definition on_rt :: "(runtime_state \<Rightarrow> runtime_state) \<Rightarrow> engine \<Rightarrow> engine" where
  "on_rt f e = e\<lparr>en_RT := f (en_RT e)\<rparr>"

definition invalidatePRs :: "engine \<Rightarrow> engine" where
  "invalidatePRs = on_rt (\<lambda>r. r\<lparr>rt_PRRefresh := False, rt_PRObservation := None, rt_PRRefreshError := [],
     rt_LastPRAttempt := None, rt_PRAdmissionRefused := False\<rparr>)"

definition claimInventory :: "config \<Rightarrow> int \<Rightarrow> engine \<Rightarrow> (string, open_pr_inventory) result \<times> engine" where
  "claimInventory cfg now e =
     (case rt_PRObservation (en_RT e) of
        None \<Rightarrow>
          (Inl (if rt_PRRefreshError (en_RT e) \<noteq> [] then rt_PRRefreshError (en_RT e)
                else ''A current-process pull request observation is required''), e)
      | Some ob \<Rightarrow>
          if \<not> SamePRPolicy (fp_Policy ob) cfg
          then (Inl ''The pull request observation belongs to different repository policy'', e)
          else if fp_AdmissionConsumed ob
          then (Inl ''The pull request observation has already authorized an admission batch'', e)
          else if prAdmissionLifetime < now - fp_FetchedAt ob
          then (Inl ''The pull request observation is stale'', e)
          else (Inr (fp_Inventory ob),
                on_rt (\<lambda>r. r\<lparr>rt_PRObservation := Some (ob\<lparr>fp_AdmissionConsumed := True\<rparr>)\<rparr>) e))"

definition capacityOf :: "config \<Rightarrow> open_pr_inventory \<Rightarrow> pr_reservation list \<Rightarrow> pr_capacity \<times> u64" where
  "capacityOf cfg inventory reservations =
     (let (owned, unrepresented, remaining) = PRUnion inventory reservations (c_MaxOpenPRs cfg) in
      (\<lparr>prc_Limit = c_MaxOpenPRs cfg, prc_OwnedOpen = Some owned, prc_Reserved = unrepresented,
        prc_Remaining = Some remaining, prc_ObservedAt = Some (inv_ObservedAt inventory),
        prc_Status = (if remaining = 0 then ''full'' else ''ready''),
        prc_Reason = (if remaining = 0 then Some prFullReason else None)\<rparr>, remaining))"

definition stored_inventory :: "handle \<Rightarrow> config \<Rightarrow> database \<Rightarrow> open_pr_inventory option" where
  "stored_inventory h cfg db =
     (case store_OpenPRInventory h db of
        None \<Rightarrow> None
      | Some v \<Rightarrow> if EqualASCII (inv_Repository v) (c_GitHubRepo cfg) then Some v else None)"

definition observation_fresh :: "handle \<Rightarrow> config \<Rightarrow> int \<Rightarrow> engine \<Rightarrow> bool" where
  "observation_fresh h cfg now e \<longleftrightarrow>
     rt_PRRefreshError (en_RT e) = [] \<and>
     (case rt_PRObservation (en_RT e) of None \<Rightarrow> False
      | Some ob \<Rightarrow> SamePRPolicy (fp_Policy ob) cfg \<and> now - fp_FetchedAt ob \<le> observationLifetime) \<and>
     stored_inventory h cfg (en_DB e) \<noteq> None"

definition capacity_report :: "handle \<Rightarrow> config \<Rightarrow> int \<Rightarrow> u64 \<Rightarrow> engine \<Rightarrow> string \<times> string" where
  "capacity_report h cfg now remaining e =
     (let lastError = rt_PRRefreshError (en_RT e) in
      if rt_PRRefresh (en_RT e)
      then (''refreshing'', ''Refreshing the open-PR inventory'' @ (if lastError \<noteq> [] then '' after a failure: '' @ lastError else []))
      else if \<not> observation_fresh h cfg now e
      then (''unavailable'',
            if lastError \<noteq> [] then lastError
            else case rt_PRObservation (en_RT e) of
                None \<Rightarrow> ''No complete open-PR inventory has been observed''
              | Some ob \<Rightarrow>
                  if stored_inventory h cfg (en_DB e) = None then ''No complete open-PR inventory has been observed''
                  else if \<not> SamePRPolicy (fp_Policy ob) cfg
                  then ''Configuration changed since the last complete open-PR inventory''
                  else ''The last complete open-PR inventory is stale'')
      else if remaining = 0 then (''full'', prFullReason)
      else (''ready'', []))"

definition prCapacity :: "env \<Rightarrow> handle \<Rightarrow> config \<Rightarrow> int \<Rightarrow> engine \<Rightarrow> pr_capacity" where
  "prCapacity env h cfg now e =
     (let reservations = reservationRows env (en_DB e) (c_GitHubRepo cfg);
          (capacity, remaining) =
            (case stored_inventory h cfg (en_DB e) of
               None \<Rightarrow> (\<lparr>prc_Limit = c_MaxOpenPRs cfg, prc_OwnedOpen = None, prc_Reserved = of_nat (length reservations),
                  prc_Remaining = None, prc_ObservedAt = None, prc_Status = [], prc_Reason = None\<rparr>, 0)
             | Some v \<Rightarrow> capacityOf cfg v reservations);
          (status, reason) = capacity_report h cfg now remaining e
      in capacity\<lparr>prc_Status := status, prc_Reason := (if reason = [] then None else Some reason),
           prc_Remaining := (if observation_fresh h cfg now e then prc_Remaining capacity else None)\<rparr>)"

text \<open>Starting the refresh worker; the worker itself reads the remote.\<close>

definition startPRRefresh :: "bool \<Rightarrow> env \<Rightarrow> handle \<Rightarrow> config \<Rightarrow> int \<Rightarrow> engine \<Rightarrow> engine" where
  "startPRRefresh stopping env h cfg now e =
     (if stopping \<or> rt_PRRefresh (en_RT e) then e
      else let available = (case prc_Remaining (prCapacity env h cfg now e) of None \<Rightarrow> False | Some n \<Rightarrow> 0 < n);
               paced = (\<not> available \<or> rt_PRAdmissionRefused (en_RT e)) in
        if paced \<and> (case rt_LastPRAttempt (en_RT e) of None \<Rightarrow> False | Some at \<Rightarrow> now - at < prRefreshRetryDelay) then e
        else on_rt (\<lambda>r. r\<lparr>rt_PRRefresh := True, rt_LastPRAttempt := Some now\<rparr>) e)"

subsection \<open>Scheduler queries\<close>

definition TasksForCycle :: "string \<Rightarrow> database \<Rightarrow> task list" where
  "TasksForCycle i db = filter (\<lambda>t. t_CycleID t = i) (map snd (tb_Tasks db))"

definition queued_tasks :: "handle \<Rightarrow> string option \<Rightarrow> database \<Rightarrow> task list" where
  "queued_tasks h run db =
     filter (\<lambda>t. t_Status t = StatusQueued \<and> wl_ArchivedAt (t_Lifecycle t) = None \<and> in_scope h t \<and>
       (run = None \<or> t_RunID t = run)) (map snd (tb_Tasks db))"

definition needs_slot :: "database \<Rightarrow> task \<Rightarrow> bool" where
  "needs_slot db t \<longleftrightarrow> p_Target (t_Proposal t) = c_DefaultBranch (t_Config t) \<and> \<not> HasPRReservation (t_ID t) db"

text \<open>\<open>SchedulingTasks\<close>: every active task, and a page each of the queued tasks that can start without a new
  pull-request slot and of those that need one, in table order.\<close>

definition SchedulingTasks :: "handle \<Rightarrow> string option \<Rightarrow> database \<Rightarrow> task list" where
  "SchedulingTasks h run db =
     (let queued = queued_tasks h run db;
          direct = take PageLimit (filter (\<lambda>t. \<not> needs_slot db t) queued);
          slots = take PageLimit (filter (needs_slot db) queued)
      in filter (\<lambda>t. wl_ArchivedAt (t_Lifecycle t) = None \<and> in_scope h t \<and>
           (t_Status t \<in> set ActiveStatuses \<or> t \<in> set direct \<or> t \<in> set slots)) (map snd (tb_Tasks db)))"

definition HasUnresolvedTasks :: "handle \<Rightarrow> database \<Rightarrow> bool" where
  "HasUnresolvedTasks h db \<longleftrightarrow>
     list_ex (\<lambda>t. t_Status t \<notin> set TerminalStatuses \<and> wl_ArchivedAt (t_Lifecycle t) = None \<and> in_scope h t)
       (map snd (tb_Tasks db))"

subsection \<open>Lemmas\<close>

lemma on_rt_simps [simp]: "en_DB (on_rt f e) = en_DB e" "en_RT (on_rt f e) = f (en_RT e)"
  by (simp_all add: on_rt_def)

lemma claimInventory_frame:
  "en_DB (snd (claimInventory cfg now e)) = en_DB e" "rt_Tasks (en_RT (snd (claimInventory cfg now e))) = rt_Tasks (en_RT e)"
  "rt_Merges (en_RT (snd (claimInventory cfg now e))) = rt_Merges (en_RT e)"
  "rt_Cleanups (en_RT (snd (claimInventory cfg now e))) = rt_Cleanups (en_RT e)"
  by (auto simp: claimInventory_def split: option.splits)

lemma startPRRefresh_frame [simp]:
  "en_DB (startPRRefresh stopping env h cfg now e) = en_DB e"
  "rt_Tasks (en_RT (startPRRefresh stopping env h cfg now e)) = rt_Tasks (en_RT e)"
  "rt_Merges (en_RT (startPRRefresh stopping env h cfg now e)) = rt_Merges (en_RT e)"
  by (auto simp: startPRRefresh_def Let_def)

text \<open>An observation authorises one batch of admissions: until the next observation, no second claim succeeds.\<close>

lemma claim_once:
  assumes "claimInventory cfg now e = (Inr inventory, e1)"
  shows "\<exists>reason. fst (claimInventory cfg' later e1) = Inl reason"
  using assms by (auto simp: claimInventory_def split: option.splits if_splits)

lemma SchedulingTasks_saved: "t \<in> set (SchedulingTasks h run db) \<Longrightarrow> t \<in> snd ` set (tb_Tasks db)"
  by (auto simp: SchedulingTasks_def Let_def)

lemma SchedulingTasks_active:
  assumes "t \<in> snd ` set (tb_Tasks db)" and "Status_Active (t_Status t)" and "wl_ArchivedAt (t_Lifecycle t) = None"
    and "in_scope h t"
  shows "t \<in> set (SchedulingTasks h run db)"
  using assms by (auto simp: SchedulingTasks_def Let_def Status_Active_iff)

lemma SchedulingTasks_distinct: "tasks_ok (tb_Tasks db) \<Longrightarrow> distinct (map t_ID (SchedulingTasks h run db))"
proof -
  assume ok: "tasks_ok (tb_Tasks db)"
  have "map t_ID (map snd (tb_Tasks db)) = map fst (tb_Tasks db)" using tasks_ok_rows [OF ok] by auto
  moreover have "distinct (map fst (tb_Tasks db))" using ok by (simp add: tasks_ok_def)
  ultimately have "distinct (map t_ID (map snd (tb_Tasks db)))" by (simp only:)
  then show ?thesis unfolding SchedulingTasks_def Let_def by (rule distinct_map_filter)
qed

end
