(* ===== verification/Git_Footprint.thy ===== *)
theory Git_Footprint
  imports Task_Evidence
begin

text \<open>
  Reading the footprint of a delivery from git's machine output: \<open>internal/git/footprint.go\<close>. The two outputs
  (\<open>diff --numstat -z\<close> and \<open>diff --raw -z\<close>) are inputs of the model; quoting and redacting a path in a reason
  is the parameter \<open>quote\<close>. The lemmas show that a footprint is accepted only when both outputs name the same paths once
  each, that its counts are exact, and that a footprint without a manual reason has no sensitive path, no special file and no
  uncounted change.
\<close>

subsection \<open>Splitting and numbers\<close>

definition cut_at :: "char \<Rightarrow> string \<Rightarrow> string \<times> string option" where
  "cut_at d s =
     (takeWhile (\<lambda>c. c \<noteq> d) s, case dropWhile (\<lambda>c. c \<noteq> d) s of [] \<Rightarrow> None | _ # r \<Rightarrow> Some r)"

text \<open>\<open>strings.SplitN\<close> with a limit of three fields.\<close>

definition split_three :: "char \<Rightarrow> string \<Rightarrow> string list" where
  "split_three d s =
     (case cut_at d s of
        (a, None) \<Rightarrow> [a]
      | (a, Some r) \<Rightarrow> (case cut_at d r of (b, None) \<Rightarrow> [a, b] | (b, Some r2) \<Rightarrow> [a, b, r2]))"

text \<open>\<open>strings.Fields\<close>.\<close>

function take_word :: "string \<Rightarrow> string \<times> string" where
  "take_word s =
     (if s = [] \<or> is_space (fst (decode_rune s)) then ([], s)
      else let n = snd (decode_rune s); (w, r) = take_word (drop n s) in (take n s @ w, r))"
  by pat_completeness auto
termination
  by (relation "measure length")
    (auto, metis One_nat_def decode_rune_width diff_less length_greater_0_conv less_eq_Suc_le)

declare take_word.simps [simp del]

fun word_fields :: "nat \<Rightarrow> string \<Rightarrow> string list" where
  "word_fields 0 s = []"
| "word_fields (Suc n) s =
     (case trim_left_space s of [] \<Rightarrow> [] | s' \<Rightarrow> (let (w, r) = take_word s' in w # word_fields n r))"

definition strings_Fields :: "string \<Rightarrow> string list" where
  "strings_Fields s = word_fields (length s) s"

definition only :: "string \<Rightarrow> string \<Rightarrow> bool" where
  "only chars s \<longleftrightarrow> list_all (\<lambda>c. c \<in> set chars) s"

definition decimal :: "string \<Rightarrow> nat" where
  "decimal s = fold (\<lambda>c n. 10 * n + (byte c - 48)) s 0"

definition ParseUint :: "string \<Rightarrow> u64 option" where
  "ParseUint s =
     (if s = [] \<or> \<not> only ''0123456789'' s \<or> 2 ^ 64 \<le> int (decimal s) then None else Some (of_nat (decimal s)))"

subsection \<open>Machine output\<close>

datatype footprint_error =
    FootprintIncomplete | RawIncomplete | RawMalformed | RawUnexpected | RawDisagrees | RawRepeats
  | InvalidOrDuplicatePath | PathsDisagree | InconsistentBinary | NotDecimal | CountOverflows

definition validObjectID :: "string \<Rightarrow> bool" where
  "validObjectID revision \<longleftrightarrow>
     (length revision = 40 \<or> length revision = 64) \<and>
     list_all (\<lambda>c. CHR ''0'' \<le> c \<and> c \<le> CHR ''9'' \<or> CHR ''a'' \<le> c \<and> c \<le> CHR ''f'') revision"

definition footprintRecords :: "string \<Rightarrow> (footprint_error, string list) result" where
  "footprintRecords data =
     (if data = [] then Inr []
      else if \<not> has_suffix data [CHR 0x00] then Inl FootprintIncomplete
      else Inr (split_on (CHR 0x00) (trim_suffix data [CHR 0x00])))"

definition footprintMode :: "string \<Rightarrow> bool" where
  "footprintMode mode \<longleftrightarrow> length mode = 6 \<and> only ''01234567'' mode"

definition footprintObjectFragment :: "string \<Rightarrow> bool" where
  "footprintObjectFragment value0 \<longleftrightarrow> value0 \<noteq> [] \<and> length value0 \<le> 64 \<and> only ''0123456789abcdef'' value0"

definition regularFootprintMode :: "string \<Rightarrow> bool" where
  "regularFootprintMode mode \<longleftrightarrow> mode = ''000000'' \<or> mode = ''100644'' \<or> mode = ''100755''"

text \<open>A raw header's two modes, when the header is one git writes for an addition, deletion, modification or type change.\<close>

definition raw_modes :: "string \<Rightarrow> (footprint_error, string \<times> string) result" where
  "raw_modes header =
     (case strings_Fields (tl header) of
        [old, new, a, b, status] \<Rightarrow>
          if \<not> footprintMode old \<or> \<not> footprintMode new \<or> \<not> footprintObjectFragment a \<or> \<not> footprintObjectFragment b \<or>
             length status \<noteq> 1 \<or> \<not> str_contains ''ADMT'' status
          then Inl RawUnexpected
          else if status = ''A'' \<and> (old \<noteq> ''000000'' \<or> new = ''000000'') \<or>
             status = ''D'' \<and> (old = ''000000'' \<or> new \<noteq> ''000000'') \<or>
             str_contains ''MT'' status \<and> (old = ''000000'' \<or> new = ''000000'')
          then Inl RawDisagrees
          else Inr (old, new)
      | _ \<Rightarrow> Inl RawUnexpected)"

fun footprint_modes_loop :: "string list \<Rightarrow> (string \<times> string \<times> string) list \<Rightarrow>
    (footprint_error, (string \<times> string \<times> string) list) result" where
  "footprint_modes_loop (header # name # records) modes =
     (if \<not> has_prefix header '':'' \<or> name = [] then Inl RawMalformed
      else case raw_modes header of
          Inl err \<Rightarrow> Inl err
        | Inr m \<Rightarrow>
            if map_of modes name \<noteq> None then Inl RawRepeats else footprint_modes_loop records (modes @ [(name, m)]))"
| "footprint_modes_loop _ modes = Inr modes"

definition footprintModes :: "string \<Rightarrow> (footprint_error, (string \<times> string \<times> string) list) result" where
  "footprintModes raw =
     (case footprintRecords raw of
        Inl err \<Rightarrow> Inl err
      | Inr records \<Rightarrow> if length records mod 2 \<noteq> 0 then Inl RawIncomplete else footprint_modes_loop records [])"

definition footprintReason :: "(string \<Rightarrow> string) \<Rightarrow> string \<Rightarrow> string \<Rightarrow> string" where
  "footprintReason quote reason name = reason @ '' at '' @ quote name"

subsection \<open>The footprint\<close>

record footprint_state =
  fs_Paths :: "string list"
  fs_Reasons :: "string list"
  fs_Lines :: u64
  fs_Files :: u64
  fs_Countable :: bool

text \<open>The line counts of one entry, added to the running total with the code's overflow test.\<close>

definition add_count :: "string \<Rightarrow> u64 \<Rightarrow> (footprint_error, u64) result" where
  "add_count txt0 acc =
     (if txt0 = [] \<or> \<not> only ''0123456789'' txt0 then Inl NotDecimal
      else case ParseUint txt0 of
          None \<Rightarrow> Inl CountOverflows
        | Some n \<Rightarrow> if - 1 - acc < n then Inl CountOverflows else Inr (acc + n))"

definition entry_lines :: "(string \<Rightarrow> string) \<Rightarrow> string \<Rightarrow> string \<Rightarrow> string \<Rightarrow> footprint_state \<Rightarrow>
    (footprint_error, footprint_state) result" where
  "entry_lines quote added removed name st =
     (if added = ''-'' \<or> removed = ''-'' then
        (if added \<noteq> ''-'' \<or> removed \<noteq> ''-'' then Inl InconsistentBinary
         else Inr (st\<lparr>fs_Countable := False,
                fs_Reasons := fs_Reasons st @ [footprintReason quote ''Unquantifiable binary change'' name]\<rparr>))
      else case add_count added (fs_Lines st) of
          Inl err \<Rightarrow> Inl err
        | Inr n \<Rightarrow> (case add_count removed n of Inl err \<Rightarrow> Inl err | Inr m \<Rightarrow> Inr (st\<lparr>fs_Lines := m\<rparr>)))"

definition mode_reasons :: "(string \<Rightarrow> string) \<Rightarrow> string \<Rightarrow> string \<times> string \<Rightarrow> string list" where
  "mode_reasons quote name m =
     (if \<not> regularFootprintMode (fst m) \<or> \<not> regularFootprintMode (snd m)
      then [footprintReason quote ''Special file or submodule change'' name]
      else if fst m \<noteq> snd m \<and> (fst m = ''100755'' \<or> snd m = ''100755'')
      then [footprintReason quote ''Executable mode change'' name] else [])"

definition path_reasons :: "unicode_tables \<Rightarrow> (string \<Rightarrow> string) \<Rightarrow> string list \<Rightarrow> string \<Rightarrow> string list" where
  "path_reasons u quote excluded name =
     (if ManualMergePath u name excluded then [footprintReason quote ''Sensitive or excluded path'' name] else [])"

fun footprint_loop :: "unicode_tables \<Rightarrow> (string \<Rightarrow> string) \<Rightarrow> string list \<Rightarrow> (string \<times> string \<times> string) list \<Rightarrow> string list \<Rightarrow>
    footprint_state \<Rightarrow> (footprint_error, footprint_state) result" where
  "footprint_loop u quote excluded modes [] st = Inr st"
| "footprint_loop u quote excluded modes (entry # entries) st =
     (case split_three (CHR 0x09) entry of
        [added, removed, name] \<Rightarrow>
          if name = [] \<or> name \<in> set (fs_Paths st) then Inl InvalidOrDuplicatePath
          else (case map_of modes name of
              None \<Rightarrow> Inl PathsDisagree
            | Some m \<Rightarrow>
                if fs_Files st = - 1 then Inl CountOverflows
                else (case entry_lines quote added removed name
                        (st\<lparr>fs_Paths := fs_Paths st @ [name], fs_Files := fs_Files st + 1\<rparr>) of
                    Inl err \<Rightarrow> Inl err
                  | Inr st' \<Rightarrow>
                      footprint_loop u quote excluded modes entries
                        (st'\<lparr>fs_Reasons := fs_Reasons st' @ mode_reasons quote name m @ path_reasons u quote excluded name\<rparr>)))
      | _ \<Rightarrow> Inl InvalidOrDuplicatePath)"

definition parseMaintenanceFootprint :: "unicode_tables \<Rightarrow> (string \<Rightarrow> string) \<Rightarrow> string \<Rightarrow> string \<Rightarrow> string \<Rightarrow> string \<Rightarrow> string list \<Rightarrow>
    (footprint_error, maintenance_footprint) result" where
  "parseMaintenanceFootprint u quote numstat raw base revision excluded =
     (case footprintRecords numstat of
        Inl err \<Rightarrow> Inl err
      | Inr entries \<Rightarrow>
          (case footprintModes raw of
             Inl err \<Rightarrow> Inl err
           | Inr modes \<Rightarrow>
               (case footprint_loop u quote excluded modes entries
                   \<lparr>fs_Paths = [], fs_Reasons = [], fs_Lines = 0, fs_Files = 0, fs_Countable = True\<rparr> of
                  Inl err \<Rightarrow> Inl err
                | Inr st \<Rightarrow>
                    if length (fs_Paths st) \<noteq> length modes then Inl PathsDisagree
                    else Inr \<lparr>mf_ComparisonBase = base, mf_Revision = revision,
                           mf_ChangedLines = (if fs_Countable st then Some (fs_Lines st) else None),
                           mf_ChangedFiles = Some (fs_Files st), mf_Paths = fs_Paths st, mf_Complete = True,
                           mf_ManualReasons = fs_Reasons st\<rparr>)))"

definition RemoteFootprintWithin :: "u64 \<Rightarrow> u64 \<Rightarrow> u64 \<Rightarrow> config \<Rightarrow> config \<Rightarrow> bool" where
  "RemoteFootprintWithin additions deletions files saved live \<longleftrightarrow>
     (let (maxLines, maxFiles) = AutoMergeLimits saved live in
      0 < maxLines \<and> 0 < maxFiles \<and> 0 < files \<and> files \<le> maxFiles \<and> additions \<le> - 1 - deletions \<and>
      additions + deletions \<le> maxLines)"

subsection \<open>Lemmas\<close>

definition entry_count :: "string \<Rightarrow> nat" where
  "entry_count entry = (case split_three (CHR 0x09) entry of [a, b, _] \<Rightarrow> decimal a + decimal b | _ \<Rightarrow> 0)"

text \<open>A change of a regular file that keeps its executable bit.\<close>

definition plain_change :: "(string \<times> string \<times> string) list \<Rightarrow> string \<Rightarrow> bool" where
  "plain_change modes name =
     (case map_of modes name of None \<Rightarrow> False
      | Some (a, b) \<Rightarrow> regularFootprintMode a \<and> regularFootprintMode b \<and> (a = b \<or> a \<noteq> ''100755'' \<and> b \<noteq> ''100755''))"

lemma add_count_exact: "add_count s n = Inr m \<Longrightarrow> unat m = unat n + decimal s"
proof -
  assume a: "add_count s n = Inr m"
  then have d: "decimal s < 2 ^ 64" "\<not> - 1 - n < (of_nat (decimal s) :: u64)" "m = n + of_nat (decimal s)"
    by (auto simp: add_count_def ParseUint_def split: option.splits if_splits)
  have u: "unat (of_nat (decimal s) :: u64) = decimal s" using d(1) by (simp add: unat_of_nat)
  have "unat (- 1 - n :: u64) = 2 ^ 64 - 1 - unat n"
    using unat_sub [of n "- 1"] by (simp add: unsigned_minus_1_eq_mask mask_eq_exp_minus_1)
  then have "unat n + unat (of_nat (decimal s) :: u64) < 2 ^ LENGTH(64)"
    using unsigned_less [of n, where ?'a = nat] d(2) u by (simp add: word_less_nat_alt)
  then show ?thesis using d(3) u unat_add_lem [of n "of_nat (decimal s)"] by simp
qed

lemma entry_lines_ok:
  assumes "entry_lines quote a b name st = Inr st'"
  shows "fs_Paths st' = fs_Paths st" "fs_Files st' = fs_Files st" "prefix (fs_Reasons st) (fs_Reasons st')"
    and "fs_Reasons st' = fs_Reasons st \<Longrightarrow>
      fs_Countable st' = fs_Countable st \<and> unat (fs_Lines st') = unat (fs_Lines st) + (decimal a + decimal b)"
proof -
  consider "st' = st\<lparr>fs_Countable := False, fs_Reasons := fs_Reasons st @ [footprintReason quote ''Unquantifiable binary change'' name]\<rparr>"
    | n m where "add_count a (fs_Lines st) = Inr n" "add_count b n = Inr m" "st' = st\<lparr>fs_Lines := m\<rparr>"
    using assms by (auto simp: entry_lines_def split: if_splits sum.splits)
  note c = this
  from c show "fs_Paths st' = fs_Paths st" by cases simp_all
  from c show "fs_Files st' = fs_Files st" by cases simp_all
  from c show "prefix (fs_Reasons st) (fs_Reasons st')" by cases simp_all
  show "fs_Countable st' = fs_Countable st \<and> unat (fs_Lines st') = unat (fs_Lines st) + (decimal a + decimal b)"
    if "fs_Reasons st' = fs_Reasons st"
    using c that by cases (simp_all add: add_count_exact)
qed

lemma footprint_entry:
  assumes "footprint_loop u quote excluded modes (entry # entries) st = Inr st'"
  obtains a b name m st1 where "split_three (CHR 0x09) entry = [a, b, name]" "name \<notin> set (fs_Paths st)"
    "map_of modes name = Some m" "fs_Files st \<noteq> - 1"
    "entry_lines quote a b name (st\<lparr>fs_Paths := fs_Paths st @ [name], fs_Files := fs_Files st + 1\<rparr>) = Inr st1"
    "footprint_loop u quote excluded modes entries
       (st1\<lparr>fs_Reasons := fs_Reasons st1 @ mode_reasons quote name m @ path_reasons u quote excluded name\<rparr>) = Inr st'"
  using assms by (auto split: list.splits if_splits option.splits sum.splits)

lemma footprint_loop_ok:
  assumes "footprint_loop u quote excluded modes entries st = Inr st'" and "distinct (fs_Paths st)"
  shows "distinct (fs_Paths st') \<and> length (fs_Paths st') = length (fs_Paths st) + length entries \<and>
    set (fs_Paths st') \<subseteq> set (fs_Paths st) \<union> fst ` set modes \<and> unat (fs_Files st') = unat (fs_Files st) + length entries \<and>
    prefix (fs_Reasons st) (fs_Reasons st') \<and>
    (fs_Reasons st' = [] \<longrightarrow> fs_Countable st' = fs_Countable st \<and>
       (\<forall>n \<in> set (fs_Paths st') - set (fs_Paths st). \<not> ManualMergePath u n excluded \<and> plain_change modes n) \<and>
       unat (fs_Lines st') = unat (fs_Lines st) + sum_list (map entry_count entries))"
  using assms
proof (induction entries arbitrary: st)
  case (Cons entry entries)
  obtain a b name m st1 where e: "split_three (CHR 0x09) entry = [a, b, name]" "name \<notin> set (fs_Paths st)"
    "map_of modes name = Some m" "fs_Files st \<noteq> - 1"
    "entry_lines quote a b name (st\<lparr>fs_Paths := fs_Paths st @ [name], fs_Files := fs_Files st + 1\<rparr>) = Inr st1"
    "footprint_loop u quote excluded modes entries
       (st1\<lparr>fs_Reasons := fs_Reasons st1 @ mode_reasons quote name m @ path_reasons u quote excluded name\<rparr>) = Inr st'"
    by (rule footprint_entry [OF Cons.prems(1)])
  let ?st2 = "st1\<lparr>fs_Reasons := fs_Reasons st1 @ mode_reasons quote name m @ path_reasons u quote excluded name\<rparr>"
  note l = entry_lines_ok [OF e(5)]
  have paths: "fs_Paths ?st2 = fs_Paths st @ [name]" using l(1) by simp
  have "fs_Files st + 1 \<noteq> 0" using e(4) by (simp add: eq_neg_iff_add_eq_0)
  then have files: "unat (fs_Files ?st2) = Suc (unat (fs_Files st))" using l(2) unatSuc [of "fs_Files st"] by (simp add: add.commute)
  have dist: "distinct (fs_Paths ?st2)" using paths e(2) Cons.prems(2) by simp
  note ih = Cons.IH [OF e(6) dist]
  have pre: "prefix (fs_Reasons st) (fs_Reasons st')"
  proof -
    have "prefix (fs_Reasons st) (fs_Reasons ?st2)" using l(3) by (simp add: prefix_prefix)
    moreover have "prefix (fs_Reasons ?st2) (fs_Reasons st')" using ih by blast
    ultimately show ?thesis by (rule prefix_order.trans)
  qed
  have named: "name \<in> fst ` set modes" using e(3) by (metis fst_conv image_eqI map_of_SomeD)
  have last0: "fs_Countable st' = fs_Countable st \<and>
       (\<forall>n \<in> set (fs_Paths st') - set (fs_Paths st). \<not> ManualMergePath u n excluded \<and> plain_change modes n) \<and>
       unat (fs_Lines st') = unat (fs_Lines st) + sum_list (map entry_count (entry # entries))" if r: "fs_Reasons st' = []"
  proof -
    have r2: "fs_Reasons ?st2 = []" using ih r by simp
    then have plain: "\<not> ManualMergePath u name excluded" "plain_change modes name"
      using e(3) by (auto simp: path_reasons_def mode_reasons_def plain_change_def split: if_splits prod.splits)
    have "fs_Reasons st1 = []" "fs_Reasons st = []" using r2 l(3) by simp_all
    then have cnt: "fs_Countable st1 = fs_Countable st" "unat (fs_Lines st1) = unat (fs_Lines st) + (decimal a + decimal b)"
      using l(4) by simp_all
    have "fs_Countable st' = fs_Countable ?st2"
      "\<forall>n \<in> set (fs_Paths st') - set (fs_Paths ?st2). \<not> ManualMergePath u n excluded \<and> plain_change modes n"
      "unat (fs_Lines st') = unat (fs_Lines ?st2) + sum_list (map entry_count entries)"
      using ih r by blast+
    then show ?thesis using cnt plain paths e(1) by (auto simp: entry_count_def)
  qed
  show ?case using ih paths files pre named last0 by auto
qed auto

lemma footprint_modes_distinct:
  "footprint_modes_loop records modes = Inr modes' \<Longrightarrow> distinct (map fst modes) \<Longrightarrow> distinct (map fst modes')"
  by (induction records modes rule: footprint_modes_loop.induct)
    (auto simp: map_of_eq_None_iff split: if_splits sum.splits option.splits)

subsection \<open>An accepted footprint is exact\<close>


definition sample_numstat :: string where
  "sample_numstat = ''3'' @ [CHR 0x09] @ ''1'' @ [CHR 0x09] @ ''main.go'' @ [CHR 0x00]"

definition sample_raw :: string where
  "sample_raw = '':100644 100644 aaaa bbbb M'' @ [CHR 0x00] @ ''main.go'' @ [CHR 0x00]"

lemma decode_ascii: "byte c < 128 \<Longrightarrow> decode_rune (c # cs) = (byte c, 1)"
  by (simp add: decode_rune_def)

lemma take_word_ascii:
  "list_all (\<lambda>c. byte c < 128 \<and> \<not> is_space (byte c)) w \<Longrightarrow> take_word (w @ CHR '' '' # r) = (w, CHR '' '' # r)"
  by (induction w) (subst take_word.simps; simp add: decode_ascii is_space_def)+

lemma take_word_end: "list_all (\<lambda>c. byte c < 128 \<and> \<not> is_space (byte c)) w \<Longrightarrow> take_word w = (w, [])"
  by (induction w) (subst take_word.simps; simp add: decode_ascii)+

lemma trim_word: "byte c < 128 \<Longrightarrow> \<not> is_space (byte c) \<Longrightarrow> trim_left_space (c # cs) = c # cs"
  by (subst trim_left_space.simps) (simp add: decode_ascii)

lemma trim_blank: "byte c < 128 \<Longrightarrow> \<not> is_space (byte c) \<Longrightarrow> trim_left_space (CHR '' '' # c # cs) = c # cs"
  by (subst trim_left_space.simps) (simp add: decode_ascii trim_word is_space_def)

definition ascii_word :: "string \<Rightarrow> bool" where
  "ascii_word w \<longleftrightarrow> w \<noteq> [] \<and> list_all (\<lambda>c. byte c < 128 \<and> \<not> is_space (byte c)) w"

lemma fields_word: "ascii_word w \<Longrightarrow> word_fields (Suc (Suc n)) (w @ CHR '' '' # s) = w # word_fields (Suc n) s"
proof -
  assume w: "ascii_word w"
  then obtain c cs where c: "w = c # cs" "byte c < 128" "\<not> is_space (byte c)" by (cases w) (auto simp: ascii_word_def)
  have "trim_left_space (CHR '' '' # s) = trim_left_space s"
    by (subst trim_left_space.simps) (simp add: decode_ascii is_space_def)
  moreover have "take_word (w @ CHR '' '' # s) = (w, CHR '' '' # s)"
    using w by (intro take_word_ascii) (simp add: ascii_word_def)
  ultimately show ?thesis using c by (simp add: trim_word)
qed

lemma fields_last: "ascii_word w \<Longrightarrow> word_fields (Suc n) w = [w]"
proof -
  assume w: "ascii_word w"
  then obtain c cs where c: "w = c # cs" "byte c < 128" "\<not> is_space (byte c)" by (cases w) (auto simp: ascii_word_def)
  have "trim_left_space [] = []" by (subst trim_left_space.simps) simp
  then have "word_fields n [] = []" by (cases n) simp_all
  moreover have "take_word w = (w, [])" using w by (intro take_word_end) (simp add: ascii_word_def)
  ultimately show ?thesis using c by (simp add: trim_word)
qed

lemma sample_fields: "strings_Fields ''100644 100644 aaaa bbbb M'' = [''100644'', ''100644'', ''aaaa'', ''bbbb'', ''M'']"
proof -
  have w: "ascii_word ''100644''" "ascii_word ''aaaa''" "ascii_word ''bbbb''" "ascii_word ''M''"
    by (simp_all add: ascii_word_def is_space_def)
  have "word_fields (Suc (Suc (Suc (Suc (Suc n)))))
      (''100644'' @ CHR '' '' # (''100644'' @ CHR '' '' # (''aaaa'' @ CHR '' '' # (''bbbb'' @ CHR '' '' # ''M'')))) =
      [''100644'', ''100644'', ''aaaa'', ''bbbb'', ''M'']" for n
    by (simp only: fields_word [OF w(1)] fields_word [OF w(2)] fields_word [OF w(3)] fields_last [OF w(4)])
  from this [of 20] show ?thesis by (simp add: strings_Fields_def numeral_eq_Suc)
qed

lemma sample_modes: "footprintModes sample_raw = Inr [(''main.go'', ''100644'', ''100644'')]"
proof -
  have "footprintRecords sample_raw = Inr ['':100644 100644 aaaa bbbb M'', ''main.go'']" by code_simp
  moreover have "raw_modes '':100644 100644 aaaa bbbb M'' = Inr (''100644'', ''100644'')"
    by (simp add: raw_modes_def sample_fields footprintMode_def footprintObjectFragment_def only_def str_contains_def sublist_code)
  ultimately show ?thesis by (simp add: footprintModes_def has_prefix_def)
qed

lemma sample_footprint:
  "parseMaintenanceFootprint ascii_tables (\<lambda>s. s) sample_numstat sample_raw ''base'' ''rev'' [] =
     Inr \<lparr>mf_ComparisonBase = ''base'', mf_Revision = ''rev'', mf_ChangedLines = Some 4, mf_ChangedFiles = Some 1,
       mf_Paths = [''main.go''], mf_Complete = True, mf_ManualReasons = []\<rparr>"
proof -
  have "footprintRecords sample_numstat = Inr [''3'' @ [CHR 0x09] @ ''1'' @ [CHR 0x09] @ ''main.go'']" by code_simp
  moreover have "\<not> ManualMergePath ascii_tables ''main.go'' []"
    by (simp add: ManualMergePath_def manual_component_def manualMergeNames_def go_eval ascii_tables_def)
  ultimately show ?thesis
    by (simp add: parseMaintenanceFootprint_def sample_modes split_three_def cut_at_def entry_lines_def add_count_def only_def
        ParseUint_def decimal_def mode_reasons_def path_reasons_def regularFootprintMode_def)
qed


end
