(* ===== verification/Git_Merge.thy ===== *)
theory Git_Merge
  imports Git_Footprint
begin

text \<open>
  What the merge code asks GitHub and how it reads the answers: \<open>internal/git/automerge.go\<close> and
  \<open>merge_destination.go\<close>. A response decoded by \<open>encoding/json\<close> is a record with an option for every pointer; None for the
  whole response is a decoding error. A raw field is one of the shapes the code distinguishes. Requests to GitHub are
  parameters.
\<close>

subsection \<open>Merge status\<close>

record merge_status =
  ms_Number :: u64
  ms_URL :: string
  ms_State :: string
  ms_HeadBranch :: string
  ms_Head :: string
  ms_HeadRepository :: string
  ms_BaseBranch :: string
  ms_BaseOID :: string
  ms_Repository :: string
  ms_Draft :: bool
  ms_MergeQueue :: bool
  ms_SquashAllowed :: bool
  ms_ReviewDecision :: "string option"
  ms_Mergeable :: string
  ms_MergeState :: string
  ms_Additions :: "u64 option"
  ms_Deletions :: "u64 option"
  ms_ChangedFiles :: "u64 option"
  ms_MergedAt :: "string option"
  ms_MergeCommit :: "string option"
  ms_CheckState :: "string option"
  ms_CheckContexts :: u64
  ms_StatsMalformed :: bool

datatype raw_count = CountAbsent | CountMalformed | CountOf u64

datatype raw_decision = DecisionAbsent | DecisionNull | DecisionMalformed | DecisionOf string

record check_commit =
  cc_OID :: string
  cc_Rollup :: "(string \<times> u64 option) option"

record pull_response =
  pq_Number :: u64
  pq_URL :: string
  pq_State :: string
  pq_HeadRef :: string
  pq_HeadOID :: string
  pq_HeadRepo :: "string option"
  pq_BaseRef :: string
  pq_BaseOID :: string
  pq_BaseRepo :: "string option"
  pq_Draft :: "bool option"
  pq_MergeQueue :: "bool option"
  pq_ReviewDecision :: raw_decision
  pq_Mergeable :: string
  pq_MergeState :: string
  pq_Additions :: raw_count
  pq_Deletions :: raw_count
  pq_ChangedFiles :: raw_count
  pq_MergedAt :: "string option"
  pq_MergeCommit :: "string option"
  pq_Commits :: "check_commit list"

record merge_response =
  mq_Errors :: bool
  mq_Repository :: "(string \<times> bool option \<times> pull_response option) option"

definition count_value :: "raw_count \<Rightarrow> u64 option" where
  "count_value c = (case c of CountOf n \<Rightarrow> Some n | _ \<Rightarrow> None)"

definition pull_identity :: "string \<Rightarrow> u64 \<Rightarrow> pull_response \<Rightarrow> bool" where
  "pull_identity repository number p \<longleftrightarrow>
     pq_Number p = number \<and> pq_URL p \<noteq> [] \<and> pq_HeadRef p \<noteq> [] \<and> pq_BaseRef p \<noteq> [] \<and>
     validObjectID (pq_HeadOID p) \<and> validObjectID (pq_BaseOID p) \<and>
     pq_Draft p \<noteq> None \<and> pq_MergeQueue p \<noteq> None \<and>
     (case pq_HeadRepo p of None \<Rightarrow> False | Some r \<Rightarrow> EqualASCII r repository) \<and>
     (case pq_BaseRepo p of None \<Rightarrow> False | Some r \<Rightarrow> EqualASCII r repository)"

definition pull_state :: "string \<Rightarrow> string option" where
  "pull_state s =
     (if s = ''OPEN'' then Some ''open'' else if s = ''CLOSED'' then Some ''closed'' else if s = ''MERGED'' then Some ''merged''
      else None)"

definition review_decision :: "raw_decision \<Rightarrow> string option option" where
  "review_decision d =
     (case d of
        DecisionNull \<Rightarrow> Some None
      | DecisionOf s \<Rightarrow> if s \<in> {''APPROVED'', ''CHANGES_REQUESTED'', ''REVIEW_REQUIRED''} then Some (Some s) else None
      | _ \<Rightarrow> None)"

text \<open>The check rollup of the only commit, which has to be the head: its state and number of contexts.\<close>

definition head_checks :: "pull_response \<Rightarrow> (string \<times> u64) option option" where
  "head_checks p =
     (case pq_Commits p of
        [c] \<Rightarrow>
          if \<not> validObjectID (cc_OID c) \<or> cc_OID c \<noteq> pq_HeadOID p then None
          else (case cc_Rollup c of
              None \<Rightarrow> Some None
            | Some (_, None) \<Rightarrow> None
            | Some (state, Some n) \<Rightarrow>
                if state \<in> {''SUCCESS'', ''ERROR'', ''FAILURE'', ''EXPECTED'', ''PENDING''} then Some (Some (state, n)) else None)
      | _ \<Rightarrow> None)"

definition status_of :: "string \<Rightarrow> bool \<Rightarrow> pull_response \<Rightarrow> string \<Rightarrow> string option \<Rightarrow> (string \<times> u64) option \<Rightarrow> merge_status" where
  "status_of name squashAllowed p state decision checks =
     \<lparr>ms_Number = pq_Number p, ms_URL = pq_URL p, ms_State = state, ms_HeadBranch = pq_HeadRef p,
      ms_Head = pq_HeadOID p, ms_HeadRepository = the (pq_HeadRepo p), ms_BaseBranch = pq_BaseRef p,
      ms_BaseOID = pq_BaseOID p, ms_Repository = name, ms_Draft = the (pq_Draft p),
      ms_MergeQueue = the (pq_MergeQueue p), ms_SquashAllowed = squashAllowed, ms_ReviewDecision = decision,
      ms_Mergeable = pq_Mergeable p, ms_MergeState = pq_MergeState p,
      ms_Additions = count_value (pq_Additions p), ms_Deletions = count_value (pq_Deletions p),
      ms_ChangedFiles = count_value (pq_ChangedFiles p), ms_MergedAt = pq_MergedAt p,
      ms_MergeCommit = pq_MergeCommit p, ms_CheckState = map_option fst checks,
      ms_CheckContexts = (case checks of None \<Rightarrow> 0 | Some (_, n) \<Rightarrow> n),
      ms_StatsMalformed = (CountMalformed \<in> {pq_Additions p, pq_Deletions p, pq_ChangedFiles p})\<rparr>"

definition pull_enums :: "pull_response \<Rightarrow> bool" where
  "pull_enums p \<longleftrightarrow>
     (case pq_MergeCommit p of None \<Rightarrow> True | Some c \<Rightarrow> validObjectID c) \<and>
     pq_Mergeable p \<in> {''CONFLICTING'', ''MERGEABLE'', ''UNKNOWN''} \<and>
     pq_MergeState p \<in> {''BEHIND'', ''BLOCKED'', ''CLEAN'', ''DIRTY'', ''DRAFT'', ''HAS_HOOKS'', ''UNKNOWN'', ''UNSTABLE''}"

definition read_pull :: "string \<Rightarrow> bool \<Rightarrow> pull_response \<Rightarrow> merge_status option" where
  "read_pull name squashAllowed p =
     (case (pull_state (pq_State p), review_decision (pq_ReviewDecision p), head_checks p) of
        (Some state, Some decision, Some checks) \<Rightarrow>
          if pull_enums p then Some (status_of name squashAllowed p state decision checks) else None
      | _ \<Rightarrow> None)"

definition parseMergeStatus :: "string \<Rightarrow> u64 \<Rightarrow> merge_response option \<Rightarrow> merge_status option" where
  "parseMergeStatus repository number response =
     (case response of None \<Rightarrow> None
      | Some r \<Rightarrow>
        (case mq_Repository r of
           Some (name, Some squashAllowed, Some p) \<Rightarrow>
             if mq_Errors r \<or> \<not> EqualASCII name repository \<or> \<not> pull_identity repository number p then None
             else read_pull name squashAllowed p
         | _ \<Rightarrow> None))"

subsection \<open>The destination ruleset\<close>

record merge_ruleset =
  ru_ID :: u64
  ru_Target :: string
  ru_SourceType :: string
  ru_Source :: string
  ru_Enforcement :: string
  ru_Bypass :: "(u64 \<times> string) list option"
  ru_Include :: "string list"
  ru_Exclude :: "string list"
  ru_Rules :: "(string \<times> bool option) list"

datatype ruleset_error = RulesetUnreadable | RulesetInactive | RulesetScope | BypassHidden | BypassAmbiguous | NoUpdateRestriction

definition validateMergeRuleset :: "merge_ruleset option \<Rightarrow> config \<Rightarrow> u64 \<Rightarrow> u64 \<Rightarrow> ruleset_error go_error" where
  "validateMergeRuleset policy c rulesetID mergerID =
     (case policy of None \<Rightarrow> Some RulesetUnreadable
      | Some p \<Rightarrow>
          if rulesetID = 0 \<or> mergerID = 0 \<or> ru_ID p \<noteq> rulesetID \<or> ru_Target p \<noteq> ''branch'' \<or> ru_SourceType p \<noteq> ''Repository'' \<or>
             \<not> EqualASCII (ru_Source p) (c_GitHubRepo c) \<or> ru_Enforcement p \<noteq> ''active''
          then Some RulesetInactive
          else if \<not> ValidBranch (c_DefaultBranch c) \<or> ru_Include p \<noteq> [''~ALL''] \<or>
             ru_Exclude p \<noteq> [''refs/heads/'' @ c_DefaultBranch c]
          then Some RulesetScope
          else case ru_Bypass p of
              None \<Rightarrow> Some BypassHidden
            | Some actors \<Rightarrow>
                if list_ex (\<lambda>(i, kind). i = 0 \<or> kind \<noteq> ''User'' \<or> i = mergerID) actors then Some BypassAmbiguous
                else if list_ex (\<lambda>(kind, allows). kind = ''update'' \<and> allows = Some False) (ru_Rules p) then None
                else Some NoUpdateRestriction)"

subsection \<open>Squash merging\<close>

record squash_response =
  sq_SHA :: string
  sq_Merged :: bool
  sq_Message :: string

text \<open>An error of the merge call: whether it is one of the two sentinel errors, its text and its redacted text.\<close>

record squash_error =
  sx_Destination :: bool
  sx_Unconfirmed :: bool
  sx_Raw :: string
  sx_Text :: string

definition plain_squash :: "string \<Rightarrow> squash_error" where
  "plain_squash message = \<lparr>sx_Destination = False, sx_Unconfirmed = False, sx_Raw = message, sx_Text = message\<rparr>"

definition unconfirmed :: "(string \<Rightarrow> string) \<Rightarrow> string \<Rightarrow> squash_error" where
  "unconfirmed redact message =
     (let txt0 = ''Merge request outcome is unconfirmed: '' @ message in
      \<lparr>sx_Destination = False, sx_Unconfirmed = True, sx_Raw = txt0, sx_Text = redact txt0\<rparr>)"

text \<open>\<open>SquashMerge\<close> with the destination check, the mutation and the confirming status query as parameters. The mutation is
  given the token, the number and the head it is bound to; its decoded acknowledgement is None when unreadable.\<close>

definition SquashMerge :: "(string \<Rightarrow> string) \<Rightarrow> (squash_error, string) result \<Rightarrow>
    (string \<Rightarrow> u64 \<Rightarrow> string \<Rightarrow> (squash_error, squash_response option) result) \<Rightarrow> (string, merge_status) result \<Rightarrow>
    config \<Rightarrow> u64 \<Rightarrow> string \<Rightarrow> string \<Rightarrow> (squash_error, string) result" where
  "SquashMerge redact destination mutate status c number head headBranch =
     (if number = 0 then Inl (plain_squash ''Merge requires a pull request number'')
      else if c_DeliveryMode c \<noteq> DeliveryModeMaintenance
      then Inl (plain_squash ''Merge is only permitted under maintenance delivery'')
      else if \<not> validObjectID head then Inl (plain_squash ''Merge requires the exact hexadecimal reviewed head'')
      else if \<not> ValidBranch headBranch \<or> headBranch = c_DefaultBranch c
      then Inl (plain_squash ''Merge requires the reviewed source branch'')
      else case destination of
          Inl err \<Rightarrow> Inl err
        | Inr token \<Rightarrow>
          (case mutate token number head of
             Inl err \<Rightarrow> Inl err
           | Inr None \<Rightarrow> Inl (unconfirmed redact ''acknowledgement is not readable'')
           | Inr (Some r) \<Rightarrow>
               if \<not> sq_Merged r \<or> \<not> validObjectID (sq_SHA r)
               then Inl (unconfirmed redact (''acknowledgement did not confirm a merge commit: '' @ redact (sq_Message r)))
               else case status of
                   Inl err \<Rightarrow> Inl (unconfirmed redact (''acknowledgement received but its destination is unconfirmed: '' @ err))
                 | Inr s \<Rightarrow>
                     if ms_State s \<noteq> ''merged'' \<or> ms_Head s \<noteq> head \<or> ms_HeadBranch s \<noteq> headBranch \<or>
                        ms_BaseBranch s \<noteq> c_DefaultBranch c \<or> ms_MergeCommit s \<noteq> Some (sq_SHA r)
                     then Inl (unconfirmed redact ''acknowledgement does not match the reviewed pull request and destination'')
                     else Inr (sq_SHA r)))"

subsection \<open>Lemmas\<close>

text \<open>A status that was read names the asked pull request of the asked repository, and its checks are those of its head.\<close>

lemma parseMergeStatus_Some:
  assumes "parseMergeStatus repository number response = Some s"
  obtains r name squash p state decision checks where "response = Some r" "mq_Repository r = Some (name, Some squash, Some p)"
    "EqualASCII name repository" "pull_identity repository number p" "pull_state (pq_State p) = Some state"
    "head_checks p = Some checks" "pull_enums p" "s = status_of name squash p state decision checks"
proof -
  from assms obtain r name squash p where r: "response = Some r" "mq_Repository r = Some (name, Some squash, Some p)"
      "EqualASCII name repository" "pull_identity repository number p" "read_pull name squash p = Some s"
    by (auto simp: parseMergeStatus_def split: option.splits if_splits)
  from r(5) obtain state decision checks where "pull_state (pq_State p) = Some state" "head_checks p = Some checks"
      "pull_enums p" "s = status_of name squash p state decision checks"
    by (auto simp: read_pull_def split: option.splits if_splits)
  with r that show thesis by blast
qed

lemma parseMergeStatus_identity:
  assumes "parseMergeStatus repository number response = Some s"
  shows "ms_Number s = number" "EqualASCII (ms_Repository s) repository" "validObjectID (ms_Head s)"
    "validObjectID (ms_BaseOID s)" "ms_State s \<in> {''open'', ''closed'', ''merged''}"
  by (rule parseMergeStatus_Some [OF assms]; simp add: status_of_def pull_identity_def pull_state_def split: if_splits)+

lemma parseMergeStatus_checks:
  assumes "parseMergeStatus repository number response = Some s" and "ms_CheckState s = Some state"
  shows "\<exists>r name squash p c n. response = Some r \<and> mq_Repository r = Some (name, Some squash, Some p) \<and> pq_Commits p = [c] \<and>
    cc_OID c = ms_Head s \<and> cc_Rollup c = Some (state, Some n) \<and> ms_CheckContexts s = n"
proof (rule parseMergeStatus_Some [OF assms(1)])
  fix r name squash p st decision checks
  assume r: "response = Some r" "mq_Repository r = Some (name, Some squash, Some p)" "head_checks p = Some checks"
    and s: "s = status_of name squash p st decision checks"
  obtain n where n: "checks = Some (state, n)" using assms(2) s by (auto simp: status_of_def)
  then obtain c where "pq_Commits p = [c]" "cc_OID c = pq_HeadOID p" "cc_Rollup c = Some (state, Some n)"
    using r(3) by (auto simp: head_checks_def split: list.splits if_splits option.splits)
  with r s n show ?thesis by (auto simp: status_of_def)
qed

lemma SquashMerge_Inr:
  assumes "SquashMerge redact destination mutate status c number head headBranch = Inr sha"
  obtains token r s where "destination = Inr token" "mutate token number head = Inr (Some r)" "sq_Merged r" "sq_SHA r = sha"
    "status = Inr s" "ms_State s = ''merged''" "ms_Head s = head" "ms_HeadBranch s = headBranch"
    "ms_BaseBranch s = c_DefaultBranch c" "ms_MergeCommit s = Some sha" "validObjectID head" "headBranch \<noteq> c_DefaultBranch c"
    "c_DeliveryMode c = DeliveryModeMaintenance"
  using assms by (auto simp: SquashMerge_def split: if_splits sum.splits option.splits)

text \<open>The ruleset check leaves the merger no branch but the default one.\<close>

lemma validateMergeRuleset_None:
  assumes "validateMergeRuleset (Some p) c rulesetID mergerID = None"
  shows "ru_Enforcement p = ''active''" "ru_Include p = [''~ALL'']" "ru_Exclude p = [''refs/heads/'' @ c_DefaultBranch c]"
    "\<exists>actors. ru_Bypass p = Some actors \<and> (\<forall>(i, kind) \<in> set actors. kind = ''User'' \<and> i \<noteq> mergerID)"
    "(''update'', Some False) \<in> set (ru_Rules p)"
  using assms by (auto simp: validateMergeRuleset_def list_ex_iff split: option.splits if_splits)

end
