(* ===== verification/Engine_Merge.thy ===== *)
theory Engine_Merge
  imports Engine_Capacity Git_Merge
begin

text \<open>
  Automatic merging: \<open>internal/engine/automerge.go\<close> and \<open>automerge_barriers.go\<close>, the publication writes of \<open>task_commit.go\<close> and
  the default-branch observation of \<open>observation.go\<close>. What the code reads from GitHub and Git, and the storage failures it
  handles, are the fields of one parameter record; texts of errors are already redacted. Where the code runs without
  the gate, \<open>mr_Before\<close> and \<open>mr_After\<close> stand for what other operations do to the state meanwhile. The settled comparison of the
  recorded precheck is by value, where the code compares a struct with pointers.
\<close>

record merge_remote =
  mr_Pin :: "config \<Rightarrow> config"
  mr_Fingerprint :: "config \<Rightarrow> string"
  mr_Fold :: "nat \<Rightarrow> nat"
  mr_ParseTime :: "string \<Rightarrow> int option"
  mr_Describe :: "store_error \<Rightarrow> string"
  mr_Stopped :: "engine \<Rightarrow> bool"
  mr_Broken :: "engine \<Rightarrow> string option"
  mr_PR :: "config \<Rightarrow> u64 \<Rightarrow> (string, pull_request) result"
  mr_Marker :: "config \<Rightarrow> string \<Rightarrow> pull_request \<Rightarrow> (string, bool) result"
  mr_Status :: "config \<Rightarrow> u64 \<Rightarrow> (string, merge_status) result"
  mr_Base :: "config \<Rightarrow> merge_status \<Rightarrow> auto_merge_state \<Rightarrow> (string, string) result"
  mr_Destination :: "config \<Rightarrow> (squash_error, string) result"
  mr_Mutate :: "config \<Rightarrow> string \<Rightarrow> u64 \<Rightarrow> string \<Rightarrow> (squash_error, squash_response option) result"
  mr_Confirm :: "config \<Rightarrow> u64 \<Rightarrow> (string, merge_status) result"
  mr_Reconcile :: "config \<Rightarrow> u64 \<Rightarrow> (string, merge_status) result"
  mr_Revision :: "config \<Rightarrow> (string, string option) result"
  mr_Before :: "engine \<Rightarrow> engine"
  mr_After :: "engine \<Rightarrow> engine"

text \<open>\<open>strings.EqualFold\<close>: \<open>mr_Fold\<close> maps a rune to the representative of its simple-folding orbit.\<close>

definition EqualFold :: "(nat \<Rightarrow> nat) \<Rightarrow> string \<Rightarrow> string \<Rightarrow> bool" where
  "EqualFold orbit a b \<longleftrightarrow> map orbit (runes a) = map orbit (runes b)"

subsection \<open>Publication\<close>

definition branchHasUnfinishedWork :: "string \<Rightarrow> string \<Rightarrow> string \<Rightarrow> engine \<Rightarrow> bool" where
  "branchHasUnfinishedWork repository branch exceptID e \<longleftrightarrow>
     list_ex (\<lambda>(i, job). i \<noteq> exceptID \<and> tj_Branch job = branch) (rt_Tasks (en_RT e)) \<or>
     UnfinishedBranchWork repository branch exceptID (en_DB e)"

definition manualMergeReason :: "unicode_tables \<Rightarrow> task \<Rightarrow> config \<Rightarrow> string" where
  "manualMergeReason u t live =
     (case t_MaintenanceFootprint t of
        None \<Rightarrow> ''No trusted footprint evidence is recorded''
      | Some fp \<Rightarrow>
          if \<not> mf_Complete fp then ''The trusted footprint measurement is incomplete''
          else case mf_ManualReasons fp of
              reason # _ \<Rightarrow> reason
            | [] \<Rightarrow>
              (case (mf_ChangedLines fp, mf_ChangedFiles fp) of
                 (Some lines, Some files) \<Rightarrow>
                   (case (if t_Reviews t = [] then None else rr_Maintenance (last (t_Reviews t))) of
                      None \<Rightarrow> ''No maintenance assessment is recorded''
                    | Some ma \<Rightarrow>
                        if \<not> ma_Qualifies ma then ''The delivery was not assessed as maintenance''
                        else if ma_ManualMergeRequired ma then ''Sensitive changes require a manual merge''
                        else if \<not> rr_TrustedDiffComplete (last (t_Reviews t))
                        then ''The complete trusted diff did not fit the review''
                        else if fst (AutoMergeLimits (t_Config t) live) < lines \<or> snd (AutoMergeLimits (t_Config t) live) < files
                        then ''The full pull request footprint exceeds the automatic merge limits''
                        else if list_ex (\<lambda>name. ManualMergePath u name (c_AutoMergeExcludedPaths live)) (mf_Paths fp)
                        then ''A changed path requires manual merge under the saved or live exclusions''
                        else ''Automatic merge prerequisites are not recorded'')
               | _ \<Rightarrow> ''The trusted footprint counts are unknown''))"

text \<open>The merge state a delivery starts with; the outer None is the nil dereference of a task without an output commit.\<close>

definition initialMergeState :: "merge_remote \<Rightarrow> env \<Rightarrow> handle \<Rightarrow> task \<Rightarrow> engine \<Rightarrow> auto_merge_state option option" where
  "initialMergeState rem env h t e =
     (if c_DeliveryMode (t_Config t) \<noteq> DeliveryModeMaintenance then Some None
      else let live = engine_Config (mr_Pin rem) h e in
        (case t_OutputCommit t of
           None \<Rightarrow> None
         | Some commit \<Rightarrow>
             let authorized = MaintenanceMergeAuthorized (env_Unicode env) t live in
             Some (Some
               \<lparr>am_TaskID = t_ID t, am_Head = commit, am_HeadBranch = t_Branch t,
                am_BaseBranch = c_DefaultBranch (t_Config t), am_ComparisonBase = t_ComparisonBase t,
                am_PolicyRevision = mr_Fingerprint rem live, am_Authorized = authorized,
                am_Footprint = t_MaintenanceFootprint t,
                am_Status = (if authorized then AutoMergeWaiting else AutoMergeManual),
                am_Reason = (if authorized then ''Waiting for GitHub checks and protections''
                             else manualMergeReason (env_Unicode env) t live),
                am_ObservedAt = env_Now env, am_AttemptID = None, am_AttemptedAt = None, am_MergeCommit = None,
                am_ResultSource = None\<rparr>)))"

definition published_next :: "env \<Rightarrow> task \<Rightarrow> pull_request \<Rightarrow> task" where
  "published_next env t pr =
     t\<lparr>t_PRNumber := Some (pr_Number pr), t_PRURL := Some (pr_URL pr), t_Error := None, t_BlockedReason := None,
       t_Status := StatusPublished, t_UpdatedAt := env_Now env\<rparr>"

definition completePublicationLocked :: "merge_remote \<Rightarrow> env \<Rightarrow> handle \<Rightarrow> task \<Rightarrow> pull_request \<Rightarrow> engine \<Rightarrow>
    ((engine_error, task) result \<times> engine) option" where
  "completePublicationLocked rem env h t pr e =
     (case initialMergeState rem env h (published_next env t pr) e of
        None \<Rightarrow> None
      | Some merge \<Rightarrow> Some
          (case on_db (CompletePublication env h t (published_next env t pr) pr merge) e of
             (Inl err, e') \<Rightarrow> (Inl (StoreFailed err), e')
           | (Inr committed, e') \<Rightarrow> (Inr committed, on_rt (\<lambda>r. r\<lparr>rt_LastMergeCheck := None\<rparr>) e')))"

definition publishedWorkerLocked :: "merge_remote \<Rightarrow> env \<Rightarrow> handle \<Rightarrow> nat \<Rightarrow> task \<Rightarrow> pull_request \<Rightarrow> engine \<Rightarrow>
    ((engine_error, task) result \<times> engine) option" where
  "publishedWorkerLocked rem env h serial t pr e =
     (case worker_owns serial (t_ID t) e of
        None \<Rightarrow> Some (Inl NotOwned, e)
      | Some job \<Rightarrow>
          map_option (\<lambda>(r, e'). case r of
              Inl err \<Rightarrow> (Inl err, e')
            | Inr committed \<Rightarrow> (Inr committed, set_job (t_ID t) (job\<lparr>tj_Committed := committed, tj_Pending := None\<rparr>) e'))
            (completePublicationLocked rem env h t pr e))"

subsection \<open>Barriers\<close>

definition mergeBarrierKey :: "env \<Rightarrow> string \<Rightarrow> u64 \<Rightarrow> string" where
  "mergeBarrierKey env repository number = to_lower (env_Unicode env) repository @ '':'' @ show_nat (unat number)"

definition setMergeRecoveryError :: "string \<Rightarrow> string \<Rightarrow> engine \<Rightarrow> engine" where
  "setMergeRecoveryError key message =
     on_rt (\<lambda>r. r\<lparr>rt_MergeRecoveryErrors := AList.update key message (rt_MergeRecoveryErrors r)\<rparr>)"

definition clearMergeRecoveryError :: "string \<Rightarrow> engine \<Rightarrow> engine" where
  "clearMergeRecoveryError key = on_rt (\<lambda>r. r\<lparr>rt_MergeRecoveryErrors := AList.delete key (rt_MergeRecoveryErrors r)\<rparr>)"

definition setMergePrecheckError :: "string \<Rightarrow> merge_precheck \<Rightarrow> engine \<Rightarrow> engine" where
  "setMergePrecheckError key pre =
     on_rt (\<lambda>r. r\<lparr>rt_MergePrecheckErrors := AList.update key pre (rt_MergePrecheckErrors r)\<rparr>)"

definition clearMergeBarrier :: "string \<Rightarrow> engine \<Rightarrow> engine" where
  "clearMergeBarrier key e =
     on_rt (\<lambda>r. r\<lparr>rt_MergePrecheckErrors := AList.delete key (rt_MergePrecheckErrors r)\<rparr>) (clearMergeRecoveryError key e)"

definition clearMergePrecheck :: "string \<Rightarrow> merge_precheck \<Rightarrow> engine \<Rightarrow> bool \<times> engine" where
  "clearMergePrecheck key pre e =
     (if map_of (rt_MergePrecheckErrors (en_RT e)) key \<noteq> Some pre then (False, e)
      else (True, on_rt (\<lambda>r. r\<lparr>rt_MergePrecheckErrors := AList.delete key (rt_MergePrecheckErrors r)\<rparr>) e))"

definition recordMergeSettlementFailure :: "string \<Rightarrow> pr_observation \<Rightarrow> auto_merge_state \<Rightarrow> auto_merge_status \<Rightarrow> string \<Rightarrow>
    string \<Rightarrow> string option \<Rightarrow> bool \<Rightarrow> string \<Rightarrow> engine \<Rightarrow> engine" where
  "recordMergeSettlementFailure key ob expected status reason source commit revoke message e =
     (if am_Status expected = AutoMergeMerging \<or> am_Status expected = AutoMergeUncertain \<or> status = AutoMergeUncertain
      then setMergeRecoveryError key message e
      else setMergePrecheckError key
        \<lparr>mp_Message = message, mp_Repository = po_Repository ob, mp_Number = pr_Number (po_PR ob), mp_Expected = expected,
         mp_Status = status, mp_Reason = reason, mp_Source = source, mp_Commit = commit, mp_Revoke = revoke\<rparr> e)"

definition mergeBarrierBound :: "auto_merge_state \<Rightarrow> auto_merge_state \<Rightarrow> bool" where
  "mergeBarrierBound expected m \<longleftrightarrow>
     am_TaskID expected = am_TaskID m \<and> am_Head expected = am_Head m \<and> am_ComparisonBase expected = am_ComparisonBase m \<and>
     am_HeadBranch expected = am_HeadBranch m \<and> am_BaseBranch expected = am_BaseBranch m \<and>
     am_PolicyRevision expected = am_PolicyRevision m \<and> am_AttemptID expected = am_AttemptID m"

definition merge_event :: "auto_merge_status \<Rightarrow> string \<Rightarrow> string" where
  "merge_event status reason =
     ''Automatic merge: '' @ AutoMergeStatus_String status @ '' '' @ [CHR 0xE2, CHR 0x80, CHR 0x94] @ '' '' @ reason"

text \<open>One settlement write: the storage may refuse it.\<close>

definition try_settle :: "merge_remote \<Rightarrow> env \<Rightarrow> string \<Rightarrow> u64 \<Rightarrow> auto_merge_state \<Rightarrow> auto_merge_status \<Rightarrow> string \<Rightarrow> string \<Rightarrow>
    string option \<Rightarrow> bool \<Rightarrow> engine \<Rightarrow> (string, bool) result \<times> engine" where
  "try_settle rem env repository number expected status reason source commit revoke e =
     (case mr_Broken rem e of
        Some message \<Rightarrow> (Inl message, e)
      | None \<Rightarrow>
          (case on_db (SettleMerge env repository number expected status reason source commit revoke) e of
             (Inl err, e') \<Rightarrow> (Inl (mr_Describe rem err), e')
           | (Inr applied, e') \<Rightarrow> (Inr (applied \<noteq> None), e')))"

definition settleMerge :: "merge_remote \<Rightarrow> env \<Rightarrow> handle \<Rightarrow> pr_observation \<Rightarrow> auto_merge_state \<Rightarrow> auto_merge_status \<Rightarrow> string \<Rightarrow>
    string \<Rightarrow> string option \<Rightarrow> bool \<Rightarrow> engine \<Rightarrow> engine" where
  "settleMerge rem env h ob expected status reason source commit revoke e =
     (let key = mergeBarrierKey env (po_Repository ob) (pr_Number (po_PR ob)) in
      case try_settle rem env (po_Repository ob) (pr_Number (po_PR ob)) expected status reason source commit revoke e of
        (Inl message, e') \<Rightarrow> recordMergeSettlementFailure key ob expected status reason source commit revoke message e'
      | (Inr applied, e') \<Rightarrow>
          let e1 = (if applied then clearMergeBarrier key e' else e') in
          if applied \<and> status \<noteq> AutoMergeWaiting
          then engine_Event env h (am_TaskID expected) EventAutomerge (merge_event status reason) e1 else e1)"

definition recoverMergePrecheck :: "merge_remote \<Rightarrow> env \<Rightarrow> handle \<Rightarrow> merge_precheck \<Rightarrow> engine \<Rightarrow> bool \<times> engine" where
  "recoverMergePrecheck rem env h pre e =
     (let key = mergeBarrierKey env (mp_Repository pre) (mp_Number pre) in
      case Option.bind (MergeObservation (mp_Repository pre) (mp_Number pre) (en_DB e)) po_AutoMerge of
        None \<Rightarrow> clearMergePrecheck key pre e
      | Some m \<Rightarrow>
          if \<not> mergeBarrierBound (mp_Expected pre) m \<or> m \<noteq> mp_Expected pre then clearMergePrecheck key pre e
          else (case try_settle rem env (mp_Repository pre) (mp_Number pre) (mp_Expected pre) (mp_Status pre) (mp_Reason pre)
                  (mp_Source pre) (mp_Commit pre) (mp_Revoke pre) e of
              (Inl _, e') \<Rightarrow> (False, e')
            | (Inr applied, e') \<Rightarrow>
                clearMergePrecheck key pre
                  (if applied \<and> mp_Status pre \<noteq> AutoMergeWaiting
                   then engine_Event env h (am_TaskID (mp_Expected pre)) EventAutomerge (merge_event (mp_Status pre) (mp_Reason pre)) e'
                   else e')))"

fun recover_prechecks :: "merge_remote \<Rightarrow> env \<Rightarrow> handle \<Rightarrow> (nat \<Rightarrow> bool) \<Rightarrow> merge_precheck list \<Rightarrow> bool \<Rightarrow> engine \<Rightarrow> bool \<times> engine" where
  "recover_prechecks rem env h cancelled [] released e = (released, e)"
| "recover_prechecks rem env h cancelled (pre # rest) released e =
     (if cancelled (length rest) then (released, e)
      else let (ok, e') = recoverMergePrecheck rem env h pre e in
        recover_prechecks rem env h cancelled rest (released \<or> ok) e')"

definition recoverMergePrechecks :: "merge_remote \<Rightarrow> env \<Rightarrow> handle \<Rightarrow> (nat \<Rightarrow> bool) \<Rightarrow> engine \<Rightarrow> bool \<times> engine" where
  "recoverMergePrechecks rem env h cancelled e =
     (let (released, e') = recover_prechecks rem env h cancelled (map snd (rt_MergePrecheckErrors (en_RT e))) False e
      in (released, if released then on_rt (\<lambda>r. r\<lparr>rt_LastMergeCheck := None\<rparr>) e' else e'))"

subsection \<open>Observation of the default branch\<close>

definition observeLocked :: "(string \<Rightarrow> int option) \<Rightarrow> config \<Rightarrow> string \<Rightarrow> string \<Rightarrow> engine \<Rightarrow> bool \<times> engine" where
  "observeLocked parse cfg revision observedAt e =
     (case parse observedAt of
        None \<Rightarrow> (False, e)
      | Some observed \<Rightarrow>
          if (case rt_DefaultObservation (en_RT e) of None \<Rightarrow> False
              | Some existing \<Rightarrow> Describes existing cfg \<and>
                  (case parse (db_ObservedAt existing) of None \<Rightarrow> True | Some at \<Rightarrow> \<not> at < observed))
          then (True, e)
          else (True, on_rt (\<lambda>r. r\<lparr>rt_DefaultObservation := Some
                  \<lparr>db_Repository = c_GitHubRepo cfg, db_DefaultBranch = c_DefaultBranch cfg, db_Revision = revision,
                   db_ObservedAt = observedAt\<rparr>\<rparr>) e))"

definition observeDefaultBranch :: "(config \<Rightarrow> config) \<Rightarrow> (string \<Rightarrow> int option) \<Rightarrow> handle \<Rightarrow> config \<Rightarrow> string \<Rightarrow> string \<Rightarrow> engine \<Rightarrow>
    bool \<times> engine" where
  "observeDefaultBranch pin parse h cfg revision observedAt e =
     (if \<not> SameRemoteIdentity (engine_Config pin h e) cfg then (False, e)
      else observeLocked parse cfg revision observedAt e)"

definition mergeConfirmed :: "merge_remote \<Rightarrow> env \<Rightarrow> handle \<Rightarrow> int \<Rightarrow> task \<Rightarrow> pr_observation \<Rightarrow> auto_merge_state \<Rightarrow> string \<Rightarrow>
    engine \<Rightarrow> engine" where
  "mergeConfirmed rem env h now t ob expected commit e =
     (let key = mergeBarrierKey env (po_Repository ob) (pr_Number (po_PR ob)) in
      case try_settle rem env (po_Repository ob) (pr_Number (po_PR ob)) expected AutoMergeMerged ''Squash merged by Octomus''
             ''confirmed'' (Some commit) False e of
        (Inl message, e') \<Rightarrow> setMergeRecoveryError key message e'
      | (Inr False, e') \<Rightarrow> setMergeRecoveryError key ''The confirmed merge result could not be recorded'' e'
      | (Inr True, e') \<Rightarrow>
          let e1 = engine_Event env h (t_ID t) EventAutomerge
                     (''Squash merged pull request '' @ show_nat (unat (pr_Number (po_PR ob))) @ '' at '' @ commit)
                     (clearMergeBarrier key e');
              live = engine_Config (mr_Pin rem) h e1;
              e2 = startPRRefresh (mr_Stopped rem e1) env h live now e1
          in (case mr_Revision rem live of
                Inr (Some revision) \<Rightarrow> snd (observeDefaultBranch (mr_Pin rem) (mr_ParseTime rem) h live revision (env_Now env) e2)
              | _ \<Rightarrow> e2))"

subsection \<open>Readiness\<close>

definition mergeReadiness :: "unicode_tables \<Rightarrow> task \<Rightarrow> config \<Rightarrow> merge_status \<Rightarrow> string \<times> bool" where
  "mergeReadiness u t cfg s =
     (if ms_Draft s then (''The pull request is a draft'', False)
      else if ms_MergeQueue s then (''The repository requires a merge queue'', False)
      else if \<not> ms_SquashAllowed s then (''The repository does not allow squash merging'', False)
      else if ms_ReviewDecision s = Some ''REVIEW_REQUIRED'' then (''Waiting for a required pull request review'', True)
      else if ms_ReviewDecision s \<noteq> None \<and> ms_ReviewDecision s \<noteq> Some ''APPROVED''
      then (''The pull request review requested changes'', False)
      else if ms_CheckState s = None \<or> ms_CheckState s = Some ''SUCCESS'' \<and> ms_CheckContexts s = 0
      then (''Waiting for check evidence on the reviewed head'', True)
      else if ms_CheckState s = Some ''EXPECTED'' \<or> ms_CheckState s = Some ''PENDING''
      then (''Waiting for checks to complete on the reviewed head'', True)
      else if ms_CheckState s \<noteq> Some ''SUCCESS'' then (''Checks failed on the reviewed head'', False)
      else if ms_Mergeable s = ''CONFLICTING'' then (''The pull request has conflicts'', False)
      else if ms_Mergeable s \<noteq> ''MERGEABLE'' then (''Waiting for GitHub to report mergeability'', True)
      else if ms_MergeState s = ''UNSTABLE'' then (''Waiting for checks to complete on the reviewed head'', True)
      else if ms_MergeState s \<noteq> ''CLEAN''
      then (''GitHub protections block merging: '' @ to_lower u (ms_MergeState s), False)
      else if ms_StatsMalformed s then (''GitHub reported malformed footprint statistics'', False)
      else case (ms_Additions s, ms_Deletions s, ms_ChangedFiles s) of
          (Some additions, Some deletions, Some files) \<Rightarrow>
            if \<not> RemoteFootprintWithin additions deletions files (t_Config t) cfg
            then (''The full pull request footprint exceeds the automatic merge limits'', False)
            else ([], False)
        | _ \<Rightarrow> (''GitHub did not report the pull request footprint'', False))"

text \<open>The reason and the flags waiting, terminal and revoke, as the code returns them.\<close>

definition recorded_block :: "unicode_tables \<Rightarrow> (nat \<Rightarrow> nat) \<Rightarrow> config \<Rightarrow> task \<Rightarrow> auto_merge_state \<Rightarrow> string option" where
  "recorded_block u orbit cfg t m =
     (if wl_ArchivedAt (t_Lifecycle t) \<noteq> None then Some ''The authorizing task was archived''
      else if \<not> EqualFold orbit (c_GitHubRepo (t_Config t)) (c_GitHubRepo cfg)
      then Some ''The repository configuration changed; the recorded authority no longer applies''
      else if am_HeadBranch m = [] \<or> am_BaseBranch m = [] \<or> am_HeadBranch m \<noteq> t_Branch t \<or>
              am_BaseBranch m \<noteq> c_DefaultBranch (t_Config t)
      then Some ''The recorded merge intent predates immutable branch and base binding''
      else if t_Status t \<noteq> StatusPublished \<or> t_OutputCommit t \<noteq> Some (am_Head m) \<or> t_ComparisonBase t \<noteq> am_ComparisonBase m
      then Some ''The recorded delivery evidence no longer matches the authorized head''
      else if \<not> MaintenanceMergeAuthorized u t cfg then Some (manualMergeReason u t cfg)
      else None)"

definition mergeBlocked :: "merge_remote \<Rightarrow> env \<Rightarrow> config \<Rightarrow> task \<Rightarrow> auto_merge_state \<Rightarrow> engine \<Rightarrow> string \<times> bool \<times> bool \<times> bool" where
  "mergeBlocked rem env cfg t m e =
     (let number = (case t_PRNumber t of None \<Rightarrow> 0 | Some n \<Rightarrow> n) in
      case recorded_block (env_Unicode env) (mr_Fold rem) cfg t m of
        Some reason \<Rightarrow> (reason, False, False, True)
      | None \<Rightarrow>
        if branchHasUnfinishedWork (c_GitHubRepo cfg) (t_Branch t) (t_ID t) e
        then (''Waiting for same-branch work to finish'', True, False, False)
        else case mr_PR rem cfg number of
            Inl err \<Rightarrow> (''Waiting for a readable pull request: '' @ err, True, False, False)
          | Inr pr \<Rightarrow>
            if pr_State pr = ''merged'' \<or> pr_State pr = ''closed'' then ([], False, True, False)
            else if \<not> OwnedOpen pr \<or> pr_Branch pr \<noteq> am_HeadBranch m \<or> pr_Base pr \<noteq> am_BaseBranch m \<or> pr_Head pr \<noteq> am_Head m
            then (''The pull request changed; the recorded authority no longer applies'', False, False, True)
            else case mr_Marker rem cfg (t_ID t) pr of
                Inl err \<Rightarrow> (''Waiting for a readable task marker: '' @ err, True, False, False)
              | Inr False \<Rightarrow> ((''The pull request does not carry this task'' @ [CHR 0x27] @ ''s delivery marker''), False, False, True)
              | Inr True \<Rightarrow>
                (case mr_Status rem cfg number of
                   Inl err \<Rightarrow> (''Waiting for merge status: '' @ err, True, False, False)
                 | Inr s \<Rightarrow>
                   if ms_State s = ''merged'' \<or> ms_State s = ''closed'' then ([], False, True, False)
                   else if ms_Head s \<noteq> am_Head m \<or> ms_HeadBranch s \<noteq> am_HeadBranch m \<or> ms_BaseBranch s \<noteq> am_BaseBranch m
                   then (''The pull request head, branch or base changed'', False, False, True)
                   else let (reason, waiting) = mergeReadiness (env_Unicode env) t cfg s in
                     if reason \<noteq> [] then (reason, waiting, False, False)
                     else case mr_Base rem cfg s m of
                         Inl err \<Rightarrow> (''Waiting for the trusted merge base: '' @ err, True, False, False)
                       | Inr base \<Rightarrow>
                           if base \<noteq> am_ComparisonBase m
                           then (''The base moved since review; a fresh reviewed delivery is required'', False, False, True)
                           else ([], False, False, False)))"

subsection \<open>Reconciliation and attempts\<close>

definition reconcileMerge :: "merge_remote \<Rightarrow> env \<Rightarrow> handle \<Rightarrow> config \<Rightarrow> pr_observation \<Rightarrow> auto_merge_state \<Rightarrow> engine \<Rightarrow> engine" where
  "reconcileMerge rem env h cfg ob m e =
     (case mr_Reconcile rem cfg (pr_Number (po_PR ob)) of
        Inl err \<Rightarrow>
          settleMerge rem env h ob m (am_Status m) (''Merge result is unconfirmed; remote status is unreadable: '' @ err) [] None False e
      | Inr s \<Rightarrow>
          let bound = (ms_Head s = am_Head m \<and> ms_HeadBranch s = am_HeadBranch m \<and> ms_BaseBranch s = am_BaseBranch m \<and>
                       EqualFold (mr_Fold rem) (ms_Repository s) (po_Repository ob)) in
          if ms_State s = ''merged'' \<and> bound
          then settleMerge rem env h ob m AutoMergeMerged ''The pull request is merged on the remote'' ''observed'' (ms_MergeCommit s) False e
          else if ms_State s = ''merged''
          then settleMerge rem env h ob m AutoMergeManual
            ''The pull request merged after its head, branch or base changed; the outcome does not apply to the recorded reviewed head''
            [] None True e
          else if ms_State s = ''closed'' \<and> bound
          then settleMerge rem env h ob m AutoMergeClosed ''The pull request was closed without merging'' ''observed'' None False e
          else if ms_State s = ''closed''
          then settleMerge rem env h ob m AutoMergeManual
            ''The pull request closed after its head, branch or base changed; the outcome does not apply to the recorded reviewed head''
            [] None True e
          else if bound \<and> ms_State s = ''open''
          then settleMerge rem env h ob m AutoMergeWaiting ''The merge attempt was interrupted; fresh checks are required'' [] None False e
          else settleMerge rem env h ob m AutoMergeManual
            ''The pull request head changed during the merge attempt; authority is revoked'' [] None True e)"

definition mergeRefusal :: "squash_error \<Rightarrow> string" where
  "mergeRefusal err =
     (if list_ex (str_contains (sx_Raw err)) [''HTTP 403'', ''HTTP 404'', ''HTTP 405'', ''HTTP 422'']
      then ''GitHub refused the merge request: '' @ sx_Text err else [])"

text \<open>The tests a merge attempt makes under the gate, with the current task record.\<close>

definition attempt_allowed :: "merge_remote \<Rightarrow> env \<Rightarrow> handle \<Rightarrow> pr_observation \<Rightarrow> auto_merge_state \<Rightarrow> task \<Rightarrow> engine \<Rightarrow> bool" where
  "attempt_allowed rem env h ob m cur e \<longleftrightarrow>
     (let ct = engine_Control h e; live = engine_Config (mr_Pin rem) h e in
      recoveryConflict e = None \<and>
      \<not> (ct_Paused ct \<or> ct_Mode ct \<noteq> OperatingModeContinuous \<and> ct_Mode ct \<noteq> OperatingModeRunOnce \<or>
         c_DeliveryMode live \<noteq> DeliveryModeMaintenance \<or> \<not> MaintenanceMergeAuthorized (env_Unicode env) cur live) \<and>
      \<not> (ct_Mode ct = OperatingModeRunOnce \<and>
         (ct_Batch ct = None \<or> t_RunID cur = None \<or> t_RunID cur \<noteq> map_option b_ID (ct_Batch ct))) \<and>
      \<not> (t_Status cur \<noteq> StatusPublished \<or> wl_ArchivedAt (t_Lifecycle cur) \<noteq> None \<or> t_OutputCommit cur \<noteq> Some (am_Head m) \<or>
         t_ComparisonBase cur \<noteq> am_ComparisonBase m \<or> t_PRNumber cur \<noteq> Some (pr_Number (po_PR ob)) \<or>
         am_HeadBranch m = [] \<or> am_BaseBranch m = [] \<or> am_HeadBranch m \<noteq> t_Branch cur \<or>
         am_BaseBranch m \<noteq> c_DefaultBranch (t_Config cur) \<or> t_Branch cur \<noteq> pr_Branch (po_PR ob) \<or>
         pr_Base (po_PR ob) \<noteq> am_BaseBranch m \<or>
         \<not> EqualFold (mr_Fold rem) (c_GitHubRepo (t_Config cur)) (po_Repository ob)) \<and>
      \<not> CancelMarked (en_DB e) (am_TaskID m) \<and>
      \<not> branchHasUnfinishedWork (c_GitHubRepo live) (t_Branch cur) (t_ID cur) e)"

definition merge_intent :: "env \<Rightarrow> auto_merge_state \<Rightarrow> auto_merge_state" where
  "merge_intent env m =
     m\<lparr>am_Status := AutoMergeMerging, am_AttemptID := Some (env_ID env), am_AttemptedAt := Some (env_Now env),
       am_Reason := ''Squash merge in flight'', am_ObservedAt := env_Now env\<rparr>"

definition mergeMutationBound :: u64 where
  "mergeMutationBound = 15"

definition squash_call :: "merge_remote \<Rightarrow> env \<Rightarrow> handle \<Rightarrow> pr_observation \<Rightarrow> auto_merge_state \<Rightarrow> engine \<Rightarrow> (squash_error, string) result" where
  "squash_call rem env h ob m e =
     (let live = engine_Config (mr_Pin rem) h e;
          bounded = live\<lparr>c_CommandTimeoutSeconds := min (c_CommandTimeoutSeconds live) mergeMutationBound\<rparr>;
          number = pr_Number (po_PR ob)
      in SquashMerge (env_Redact env) (mr_Destination rem bounded) (mr_Mutate rem bounded) (mr_Confirm rem bounded number)
           bounded number (am_Head m) (am_HeadBranch m))"

text \<open>What the outcome of the call is recorded as.\<close>

definition settle_attempt :: "merge_remote \<Rightarrow> env \<Rightarrow> handle \<Rightarrow> int \<Rightarrow> task \<Rightarrow> pr_observation \<Rightarrow> auto_merge_state \<Rightarrow>
    (squash_error, string) result \<Rightarrow> engine \<Rightarrow> engine" where
  "settle_attempt rem env h now cur ob m outcome e =
     (let expected = m\<lparr>am_Status := AutoMergeMerging, am_AttemptID := Some (env_ID env)\<rparr> in
      case outcome of
        Inr commit \<Rightarrow> mergeConfirmed rem env h now cur ob expected commit e
      | Inl err \<Rightarrow>
          if sx_Destination err then settleMerge rem env h ob expected AutoMergeManual (sx_Text err) [] None False e
          else if \<not> sx_Unconfirmed err \<and> mergeRefusal err \<noteq> []
          then settleMerge rem env h ob expected AutoMergeManual (mergeRefusal err) [] None True e
          else settleMerge rem env h ob expected AutoMergeUncertain
                 (''The merge request outcome is unconfirmed: '' @ sx_Text err) [] None False e)"

text \<open>\<open>mergeAttempt\<close> returns the state in which the squash merge was requested, when it was.\<close>

definition mergeAttempt :: "merge_remote \<Rightarrow> env \<Rightarrow> handle \<Rightarrow> int \<Rightarrow> pr_observation \<Rightarrow> auto_merge_state \<Rightarrow> bool \<Rightarrow> engine \<Rightarrow>
    engine option \<times> engine" where
  "mergeAttempt rem env h now ob m allowManual e =
     (if mr_Stopped rem e then (None, e)
      else case map_of (tb_Tasks (en_DB e)) (am_TaskID m) of
          None \<Rightarrow> (None, e)
        | Some cur \<Rightarrow>
            if \<not> attempt_allowed rem env h ob m cur e then (None, e)
            else case on_db (ClaimMerge env h (po_Repository ob) (pr_Number (po_PR ob)) (merge_intent env m) allowManual) e of
                (Inr (Some _), e1) \<Rightarrow>
                  (Some e1, settle_attempt rem env h now cur ob m (squash_call rem env h ob m e1) (mr_After rem e1))
              | (_, e1) \<Rightarrow> (None, e1))"

text \<open>The mode of a merge pass: delivery mode off, paused, continuous, and the batch it is restricted to.\<close>

record merge_mode =
  mm_Off :: bool
  mm_Paused :: bool
  mm_Continuous :: bool
  mm_Batch :: "string option"

definition merge_mode_of :: "config \<Rightarrow> control \<Rightarrow> merge_mode" where
  "merge_mode_of cfg ct =
     (let off = (c_DeliveryMode cfg \<noteq> DeliveryModeMaintenance);
          paused = (ct_Paused ct \<or> ct_Mode ct = OperatingModePaused)
      in \<lparr>mm_Off = off, mm_Paused = paused,
          mm_Continuous = (\<not> off \<and> \<not> paused \<and> ct_Mode ct = OperatingModeContinuous),
          mm_Batch = (if \<not> off \<and> \<not> paused \<and> ct_Mode ct = OperatingModeRunOnce then map_option b_ID (ct_Batch ct) else None)\<rparr>)"

text \<open>The decision on a delivery whose branch the pass holds.\<close>

definition merge_decide :: "merge_remote \<Rightarrow> env \<Rightarrow> handle \<Rightarrow> int \<Rightarrow> config \<Rightarrow> merge_mode \<Rightarrow> pr_observation \<Rightarrow> auto_merge_state \<Rightarrow>
    task \<Rightarrow> engine \<Rightarrow> engine option \<times> engine" where
  "merge_decide rem env h now cfg mode ob m t e =
     (if am_Status m = AutoMergeMerging \<or> am_Status m = AutoMergeUncertain
      then (None, reconcileMerge rem env h (t_Config t) ob m e)
      else if mm_Batch mode \<noteq> None \<and> t_RunID t \<noteq> mm_Batch mode then (None, e)
      else if mm_Off mode then
        (None, if am_Status m = AutoMergeWaiting \<or> am_Status m = AutoMergeManual \<and> am_Authorized m
               then settleMerge rem env h ob m AutoMergeManual
                      ''The live delivery mode no longer authorizes automatic merge'' [] None True e
               else e)
      else if mm_Paused mode then (None, e)
      else if am_Status m = AutoMergeManual \<and> \<not> (mm_Continuous mode \<and> am_Authorized m) then (None, e)
      else let (reason, waiting, final, revoke) = mergeBlocked rem env cfg t m e in
        if final then (None, reconcileMerge rem env h (t_Config t) ob m e)
        else if waiting then (None, settleMerge rem env h ob m AutoMergeWaiting reason [] None False e)
        else if reason \<noteq> [] then (None, settleMerge rem env h ob m AutoMergeManual reason [] None revoke e)
        else mergeAttempt rem env h now ob m (mm_Continuous mode) (mr_Before rem e))"

definition release_branch :: "string \<Rightarrow> engine \<Rightarrow> engine" where
  "release_branch branch = on_rt (\<lambda>r. r\<lparr>rt_Merges := filter (\<lambda>b. b \<noteq> branch) (rt_Merges r)\<rparr>)"

definition mergeCandidate :: "merge_remote \<Rightarrow> env \<Rightarrow> handle \<Rightarrow> int \<Rightarrow> config \<Rightarrow> merge_mode \<Rightarrow> pr_observation \<Rightarrow> engine \<Rightarrow>
    engine option \<times> engine" where
  "mergeCandidate rem env h now cfg mode ob e =
     (case po_AutoMerge ob of
        None \<Rightarrow> (None, e)
      | Some m \<Rightarrow>
          if \<not> AutoMergeStatus_Pending (am_Status m) \<and> am_Status m \<noteq> AutoMergeManual then (None, e)
          else case map_of (tb_Tasks (en_DB e)) (am_TaskID m) of
              None \<Rightarrow>
                (None, if am_Status m = AutoMergeMerging \<or> am_Status m = AutoMergeUncertain
                       then reconcileMerge rem env h (cfg\<lparr>c_GitHubRepo := po_Repository ob\<rparr>) ob m e
                       else settleMerge rem env h ob m AutoMergeManual ''The authorizing task record is missing'' [] None True e)
            | Some t \<Rightarrow>
                if t_Branch t \<in> set (rt_Merges (en_RT e)) then (None, e)
                else let (call, e') = merge_decide rem env h now cfg mode ob m t
                           (on_rt (\<lambda>r. r\<lparr>rt_Merges := t_Branch t # rt_Merges r\<rparr>) e)
                     in (call, release_branch (t_Branch t) e'))"

subsection \<open>The merge pass\<close>

definition autoMergeInterval :: int where
  "autoMergeInterval = 30 * second"

definition mergePassLimit :: nat where
  "mergePassLimit = 8"

definition mergePageSize :: nat where
  "mergePageSize = 8"

text \<open>The state of the pass: the candidates seen, in reverse order, and the states in which a merge was requested.\<close>

record merge_pass =
  mx_Seen :: "nat list"
  mx_Calls :: "engine list"
  mx_Engine :: engine

definition set_cursor :: "nat \<Rightarrow> engine \<Rightarrow> engine" where
  "set_cursor n = on_rt (\<lambda>r. r\<lparr>rt_MergeCursor := n\<rparr>)"

definition merge_visit :: "merge_remote \<Rightarrow> env \<Rightarrow> handle \<Rightarrow> int \<Rightarrow> config \<Rightarrow> merge_mode \<Rightarrow> nat \<Rightarrow> pr_observation \<Rightarrow> merge_pass \<Rightarrow> merge_pass" where
  "merge_visit rem env h now cfg mode seq ob st =
     (let (call, e') = mergeCandidate rem env h now cfg mode ob (set_cursor seq (mx_Engine st)) in
      st\<lparr>mx_Seen := seq # mx_Seen st, mx_Calls := (case call of None \<Rightarrow> mx_Calls st | Some e1 \<Rightarrow> e1 # mx_Calls st),
         mx_Engine := e'\<rparr>)"

text \<open>The candidates of one page; True when the pass returns. \<open>cancelled\<close> tells, for a number of processed candidates, whether the
  pass was cancelled before the next one.\<close>

fun merge_page :: "merge_remote \<Rightarrow> env \<Rightarrow> handle \<Rightarrow> (nat \<Rightarrow> bool) \<Rightarrow> int \<Rightarrow> config \<Rightarrow> merge_mode \<Rightarrow> (nat \<times> pr_observation) list \<Rightarrow>
    merge_pass \<Rightarrow> bool \<times> merge_pass" where
  "merge_page rem env h cancelled now cfg mode [] st = (False, st)"
| "merge_page rem env h cancelled now cfg mode ((seq, ob) # rest) st =
     (if seq \<in> set (mx_Seen st) then (True, st\<lparr>mx_Engine := set_cursor 0 (mx_Engine st)\<rparr>)
      else if cancelled (length (mx_Seen st)) then (True, st\<lparr>mx_Engine := set_cursor seq (mx_Engine st)\<rparr>)
      else let st' = merge_visit rem env h now cfg mode seq ob st in
              if mergePassLimit \<le> length (mx_Seen st') then (False, st')
              else merge_page rem env h cancelled now cfg mode rest st')"

lemma merge_visit_seen [simp]: "mx_Seen (merge_visit rem env h now cfg mode seq ob st) = seq # mx_Seen st"
  by (simp add: merge_visit_def split_def Let_def)

lemma merge_page_seen:
  "length (mx_Seen st) \<le> length (mx_Seen (snd (merge_page rem env h cancelled now cfg mode rows st)))"
proof (induction rows arbitrary: st)
  case (Cons row rows)
  obtain seq ob where row: "row = (seq, ob)" by fastforce
  show ?case using Cons [of "merge_visit rem env h now cfg mode seq ob st"] by (simp add: row Let_def)
qed simp

lemma merge_page_progress:
  assumes "\<not> fst (merge_page rem env h cancelled now cfg mode rows st)" and "rows \<noteq> []"
  shows "length (mx_Seen st) < length (mx_Seen (snd (merge_page rem env h cancelled now cfg mode rows st)))"
proof -
  obtain seq ob rest where rows: "rows = (seq, ob) # rest" using assms(2) by (cases rows) auto
  have "seq \<notin> set (mx_Seen st)" "\<not> cancelled (length (mx_Seen st))" using assms(1) by (auto simp: rows split: if_splits)
  then show ?thesis
    using merge_page_seen [of "merge_visit rem env h now cfg mode seq ob st" rem env h cancelled now cfg mode rest]
    by (simp add: rows Let_def)
qed

lemma set_cursor_simps [simp]: "rt_MergeCursor (en_RT (set_cursor n e)) = n" "en_DB (set_cursor n e) = en_DB e"
  by (simp_all add: set_cursor_def)

function merge_loop :: "merge_remote \<Rightarrow> env \<Rightarrow> handle \<Rightarrow> (nat \<Rightarrow> bool) \<Rightarrow> int \<Rightarrow> config \<Rightarrow> merge_mode \<Rightarrow> merge_pass \<Rightarrow> merge_pass" where
  "merge_loop rem env h cancelled now cfg mode st =
     (if mergePassLimit \<le> length (mx_Seen st) \<or> cancelled (length (mx_Seen st)) then st
      else let cursor = rt_MergeCursor (en_RT (mx_Engine st));
               rows = MergeCandidates h cursor mergePageSize (en_DB (mx_Engine st))
           in if rows = [] then
                (if cursor = 0 then st
                 else merge_loop rem env h cancelled now cfg mode (st\<lparr>mx_Engine := set_cursor 0 (mx_Engine st)\<rparr>))
              else if fst (merge_page rem env h cancelled now cfg mode rows st)
              then snd (merge_page rem env h cancelled now cfg mode rows st)
              else merge_loop rem env h cancelled now cfg mode (snd (merge_page rem env h cancelled now cfg mode rows st)))"
  by pat_completeness auto
termination
proof (relation "measure (\<lambda>(rem, env, h, cancelled, now, cfg, mode, st).
    2 * (mergePassLimit - length (mx_Seen st)) + (if rt_MergeCursor (en_RT (mx_Engine st)) = 0 then 0 else 1))", goal_cases)
  case (3 rem env h cancelled now cfg mode st cursor rows)
  have "length (mx_Seen st) < length (mx_Seen (snd (merge_page rem env h cancelled now cfg mode rows st)))"
    using merge_page_progress 3 by blast
  then have "Suc (mergePassLimit - length (mx_Seen (snd (merge_page rem env h cancelled now cfg mode rows st))))
      \<le> mergePassLimit - length (mx_Seen st)" using 3(1) by (auto simp: Suc_le_eq intro!: diff_less_mono2)
  then show ?case by auto
qed auto

declare merge_loop.simps [simp del]

definition mergePass :: "merge_remote \<Rightarrow> env \<Rightarrow> handle \<Rightarrow> (nat \<Rightarrow> bool) \<Rightarrow> int \<Rightarrow> control \<Rightarrow> engine \<Rightarrow> merge_pass" where
  "mergePass rem env h cancelled now ct e =
     (let cfg = engine_Config (mr_Pin rem) h e in
      merge_loop rem env h cancelled now cfg (merge_mode_of cfg ct) \<lparr>mx_Seen = [], mx_Calls = [], mx_Engine = e\<rparr>)"

text \<open>The worker clears its slot when the pass returns.\<close>

definition merge_worker_done :: "merge_pass \<Rightarrow> engine" where
  "merge_worker_done st = on_rt (\<lambda>r. r\<lparr>rt_MergeWorker := False\<rparr>) (mx_Engine st)"

text \<open>\<open>checkMerges\<close> starts the worker; the zero time of the last check is None.\<close>

definition checkMerges :: "handle \<Rightarrow> bool \<Rightarrow> int \<Rightarrow> engine \<Rightarrow> engine" where
  "checkMerges h stopping now e =
     (if rt_MergeWorker (en_RT e) \<or> stopping then e
      else if (case rt_LastMergeCheck (en_RT e) of None \<Rightarrow> False | Some at \<Rightarrow> now - at < autoMergeInterval) then e
      else let cursor = rt_MergeCursor (en_RT e);
               rows = MergeCandidates h cursor mergePageSize (en_DB e);
               rows = (if rows = [] \<and> cursor \<noteq> 0 then MergeCandidates h 0 mergePageSize (en_DB e) else rows)
           in if rows = [] then (if cursor \<noteq> 0 then set_cursor 0 e else e)
              else on_rt (\<lambda>r. r\<lparr>rt_LastMergeCheck := Some now, rt_MergeWorker := True\<rparr>) e)"

subsection \<open>Lemmas: guards\<close>

text \<open>What GitHub has to report before a merge is requested.\<close>

definition merge_ready :: "task \<Rightarrow> config \<Rightarrow> auto_merge_state \<Rightarrow> merge_status \<Rightarrow> bool" where
  "merge_ready t cfg m s \<longleftrightarrow>
     ms_Head s = am_Head m \<and> ms_HeadBranch s = am_HeadBranch m \<and> ms_BaseBranch s = am_BaseBranch m \<and>
     \<not> ms_Draft s \<and> \<not> ms_MergeQueue s \<and> ms_SquashAllowed s \<and>
     (ms_ReviewDecision s = None \<or> ms_ReviewDecision s = Some ''APPROVED'') \<and>
     ms_CheckState s = Some ''SUCCESS'' \<and> 0 < ms_CheckContexts s \<and> ms_Mergeable s = ''MERGEABLE'' \<and> ms_MergeState s = ''CLEAN'' \<and>
     (case (ms_Additions s, ms_Deletions s, ms_ChangedFiles s) of
        (Some a, Some d, Some f) \<Rightarrow> RemoteFootprintWithin a d f (t_Config t) cfg | _ \<Rightarrow> False)"

lemma mergeReadiness_ready:
  assumes "fst (mergeReadiness u t cfg s) = []"
  shows "\<not> ms_Draft s \<and> \<not> ms_MergeQueue s \<and> ms_SquashAllowed s \<and>
     (ms_ReviewDecision s = None \<or> ms_ReviewDecision s = Some ''APPROVED'') \<and>
     ms_CheckState s = Some ''SUCCESS'' \<and> 0 < ms_CheckContexts s \<and> ms_Mergeable s = ''MERGEABLE'' \<and> ms_MergeState s = ''CLEAN'' \<and>
     (case (ms_Additions s, ms_Deletions s, ms_ChangedFiles s) of
        (Some a, Some d, Some f) \<Rightarrow> RemoteFootprintWithin a d f (t_Config t) cfg | _ \<Rightarrow> False)"
  using assms unfolding mergeReadiness_def by (simp add: word_gt_0 split: if_split_asm option.splits)

lemma mergeBlocked_open:
  assumes "mergeBlocked rem env cfg t m e = ([], False, False, revoke)" and "manualMergeReason (env_Unicode env) t cfg \<noteq> []"
  shows "\<exists>pr s. mr_PR rem cfg (case t_PRNumber t of None \<Rightarrow> 0 | Some n \<Rightarrow> n) = Inr pr \<and> OwnedOpen pr \<and> pr_Head pr = am_Head m \<and>
      mr_Marker rem cfg (t_ID t) pr = Inr True \<and>
      mr_Status rem cfg (case t_PRNumber t of None \<Rightarrow> 0 | Some n \<Rightarrow> n) = Inr s \<and> merge_ready t cfg m s \<and>
      mr_Base rem cfg s m = Inr (am_ComparisonBase m)"
proof -
  let ?n = "case t_PRNumber t of None \<Rightarrow> 0 | Some n \<Rightarrow> n"
  have r: "recorded_block (env_Unicode env) (mr_Fold rem) cfg t m = None"
    using assms by (auto simp: mergeBlocked_def recorded_block_def Let_def split: if_splits)
  obtain pr where pr: "mr_PR rem cfg ?n = Inr pr"
    using assms(1) r by (auto simp: mergeBlocked_def Let_def split: sum.splits if_splits)
  have p: "OwnedOpen pr" "pr_Head pr = am_Head m" "mr_Marker rem cfg (t_ID t) pr = Inr True"
    using assms(1) r pr by (auto simp: mergeBlocked_def Let_def split: sum.splits if_splits bool.splits)
  obtain s where s: "mr_Status rem cfg ?n = Inr s"
    using assms(1) r pr p by (auto simp: mergeBlocked_def Let_def split: sum.splits if_splits)
  have q: "ms_Head s = am_Head m" "ms_HeadBranch s = am_HeadBranch m" "ms_BaseBranch s = am_BaseBranch m"
    "fst (mergeReadiness (env_Unicode env) t cfg s) = []" "mr_Base rem cfg s m = Inr (am_ComparisonBase m)"
    using assms(1) r pr p s by (auto simp: mergeBlocked_def Let_def split: sum.splits if_splits prod.splits)
  show ?thesis using pr p s q mergeReadiness_ready [OF q(4)] by (simp add: merge_ready_def)
qed

lemma claim_recorded:
  assumes "ClaimMerge env h repository number intent allowManual db = (Inr (Some u), db')"
  shows "\<exists>i ob. (i, ob) \<in> set (tb_PRs db') \<and> po_AutoMerge ob = Some intent \<and> am_Authorized intent \<and>
     EqualASCII (po_Repository ob) repository \<and> pr_Number (po_PR ob) = number"
proof -
  obtain i ob cur where p: "prObservationAt db repository number = Some (i, ob)" "po_AutoMerge ob = Some cur" "intent_complete intent"
    and db: "db' = txRepositoryEvent env (h_Repo h) (am_TaskID intent) EventAutomerge (claim_message intent)
      (put_pr i (ob\<lparr>po_AutoMerge := Some intent\<rparr>) db)"
    using assms by (auto simp: ClaimMerge_def conditional_def runTx_def txClaimMerge_def split: if_splits option.splits sum.splits store_error.splits)
  have "map_of (tb_PRs db') i = Some (ob\<lparr>po_AutoMerge := Some intent\<rparr>)"
    by (simp add: db put_pr_def txRepositoryEvent_def update_conv')
  moreover have "EqualASCII (po_Repository ob) repository \<and> pr_Number (po_PR ob) = number"
    using prObservationAt_matches [OF p(1)] by (simp add: pr_matches_def)
  ultimately show ?thesis using p(3) by (intro exI [of _ i] exI [of _ "ob\<lparr>po_AutoMerge := Some intent\<rparr>"])
    (simp add: map_of_SomeD intent_complete_def)
qed

lemma attempt_allowedD:
  assumes "attempt_allowed rem env h ob m cur e"
  shows "t_Status cur = StatusPublished" "t_OutputCommit cur = Some (am_Head m)" "t_Branch cur = am_HeadBranch m"
      "t_PRNumber cur = Some (pr_Number (po_PR ob))" "MaintenanceMergeAuthorized (env_Unicode env) cur (engine_Config (mr_Pin rem) h e)"
      "\<not> ct_Paused (engine_Control h e)" "ct_Mode (engine_Control h e) \<noteq> OperatingModePaused" "recoveryConflict e = None"
      "\<not> CancelMarked (en_DB e) (am_TaskID m)"
      "\<not> branchHasUnfinishedWork (c_GitHubRepo (engine_Config (mr_Pin rem) h e)) (t_Branch cur) (t_ID cur) e"
proof -
  note a = assms [unfolded attempt_allowed_def Let_def de_Morgan_disj not_not]
  show "ct_Mode (engine_Control h e) \<noteq> OperatingModePaused" using a by (elim conjE) force
qed (use assms [unfolded attempt_allowed_def Let_def de_Morgan_disj not_not] in \<open>(elim conjE, simp only: not_not)\<close>)+

text \<open>The merge is in flight in the record of the delivery.\<close>

definition recorded_in_flight :: "env \<Rightarrow> pr_observation \<Rightarrow> auto_merge_state \<Rightarrow> engine \<Rightarrow> bool" where
  "recorded_in_flight env ob m e \<longleftrightarrow>
     list_ex (\<lambda>(i, o'). po_AutoMerge o' = Some (merge_intent env m) \<and> am_Authorized m \<and>
       EqualASCII (po_Repository o') (po_Repository ob) \<and> pr_Number (po_PR o') = pr_Number (po_PR ob)) (tb_PRs (en_DB e))"

lemma mergeAttempt_call:
  assumes "mergeAttempt rem env h now ob m allowManual e = (Some e1, e')"
  obtains cur where "\<not> mr_Stopped rem e" "map_of (tb_Tasks (en_DB e)) (am_TaskID m) = Some cur"
     "attempt_allowed rem env h ob m cur e" "en_RT e1 = en_RT e" "recorded_in_flight env ob m e1"
proof -
  let ?claim = "ClaimMerge env h (po_Repository ob) (pr_Number (po_PR ob)) (merge_intent env m) allowManual (en_DB e)"
  obtain cur u db1 where c: "\<not> mr_Stopped rem e" "map_of (tb_Tasks (en_DB e)) (am_TaskID m) = Some cur"
     "attempt_allowed rem env h ob m cur e" "?claim = (Inr (Some u), db1)" "e1 = e\<lparr>en_DB := db1\<rparr>"
    using assms by (auto simp: mergeAttempt_def on_db_def split: if_splits option.splits sum.splits prod.splits)
  have "recorded_in_flight env ob m e1"
    using claim_recorded [OF c(4)] by (auto simp: recorded_in_flight_def list_ex_iff c(5) merge_intent_def)
  then show ?thesis using that c by simp
qed

lemma merge_decide_call:
  assumes "merge_decide rem env h now cfg mode ob m t e = (Some e1, e')"
  obtains revoke where "mergeBlocked rem env cfg t m e = ([], False, False, revoke)" "\<not> mm_Off mode" "\<not> mm_Paused mode"
    "mergeAttempt rem env h now ob m (mm_Continuous mode) (mr_Before rem e) = (Some e1, e')"
  using assms by (auto simp: merge_decide_def split: if_splits prod.splits)

subsection \<open>Requested merges are guarded\<close>


definition sample_status :: merge_status where
  "sample_status = \<lparr>ms_Number = 7, ms_URL = ''https://example.org/7'', ms_State = ''open'', ms_HeadBranch = ''octomus/t1'',
     ms_Head = ''rev1'', ms_HeadRepository = ''octo/app'', ms_BaseBranch = ''main'', ms_BaseOID = ''rev0'',
     ms_Repository = ''octo/app'', ms_Draft = False, ms_MergeQueue = False, ms_SquashAllowed = True, ms_ReviewDecision = None,
     ms_Mergeable = ''MERGEABLE'', ms_MergeState = ''CLEAN'', ms_Additions = Some 3, ms_Deletions = Some 1,
     ms_ChangedFiles = Some 1, ms_MergedAt = None, ms_MergeCommit = None, ms_CheckState = Some ''SUCCESS'', ms_CheckContexts = 2,
     ms_StatsMalformed = False\<rparr>"

definition sample_remote :: merge_remote where
  "sample_remote = \<lparr>mr_Pin = (\<lambda>c. c), mr_Fingerprint = (\<lambda>_. ''f''), mr_Fold = (\<lambda>r. r), mr_ParseTime = (\<lambda>_. Some 0),
     mr_Describe = (\<lambda>_. []), mr_Stopped = (\<lambda>_. False), mr_Broken = (\<lambda>_. None), mr_PR = (\<lambda>_ _. Inr sample_pr),
     mr_Marker = (\<lambda>_ _ _. Inr True), mr_Status = (\<lambda>_ _. Inr sample_status), mr_Base = (\<lambda>_ _ _. Inr ''rev0''),
     mr_Destination = (\<lambda>_. Inr ''token''), mr_Mutate = (\<lambda>_ _ _ _. Inr None), mr_Confirm = (\<lambda>_ _. Inl ''offline''),
     mr_Reconcile = (\<lambda>_ _. Inl ''offline''), mr_Revision = (\<lambda>_. Inr None), mr_Before = (\<lambda>e. e), mr_After = (\<lambda>e. e)\<rparr>"

definition merging_db :: database where
  "merging_db = merge_db\<lparr>tb_Tasks := [(''t1'', sample_mergeable)], tb_Configs := [(store_ConfigKey root_handle, sample_maintenance)],
     tb_Controls := [(store_ControlKey root_handle, DefaultControl\<lparr>ct_Paused := False, ct_Mode := OperatingModeContinuous\<rparr>)]\<rparr>"

definition merge_env :: env where
  "merge_env = sample_env\<lparr>env_Unicode := ascii_tables\<rparr>"

definition sample_mode :: merge_mode where
  "sample_mode = \<lparr>mm_Off = False, mm_Paused = False, mm_Continuous = True, mm_Batch = None\<rparr>"

definition merging_engine :: engine where
  "merging_engine = (idle_engine merging_db)\<lparr>en_RT := idle_runtime\<lparr>rt_Merges := [''octomus/t1'']\<rparr>\<rparr>"

lemmas merging_defs = sample_remote_def merge_env_def sample_env_def merging_engine_def idle_engine_def idle_runtime_def
  merging_db_def merge_db_def sample_observation_def sample_merge_def sample_pr_def sample_mode_def sample_status_def

lemma sample_mergeable_simps:
  "t_ID sample_mergeable = ''t1''" "t_Branch sample_mergeable = ''octomus/t1''" "t_Status sample_mergeable = StatusPublished"
  "t_Config sample_mergeable = sample_maintenance" "t_OutputCommit sample_mergeable = Some ''rev1''"
  "t_ComparisonBase sample_mergeable = ''rev0''" "t_PRNumber sample_mergeable = Some 7"
  "wl_ArchivedAt (t_Lifecycle sample_mergeable) = None" "c_DefaultBranch sample_maintenance = ''main''"
  "c_GitHubRepo sample_maintenance = ''octo/app''" "c_DeliveryMode sample_maintenance = DeliveryModeMaintenance"
  "c_AutoMergeMaxLines sample_maintenance = 200" "c_AutoMergeMaxFiles sample_maintenance = 10"
  by (simp_all add: sample_mergeable_def sample_defs sample_maintenance_def Default_def)

lemma sample_merge_open: "mergeBlocked sample_remote merge_env sample_maintenance sample_mergeable sample_merge merging_engine =
    ([], False, False, False)"
proof -
  have "\<not> branchHasUnfinishedWork ''octo/app'' ''octomus/t1'' ''t1'' merging_engine"
    by (simp add: branchHasUnfinishedWork_def UnfinishedBranchWork_def merging_defs)
  moreover have "recorded_block ascii_tables (\<lambda>r. r) sample_maintenance sample_mergeable sample_merge = None"
    by (simp add: recorded_block_def sample_mergeable_simps EqualFold_def sample_merge_def sample_mergeable_authorized)
  moreover have "mergeReadiness ascii_tables sample_mergeable sample_maintenance sample_status = ([], False)"
    by (simp add: mergeReadiness_def sample_status_def RemoteFootprintWithin_def AutoMergeLimits_def sample_mergeable_simps)
  ultimately show ?thesis
    by (simp add: mergeBlocked_def sample_mergeable_simps sample_remote_def merge_env_def OwnedOpen_def sample_pr_def sample_merge_def
        sample_status_def)
qed

lemma sample_attempt_allowed: "attempt_allowed sample_remote merge_env root_handle sample_observation sample_merge sample_mergeable merging_engine"
proof -
  have live: "engine_Config (mr_Pin sample_remote) root_handle merging_engine = sample_maintenance"
    by (simp add: engine_Config_def storedConfig_def merging_defs)
  have ct: "engine_Control root_handle merging_engine = DefaultControl\<lparr>ct_Paused := False, ct_Mode := OperatingModeContinuous\<rparr>"
    by (simp add: engine_Control_def liveControl_def merging_defs)
  have "\<not> branchHasUnfinishedWork ''octo/app'' ''octomus/t1'' ''t1'' merging_engine"
    by (simp add: branchHasUnfinishedWork_def UnfinishedBranchWork_def merging_defs)
  moreover have "\<not> CancelMarked (en_DB merging_engine) ''t1''"
    by (simp add: CancelMarked_def marker_def merging_defs empty_db_def)
  moreover have "recoveryConflict merging_engine = None" by (simp add: recoveryConflict_def merging_defs)
  ultimately show ?thesis
    unfolding attempt_allowed_def live ct Let_def
    by (simp add: sample_mergeable_simps sample_mergeable_authorized EqualFold_def merge_env_def sample_observation_def
        sample_merge_def sample_pr_def)
qed

lemma sample_attempt:
  "\<exists>e1 e'. mergeAttempt sample_remote merge_env root_handle 0 sample_observation sample_merge True merging_engine = (Some e1, e')"
proof -
  have t: "map_of (tb_Tasks (en_DB merging_engine)) ''t1'' = Some sample_mergeable" by (simp add: merging_defs)
  have at: "prObservationAt (en_DB merging_engine) ''octo/app'' 7 = Some (''octo/app:7'', sample_observation)"
    by (simp add: prObservationAt_def merging_defs pr_matches_def)
  have "\<exists>db. ClaimMerge merge_env root_handle ''octo/app'' 7 (merge_intent merge_env sample_merge) True (en_DB merging_engine) = (Inr (Some ()), db)"
    by (simp add: ClaimMerge_def intent_complete_def merge_intent_def sample_merge_def conditional_def runTx_def txClaimMerge_def at
        same_delivery_def merge_env_def sample_env_def sample_observation_def)
  moreover have "\<not> mr_Stopped sample_remote merging_engine" "am_TaskID sample_merge = ''t1''"
    "po_Repository sample_observation = ''octo/app''" "pr_Number (po_PR sample_observation) = 7"
    by (simp_all add: merging_defs)
  ultimately show ?thesis using t sample_attempt_allowed by (auto simp: mergeAttempt_def on_db_def)
qed


subsection \<open>The pass ends\<close>

definition pass_inv :: "merge_pass \<Rightarrow> bool" where
  "pass_inv st \<longleftrightarrow> distinct (mx_Seen st) \<and> length (mx_Calls st) \<le> length (mx_Seen st) \<and> length (mx_Seen st) \<le> mergePassLimit"

lemma merge_visit_calls: "length (mx_Calls (merge_visit rem env h now cfg mode seq ob st)) \<le> Suc (length (mx_Calls st))"
  by (simp add: merge_visit_def split_def Let_def split: option.splits)

lemma merge_page_inv:
  assumes "pass_inv st" and "length (mx_Seen st) < mergePassLimit"
  shows "pass_inv (snd (merge_page rem env h cancelled now cfg mode rows st)) \<and>
    (fst (merge_page rem env h cancelled now cfg mode rows st) \<longrightarrow>
       cancelled (length (mx_Seen (snd (merge_page rem env h cancelled now cfg mode rows st)))) \<or>
       rt_MergeCursor (en_RT (mx_Engine (snd (merge_page rem env h cancelled now cfg mode rows st)))) = 0)"
  using assms
proof (induction rows arbitrary: st)
  case (Cons row rows)
  obtain seq ob where row: "row = (seq, ob)" by fastforce
  have "pass_inv (merge_visit rem env h now cfg mode seq ob st)" if "seq \<notin> set (mx_Seen st)"
    using that Cons.prems merge_visit_calls [of rem env h now cfg mode seq ob st] by (simp add: pass_inv_def)
  with Cons.IH [of "merge_visit rem env h now cfg mode seq ob st"] Cons.prems show ?case
    by (simp add: row Let_def pass_inv_def)
qed simp

lemma merge_loop_inv:
  assumes "pass_inv st"
  shows "pass_inv (merge_loop rem env h cancelled now cfg mode st) \<and>
    (length (mx_Seen (merge_loop rem env h cancelled now cfg mode st)) = mergePassLimit \<or>
     cancelled (length (mx_Seen (merge_loop rem env h cancelled now cfg mode st))) \<or>
     rt_MergeCursor (en_RT (mx_Engine (merge_loop rem env h cancelled now cfg mode st))) = 0)"
  using assms
proof (induction rem env h cancelled now cfg mode st rule: merge_loop.induct)
  case (1 rem env h cancelled now cfg mode st)
  let ?rows = "MergeCandidates h (rt_MergeCursor (en_RT (mx_Engine st))) mergePageSize (en_DB (mx_Engine st))"
  consider (stop) "mergePassLimit \<le> length (mx_Seen st) \<or> cancelled (length (mx_Seen st))"
    | (empty) "length (mx_Seen st) < mergePassLimit" "\<not> cancelled (length (mx_Seen st))" "?rows = []"
    | (page) "length (mx_Seen st) < mergePassLimit" "\<not> cancelled (length (mx_Seen st))" "?rows \<noteq> []" by linarith
  then show ?case
  proof cases
    case stop
    then have "merge_loop rem env h cancelled now cfg mode st = st" by (subst merge_loop.simps) simp
    then show ?thesis using 1(3) stop by (auto simp: pass_inv_def)
  next
    case empty
    have inv: "pass_inv (st\<lparr>mx_Engine := set_cursor 0 (mx_Engine st)\<rparr>)" using 1(3) by (simp add: pass_inv_def)
    show ?thesis
    proof (cases "rt_MergeCursor (en_RT (mx_Engine st)) = 0")
      case True
      then have "merge_loop rem env h cancelled now cfg mode st = st" using empty by (subst merge_loop.simps) (simp add: Let_def)
      then show ?thesis using 1(3) True by simp
    next
      case False
      then have "merge_loop rem env h cancelled now cfg mode st =
          merge_loop rem env h cancelled now cfg mode (st\<lparr>mx_Engine := set_cursor 0 (mx_Engine st)\<rparr>)"
        using empty by (subst merge_loop.simps) (simp add: Let_def)
      then show ?thesis using 1(1) [OF _ refl refl _ False inv] empty by simp
    qed
  next
    case page
    let ?p = "merge_page rem env h cancelled now cfg mode ?rows st"
    note p = merge_page_inv [OF 1(3) page(1), of rem env h cancelled now cfg mode ?rows]
    show ?thesis
    proof (cases "fst ?p")
      case True
      then have "merge_loop rem env h cancelled now cfg mode st = snd ?p" using page by (subst merge_loop.simps) (simp add: Let_def)
      then show ?thesis using p True by simp
    next
      case False
      then have "merge_loop rem env h cancelled now cfg mode st = merge_loop rem env h cancelled now cfg mode (snd ?p)"
        using page by (subst merge_loop.simps) (simp add: Let_def)
      then show ?thesis using 1(2) [OF _ refl refl _ False] p page by simp
    qed
  qed
qed

text \<open>C34: A merge pass always ends. It visits at most eight deliveries, none of them twice, and requests at most one merge for
  each. Unless it was cancelled or used up its limit, it leaves the cursor at the start, so that the next pass begins again with
  the oldest delivery.\<close>

theorem merge_pass_bounded:
  "distinct (mx_Seen (mergePass rem env h cancelled now ct e)) \<and>
   length (mx_Seen (mergePass rem env h cancelled now ct e)) \<le> 8 \<and>
   length (mx_Calls (mergePass rem env h cancelled now ct e)) \<le> length (mx_Seen (mergePass rem env h cancelled now ct e)) \<and>
   (length (mx_Seen (mergePass rem env h cancelled now ct e)) = 8 \<or>
    cancelled (length (mx_Seen (mergePass rem env h cancelled now ct e))) \<or>
    rt_MergeCursor (en_RT (mx_Engine (mergePass rem env h cancelled now ct e))) = 0)"
proof -
  let ?st = "\<lparr>mx_Seen = [], mx_Calls = [], mx_Engine = e\<rparr>"
  have "pass_inv ?st" by (simp add: pass_inv_def)
  from merge_loop_inv [OF this] show ?thesis
    unfolding mergePass_def Let_def pass_inv_def mergePassLimit_def by simp
qed

subsection \<open>Failed settlements\<close>

definition prechecks_keyed :: "env \<Rightarrow> engine \<Rightarrow> bool" where
  "prechecks_keyed env e \<longleftrightarrow>
     distinct (map fst (rt_MergePrecheckErrors (en_RT e))) \<and>
     list_all (\<lambda>(key, pre). key = mergeBarrierKey env (mp_Repository pre) (mp_Number pre)) (rt_MergePrecheckErrors (en_RT e))"

lemma try_settle_RT: "en_RT (snd (try_settle rem env repository number expected status reason source commit revoke e)) = en_RT e"
  by (auto simp: try_settle_def on_db_def split: option.splits prod.splits sum.splits)

lemma engine_Event_RT [simp]: "en_RT (engine_Event env h entity kind message e) = en_RT e"
  by (simp add: engine_Event_def)

lemma try_settle_working:
  assumes "mr_Broken rem e = None"
  shows "\<exists>applied. fst (try_settle rem env repository number expected status reason source commit revoke e) = Inr applied"
proof -
  have "txSettleMerge env repository number expected status reason source commit revoke db = Inl err \<Longrightarrow> err = ErrRollback" for db err
    by (auto simp: txSettleMerge_def split: option.splits prod.splits if_splits)
  then show ?thesis using assms
    by (auto simp: try_settle_def on_db_def SettleMerge_def conditional_def runTx_def split: option.splits prod.splits sum.splits store_error.splits)
qed

text \<open>A working storage releases the first recorded precheck.\<close>

lemma recoverMergePrecheck_releases:
  assumes "mr_Broken rem e = None" and "rt_MergePrecheckErrors (en_RT e) = (key, pre) # rest"
    and "key = mergeBarrierKey env (mp_Repository pre) (mp_Number pre)" and "key \<notin> fst ` set rest"
  shows "rt_MergePrecheckErrors (en_RT (snd (recoverMergePrecheck rem env h pre e))) = rest"
proof -
  have clear: "rt_MergePrecheckErrors (en_RT (snd (clearMergePrecheck key pre x))) = rest" if "en_RT x = en_RT e" for x
    using that assms(2,4) by (simp add: clearMergePrecheck_def)
  let ?s = "try_settle rem env (mp_Repository pre) (mp_Number pre) (mp_Expected pre) (mp_Status pre) (mp_Reason pre)
    (mp_Source pre) (mp_Commit pre) (mp_Revoke pre) e"
  obtain applied e' where s: "?s = (Inr applied, e')" using try_settle_working [OF assms(1)] by (metis prod.collapse)
  then have rt: "en_RT e' = en_RT e" using try_settle_RT by (metis snd_conv)
  show ?thesis
    by (cases "Option.bind (MergeObservation (mp_Repository pre) (mp_Number pre) (en_DB e)) po_AutoMerge")
       (simp_all add: recoverMergePrecheck_def assms(3) [symmetric] s clear rt)
qed

lemma recover_prechecks_drain:
  assumes "mr_Broken rem = (\<lambda>_. None)" and "distinct (map fst xs)"
    and "list_all (\<lambda>(key, pre). key = mergeBarrierKey env (mp_Repository pre) (mp_Number pre)) xs"
    and "rt_MergePrecheckErrors (en_RT e) = xs"
  shows "rt_MergePrecheckErrors (en_RT (snd (recover_prechecks rem env h (\<lambda>_. False) (map snd xs) released e))) = []"
  using assms(2-4)
proof (induction xs arbitrary: released e)
  case (Cons row xs)
  obtain key pre where row: "row = (key, pre)" by fastforce
  have "rt_MergePrecheckErrors (en_RT (snd (recoverMergePrecheck rem env h pre e))) = xs"
    using Cons.prems by (intro recoverMergePrecheck_releases) (auto simp: row assms(1))
  from Cons.IH [OF _ _ this] Cons.prems(1,2) show ?case by (simp add: row split_def Let_def)
qed simp

lemma settleMerge_refused:
  assumes "mr_Broken rem e = Some message"
  shows "en_DB (settleMerge rem env h ob expected status reason source commit revoke e) = en_DB e"
    "recoveryConflict (settleMerge rem env h ob expected status reason source commit revoke e) = Some RecoveryBlocked"
  using assms by (simp_all add: settleMerge_def try_settle_def recordMergeSettlementFailure_def setMergeRecoveryError_def
      setMergePrecheckError_def recoveryConflict_def update_nonempty Let_def)

lemma list_all_update: "list_all P xs \<Longrightarrow> P (key, x) \<Longrightarrow> list_all P (AList.update key x xs)"
  by (induction xs) auto

lemma settleMerge_keyed:
  assumes "mr_Broken rem e = Some message" and "prechecks_keyed env e"
  shows "prechecks_keyed env (settleMerge rem env h ob expected status reason source commit revoke e)"
  using assms by (simp add: settleMerge_def try_settle_def recordMergeSettlementFailure_def setMergeRecoveryError_def
      setMergePrecheckError_def prechecks_keyed_def list_all_update distinct_update Let_def)

text \<open>C33: When the storage refuses the write of a merge settlement, the database is unchanged, the failure becomes a recovery
  conflict, and while it stands no merge attempt requests a merge. Once the storage works again, a recovery pass that is not
  cancelled releases every recorded precheck.\<close>

theorem settlement_failure_recovers:
  assumes "mr_Broken rem e = Some message" and "prechecks_keyed env e" and "mr_Broken working = (\<lambda>_. None)"
    and "e' = settleMerge rem env h ob expected status reason source commit revoke e"
  shows "en_DB e' = en_DB e \<and> recoveryConflict e' = Some RecoveryBlocked \<and>
     fst (mergeAttempt rem2 env2 h2 now ob2 m2 allowManual e') = None \<and>
     rt_MergePrecheckErrors (en_RT (snd (recoverMergePrechecks working env h (\<lambda>_. False) e'))) = []"
proof -
  have "rt_MergePrecheckErrors (en_RT (snd (recoverMergePrechecks working env h (\<lambda>_. False) e'))) =
      rt_MergePrecheckErrors (en_RT (snd (recover_prechecks working env h (\<lambda>_. False)
        (map snd (rt_MergePrecheckErrors (en_RT e'))) False e')))"
    by (simp add: recoverMergePrechecks_def split_def Let_def)
  moreover have "prechecks_keyed env e'" using settleMerge_keyed [OF assms(1,2)] assms(4) by simp
  then have "rt_MergePrecheckErrors (en_RT (snd (recover_prechecks working env h (\<lambda>_. False)
        (map snd (rt_MergePrecheckErrors (en_RT e'))) False e'))) = []"
    by (intro recover_prechecks_drain [OF assms(3)]) (simp_all add: prechecks_keyed_def)
  moreover have "\<not> attempt_allowed rem2 env2 h2 ob2 m2 cur e'" for cur
    using attempt_allowedD(8) settleMerge_refused(2) [OF assms(1)] assms(4) by (metis option.distinct(1))
  then have "fst (mergeAttempt rem2 env2 h2 now ob2 m2 allowManual e') = None"
    by (simp add: mergeAttempt_def split: option.splits)
  ultimately show ?thesis using settleMerge_refused [OF assms(1)] assms(4) by simp
qed

theorem settlement_failure_recovers_witness:
  "rt_MergePrecheckErrors (en_RT (snd (recoverMergePrechecks sample_remote merge_env root_handle (\<lambda>_. False)
     (settleMerge (sample_remote\<lparr>mr_Broken := \<lambda>_. Some ''disk full''\<rparr>) merge_env root_handle sample_observation sample_merge
        AutoMergeManual ''blocked'' [] None True (idle_engine merging_db))))) = []"
proof -
  have "mr_Broken (sample_remote\<lparr>mr_Broken := \<lambda>_. Some ''disk full''\<rparr>) (idle_engine merging_db) = Some ''disk full''" by simp
  moreover have "prechecks_keyed merge_env (idle_engine merging_db)" by (simp add: prechecks_keyed_def idle_engine_def idle_runtime_def)
  moreover have "mr_Broken sample_remote = (\<lambda>_. None)" by (simp add: sample_remote_def)
  ultimately show ?thesis using settlement_failure_recovers [OF _ _ _ refl] by blast
qed

end
