(* ===== verification/Engine_Dispatch.thy ===== *)
theory Engine_Dispatch
  imports Engine_Capacity Plan_Rules
begin

text \<open>
  Dispatch of queued work: the part of \<open>internal/engine/scheduler.go\<close> that cancels and rechecks queued cycles and starts
  tasks. Each function is one step under the gate of a running service, so the checks of the service context
  (\<open>ctx.Err\<close>) inside the loops are false. The map of queued cycles is visited in the order of the tasks. The
  worker a dispatched task gets runs elsewhere; here it is the registered job.
\<close>

definition wrapped_cause :: "env \<Rightarrow> string \<Rightarrow> blocked_reason \<Rightarrow> cause" where
  "wrapped_cause env message reason =
     \<lparr>ca_Tree = Wrap (Reason reason), ca_Text = env_Redact env (message @ '': '' @ BlockedReason_Error reason), ca_Canceled = False\<rparr>"

definition invalidPlan :: "env \<Rightarrow> string \<Rightarrow> cause" where
  "invalidPlan env message = wrapped_cause env message BlockedInvalidPlan"

subsection \<open>Cancelling and rechecking queued cycles\<close>

fun cancelQueuedTasks :: "env \<Rightarrow> handle \<Rightarrow> task list \<Rightarrow> engine \<Rightarrow> store_error option \<times> bool \<times> task list \<times> engine" where
  "cancelQueuedTasks env h [] e = (None, False, [], e)"
| "cancelQueuedTasks env h (t # ts) e =
     (if t_Status t \<noteq> StatusQueued \<or> t_OutputCommit t \<noteq> None \<or> cleanupClaimed cleanupTask (t_ID t) e \<or>
         \<not> CancelMarked (en_DB e) (t_ID t)
      then (let (err, changed, ts', e') = cancelQueuedTasks env h ts e in (err, changed, t # ts', e'))
      else case on_db (CancelTask env (t_ID t)) e of
          (Inl err, e') \<Rightarrow> (Some err, False, t # ts, e')
        | (Inr False, e') \<Rightarrow>
            (let (err, changed, ts', e2) = cancelQueuedTasks env h ts e' in (err, changed, t # ts', e2))
        | (Inr True, e') \<Rightarrow>
            (let (err, _, ts', e2) = cancelQueuedTasks env h ts
                   (engine_Event env h (t_ID t) EventOperator (TaskAction_String TaskActionCancel) e')
             in (err, True, t\<lparr>t_Status := StatusCancelled\<rparr> # ts', e2)))"

text \<open>The queued members of a plan that no longer validates are blocked; one under cleanup defers the check.\<close>

fun block_members :: "env \<Rightarrow> handle \<Rightarrow> cause \<Rightarrow> task list \<Rightarrow> engine \<Rightarrow> engine_error option \<times> bool \<times> bool \<times> engine" where
  "block_members env h why [] e = (None, False, False, e)"
| "block_members env h why (t # ts) e =
     (if t_Status t \<noteq> StatusQueued then block_members env h why ts e
      else if cleanupClaimed cleanupTask (t_ID t) e
      then (let (err, changed, _, e') = block_members env h why ts e in (err, changed, True, e'))
      else case blockTaskLocked env h t why e of
          (Inl err, e') \<Rightarrow> (Some err, True, False, e')
        | (Inr _, e') \<Rightarrow> (let (err, _, deferred, e2) = block_members env h why ts e' in (err, True, deferred, e2)))"

definition mark_checked :: "string \<Rightarrow> engine \<Rightarrow> engine" where
  "mark_checked cycleID = on_rt (\<lambda>r. r\<lparr>rt_CheckedCycles := List.insert cycleID (rt_CheckedCycles r)\<rparr>)"

definition check_cycle :: "(plan_error \<Rightarrow> string) \<Rightarrow> env \<Rightarrow> handle \<Rightarrow> config \<Rightarrow> string \<Rightarrow> task list \<Rightarrow> engine \<Rightarrow>
    engine_error option \<times> bool \<times> engine" where
  "check_cycle plan_text env h cfg cycleID queued e =
     (let checked = cycleID \<in> set (rt_CheckedCycles (en_RT e));
          members = (if checked then queued else TasksForCycle cycleID (en_DB e)) in
      case cancelQueuedTasks env h members e of
        (Some err, changed, _, e') \<Rightarrow> (Some (StoreFailed err), changed, e')
      | (None, changed, members', e') \<Rightarrow>
          if checked then (None, changed, e')
          else case validateTaskPlan members' cfg of
              None \<Rightarrow> (None, changed, mark_checked cycleID e')
            | Some why \<Rightarrow>
                (case block_members env h (invalidPlan env (plan_text why)) members' e' of
                   (Some err, blocked, _, e2) \<Rightarrow> (Some err, changed \<or> blocked, e2)
                 | (None, blocked, deferred, e2) \<Rightarrow>
                     (None, changed \<or> blocked, if deferred then e2 else mark_checked cycleID e2)))"

fun check_cycles_loop :: "(plan_error \<Rightarrow> string) \<Rightarrow> env \<Rightarrow> handle \<Rightarrow> config \<Rightarrow> task list \<Rightarrow> string list \<Rightarrow> engine \<Rightarrow>
    (engine_error, bool) result \<times> engine" where
  "check_cycles_loop plan_text env h cfg tasks [] e = (Inr False, e)"
| "check_cycles_loop plan_text env h cfg tasks (i # is) e =
     (case check_cycle plan_text env h cfg i (filter (\<lambda>t. t_Status t = StatusQueued \<and> t_CycleID t = i) tasks) e of
        (Some err, _, e') \<Rightarrow> (Inl err, e')
      | (None, changed, e') \<Rightarrow>
          (case check_cycles_loop plan_text env h cfg tasks is e' of
             (Inl err, e2) \<Rightarrow> (Inl err, e2) | (Inr later, e2) \<Rightarrow> (Inr (changed \<or> later), e2)))"

definition validateQueuedCycles :: "(plan_error \<Rightarrow> string) \<Rightarrow> env \<Rightarrow> handle \<Rightarrow> config \<Rightarrow> task list \<Rightarrow> engine \<Rightarrow>
    (engine_error, bool) result \<times> engine" where
  "validateQueuedCycles plan_text env h cfg tasks e =
     check_cycles_loop plan_text env h cfg tasks
       (remdups (map t_CycleID (filter (\<lambda>t. t_Status t = StatusQueued) tasks)))
       (on_rt (\<lambda>r. r\<lparr>rt_CheckedCycles := filter (\<lambda>i. i \<in> set (map t_CycleID tasks)) (rt_CheckedCycles r)\<rparr>) e)"

subsection \<open>Dependencies\<close>

datatype readiness = DependenciesReady | DependenciesPending | DependenciesBlocked cause

fun dependencies_ready :: "env \<Rightarrow> control \<Rightarrow> database \<Rightarrow> task \<Rightarrow> bool \<Rightarrow> string list \<Rightarrow> readiness" where
  "dependencies_ready env ct db t ready [] = (if ready then DependenciesReady else DependenciesPending)"
| "dependencies_ready env ct db t ready (i # is) =
     (case map_of (tb_Tasks db) i of
        None \<Rightarrow> DependenciesBlocked (wrapped_cause env (''Dependency '' @ i @ '' is missing'') BlockedDependencyBlocked)
      | Some dependency \<Rightarrow>
          if t_Status dependency = StatusPublished then dependencies_ready env ct db t ready is
          else if ct_Mode ct = OperatingModeRunOnce \<and>
             (t_RunID dependency = None \<or> t_RunID t = None \<or> t_RunID dependency \<noteq> t_RunID t)
          then DependenciesBlocked (wrapped_cause env (''Dependency '' @ i @ '' is outside this run-once batch'') BlockedDependencyBlocked)
          else if t_Status dependency \<in> set UnresolvedStatuses
          then DependenciesBlocked (wrapped_cause env (''Dependency '' @ i @ '' is unresolved'') BlockedDependencyBlocked)
          else dependencies_ready env ct db t False is)"

definition dependenciesReady :: "env \<Rightarrow> control \<Rightarrow> database \<Rightarrow> task \<Rightarrow> readiness" where
  "dependenciesReady env ct db t = dependencies_ready env ct db t True (p_Dependencies (t_Proposal t))"

subsection \<open>Starting tasks\<close>

record dispatch_state =
  ds_Engine :: engine
  ds_Busy :: "string list"
  ds_Available :: u64
  ds_Started :: bool
  ds_Waiting :: bool
  ds_Inventory :: "open_pr_inventory option option"
  ds_RefreshRequested :: bool

datatype flow = Continue | Break | Fail engine_error | Panic

definition active_count :: "task list \<Rightarrow> runtime_state \<Rightarrow> nat" where
  "active_count tasks r =
     (let active = filter (\<lambda>t. Status_Active (t_Status t)) tasks in
      length active + length (filter (\<lambda>(i, _). i \<notin> t_ID ` set active) (rt_Tasks r)))"

definition dispatch_begin :: "config \<Rightarrow> task list \<Rightarrow> engine \<Rightarrow> dispatch_state" where
  "dispatch_begin cfg tasks e =
     (let count = of_nat (active_count tasks (en_RT e)) :: u64 in
      \<lparr>ds_Engine = e,
       ds_Busy = map t_Branch (filter (\<lambda>t. Status_Active (t_Status t)) tasks) @
         map (\<lambda>(_, job). tj_Branch job) (rt_Tasks (en_RT e)) @ rt_Merges (en_RT e),
       ds_Available = (if count < c_ExecutionConcurrency cfg then c_ExecutionConcurrency cfg - count else 0),
       ds_Started = False, ds_Waiting = False, ds_Inventory = None, ds_RefreshRequested = False\<rparr>)"

definition wait :: "dispatch_state \<Rightarrow> dispatch_state" where
  "wait ds = ds\<lparr>ds_Waiting := True\<rparr>"

definition request_refresh :: "env \<Rightarrow> handle \<Rightarrow> config \<Rightarrow> int \<Rightarrow> dispatch_state \<Rightarrow> dispatch_state" where
  "request_refresh env h cfg now ds =
     (if ds_RefreshRequested ds then ds
      else ds\<lparr>ds_RefreshRequested := True, ds_Engine := startPRRefresh False env h cfg now (ds_Engine ds)\<rparr>)"

text \<open>The inventory is claimed at the first task that needs a slot; its result serves the whole pass.\<close>

definition claim_once_per_pass :: "config \<Rightarrow> int \<Rightarrow> dispatch_state \<Rightarrow> dispatch_state" where
  "claim_once_per_pass cfg now ds =
     (case ds_Inventory ds of
        Some _ \<Rightarrow> ds
      | None \<Rightarrow>
          (case claimInventory cfg now (ds_Engine ds) of
             (Inl _, e) \<Rightarrow> ds\<lparr>ds_Inventory := Some None, ds_Engine := e\<rparr>
           | (Inr inventory, e) \<Rightarrow> ds\<lparr>ds_Inventory := Some (Some inventory), ds_Engine := e\<rparr>))"

definition start_task :: "task \<Rightarrow> dispatch_state \<Rightarrow> flow \<times> dispatch_state" where
  "start_task t ds =
     (let ds = ds\<lparr>ds_Busy := t_Branch t # ds_Busy ds, ds_Available := ds_Available ds - 1, ds_Started := True\<rparr> in
      case registerTaskWorker t executionWorker (ds_Engine ds) of
        None \<Rightarrow> (Panic, ds)
      | Some (_, e) \<Rightarrow> (Continue, ds\<lparr>ds_Engine := e\<rparr>))"

definition admit_new :: "env \<Rightarrow> handle \<Rightarrow> config \<Rightarrow> int \<Rightarrow> task \<Rightarrow> dispatch_state \<Rightarrow> flow \<times> dispatch_state" where
  "admit_new env h cfg now t ds =
     (let ds = claim_once_per_pass cfg now ds in
      case ds_Inventory ds of
        Some (Some inventory) \<Rightarrow>
          (case on_db (AdmitNewPRTask env h t inventory) (ds_Engine ds) of
             (Inl err, e) \<Rightarrow> (Fail (StoreFailed err), ds\<lparr>ds_Engine := e\<rparr>)
           | (Inr None, e) \<Rightarrow>
               (Continue, wait (request_refresh env h cfg now
                  (ds\<lparr>ds_Engine := on_rt (\<lambda>r. r\<lparr>rt_PRAdmissionRefused := True\<rparr>) e\<rparr>)))
           | (Inr (Some t'), e) \<Rightarrow>
               start_task t' (ds\<lparr>ds_Engine := on_rt (\<lambda>r. r\<lparr>rt_PRAdmissionRefused := False\<rparr>) e\<rparr>))
      | _ \<Rightarrow> (Continue, wait (request_refresh env h cfg now ds)))"

definition dispatch_task :: "env \<Rightarrow> handle \<Rightarrow> config \<Rightarrow> control \<Rightarrow> int \<Rightarrow> task \<Rightarrow> dispatch_state \<Rightarrow> flow \<times> dispatch_state" where
  "dispatch_task env h cfg ct now t ds =
     (let e = ds_Engine ds in
      if t_Status t \<noteq> StatusQueued then (Continue, ds)
      else if cleanupClaimed cleanupTask (t_ID t) e then (Continue, wait ds)
      else if ds_Available ds = 0 then (Break, wait ds)
      else case dependenciesReady env ct (en_DB e) t of
          DependenciesBlocked why \<Rightarrow>
            (case blockTaskLocked env h t why e of
               (Inl err, e') \<Rightarrow> (Fail err, ds\<lparr>ds_Engine := e'\<rparr>) | (Inr _, e') \<Rightarrow> (Continue, ds\<lparr>ds_Engine := e'\<rparr>))
        | DependenciesPending \<Rightarrow> (Continue, wait ds)
        | DependenciesReady \<Rightarrow>
            if t_Branch t \<in> set (ds_Busy ds) then (Continue, wait ds)
            else if needs_slot (en_DB e) t then admit_new env h cfg now t ds
            else (case admitTaskLocked env h t e of
                    (Inl err, e') \<Rightarrow> (Fail err, ds\<lparr>ds_Engine := e'\<rparr>)
                  | (Inr t', e') \<Rightarrow> start_task t' (ds\<lparr>ds_Engine := e'\<rparr>)))"

fun dispatch_loop :: "env \<Rightarrow> handle \<Rightarrow> config \<Rightarrow> control \<Rightarrow> int \<Rightarrow> task list \<Rightarrow> dispatch_state \<Rightarrow> flow \<times> dispatch_state" where
  "dispatch_loop env h cfg ct now [] ds = (Continue, ds)"
| "dispatch_loop env h cfg ct now (t # ts) ds =
     (case dispatch_task env h cfg ct now t ds of
        (Continue, ds') \<Rightarrow> dispatch_loop env h cfg ct now ts ds'
      | (f, ds') \<Rightarrow> (f, ds'))"

definition dispatch :: "env \<Rightarrow> handle \<Rightarrow> config \<Rightarrow> control \<Rightarrow> int \<Rightarrow> task list \<Rightarrow> engine \<Rightarrow> flow \<times> dispatch_state" where
  "dispatch env h cfg ct now tasks e = dispatch_loop env h cfg ct now tasks (dispatch_begin cfg tasks e)"

subsection \<open>Lemmas: writes of one queued task\<close>

text \<open>The only effect of a dispatch step on the tables the scheduler reads: one saved task that is not published takes an
  accepted lifecycle step, and only its own reservation may change.\<close>

definition task_moves :: "string \<Rightarrow> task \<Rightarrow> database \<Rightarrow> database \<Rightarrow> bool" where
  "task_moves k u db db' \<longleftrightarrow>
     (\<exists>cur marked. map_of (tb_Tasks db) k = Some cur \<and> t_ID cur = k \<and> t_Status cur \<noteq> StatusPublished \<and>
        task_step marked cur u \<and> tb_Tasks db' = AList.update k u (tb_Tasks db)) \<and>
     (\<forall>i. i \<noteq> k \<longrightarrow> map_of (tb_Reservations db') i = map_of (tb_Reservations db) i)"

lemma task_moves_inv:
  assumes "task_moves k u db db'"
  shows "tasks_ok (tb_Tasks db) \<Longrightarrow> tasks_ok (tb_Tasks db')"
    and "tasks_extend old (tb_Tasks db) \<Longrightarrow> tasks_extend old (tb_Tasks db')"
proof -
  obtain cur marked where m: "map_of (tb_Tasks db) k = Some cur" "t_ID cur = k" "task_step marked cur u"
    "tb_Tasks db' = AList.update k u (tb_Tasks db)"
    using assms by (auto simp: task_moves_def)
  show "tasks_ok (tb_Tasks db) \<Longrightarrow> tasks_ok (tb_Tasks db')" unfolding m(4) by (rule ok.step [OF _ m(1,2,3)])
  show "tasks_extend old (tb_Tasks db) \<Longrightarrow> tasks_extend old (tb_Tasks db')" unfolding m(4) by (rule ext.step [OF _ m(1,2,3)])
qed

lemma engine_Event_frame [simp]:
  "tb_Tasks (en_DB (engine_Event env h i k m e)) = tb_Tasks (en_DB e)"
  "tb_Reservations (en_DB (engine_Event env h i k m e)) = tb_Reservations (en_DB e)"
  "tb_Cancel (en_DB (engine_Event env h i k m e)) = tb_Cancel (en_DB e)"
  "en_RT (engine_Event env h i k m e) = en_RT e"
  by (simp_all add: engine_Event_def store_Event_def)

lemma commit_moves:
  assumes "CommitTask expected nxt change db = (Inr u, db')" and "tasks_ok (tb_Tasks db)"
    and "t_Status expected = StatusQueued"
  shows "task_moves (t_ID expected) u db db'" "t_ID u = t_ID expected"
proof -
  have tx: "txCommitTask expected nxt change db = Inr (u, db')"
    using assms(1) by (cases rule: runTx_cases [of "txCommitTask expected nxt change" db]) (auto simp: CommitTask_def)
  obtain cur marked where c: "map_of (tb_Tasks db) (t_ID expected) = Some cur" "t_ID cur = t_ID expected" "t_ID u = t_ID expected"
      "ValidateTaskChange cur u change marked = None" "db' = put_task (t_ID expected) u db"
    by (rule txCommitTask_Inr [OF tx])
  have "cur = expected \<or> t_OutputCommit cur = None"
    using tx c(1) by (auto simp: txCommitTask_def Let_def split: if_splits sum.splits)
  moreover have "lifecycle_inv cur" using assms(2) c(1) by (auto simp: tasks_ok_def)
  ultimately have "t_Status cur \<noteq> StatusPublished" using assms(3) by (auto simp: lifecycle_inv_def)
  with c task_step.commit [OF c(4)] show "task_moves (t_ID expected) u db db'"
    by (auto simp: task_moves_def put_task_def)
  show "t_ID u = t_ID expected" by (fact c(3))
qed

lemma runTx_fail: "runTx db fn = (Inl err, db') \<Longrightarrow> db' = db"
  by (cases rule: runTx_cases [of fn db]) auto

lemma commitTaskLocked_cases:
  assumes "commitTaskLocked env expected t change e = (r, e')"
  obtains err where "r = Inl err" "e' = e"
  | u db' where "r = Inr u" "CommitTask expected (t\<lparr>t_UpdatedAt := env_Now env\<rparr>) change (en_DB e) = (Inr u, db')"
      "e' = e\<lparr>en_DB := db'\<rparr>"
proof -
  obtain r' db' where c: "CommitTask expected (t\<lparr>t_UpdatedAt := env_Now env\<rparr>) change (en_DB e) = (r', db')" by force
  show ?thesis
  proof (cases r')
    case (Inl err)
    then have "db' = en_DB e" using c runTx_fail by (simp add: CommitTask_def)
    with Inl c assms that(1) show ?thesis by (auto simp: commitTaskLocked_def on_db_def)
  next
    case (Inr u)
    with c assms that(2) show ?thesis by (auto simp: commitTaskLocked_def on_db_def)
  qed
qed

lemma block_moves:
  assumes "blockTaskLocked env h t why e = (r, e')" and "tasks_ok (tb_Tasks (en_DB e))" and "t_Status t = StatusQueued"
  shows "en_RT e' = en_RT e" "e' = e \<or> (\<exists>u. task_moves (t_ID t) u (en_DB e) (en_DB e'))"
proof -
  let ?n = "(recordTaskError why t)\<lparr>t_Status := StatusBlocked\<rparr>"
  obtain r1 e1 where c: "commitTaskLocked env t ?n TaskSettlement e = (r1, e1)" by force
  consider "e' = e" | u db' where "CommitTask t (?n\<lparr>t_UpdatedAt := env_Now env\<rparr>) TaskSettlement (en_DB e) = (Inr u, db')"
      "e' = engine_Event env h (t_ID u) EventStatus (statusLabel (t_Status u)) (e\<lparr>en_DB := db'\<rparr>)"
  proof (cases rule: commitTaskLocked_cases [OF c])
    case (1 err)
    then have "e' = e" using assms(1) c by (simp add: blockTaskLocked_def)
    then show thesis by (rule that(1))
  next
    case (2 u db')
    then have "e' = engine_Event env h (t_ID u) EventStatus (statusLabel (t_Status u)) (e\<lparr>en_DB := db'\<rparr>)"
      using assms(1) c by (simp add: blockTaskLocked_def)
    with 2(2) show thesis by (rule that(2))
  qed
  then have "en_RT e' = en_RT e \<and> (e' = e \<or> (\<exists>u. task_moves (t_ID t) u (en_DB e) (en_DB e')))"
  proof cases
    case (2 u db')
    have "task_moves (t_ID t) u (en_DB e) (en_DB e')"
      using commit_moves(1) [OF 2(1) assms(2,3)] by (simp add: 2(2) task_moves_def)
    then show ?thesis by (auto simp: 2(2))
  qed simp
  then show "en_RT e' = en_RT e" "e' = e \<or> (\<exists>u. task_moves (t_ID t) u (en_DB e) (en_DB e'))" by blast+
qed

lemma admit_moves:
  assumes "admitTaskLocked env h t e = (r, e')" and "tasks_ok (tb_Tasks (en_DB e))" and "t_Status t = StatusQueued"
  shows "en_RT e' = en_RT e"
    and "(\<exists>err. r = Inl err \<and> e' = e) \<or>
      (\<exists>u. r = Inr u \<and> u = t\<lparr>t_Status := StatusExecuting, t_UpdatedAt := env_Now env\<rparr> \<and> task_moves (t_ID t) u (en_DB e) (en_DB e') \<and>
         map_of (tb_Tasks (en_DB e)) (t_ID t) = Some t \<and> tb_Reservations (en_DB e') = tb_Reservations (en_DB e))"
proof -
  let ?n = "t\<lparr>t_Status := StatusExecuting\<rparr>"
  obtain r1 e1 where c: "commitTaskLocked env t ?n TaskAdmission e = (r1, e1)" by force
  consider err where "r = Inl err" "e' = e"
    | u db' where "r = Inr u" "CommitTask t (?n\<lparr>t_UpdatedAt := env_Now env\<rparr>) TaskAdmission (en_DB e) = (Inr u, db')"
      "e' = engine_Event env h (t_ID u) EventStatus (statusLabel (t_Status u)) (e\<lparr>en_DB := db'\<rparr>)"
  proof (cases rule: commitTaskLocked_cases [OF c])
    case (1 err)
    then have "r = Inl err" "e' = e" using assms(1) c by (simp_all add: admitTaskLocked_def)
    then show thesis by (rule that(1))
  next
    case (2 u db')
    then have "r = Inr u" "e' = engine_Event env h (t_ID u) EventStatus (statusLabel (t_Status u)) (e\<lparr>en_DB := db'\<rparr>)"
      using assms(1) c by (simp_all add: admitTaskLocked_def)
    with 2(2) show thesis using that(2) by blast
  qed
  note cases = this
  from cases show "en_RT e' = en_RT e" by cases simp_all
  from cases show "(\<exists>err. r = Inl err \<and> e' = e) \<or>
      (\<exists>u. r = Inr u \<and> u = t\<lparr>t_Status := StatusExecuting, t_UpdatedAt := env_Now env\<rparr> \<and> task_moves (t_ID t) u (en_DB e) (en_DB e') \<and>
         map_of (tb_Tasks (en_DB e)) (t_ID t) = Some t \<and> tb_Reservations (en_DB e') = tb_Reservations (en_DB e))"
  proof cases
    case 1
    then show ?thesis by blast
  next
    case (2 u db')
    have tx: "txCommitTask t (?n\<lparr>t_UpdatedAt := env_Now env\<rparr>) TaskAdmission (en_DB e) = Inr (u, db')"
      using 2(2) by (cases rule: runTx_cases [of "txCommitTask t (?n\<lparr>t_UpdatedAt := env_Now env\<rparr>) TaskAdmission" "en_DB e"])
        (auto simp: CommitTask_def)
    have u: "u = t\<lparr>t_Status := StatusExecuting, t_UpdatedAt := env_Now env\<rparr>" "map_of (tb_Tasks (en_DB e)) (t_ID t) = Some t"
      using txCommitTask_result [OF tx] by simp_all
    have "db' = put_task (t_ID t) u (en_DB e)" by (rule txCommitTask_Inr [OF tx]) simp
    then have res: "tb_Reservations db' = tb_Reservations (en_DB e)" using u(1) by (simp add: put_task_def)
    have "task_moves (t_ID t) u (en_DB e) (en_DB e')"
      using commit_moves(1) [OF 2(2) assms(2,3)] by (simp add: 2(3) task_moves_def)
    with 2(1) u res show ?thesis by (simp add: 2(3))
  qed
qed

lemma admit_new_moves:
  assumes "AdmitNewPRTask env h t inventory db = (Inr (Some n), db')"
  shows "n = admit_next env t" "task_moves (t_ID t) n db db'" "HasPRReservation (t_ID t) db'" "map_of (tb_Tasks db) (t_ID t) = Some t"
proof -
  have tx: "txAdmitNewPRTask env h t inventory db = Inr (n, db')"
    using assms unfolding AdmitNewPRTask_def by (rule conditional_Some)
  note r = txAdmit_Inr [OF tx]
  obtain d1 d2 where c: "commit_db t (admit_next env t) TaskAdmission db = Inr d1"
    and i: "insertReservation (t_ID t) (to_lower (env_Unicode env) (c_GitHubRepo (storedConfig db (store_ConfigKey h))))
        (t_Branch t) (env_Now env) False d1 = Inr d2" and d: "tb_Tasks db' = tb_Tasks d2"
    using tx by (auto simp: txAdmitNewPRTask_def Let_def rbind_Inr_iff split: if_splits option.splits prod.splits)
  obtain u where u: "txCommitTask t (admit_next env t) TaskAdmission db = Inr (u, d1)" using c by (auto simp: commit_db_Inr)
  have un: "u = admit_next env t" using txCommitTask_result(1) [OF u] by simp
  obtain cur marked where cur: "map_of (tb_Tasks db) (t_ID t) = Some cur" "t_ID cur = t_ID t"
      "ValidateTaskChange cur u TaskAdmission marked = None" "d1 = put_task (t_ID t) u db"
    by (rule txCommitTask_Inr [OF u])
  have same: "cur = t" using cur(1) r(2) by simp
  have "tb_Tasks db' = AList.update (t_ID t) n (tb_Tasks db)"
    using d insertReservation_new(2) [OF i] cur(4) un r(1) by simp
  moreover have "\<forall>j. j \<noteq> t_ID t \<longrightarrow> map_of (tb_Reservations db') j = map_of (tb_Reservations db) j"
    using r(7) by (auto simp: map_add_def split: option.splits)
  moreover have "task_step marked t n" using task_step.commit [OF cur(3)] un r(1) same by simp
  ultimately show "task_moves (t_ID t) n db db'"
    using r(2,3) same cur(2) unfolding task_moves_def by auto
  show "HasPRReservation (t_ID t) db'" using r(7) by (simp add: HasPRReservation_def map_add_def split: option.splits)
  show "n = admit_next env t" "map_of (tb_Tasks db) (t_ID t) = Some t" by (fact r(1,2))+
qed

lemma admit_new_refused:
  assumes "AdmitNewPRTask env h t inventory db = (r, db')" and "\<And>n. r \<noteq> Inr (Some n)"
  shows "db' = db"
  using assms by (cases rule: conditional_cases [of "txAdmitNewPRTask env h t inventory" db]) (auto simp: AdmitNewPRTask_def)

subsection \<open>Lemmas: what a dispatched task has\<close>

definition published :: "database \<Rightarrow> string \<Rightarrow> bool" where
  "published db i \<longleftrightarrow> (\<exists>t. map_of (tb_Tasks db) i = Some t \<and> t_Status t = StatusPublished)"

text \<open>A dispatched task is saved as executing, its job holds that record and its branch, its dependencies are published, and
  a task that opens a pull request holds a reservation.\<close>

definition dispatched :: "database \<Rightarrow> string \<times> task_job \<Rightarrow> bool" where
  "dispatched db ij \<longleftrightarrow>
     (case ij of (i, job) \<Rightarrow>
        map_of (tb_Tasks db) i = Some (tj_Committed job) \<and> t_Status (tj_Committed job) = StatusExecuting \<and>
        tj_Branch job = t_Branch (tj_Committed job) \<and> tj_Kind job = executionWorker \<and>
        list_all (published db) (p_Dependencies (t_Proposal (tj_Committed job))) \<and>
        (p_Target (t_Proposal (tj_Committed job)) = c_DefaultBranch (t_Config (tj_Committed job)) \<longrightarrow> HasPRReservation i db))"

definition jobs_owned :: "engine \<Rightarrow> bool" where
  "jobs_owned e \<longleftrightarrow>
     list_all (\<lambda>(i, job). map_option t_Branch (map_of (tb_Tasks (en_DB e)) i) = Some (tj_Branch job)) (rt_Tasks (en_RT e))"

lemma published_moves: "task_moves k u db db' \<Longrightarrow> published db i \<Longrightarrow> published db' i"
  by (auto simp: task_moves_def published_def)

lemma dispatched_moves:
  assumes "task_moves k u db db'" and "dispatched db (i, job)" and "i \<noteq> k"
  shows "dispatched db' (i, job)"
proof -
  have "list_all (published db') ds" if "list_all (published db) ds" for ds
    using that published_moves [OF assms(1)] by (simp add: list_all_iff)
  with assms show ?thesis by (auto simp: dispatched_def task_moves_def HasPRReservation_def)
qed

lemma branch_moves:
  assumes "task_moves k u db db'"
  shows "map_option t_Branch (map_of (tb_Tasks db') i) = map_option t_Branch (map_of (tb_Tasks db) i)"
proof -
  obtain cur marked where m: "map_of (tb_Tasks db) k = Some cur" "task_step marked cur u"
      "tb_Tasks db' = AList.update k u (tb_Tasks db)"
    using assms by (auto simp: task_moves_def)
  have "t_Branch u = t_Branch cur" using step_history [OF m(2)] by (simp add: same_identity_def)
  with m show ?thesis by simp
qed

lemma jobs_owned_moves:
  "task_moves k u (en_DB e) (en_DB e') \<Longrightarrow> rt_Tasks (en_RT e') = rt_Tasks (en_RT e) \<Longrightarrow> jobs_owned e \<Longrightarrow> jobs_owned e'"
  using branch_moves unfolding jobs_owned_def by (auto simp: list_all_iff)

lemma dependencies_published:
  "dependencies_ready env ct db t ready ds = DependenciesReady \<Longrightarrow> ready \<and> list_all (published db) ds"
  by (induction ds arbitrary: ready) (auto simp: published_def split: option.splits if_splits)

subsection \<open>Lemmas: the loop invariant\<close>

definition branches :: "(string \<times> task_job) list \<Rightarrow> string list" where
  "branches jobs = map (\<lambda>(_, job). tj_Branch job) jobs"

lemma branches_mem: "(i, job) \<in> set jobs \<Longrightarrow> tj_Branch job \<in> set (branches jobs)"
  by (induction jobs) (auto simp: branches_def)

definition dispatch_inv :: "engine \<Rightarrow> string list \<Rightarrow> nat \<Rightarrow> string set \<Rightarrow> (string \<times> task_job) list \<Rightarrow> dispatch_state \<Rightarrow> bool" where
  "dispatch_inv e0 busy avail rest added ds \<longleftrightarrow>
     rt_Tasks (en_RT (ds_Engine ds)) = rt_Tasks (en_RT e0) @ added \<and>
     list_all (dispatched (en_DB (ds_Engine ds))) added \<and>
     distinct (branches added) \<and> set (branches added) \<inter> set busy = {} \<and>
     set (ds_Busy ds) = set busy \<union> set (branches added) \<and>
     length added + unat (ds_Available ds) = avail \<and>
     fst ` set added \<inter> rest = {} \<and>
     tasks_ok (tb_Tasks (en_DB (ds_Engine ds))) \<and>
     tasks_extend (tb_Tasks (en_DB e0)) (tb_Tasks (en_DB (ds_Engine ds))) \<and>
     jobs_owned (ds_Engine ds)"

lemma dispatch_invD:
  assumes "dispatch_inv e0 busy avail rest added ds"
  shows "rt_Tasks (en_RT (ds_Engine ds)) = rt_Tasks (en_RT e0) @ added" "list_all (dispatched (en_DB (ds_Engine ds))) added"
    "distinct (branches added)" "set (branches added) \<inter> set busy = {}" "set (ds_Busy ds) = set busy \<union> set (branches added)"
    "length added + unat (ds_Available ds) = avail" "fst ` set added \<inter> rest = {}"
    "tasks_ok (tb_Tasks (en_DB (ds_Engine ds)))" "tasks_extend (tb_Tasks (en_DB e0)) (tb_Tasks (en_DB (ds_Engine ds)))"
    "jobs_owned (ds_Engine ds)"
  using assms unfolding dispatch_inv_def by blast+

text \<open>Steps that touch only the observation state keep the invariant.\<close>

lemma inv_same:
  assumes "dispatch_inv e0 busy avail rest added ds"
    and "en_DB (ds_Engine ds') = en_DB (ds_Engine ds)" and "rt_Tasks (en_RT (ds_Engine ds')) = rt_Tasks (en_RT (ds_Engine ds))"
    and "ds_Busy ds' = ds_Busy ds" and "ds_Available ds' = ds_Available ds" and "rest' \<subseteq> rest"
  shows "dispatch_inv e0 busy avail rest' added ds'"
proof -
  have "jobs_owned (ds_Engine ds') = jobs_owned (ds_Engine ds)" using assms(2,3) by (simp add: jobs_owned_def)
  moreover have "fst ` set added \<inter> rest = {} \<Longrightarrow> fst ` set added \<inter> rest' = {}" using assms(6) by blast
  ultimately show ?thesis using assms(1) unfolding dispatch_inv_def assms(2-5) by blast
qed

lemma inv_moves:
  assumes "dispatch_inv e0 busy avail (insert k rest) added ds" and "task_moves k u (en_DB (ds_Engine ds)) (en_DB e')"
    and "en_RT e' = en_RT (ds_Engine ds)"
  shows "dispatch_inv e0 busy avail (insert k rest) added (ds\<lparr>ds_Engine := e'\<rparr>)"
proof -
  have "dispatched (en_DB e') ij" if "ij \<in> set added" for ij
  proof -
    obtain i job where ij: "ij = (i, job)" by force
    have "i \<in> fst ` set added" using that ij by (metis fst_conv image_eqI)
    then have "i \<noteq> k" using dispatch_invD(7) [OF assms(1)] by blast
    moreover have "dispatched (en_DB (ds_Engine ds)) (i, job)"
      using that dispatch_invD(2) [OF assms(1)] ij by (simp add: list_all_iff)
    ultimately show ?thesis using dispatched_moves [OF assms(2)] ij by blast
  qed
  moreover have "jobs_owned e'"
    using jobs_owned_moves [OF assms(2)] dispatch_invD(10) [OF assms(1)] assms(3) by simp
  ultimately show ?thesis
    using dispatch_invD [OF assms(1)] assms(3) task_moves_inv [OF assms(2)] by (simp add: dispatch_inv_def list_all_iff)
qed

text \<open>Starting a task that was just admitted on a free branch.\<close>

lemma inv_start:
  assumes inv: "dispatch_inv e0 busy avail (insert (t_ID u) rest) added ds" and "t_ID u \<notin> rest"
    and saved: "map_of (tb_Tasks (en_DB (ds_Engine ds))) (t_ID u) = Some u" and free: "t_Branch u \<notin> set (ds_Busy ds)"
    and old: "set (branches (rt_Tasks (en_RT e0))) \<subseteq> set busy" and "ds_Available ds \<noteq> 0"
    and new: "dispatched (en_DB (ds_Engine ds)) (t_ID u, job)" "tj_Branch job = t_Branch u" "tj_Committed job = u"
    and job: "job = \<lparr>tj_Serial = rt_NextSerial (en_RT (ds_Engine ds)), tj_Branch = t_Branch u, tj_Kind = executionWorker,
      tj_Committed = u, tj_Pending = None\<rparr>"
  shows "\<exists>added' ds'. start_task u ds = (Continue, ds') \<and> dispatch_inv e0 busy avail rest added' ds'"
proof -
  let ?e = "ds_Engine ds"
  have jobs: "rt_Tasks (en_RT ?e) = rt_Tasks (en_RT e0) @ added" using inv by (simp add: dispatch_inv_def)
  have none: "map_of (rt_Tasks (en_RT ?e)) (t_ID u) = None"
  proof (rule ccontr)
    assume "map_of (rt_Tasks (en_RT ?e)) (t_ID u) \<noteq> None"
    then obtain j where j: "(t_ID u, j) \<in> set (rt_Tasks (en_RT ?e))" by (meson map_of_SomeD option.exhaust_sel)
    have "\<forall>(i, job) \<in> set (rt_Tasks (en_RT ?e)). map_option t_Branch (map_of (tb_Tasks (en_DB ?e)) i) = Some (tj_Branch job)"
      using dispatch_invD(10) [OF inv] by (simp add: jobs_owned_def list_all_iff)
    from bspec [OF this j] saved have "t_Branch u = tj_Branch j" by simp
    moreover have "(t_ID u, j) \<in> set (rt_Tasks (en_RT e0)) \<or> (t_ID u, j) \<in> set added" using j jobs by simp
    then have "tj_Branch j \<in> set (branches (rt_Tasks (en_RT e0))) \<or> tj_Branch j \<in> set (branches added)"
      using branches_mem by blast
    then have "tj_Branch j \<in> set (ds_Busy ds)" using old dispatch_invD(5) [OF inv] by auto
    ultimately show False using free by simp
  qed
  have upd: "AList.update (t_ID u) job (rt_Tasks (en_RT ?e)) = rt_Tasks (en_RT ?e) @ [(t_ID u, job)]"
  proof -
    have "AList.update k v m = m @ [(k, v)]" if "map_of m k = None" for k v and m :: "(string \<times> task_job) list"
      using that by (induction m) (auto split: if_splits)
    with none show ?thesis by simp
  qed
  define e' where "e' = set_job (t_ID u) job (?e\<lparr>en_RT := (en_RT ?e)\<lparr>rt_NextSerial := Suc (rt_NextSerial (en_RT ?e))\<rparr>\<rparr>)"
  define ds' where "ds' = ds\<lparr>ds_Busy := t_Branch u # ds_Busy ds, ds_Available := ds_Available ds - 1, ds_Started := True, ds_Engine := e'\<rparr>"
  have st: "start_task u ds = (Continue, ds')"
    using none by (simp add: start_task_def registerTaskWorker_def Let_def e'_def ds'_def job)
  have e': "en_DB e' = en_DB ?e" "rt_Tasks (en_RT e') = rt_Tasks (en_RT e0) @ added @ [(t_ID u, job)]"
    using upd jobs by (simp_all add: e'_def set_job_def)
  have "jobs_owned e'" using dispatch_invD(10) [OF inv] saved e' jobs new(2) by (simp add: jobs_owned_def)
  moreover have "unat (ds_Available ds - 1) = unat (ds_Available ds) - 1" "0 < unat (ds_Available ds)"
    using assms(6) by (simp_all add: unat_minus_one unat_gt_0)
  ultimately have "dispatch_inv e0 busy avail rest (added @ [(t_ID u, job)]) ds'"
    using dispatch_invD [OF inv] e' new(1,2) free assms(2) unfolding dispatch_inv_def
    by (simp add: ds'_def branches_def insert_commute)
  with st show ?thesis by blast
qed

text \<open>Admission of a ready task on a free branch, by either path, ends in a dispatched task.\<close>

lemma inv_admitted:
  assumes inv: "dispatch_inv e0 busy avail (insert (t_ID t) rest) added ds" and "t_ID t \<notin> rest"
    and free: "t_Branch t \<notin> set (ds_Busy ds)" and old: "set (branches (rt_Tasks (en_RT e0))) \<subseteq> set busy"
    and avail: "ds_Available ds \<noteq> 0"
    and moves: "task_moves (t_ID t) u (en_DB (ds_Engine ds)) (en_DB e')" "rt_Tasks (en_RT e') = rt_Tasks (en_RT (ds_Engine ds))"
    and u: "t_ID u = t_ID t" "t_Branch u = t_Branch t" "t_Proposal u = t_Proposal t" "t_Config u = t_Config t"
      "t_Status u = StatusExecuting"
    and ready: "dependenciesReady env ct (en_DB (ds_Engine ds)) t = DependenciesReady"
    and slot: "p_Target (t_Proposal t) = c_DefaultBranch (t_Config t) \<Longrightarrow> HasPRReservation (t_ID t) (en_DB e')"
  shows "\<exists>added' ds'. start_task u (ds\<lparr>ds_Engine := e'\<rparr>) = (Continue, ds') \<and> dispatch_inv e0 busy avail rest added' ds'"
proof -
  let ?ds = "ds\<lparr>ds_Engine := e'\<rparr>"
  let ?job = "\<lparr>tj_Serial = rt_NextSerial (en_RT e'), tj_Branch = t_Branch u, tj_Kind = executionWorker, tj_Committed = u, tj_Pending = None\<rparr>"
  define e1 where "e1 = e'\<lparr>en_RT := en_RT (ds_Engine ds)\<rparr>"
  have "dispatch_inv e0 busy avail (insert (t_ID t) rest) added (ds\<lparr>ds_Engine := e1\<rparr>)"
    using moves(1) by (intro inv_moves [OF inv]) (simp_all add: e1_def)
  then have "dispatch_inv e0 busy avail (insert (t_ID t) rest) added ?ds"
    by (rule inv_same) (simp_all add: e1_def moves(2))
  moreover have saved: "map_of (tb_Tasks (en_DB e')) (t_ID u) = Some u" using moves(1) u(1) by (auto simp: task_moves_def)
  moreover have "list_all (published (en_DB e')) (p_Dependencies (t_Proposal t))"
    using dependencies_published [OF ready [unfolded dependenciesReady_def]] published_moves [OF moves(1)]
    by (simp add: list_all_iff)
  then have "dispatched (en_DB e') (t_ID u, ?job)" using saved slot u by (simp add: dispatched_def)
  ultimately show ?thesis
    using assms(2) free old avail u by (intro inv_start [where job = ?job]) simp_all
qed

lemma needs_slot_held: "\<not> needs_slot db t \<Longrightarrow> p_Target (t_Proposal t) = c_DefaultBranch (t_Config t) \<Longrightarrow> HasPRReservation (t_ID t) db"
  by (simp add: needs_slot_def)

lemma claim_pass_same:
  "en_DB (ds_Engine (claim_once_per_pass cfg now ds)) = en_DB (ds_Engine ds)"
  "rt_Tasks (en_RT (ds_Engine (claim_once_per_pass cfg now ds))) = rt_Tasks (en_RT (ds_Engine ds))"
  "ds_Busy (claim_once_per_pass cfg now ds) = ds_Busy ds" "ds_Available (claim_once_per_pass cfg now ds) = ds_Available ds"
  using claimInventory_frame [of cfg now "ds_Engine ds"]
  by (cases "claimInventory cfg now (ds_Engine ds)"; cases "fst (claimInventory cfg now (ds_Engine ds))";
      simp add: claim_once_per_pass_def split: option.splits)+

lemma refresh_same [simp]:
  "en_DB (ds_Engine (request_refresh env h cfg now ds)) = en_DB (ds_Engine ds)"
  "rt_Tasks (en_RT (ds_Engine (request_refresh env h cfg now ds))) = rt_Tasks (en_RT (ds_Engine ds))"
  "ds_Busy (request_refresh env h cfg now ds) = ds_Busy ds" "ds_Available (request_refresh env h cfg now ds) = ds_Available ds"
  "ds_Engine (wait ds) = ds_Engine ds" "ds_Busy (wait ds) = ds_Busy ds" "ds_Available (wait ds) = ds_Available ds"
  by (simp_all add: request_refresh_def wait_def)

lemma admit_new_inv:
  assumes inv: "dispatch_inv e0 busy avail (insert (t_ID t) rest) added ds" and "t_ID t \<notin> rest"
    and free: "t_Branch t \<notin> set (ds_Busy ds)" and old: "set (branches (rt_Tasks (en_RT e0))) \<subseteq> set busy"
    and avail: "ds_Available ds \<noteq> 0" and ready: "dependenciesReady env ct (en_DB (ds_Engine ds)) t = DependenciesReady"
    and step: "admit_new env h cfg now t ds = (f, ds')"
  shows "f \<noteq> Panic \<and> (\<exists>added'. dispatch_inv e0 busy avail rest added' ds')"
proof -
  let ?ds = "claim_once_per_pass cfg now ds"
  note same = claim_pass_same [of cfg now ds]
  have inv1: "dispatch_inv e0 busy avail (insert (t_ID t) rest) added ?ds"
    by (rule inv_same [OF inv]) (simp_all add: same)
  have quiet: "dispatch_inv e0 busy avail rest added d"
    if "en_DB (ds_Engine d) = en_DB (ds_Engine ?ds)" "rt_Tasks (en_RT (ds_Engine d)) = rt_Tasks (en_RT (ds_Engine ?ds))"
      "ds_Busy d = ds_Busy ?ds" "ds_Available d = ds_Available ?ds" for d
    using inv_same [OF inv1 that, of rest] by blast
  show ?thesis
  proof (cases "\<exists>inventory. ds_Inventory ?ds = Some (Some inventory)")
    case False
    then have "admit_new env h cfg now t ds = (Continue, wait (request_refresh env h cfg now ?ds))"
      by (auto simp: admit_new_def Let_def split: option.splits)
    with step show ?thesis using quiet [of ds'] by auto
  next
    case True
    then obtain inventory where i: "ds_Inventory ?ds = Some (Some inventory)" by blast
    obtain r db' where a: "AdmitNewPRTask env h t inventory (en_DB (ds_Engine ?ds)) = (r, db')" by force
    show ?thesis
    proof (cases "\<exists>n. r = Inr (Some n)")
      case False
      then have "db' = en_DB (ds_Engine ?ds)" using admit_new_refused [OF a] by blast
      with step i a False show ?thesis
        using quiet [of ds'] by (cases r) (auto simp: admit_new_def Let_def on_db_def split: option.splits)
    next
      case True
      then obtain n where n: "r = Inr (Some n)" by blast
      note m = admit_new_moves [OF a [unfolded n]]
      let ?e = "on_rt (\<lambda>r. r\<lparr>rt_PRAdmissionRefused := False\<rparr>) ((ds_Engine ?ds)\<lparr>en_DB := db'\<rparr>)"
      have "\<exists>added' d. start_task n (?ds\<lparr>ds_Engine := ?e\<rparr>) = (Continue, d) \<and> dispatch_inv e0 busy avail rest added' d"
        using assms(2) free old avail ready m same
        by (intro inv_admitted [OF inv1, where env = env and ct = ct]) (simp_all add: admit_next_def)
      moreover have "admit_new env h cfg now t ds = start_task n (?ds\<lparr>ds_Engine := ?e\<rparr>)"
        by (simp add: admit_new_def Let_def i on_db_def a n)
      ultimately show ?thesis using step by auto
    qed
  qed
qed

lemma dispatch_task_inv:
  assumes inv: "dispatch_inv e0 busy avail (insert (t_ID t) rest) added ds" and fresh: "t_ID t \<notin> rest"
    and old: "set (branches (rt_Tasks (en_RT e0))) \<subseteq> set busy"
    and step: "dispatch_task env h cfg ct now t ds = (f, ds')"
  shows "f \<noteq> Panic \<and> (\<exists>added'. dispatch_inv e0 busy avail rest added' ds')"
proof -
  let ?e = "ds_Engine ds"
  note ok = dispatch_invD(8) [OF inv]
  have quiet: "dispatch_inv e0 busy avail rest added d"
    if "ds_Engine d = ?e" "ds_Busy d = ds_Busy ds" "ds_Available d = ds_Available ds" for d
    using inv_same [OF inv _ _ that(2,3), of rest] that(1) by auto
  consider (skip) "f \<noteq> Panic" "ds_Engine ds' = ?e" "ds_Busy ds' = ds_Busy ds" "ds_Available ds' = ds_Available ds"
    | (blocked) why where "t_Status t = StatusQueued" "dependenciesReady env ct (en_DB ?e) t = DependenciesBlocked why"
    | (ready) "t_Status t = StatusQueued" "dependenciesReady env ct (en_DB ?e) t = DependenciesReady" "ds_Available ds \<noteq> 0"
        "t_Branch t \<notin> set (ds_Busy ds)" "\<not> cleanupClaimed cleanupTask (t_ID t) ?e"
    using step by (auto simp: dispatch_task_def Let_def split: if_splits readiness.splits)
  then show ?thesis
  proof cases
    case skip
    then show ?thesis using quiet by blast
  next
    case (blocked why)
    obtain r e' where b: "blockTaskLocked env h t why ?e = (r, e')" by force
    note m = block_moves [OF b ok blocked(1)]
    have "dispatch_inv e0 busy avail (insert (t_ID t) rest) added (ds\<lparr>ds_Engine := e'\<rparr>)"
    proof (cases "e' = ?e")
      case True
      with inv show ?thesis by simp
    next
      case False
      with m(2) obtain u where "task_moves (t_ID t) u (en_DB ?e) (en_DB e')" by blast
      from inv_moves [OF inv this m(1)] show ?thesis .
    qed
    then have "dispatch_inv e0 busy avail rest added (ds\<lparr>ds_Engine := e'\<rparr>)" by (rule inv_same) auto
    moreover have "ds' = ds\<lparr>ds_Engine := e'\<rparr> \<or> ds' = wait ds" "f \<noteq> Panic"
      using step blocked b by (auto simp: dispatch_task_def Let_def split: if_splits sum.splits)
    ultimately show ?thesis using quiet [of ds'] by auto
  next
    case ready
    show ?thesis
    proof (cases "needs_slot (en_DB ?e) t")
      case True
      then have "admit_new env h cfg now t ds = (f, ds')" using step ready by (simp add: dispatch_task_def Let_def)
      from admit_new_inv [OF inv fresh ready(4) old ready(3,2) this] show ?thesis .
    next
      case False
      obtain r e' where a: "admitTaskLocked env h t ?e = (r, e')" by force
      note m = admit_moves [OF a ok ready(1)]
      from m(2) show ?thesis
      proof
        assume "\<exists>err. r = Inl err \<and> e' = ?e"
        then have "f \<noteq> Panic" "ds' = ds" using step ready False a by (auto simp: dispatch_task_def Let_def)
        then show ?thesis using quiet by auto
      next
        assume "\<exists>u. r = Inr u \<and> u = t\<lparr>t_Status := StatusExecuting, t_UpdatedAt := env_Now env\<rparr> \<and> task_moves (t_ID t) u (en_DB ?e) (en_DB e') \<and>
          map_of (tb_Tasks (en_DB ?e)) (t_ID t) = Some t \<and> tb_Reservations (en_DB e') = tb_Reservations (en_DB ?e)"
        then obtain u where u: "r = Inr u" "u = t\<lparr>t_Status := StatusExecuting, t_UpdatedAt := env_Now env\<rparr>"
            "task_moves (t_ID t) u (en_DB ?e) (en_DB e')" "tb_Reservations (en_DB e') = tb_Reservations (en_DB ?e)" by blast
        have "\<exists>added' d. start_task u (ds\<lparr>ds_Engine := e'\<rparr>) = (Continue, d) \<and> dispatch_inv e0 busy avail rest added' d"
          using u m(1) needs_slot_held [OF False]
          by (intro inv_admitted [OF inv fresh ready(4) old ready(3) u(3) _ _ _ _ _ _ ready(2)]) (simp_all add: HasPRReservation_def)
        moreover have "start_task u (ds\<lparr>ds_Engine := e'\<rparr>) = (f, ds')"
          using step ready False a u(1) by (simp add: dispatch_task_def Let_def)
        ultimately show ?thesis by auto
      qed
    qed
  qed
qed

lemma dispatch_loop_inv:
  assumes "dispatch_inv e0 busy avail (t_ID ` set ts) added ds" and "distinct (map t_ID ts)"
    and "set (branches (rt_Tasks (en_RT e0))) \<subseteq> set busy" and "dispatch_loop env h cfg ct now ts ds = (f, ds')"
  shows "f \<noteq> Panic \<and> (\<exists>added'. dispatch_inv e0 busy avail {} added' ds')"
  using assms
proof (induction ts arbitrary: added ds)
  case (Cons t ts)
  obtain g d where g: "dispatch_task env h cfg ct now t ds = (g, d)" by force
  have "dispatch_inv e0 busy avail (insert (t_ID t) (t_ID ` set ts)) added ds" "t_ID t \<notin> t_ID ` set ts"
    using Cons.prems(1,2) by simp_all
  from dispatch_task_inv [OF this Cons.prems(3) g] obtain added1 where
    a: "g \<noteq> Panic" "dispatch_inv e0 busy avail (t_ID ` set ts) added1 d" by blast
  show ?case
  proof (cases "g = Continue")
    case True
    with Cons.prems g show ?thesis using Cons.IH [OF a(2)] by simp
  next
    case False
    then have "(f, ds') = (g, d)" using Cons.prems(4) g by (cases g) auto
    moreover have "dispatch_inv e0 busy avail {} added1 d" by (rule inv_same [OF a(2)]) simp_all
    ultimately show ?thesis using a(1) by blast
  qed
qed auto

subsection \<open>Dispatch is safe\<close>

text \<open>C31: One scheduling pass over the saved work starts only work that may start. When the records satisfy the lifecycle invariant
  and every registered worker owns the branch of its task, the pass never registers a second worker for a task (it does not
  panic), and each worker it adds runs a saved task that is now executing, whose dependencies are all published and which
  holds a pull-request reservation if it writes the default branch. The new workers have pairwise different branches, none of
  them the branch of a running worker, an active task or a merge in flight; together with the active work they stay within the
  configured concurrency; and the lifecycle invariant and the ownership of branches still hold. (The count of active work
  is assumed to fit the 64-bit counter.)\<close>

theorem dispatch_safe:
  assumes "tasks_ok (tb_Tasks (en_DB e))" and "jobs_owned e" and "tasks = SchedulingTasks h run (en_DB e)"
    and "active_count tasks (en_RT e) < 2 ^ 64" and "dispatch env h cfg ct now tasks e = (f, ds)"
  shows "\<exists>added. f \<noteq> Panic \<and> rt_Tasks (en_RT (ds_Engine ds)) = rt_Tasks (en_RT e) @ added \<and>
    list_all (dispatched (en_DB (ds_Engine ds))) added \<and> distinct (branches added) \<and>
    set (branches added) \<inter> (set (branches (rt_Tasks (en_RT e))) \<union> set (rt_Merges (en_RT e)) \<union>
      t_Branch ` set (active_tasks h (en_DB e))) = {} \<and>
    active_count tasks (en_RT e) + length added \<le> max (active_count tasks (en_RT e)) (unat (c_ExecutionConcurrency cfg)) \<and>
    tasks_ok (tb_Tasks (en_DB (ds_Engine ds))) \<and> tasks_extend (tb_Tasks (en_DB e)) (tb_Tasks (en_DB (ds_Engine ds))) \<and>
    jobs_owned (ds_Engine ds)"
proof -
  let ?ds = "dispatch_begin cfg tasks e"
  have "dispatch_inv e (ds_Busy ?ds) (unat (ds_Available ?ds)) (t_ID ` set tasks) [] ?ds"
    using assms(1,2) by (simp add: dispatch_inv_def dispatch_begin_def Let_def branches_def tasks_extend_refl)
  moreover have "distinct (map t_ID tasks)" using SchedulingTasks_distinct [OF assms(1)] assms(3) by simp
  moreover have "set (branches (rt_Tasks (en_RT e))) \<subseteq> set (ds_Busy ?ds)"
    by (auto simp: dispatch_begin_def Let_def branches_def)
  ultimately obtain added where a: "f \<noteq> Panic" "dispatch_inv e (ds_Busy ?ds) (unat (ds_Available ?ds)) {} added ds"
    using dispatch_loop_inv assms(5) unfolding dispatch_def by blast
  note inv = dispatch_invD [OF a(2)]
  have "t_Branch ` set (active_tasks h (en_DB e)) \<subseteq> set (ds_Busy ?ds)"
    using SchedulingTasks_active [of _ "en_DB e" h run] assms(3)
    by (auto simp: dispatch_begin_def Let_def active_tasks_def intro!: image_eqI)
  moreover have "set (branches (rt_Tasks (en_RT e))) \<union> set (rt_Merges (en_RT e)) \<subseteq> set (ds_Busy ?ds)"
    by (auto simp: dispatch_begin_def Let_def branches_def)
  ultimately have "set (branches added) \<inter> (set (branches (rt_Tasks (en_RT e))) \<union> set (rt_Merges (en_RT e)) \<union>
      t_Branch ` set (active_tasks h (en_DB e))) = {}"
    using inv(4) by blast
  moreover have "length added \<le> unat (c_ExecutionConcurrency cfg) - active_count tasks (en_RT e)"
  proof -
    have "unat (of_nat (active_count tasks (en_RT e)) :: u64) = active_count tasks (en_RT e)"
      using assms(4) by (simp add: unat_of_nat)
    with inv(6) show ?thesis by (auto simp: dispatch_begin_def Let_def unat_sub word_less_nat_alt word_le_nat_alt split: if_splits)
  qed
  ultimately show ?thesis using a(1) inv by (intro exI [of _ added]) auto
qed

definition dispatch_db :: database where
  "dispatch_db = empty_db\<lparr>tb_Tasks := [(''t1'', sample_task)],
     tb_Reservations := [(''t1'', \<lparr>res_TaskID = ''t1'', res_Repository = ''octo/app'', res_Branch = ''octomus/t1'',
       res_AdmittedAt = ''2025-01-01T00:00:00Z''\<rparr>)]\<rparr>"

lemma dispatch_sample_ok: "tasks_ok (tb_Tasks (en_DB (idle_engine dispatch_db)))" "jobs_owned (idle_engine dispatch_db)"
  by (simp_all add: tasks_ok_def lifecycle_inv_def settled_def retired_def idle_engine_def idle_runtime_def dispatch_db_def
      jobs_owned_def sample_task_def)

lemma dispatch_sample_tasks: "SchedulingTasks root_handle None dispatch_db = [sample_task]"
  by (simp add: SchedulingTasks_def queued_tasks_def needs_slot_def HasPRReservation_def in_scope_def root_handle_def
      dispatch_db_def Let_def sample_task_def PageLimit_def)

lemma dispatch_sample_run:
  "(case dispatch sample_env root_handle sample_config DefaultControl 0 [sample_task] (idle_engine dispatch_db) of
      (Continue, ds) \<Rightarrow> map fst (rt_Tasks (en_RT (ds_Engine ds))) = [''t1''] | _ \<Rightarrow> False)"
  by code_simp

theorem dispatch_safe_witness:
  "\<exists>ds. dispatch sample_env root_handle sample_config DefaultControl 0 [sample_task] (idle_engine dispatch_db) = (Continue, ds) \<and>
     (\<exists>job. rt_Tasks (en_RT (ds_Engine ds)) = [(''t1'', job)] \<and> dispatched (en_DB (ds_Engine ds)) (''t1'', job))"
proof -
  obtain ds where d: "dispatch sample_env root_handle sample_config DefaultControl 0 [sample_task] (idle_engine dispatch_db) = (Continue, ds)"
      "map fst (rt_Tasks (en_RT (ds_Engine ds))) = [''t1'']"
    using dispatch_sample_run by (auto split: prod.splits flow.splits)
  have tasks: "[sample_task] = SchedulingTasks root_handle None (en_DB (idle_engine dispatch_db))"
    by (simp add: idle_engine_def dispatch_sample_tasks)
  have "active_count [sample_task] (en_RT (idle_engine dispatch_db)) < 2 ^ 64"
    by (simp add: active_count_def idle_engine_def idle_runtime_def sample_task_def)
  from dispatch_safe [OF dispatch_sample_ok tasks this d(1)]
  have "list_all (dispatched (en_DB (ds_Engine ds))) (rt_Tasks (en_RT (ds_Engine ds)))"
    by (auto simp: idle_engine_def idle_runtime_def)
  with d show ?thesis by (cases "rt_Tasks (en_RT (ds_Engine ds))") auto
qed

end
