(* ===== verification/Engine_Actions.thy ===== *)
theory Engine_Actions
  imports Engine_Merge Engine_Dispatch Store_Registry
begin

text \<open>
  Operator actions on tasks and cycles, \<open>internal/engine/actions.go\<close>, operator requests (\<open>requests.go\<close>) and the cleanup of a
  retained record (\<open>housekeeping.go\<close>). Remote checks, publication, directory removal and the validation of identifiers
  of the uuid package are fields of a parameter record. While the code runs such work without the gate, \<open>ar_Window\<close> stands for what other
  operations do to the state.
\<close>

record action_remote =
  ar_Merge :: merge_remote
  ar_DataDir :: string
  ar_Stopping :: bool
  ar_Window :: "engine \<Rightarrow> engine"
  ar_Preflight :: "task \<Rightarrow> cause option"
  ar_Publish :: "task \<Rightarrow> (cause, pull_request) result"
  ar_Remove :: "string \<Rightarrow> string \<Rightarrow> cause option"
  ar_UUID :: "string \<Rightarrow> bool"
  ar_Initialized :: "task \<Rightarrow> bool"
  ar_Older :: "string \<Rightarrow> string \<Rightarrow> bool"

definition ar_Config :: "action_remote \<Rightarrow> handle \<Rightarrow> engine \<Rightarrow> config" where
  "ar_Config ar h e = engine_Config (mr_Pin (ar_Merge ar)) h e"

definition plain_error :: "string \<Rightarrow> engine_error" where
  "plain_error message = WorkFailed \<lparr>ca_Tree = Plain, ca_Text = message, ca_Canceled = False\<rparr>"

definition stopped_error :: engine_error where
  "stopped_error = WorkFailed \<lparr>ca_Tree = Plain, ca_Text = ''context canceled'', ca_Canceled = True\<rparr>"

definition store_result :: "(store_error, 'a) result \<Rightarrow> engine_error go_error" where
  "store_result r = (case r of Inl err \<Rightarrow> Some (StoreFailed err) | Inr _ \<Rightarrow> None)"

subsection \<open>Paths\<close>

definition filepath_Join :: "string list \<Rightarrow> string" where
  "filepath_Join parts =
     (case dropWhile (\<lambda>p. p = []) parts of [] \<Rightarrow> [] | ps \<Rightarrow> filepath_Clean (join_with ''/'' ps))"

definition filepath_Dir :: "string \<Rightarrow> string" where
  "filepath_Dir path = filepath_Clean (rev (dropWhile (\<lambda>c. c \<noteq> CHR ''/'') (rev path)))"

subsection \<open>Eligibility\<close>

definition eligibleTask :: "string \<Rightarrow> task_action \<Rightarrow> engine \<Rightarrow> (engine_error, task) result" where
  "eligibleTask i action e =
     (case map_of (tb_Tasks (en_DB e)) i of
        None \<Rightarrow> Inl (ActionNotFound ''Task not found'')
      | Some t \<Rightarrow>
          if action \<notin> set (AllowedActions t)
          then Inl (ActionConflict (''This action is not eligible for the task'' @ [CHR 0x27] @ ''s recorded failure and workspace state''))
          else if action \<noteq> TaskActionCancel \<and> t_Branch t \<in> set (rt_Merges (en_RT e))
          then Inl (ActionConflict ''An automatic merge check is in flight for this delivery; wait for it to finish'')
          else if cleanupClaimed cleanupTask i e
          then Inl (ActionConflict ''Workspace cleanup is in progress for this task; wait for it to finish'')
          else if action \<noteq> TaskActionCancel \<and>
                  (map_of (rt_Tasks (en_RT e)) i \<noteq> None \<or> map_of (rt_Settlements (en_RT e)) i \<noteq> None)
          then Inl (ActionConflict ''Wait for active task work to finish'')
          else Inr t)"

definition revalidateTaskAction :: "task \<Rightarrow> task_action \<Rightarrow> engine \<Rightarrow> engine_error go_error" where
  "revalidateTaskAction original action e =
     (case eligibleTask (t_ID original) action e of
        Inl err \<Rightarrow> Some err
      | Inr cur \<Rightarrow>
          if cur \<noteq> original
          then Some (ActionConflict ''Task changed during remote checks; inspect its current state before trying again'') else None)"

subsection \<open>Cancel, retry, supersede and archive\<close>

definition cancelTask :: "env \<Rightarrow> string \<Rightarrow> engine \<Rightarrow> engine_error go_error \<times> engine" where
  "cancelTask env i e =
     (case on_db (CancelTask env i) (e\<lparr>en_DB := MarkCancel env i (en_DB e)\<rparr>) of
        (Inl err, e') \<Rightarrow> (Some (StoreFailed err), e')
      | (Inr False, e') \<Rightarrow>
          (Some (ActionConflict ''Publication has started; inspect the task and reconcile unfinished publication.''), e')
      | (Inr True, e') \<Rightarrow> (None, e'))"

definition retry_next :: "env \<Rightarrow> task \<Rightarrow> task" where
  "retry_next env t =
     t\<lparr>t_Attempts := t_Attempts t + 1, t_ReviewBaseline := of_nat (length (t_Reviews t)), t_RepairRounds := Some 0,
       t_RepairProgress := None, t_Error := None, t_BlockedReason := None, t_Status := StatusQueued, t_RunID := None,
       t_UpdatedAt := env_Now env\<rparr>"

definition retry_commit :: "env \<Rightarrow> handle \<Rightarrow> task \<Rightarrow> task \<Rightarrow> engine \<Rightarrow> engine_error go_error \<times> task \<times> engine" where
  "retry_commit env h t nxt e =
     (case on_db (RetryTask env h t (retry_next env nxt)) e of
        (Inl err, e') \<Rightarrow> (Some (StoreFailed err), t, e')
      | (Inr _, e') \<Rightarrow> (None, retry_next env nxt, e'))"

text \<open>\<open>retryTask\<close> returns the task record it leaves in the caller's variable.\<close>

definition retryTask :: "action_remote \<Rightarrow> env \<Rightarrow> handle \<Rightarrow> task \<Rightarrow> engine \<Rightarrow> engine_error go_error \<times> task \<times> engine" where
  "retryTask ar env h t e =
     (if \<not> Status_Retryable (t_Status t) then (Some (ActionConflict ''Only failed or blocked tasks can be retried.''), t, e)
      else if c_MaxRetries (ar_Config ar h e) \<le> t_Attempts t
      then (Some (ActionConflict ''Retry limit reached. Adjust the operating limit after inspecting the failure.''), t, e)
      else let policy = PolicyOf (ar_Config ar h e); nxt = t\<lparr>t_AttemptPolicy := Some policy\<rparr> in
        if t_OutputCommit t \<noteq> None then retry_commit env h t nxt e
        else let e1 = ar_Window ar e in
          (case revalidateTaskAction t TaskActionRetry e1 of
             Some err \<Rightarrow> (Some err, t, e1)
           | None \<Rightarrow>
               if policy \<noteq> PolicyOf (ar_Config ar h e1)
               then (Some (ActionConflict ''Retry policy changed during remote checks; try again with the current limits''), t, e1)
               else (case ar_Preflight ar nxt of
                   None \<Rightarrow> retry_commit env h t nxt e1
                 | Some err \<Rightarrow>
                     (case commitTaskLocked env t (recordTaskError err nxt) TaskInspect e1 of
                        (Inl _, e2) \<Rightarrow> (Some (WorkFailed err), t, e2)
                      | (Inr committed, e2) \<Rightarrow> (Some (WorkFailed err), committed, e2)))))"

definition supersede_next :: "env \<Rightarrow> task \<Rightarrow> task" where
  "supersede_next env t =
     t\<lparr>t_Status := StatusCancelled, t_RediscoveryRequested := True, t_RediscoveryResult := None, t_UpdatedAt := env_Now env\<rparr>"

definition archive_next :: "env \<Rightarrow> task \<Rightarrow> task" where
  "archive_next env t =
     t\<lparr>t_Status := (if Status_Retryable (t_Status t) then StatusCancelled else t_Status t),
       t_Lifecycle := (t_Lifecycle t)\<lparr>wl_ArchivedAt := Some (env_Now env)\<rparr>, t_UpdatedAt := env_Now env\<rparr>"

subsection \<open>Discarding workspaces\<close>

definition cleanup_name :: "cleanup_kind \<Rightarrow> string" where
  "cleanup_name kind = (case kind of cleanupTask \<Rightarrow> ''task'' | cleanupCycle \<Rightarrow> ''cycle'' | cleanupBaseline \<Rightarrow> ''baseline'')"

definition removeOwnedRoot :: "action_remote \<Rightarrow> cleanup_kind \<Rightarrow> string \<Rightarrow> string \<Rightarrow> string \<Rightarrow> engine \<Rightarrow> engine_error go_error \<times> engine" where
  "removeOwnedRoot ar kind i parent root e =
     (case claimCleanup kind i e of
        (False, e1) \<Rightarrow> (Some (ActionConflict (''Workspace cleanup is already in progress for this '' @ cleanup_name kind)), e1)
      | (True, e1) \<Rightarrow> (map_option WorkFailed (ar_Remove ar parent root), releaseCleanup kind i (ar_Window ar e1)))"

definition commit_discard :: "env \<Rightarrow> task \<Rightarrow> engine \<Rightarrow> engine_error go_error \<times> engine" where
  "commit_discard env t e =
     (case map_of (tb_Tasks (en_DB e)) (t_ID t) of
        None \<Rightarrow> (None, e)
      | Some cur \<Rightarrow>
          if Status_Active (t_Status cur) \<or> t_Status cur = StatusQueued
          then (Some (ActionConflict ''Task resumed work during workspace cleanup; inspect it before discarding''), e)
          else (case commitTaskLocked env cur (cur\<lparr>t_Lifecycle := (t_Lifecycle cur)\<lparr>wl_DiscardedAt := Some (env_Now env)\<rparr>\<rparr>)
                  TaskDiscard e of
              (Inl err, e') \<Rightarrow> (Some err, e')
            | (Inr _, e') \<Rightarrow> (None, clearCleanupReport cleanupTask (t_ID t) e')))"

definition discardTask :: "action_remote \<Rightarrow> env \<Rightarrow> task \<Rightarrow> engine \<Rightarrow> engine_error go_error \<times> engine" where
  "discardTask ar env t e =
     (if Status_Active (t_Status t) \<or> t_Status t = StatusQueued
      then (Some (plain_error ''Active or queued workspaces cannot be discarded''), e)
      else if wl_DiscardedAt (t_Lifecycle t) \<noteq> None
      then (Some (ActionConflict ''The task workspace was already discarded''), e)
      else if t_Workspace t = [] then commit_discard env t e
      else let parent = filepath_Join [ar_DataDir ar, ''tasks'']; owner = filepath_Dir (filepath_Clean (t_Workspace t)) in
        if owner \<noteq> filepath_Join [parent, t_ID t] then (Some (plain_error ''Cleanup path does not belong to this task''), e)
        else (case removeOwnedRoot ar cleanupTask (t_ID t) parent owner e of
            (Some err, e') \<Rightarrow> (Some err, e')
          | (None, e') \<Rightarrow> commit_discard env t e'))"

definition commit_discard_cycle :: "env \<Rightarrow> cycle \<Rightarrow> engine \<Rightarrow> engine_error go_error \<times> engine" where
  "commit_discard_cycle env c e =
     (case map_of (tb_Cycles (en_DB e)) (cy_ID c) of
        None \<Rightarrow> (None, e)
      | Some cur \<Rightarrow>
          if cy_Status cur = CycleRunning
          then (Some (ActionConflict ''Planning work restarted during workspace cleanup; inspect it before discarding''), e)
          else (None, clearCleanupReport cleanupCycle (cy_ID c) (e\<lparr>en_DB := put_cycle (cy_ID cur)
                 (cur\<lparr>cy_Lifecycle := (cy_Lifecycle cur)\<lparr>wl_DiscardedAt := Some (env_Now env)\<rparr>\<rparr>) (en_DB e)\<rparr>)))"

definition discardCycle :: "action_remote \<Rightarrow> env \<Rightarrow> cycle \<Rightarrow> engine \<Rightarrow> engine_error go_error \<times> engine" where
  "discardCycle ar env c e =
     (if cy_Status c = CycleRunning then (Some (plain_error ''Running planning work cannot be discarded''), e)
      else if wl_DiscardedAt (cy_Lifecycle c) \<noteq> None
      then (Some (ActionConflict ''The cycle workspaces were already discarded''), e)
      else if \<not> ar_UUID ar (cy_ID c) then (Some (plain_error ''Invalid cycle workspace identity''), e)
      else let root = filepath_Join [ar_DataDir ar, ''cycles''] in
        (case removeOwnedRoot ar cleanupCycle (cy_ID c) root (filepath_Join [root, cy_ID c]) e of
           (Some err, e') \<Rightarrow> (Some err, e')
         | (None, e') \<Rightarrow> commit_discard_cycle env c e'))"

subsection \<open>Reconciliation of a publication\<close>

definition join_causes :: "(store_error \<Rightarrow> string) \<Rightarrow> cause option \<Rightarrow> engine_error go_error \<Rightarrow> cause option" where
  "join_causes describe publishErr actionErr =
     (case (publishErr, actionErr) of
        (None, None) \<Rightarrow> None
      | (Some c, None) \<Rightarrow> Some (c\<lparr>ca_Tree := Join [ca_Tree c]\<rparr>)
      | (None, Some a) \<Rightarrow> Some \<lparr>ca_Tree = Join [Plain], ca_Text = engine_message describe a, ca_Canceled = False\<rparr>
      | (Some c, Some a) \<Rightarrow>
          Some \<lparr>ca_Tree = Join [ca_Tree c, Plain], ca_Text = ca_Text c @ [CHR 0x0A] @ engine_message describe a,
            ca_Canceled = ca_Canceled c\<rparr>)"

definition reconcile_inspect :: "action_remote \<Rightarrow> env \<Rightarrow> handle \<Rightarrow> task \<Rightarrow> engine \<Rightarrow> engine_error go_error \<times> engine" where
  "reconcile_inspect ar env h t e =
     (let e1 = ar_Window ar e in
      case revalidateTaskAction t TaskActionReconcile e1 of
        Some err \<Rightarrow> (Some err, e1)
      | None \<Rightarrow>
          let nxt = (case ar_Preflight ar t of
                       None \<Rightarrow> t\<lparr>t_BlockedReason := Some BlockedUnknown,
                                  t_Error := Some ''Remote prerequisites are restored; task can be retried''\<rparr>
                     | Some err \<Rightarrow> recordTaskError err t)\<lparr>t_UpdatedAt := env_Now env\<rparr>
          in (case on_db (ResetTaskCancellation t nxt) e1 of
                (Inl err, e2) \<Rightarrow> (Some (StoreFailed err), e2)
              | (Inr _, e2) \<Rightarrow> (None, engine_Event env h (t_ID t) EventOperator (TaskAction_String TaskActionReconcile) e2)))"

text \<open>The publication worker of a reconciliation, from its registration to its exit. None stands for a panic.\<close>

definition reconcile_settle :: "action_remote \<Rightarrow> env \<Rightarrow> handle \<Rightarrow> nat \<Rightarrow> status \<Rightarrow> task \<Rightarrow> (cause, pull_request) result \<Rightarrow> engine \<Rightarrow>
    (engine_error go_error \<times> engine) option" where
  "reconcile_settle ar env h serial previous t outcome e =
     (case outcome of
        Inr pr \<Rightarrow>
          map_option (\<lambda>(r, e'). (case r of Inl err \<Rightarrow> Some err | Inr _ \<Rightarrow> None, e'))
            (publishedWorkerLocked (ar_Merge ar) env h serial t pr e)
      | Inl err \<Rightarrow> Some
          (case commitWorkerTaskLocked env serial ((recordTaskError err t)\<lparr>t_Status := previous\<rparr>) TaskSettlement e of
             (Inl x, e') \<Rightarrow> (Some x, e')
           | (Inr nxt, e') \<Rightarrow> (None, engine_Event env h (t_ID nxt) EventStatus (statusLabel (t_Status nxt)) e')))"

definition reconcile_publish :: "action_remote \<Rightarrow> env \<Rightarrow> handle \<Rightarrow> status \<Rightarrow> task \<Rightarrow> engine \<Rightarrow> (engine_error go_error \<times> engine) option" where
  "reconcile_publish ar env h previous t e =
     (case registerTaskWorker t reconciliationWorker e of
        None \<Rightarrow> None
      | Some (serial, e1) \<Rightarrow>
          let outcome = ar_Publish ar t; describe = mr_Describe (ar_Merge ar) in
          (case reconcile_settle ar env h serial previous t outcome (ar_Window ar e1) of
             None \<Rightarrow> None
           | Some (actionErr, e2) \<Rightarrow>
               let publishErr = (case outcome of Inl err \<Rightarrow> Some err | Inr _ \<Rightarrow> None);
                   e3 = engine_Event env h (t_ID t) EventOperator (TaskAction_String TaskActionReconcile) e2
               in Some (actionErr, finishTaskWorker describe (ar_Initialized ar) (ar_Stopping ar) env h (t_ID t)
                    (join_causes describe publishErr actionErr) e3)))"

definition reconcileLocked :: "action_remote \<Rightarrow> env \<Rightarrow> handle \<Rightarrow> task \<Rightarrow> engine \<Rightarrow> (engine_error go_error \<times> engine) option" where
  "reconcileLocked ar env h t e =
     (if rt_Baseline (en_RT e) \<noteq> None then Some (Some (ActionConflict ''Wait for the baseline check to finish''), e)
      else if 0 < length (rt_Tasks (en_RT e))
      then Some (Some (ActionConflict ''Wait for active tasks before publication reconciliation''), e)
      else if t_OutputCommit t = None then Some (reconcile_inspect ar env h t e)
      else if c_DeliveryMode (t_Config t) \<noteq> c_DeliveryMode (ar_Config ar h e) \<or>
              p_Category (t_Proposal t) \<notin> set (EffectiveCategories (t_Config t))
      then Some (Some (WorkFailed (invalidPlan env
             (''Task '' @ t_ID t @ '' was planned under an incompatible delivery mode or category''))), e)
      else let nxt = t\<lparr>t_Status := StatusPublishing, t_UpdatedAt := env_Now env\<rparr> in
        (case on_db (ResetTaskCancellation t nxt) e of
           (Inl err, e1) \<Rightarrow> Some (Some (StoreFailed err), e1)
         | (Inr _, e1) \<Rightarrow>
             reconcile_publish ar env h (t_Status t) nxt
               (engine_Event env h (t_ID t) EventStatus (statusLabel StatusPublishing) e1)))"

subsection \<open>The two entry points\<close>

definition finish_action :: "env \<Rightarrow> handle \<Rightarrow> string \<Rightarrow> task_action \<Rightarrow> engine_error go_error \<times> task \<times> engine \<Rightarrow> engine_error go_error \<times> engine" where
  "finish_action env h i action r =
     (let (actionErr, t, e) = r in
      if actionErr \<noteq> None then (actionErr, e)
      else (None, engine_Event env h i EventOperator (TaskAction_String action)
              (if action = TaskActionCancel \<or> t_Status t = StatusCancelled
               then on_rt (\<lambda>r. r\<lparr>rt_CancelScanDone := False\<rparr>) e else e)))"

definition apply_action :: "action_remote \<Rightarrow> env \<Rightarrow> handle \<Rightarrow> task_action \<Rightarrow> task \<Rightarrow> engine \<Rightarrow> engine_error go_error \<times> task \<times> engine" where
  "apply_action ar env h action t e =
     (case action of
        TaskActionCancel \<Rightarrow> (let (err, e') = cancelTask env (t_ID t) e in (err, t, e'))
      | TaskActionRetry \<Rightarrow> retryTask ar env h t e
      | TaskActionSupersede \<Rightarrow>
          (let (r, e') = on_db (ResetTaskCancellation t (supersede_next env t)) e in
           (store_result r, if isl r then t else supersede_next env t, e'))
      | TaskActionArchive \<Rightarrow>
          (let (r, e') = on_db (ArchiveTask env t (archive_next env t)) e in
           (store_result r, if isl r then t else archive_next env t, e'))
      | TaskActionDiscard \<Rightarrow> (let (err, e') = discardTask ar env t e in (err, t, e'))
      | TaskActionReconcile \<Rightarrow> (None, t, e))"

definition TaskAction :: "action_remote \<Rightarrow> env \<Rightarrow> handle \<Rightarrow> string \<Rightarrow> task_action \<Rightarrow> engine \<Rightarrow> (engine_error go_error \<times> engine) option" where
  "TaskAction ar env h i action e =
     (if ar_Stopping ar then Some (Some stopped_error, e)
      else case eligibleTask i action e of
          Inl err \<Rightarrow> Some (Some err, e)
        | Inr t \<Rightarrow>
            if action = TaskActionReconcile then reconcileLocked ar env h t e
            else Some (finish_action env h i action (apply_action ar env h action t e)))"

definition CycleAction :: "action_remote \<Rightarrow> env \<Rightarrow> handle \<Rightarrow> string \<Rightarrow> cycle_action \<Rightarrow> engine \<Rightarrow> engine_error go_error \<times> engine" where
  "CycleAction ar env h i action e =
     (if ar_Stopping ar then (Some stopped_error, e)
      else case map_of (tb_Cycles (en_DB e)) i of
          None \<Rightarrow> (Some (ActionNotFound ''Cycle not found''), e)
        | Some c \<Rightarrow>
            if action \<notin> set (CycleActions (cy_Status c) (cy_Lifecycle c)) then
              (Some (ActionConflict
                (if cy_Status c = CycleRunning then ''Wait for planning to finish''
                 else if action = CycleActionArchive then ''The cycle is already archived''
                 else if wl_DiscardedAt (cy_Lifecycle c) \<noteq> None then ''The cycle workspaces were already discarded''
                 else ''Archive the cycle before discarding its workspace'')), e)
            else if cleanupClaimed cleanupCycle i e
            then (Some (ActionConflict ''Workspace cleanup is in progress for this cycle; wait for it to finish''), e)
            else
              let (err, e') =
                (case action of
                   CycleActionArchive \<Rightarrow>
                     (None, e\<lparr>en_DB := put_cycle i (c\<lparr>cy_Lifecycle := (cy_Lifecycle c)\<lparr>wl_ArchivedAt := Some (env_Now env)\<rparr>\<rparr>) (en_DB e)\<rparr>)
                 | CycleActionDiscard \<Rightarrow> discardCycle ar env c e)
              in if err \<noteq> None then (err, e')
                 else (None, engine_Event env h i EventOperator (CycleAction_String action) e'))"

subsection \<open>Requests\<close>

record request_input =
  ri_Title :: string
  ri_Description :: string
  ri_Target :: string

definition request_refusal :: "config \<Rightarrow> request_input \<Rightarrow> engine_error go_error" where
  "request_refusal cfg input =
     (let title = trim_space (ri_Title input); description = trim_space (ri_Description input) in
      if \<not> ValidGitHubRepo (c_GitHubRepo cfg) then Some (ActionConflict ''Save a GitHub repository before requesting work'')
      else if title = [] \<or> 200 < length title \<or> contains_rune is_control title
      then Some (plain_error (''Request title must be 1'' @ [CHR 0xE2, CHR 0x80, CHR 0x93] @ ''200 bytes without control characters''))
      else if description = [] \<or> 8000 < length description \<or> \<not> valid_utf8 description \<or>
              contains_rune (\<lambda>r. is_control r \<and> r \<noteq> 10 \<and> r \<noteq> 9) description
      then Some (plain_error (''Request description must be 1'' @ [CHR 0xE2, CHR 0x80, CHR 0x93] @
             ''8000 bytes without control characters other than newlines and tabs''))
      else if ri_Target input \<noteq> c_DefaultBranch cfg \<and>
              \<not> (has_prefix (ri_Target input) (c_BranchPrefix cfg) \<and> ValidBranch (ri_Target input))
      then Some (plain_error ''Request target must be the default branch or an owned pull request branch'')
      else None)"

definition new_request :: "env \<Rightarrow> config \<Rightarrow> request_input \<Rightarrow> operator_request" where
  "new_request env cfg input =
     \<lparr>rq_ID = env_ID env, rq_Repository = c_GitHubRepo cfg, rq_Title = trim_space (ri_Title input),
      rq_Description = trim_space (ri_Description input), rq_Target = ri_Target input, rq_Status = RequestPending,
      rq_CreatedAt = env_Now env, rq_UpdatedAt = env_Now env, rq_Assessment = None, rq_TaskID = None\<rparr>"

definition App_CreateRequest :: "action_remote \<Rightarrow> env \<Rightarrow> handle \<Rightarrow> request_input \<Rightarrow> engine \<Rightarrow> (engine_error, operator_request) result \<times> engine" where
  "App_CreateRequest ar env h input e =
     (if ar_Stopping ar then (Inl stopped_error, e)
      else let cfg = ar_Config ar h e in
        (case request_refusal cfg input of
           Some err \<Rightarrow> (Inl err, e)
         | None \<Rightarrow>
             let r = new_request env cfg input in
             (case on_db (CreateRequest r (int RequestPendingLimit)) e of
                (Inl ErrRequestLimit, e') \<Rightarrow>
                  (Inl (ActionConflict ''At most 20 requests can wait for planning; withdraw one or let a cycle assess them''), e')
              | (Inl err, e') \<Rightarrow> (Inl (StoreFailed err), e')
              | (Inr _, e') \<Rightarrow> (Inr r, engine_Event env h (rq_ID r) EventRequest (''Requested: '' @ rq_Title r) e'))))"

definition RequestAction :: "action_remote \<Rightarrow> env \<Rightarrow> handle \<Rightarrow> string \<Rightarrow> request_action \<Rightarrow> engine \<Rightarrow> engine_error go_error \<times> engine" where
  "RequestAction ar env h i action e =
     (if ar_Stopping ar then (Some stopped_error, e)
      else if action \<noteq> RequestActionWithdraw then (Some (ActionNotFound ''Unknown request action''), e)
      else case map_of (tb_Requests (en_DB e)) i of
          None \<Rightarrow> (Some (ActionNotFound ''Request not found''), e)
        | Some cur \<Rightarrow>
            if rq_Status cur \<noteq> RequestPending then (Some (ActionConflict ''Only pending requests can be withdrawn''), e)
            else if rt_planning (en_RT e)
            then (Some (ActionConflict ''Wait for planning to finish before withdrawing a request''), e)
            else (case on_db (UpdateRequest \<lparr>ru_Expected = cur,
                        ru_Next = cur\<lparr>rq_Status := RequestWithdrawn, rq_UpdatedAt := env_Now env\<rparr>\<rparr>) e of
                (Inl err, e') \<Rightarrow> (Some (if err = ErrRequestChanged then TaskConflict err else StoreFailed err), e')
              | (Inr _, e') \<Rightarrow> (None, engine_Event env h i EventRequest ''Withdrawn'' e')))"

subsection \<open>Retention\<close>

text \<open>\<open>CleanupEligible\<close>; \<open>ar_Older\<close> is the comparison of two timestamps as Julian days.\<close>

definition CleanupEligible :: "action_remote \<Rightarrow> handle \<Rightarrow> cleanup_kind \<Rightarrow> string \<Rightarrow> string \<Rightarrow> database \<Rightarrow> bool" where
  "CleanupEligible ar h kind i cutoff db =
     (case kind of
        cleanupTask \<Rightarrow>
          (case map_of (tb_Tasks db) i of None \<Rightarrow> False
           | Some t \<Rightarrow>
               wl_DiscardedAt (t_Lifecycle t) = None \<and> in_scope h t \<and>
               (wl_ArchivedAt (t_Lifecycle t) \<noteq> None \<or> t_Status t = StatusPublished) \<and>
               ar_Older ar (case wl_ArchivedAt (t_Lifecycle t) of None \<Rightarrow> t_UpdatedAt t | Some at \<Rightarrow> at) cutoff)
      | cleanupCycle \<Rightarrow>
          (case map_of (tb_Cycles db) i of None \<Rightarrow> False
           | Some c \<Rightarrow>
               wl_DiscardedAt (cy_Lifecycle c) = None \<and> (h_Repo h = [] \<or> EqualASCII (cy_Repository c) (h_Repo h)) \<and>
               (wl_ArchivedAt (cy_Lifecycle c) \<noteq> None \<or> cy_Status c = CycleCompleted \<or> cy_Status c = CycleIdle) \<and>
               ar_Older ar (case wl_ArchivedAt (cy_Lifecycle c) of
                   None \<Rightarrow> (case cy_CompletedAt c of None \<Rightarrow> cy_StartedAt c | Some at \<Rightarrow> at) | Some at \<Rightarrow> at) cutoff)
      | cleanupBaseline \<Rightarrow> False)"

definition retainCandidateLocked :: "action_remote \<Rightarrow> env \<Rightarrow> handle \<Rightarrow> cleanup_kind \<Rightarrow> string \<Rightarrow> string \<Rightarrow> engine \<Rightarrow>
    engine_error go_error \<times> engine" where
  "retainCandidateLocked ar env h kind i cutoff e =
     (if \<not> CleanupEligible ar h kind i cutoff (en_DB e) then (None, e)
      else if kind = cleanupTask then
        (case map_of (tb_Tasks (en_DB e)) i of
           None \<Rightarrow> (None, e)
         | Some t \<Rightarrow>
             if wl_DiscardedAt (t_Lifecycle t) \<noteq> None then (None, e)
             else if Status_Active (t_Status t) \<or> map_of (rt_Tasks (en_RT e)) i \<noteq> None then (None, e)
             else discardTask ar env t e)
      else
        (case map_of (tb_Cycles (en_DB e)) i of
           None \<Rightarrow> (None, e)
         | Some c \<Rightarrow>
             if wl_DiscardedAt (cy_Lifecycle c) \<noteq> None \<or> cy_Status c = CycleRunning then (None, e)
             else discardCycle ar env c e))"

subsection \<open>No action panics\<close>

lemma publishedWorkerLocked_total:
  assumes "t_OutputCommit t \<noteq> None"
  shows "publishedWorkerLocked rem env h serial t pr e \<noteq> None"
proof -
  have "initialMergeState rem env h (published_next env t pr) e \<noteq> None"
    using assms by (auto simp: initialMergeState_def published_next_def Let_def)
  then have "completePublicationLocked rem env h t pr e \<noteq> None"
    by (simp add: completePublicationLocked_def del: not_None_eq split: option.split)
  then show ?thesis by (simp add: publishedWorkerLocked_def del: not_None_eq split: option.split)
qed

lemma reconcile_publish_total:
  assumes "t_OutputCommit t \<noteq> None" and "rt_Tasks (en_RT e) = []"
  shows "reconcile_publish ar env h previous t e \<noteq> None"
proof -
  obtain serial e1 where r: "registerTaskWorker t reconciliationWorker e = Some (serial, e1)"
    using assms(2) by (simp add: registerTaskWorker_def Let_def)
  have "reconcile_settle ar env h serial previous t outcome x \<noteq> None" for outcome x
    using publishedWorkerLocked_total [OF assms(1)] by (simp add: reconcile_settle_def del: not_None_eq split: sum.split)
  then show ?thesis by (auto simp: reconcile_publish_def r Let_def split: option.splits)
qed

text \<open>An operator action on a task always returns: the publication worker a reconciliation registers never meets another worker
  of the task, and the merge state of a reconciled publication never reads a missing output commit.\<close>

lemma task_action_total: "\<exists>err e'. TaskAction ar env h i action e = Some (err, e')"
proof -
  have "reconcileLocked ar env h t e \<noteq> None" for t
  proof (cases "t_OutputCommit t = None \<or> rt_Tasks (en_RT e) \<noteq> []")
    case True
    then show ?thesis by (auto simp: reconcileLocked_def)
  next
    case False
    let ?n = "t\<lparr>t_Status := StatusPublishing, t_UpdatedAt := env_Now env\<rparr>"
    obtain r e1 where o: "on_db (ResetTaskCancellation t ?n) e = (r, e1)" by fastforce
    then have "rt_Tasks (en_RT e1) = []" using False by (auto simp: on_db_def split: prod.splits)
    then have "reconcile_publish ar env h (t_Status t) ?n
        (engine_Event env h (t_ID t) EventStatus (statusLabel StatusPublishing) e1) \<noteq> None"
      using False by (intro reconcile_publish_total) simp_all
    then show ?thesis using False by (auto simp: reconcileLocked_def Let_def o split: sum.splits)
  qed
  then show ?thesis by (auto simp: TaskAction_def split: sum.splits)
qed

subsection \<open>Offered actions are taken\<close>

lemma commit_db_accept:
  assumes "map_of (tb_Tasks db) (t_ID t) = Some t" and "t_ID nxt = t_ID t" and "change \<noteq> TaskSettlement"
    and "ValidateTaskChange t nxt change (marker (tb_Cancel db) (t_ID t) \<noteq> None) = None"
  shows "commit_db t nxt change db = Inr (put_task (t_ID t) nxt db)"
  using assms by (simp add: commit_db_def txCommitTask_def finish_commit_def Let_def)

text \<open>The lifecycle accepts the change of every action the task offers while its workspace exists.\<close>

lemma offered_actions:
  assumes "action \<in> set (AllowedActions t)" and "action \<noteq> TaskActionDiscard"
  shows "wl_ArchivedAt (t_Lifecycle t) = None"
    and "action = TaskActionCancel \<Longrightarrow> t_OutputCommit t = None \<and> t_Status t \<noteq> StatusPublishing \<and> t_Status t \<noteq> StatusPublished"
    and "action = TaskActionRetry \<Longrightarrow> Status_Retryable (t_Status t)"
    and "action = TaskActionSupersede \<Longrightarrow> Status_Retryable (t_Status t) \<or> t_Status t = StatusCancelled"
    and "action = TaskActionArchive \<Longrightarrow> Status_Retryable (t_Status t) \<or> t_Status t = StatusCancelled \<or> t_Status t = StatusPublished"
  using assms by (auto simp: AllowedActions_def Let_def split: if_splits)

lemma retryable_settled: "Status_Retryable s \<Longrightarrow> \<not> Status_Active s \<and> s \<noteq> StatusQueued"
  by (cases s) (simp_all add: Status_Retryable_def Status_Active_iff ActiveStatuses_def)

lemma action_changes_valid:
  assumes "wl_ArchivedAt (t_Lifecycle t) = None" and "wl_DiscardedAt (t_Lifecycle t) = None"
  shows "t_OutputCommit t = None \<Longrightarrow> t_Status t \<noteq> StatusPublishing \<Longrightarrow> t_Status t \<noteq> StatusPublished \<Longrightarrow>
      ValidateTaskChange t (cancel_next env t) TaskCancel marked = None"
    and "Status_Retryable (t_Status t) \<Longrightarrow>
      ValidateTaskChange t (retry_next env (t\<lparr>t_AttemptPolicy := policy\<rparr>)) TaskRetry marked = None"
    and "Status_Retryable (t_Status t) \<or> t_Status t = StatusCancelled \<Longrightarrow>
      ValidateTaskChange t (supersede_next env t) TaskResolve marked = None"
    and "Status_Retryable (t_Status t) \<or> t_Status t = StatusCancelled \<or> t_Status t = StatusPublished \<Longrightarrow>
      ValidateTaskChange t (archive_next env t) TaskArchive marked = None"
  using assms retryable_settled [of "t_Status t"]
  by (auto simp: policy_defs cancel_next_def retry_next_def supersede_next_def archive_next_def Status_Active_iff ActiveStatuses_def Status_Retryable_def)

text \<open>Nothing else works on the task: no merge check of its branch, no cleanup, no worker.\<close>

definition quiet :: "action_remote \<Rightarrow> task \<Rightarrow> engine \<Rightarrow> bool" where
  "quiet ar t e \<longleftrightarrow>
     \<not> ar_Stopping ar \<and> t_Branch t \<notin> set (rt_Merges (en_RT e)) \<and> \<not> cleanupClaimed cleanupTask (t_ID t) e \<and>
     map_of (rt_Tasks (en_RT e)) (t_ID t) = None \<and> map_of (rt_Settlements (en_RT e)) (t_ID t) = None"

lemma eligibleTask_quiet:
  assumes "map_of (tb_Tasks (en_DB e)) (t_ID t) = Some t" and "action \<in> set (AllowedActions t)" and "quiet ar t e"
  shows "eligibleTask (t_ID t) action e = Inr t"
  using assms by (simp add: eligibleTask_def quiet_def)

definition action_next :: "action_remote \<Rightarrow> env \<Rightarrow> handle \<Rightarrow> task_action \<Rightarrow> task \<Rightarrow> engine \<Rightarrow> task" where
  "action_next ar env h action t e =
     (case action of
        TaskActionCancel \<Rightarrow> cancel_next env t
      | TaskActionRetry \<Rightarrow> retry_next env (t\<lparr>t_AttemptPolicy := Some (PolicyOf (ar_Config ar h e))\<rparr>)
      | TaskActionSupersede \<Rightarrow> supersede_next env t
      | TaskActionArchive \<Rightarrow> archive_next env t
      | _ \<Rightarrow> t)"

lemma action_next_ID: "t_ID (action_next ar env h action t e) = t_ID t"
  by (cases action) (simp_all add: action_next_def cancel_next_def retry_next_def supersede_next_def archive_next_def)

text \<open>What an action may still depend on: a retry needs room below the limit and a preflight that passes.\<close>

definition retry_open :: "action_remote \<Rightarrow> handle \<Rightarrow> task_action \<Rightarrow> task \<Rightarrow> engine \<Rightarrow> bool" where
  "retry_open ar h action t e \<longleftrightarrow>
     action \<noteq> TaskActionRetry \<or>
     t_Attempts t < c_MaxRetries (ar_Config ar h e) \<and> ar_Window ar e = e \<and>
     ar_Preflight ar (t\<lparr>t_AttemptPolicy := Some (PolicyOf (ar_Config ar h e))\<rparr>) = None"

lemma apply_action_accepts:
  assumes "map_of (tb_Tasks (en_DB e)) (t_ID t) = Some t" and "action \<in> set (AllowedActions t)"
    and "action \<in> {TaskActionCancel, TaskActionRetry, TaskActionSupersede, TaskActionArchive}"
    and "wl_DiscardedAt (t_Lifecycle t) = None" and "quiet ar t e" and "retry_open ar h action t e"
  shows "\<exists>u e'. apply_action ar env h action t e = (None, u, e') \<and>
     tb_Tasks (en_DB e') = AList.update (t_ID t) (action_next ar env h action t e) (tb_Tasks (en_DB e))"
proof -
  have nd: "action \<noteq> TaskActionDiscard" using assms(3) by auto
  note o = offered_actions [OF assms(2) nd]
  note v = action_changes_valid [OF o(1) assms(4)]
  consider (c) "action = TaskActionCancel" | (r) "action = TaskActionRetry" | (s) "action = TaskActionSupersede"
    | (a) "action = TaskActionArchive" using assms(3) by auto
  then show ?thesis
  proof cases
    case c
    let ?db = "MarkCancel env (t_ID t) (en_DB e)"
    have row: "map_of (tb_Tasks ?db) (t_ID t) = Some t" using assms(1) by (simp add: MarkCancel_def)
    have "commit_db t (cancel_next env t) TaskCancel ?db = Inr (put_task (t_ID t) (cancel_next env t) ?db)"
      using o(2) [OF c] by (intro commit_db_accept row v) (simp_all add: cancel_next_def)
    with o(2) [OF c] row show ?thesis
      by (simp add: apply_action_def c cancelTask_def CancelTask_def on_db_def runTx_def action_next_def)
        (simp add: MarkCancel_def)
  next
    case r
    let ?n = "t\<lparr>t_AttemptPolicy := Some (PolicyOf (ar_Config ar h e))\<rparr>"
    have "commit_db t (retry_next env ?n) TaskRetry (put_cancel (t_ID t) None (en_DB e)) =
        Inr (put_task (t_ID t) (retry_next env ?n) (put_cancel (t_ID t) None (en_DB e)))"
      using assms(1) o(3) [OF r] by (intro commit_db_accept v) (simp_all add: retry_next_def)
    then have "\<exists>u e'. retry_commit env h t ?n e = (None, u, e') \<and> tb_Tasks (en_DB e') = AList.update (t_ID t) (retry_next env ?n) (tb_Tasks (en_DB e))"
      by (simp add: retry_commit_def RetryTask_def on_db_def runTx_def retry_next_def)
    moreover have "revalidateTaskAction t TaskActionRetry e = None"
      using eligibleTask_quiet [OF assms(1) _ assms(5)] assms(2) r by (simp add: revalidateTaskAction_def)
    ultimately show ?thesis using assms(6) o(3) [OF r]
      by (simp add: apply_action_def r retryTask_def retry_open_def Let_def action_next_def not_le)
  next
    case s
    have "commit_db t (supersede_next env t) TaskResolve (put_cancel (t_ID t) None (en_DB e)) =
        Inr (put_task (t_ID t) (supersede_next env t) (put_cancel (t_ID t) None (en_DB e)))"
      using assms(1) o(4) [OF s] by (intro commit_db_accept v) (simp_all add: supersede_next_def)
    then show ?thesis
      by (simp add: apply_action_def s ResetTaskCancellation_def on_db_def runTx_def store_result_def action_next_def supersede_next_def)
  next
    case a
    have "commit_db t (archive_next env t) TaskArchive (en_DB e) = Inr (put_task (t_ID t) (archive_next env t) (en_DB e))"
      using assms(1) o(5) [OF a] by (intro commit_db_accept v) (simp_all add: archive_next_def)
    then show ?thesis
      by (simp add: apply_action_def a ArchiveTask_def on_db_def runTx_def store_result_def action_next_def)
  qed
qed


definition sample_actions :: action_remote where
  "sample_actions = \<lparr>ar_Merge = sample_remote, ar_DataDir = ''/data'', ar_Stopping = False, ar_Window = (\<lambda>e. e), ar_Preflight = (\<lambda>_. None),
     ar_Publish = (\<lambda>_. Inl unexpected_exit), ar_Remove = (\<lambda>_ _. None), ar_UUID = (\<lambda>_. True), ar_Initialized = (\<lambda>_. False),
     ar_Older = (\<lambda>_ _. True)\<rparr>"


text \<open>C37: A published or cancelled task whose workspace was discarded before it was archived still offers the archive action, but
  the action always fails: the store refuses the change, because a record with a discarded workspace takes no archive change, and
  the state stays as it was. Retention brings published tasks into this state.\<close>

theorem archive_after_discard_refused:
  assumes "map_of (tb_Tasks (en_DB e)) i = Some t" and "t_ID t = i" and "t_Status t = StatusPublished \<or> t_Status t = StatusCancelled"
    and "wl_DiscardedAt (t_Lifecycle t) \<noteq> None" and "wl_ArchivedAt (t_Lifecycle t) = None" and "quiet ar t e"
  shows "TaskActionArchive \<in> set (AllowedActions t) \<and>
     TaskAction ar env h i TaskActionArchive e = Some (Some (StoreFailed (ErrTaskInvalid WorkspacesIneligible)), e)"
proof -
  have a: "TaskActionArchive \<in> set (AllowedActions t)" using assms(3,5) by (auto simp: AllowedActions_def)
  have row: "map_of (tb_Tasks (en_DB e)) (t_ID t) = Some t" using assms(1,2) by simp
  have "ValidateTaskChange t (archive_next env t) TaskArchive marked = Some WorkspacesIneligible" for marked
    using assms(4) by (simp add: ValidateTaskChange_def archive_next_def)
  then have "commit_db t (archive_next env t) TaskArchive (en_DB e) = Inl (ErrTaskInvalid WorkspacesIneligible)"
    using row by (simp add: commit_db_def txCommitTask_def finish_commit_def archive_next_def)
  then have "apply_action ar env h TaskActionArchive t e = (Some (StoreFailed (ErrTaskInvalid WorkspacesIneligible)), t, e)"
    by (simp add: apply_action_def ArchiveTask_def on_db_def runTx_def store_result_def)
  moreover have "eligibleTask i TaskActionArchive e = Inr t" using eligibleTask_quiet [OF row a assms(6)] assms(2) by simp
  moreover have "\<not> ar_Stopping ar" using assms(6) by (simp add: quiet_def)
  ultimately show ?thesis using a by (simp add: TaskAction_def finish_action_def)
qed

definition retained :: engine where
  "retained = snd (retainCandidateLocked sample_actions sample_env root_handle cleanupTask ''t1'' ''2025-03-01T00:00:00Z''
     (idle_engine merge_db))"

theorem archive_after_discard_refused_witness:
  "TaskAction sample_actions sample_env root_handle ''t1'' TaskActionArchive retained =
     Some (Some (StoreFailed (ErrTaskInvalid WorkspacesIneligible)), retained)"
proof -
  let ?t = "sample_published\<lparr>t_Lifecycle := \<lparr>wl_ArchivedAt = None, wl_DiscardedAt = Some (env_Now sample_env)\<rparr>,
    t_UpdatedAt := env_Now sample_env\<rparr>"
  have r: "retained = idle_engine (merge_db\<lparr>tb_Tasks := [(''t1'', ?t)]\<rparr>)"
    by (simp add: retained_def retainCandidateLocked_def CleanupEligible_def discardTask_def commit_discard_def commitTaskLocked_def
        CommitTask_def on_db_def runTx_def txCommitTask_def finish_commit_def policy_defs clearCleanupReport_def in_scope_def
        root_handle_def sample_actions_def idle_engine_def idle_runtime_def merge_db_def put_task_def
        sample_published_def sample_publishing_def sample_reviewing_def sample_executing_def sample_task_def)
  have "map_of (tb_Tasks (en_DB retained)) ''t1'' = Some ?t" "t_ID ?t = ''t1''" "t_Status ?t = StatusPublished \<or> t_Status ?t = StatusCancelled"
    "wl_DiscardedAt (t_Lifecycle ?t) \<noteq> None" "wl_ArchivedAt (t_Lifecycle ?t) = None" "quiet sample_actions ?t retained"
    by (simp_all add: r idle_engine_def idle_runtime_def quiet_def cleanupClaimed_def sample_actions_def
        sample_published_def sample_publishing_def sample_reviewing_def sample_executing_def sample_task_def)
  from archive_after_discard_refused [OF this] show ?thesis by blast
qed

end
