(* ===== verification/Engine_Control.thy ===== *)
theory Engine_Control
  imports Engine_Actions
begin

text \<open>
  Operator controls: \<open>internal/engine/eligibility.go\<close>, \<open>controls.go\<close>, \<open>timeouts.go\<close>, \<open>deployment.go\<close> and the operating-mode writes of
  \<open>scheduler.go\<close>. A conflict carries its message; the machine code beside it is not modelled. The clock, the environment checks and the decoding of a
  configuration patch are fields of a parameter record, and \<open>cn_Window\<close> stands for what other operations do while the gate is
  released.
\<close>

record control_remote =
  cn_Pin :: "config \<Rightarrow> config"
  cn_Fingerprint :: "config \<Rightarrow> string"
  cn_Exists :: "string \<Rightarrow> bool"
  cn_Describe :: "config_error \<Rightarrow> string"
  cn_Message :: "engine_error \<Rightarrow> string"
  cn_Stopping :: bool
  cn_Day :: string
  cn_NextReset :: int
  cn_Unix :: int
  cn_Clock :: int
  cn_Preflight :: "config \<Rightarrow> bool \<Rightarrow> cause option"
  cn_Sandbox :: "cause option"
  cn_Window :: "engine \<Rightarrow> engine"

definition cn_Config :: "control_remote \<Rightarrow> handle \<Rightarrow> engine \<Rightarrow> config" where
  "cn_Config cn h e = engine_Config (cn_Pin cn) h e"

definition PlanningCapacity :: "control_remote \<Rightarrow> env \<Rightarrow> handle \<Rightarrow> engine \<Rightarrow> planning_capacity" where
  "PlanningCapacity cn env h e = planningCapacityAt env h (cn_Day cn) (cn_NextReset cn) (en_DB e)"

subsection \<open>Deployment and timeouts\<close>

record deployment =
  dp_Repository :: string
  dp_GitHubRepo :: string

definition deployment_pin :: "deployment \<Rightarrow> config \<Rightarrow> config" where
  "deployment_pin d cfg =
     (if dp_Repository d \<noteq> [] then cfg\<lparr>c_Repository := dp_Repository d, c_GitHubRepo := dp_GitHubRepo d\<rparr> else cfg)"

definition deployment_check :: "deployment \<Rightarrow> config \<Rightarrow> bool" where
  "deployment_check d cfg \<longleftrightarrow>
     \<not> (dp_Repository d \<noteq> [] \<and>
        (\<not> SamePath (c_Repository cfg) (dp_Repository d) \<or> \<not> EqualASCII (c_GitHubRepo cfg) (dp_GitHubRepo d)))"

definition VerificationGraceSeconds :: u64 where
  "VerificationGraceSeconds = 60"

text \<open>The two refusals of \<open>validateSandboxTimeouts\<close>; a limit of zero is host mode.\<close>

datatype timeout_error = SessionTooLong u64 u64 | CommandTooLong u64 u64

definition validateSandboxTimeouts :: "config \<Rightarrow> u64 \<Rightarrow> timeout_error go_error" where
  "validateSandboxTimeouts cfg limit =
     (if limit = 0 then None
      else if limit < c_SessionTimeoutSeconds cfg then Some (SessionTooLong (c_SessionTimeoutSeconds cfg) limit)
      else if limit \<le> VerificationGraceSeconds \<or> limit - VerificationGraceSeconds < c_CommandTimeoutSeconds cfg
      then Some (CommandTooLong (c_CommandTimeoutSeconds cfg) limit)
      else None)"

subsection \<open>Eligibility\<close>

record operation_activity =
  oa_Idle :: bool
  oa_Audit :: bool
  oa_Baseline :: bool

definition operationActivity :: "engine \<Rightarrow> operation_activity" where
  "operationActivity e =
     \<lparr>oa_Idle = rt_idle (en_RT e), oa_Audit = rt_auditActive (en_RT e), oa_Baseline = (rt_Baseline (en_RT e) \<noteq> None)\<rparr>"

definition controlBlocker :: "control_action \<Rightarrow> control \<Rightarrow> operation_activity \<Rightarrow> string option" where
  "controlBlocker action ct activity =
     (let refused =
        ((action = ControlAudit \<or> action = ControlCycle) \<and> (\<not> ct_Paused ct \<or> \<not> oa_Idle activity) \<or>
         (action = ControlResume \<or> action = ControlCycle) \<and> oa_Audit activity \<or>
         action = ControlResume \<and> oa_Baseline activity)
      in if \<not> refused then None
         else if oa_Baseline activity then Some ''Wait for the baseline check to finish.''
         else if action = ControlAudit
         then Some ''Audits require paused operation with no active work. Pause the service and wait for active work to finish.''
         else if action = ControlCycle
         then Some ''Run once requires paused operation with no active work. Pause the service and wait for active work to finish.''
         else Some ''Wait for the audit to finish before starting continuous operation.'')"

definition recovery_blocked_message :: string where
  "recovery_blocked_message = ''Wait for saved-state recovery to finish before starting new work.''"

record capability =
  cp_Allowed :: bool
  cp_Reason :: string

definition refuse :: "string \<Rightarrow> capability" where
  "refuse reason = \<lparr>cp_Allowed = False, cp_Reason = reason\<rparr>"

definition operation_capability :: "control_remote \<Rightarrow> control \<Rightarrow> config \<Rightarrow> operation_activity \<Rightarrow> string option \<Rightarrow> planning_capacity \<Rightarrow>
    control_action \<Rightarrow> capability" where
  "operation_capability cn ct cfg activity recovery capacity action =
     (if action \<noteq> ControlPause \<and> recovery \<noteq> None then refuse recovery_blocked_message
      else case controlBlocker action ct activity of
          Some reason \<Rightarrow> refuse reason
        | None \<Rightarrow>
            if action = ControlPause \<and> oa_Audit activity \<and> recovery = None then refuse ''Wait for the audit to finish.''
            else if action = ControlPause then \<lparr>cp_Allowed = True, cp_Reason = []\<rparr>
            else (case (if action = ControlAudit then ValidateAudit (cn_Exists cn) cfg else Validate (cn_Exists cn) cfg True) of
                Some err \<Rightarrow> refuse (cn_Describe cn err)
              | None \<Rightarrow>
                  (case (if action = ControlCycle \<or> action = ControlAudit then Capacity_EnsureAvailable capacity else None) of
                     Some (message, reason) \<Rightarrow> refuse (message @ '': '' @ BlockedReason_Error reason)
                   | None \<Rightarrow> \<lparr>cp_Allowed = True, cp_Reason = []\<rparr>)))"

record capabilities_view =
  cv_Pause :: capability
  cv_Resume :: capability
  cv_Cycle :: capability
  cv_Audit :: capability
  cv_Configure :: capability

definition capabilities :: "control_remote \<Rightarrow> control \<Rightarrow> config \<Rightarrow> operation_activity \<Rightarrow> string option \<Rightarrow> planning_capacity \<Rightarrow>
    capabilities_view" where
  "capabilities cn ct cfg activity recovery capacity =
     (let op = operation_capability cn ct cfg activity recovery capacity in
      \<lparr>cv_Pause = op ControlPause, cv_Resume = op ControlResume, cv_Cycle = op ControlCycle, cv_Audit = op ControlAudit,
       cv_Configure = (if ct_Paused ct \<and> oa_Idle activity then \<lparr>cp_Allowed = True, cp_Reason = []\<rparr>
                       else refuse ''Pause and wait for active work to finish before changing configuration.'')\<rparr>)"

subsection \<open>Operating modes\<close>

definition idleDelay :: "u64 \<Rightarrow> 32 word \<Rightarrow> u64" where
  "idleDelay base streak =
     (let ceiling = max 86400 base in
      if streak \<le> 1 then base
      else let shift = unat (min (streak - 1) 16) in
        if drop_bit shift (- 1) < base then ceiling
        else min (push_bit shift base) ceiling)"

definition pauseLocked :: "handle \<Rightarrow> string option \<Rightarrow> control \<Rightarrow> engine \<Rightarrow> control \<times> engine" where
  "pauseLocked h message ct e =
     (let paused = (SetMode OperatingModePaused ct)\<lparr>ct_Error := (if message \<noteq> None then message else ct_Error ct)\<rparr>
      in (paused, invalidatePRs (e\<lparr>en_DB := SaveControl h paused (en_DB e)\<rparr>)))"

definition controlConflict :: "control_action \<Rightarrow> control \<Rightarrow> engine \<Rightarrow> engine_error go_error" where
  "controlConflict action ct e =
     (if (action = ControlAudit \<or> action = ControlCycle \<or> action = ControlResume) \<and> recoveryConflict e \<noteq> None
      then recoveryConflict e
      else map_option ActionConflict (controlBlocker action ct (operationActivity e)))"

definition enterContinuous :: "control_remote \<Rightarrow> handle \<Rightarrow> control \<Rightarrow> engine \<Rightarrow> (engine_error, control) result \<times> engine" where
  "enterContinuous cn h ct e =
     (case Validate (cn_Exists cn) (cn_Config cn h e) True of
        Some err \<Rightarrow> (Inl (plain_error (cn_Describe cn err)), e)
      | None \<Rightarrow>
          let nxt = (SetMode OperatingModeContinuous ct)\<lparr>ct_Error := None, ct_NextCycleAt := 0\<rparr>
          in (Inr nxt, e\<lparr>en_DB := SaveControl h nxt (en_DB e)\<rparr>))"

definition capacity_refusal :: "planning_capacity \<Rightarrow> engine_error go_error" where
  "capacity_refusal capacity =
     map_option (\<lambda>(message, reason). WorkFailed
         \<lparr>ca_Tree = Wrap (Reason reason), ca_Text = message @ '': '' @ BlockedReason_Error reason, ca_Canceled = False\<rparr>)
       (Capacity_EnsureAvailable capacity)"

definition startRunOnceBatch :: "control_remote \<Rightarrow> env \<Rightarrow> handle \<Rightarrow> control \<Rightarrow> engine \<Rightarrow> (engine_error, control) result \<times> engine" where
  "startRunOnceBatch cn env h ct e =
     (let (capacity, r, db) = StartBatch env h ct (cn_Day cn) (cn_NextReset cn) (en_DB e); e' = e\<lparr>en_DB := db\<rparr> in
      case r of
        Inl err \<Rightarrow> (Inl (StoreFailed err), e')
      | Inr (Some nxt) \<Rightarrow> (Inr nxt, e')
      | Inr None \<Rightarrow>
          (case capacity_refusal capacity of
             Some err \<Rightarrow> (Inl err, e')
           | None \<Rightarrow> (Inl (ActionConflict ''Control state changed; try again''), e')))"

subsection \<open>Beginning a cycle\<close>

definition sameOperatorControl :: "control \<Rightarrow> control \<Rightarrow> bool" where
  "sameOperatorControl a b \<longleftrightarrow>
     a\<lparr>ct_ContextFingerprint := [], ct_IdleStreak := 0, ct_NextCycleAt := 0\<rparr> =
     b\<lparr>ct_ContextFingerprint := [], ct_IdleStreak := 0, ct_NextCycleAt := 0\<rparr>"

text \<open>The error for missing capacity is one the scheduler tells apart from all others.\<close>

datatype begin_error = NoCapacity planning_capacity | BeginRefused engine_error

definition cycle_refusal :: "handle \<Rightarrow> control \<Rightarrow> cycle_mode \<Rightarrow> engine \<Rightarrow> engine_error go_error" where
  "cycle_refusal h live mode e =
     (if mode \<noteq> CycleModeExecution then None
      else if ct_Mode live = OperatingModeRunOnce then
        (case ct_Batch live of
           None \<Rightarrow> Some (plain_error ''Run once is not ready to plan'')
         | Some batch \<Rightarrow>
             if b_Phase batch \<noteq> BatchPhaseDraining then Some (plain_error ''Run once is not ready to plan'')
             else if BatchCounts (b_ID batch) (en_DB e) \<noteq> (0, 0)
             then Some (plain_error ''Run-once work changed during planning preflight'') else None)
      else if list_ex (\<lambda>t. t_Status t = StatusQueued \<or> Status_Active (t_Status t)) (SchedulingTasks h None (en_DB e))
      then Some (plain_error ''Queued work appeared during planning preflight'') else None)"

definition cycle_control :: "string \<Rightarrow> cycle_mode \<Rightarrow> control \<Rightarrow> control" where
  "cycle_control i mode live =
     (let nxt = live\<lparr>ct_CycleNumber := ct_CycleNumber live + 1, ct_Error := None\<rparr> in
      if mode = CycleModeExecution \<and> ct_Mode nxt = OperatingModeRunOnce
      then nxt\<lparr>ct_Batch := map_option (\<lambda>b. b\<lparr>b_Phase := BatchPhasePlanning, b_CycleID := Some i\<rparr>) (ct_Batch nxt)\<rparr> else nxt)"

definition new_cycle :: "env \<Rightarrow> config \<Rightarrow> cycle_mode \<Rightarrow> control \<Rightarrow> cycle" where
  "new_cycle env cfg mode ct =
     \<lparr>cy_Mode = mode, cy_DeliveryMode = c_DeliveryMode cfg, cy_ID = env_ID env, cy_Number = ct_CycleNumber ct,
      cy_Status = CycleRunning, cy_StartedAt = env_Now env, cy_CompletedAt = None, cy_Grounding = None, cy_Proposals = [],
      cy_Assessments = [], cy_Sessions = [], cy_Error = None, cy_Repository = c_GitHubRepo cfg, cy_DecisionMemory = [],
      cy_RunID = (if ct_Mode ct = OperatingModeRunOnce then map_option b_ID (ct_Batch ct) else None),
      cy_Lifecycle = \<lparr>wl_ArchivedAt = None, wl_DiscardedAt = None\<rparr>\<rparr>"

definition beginCycle :: "control_remote \<Rightarrow> env \<Rightarrow> handle \<Rightarrow> config \<Rightarrow> control \<Rightarrow> cycle_mode \<Rightarrow> engine \<Rightarrow>
    (begin_error, string) result \<times> engine" where
  "beginCycle cn env h cfg expected mode e =
     (if cn_Stopping cn then (Inl (BeginRefused stopped_error), e)
      else if recoveryConflict e \<noteq> None then (Inl (BeginRefused RecoveryBlocked), e)
      else if rt_Cycle (en_RT e) \<noteq> None \<or> 0 < length (rt_Tasks (en_RT e))
      then (Inl (BeginRefused (ActionConflict ''Work started during planning preflight'')), e)
      else let live = engine_Control h e in
        if \<not> sameOperatorControl live expected
        then (Inl (BeginRefused (ActionConflict ''Control state changed during planning preflight'')), e)
        else case cycle_refusal h live mode e of
            Some err \<Rightarrow> (Inl (BeginRefused err), e)
          | None \<Rightarrow>
              let i = env_ID env; nxt = cycle_control i mode live;
                  (capacity, r, db) = BeginCycle (cn_Fingerprint cn) env h (new_cycle env cfg mode nxt) nxt live
                    (cn_Fingerprint cn cfg) (cn_Day cn) (cn_NextReset cn) (en_DB e);
                  e' = e\<lparr>en_DB := db\<rparr>
              in (case r of
                    Inl err \<Rightarrow> (Inl (BeginRefused (StoreFailed err)), e')
                  | Inr None \<Rightarrow>
                      (Inl (if Capacity_Available capacity
                            then BeginRefused (ActionConflict ''Configuration or control state changed during planning preflight'')
                            else NoCapacity capacity), e')
                  | Inr (Some _) \<Rightarrow> (Inr i, on_rt (\<lambda>r. r\<lparr>rt_Preflight := None, rt_Cycle := Some (i, mode)\<rparr>) e')))"

subsection \<open>Audits\<close>

definition admitAuditPreflight :: "control_remote \<Rightarrow> env \<Rightarrow> handle \<Rightarrow> engine \<Rightarrow> (engine_error, config \<times> control) result \<times> engine" where
  "admitAuditPreflight cn env h e =
     (if cn_Stopping cn then (Inl stopped_error, e)
      else if recoveryConflict e \<noteq> None then (Inl RecoveryBlocked, e)
      else if \<not> rt_idle (en_RT e) then (Inl (ActionConflict ''Octomus has active work''), e)
      else let cfg = cn_Config cn h e; ct = engine_Control h e in
        (case ValidateAudit (cn_Exists cn) cfg of
           Some err \<Rightarrow> (Inl (plain_error (cn_Describe cn err)), e)
         | None \<Rightarrow>
             if ct_Mode ct \<noteq> OperatingModePaused then (Inl (ActionConflict ''Octomus must be paused for this operation''), e)
             else (case capacity_refusal (PlanningCapacity cn env h e) of
                 Some err \<Rightarrow> (Inl err, e)
               | None \<Rightarrow> (Inr (cfg, ct), on_rt (startPreflight CycleModeAudit) e))))"

definition begin_message :: "begin_error \<Rightarrow> engine_error" where
  "begin_message err =
     (case err of
        BeginRefused x \<Rightarrow> x
      | NoCapacity capacity \<Rightarrow> WorkFailed \<lparr>ca_Tree = Wrap (Reason BlockedBudgetExhausted), ca_Text = Capacity_Message capacity,
          ca_Canceled = False\<rparr>)"

definition startAudit :: "control_remote \<Rightarrow> env \<Rightarrow> handle \<Rightarrow> engine \<Rightarrow> (engine_error, string) result \<times> engine" where
  "startAudit cn env h e =
     (case admitAuditPreflight cn env h e of
        (Inl err, e1) \<Rightarrow> (Inl err, e1)
      | (Inr (cfg, ct), e1) \<Rightarrow>
          let e2 = cn_Window cn e1 in
          (case cn_Preflight cn cfg True of
             Some err \<Rightarrow> (Inl (WorkFailed err), endPreflight e2)
           | None \<Rightarrow>
               (case beginCycle cn env h cfg ct CycleModeAudit e2 of
                  (Inl err, e3) \<Rightarrow> (Inl (begin_message err), endPreflight e3)
                | (Inr i, e3) \<Rightarrow> (Inr i, engine_Event env h i EventOperator ''Audit started'' e3))))"

definition ControlAction :: "control_remote \<Rightarrow> env \<Rightarrow> handle \<Rightarrow> control_action \<Rightarrow> engine \<Rightarrow>
    (engine_error, control \<times> planning_capacity option) result \<times> engine" where
  "ControlAction cn env h action e =
     (if cn_Stopping cn
      then (Inl (ActionConflict ''The repository service has stopped; reload before changing controls''), e)
      else let ct = engine_Control h e in
        (case controlConflict action ct e of
           Some err \<Rightarrow> (Inl err, e)
         | None \<Rightarrow>
           let finish = (\<lambda>c capacity e'. (Inr (c, capacity), engine_Event env h ''system'' EventOperator (ControlAction_String action) e')) in
           (case action of
              ControlAudit \<Rightarrow>
                (case startAudit cn env h e of
                   (Inl err, e') \<Rightarrow> (Inl err, e')
                 | (Inr _, e') \<Rightarrow> (Inr (engine_Control h e', None), e'))
            | ControlPause \<Rightarrow> (let (c, e') = pauseLocked h None ct e in finish c None e')
            | ControlResume \<Rightarrow>
                (let capacity = PlanningCapacity cn env h e in
                 case enterContinuous cn h ct e of
                   (Inl err, e') \<Rightarrow> (Inl err, e')
                 | (Inr c, e') \<Rightarrow> finish c (Some capacity) e')
            | ControlCycle \<Rightarrow>
                (case Validate (cn_Exists cn) (cn_Config cn h e) True of
                   Some err \<Rightarrow> (Inl (plain_error (cn_Describe cn err)), e)
                 | None \<Rightarrow>
                     (case startRunOnceBatch cn env h ct e of
                        (Inl err, e') \<Rightarrow> (Inl err, e')
                      | (Inr c, e') \<Rightarrow> finish c None e')))))"

subsection \<open>The idle delay\<close>

lemma unat_all_ones: "unat (- 1 :: u64) = 2 ^ 64 - 1"
  by (simp add: unsigned_minus_1_eq_mask mask_eq_exp_minus_1)

lemma shift_exact:
  fixes base :: u64
  assumes "unat base * 2 ^ k < 2 ^ 64"
  shows "unat (push_bit k base) = unat base * 2 ^ k"
proof -
  have "unat (push_bit k base) = take_bit 64 (push_bit k (unat base))" by (simp add: unsigned_push_bit_eq)
  also have "\<dots> = (unat base * 2 ^ k) mod 2 ^ 64" by (simp add: take_bit_eq_mod push_bit_eq_mult)
  finally show ?thesis using assms by simp
qed

lemma shift_guard:
  fixes base :: u64
  shows "drop_bit k (- 1) < base \<longleftrightarrow> 2 ^ 64 \<le> unat base * 2 ^ k"
proof -
  have "unat (drop_bit k (- 1 :: u64)) = (2 ^ 64 - 1) div 2 ^ k"
    by (subst unat_drop_bit_eq) (simp only: unat_all_ones drop_bit_eq_div)
  then have "drop_bit k (- 1) < base \<longleftrightarrow> (2 ^ 64 - 1) div 2 ^ k < unat base" by (simp only: word_less_nat_alt)
  also have "\<dots> \<longleftrightarrow> 2 ^ 64 - 1 < unat base * 2 ^ k" by (simp add: div_less_iff_less_mult)
  finally show ?thesis by auto
qed

lemma streak_shift: "\<not> streak \<le> 1 \<Longrightarrow> unat (min (streak - 1) 16 :: 32 word) = min 16 (unat streak - 1)"
  by (simp add: min_def word_le_nat_alt unat_sub)

text \<open>The delay before the next planning cycle after a streak of idle cycles is the interval doubled once for every idle cycle
  after the first, sixteen times at most, and never more than a day or the interval itself; computed in 64-bit
  arithmetic, it is exactly that number, whatever the interval and the streak.\<close>

lemma idle_delay_exact:
  "unat (idleDelay base streak) = min (unat base * 2 ^ min 16 (unat streak - 1)) (max 86400 (unat base))"
proof (cases "streak \<le> 1")
  case True
  then have "unat streak - 1 = 0" by (simp add: word_le_nat_alt)
  then show ?thesis using True by (simp add: idleDelay_def)
next
  case False
  let ?k = "min 16 (unat streak - 1)"
  have c: "unat (max 86400 base) = max 86400 (unat base)" by (simp add: max_def word_le_nat_alt)
  have k: "unat (min (streak - 1) 16) = ?k" using streak_shift [OF False] .
  have b: "unat base < 2 ^ 64" using unsigned_less [of base, where ?'a = nat] by simp
  show ?thesis
  proof (cases "drop_bit ?k (- 1) < base")
    case True
    then have "2 ^ 64 \<le> unat base * 2 ^ ?k" using shift_guard by blast
    moreover have "max 86400 (unat base) \<le> 2 ^ 64" using b by simp
    ultimately have "max 86400 (unat base) \<le> unat base * 2 ^ ?k" by (rule le_trans [rotated])
    then show ?thesis using False True by (simp add: idleDelay_def Let_def k c)
  next
    case small: False
    then have "unat base * 2 ^ ?k < 2 ^ 64" using shift_guard by (metis not_le)
    then have "unat (min (push_bit ?k base) (max 86400 base)) = min (unat base * 2 ^ ?k) (max 86400 (unat base))"
      using shift_exact c by (auto simp: min_def word_le_nat_alt)
    then show ?thesis using False small by (simp add: idleDelay_def Let_def k)
  qed
qed

end
