(* ===== verification/Engine_Scheduler.thy ===== *)
theory Engine_Scheduler
  imports Engine_Control
begin

text \<open>
  The scheduling pass: \<open>tick\<close> and the planning start of \<open>internal/engine/scheduler.go\<close>, restart recovery (\<open>recovery.go\<close>), the order of
  planning admissions (\<open>planning_order.go\<close>), the failure log of \<open>engine.go\<close> and the start of housekeeping. Workers the pass starts run as
  their own steps: \<open>startPlanning\<close> registers the preflight and \<open>planning_done\<close> is its completion.
\<close>

subsection \<open>Run once\<close>

definition finishRunOnce :: "control_remote \<Rightarrow> env \<Rightarrow> handle \<Rightarrow> control \<Rightarrow> nat \<Rightarrow> engine \<Rightarrow> engine" where
  "finishRunOnce cn env h ct unresolved e =
     (if cn_Stopping cn then e
      else engine_Event env h ''system'' EventRunComplete
        (if 0 < unresolved then ''Run once finished with unresolved work'' else ''Run once completed; new work paused'')
        (snd (pauseLocked h None ct e)))"

definition settleRunOnce :: "control_remote \<Rightarrow> env \<Rightarrow> handle \<Rightarrow> control \<Rightarrow> run_batch \<Rightarrow> nat \<Rightarrow> engine \<Rightarrow> engine" where
  "settleRunOnce cn env h ct batch unresolved e =
     (if 0 < BatchMergeWait (b_ID batch) (en_DB e) then
        (if b_Phase batch \<noteq> BatchPhaseMerging
         then e\<lparr>en_DB := SaveControl h (ct\<lparr>ct_Batch := Some (batch\<lparr>b_Phase := BatchPhaseMerging\<rparr>)\<rparr>) (en_DB e)\<rparr> else e)
      else finishRunOnce cn env h ct unresolved e)"

subsection \<open>Starting to plan\<close>

definition waitForCapacity :: "control_remote \<Rightarrow> env \<Rightarrow> handle \<Rightarrow> control \<Rightarrow> planning_capacity \<Rightarrow> engine \<Rightarrow> engine" where
  "waitForCapacity cn env h ct capacity e =
     (if cn_Stopping cn then e
      else if ct_Mode ct = OperatingModeContinuous then
        (if ct_BudgetWaiting ct \<and> ct_NextCycleAt ct = pc_NextResetAt capacity then e
         else e\<lparr>en_DB := SaveControl h (ct\<lparr>ct_Error := None, ct_NextCycleAt := pc_NextResetAt capacity, ct_BudgetWaiting := True\<rparr>)
                (en_DB e)\<rparr>)
      else engine_Event env h ''system'' EventPlanningCapacity (Capacity_Message capacity)
             (snd (pauseLocked h (Some (Capacity_Message capacity)) ct e)))"

definition startPlanning :: "control_remote \<Rightarrow> env \<Rightarrow> handle \<Rightarrow> control \<Rightarrow> engine \<Rightarrow> engine" where
  "startPlanning cn env h ct e =
     (if cn_Stopping cn \<or> \<not> rt_idle (en_RT e) then e
      else let capacity = PlanningCapacity cn env h e in
        if \<not> Capacity_Available capacity then waitForCapacity cn env h ct capacity e
        else on_rt (startPreflight CycleModeExecution) e)"

text \<open>The preflight worker, once its checks and its turn are over: \<open>err\<close> is their outcome.\<close>

definition planning_failed :: "control_remote \<Rightarrow> env \<Rightarrow> handle \<Rightarrow> config \<Rightarrow> control \<Rightarrow> begin_error \<Rightarrow> engine \<Rightarrow> engine" where
  "planning_failed cn env h cfg expected err e =
     (let e1 = endPreflight e; live = engine_Control h e1;
          message = cn_Message cn (begin_message err) in
      if cn_Stopping cn \<or> err = BeginRefused RecoveryBlocked \<or> \<not> sameOperatorControl live expected then e1
      else case err of
          NoCapacity capacity \<Rightarrow> waitForCapacity cn env h live capacity e1
        | BeginRefused _ \<Rightarrow>
            if ct_Mode live = OperatingModeRunOnce
            then engine_Event env h ''system'' EventPlanningError message (snd (pauseLocked h (Some message) live e1))
            else if ct_Mode live = OperatingModeContinuous
            then engine_Event env h ''system'' EventPlanningError message
                   (e1\<lparr>en_DB := SaveControl h (live\<lparr>ct_Error := Some message, ct_BudgetWaiting := False,
                      ct_NextCycleAt := cn_Unix cn + sint (c_CycleIntervalSeconds cfg)\<rparr>) (en_DB e1)\<rparr>)
            else e1)"

definition planning_done :: "control_remote \<Rightarrow> env \<Rightarrow> handle \<Rightarrow> config \<Rightarrow> control \<Rightarrow> cause option \<Rightarrow> engine \<Rightarrow> engine" where
  "planning_done cn env h cfg expected err e =
     (case err of
        Some c \<Rightarrow> planning_failed cn env h cfg expected (BeginRefused (WorkFailed c)) e
      | None \<Rightarrow>
          (case beginCycle cn env h cfg expected CycleModeExecution e of
             (Inr _, e') \<Rightarrow> e'
           | (Inl x, e') \<Rightarrow> planning_failed cn env h cfg expected x e'))"

subsection \<open>The order of planning admissions\<close>

text \<open>Turns are numbered; the channel a turn waits on is closed when it is notified.\<close>

record planning_turn =
  pt_ID :: nat
  pt_Finished :: bool
  pt_Notified :: bool

definition enqueue_turn :: "nat \<Rightarrow> planning_turn list \<Rightarrow> planning_turn list" where
  "enqueue_turn i pending = pending @ [\<lparr>pt_ID = i, pt_Finished = False, pt_Notified = (pending = [])\<rparr>]"

definition turn_ready :: "nat \<Rightarrow> planning_turn list \<Rightarrow> bool" where
  "turn_ready i pending \<longleftrightarrow> list_ex (\<lambda>t. pt_ID t = i \<and> pt_Notified t) pending"

definition notify_first :: "planning_turn list \<Rightarrow> planning_turn list" where
  "notify_first pending = (case pending of [] \<Rightarrow> [] | t # ts \<Rightarrow> t\<lparr>pt_Notified := True\<rparr> # ts)"

definition release_turn :: "nat \<Rightarrow> planning_turn list \<Rightarrow> planning_turn list" where
  "release_turn i pending =
     notify_first (dropWhile pt_Finished (map (\<lambda>t. if pt_ID t = i then t\<lparr>pt_Finished := True\<rparr> else t) pending))"

subsection \<open>Recovery of cycles and baselines\<close>

definition interruptedMsg :: string where
  "interruptedMsg = ''Discovery interrupted; incomplete proposals were not dispatched''"

definition RunningCycles :: "handle \<Rightarrow> string \<Rightarrow> database \<Rightarrow> cycle list" where
  "RunningCycles h except db =
     filter (\<lambda>c. cy_Status c = CycleRunning \<and> cy_ID c \<noteq> except \<and> (h_Repo h = [] \<or> EqualASCII (cy_Repository c) (h_Repo h)))
       (map snd (tb_Cycles db))"

definition interrupt_cycle :: "env \<Rightarrow> cycle \<Rightarrow> database \<Rightarrow> database" where
  "interrupt_cycle env c db =
     put_cycle (cy_ID c) (c\<lparr>cy_Sessions := InterruptRunning (cy_Sessions c), cy_Status := CycleInterrupted,
       cy_CompletedAt := Some (env_Now env), cy_Error := Some interruptedMsg\<rparr>) db"

definition interruptOrphanedCycles :: "env \<Rightarrow> handle \<Rightarrow> engine \<Rightarrow> engine" where
  "interruptOrphanedCycles env h e =
     (let activeID = (case rt_Cycle (en_RT e) of None \<Rightarrow> [] | Some (i, _) \<Rightarrow> i);
          e1 = e\<lparr>en_DB := fold (interrupt_cycle env) (RunningCycles h activeID (en_DB e)) (en_DB e)\<rparr>;
          ct = engine_Control h e1 in
      if activeID \<noteq> [] then e1
      else if ct_Mode ct = OperatingModeRunOnce \<and> map_option b_Phase (ct_Batch ct) = Some BatchPhasePlanning
      then snd (pauseLocked h (Some ''Run once was interrupted before its planning transaction committed'') ct e1)
      else e1)"

definition RunningBaselines :: "handle \<Rightarrow> database \<Rightarrow> baseline_check list" where
  "RunningBaselines h db =
     filter (\<lambda>b. bk_Status b = BaselineStatusRunning \<and> (h_Repo h = [] \<or> EqualASCII (c_GitHubRepo (bk_Config b)) (h_Repo h)))
       (map snd (tb_Baselines db))"

definition put_baseline :: "string \<Rightarrow> baseline_check \<Rightarrow> database \<Rightarrow> database" where
  "put_baseline i b db = db\<lparr>tb_Baselines := AList.update i b (tb_Baselines db)\<rparr>"

definition abandonBaseline :: "env \<Rightarrow> string \<Rightarrow> string \<Rightarrow> baseline_check \<Rightarrow> database \<Rightarrow> database" where
  "abandonBaseline env cancelled interrupted b db =
     (let marked = BaselineCancelMarked db (bk_ID b) in
      put_baseline (bk_ID b)
        (b\<lparr>bk_Status := (if marked then BaselineStatusCancelled else BaselineStatusInterrupted),
           bk_CompletedAt := Some (env_Now env), bk_Error := Some (if marked then cancelled else interrupted)\<rparr>) db)"

definition recoverBaselines :: "env \<Rightarrow> handle \<Rightarrow> engine \<Rightarrow> engine" where
  "recoverBaselines env h e =
     e\<lparr>en_DB := fold (abandonBaseline env ''The operator cancelled this check before the service stopped''
           ''The service stopped while the baseline check was running'')
         (filter (\<lambda>b. rt_Baseline (en_RT e) \<noteq> Some (bk_ID b)) (RunningBaselines h (en_DB e))) (en_DB e)\<rparr>"

definition pin_saved :: "control_remote \<Rightarrow> env \<Rightarrow> handle \<Rightarrow> engine \<Rightarrow> engine" where
  "pin_saved cn env h e =
     (case map_of (tb_Configs (en_DB e)) (store_ConfigKey h) of
        None \<Rightarrow> e
      | Some saved \<Rightarrow>
          if cn_Pin cn saved = saved then e
          else engine_Event env h ''system'' EventConfiguration ''Saved configuration now names the repository this deployment pins''
            (e\<lparr>en_DB := (en_DB e)\<lparr>tb_Configs := AList.update (store_ConfigKey h) (cn_Pin cn saved) (tb_Configs (en_DB e))\<rparr>\<rparr>))"

definition seed_slots :: "env \<Rightarrow> handle \<Rightarrow> database \<Rightarrow> (store_error, database) result" where
  "seed_slots env h db =
     fold_tx (SeedPRReservation env)
       (filter (\<lambda>t. p_Target (t_Proposal t) = c_DefaultBranch (t_Config t) \<and> t_Status t \<noteq> StatusCancelled) (ReservableTasks h db)) db"

text \<open>\<open>Recover\<close>: \<open>scratch\<close> is the error of removing the scratch root.\<close>

definition Recover :: "nat \<Rightarrow> (task \<Rightarrow> bool) \<Rightarrow> cause option \<Rightarrow> control_remote \<Rightarrow> env \<Rightarrow> handle \<Rightarrow> engine \<Rightarrow>
    ((engine_error, unit) result \<times> engine) option" where
  "Recover fuel initialized scratch cn env h e =
     (let e1 = pin_saved cn env h (on_rt (\<lambda>r. r\<lparr>rt_CancelScanDone := False\<rparr>) e) in
      case scratch of
        Some c \<Rightarrow> Some (Inl (WorkFailed c), e1)
      | None \<Rightarrow>
          let e2 = recoverBaselines env h e1 in
          (case seed_slots env h (en_DB e2) of
             Inl err \<Rightarrow> Some (Inl (StoreFailed err), e2)
           | Inr db \<Rightarrow>
               (case recover_tasks fuel initialized env h (e2\<lparr>en_DB := db\<rparr>) of
                  None \<Rightarrow> None
                | Some (Inl err, e3) \<Rightarrow> Some (Inl err, e3)
                | Some (Inr _, e3) \<Rightarrow>
                    (case settleCancelledSessions env h e3 of
                       (Inl err, e4) \<Rightarrow> Some (Inl err, e4)
                     | (Inr _, e4) \<Rightarrow> Some (Inr (), interruptOrphanedCycles env h e4)))))"

subsection \<open>Housekeeping and failures\<close>

definition retentionInterval :: int where
  "retentionInterval = 15 * 60 * second"

definition due :: "int \<Rightarrow> int option \<Rightarrow> int \<Rightarrow> bool" where
  "due now since interval = (case since of None \<Rightarrow> True | Some at \<Rightarrow> interval \<le> now - at)"

definition startHousekeeping :: "control_remote \<Rightarrow> engine \<Rightarrow> engine" where
  "startHousekeeping cn e =
     (if cn_Stopping cn \<or> rt_Housekeeping (en_RT e) then e
      else let cleanup = due (cn_Clock cn) (rt_LastRetention (en_RT e)) retentionInterval;
               observe = due (cn_Clock cn) (rt_LastObserve (en_RT e)) observeInterval
           in if \<not> cleanup \<and> \<not> observe then e
              else on_rt (\<lambda>r. r\<lparr>rt_Housekeeping := True,
                     rt_LastRetention := (if cleanup then Some (cn_Clock cn) else rt_LastRetention r),
                     rt_LastObserve := (if observe then Some (cn_Clock cn) else rt_LastObserve r)\<rparr>) e)"

record recovery_activity =
  rl_Causes :: "string list"
  rl_Overflow :: bool

definition recovery_causes :: nat where
  "recovery_causes = 8"

definition log_recovery :: "env \<Rightarrow> handle \<Rightarrow> string \<Rightarrow> recovery_activity \<times> engine \<Rightarrow> recovery_activity \<times> engine" where
  "log_recovery env h message st =
     (let (activity, e) = st in
      if rl_Overflow activity \<or> message \<in> set (rl_Causes activity) then (activity, e)
      else if length (rl_Causes activity) = recovery_causes
      then (activity\<lparr>rl_Overflow := True\<rparr>, engine_Event env h ''system'' EventRecoveryError
             ''Additional recovery causes are suppressed until recovery succeeds; the latest cause remains available in service health.'' e)
      else (activity\<lparr>rl_Causes := rl_Causes activity @ [message]\<rparr>, engine_Event env h ''system'' EventRecoveryError message e))"

text \<open>What \<open>Run\<close> does with the error of a pass; \<open>recovery\<close> tells whether it is a recovery error.\<close>

definition App_fail :: "control_remote \<Rightarrow> env \<Rightarrow> handle \<Rightarrow> bool \<Rightarrow> string \<Rightarrow> recovery_activity \<times> engine \<Rightarrow> recovery_activity \<times> engine" where
  "App_fail cn env h recovery message st =
     (let (activity, e) = st in
      if cn_Stopping cn then st
      else if recovery then log_recovery env h message (activity, setRecoveryError message e)
      else (activity, engine_Event env h ''system'' EventError message (snd (pauseLocked h (Some message) (engine_Control h e) e))))"

subsection \<open>The pass\<close>

datatype pass_result = PassDone | PassFailed engine_error | PassRecovery engine_error | PassPanic

text \<open>The recovery steps every pass begins with.\<close>

definition maintain :: "nat \<Rightarrow> (task \<Rightarrow> bool) \<Rightarrow> control_remote \<Rightarrow> env \<Rightarrow> handle \<Rightarrow> engine \<Rightarrow> ((engine_error, unit) result \<times> engine) option" where
  "maintain fuel initialized cn env h e =
     (case settlePendingTasks initialized (cn_Stopping cn) env h e of
        (Inl err, e1) \<Rightarrow> Some (Inl (StoreFailed err), e1)
      | (Inr _, e1) \<Rightarrow>
          (case blockOrphanedTasks fuel (cn_Stopping cn) env h (interruptOrphanedCycles env h e1) of
             None \<Rightarrow> None
           | Some (Inl err, e2) \<Rightarrow> Some (Inl err, e2)
           | Some (Inr _, e2) \<Rightarrow>
               (case settleCancelledSessions env h e2 of
                  (Inl err, e3) \<Rightarrow> Some (Inl err, e3)
                | (Inr _, e3) \<Rightarrow> Some (Inr (), recoverBaselines env h e3))))"

definition after_dispatch :: "control_remote \<Rightarrow> env \<Rightarrow> handle \<Rightarrow> control \<Rightarrow> engine \<Rightarrow> engine" where
  "after_dispatch cn env h ct e =
     (if ct_Mode ct = OperatingModeRunOnce then
        (case ct_Batch ct of
           None \<Rightarrow> e
         | Some batch \<Rightarrow>
             let (pending, unresolved) = BatchCounts (b_ID batch) (en_DB e) in
             if pending = 0 \<and> 0 < unresolved then settleRunOnce cn env h ct batch unresolved e
             else if b_Phase batch \<noteq> BatchPhaseDraining \<or> pending \<noteq> 0 then e
             else startPlanning cn env h ct e)
      else if ct_Mode ct = OperatingModeContinuous \<and> (ct_BudgetWaiting ct \<or> ct_NextCycleAt ct \<le> cn_Unix cn)
      then startPlanning cn env h ct e
      else e)"

definition dispatch_pass :: "(plan_error \<Rightarrow> string) \<Rightarrow> control_remote \<Rightarrow> env \<Rightarrow> handle \<Rightarrow> config \<Rightarrow> control \<Rightarrow> string option \<Rightarrow> engine \<Rightarrow>
    pass_result \<times> engine" where
  "dispatch_pass plan_text cn env h cfg ct run e =
     (let tasks = SchedulingTasks h run (en_DB e) in
      case validateQueuedCycles plan_text env h cfg tasks e of
        (Inl err, e1) \<Rightarrow> (PassFailed err, e1)
      | (Inr True, e1) \<Rightarrow> (PassDone, e1)
      | (Inr False, e1) \<Rightarrow>
          (case dispatch env h cfg ct (cn_Clock cn) tasks e1 of
             (Fail err, ds) \<Rightarrow> (PassFailed err, ds_Engine ds)
           | (Panic, ds) \<Rightarrow> (PassPanic, ds_Engine ds)
           | (_, ds) \<Rightarrow>
               (PassDone, if ds_Started ds \<or> ds_Waiting ds then ds_Engine ds else after_dispatch cn env h ct (ds_Engine ds))))"

definition schedule :: "(plan_error \<Rightarrow> string) \<Rightarrow> control_remote \<Rightarrow> env \<Rightarrow> handle \<Rightarrow> config \<Rightarrow> control \<Rightarrow> engine \<Rightarrow> pass_result \<times> engine" where
  "schedule plan_text cn env h cfg ct e =
     (if ct_Mode ct = OperatingModeRunOnce then
        (case ct_Batch ct of
           None \<Rightarrow> (PassFailed (plain_error ''Run once is missing its durable batch''), e)
         | Some batch \<Rightarrow>
             let (pending, unresolved) = BatchCounts (b_ID batch) (en_DB e) in
             if pending = 0 \<and> (b_Phase batch = BatchPhaseExecuting \<or> b_Phase batch = BatchPhaseMerging \<or> 0 < unresolved)
             then (PassDone, settleRunOnce cn env h ct batch unresolved e)
             else dispatch_pass plan_text cn env h cfg ct (Some (b_ID batch)) e)
      else dispatch_pass plan_text cn env h cfg ct None e)"

text \<open>The part of the pass that may start work, after the sandbox check ran without the gate.\<close>

definition admit_work :: "(plan_error \<Rightarrow> string) \<Rightarrow> control_remote \<Rightarrow> env \<Rightarrow> handle \<Rightarrow> config \<Rightarrow> control \<Rightarrow> engine \<Rightarrow> pass_result \<times> engine" where
  "admit_work plan_text cn env h cfg ct e =
     (let live = engine_Control h e; liveConfig = cn_Config cn h e in
      if \<not> sameOperatorControl ct live \<or> cfg \<noteq> liveConfig then (PassDone, e)
      else if rt_reconciling (en_RT e) \<or> rt_Baseline (en_RT e) \<noteq> None \<or> rt_planning (en_RT e) \<or> recoveryConflict e \<noteq> None
      then (PassDone, e)
      else case cn_Sandbox cn of
          Some c \<Rightarrow> (PassFailed (WorkFailed c), e)
        | None \<Rightarrow>
            (case Validate (cn_Exists cn) liveConfig True of
               Some err \<Rightarrow> (PassFailed (plain_error (cn_Describe cn err)), e)
             | None \<Rightarrow> schedule plan_text cn env h liveConfig live e))"

definition tick :: "nat \<Rightarrow> (task \<Rightarrow> bool) \<Rightarrow> (plan_error \<Rightarrow> string) \<Rightarrow> merge_remote \<Rightarrow> control_remote \<Rightarrow> env \<Rightarrow> handle \<Rightarrow> engine \<Rightarrow>
    (pass_result \<times> engine) option" where
  "tick fuel initialized plan_text rem cn env h e =
     (if cn_Stopping cn then Some (PassDone, e)
      else case maintain fuel initialized cn env h e of
          None \<Rightarrow> None
        | Some (Inl err, e1) \<Rightarrow> Some (PassRecovery err, setRecoveryError (cn_Message cn err) e1)
        | Some (Inr _, e1) \<Rightarrow>
            let e2 = on_rt (\<lambda>r. r\<lparr>rt_ActiveRecoveryError := None\<rparr>) e1; ct = engine_Control h e2; cfg = cn_Config cn h e2;
                e3 = startHousekeeping cn e2
            in if rt_reconciling (en_RT e3) \<or> rt_Baseline (en_RT e3) \<noteq> None then Some (PassDone, e3)
               else let e4 = snd (recoverMergePrechecks rem env h (\<lambda>_. False) e3);
                        e5 = checkMerges h (cn_Stopping cn) (cn_Clock cn) e4
                    in if recoveryConflict e5 \<noteq> None \<or> ct_Mode ct = OperatingModePaused then Some (PassDone, e5)
                       else Some (admit_work plan_text cn env h cfg ct (cn_Window cn e5)))"

text \<open>The body of the loop of \<open>Run\<close>: a pass and, when it fails, \<open>fail\<close>. The record of recovery causes is dropped by every pass whose
  recovery steps succeed.\<close>

definition fresh_activity :: recovery_activity where
  "fresh_activity = \<lparr>rl_Causes = [], rl_Overflow = False\<rparr>"

definition run_pass :: "nat \<Rightarrow> (task \<Rightarrow> bool) \<Rightarrow> (plan_error \<Rightarrow> string) \<Rightarrow> merge_remote \<Rightarrow> control_remote \<Rightarrow> env \<Rightarrow> handle \<Rightarrow>
    recovery_activity \<times> engine \<Rightarrow> (recovery_activity \<times> engine) option" where
  "run_pass fuel initialized plan_text rem cn env h st =
     (let (activity, e) = st; kept = (if cn_Stopping cn then activity else fresh_activity) in
      case tick fuel initialized plan_text rem cn env h e of
        None \<Rightarrow> None
      | Some (PassDone, e') \<Rightarrow> Some (kept, e')
      | Some (PassRecovery err, e') \<Rightarrow> Some (App_fail cn env h True (cn_Message cn err) (activity, e'))
      | Some (PassFailed err, e') \<Rightarrow> Some (App_fail cn env h False (cn_Message cn err) (kept, e'))
      | Some (PassPanic, e') \<Rightarrow> None)"

subsection \<open>What the dashboard offers\<close>

text \<open>The part of \<open>StateView\<close> (\<open>views.go\<close>) the capabilities are computed from.\<close>

definition view_recovery :: "engine \<Rightarrow> string option" where
  "view_recovery e =
     (case rt_ActiveRecoveryError (en_RT e) of
        Some m \<Rightarrow> Some m
      | None \<Rightarrow>
          (case rt_MergeRecoveryErrors (en_RT e) of
             (_, m) # _ \<Rightarrow> Some m
           | [] \<Rightarrow> (case rt_MergePrecheckErrors (en_RT e) of (_, pre) # _ \<Rightarrow> Some (mp_Message pre) | [] \<Rightarrow> None)))"

definition view_mode :: "handle \<Rightarrow> engine \<Rightarrow> cycle_mode option" where
  "view_mode h e =
     (let shown = (case rt_Cycle (en_RT e) of Some (_, mode) \<Rightarrow> Some mode | None \<Rightarrow> rt_Preflight (en_RT e)) in
      if rt_Cycle (en_RT e) \<noteq> None then shown
      else case RunningCycles h [] (en_DB e) of
          c # _ \<Rightarrow> if shown = None then Some (cy_Mode c) else shown
        | [] \<Rightarrow> shown)"

definition view_activity :: "handle \<Rightarrow> engine \<Rightarrow> operation_activity" where
  "view_activity h e =
     \<lparr>oa_Idle = (rt_idle (en_RT e) \<and> rt_Cycle (en_RT e) = None \<and> RunningCycles h [] (en_DB e) = []),
      oa_Audit = (view_mode h e = Some CycleModeAudit), oa_Baseline = (rt_Baseline (en_RT e) \<noteq> None)\<rparr>"

definition view_capabilities :: "control_remote \<Rightarrow> env \<Rightarrow> handle \<Rightarrow> engine \<Rightarrow> capabilities_view" where
  "view_capabilities cn env h e =
     capabilities cn (engine_Control h e) (cn_Config cn h e) (view_activity h e) (view_recovery e) (PlanningCapacity cn env h e)"

lemma view_recovery_None: "view_recovery e = None \<longleftrightarrow> recoveryConflict e = None"
  by (auto simp: view_recovery_def recoveryConflict_def split: option.splits list.splits)

lemma view_activity_exact:
  assumes "RunningCycles h [] (en_DB e) = []" and "rt_Cycle (en_RT e) = None \<or> rt_Preflight (en_RT e) = None"
  shows "view_activity h e = operationActivity e"
  using assms by (auto simp: view_activity_def operationActivity_def view_mode_def rt_auditActive_def rt_idle_def rt_planning_def
      split: option.splits)

lemma StartBatch_live:
  assumes "ct = liveControl db (store_ControlKey h)"
  shows "\<exists>r db'. StartBatch env h ct day reset db = (planningCapacityAt env h day reset db, r, db') \<and>
     (\<exists>nxt. r = Inr (Some nxt)) = Capacity_Available (planningCapacityAt env h day reset db) \<and> (\<exists>x. r = Inr x)"
  using assms by (simp add: StartBatch_def conditional_def runTx_def split_def)

lemma startRunOnceBatch_iff:
  assumes "ct = engine_Control h e"
  shows "(\<exists>c e'. startRunOnceBatch cn env h ct e = (Inr c, e')) \<longleftrightarrow> Capacity_Available (PlanningCapacity cn env h e)"
proof -
  obtain r db' where s: "StartBatch env h ct (cn_Day cn) (cn_NextReset cn) (en_DB e) = (PlanningCapacity cn env h e, r, db')"
    "(\<exists>nxt. r = Inr (Some nxt)) = Capacity_Available (PlanningCapacity cn env h e)" "\<exists>x. r = Inr x"
    using StartBatch_live [OF assms [unfolded engine_Control_def], of env "cn_Day cn" "cn_NextReset cn"]
    unfolding PlanningCapacity_def by blast
  then show ?thesis
    by (auto simp: startRunOnceBatch_def capacity_refusal_def Capacity_EnsureAvailable_def split: option.splits)
qed


definition sample_control :: control_remote where
  "sample_control = \<lparr>cn_Pin = (\<lambda>c. c), cn_Fingerprint = (\<lambda>_. ''f''), cn_Exists = (\<lambda>_. True), cn_Describe = (\<lambda>_. ''invalid''),
     cn_Message = (\<lambda>_. ''failed''), cn_Stopping = False, cn_Day = ''2025-01-02'', cn_NextReset = 86400, cn_Unix = 0, cn_Clock = 0,
     cn_Preflight = (\<lambda>_ _. None), cn_Sandbox = None, cn_Window = (\<lambda>e. e)\<rparr>"

definition control_db :: database where
  "control_db = empty_db\<lparr>tb_Configs := [(store_ConfigKey root_handle, sample_maintenance)]\<rparr>"


subsection \<open>The record of recovery causes\<close>

text \<open>No cause is recorded twice and at most eight are, so an outage writes at most nine events.\<close>

definition activity_ok :: "recovery_activity \<Rightarrow> bool" where
  "activity_ok a \<longleftrightarrow> distinct (rl_Causes a) \<and> length (rl_Causes a) \<le> recovery_causes"

lemma log_recovery_ok: "activity_ok (fst st) \<Longrightarrow> activity_ok (fst (log_recovery env h message st))"
  by (cases st) (auto simp: log_recovery_def activity_ok_def)

lemma App_fail_ok: "activity_ok (fst st) \<Longrightarrow> activity_ok (fst (App_fail cn env h recovery message st))"
  by (cases st) (auto simp: App_fail_def intro: log_recovery_ok)

lemma run_pass_activity:
  assumes "run_pass fuel initialized plan_text rem cn env h st = Some st'" and "activity_ok (fst st)"
  shows "activity_ok (fst st')"
proof -
  have "activity_ok fresh_activity" by (simp add: activity_ok_def fresh_activity_def)
  then show ?thesis using assms
    by (cases st) (auto simp: run_pass_def Let_def intro!: App_fail_ok split: option.splits pass_result.splits if_splits)
qed

subsection \<open>A paused service starts nothing\<close>

text \<open>A step that starts no task, cycle or preflight and keeps a paused service paused.\<close>

definition calm :: "handle \<Rightarrow> engine \<Rightarrow> engine \<Rightarrow> bool" where
  "calm h e e' \<longleftrightarrow>
     rt_Tasks (en_RT e') = rt_Tasks (en_RT e) \<and> rt_Cycle (en_RT e') = rt_Cycle (en_RT e) \<and>
     rt_Preflight (en_RT e') = rt_Preflight (en_RT e) \<and>
     (ct_Mode (engine_Control h e) = OperatingModePaused \<longrightarrow> ct_Mode (engine_Control h e') = OperatingModePaused)"

lemma calm_refl [simp]: "calm h e e"
  by (simp add: calm_def)

lemma calm_trans: "calm h e1 e2 \<Longrightarrow> calm h e2 e3 \<Longrightarrow> calm h e1 e3"
  by (simp add: calm_def)

lemma calm_db: "tb_Controls db = tb_Controls (en_DB e) \<Longrightarrow> calm h e (e\<lparr>en_DB := db\<rparr>)"
  by (simp add: calm_def engine_Control_def liveControl_def)

lemma calm_rt:
  assumes "rt_Tasks (f (en_RT e)) = rt_Tasks (en_RT e)" "rt_Cycle (f (en_RT e)) = rt_Cycle (en_RT e)"
    "rt_Preflight (f (en_RT e)) = rt_Preflight (en_RT e)"
  shows "calm h e (on_rt f e)" "calm h e (e\<lparr>en_RT := f (en_RT e)\<rparr>)"
  using assms by (simp_all add: calm_def engine_Control_def)

lemma CommitTask_controls: "tb_Controls (snd (CommitTask expected nxt change db)) = tb_Controls db"
  unfolding CommitTask_def runTx_def txCommitTask_def finish_commit_def Let_def
  by (simp split: option.split sum.split prod.split)

lemma calm_event [simp]: "calm h e (engine_Event env h' entity kind message x) = calm h e x"
  by (simp add: calm_def engine_Event_def engine_Control_def liveControl_def store_Event_def txRepositoryEvent_def)

lemma calm_on_commit: "calm h e (snd (on_db (CommitTask expected nxt change) e))"
  by (simp add: on_db_simps calm_db CommitTask_controls)

lemma calm_commit: "calm h e (snd (commitTaskLocked env expected t change e))"
  using calm_on_commit [of h e expected "t\<lparr>t_UpdatedAt := env_Now env\<rparr>" change]
  by (auto simp: commitTaskLocked_def split: prod.splits sum.splits)

lemma calm_exit: "calm h e (snd (settleExitedTask env h' t err e))"
  using calm_commit [of h e env t "exited_next (taskCancellationApplies t e) err t" TaskSettlement]
  by (auto simp: settleExitedTask_def Let_def split: prod.splits sum.splits)

lemma calm_each:
  assumes "\<And>t e. calm h e (snd (f t e))"
  shows "calm h e (snd (each_task f ts e))"
proof (induction ts arbitrary: e)
  case (Cons t ts)
  then show ?case using assms [of e t] by (auto split: prod.splits sum.splits intro: calm_trans)
qed simp

lemma calm_flush: "calm h e (snd (snd (flushTaskSettlement initialized stopping env h' job cause e)))"
proof (cases "tj_Pending job")
  case (Some pending)
  then show ?thesis
    using calm_on_commit [of h e "tj_Committed job" "settlement_next initialized stopping env job pending cause" TaskSettlement]
    by (auto simp: flushTaskSettlement_def Let_def split: prod.splits sum.splits)
qed (simp add: flushTaskSettlement_def)

lemma calm_settle_pending: "calm h e (snd (settle_pending initialized stopping env h' rows e))"
proof (induction rows arbitrary: e)
  case (Cons row rows)
  obtain i job where row: "row = (i, job)" by fastforce
  obtain r job' e' where f: "flushTaskSettlement initialized stopping env h' job None e = (r, job', e')" by (metis prod.collapse)
  then have e': "calm h e e'" using calm_flush [of h e initialized stopping env h' job None] by simp
  have drop: "calm h e' (drop_settlement i e')" unfolding drop_settlement_def by (rule calm_rt) simp_all
  have keep: "calm h e' (e'\<lparr>en_RT := (en_RT e')\<lparr>rt_Settlements := AList.update i job' (rt_Settlements (en_RT e'))\<rparr>\<rparr>)"
    by (rule calm_rt) simp_all
  have rest: "calm h e (snd (settle_pending initialized stopping env h' rows (drop_settlement i e')))"
    using calm_trans [OF calm_trans [OF e' drop] Cons.IH] .
  show ?case using rest calm_trans [OF e' keep] by (auto simp: row f split: sum.splits)
qed simp

lemma calm_pause: "calm h e (snd (pauseLocked h message ct e))"
  by (simp add: pauseLocked_def Let_def calm_def invalidatePRs_def engine_Control_def SaveControl_def put_control_def liveControl_def
      SetMode_def)

lemma calm_cycles: "calm h e (interruptOrphanedCycles env h e)"
proof -
  have "tb_Controls (fold (interrupt_cycle env) cs db) = tb_Controls db" for cs db
    by (induction cs arbitrary: db) (simp_all add: interrupt_cycle_def)
  then have "calm h e (e\<lparr>en_DB := fold (interrupt_cycle env) cs (en_DB e)\<rparr>)" for cs by (intro calm_db)
  then show ?thesis using calm_pause calm_trans unfolding interruptOrphanedCycles_def Let_def by (simp, blast)
qed

lemma calm_baselines: "calm h e (recoverBaselines env h e)"
proof -
  have "tb_Controls (fold (abandonBaseline env a b) cs db) = tb_Controls db" for a b cs db
    by (induction cs arbitrary: db) (simp_all add: abandonBaseline_def put_baseline_def Let_def)
  then show ?thesis unfolding recoverBaselines_def by (intro calm_db)
qed

lemma calm_orphans: "block_orphans fuel stopping env h' excluded e = Some (r, e') \<Longrightarrow> calm h e e'"
proof (induction fuel arbitrary: e)
  case (Suc fuel)
  let ?tasks = "ActiveTasksExcept h' excluded (en_DB e)"
  obtain q e1 where q: "each_task (block_orphan env h') ?tasks e = (q, e1)" by fastforce
  have "calm h x (snd (block_orphan env h' t x))" for t x
    using calm_exit [of h x env h' t "orphan_cause t"] by (auto simp: block_orphan_def split: prod.splits sum.splits)
  then have e1: "calm h e e1" using calm_each [of h "block_orphan env h'" e ?tasks] q by simp
  then show ?case using Suc.prems Suc.IH [of e1] q by (auto simp: Let_def split: if_splits sum.splits intro: calm_trans)
qed simp

lemma calm_sessions: "calm h e (snd (settleCancelledSessions env h' e))"
proof -
  have "calm h x (snd (settle_cancelled env t x))" for t x
    using calm_commit [of h x env t "t\<lparr>t_Sessions := InterruptRunning (t_Sessions t)\<rparr>" TaskSettlement]
    by (auto simp: settle_cancelled_def split: prod.splits sum.splits)
  from calm_each [of h "settle_cancelled env", OF this]
  have each: "calm h e (snd (each_task (settle_cancelled env) ts e))" for ts .
  have scan: "calm h x (x\<lparr>en_RT := (en_RT x)\<lparr>rt_CancelScanDone := True\<rparr>\<rparr>)" for x by (rule calm_rt) simp_all
  let ?ts = "CancelledWithLiveSessions h' (ownedTaskIDs (en_RT e)) (en_DB e)"
  obtain q e1 where q: "each_task (settle_cancelled env) ?ts e = (q, e1)" by fastforce
  then have "calm h e e1" using each [of ?ts] by simp
  then show ?thesis using q calm_trans [OF \<open>calm h e e1\<close> scan] by (auto simp: settleCancelledSessions_def Let_def split: sum.splits)
qed

lemma calm_maintain:
  assumes "maintain fuel initialized cn env h e = Some (r, e')"
  shows "calm h e e'"
proof -
  obtain q1 e1 where 1: "settlePendingTasks initialized (cn_Stopping cn) env h e = (q1, e1)" by fastforce
  then have c1: "calm h e e1" using calm_settle_pending [of h e] by (metis settlePendingTasks_def snd_conv)
  have c2: "calm h e (interruptOrphanedCycles env h e1)" using calm_trans [OF c1 calm_cycles] .
  show ?thesis
  proof (cases q1)
    case (Inl err)
    then show ?thesis using assms 1 c1 by (simp add: maintain_def)
  next
    case (Inr u)
    obtain q2 e2 where 2: "blockOrphanedTasks fuel (cn_Stopping cn) env h (interruptOrphanedCycles env h e1) = Some (q2, e2)"
      using assms 1 Inr by (auto simp: maintain_def split: option.splits)
    then have c3: "calm h e e2" using c2 calm_orphans calm_trans by (metis blockOrphanedTasks_def)
    obtain q3 e3 where 3: "settleCancelledSessions env h e2 = (q3, e3)" by fastforce
    then have c4: "calm h e e3" using calm_trans [OF c3 calm_sessions] by (metis snd_conv)
    show ?thesis using assms 1 2 3 Inr c3 c4 calm_trans [OF c4 calm_baselines]
      by (cases q2; cases q3) (auto simp: maintain_def)
  qed
qed

lemma calm_prechecks: "calm h e (snd (recoverMergePrechecks rem env h' cancelled e))"
proof -
  have settle: "calm h x (snd (try_settle rem env a b c d f g i j x))" for a b c d f g i j x
  proof -
    have "tb_Controls (snd (SettleMerge env a b c d f g i j db)) = tb_Controls db" for db
      by (auto simp: SettleMerge_def conditional_def runTx_def txSettleMerge_def put_pr_def
          split: option.splits prod.splits if_splits sum.splits store_error.splits)
    then have "calm h x (snd (on_db (SettleMerge env a b c d f g i j) x))" by (simp add: on_db_simps calm_db)
    then show ?thesis by (auto simp: try_settle_def split: option.splits prod.splits sum.splits)
  qed
  have clear: "calm h x (snd (clearMergePrecheck key pre x))" for key pre x
    by (simp add: clearMergePrecheck_def calm_rt)
  have one: "calm h x (snd (recoverMergePrecheck rem env h' pre x))" for pre x
  proof -
    obtain q x1 where q: "try_settle rem env (mp_Repository pre) (mp_Number pre) (mp_Expected pre) (mp_Status pre) (mp_Reason pre)
        (mp_Source pre) (mp_Commit pre) (mp_Revoke pre) x = (q, x1)" by fastforce
    then have c: "calm h x x1" using settle by (metis snd_conv)
    have "calm h x (snd (clearMergePrecheck key pre (engine_Event env h' i k m x1)))" for key i k m
      by (rule calm_trans [OF _ clear]) (simp add: c)
    then show ?thesis using clear calm_trans [OF c clear] c
      by (auto simp: recoverMergePrecheck_def q Let_def split: option.splits sum.splits)
  qed
  have "calm h x (snd (recover_prechecks rem env h' cancelled pres released x))" for pres released x
  proof (induction pres arbitrary: released x)
    case (Cons pre pres)
    show ?case using calm_trans [OF one Cons.IH] by (simp add: split_def Let_def)
  qed simp
  then show ?thesis using calm_trans [OF _ calm_rt(1)] by (simp add: recoverMergePrechecks_def split_def Let_def)
qed

lemma calm_checks: "calm h e (checkMerges h' stopping now e)" "calm h e (startHousekeeping cn e)"
  by (simp_all add: checkMerges_def startHousekeeping_def Let_def calm_rt set_cursor_def split: option.splits)

lemma tick_returns:
  assumes "maintain fuel initialized cn env h e \<noteq> None"
  shows "\<exists>result e'. tick fuel initialized plan_text rem cn env h e = Some (result, e')"
proof -
  obtain q e1 where m: "maintain fuel initialized cn env h e = Some (q, e1)"
    using assms by (metis option.exhaust surj_pair)
  have "tick fuel initialized plan_text rem cn env h e \<noteq> None"
    by (cases q) (simp_all add: tick_def Let_def m del: not_None_eq)
  then show ?thesis by (metis option.exhaust surj_pair)
qed



end
