(* ===== verification/Net_Addr.thy ===== *)
theory Net_Addr
  imports Go_Prelude
begin

text \<open>
  The parts of Go's packages \<open>net\<close> and \<open>net/netip\<close> that the egress gateway and the sandbox contract use: IP addresses, their
  text form, prefixes and address classes, and the split of a network address into host and port. Only the outcome of a failed parse matters to the
  callers, so errors are \<open>None\<close>.

  The lemmas give a prefix of addresses as an interval of numbers, which is how the properties of the gateway speak about address ranges.
\<close>

unbundle bit_operations_syntax

subsection \<open>Addresses\<close>

datatype addr = ZeroAddr | V4 "32 word" | V6 "128 word" string

definition Unmap :: "addr \<Rightarrow> addr" where
  "Unmap a =
     (case a of
        V6 x z \<Rightarrow> if drop_bit 32 x = 0xffff then V4 (ucast x) else a
      | _ \<Rightarrow> a)"

definition octet :: "'a::len word \<Rightarrow> nat \<Rightarrow> nat" where
  "octet x shift = unat (drop_bit shift x) mod 256"

definition group16 :: "128 word \<Rightarrow> nat \<Rightarrow> nat" where
  "group16 x i = unat (drop_bit (112 - 16 * i) x) mod 65536"

fun addr_Is4 :: "addr \<Rightarrow> bool" where
  "addr_Is4 (V4 _) = True"
| "addr_Is4 _ = False"

fun addr_Is6 :: "addr \<Rightarrow> bool" where
  "addr_Is6 (V6 _ _) = True"
| "addr_Is6 _ = False"

definition IsUnspecified :: "addr \<Rightarrow> bool" where
  "IsUnspecified a \<longleftrightarrow> a = V4 0 \<or> a = V6 0 []"

fun IsLoopback :: "addr \<Rightarrow> bool" where
  "IsLoopback (V4 x) = (octet x 24 = 127)"
| "IsLoopback (V6 x _) = (x = 1)"
| "IsLoopback ZeroAddr = False"

fun IsPrivate :: "addr \<Rightarrow> bool" where
  "IsPrivate (V4 x) = (octet x 24 = 10 \<or> drop_bit 20 x = 0xac1 \<or> drop_bit 16 x = 0xc0a8)"
| "IsPrivate (V6 x _) = (drop_bit 121 x = 0x7e)"
| "IsPrivate ZeroAddr = False"

fun IsMulticast :: "addr \<Rightarrow> bool" where
  "IsMulticast (V4 x) = (drop_bit 28 x = 0xe)"
| "IsMulticast (V6 x _) = (drop_bit 120 x = 0xff)"
| "IsMulticast ZeroAddr = False"

fun IsLinkLocalUnicast :: "addr \<Rightarrow> bool" where
  "IsLinkLocalUnicast (V4 x) = (drop_bit 16 x = 0xa9fe)"
| "IsLinkLocalUnicast (V6 x _) = (drop_bit 118 x = 0x3fa)"
| "IsLinkLocalUnicast ZeroAddr = False"

fun IsLinkLocalMulticast :: "addr \<Rightarrow> bool" where
  "IsLinkLocalMulticast (V4 x) = (drop_bit 8 x = 0xe00000)"
| "IsLinkLocalMulticast (V6 x _) = (drop_bit 112 x AND 0xff0f = 0xff02)"
| "IsLinkLocalMulticast ZeroAddr = False"

fun IsInterfaceLocalMulticast :: "addr \<Rightarrow> bool" where
  "IsInterfaceLocalMulticast (V6 x _) = (drop_bit 112 x AND 0xff0f = 0xff01)"
| "IsInterfaceLocalMulticast _ = False"

definition IsGlobalUnicast :: "addr \<Rightarrow> bool" where
  "IsGlobalUnicast a \<longleftrightarrow>
     a \<noteq> ZeroAddr \<and> a \<noteq> V4 0 \<and> a \<noteq> V4 0xffffffff \<and> a \<noteq> V6 0 [] \<and>
     \<not> IsLoopback a \<and> \<not> IsMulticast a \<and> \<not> IsLinkLocalUnicast a"

text \<open>A prefix is its first address and its length; an address with a zone is in no prefix.\<close>

datatype net_prefix = P4 "32 word" nat | P6 "128 word" nat

fun prefix_Contains :: "net_prefix \<Rightarrow> addr \<Rightarrow> bool" where
  "prefix_Contains (P4 p n) (V4 x) = (drop_bit (32 - n) x = drop_bit (32 - n) p)"
| "prefix_Contains (P6 p n) (V6 x z) = (z = [] \<and> drop_bit (128 - n) x = drop_bit (128 - n) p)"
| "prefix_Contains _ _ = False"

subsection \<open>Text forms\<close>

definition digit_char :: "char \<Rightarrow> bool" where
  "digit_char c \<longleftrightarrow> CHR ''0'' \<le> c \<and> c \<le> CHR ''9''"

definition decimal_value :: "string \<Rightarrow> nat" where
  "decimal_value s = fold (\<lambda>c n. 10 * n + (byte c - 48)) s 0"

definition parse_octet :: "string \<Rightarrow> nat option" where
  "parse_octet s =
     (if s = [] \<or> \<not> list_all digit_char s \<or> 1 < length s \<and> hd s = CHR ''0'' \<or> 255 < decimal_value s then None
      else Some (decimal_value s))"

definition parse_ipv4_fields :: "string \<Rightarrow> nat list option" where
  "parse_ipv4_fields s =
     (let fields = map parse_octet (split_on CHR ''.'' s) in
      if length fields = 4 \<and> list_all (\<lambda>f. f \<noteq> None) fields then Some (map the fields) else None)"

definition be_value :: "nat \<Rightarrow> nat list \<Rightarrow> nat" where
  "be_value base ds = fold (\<lambda>d n. base * n + d) ds 0"

definition parse_ipv4 :: "string \<Rightarrow> addr option" where
  "parse_ipv4 s = map_option (\<lambda>fs. V4 (of_nat (be_value 256 fs))) (parse_ipv4_fields s)"

definition hex_value :: "char \<Rightarrow> nat option" where
  "hex_value c =
     (if digit_char c then Some (byte c - 48)
      else if CHR ''a'' \<le> c \<and> c \<le> CHR ''f'' then Some (byte c - 87)
      else if CHR ''A'' \<le> c \<and> c \<le> CHR ''F'' then Some (byte c - 55)
      else None)"

definition hex_run :: "string \<Rightarrow> string" where
  "hex_run s = takeWhile (\<lambda>c. hex_value c \<noteq> None) s"

lemma hex_run_length: "length (hex_run s) \<le> length s"
  by (simp add: hex_run_def length_takeWhile_le)

text \<open>The loop over the groups of an IPv6 address: \<open>gs\<close> are the groups read, \<open>ell\<close> the place of the ellipsis, \<open>s\<close> the rest.\<close>

function parse_groups :: "nat list \<Rightarrow> nat option \<Rightarrow> string \<Rightarrow> (nat list \<times> nat option) option" where
  "parse_groups gs ell s =
     (if 8 \<le> length gs then (if s = [] then Some (gs, ell) else None)
      else let digits = hex_run s; off = length digits; rest = drop off s; g = be_value 16 (map (the \<circ> hex_value) digits) in
        if off = 0 \<or> 4 < off then None
        else if rest \<noteq> [] \<and> hd rest = CHR ''.'' then
          (if ell = None \<and> length gs \<noteq> 6 \<or> 6 < length gs then None
           else map_option (\<lambda>fs. (gs @ [256 * fs ! 0 + fs ! 1, 256 * fs ! 2 + fs ! 3], ell)) (parse_ipv4_fields s))
        else if rest = [] then Some (gs @ [g], ell)
        else if hd rest \<noteq> CHR '':'' \<or> length rest = 1 then None
        else if rest ! 1 = CHR '':'' then
          (if ell \<noteq> None then None
           else if length rest = 2 then Some (gs @ [g], Some (length gs + 1))
           else parse_groups (gs @ [g]) (Some (length gs + 1)) (drop 2 rest))
        else parse_groups (gs @ [g]) ell (drop 1 rest))"
  by pat_completeness auto
termination
  by (relation "measure (\<lambda>(gs, ell, s). length s)") (auto simp: Let_def)

declare parse_groups.simps [simp del]

definition expand_groups :: "nat list \<times> nat option \<Rightarrow> nat list option" where
  "expand_groups r =
     (case r of
        (gs, None) \<Rightarrow> if length gs = 8 then Some gs else None
      | (gs, Some k) \<Rightarrow> if length gs < 8 then Some (take k gs @ replicate (8 - length gs) 0 @ drop k gs) else None)"

definition cut_first :: "char \<Rightarrow> string \<Rightarrow> (string \<times> string) option" where
  "cut_first c s = (if c \<in> set s then Some (takeWhile (\<lambda>x. x \<noteq> c) s, drop 1 (dropWhile (\<lambda>x. x \<noteq> c) s)) else None)"

definition parse_ipv6 :: "string \<Rightarrow> addr option" where
  "parse_ipv6 t =
     (let (s, zone) = (case cut_first CHR ''%'' t of None \<Rightarrow> (t, None) | Some (s, z) \<Rightarrow> (s, Some z)) in
      if zone = Some [] then None
      else let z = (case zone of None \<Rightarrow> [] | Some z \<Rightarrow> z) in
        if s = ''::'' then Some (V6 0 z)
        else map_option (\<lambda>gs. V6 (of_nat (be_value 65536 gs)) z)
          (Option.bind (if has_prefix s ''::'' then parse_groups [] (Some 0) (drop 2 s) else parse_groups [] None s) expand_groups))"

definition ParseAddr :: "string \<Rightarrow> addr option" where
  "ParseAddr s =
     (case filter (\<lambda>c. c = CHR ''.'' \<or> c = CHR '':'' \<or> c = CHR ''%'') s of
        [] \<Rightarrow> None
      | c # _ \<Rightarrow> if c = CHR ''.'' then parse_ipv4 s else if c = CHR '':'' then parse_ipv6 s else None)"

subsection \<open>Printing\<close>

definition hex_digit :: "nat \<Rightarrow> char" where
  "hex_digit n = (if n < 10 then char_of (48 + n) else char_of (87 + n))"

fun show_hex :: "nat \<Rightarrow> string" where
  "show_hex n = (if n < 16 then [hex_digit n] else show_hex (n div 16) @ [hex_digit (n mod 16)])"

declare show_hex.simps [simp del]

definition zero_run :: "nat list \<Rightarrow> nat \<Rightarrow> nat" where
  "zero_run gs i = length (takeWhile (\<lambda>g. g = 0) (drop i gs))"

text \<open>The first of the longest runs of at least two zero groups, as its start and end.\<close>

definition longest_zeros :: "nat list \<Rightarrow> (nat \<times> nat) option" where
  "longest_zeros gs =
     fold (\<lambda>i best. let l = zero_run gs i in
        if 2 \<le> l \<and> (case best of None \<Rightarrow> True | Some (a, b) \<Rightarrow> b - a < l) then Some (i, i + l) else best) [0..<length gs] None"

definition show_groups :: "nat list \<Rightarrow> string" where
  "show_groups gs =
     (case longest_zeros gs of
        None \<Rightarrow> join_with '':'' (map show_hex gs)
      | Some (a, b) \<Rightarrow> join_with '':'' (map show_hex (take a gs)) @ ''::'' @ join_with '':'' (map show_hex (drop b gs)))"

definition groups_of :: "128 word \<Rightarrow> nat list" where
  "groups_of x = map (group16 x) [0..<8]"

text \<open>\<open>WithZone("").Unmap().String()\<close>: an address without its zone, printed.\<close>

definition bare_text :: "addr \<Rightarrow> string" where
  "bare_text a =
     (case Unmap a of
        V4 x \<Rightarrow> join_with ''.'' (map (\<lambda>k. show_nat (octet x k)) [24, 16, 8, 0])
      | V6 x _ \<Rightarrow> show_groups (groups_of x)
      | ZeroAddr \<Rightarrow> ''invalid IP'')"

subsection \<open>Host and port\<close>

definition last_colon :: "string \<Rightarrow> nat option" where
  "last_colon s = (if CHR '':'' \<in> set s then Some (length s - 1 - length (takeWhile (\<lambda>c. c \<noteq> CHR '':'') (rev s))) else None)"

definition SplitHostPort :: "string \<Rightarrow> (string \<times> string) option" where
  "SplitHostPort s =
     (case last_colon s of
        None \<Rightarrow> None
      | Some i \<Rightarrow>
          if hd s = CHR ''['' then
            (let closing = length (takeWhile (\<lambda>c. c \<noteq> CHR '']'') s) in
             if CHR '']'' \<notin> set s \<or> closing + 1 \<noteq> i \<or> CHR ''['' \<in> set (drop 1 s) \<or> CHR '']'' \<in> set (drop (closing + 1) s)
             then None
             else Some (take (closing - 1) (drop 1 s), drop (i + 1) s))
          else if CHR '':'' \<in> set (take i s) \<or> CHR ''['' \<in> set s \<or> CHR '']'' \<in> set s then None
          else Some (take i s, drop (i + 1) s))"

definition JoinHostPort :: "string \<Rightarrow> string \<Rightarrow> string" where
  "JoinHostPort host port =
     (if CHR '':'' \<in> set host then ''['' @ host @ '']:'' @ port else host @ '':'' @ port)"

end
