(* ===== verification/Sandbox_Wire.thy ===== *)
theory Sandbox_Wire
  imports Net_Addr
begin

text \<open>
  The contract between the control plane and the sandbox broker, \<open>internal/sandbox/wire\<close>: the host names an allowlist
  may hold, the programs a sandbox runs and the directories it mounts, and the framed stream between the two processes.
  A byte stream is the list of the bytes not yet read; an exhausted one is at its end. The writer under a stream is a parameter: a function
  from its state and the bytes of one write to an error or none and its next state.

  The lemmas show what an accepted host name looks like, that normalising is idempotent, and that whatever is written as data frames is read
  back as the same bytes.
\<close>

subsection \<open>Host names\<close>

definition label_char :: "char \<Rightarrow> bool" where
  "label_char c \<longleftrightarrow> CHR ''a'' \<le> c \<and> c \<le> CHR ''z'' \<or> digit_char c"

definition ValidLabel :: "string \<Rightarrow> bool" where
  "ValidLabel l \<longleftrightarrow>
     l \<noteq> [] \<and> length l \<le> 63 \<and> label_char (hd l) \<and> label_char (last l) \<and> list_all (\<lambda>c. label_char c \<or> c = CHR ''-'') l"

datatype host_error = HostLength | IPLiteral | SingleLabel | InvalidHost

definition trim_brackets :: "string \<Rightarrow> string" where
  "trim_brackets s =
     rev (dropWhile (\<lambda>c. c = CHR ''['' \<or> c = CHR '']'') (rev (dropWhile (\<lambda>c. c = CHR ''['' \<or> c = CHR '']'') s)))"

definition NormalizeHost :: "unicode_tables \<Rightarrow> string \<Rightarrow> (host_error, string) result" where
  "NormalizeHost u host =
     (let h = trim_suffix (to_lower u host) ''.'' in
      if h = [] \<or> 253 < length h then Inl HostLength
      else if ParseAddr (trim_brackets h) \<noteq> None then Inl IPLiteral
      else let labels = split_on CHR ''.'' h in
        if length labels < 2 then Inl SingleLabel
        else if \<not> list_all ValidLabel labels then Inl InvalidHost
        else Inr h)"

definition ValidProbeTarget :: "unicode_tables \<Rightarrow> string \<Rightarrow> bool" where
  "ValidProbeTarget u target =
     (case SplitHostPort target of
        None \<Rightarrow> False
      | Some (host, port) \<Rightarrow> port = ''443'' \<and> NormalizeHost u host = Inr host)"

subsection \<open>Requests\<close>

definition KindRunner :: string where
  "KindRunner = ''runner''"

definition KindVerify :: string where
  "KindVerify = ''verify''"

definition KindProbe :: string where
  "KindProbe = ''probe''"

record sandbox_request =
  rq_Kind :: string
  rq_Dir :: string
  rq_Runner :: string
  rq_Mode :: string
  rq_Command :: string
  rq_Env :: "string list"
  rq_Stdin :: bool
  rq_FreshHome :: bool
  rq_Timeout :: u64
  rq_Readiness :: u64

definition RunnerArgs :: "string \<Rightarrow> string list" where
  "RunnerArgs name =
     (if name = ''codex'' then [''app-server'', ''--listen'', ''stdio://'']
      else if name = ''opencode'' then [''serve'', ''--hostname'', ''127.0.0.1'', ''--port'', ''0'']
      else [])"

definition VerifyProgram :: "string \<Rightarrow> string \<times> string list" where
  "VerifyProgram command = (''bash'', [''-o'', ''pipefail'', ''-c'', command])"

definition RunnerHomeDirs :: "(string \<times> string) list" where
  "RunnerHomeDirs =
     [(''.codex'', ''codex''), (''.local/share/opencode'', ''opencode/data''), (''.config/opencode'', ''opencode/config''),
      (''.cache/opencode'', ''opencode/cache''), (''.local/state/opencode'', ''opencode/state'')]"

definition HomeDirs :: "string \<Rightarrow> string list" where
  "HomeDirs kind =
     (if kind = KindRunner then ''home'' # map (\<lambda>(home, _). ''home/'' @ home) RunnerHomeDirs
      else if kind = KindVerify then [''verify-home'']
      else [])"

subsection \<open>The framed stream\<close>

datatype io_error = EOF | UnexpectedEOF | FrameTooLarge | WriteFailed

definition read_full :: "nat \<Rightarrow> string \<Rightarrow> (io_error, string \<times> string) result" where
  "read_full n s =
     (if n \<le> length s then Inr (take n s, drop n s) else if s = [] then Inl EOF else Inl UnexpectedEOF)"

definition maxFrame :: nat where
  "maxFrame = 1048576"

definition dataChunk :: nat where
  "dataChunk = 32768"

definition be_bytes :: "string \<Rightarrow> nat" where
  "be_bytes s = be_value 256 (map byte s)"

definition put_be32 :: "nat \<Rightarrow> string" where
  "put_be32 n = map (\<lambda>k. char_of (n div 256 ^ k)) [3, 2, 1, 0]"

definition ReadFrame :: "string \<Rightarrow> (io_error, (char \<times> string) \<times> string) result" where
  "ReadFrame s =
     (case read_full 5 s of
        Inl e \<Rightarrow> Inl e
      | Inr (header, rest) \<Rightarrow>
          let size = be_bytes (drop 1 header) in
          if maxFrame < size then Inl FrameTooLarge
          else (case read_full size rest of
                  Inl e \<Rightarrow> Inl (if e = EOF then UnexpectedEOF else e)
                | Inr (payload, rest') \<Rightarrow> Inr ((hd header, payload), rest')))"

definition frame_bytes :: "char \<Rightarrow> string \<Rightarrow> string" where
  "frame_bytes kind payload = kind # put_be32 (length payload) @ payload"

definition Frame :: "('w \<Rightarrow> string \<Rightarrow> io_error option \<times> 'w) \<Rightarrow> char \<Rightarrow> string \<Rightarrow> 'w \<Rightarrow> io_error option \<times> 'w" where
  "Frame write kind payload w =
     (if maxFrame < length payload then (Some FrameTooLarge, w) else write w (frame_bytes kind payload))"

function Data :: "('w \<Rightarrow> string \<Rightarrow> io_error option \<times> 'w) \<Rightarrow> char \<Rightarrow> string \<Rightarrow> nat \<Rightarrow> 'w \<Rightarrow> nat \<times> io_error option \<times> 'w" where
  "Data write kind p written w =
     (if p = [] then (written, None, w)
      else let n = min (length p) dataChunk in
        (case Frame write kind (take n p) w of
           (Some e, w') \<Rightarrow> (written, Some e, w')
         | (None, w') \<Rightarrow> Data write kind (drop n p) (written + n) w'))"
  by pat_completeness auto
termination
  by (relation "measure (\<lambda>(write, kind, p, written, w). length p)") (auto simp: dataChunk_def)

declare Data.simps [simp del]

subsection \<open>Lemmas: host names\<close>

lemma NormalizeHost_Inr:
  assumes "NormalizeHost u host = Inr h"
  shows "h \<noteq> []" "length h \<le> 253" "list_all ValidLabel (split_on CHR ''.'' h)" "2 \<le> length (split_on CHR ''.'' h)"
    "ParseAddr (trim_brackets h) = None"
  using assms by (auto simp: NormalizeHost_def Let_def split: if_splits)

lemma label_char_ascii: "label_char c \<Longrightarrow> byte c < 128 \<and> ascii_lower c = c"
  by (auto simp: label_char_def digit_char_def ascii_lower_def less_eq_char_def)

lemma valid_label_char: "ValidLabel l \<Longrightarrow> c \<in> set l \<Longrightarrow> label_char c \<or> c = CHR ''-''"
  by (auto simp: ValidLabel_def list_all_iff)

lemma split_on_set: "set s \<subseteq> insert d (\<Union>p \<in> set (split_on d s). set p)"
  by (induction s) (auto split: list.splits, blast)

lemma host_chars:
  assumes "list_all ValidLabel (split_on CHR ''.'' h)" and "c \<in> set h"
  shows "label_char c \<or> c = CHR ''-'' \<or> c = CHR ''.''"
  using assms split_on_set [of h "CHR ''.''"] valid_label_char by (fastforce simp: list_all_iff)

lemma host_ascii:
  assumes "list_all ValidLabel (split_on CHR ''.'' h)"
  shows "\<forall>c \<in> set h. byte c < 128" "map ascii_lower h = h"
proof -
  have *: "byte c < 128 \<and> ascii_lower c = c" if "c \<in> set h" for c
    using host_chars [OF assms that] label_char_ascii [of c] by (auto simp: ascii_lower_def less_eq_char_def)
  then show "\<forall>c \<in> set h. byte c < 128" by blast
  show "map ascii_lower h = h" using * by (induction h) auto
qed

lemma host_no_dot_end:
  assumes "list_all ValidLabel (split_on CHR ''.'' h)"
  shows "\<not> has_suffix h ''.''"
proof
  assume "has_suffix h ''.''"
  then obtain a where "h = a @ CHR ''.'' # []" by (auto simp: has_suffix_def suffix_def)
  then have "[] \<in> set (split_on CHR ''.'' h)" by (simp only: split_on_append) simp
  with assms show False by (auto simp: list_all_iff ValidLabel_def)
qed

lemma host_trim: "list_all ValidLabel (split_on CHR ''.'' h) \<Longrightarrow> trim_suffix (to_lower u h) ''.'' = h"
  by (simp add: to_lower_ascii host_ascii host_no_dot_end trim_suffix_def)

text \<open>Normalising is idempotent, so equal normal forms mean equal names.\<close>

lemma NormalizeHost_idem:
  assumes "NormalizeHost u host = Inr h"
  shows "NormalizeHost u h = Inr h"
  using NormalizeHost_Inr [OF assms] by (simp add: NormalizeHost_def host_trim Let_def)

lemma NormalizeHost_accepts:
  "list_all ValidLabel (split_on CHR ''.'' h) \<Longrightarrow> 2 \<le> length (split_on CHR ''.'' h) \<Longrightarrow> length h \<le> 253 \<Longrightarrow>
     ParseAddr (trim_brackets h) = None \<Longrightarrow> h \<noteq> [] \<Longrightarrow> NormalizeHost u h = Inr h"
  by (simp add: NormalizeHost_def host_trim Let_def)

subsection \<open>Lemmas: frames\<close>

lemma be32_roundtrip:
  assumes "n < 2 ^ 32"
  shows "be_bytes (put_be32 n) = n"
proof -
  have d: "n div 65536 = n div 256 div 256" "n div 16777216 = n div 256 div 256 div 256"
    by (simp_all add: div_mult2_eq [symmetric])
  have "n div 256 div 256 div 256 < 256" using assms by (simp add: div_mult2_eq [symmetric] div_less_iff_less_mult)
  then have "be_bytes (put_be32 n) =
      256 * (256 * (256 * (n div 256 div 256 div 256) + n div 256 div 256 mod 256) + n div 256 mod 256) + n mod 256"
    by (simp add: be_bytes_def put_be32_def be_value_def d)
  then show ?thesis by (simp add: mult_div_mod_eq)
qed

lemma read_full_append: "read_full (length a) (a @ b) = Inr (a, b)"
  by (simp add: read_full_def)

lemma put_be32_length [simp]: "length (put_be32 n) = 4"
  by (simp add: put_be32_def)

lemma ReadFrame_frame:
  assumes "length payload \<le> maxFrame"
  shows "ReadFrame (frame_bytes kind payload @ rest) = Inr ((kind, payload), rest)"
proof -
  have "read_full 5 (frame_bytes kind payload @ rest) = Inr (kind # put_be32 (length payload), payload @ rest)"
    using read_full_append [of "kind # put_be32 (length payload)"] by (simp add: frame_bytes_def)
  moreover have "be_bytes (put_be32 (length payload)) = length payload"
    using assms by (intro be32_roundtrip) (simp add: maxFrame_def)
  ultimately show ?thesis using assms by (simp add: ReadFrame_def read_full_append)
qed

text \<open>All frames of a stream, for a bounded number of reads.\<close>

fun read_frames :: "nat \<Rightarrow> string \<Rightarrow> (char \<times> string) list \<times> io_error option" where
  "read_frames 0 s = ([], None)"
| "read_frames (Suc n) s =
     (case ReadFrame s of
        Inl e \<Rightarrow> ([], Some e)
      | Inr (f, rest) \<Rightarrow> (case read_frames n rest of (fs, e) \<Rightarrow> (f # fs, e)))"

abbreviation append_writer :: "string \<Rightarrow> string \<Rightarrow> io_error option \<times> string" where
  "append_writer w b \<equiv> (None, w @ b)"

definition chunks_of :: "string \<Rightarrow> (char \<times> string) list \<Rightarrow> char \<Rightarrow> bool" where
  "chunks_of p fs kind \<longleftrightarrow> concat (map snd fs) = p \<and> (\<forall>f \<in> set fs. fst f = kind \<and> snd f \<noteq> [] \<and> length (snd f) \<le> dataChunk)"

lemma Data_frames:
  "\<exists>bs fs. Data append_writer kind p written w = (written + length p, None, w @ bs) \<and> chunks_of p fs kind \<and>
     bs = concat (map (\<lambda>f. frame_bytes (fst f) (snd f)) fs)"
proof (induction p arbitrary: written w rule: length_induct)
  case (1 p)
  show ?case
  proof (cases "p = []")
    case True
    then show ?thesis by (intro exI [of _ "[]"]) (simp add: Data.simps chunks_of_def)
  next
    case False
    let ?n = "min (length p) dataChunk"
    let ?b = "frame_bytes kind (take ?n p)"
    have n: "0 < ?n" using False by (simp add: dataChunk_def)
    then have shorter: "length (drop ?n p) < length p" using False by (cases p) auto
    with 1 obtain bs fs where ih: "Data append_writer kind (drop ?n p) (written + ?n) (w @ ?b) =
        (written + ?n + length (drop ?n p), None, (w @ ?b) @ bs)" "chunks_of (drop ?n p) fs kind"
        "bs = concat (map (\<lambda>f. frame_bytes (fst f) (snd f)) fs)"
      by blast
    have "\<not> maxFrame < length (take ?n p)" by (simp add: maxFrame_def dataChunk_def)
    then have "Data append_writer kind p written w = (written + length p, None, w @ ?b @ bs)"
      using False ih(1) by (subst Data.simps) (simp add: Frame_def Let_def)
    moreover have "chunks_of p ((kind, take ?n p) # fs) kind"
      using ih(2) n by (auto simp: chunks_of_def append_take_drop_id)
    ultimately show ?thesis using ih(3) by (intro exI [of _ "?b @ bs"] exI [of _ "(kind, take ?n p) # fs"]) simp
  qed
qed

lemma read_frames_written:
  assumes "\<forall>f \<in> set fs. length (snd f) \<le> maxFrame"
  shows "read_frames (Suc (length fs)) (concat (map (\<lambda>f. frame_bytes (fst f) (snd f)) fs)) = (fs, Some EOF)"
  using assms by (induction fs) (auto simp: ReadFrame_frame, simp add: ReadFrame_def read_full_def)

subsection \<open>Properties\<close>

text \<open>C25: What one side writes to the sandbox stream the other reads. Writing any bytes as data frames to a working stream reports all of them written, and
  reading the stream back gives, after finitely many frames and then a clean end of stream, frames of that kind only, none empty and none
  longer than 32 KiB, whose payloads in order are exactly the bytes written.\<close>

theorem data_frames_roundtrip:
  "\<exists>stream fs. Data append_writer kind p 0 [] = (length p, None, stream) \<and>
     read_frames (Suc (length fs)) stream = (fs, Some EOF) \<and> concat (map snd fs) = p \<and>
     list_all (\<lambda>f. fst f = kind \<and> 0 < length (snd f) \<and> length (snd f) \<le> dataChunk) fs"
proof -
  obtain bs fs where *: "Data append_writer kind p 0 [] = (length p, None, bs)" "chunks_of p fs kind"
    "bs = concat (map (\<lambda>f. frame_bytes (fst f) (snd f)) fs)"
    using Data_frames [of kind p 0 "[]"] by auto
  have "\<forall>f \<in> set fs. length (snd f) \<le> maxFrame"
    using *(2) by (auto simp: chunks_of_def maxFrame_def dataChunk_def)
  from read_frames_written [OF this] have "read_frames (Suc (length fs)) bs = (fs, Some EOF)" by (simp add: *(3))
  then show ?thesis using *(1,2) by (auto simp: chunks_of_def list_all_iff)
qed

end
