(* ===== verification/Egress_Policy.thy ===== *)
theory Egress_Policy
  imports Sandbox_Wire
begin

text \<open>
  The allowlist of the egress gateway, \<open>internal/egress/policy.go\<close>: its rules and their text form, which hosts a sandbox of a kind
  may reach, the target the containment probe is refused, and which addresses a tunnel may reach. The fingerprint of a policy is a SHA-256
  digest and is not modelled.

  The lemmas show that a rule printed is read back, that the probe target of a parsed policy is never allowed, and exactly which
  addresses are reachable.
\<close>

subsection \<open>Rules\<close>

type_synonym u16 = "16 word"

record rule =
  ru_Host :: string
  ru_Wildcard :: bool
  ru_Port :: u16

definition Rule_String :: "rule \<Rightarrow> string" where
  "Rule_String r =
     (let host = (if ru_Wildcard r then ''*.'' @ ru_Host r else ru_Host r) in
      if ru_Port r = 443 then host else host @ '':'' @ show_nat (unat (ru_Port r)))"

definition matches :: "rule \<Rightarrow> string \<Rightarrow> u16 \<Rightarrow> bool" where
  "matches r host port \<longleftrightarrow>
     port = ru_Port r \<and> (if ru_Wildcard r then has_suffix host (CHR ''.'' # ru_Host r) else host = ru_Host r)"

record policy =
  pol_Model :: "rule list"
  pol_Build :: "rule list"

definition allows :: "policy \<Rightarrow> string \<Rightarrow> string \<Rightarrow> u16 \<Rightarrow> bool" where
  "allows p kind host port =
     (let rules = (if kind = KindRunner then pol_Model p @ pol_Build p else if kind = KindVerify then pol_Build p else []) in
      list_ex (\<lambda>r. matches r host port) rules)"

definition probe_host :: "nat \<Rightarrow> string" where
  "probe_host i = ''octomus-probe-'' @ show_nat i @ ''.invalid''"

definition probeTarget :: "policy \<Rightarrow> string option" where
  "probeTarget p =
     (if \<not> allows p KindRunner ''example.com'' 443 then Some ''example.com:443''
      else map_option (\<lambda>host. host @ '':443'')
        (List.find (\<lambda>host. \<not> allows p KindRunner host 443)
           (map probe_host [0..<length (pol_Model p) + length (pol_Build p) + 1])))"

definition Describe :: "policy \<Rightarrow> string list \<times> string list" where
  "Describe p = (sort (map Rule_String (pol_Model p)), sort (map Rule_String (pol_Build p)))"

subsection \<open>Reading an allowlist\<close>

definition rule_sep :: "char \<Rightarrow> bool" where
  "rule_sep c \<longleftrightarrow> c = CHR '','' \<or> c = CHR '' '' \<or> c = CHR 0x0A \<or> c = CHR 0x09"

function rule_fields :: "string \<Rightarrow> string list" where
  "rule_fields s =
     (let t = dropWhile rule_sep s in
      if t = [] then [] else takeWhile (\<lambda>c. \<not> rule_sep c) t # rule_fields (dropWhile (\<lambda>c. \<not> rule_sep c) t))"
  by pat_completeness auto
termination
proof (relation "measure length")
  fix s t :: string
  assume t: "t = dropWhile rule_sep s" "t \<noteq> []"
  then have "\<not> rule_sep (hd t)" using hd_dropWhile by metis
  then have "length (dropWhile (\<lambda>c. \<not> rule_sep c) t) < length t"
    using t(2) by (cases t) (auto simp: less_Suc_eq_le intro: length_dropWhile_le)
  also have "length t \<le> length s" using t(1) length_dropWhile_le by simp
  finally show "(dropWhile (\<lambda>c. \<not> rule_sep c) t, s) \<in> measure length" by simp
qed simp

declare rule_fields.simps [simp del]

definition parse_port :: "string \<Rightarrow> u16 option" where
  "parse_port s =
     (if s = [] \<or> \<not> list_all digit_char s \<or> 65536 \<le> decimal_value s then None else Some (of_nat (decimal_value s)))"

datatype rule_error = InvalidPort string | NotHostName string host_error

definition parse_rule :: "unicode_tables \<Rightarrow> string \<Rightarrow> (rule_error, rule) result" where
  "parse_rule u entry =
     (let (host, port) = (case cut_first CHR '':'' entry of
            None \<Rightarrow> (entry, Some 443)
          | Some (host, txt0) \<Rightarrow> (host, case parse_port txt0 of None \<Rightarrow> None | Some p \<Rightarrow> if p = 0 then None else Some p)) in
      case port of
        None \<Rightarrow> Inl (InvalidPort entry)
      | Some p \<Rightarrow>
          let wildcard = has_prefix host ''*.''; name = (if wildcard then drop 2 host else host) in
          (case NormalizeHost u name of
             Inl e \<Rightarrow> Inl (NotHostName entry e)
           | Inr n \<Rightarrow> Inr \<lparr>ru_Host = n, ru_Wildcard = wildcard, ru_Port = p\<rparr>))"

fun parse_entries :: "unicode_tables \<Rightarrow> string list \<Rightarrow> (rule_error, rule list) result" where
  "parse_entries u [] = Inr []"
| "parse_entries u (e # es) =
     (case parse_rule u e of
        Inl err \<Rightarrow> Inl err
      | Inr r \<Rightarrow> (case parse_entries u es of Inl err \<Rightarrow> Inl err | Inr rs \<Rightarrow> Inr (r # rs)))"

definition ParseRules :: "unicode_tables \<Rightarrow> string \<Rightarrow> (rule_error, rule list) result" where
  "ParseRules u list0 = parse_entries u (rule_fields list0)"

definition PolicyFromEnv :: "unicode_tables \<Rightarrow> (string \<Rightarrow> string) \<Rightarrow> (string \<times> rule_error, policy) result" where
  "PolicyFromEnv u getenv =
     (case ParseRules u (getenv ''OCTOMUS_EGRESS_MODEL_HOSTS'') of
        Inl e \<Rightarrow> Inl (''OCTOMUS_EGRESS_MODEL_HOSTS'', e)
      | Inr m \<Rightarrow>
          (case ParseRules u (getenv ''OCTOMUS_EGRESS_BUILD_HOSTS'') of
             Inl e \<Rightarrow> Inl (''OCTOMUS_EGRESS_BUILD_HOSTS'', e)
           | Inr b \<Rightarrow> Inr \<lparr>pol_Model = m, pol_Build = b\<rparr>))"

subsection \<open>Public addresses\<close>

definition globalIPv6 :: net_prefix where
  "globalIPv6 = P6 0x20000000000000000000000000000000 3"

definition blockedPrefixes :: "net_prefix list" where
  "blockedPrefixes =
     [P4 0x00000000 8, P4 0x64400000 10, P4 0xc0000000 24, P4 0xc0000200 24, P4 0xc6120000 15, P4 0xc6336400 24,
      P4 0xcb007100 24, P4 0xf0000000 4, P4 0xffffffff 32,
      P6 0x0064ff9b000000000000000000000000 96, P6 0x0064ff9b000100000000000000000000 48,
      P6 0x01000000000000000000000000000000 64, P6 0x20010000000000000000000000000000 32,
      P6 0x20010002000000000000000000000000 48, P6 0x20010010000000000000000000000000 28,
      P6 0x20010020000000000000000000000000 28, P6 0x20010db8000000000000000000000000 32,
      P6 0x20020000000000000000000000000000 16, P6 0x3fff0000000000000000000000000000 20]"

definition publicAddress :: "addr \<Rightarrow> bool" where
  "publicAddress address =
     (let a = Unmap address in
      if a = ZeroAddr \<or> IsUnspecified a \<or> IsLoopback a \<or> IsPrivate a \<or> IsMulticast a \<or> IsLinkLocalUnicast a \<or>
         IsLinkLocalMulticast a \<or> IsInterfaceLocalMulticast a \<or> \<not> IsGlobalUnicast a \<or>
         addr_Is6 a \<and> \<not> prefix_Contains globalIPv6 a
      then False
      else \<not> list_ex (\<lambda>p. prefix_Contains p a) blockedPrefixes)"

subsection \<open>Lemmas: decimal numbers\<close>

lemma show_nat_digits: "list_all digit_char (show_nat n)" "show_nat n \<noteq> []"
proof (induction n rule: show_nat.induct)
  case (1 n)
  have d: "digit_char (char_of (48 + k))" if "k < 10" for k :: nat
    using that by (simp add: digit_char_def less_eq_char_def)
  {
    case 1
    then show ?case using "1.IH" d [of n] d [of "n mod 10"] by (subst show_nat.simps) simp
  next
    case 2
    then show ?case by (subst show_nat.simps) simp
  }
qed

lemma decimal_append: "decimal_value (s @ [c]) = 10 * decimal_value s + (byte c - 48)"
  by (simp add: decimal_value_def)

lemma decimal_show [simp]: "decimal_value (show_nat n) = n"
proof (induction n rule: show_nat.induct)
  case (1 n)
  show ?case
  proof (cases "n < 10")
    case True
    then show ?thesis by (subst show_nat.simps) (simp add: decimal_value_def)
  next
    case False
    with 1 show ?thesis by (subst show_nat.simps) (simp add: decimal_append)
  qed
qed

lemma show_nat_inj: "show_nat a = show_nat b \<longleftrightarrow> a = b"
  using decimal_show by metis

lemma show_nat_length: "n < 10 ^ k \<Longrightarrow> 0 < k \<Longrightarrow> length (show_nat n) \<le> k"
proof (induction n arbitrary: k rule: show_nat.induct)
  case (1 n)
  show ?case
  proof (cases "n < 10")
    case True
    with 1 show ?thesis by (subst show_nat.simps) simp
  next
    case False
    then obtain j where k: "k = Suc j" "0 < j" using "1.prems" by (cases k) (auto, cases "k - 1", auto)
    then have "n div 10 < 10 ^ j" using "1.prems" by (simp add: div_less_iff_less_mult mult.commute)
    with "1.IH" [OF False this k(2)] False k show ?thesis by (subst show_nat.simps) simp
  qed
qed

subsection \<open>Lemmas: reading rules\<close>

definition rule_wf :: "unicode_tables \<Rightarrow> rule \<Rightarrow> bool" where
  "rule_wf u r \<longleftrightarrow> NormalizeHost u (ru_Host r) = Inr (ru_Host r) \<and> ru_Port r \<noteq> 0"

lemma parse_rule_wf:
  assumes "parse_rule u e = Inr r"
  shows "rule_wf u r"
proof -
  obtain name p where "NormalizeHost u name = Inr (ru_Host r)" "ru_Port r = p" "p \<noteq> 0"
    using assms by (auto simp: parse_rule_def Let_def split: option.splits sum.splits if_splits)
  then show ?thesis using NormalizeHost_idem by (auto simp: rule_wf_def)
qed

lemma parse_entries_wf: "parse_entries u es = Inr rs \<Longrightarrow> r \<in> set rs \<Longrightarrow> rule_wf u r"
  by (induction es arbitrary: rs) (auto split: sum.splits intro: parse_rule_wf)

lemma host_plain:
  assumes "NormalizeHost u h = Inr h" and "c \<in> set h"
  shows "c \<noteq> CHR '':''" "c \<noteq> CHR ''*''" "\<not> rule_sep c" "c \<noteq> CHR ''[''" "c \<noteq> CHR '']''"
  using host_chars [OF NormalizeHost_Inr(3) [OF assms(1)] assms(2)]
  by (auto simp: label_char_def digit_char_def less_eq_char_def rule_sep_def)

lemma cut_first_append: "c \<notin> set a \<Longrightarrow> cut_first c (a @ c # b) = Some (a, b)"
  by (induction a) (auto simp: cut_first_def)

lemma rule_fields_single:
  assumes "s \<noteq> []" and "\<forall>c \<in> set s. \<not> rule_sep c"
  shows "rule_fields s = [s]"
proof -
  have "dropWhile rule_sep s = s" using assms by (cases s) auto
  moreover have "takeWhile (\<lambda>c. \<not> rule_sep c) s = s" "dropWhile (\<lambda>c. \<not> rule_sep c) s = []"
    using assms(2) by (simp_all add: takeWhile_eq_all_conv dropWhile_eq_Nil_conv)
  moreover have "rule_fields [] = []" by (simp add: rule_fields.simps)
  ultimately show ?thesis using assms(1) by (subst rule_fields.simps) (simp only: Let_def if_False)
qed

lemma digit_plain: "list_all digit_char s \<Longrightarrow> c \<in> set s \<Longrightarrow> \<not> rule_sep c \<and> c \<noteq> CHR '':''"
  by (auto simp: list_all_iff digit_char_def less_eq_char_def rule_sep_def)

lemma parse_port_show: "parse_port (show_nat (unat (p :: u16))) = Some p"
proof -
  have "unat p < 65536" using unsigned_less [of p, where ?'a = nat] by simp
  then show ?thesis using show_nat_digits by (simp add: parse_port_def)
qed

lemma parse_rule_print:
  assumes "rule_wf u r"
  shows "parse_rule u (Rule_String r) = Inr r" "\<forall>c \<in> set (Rule_String r). \<not> rule_sep c" "Rule_String r \<noteq> []"
proof -
  let ?h = "ru_Host r" and ?w = "if ru_Wildcard r then ''*.'' @ ru_Host r else ru_Host r"
  have n: "NormalizeHost u ?h = Inr ?h" and port: "ru_Port r \<noteq> 0" using assms by (simp_all add: rule_wf_def)
  note plain = host_plain [OF n] and ne = NormalizeHost_Inr(1) [OF n]
  have colon: "CHR '':'' \<notin> set ?w" using plain(1) by auto
  have cut: "cut_first CHR '':'' ?w = None" "cut_first CHR '':'' (?w @ CHR '':'' # t) = Some (?w, t)" for t
    by (simp only: cut_first_def colon if_False) (rule cut_first_append [OF colon])
  have "\<not> has_prefix ?h ''*.''" using plain(2) ne by (cases ?h) (auto simp: has_prefix_def)
  then have w: "has_prefix ?w ''*.'' = ru_Wildcard r" "(if has_prefix ?w ''*.'' then drop 2 ?w else ?w) = ?h"
    by (auto simp: has_prefix_def)
  show "parse_rule u (Rule_String r) = Inr r"
  proof (cases "ru_Port r = 443")
    case True
    then have "Rule_String r = ?w" by (simp add: Rule_String_def)
    then show ?thesis using w n True by (simp only: parse_rule_def cut) (simp add: Let_def)
  next
    case False
    then have "Rule_String r = ?w @ CHR '':'' # show_nat (unat (ru_Port r))" by (simp add: Rule_String_def)
    then show ?thesis using w n port by (simp only: parse_rule_def cut) (simp add: Let_def parse_port_show)
  qed
  show "Rule_String r \<noteq> []" using ne by (simp add: Rule_String_def Let_def)
  show "\<forall>c \<in> set (Rule_String r). \<not> rule_sep c"
    using plain(3) digit_plain [OF show_nat_digits(1)] by (auto simp: Rule_String_def Let_def rule_sep_def)
qed

subsection \<open>Lemmas: the probe target\<close>

lemma split_on_none: "d \<notin> set s \<Longrightarrow> split_on d s = [s]"
  by (induction s) auto

lemma split_on_count: "length (split_on d s) = Suc (count_list s d)"
  by (induction s) (auto split: list.splits)

lemma valid_label_plain: "ValidLabel l \<Longrightarrow> c \<in> set l \<Longrightarrow> c \<noteq> CHR ''.'' \<and> c \<noteq> CHR '':'' \<and> c \<noteq> CHR ''%'' \<and> c \<noteq> CHR ''['' \<and> c \<noteq> CHR '']''"
  using valid_label_char [of l c] by (auto simp: label_char_def digit_char_def less_eq_char_def)

lemma dropWhile_none: "\<forall>x \<in> set xs. \<not> P x \<Longrightarrow> dropWhile P xs = xs"
  by (cases xs) auto

text \<open>A name of two labels is a normal host name on its own.\<close>

lemma two_labels:
  assumes "ValidLabel a" and "ValidLabel b"
  defines "h \<equiv> a @ CHR ''.'' # b"
  shows "NormalizeHost u h = Inr h" "count_list h CHR ''.'' = 1" "SplitHostPort (h @ '':443'') = Some (h, ''443'')"
proof -
  have dots: "CHR ''.'' \<notin> set a" "CHR ''.'' \<notin> set b" using valid_label_plain assms(1,2) by blast+
  then have labels: "split_on CHR ''.'' h = [a, b]" unfolding h_def split_on_append by (simp add: split_on_none)
  have plain: "c \<noteq> CHR '':'' \<and> c \<noteq> CHR ''%'' \<and> c \<noteq> CHR ''['' \<and> c \<noteq> CHR '']''" if "c \<in> set h" for c
    using that valid_label_plain [OF assms(1), of c] valid_label_plain [OF assms(2), of c] by (auto simp: h_def)
  have "trim_brackets h = h" using plain by (simp add: trim_brackets_def dropWhile_none)
  moreover have "ParseAddr h = None"
  proof -
    have "filter (\<lambda>c. c = CHR ''.'' \<or> c = CHR '':'' \<or> c = CHR ''%'') h = filter (\<lambda>c. c = CHR ''.'') h"
      using plain by (intro filter_cong) auto
    moreover have "filter (\<lambda>c. c = CHR ''.'') a = []" "filter (\<lambda>c. c = CHR ''.'') b = []"
      using dots by (auto simp: filter_empty_conv)
    then have "filter (\<lambda>c. c = CHR ''.'') h = [CHR ''.'']" by (simp add: h_def)
    ultimately show ?thesis by (simp add: ParseAddr_def parse_ipv4_def parse_ipv4_fields_def labels)
  qed
  moreover have "length h \<le> 253" "h \<noteq> []" using assms(1,2) by (auto simp: h_def ValidLabel_def)
  ultimately show "NormalizeHost u h = Inr h" using assms(1,2) labels by (intro NormalizeHost_accepts) auto
  show "count_list h CHR ''.'' = 1" using split_on_count [of "CHR ''.''" h] labels by simp
  have colon: "CHR '':'' \<notin> set h" "CHR ''['' \<notin> set h" "CHR '']'' \<notin> set h" using plain by blast+
  have "last_colon (h @ '':443'') = Some (length h)" by (simp add: last_colon_def)
  moreover have "hd (h @ '':443'') \<noteq> CHR ''[''" using colon(2) by (cases h) auto
  ultimately show "SplitHostPort (h @ '':443'') = Some (h, ''443'')" using colon by (simp add: SplitHostPort_def)
qed

lemma label_digit: "digit_char c \<Longrightarrow> label_char c"
  by (simp add: label_char_def)

lemma probe_label:
  assumes "i < 10 ^ 40"
  shows "ValidLabel (''octomus-probe-'' @ show_nat i)"
proof -
  have "length (show_nat i) \<le> 40" using show_nat_length [OF assms] by simp
  moreover have "label_char (last (show_nat i))"
    using show_nat_digits [of i] last_in_set by (auto simp: list_all_iff intro: label_digit)
  moreover have "list_all (\<lambda>c. label_char c \<or> c = CHR ''-'') ''octomus-probe-''"
    by (simp add: label_char_def digit_char_def less_eq_char_def)
  moreover have "list_all (\<lambda>c. label_char c \<or> c = CHR ''-'') (show_nat i)"
    using show_nat_digits(1) [of i] label_digit by (auto simp: list_all_iff)
  moreover have "label_char (CHR ''o'')" by (simp add: label_char_def less_eq_char_def)
  ultimately show ?thesis using show_nat_digits(2) [of i] by (simp add: ValidLabel_def)
qed

lemma fixed_labels: "ValidLabel ''invalid''" "ValidLabel ''example''" "ValidLabel ''com''"
  by (simp_all add: ValidLabel_def label_char_def digit_char_def less_eq_char_def)

lemma probe_host_inj: "probe_host i = probe_host j \<longleftrightarrow> i = j"
  by (simp add: probe_host_def show_nat_inj)

text \<open>A rule of a parsed allowlist that matches a name of two labels names it exactly.\<close>

lemma matches_two_labels:
  assumes "rule_wf u r" and "matches r h port" and "count_list h CHR ''.'' = 1"
  shows "ru_Host r = h"
proof (rule ccontr)
  assume "ru_Host r \<noteq> h"
  then obtain a where h: "h = a @ CHR ''.'' # ru_Host r"
    using assms(2) by (auto simp: matches_def has_suffix_def suffix_def split: if_splits)
  have "1 \<le> count_list (ru_Host r) CHR ''.''"
    using NormalizeHost_Inr(4) assms(1) split_on_count [of "CHR ''.''" "ru_Host r"] by (fastforce simp: rule_wf_def)
  then show False using assms(3) by (simp add: h)
qed

definition policy_wf :: "unicode_tables \<Rightarrow> policy \<Rightarrow> bool" where
  "policy_wf u p \<longleftrightarrow> (\<forall>r \<in> set (pol_Model p @ pol_Build p). rule_wf u r)"

lemma PolicyFromEnv_wf: "PolicyFromEnv u getenv = Inr p \<Longrightarrow> policy_wf u p"
  by (auto simp: PolicyFromEnv_def ParseRules_def policy_wf_def intro: parse_entries_wf split: sum.splits)

lemma some_probe_denied:
  assumes "policy_wf u p" and "length (pol_Model p) + length (pol_Build p) < 2 ^ 63"
  defines "n \<equiv> length (pol_Model p) + length (pol_Build p)"
  shows "\<exists>i \<le> n. \<not> allows p KindRunner (probe_host i) 443"
proof (rule ccontr)
  assume "\<not> ?thesis"
  then have all: "allows p KindRunner (probe_host i) 443" if "i \<le> n" for i using that by blast
  let ?rs = "pol_Model p @ pol_Build p"
  have "probe_host i \<in> ru_Host ` set ?rs" if i: "i \<le> n" for i
  proof -
    obtain r where r: "r \<in> set ?rs" "matches r (probe_host i) 443"
      using all [OF i] by (auto simp: allows_def list_ex_iff)
    have "i < 10 ^ 40" using i assms(2) by (simp add: n_def)
    from two_labels(2) [OF probe_label [OF this] fixed_labels(1)]
    have "count_list (probe_host i) CHR ''.'' = 1" by (simp add: probe_host_def)
    from matches_two_labels [OF _ r(2) this] r(1) assms(1) show ?thesis by (force simp: policy_wf_def)
  qed
  then have "probe_host ` {..n} \<subseteq> ru_Host ` set ?rs" by blast
  then have "card (probe_host ` {..n}) \<le> card (ru_Host ` set ?rs)" by (intro card_mono) auto
  also have "\<dots> \<le> length ?rs" using card_image_le [of "set ?rs" ru_Host] card_length [of ?rs] by (meson List.finite_set le_trans)
  finally show False by (simp add: card_image inj_on_def probe_host_inj n_def)
qed

subsection \<open>Lemmas: address ranges\<close>

lemma div_interval: "0 < m \<Longrightarrow> x div m = k \<longleftrightarrow> m * k \<le> x \<and> x < m * (k + 1)" for x m k :: nat
  by (metis add.commute div_nat_eqI dividend_less_times_div less_eq_div_iff_mult_less_eq mult.commute order_refl plus_1_eq_Suc
      mult_Suc_right)

lemma unat_drop: "unat (drop_bit n x) = unat x div 2 ^ n" for x :: "'a::len word"
  unfolding unat_drop_bit_eq by (rule drop_bit_eq_div)

lemma drop_bit_unat: "drop_bit n x = y \<longleftrightarrow> unat x div 2 ^ n = unat y" for x y :: "'a::len word"
  unfolding unat_drop [symmetric] by (rule word_unat_eq_iff)

definition ip4 :: "nat \<Rightarrow> nat \<Rightarrow> nat \<Rightarrow> nat \<Rightarrow> nat" where
  "ip4 a b c d = 256 * (256 * (256 * a + b) + c) + d"

definition reserved_v4 :: "(nat \<times> nat) list" where
  "reserved_v4 =
     [(ip4 0 0 0 0, ip4 0 255 255 255), (ip4 10 0 0 0, ip4 10 255 255 255), (ip4 100 64 0 0, ip4 100 127 255 255),
      (ip4 127 0 0 0, ip4 127 255 255 255), (ip4 169 254 0 0, ip4 169 254 255 255), (ip4 172 16 0 0, ip4 172 31 255 255),
      (ip4 192 0 0 0, ip4 192 0 0 255), (ip4 192 0 2 0, ip4 192 0 2 255), (ip4 192 168 0 0, ip4 192 168 255 255),
      (ip4 198 18 0 0, ip4 198 19 255 255), (ip4 198 51 100 0, ip4 198 51 100 255), (ip4 203 0 113 0, ip4 203 0 113 255),
      (ip4 224 0 0 0, ip4 255 255 255 255)]"

definition within :: "nat \<Rightarrow> nat \<times> nat \<Rightarrow> bool" where
  "within x r \<longleftrightarrow> fst r \<le> x \<and> x \<le> snd r"

lemma prefix_within: "unat x div 2 ^ n = k \<longleftrightarrow> within (unat x) (2 ^ n * k, 2 ^ n * k + (2 ^ n - 1))" for x :: "'a::len word"
proof -
  obtain m where m: "(2 :: nat) ^ n = Suc m" by (metis Suc_pred zero_less_power zero_less_numeral)
  then show ?thesis unfolding m div_interval [OF zero_less_Suc] within_def by (auto simp: algebra_simps)
qed

lemma public_v4: "publicAddress (V4 x) \<longleftrightarrow> \<not> list_ex (within (unat x)) reserved_v4"
proof -
  let ?in = "\<lambda>lo hi. within (unat x) (lo, hi)"
  have b: "unat x < 4294967296" using unsigned_less [of x, where ?'a = nat] by simp
  have o: "octet x 24 = unat x div 2 ^ 24" using b by (simp add: octet_def unat_drop)
  have classes: "IsLoopback (V4 x) = ?in 2130706432 2147483647"
    "IsPrivate (V4 x) = (?in 167772160 184549375 \<or> ?in 2886729728 2887778303 \<or> ?in 3232235520 3232301055)"
    "IsMulticast (V4 x) = ?in 3758096384 4026531839" "IsLinkLocalUnicast (V4 x) = ?in 2851995648 2852061183"
    "IsLinkLocalMulticast (V4 x) = ?in 3758096384 3758096639"
    by (simp_all only: IsLoopback.simps IsPrivate.simps IsMulticast.simps IsLinkLocalUnicast.simps IsLinkLocalMulticast.simps
        drop_bit_unat o prefix_within) simp_all
  have blocked: "list_ex (\<lambda>p. prefix_Contains p (V4 x)) blockedPrefixes \<longleftrightarrow>
      ?in 0 16777215 \<or> ?in 1681915904 1686110207 \<or> ?in 3221225472 3221225727 \<or> ?in 3221225984 3221226239 \<or> ?in 3323068416 3323199487 \<or>
      ?in 3325256704 3325256959 \<or> ?in 3405803776 3405804031 \<or> ?in 4026531840 4294967295 \<or> ?in 4294967295 4294967295"
    by (simp only: blockedPrefixes_def list_ex_Nil_iff list_ex_Cons_iff prefix_Contains.simps simp_thms drop_bit_unat prefix_within unat_drop) simp
  have zero: "x = 0 \<Longrightarrow> ?in 0 16777215" "x = 0xffffffff \<Longrightarrow> ?in 4026531840 4294967295" by (simp_all add: within_def)
  have top: "?in 3758096384 4294967295 \<longleftrightarrow> ?in 3758096384 4026531839 \<or> ?in 4026531840 4294967295" by (auto simp: within_def)
  have sub: "?in 3758096384 3758096639 \<Longrightarrow> ?in 3758096384 4026531839" "?in 4294967295 4294967295 \<Longrightarrow> ?in 4026531840 4294967295"
    by (simp_all add: within_def)
  have "publicAddress (V4 x) \<longleftrightarrow> x \<noteq> 0 \<and> x \<noteq> 0xffffffff \<and> \<not> IsLoopback (V4 x) \<and> \<not> IsPrivate (V4 x) \<and> \<not> IsMulticast (V4 x) \<and>
      \<not> IsLinkLocalUnicast (V4 x) \<and> \<not> IsLinkLocalMulticast (V4 x) \<and> \<not> list_ex (\<lambda>p. prefix_Contains p (V4 x)) blockedPrefixes"
    by (simp only: publicAddress_def Unmap_def Let_def IsUnspecified_def IsGlobalUnicast_def IsInterfaceLocalMulticast.simps addr_Is6.simps
        addr.simps simp_thms if_bool_eq_conj) blast
  also have "\<dots> \<longleftrightarrow> \<not> list_ex (within (unat x)) reserved_v4"
    unfolding classes blocked reserved_v4_def ip4_def by simp (use zero top sub in blast)
  finally show ?thesis .
qed

definition reserved_v6 :: "(nat \<times> nat) list" where
  "reserved_v6 =
     [(0x20010000 * 2 ^ 96, 0x20010001 * 2 ^ 96 - 1), (0x200100020000 * 2 ^ 80, 0x200100020001 * 2 ^ 80 - 1),
      (0x2001001 * 2 ^ 100, 0x2001002 * 2 ^ 100 - 1), (0x2001002 * 2 ^ 100, 0x2001003 * 2 ^ 100 - 1),
      (0x20010db8 * 2 ^ 96, 0x20010db9 * 2 ^ 96 - 1), (0x2002 * 2 ^ 112, 0x2003 * 2 ^ 112 - 1),
      (0x3fff0 * 2 ^ 108, 0x3fff1 * 2 ^ 108 - 1)]"

lemma mask_high: "drop_bit 112 x AND 0xff0f = y \<Longrightarrow> unat y \<le> unat x div 2 ^ 112" for x y :: "128 word"
  using word_and_le1 [of "0xff0f" "drop_bit 112 x"] word_and_le2 [of "drop_bit 112 x" "0xff0f"]
  by (metis unat_drop word_le_nat_alt)

lemma public_v6:
  assumes "drop_bit 32 x \<noteq> 0xffff"
  shows "publicAddress (V6 x z) \<longleftrightarrow> z = [] \<and> within (unat x) (2 ^ 125, 2 ^ 126 - 1) \<and> \<not> list_ex (within (unat x)) reserved_v6"
proof (cases "z = [] \<and> within (unat x) (2 ^ 125, 2 ^ 126 - 1)")
  case False
  have "prefix_Contains globalIPv6 (V6 x z) \<longleftrightarrow> z = [] \<and> within (unat x) (2 ^ 125, 2 ^ 126 - 1)"
    by (simp only: globalIPv6_def prefix_Contains.simps drop_bit_unat prefix_within unat_drop) simp
  then have "\<not> prefix_Contains globalIPv6 (V6 x z)" using False by simp
  with assms have "\<not> publicAddress (V6 x z)" by (simp add: publicAddress_def Unmap_def Let_def)
  with False show ?thesis by blast
next
  case True
  let ?in = "\<lambda>lo hi. within (unat x) (lo, hi)"
  have z: "z = []" and lo: "2 ^ 125 \<le> unat x" and hi: "unat x < 2 ^ 126" using True by (simp_all add: within_def)
  have global: "prefix_Contains globalIPv6 (V6 x z)"
    using True by (simp only: globalIPv6_def prefix_Contains.simps drop_bit_unat prefix_within unat_drop) simp
  have not: "x \<noteq> 0" "x \<noteq> 1" using lo by auto
  have "unat x div 2 ^ 121 \<noteq> 0x7e" "unat x div 2 ^ 120 \<noteq> 0xff" "unat x div 2 ^ 118 \<noteq> 0x3fa" "unat x div 2 ^ 112 < 0xff00"
    using hi by (simp_all add: prefix_within within_def div_less_iff_less_mult)
  then have classes: "\<not> IsPrivate (V6 x z)" "\<not> IsMulticast (V6 x z)" "\<not> IsLinkLocalUnicast (V6 x z)"
    "\<not> IsLinkLocalMulticast (V6 x z)" "\<not> IsInterfaceLocalMulticast (V6 x z)"
    using mask_high [where x = x] by (fastforce simp: drop_bit_unat)+
  have blocked: "list_ex (\<lambda>p. prefix_Contains p (V6 x z)) blockedPrefixes \<longleftrightarrow> list_ex (within (unat x)) reserved_v6"
    using lo
    by (simp only: blockedPrefixes_def list_ex_Nil_iff list_ex_Cons_iff prefix_Contains.simps simp_thms drop_bit_unat prefix_within unat_drop
        reserved_v6_def z) (simp add: within_def)
  from not classes global blocked assms True show ?thesis
    by (simp add: publicAddress_def Unmap_def Let_def IsUnspecified_def IsGlobalUnicast_def)
qed

subsection \<open>Properties\<close>

text \<open>C20: Exactly the addresses the gateway may connect to. An address is first stripped of an IPv4-in-IPv6 mapping. An IPv4 address is reachable exactly when
  it lies in none of the thirteen reserved intervals (this network, private, carrier-grade NAT, loopback, link-local with the cloud metadata
  service, protocol assignments, documentation, benchmarking, multicast and everything above); an IPv6 address exactly when it has no zone, lies in
  \<open>2000::/3\<close> and in none of the Teredo, benchmarking, ORCHID, documentation and 6to4 intervals; the zero address never.\<close>

theorem public_addresses_exact:
  "publicAddress a =
     (case Unmap a of
        ZeroAddr \<Rightarrow> False
      | V4 x \<Rightarrow> \<not> list_ex (within (unat x)) reserved_v4
      | V6 x z \<Rightarrow> z = [] \<and> within (unat x) (2 ^ 125, 2 ^ 126 - 1) \<and> \<not> list_ex (within (unat x)) reserved_v6)"
proof -
  have idem: "Unmap (Unmap a) = Unmap a" by (cases a) (auto simp: Unmap_def)
  then have "publicAddress a = publicAddress (Unmap a)" by (simp add: publicAddress_def)
  also have "\<dots> = (case Unmap a of
        ZeroAddr \<Rightarrow> False
      | V4 x \<Rightarrow> \<not> list_ex (within (unat x)) reserved_v4
      | V6 x z \<Rightarrow> z = [] \<and> within (unat x) (2 ^ 125, 2 ^ 126 - 1) \<and> \<not> list_ex (within (unat x)) reserved_v6)"
  proof (cases "Unmap a")
    case ZeroAddr
    then show ?thesis by (simp add: publicAddress_def Unmap_def)
  next
    case (V4 x)
    then show ?thesis by (simp add: public_v4)
  next
    case (V6 x z)
    then have "drop_bit 32 x \<noteq> 0xffff" by (cases a) (auto simp: Unmap_def split: if_splits)
    then show ?thesis by (simp add: V6 public_v6 del: power_numeral_even)
  qed
  finally show ?thesis .
qed

text \<open>The containment probe always has something to be refused. Under every policy read from the environment the gateway offers a probe target; it is a valid
  target, and no runner sandbox is allowed to reach it, even when the whole allowlist names the candidates: there is one more candidate than
  there are rules, and no wildcard rule covers a name of two labels.\<close>

lemma probe_target_denied:
  assumes "PolicyFromEnv u getenv = Inr p" and "length (pol_Model p) + length (pol_Build p) < 2 ^ 63"
  shows "\<exists>host. probeTarget p = Some (host @ '':443'') \<and> ValidProbeTarget u (host @ '':443'') \<and> \<not> allows p KindRunner host 443 \<and>
     \<not> allows p KindVerify host 443"
proof -
  let ?denied = "\<lambda>h. \<not> allows p KindRunner h 443"
  have verify: "\<not> allows p KindVerify h 443" if "?denied h" for h
    using that by (auto simp: allows_def KindRunner_def KindVerify_def)
  have valid: "ValidProbeTarget u ((a @ CHR ''.'' # b) @ '':443'')" if "ValidLabel a" "ValidLabel b" for a b
    using two_labels(1) [OF that, of u] two_labels(3) [OF that] by (simp add: ValidProbeTarget_def)
  show ?thesis
  proof (cases "?denied ''example.com''")
    case True
    then show ?thesis
      using valid [OF fixed_labels(2,3)] verify by (intro exI [of _ "''example.com''"]) (simp add: probeTarget_def)
  next
    case False
    let ?n = "length (pol_Model p) + length (pol_Build p)"
    obtain k where k: "k \<le> ?n" "?denied (probe_host k)"
      using some_probe_denied [OF PolicyFromEnv_wf [OF assms(1)] assms(2)] by blast
    then have "probe_host k \<in> set (map probe_host [0..<?n + 1])" by (simp del: upt_Suc)
    then have "List.find ?denied (map probe_host [0..<?n + 1]) \<noteq> None" using k(2) by (metis find_None_iff)
    then obtain h where h: "List.find ?denied (map probe_host [0..<?n + 1]) = Some h" by blast
    then obtain i where i: "i \<le> ?n" "h = probe_host i" "?denied h"
      by (auto simp: find_Some_iff less_Suc_eq_le simp del: upt_Suc)
    then have "i < 10 ^ 40" using assms(2) by simp
    from valid [OF probe_label [OF this] fixed_labels(1)] have "ValidProbeTarget u (h @ '':443'')" by (simp add: i(2) probe_host_def)
    then show ?thesis using h i verify False by (intro exI [of _ h]) (simp add: probeTarget_def)
  qed
qed

definition ascii_env :: unicode_tables where
  "ascii_env = \<lparr>to_lower_rune = (\<lambda>r. r), cased_rune = (\<lambda>_. False), ignorable_rune = (\<lambda>_. False), cases_lower = (\<lambda>s. s)\<rparr>"

lemma sample_policy: "PolicyFromEnv ascii_env (\<lambda>k. if k = ''OCTOMUS_EGRESS_MODEL_HOSTS'' then ''example.com'' else []) =
    Inr \<lparr>pol_Model = [\<lparr>ru_Host = ''example.com'', ru_Wildcard = False, ru_Port = 443\<rparr>], pol_Build = []\<rparr>"
proof -
  have "NormalizeHost ascii_env ''example.com'' = Inr ''example.com''"
    using two_labels(1) [OF fixed_labels(2,3)] by simp
  then have "parse_rule ascii_env ''example.com'' = Inr \<lparr>ru_Host = ''example.com'', ru_Wildcard = False, ru_Port = 443\<rparr>"
    by (simp add: parse_rule_def cut_first_def has_prefix_def)
  moreover have "rule_fields ''example.com'' = [''example.com'']" "rule_fields [] = []"
    by (simp_all add: rule_fields_single rule_sep_def rule_fields.simps)
  ultimately show ?thesis by (simp add: PolicyFromEnv_def ParseRules_def)
qed

lemma probe_target_denied_witness:
  "\<exists>host. probeTarget \<lparr>pol_Model = [\<lparr>ru_Host = ''example.com'', ru_Wildcard = False, ru_Port = 443\<rparr>], pol_Build = []\<rparr> = Some (host @ '':443'') \<and>
     ValidProbeTarget ascii_env (host @ '':443'') \<and> host \<noteq> ''example.com''"
proof -
  let ?p = "\<lparr>pol_Model = [\<lparr>ru_Host = ''example.com'', ru_Wildcard = False, ru_Port = 443\<rparr>], pol_Build = []\<rparr>"
  have "allows ?p KindRunner ''example.com'' 443" by (simp add: allows_def matches_def)
  with probe_target_denied [OF sample_policy] show ?thesis by auto
qed

text \<open>An allowlist survives printing. Every rule the parser accepts prints as an entry, without separators in it, that the parser reads back as exactly that
  rule: host, wildcard and port.\<close>

lemma printed_rules_reparse:
  assumes "ParseRules u text0 = Inr rules"
  shows "list_all (\<lambda>r. ParseRules u (Rule_String r) = Inr [r]) rules"
proof -
  have "ParseRules u (Rule_String r) = Inr [r]" if "rule_wf u r" for r
    using parse_rule_print [OF that] by (simp add: ParseRules_def rule_fields_single)
  then show ?thesis using assms parse_entries_wf by (auto simp: ParseRules_def list_all_iff)
qed

lemma printed_rules_reparse_witness:
  "ParseRules ascii_env ''example.com'' = Inr [\<lparr>ru_Host = ''example.com'', ru_Wildcard = False, ru_Port = 443\<rparr>] \<and>
     ParseRules ascii_env (Rule_String \<lparr>ru_Host = ''example.com'', ru_Wildcard = False, ru_Port = 443\<rparr>) =
       Inr [\<lparr>ru_Host = ''example.com'', ru_Wildcard = False, ru_Port = 443\<rparr>]"
proof -
  have "ParseRules ascii_env ''example.com'' = Inr [\<lparr>ru_Host = ''example.com'', ru_Wildcard = False, ru_Port = 443\<rparr>]"
    using sample_policy by (auto simp: PolicyFromEnv_def split: sum.splits)
  with printed_rules_reparse [OF this] show ?thesis by simp
qed

end
