(* ===== verification/Egress_Hello.thy ===== *)
theory Egress_Hello
  imports Egress_Policy
begin

text \<open>
  Inspection of the TLS ClientHello that opens a tunnel, \<open>internal/egress/clienthello.go\<close>. The client's bytes are a finite stream; a read that
  finds too few of them ends with the stream's error. The bit set of extensions already seen is the list of their kinds.

  The lemmas give the byte strings that are accepted: encodings of a ClientHello whose only server name is the host of the tunnel.
\<close>

subsection \<open>Errors and limits\<close>

datatype hello_error =
    HelloIO io_error
  | MalformedHello
  | LargeHello
  | PlaintextRequired
  | FirstMustBeHello
  | EncryptedHello
  | RequiresName
  | NameMismatch

definition hello_text :: "hello_error \<Rightarrow> string option" where
  "hello_text e =
     (case e of
        HelloIO _ \<Rightarrow> None
      | MalformedHello \<Rightarrow> Some ''malformed TLS ClientHello''
      | LargeHello \<Rightarrow> Some ''TLS ClientHello exceeds the inspection limit''
      | PlaintextRequired \<Rightarrow> Some ''a plaintext TLS ClientHello is required''
      | FirstMustBeHello \<Rightarrow> Some ''the first TLS handshake must be a ClientHello''
      | EncryptedHello \<Rightarrow> Some ''encrypted ClientHello is not allowed''
      | RequiresName \<Rightarrow> Some ''TLS ClientHello requires plaintext SNI''
      | NameMismatch \<Rightarrow> Some ''TLS server name does not match CONNECT host'')"

definition maxClientHello :: nat where
  "maxClientHello = 65536"

definition maxClientHelloWire :: nat where
  "maxClientHelloWire = 131072"

definition maxTLSPlaintext :: nat where
  "maxTLSPlaintext = 16384"

subsection \<open>Vectors\<close>

definition tlsVector :: "nat \<Rightarrow> string \<Rightarrow> (string \<times> string) option" where
  "tlsVector width data =
     (if length data < width then None
      else let n = (if width = 2 then be_bytes (take 2 data) else byte (data ! 0)); rest = drop width data in
        if length rest < n then None else Some (take n rest, drop n rest))"

definition checkServerName :: "unicode_tables \<Rightarrow> string \<Rightarrow> string \<Rightarrow> hello_error go_error" where
  "checkServerName u data host =
     (case tlsVector 2 data of
        None \<Rightarrow> Some MalformedHello
      | Some (names, rest) \<Rightarrow>
          if rest \<noteq> [] \<or> names = [] \<or> byte (names ! 0) \<noteq> 0 then Some MalformedHello
          else (case tlsVector 2 (drop 1 names) of
                  None \<Rightarrow> Some MalformedHello
                | Some (name, rest') \<Rightarrow>
                    if rest' \<noteq> [] \<or> name = [] \<or> has_suffix name ''.'' \<or> list_ex (\<lambda>c. 127 < byte c) name then Some MalformedHello
                    else (case NormalizeHost u name of
                            Inl _ \<Rightarrow> Some MalformedHello
                          | Inr n \<Rightarrow> if n \<noteq> host then Some NameMismatch else None)))"

lemma tlsVector_shorter: "tlsVector 2 data = Some (v, rest) \<Longrightarrow> length rest < length data"
  by (auto simp: tlsVector_def Let_def split: if_splits)

function check_extensions :: "unicode_tables \<Rightarrow> string \<Rightarrow> nat list \<Rightarrow> bool \<Rightarrow> string \<Rightarrow> hello_error go_error" where
  "check_extensions u host seen found exts =
     (if exts = [] then (if found then None else Some RequiresName)
      else if length exts < 4 then Some MalformedHello
      else let kind = be_bytes (take 2 exts) in
        (case tlsVector 2 (drop 2 exts) of
           None \<Rightarrow> Some MalformedHello
         | Some (val, rest) \<Rightarrow>
             if kind \<in> set seen then Some MalformedHello
             else if kind = 0 then
               (case checkServerName u val host of
                  Some e \<Rightarrow> Some e
                | None \<Rightarrow> check_extensions u host (kind # seen) True rest)
             else if kind = 0xfe0d then Some EncryptedHello
             else check_extensions u host (kind # seen) found rest))"
  by pat_completeness auto
termination
  by (relation "measure (\<lambda>(u, host, seen, found, exts). length exts)") (auto dest: tlsVector_shorter)

declare check_extensions.simps [simp del]

definition checkClientHello :: "unicode_tables \<Rightarrow> string \<Rightarrow> string \<Rightarrow> hello_error go_error" where
  "checkClientHello u data host =
     (if length data < 34 \<or> byte (data ! 0) \<noteq> 3 \<or> byte (data ! 1) < 1 \<or> 3 < byte (data ! 1) then Some MalformedHello
      else case tlsVector 1 (drop 34 data) of
          None \<Rightarrow> Some MalformedHello
        | Some (session, d1) \<Rightarrow>
            if 32 < length session then Some MalformedHello
            else (case tlsVector 2 d1 of
                None \<Rightarrow> Some MalformedHello
              | Some (ciphers, d2) \<Rightarrow>
                  if length ciphers < 2 \<or> odd (length ciphers) then Some MalformedHello
                  else (case tlsVector 1 d2 of
                      None \<Rightarrow> Some MalformedHello
                    | Some (compression, d3) \<Rightarrow>
                        if compression = [] then Some MalformedHello
                        else (case tlsVector 2 d3 of
                            None \<Rightarrow> Some MalformedHello
                          | Some (extensions, d4) \<Rightarrow>
                              if d4 \<noteq> [] then Some MalformedHello else check_extensions u host [] False extensions))))"

subsection \<open>Records\<close>

text \<open>The loop of \<open>readClientHello\<close>: the records and the handshake bytes read so far, the number of bytes wanted and the rest of the stream.\<close>

function read_records :: "string \<Rightarrow> string \<Rightarrow> nat \<Rightarrow> string \<Rightarrow> (hello_error, string \<times> string \<times> nat \<times> string) result" where
  "read_records records message want s =
     (if want \<le> length message then Inr (records, message, want, s)
      else case read_full 5 s of
          Inl e \<Rightarrow> Inl (HelloIO e)
        | Inr (header, s1) \<Rightarrow>
            if byte (header ! 0) \<noteq> 22 \<or> byte (header ! 1) \<noteq> 3 \<or> byte (header ! 2) < 1 \<or> 3 < byte (header ! 2)
            then Inl PlaintextRequired
            else let n = be_bytes (drop 3 header) in
              if n = 0 \<or> maxTLSPlaintext < n then Inl MalformedHello
              else if maxClientHelloWire < length records + 5 + n then Inl LargeHello
              else (case read_full n s1 of
                  Inl e \<Rightarrow> Inl (HelloIO e)
                | Inr (payload, s2) \<Rightarrow>
                    let records' = records @ header @ payload; message' = message @ payload in
                    if 4 \<le> length message' then
                      (if byte (message' ! 0) \<noteq> 1 then Inl FirstMustBeHello
                       else let m = be_bytes (take 3 (drop 1 message')) in
                         if maxClientHello - 4 < m then Inl LargeHello
                         else read_records records' message' (4 + m) s2)
                    else read_records records' message' want s2))"
  by pat_completeness auto
termination
  by (relation "measure (\<lambda>(records, message, want, s). length s)") (auto simp: read_full_def split: if_splits)

declare read_records.simps [simp del]

definition readClientHello :: "unicode_tables \<Rightarrow> string \<Rightarrow> string \<Rightarrow> (hello_error, string \<times> string) result" where
  "readClientHello u s host =
     (case read_records [] [] 4 s of
        Inl e \<Rightarrow> Inl e
      | Inr (records, message, want, rest) \<Rightarrow>
          (case checkClientHello u (drop 4 (take want message)) host of
             Some e \<Rightarrow> Inl e
           | None \<Rightarrow> Inr (records, rest)))"

subsection \<open>The encoding of an accepted ClientHello\<close>

definition put_be16 :: "nat \<Rightarrow> string" where
  "put_be16 n = [char_of (n div 256), char_of n]"

definition vec1 :: "string \<Rightarrow> string" where
  "vec1 v = char_of (length v) # v"

definition vec2 :: "string \<Rightarrow> string" where
  "vec2 v = put_be16 (length v) @ v"

lemma byte_less: "byte c < 256"
  using of_char_mod_256 [of c, where ?'a = nat] by (metis mod_less_divisor zero_less_numeral)

lemma char_mod: "char_of (256 * k + byte c) = c"
  using char_of_mod_256 [of "256 * k + byte c"] char_of_mod_256 [of "byte c"] by simp

lemma be_bytes_two: "be_bytes [a, b] = 256 * byte a + byte b"
  by (simp add: be_bytes_def be_value_def)

lemma put_be16_bytes: "put_be16 (be_bytes [a, b]) = [a, b]"
  using byte_less [of b] by (simp add: be_bytes_two put_be16_def char_mod)

lemma take_two: "2 \<le> length d \<Longrightarrow> \<exists>a b. take 2 d = [a, b] \<and> d = a # b # drop 2 d"
  by (cases d; cases "tl d") auto

lemma tlsVector_two:
  assumes "tlsVector 2 d = Some (v, rest)"
  shows "d = vec2 v @ rest"
proof -
  have d: "2 \<le> length d" "length (drop 2 d) \<ge> be_bytes (take 2 d)" "v = take (be_bytes (take 2 d)) (drop 2 d)"
    "rest = drop (be_bytes (take 2 d)) (drop 2 d)"
    using assms by (auto simp: tlsVector_def Let_def split: if_splits)
  obtain a b where ab: "take 2 d = [a, b]" "d = a # b # drop 2 d" using take_two [OF d(1)] by blast
  have "length v = be_bytes [a, b]" using d ab(1) by simp
  then have "vec2 v = [a, b] @ v" using put_be16_bytes [of a b] by (simp add: vec2_def)
  moreover have "v @ rest = drop 2 d" unfolding d(3,4) by (rule append_take_drop_id)
  ultimately show ?thesis using ab(2) by simp
qed

lemma tlsVector_one:
  assumes "tlsVector 1 d = Some (v, rest)"
  shows "d = vec1 v @ rest"
proof -
  obtain c t where d: "d = c # t" using assms by (cases d) (auto simp: tlsVector_def)
  then show ?thesis using assms by (auto simp: tlsVector_def Let_def vec1_def split: if_splits)
qed

lemma take_three: "4 \<le> length m \<Longrightarrow> \<exists>k a b c. m = k # a # b # c # drop 4 m \<and> take 3 (drop 1 m) = [a, b, c]"
  by (cases m; cases "tl m"; cases "tl (tl m)"; cases "tl (tl (tl m))") auto

definition put_be24 :: "nat \<Rightarrow> string" where
  "put_be24 n = [char_of (n div 65536), char_of (n div 256), char_of n]"

lemma put_be24_bytes: "put_be24 (be_bytes [a, b, c]) = [a, b, c]"
proof -
  have v: "be_bytes [a, b, c] = 256 * (256 * byte a + byte b) + byte c" by (simp add: be_bytes_def be_value_def)
  have d: "(256 * k + byte x) div 256 = k" for k x using byte_less [of x] by simp
  have "be_bytes [a, b, c] div 256 = 256 * byte a + byte b" unfolding v by (rule d)
  moreover have "be_bytes [a, b, c] div 65536 = be_bytes [a, b, c] div 256 div 256" by (simp add: div_mult2_eq [symmetric])
  ultimately show ?thesis using v d [of "byte a" b] char_mod [of "256 * byte a + byte b" c] char_mod [of "byte a" b] by (simp add: put_be24_def)
qed

definition encode_record :: "char \<times> string \<Rightarrow> string" where
  "encode_record r = [char_of (22 :: nat), char_of (3 :: nat), fst r] @ vec2 (snd r)"

definition record_ok :: "char \<times> string \<Rightarrow> bool" where
  "record_ok r \<longleftrightarrow> 1 \<le> byte (fst r) \<and> byte (fst r) \<le> 3 \<and> 0 < length (snd r) \<and> length (snd r) \<le> maxTLSPlaintext"

definition encode_extension :: "nat \<times> string \<Rightarrow> string" where
  "encode_extension e = put_be16 (fst e) @ vec2 (snd e)"

definition server_name :: "string \<Rightarrow> string" where
  "server_name name = vec2 (char_of (0 :: nat) # vec2 name)"

definition hello_body :: "string \<Rightarrow> string \<Rightarrow> string \<Rightarrow> string \<Rightarrow> (nat \<times> string) list \<Rightarrow> string" where
  "hello_body head session ciphers compression exts =
     head @ vec1 session @ vec2 ciphers @ vec1 compression @ vec2 (concat (map encode_extension exts))"

definition handshake :: "string \<Rightarrow> string" where
  "handshake body = char_of (1 :: nat) # put_be24 (length body) @ body"

subsection \<open>Lemmas: what is accepted\<close>

lemma checkServerName_sound:
  assumes "checkServerName u v host = None"
  shows "\<exists>name. v = server_name name \<and> map ascii_lower name = host \<and> list_all (\<lambda>c. byte c < 128) name"
proof -
  obtain names where n: "tlsVector 2 v = Some (names, [])" "names \<noteq> []" "byte (names ! 0) = 0"
    using assms by (auto simp: checkServerName_def split: option.splits if_splits)
  obtain name where m: "tlsVector 2 (drop 1 names) = Some (name, [])" "\<not> has_suffix name ''.''" "\<not> list_ex (\<lambda>c. 127 < byte c) name"
    "NormalizeHost u name = Inr host"
    using assms n by (auto simp: checkServerName_def split: option.splits if_splits sum.splits)
  have "v = vec2 names" "drop 1 names = vec2 name" using tlsVector_two [OF n(1)] tlsVector_two [OF m(1)] by simp_all
  moreover have "hd names = char_of (0 :: nat)" using n(2,3) by (cases names) (auto, metis char_of_char)
  ultimately have v: "v = server_name name" using n(2) by (cases names) (auto simp: server_name_def)
  have ascii: "\<forall>c \<in> set name. byte c < 128" using m(3) by (auto simp: list_ex_iff not_less)
  then have lower: "to_lower u name = map ascii_lower name" by (rule to_lower_ascii)
  have "\<not> has_suffix (map ascii_lower name) ''.''"
  proof
    assume "has_suffix (map ascii_lower name) ''.''"
    then obtain zs where zs: "map ascii_lower name = zs @ ''.''" by (auto simp: has_suffix_def suffix_def)
    then have "name \<noteq> []" by auto
    moreover from this have "ascii_lower (last name) = CHR ''.''" using arg_cong [OF zs, of last] by (simp add: last_map)
    moreover have "ascii_lower c = CHR ''.'' \<Longrightarrow> c = CHR ''.''" for c
      by (auto simp: ascii_lower_def less_eq_char_def char_of_eq_iff take_bit_eq_mod split: if_splits)
    ultimately have "last name = CHR ''.''" "name \<noteq> []" by blast+
    then have "has_suffix name ''.''" by (metis append_butlast_last_id has_suffix_def suffixI)
    with m(2) show False by blast
  qed
  then have "map ascii_lower name = host"
    using m(4) by (auto simp: NormalizeHost_def lower trim_suffix_def Let_def split: if_splits)
  with v ascii show ?thesis by (auto simp: list_all_iff)
qed

lemma check_extensions_sound:
  assumes "check_extensions u host seen found exts = None"
  shows "\<exists>kvs. exts = concat (map encode_extension kvs) \<and> distinct (map fst kvs) \<and> set (map fst kvs) \<inter> set seen = {} \<and>
     0xfe0d \<notin> set (map fst kvs) \<and> (found \<or> 0 \<in> set (map fst kvs)) \<and> (\<forall>v. (0, v) \<in> set kvs \<longrightarrow> checkServerName u v host = None)"
  using assms
proof (induction u host seen found exts rule: check_extensions.induct)
  case (1 u host seen found exts)
  show ?case
  proof (cases "exts = []")
    case True
    with "1.prems" show ?thesis by (intro exI [of _ "[]"]) (simp add: check_extensions.simps split: if_splits)
  next
    case False
    let ?kind = "be_bytes (take 2 exts)"
    obtain v rest where v: "\<not> length exts < 4" "tlsVector 2 (drop 2 exts) = Some (v, rest)" "?kind \<notin> set seen"
      using "1.prems" False by (subst (asm) check_extensions.simps) (auto simp: Let_def split: if_splits option.splits)
    obtain a b where ab: "take 2 exts = [a, b]" "exts = a # b # drop 2 exts" using take_two [of exts] v(1) by auto
    have e: "exts = encode_extension (?kind, v) @ rest"
      using ab tlsVector_two [OF v(2)] put_be16_bytes [of a b] by (simp add: encode_extension_def)
    have step: "\<exists>kvs. exts = concat (map encode_extension kvs) \<and> distinct (map fst kvs) \<and> set (map fst kvs) \<inter> set seen = {} \<and>
        0xfe0d \<notin> set (map fst kvs) \<and> (found \<or> 0 \<in> set (map fst kvs)) \<and> (\<forall>v. (0, v) \<in> set kvs \<longrightarrow> checkServerName u v host = None)"
      if prem: "\<exists>kvs. rest = concat (map encode_extension kvs) \<and> distinct (map fst kvs) \<and> set (map fst kvs) \<inter> set (?kind # seen) = {} \<and>
        0xfe0d \<notin> set (map fst kvs) \<and> (f \<or> 0 \<in> set (map fst kvs)) \<and> (\<forall>v. (0, v) \<in> set kvs \<longrightarrow> checkServerName u v host = None)"
        "?kind \<noteq> 0xfe0d" "f \<longrightarrow> found \<or> ?kind = 0" "?kind = 0 \<longrightarrow> checkServerName u v host = None" for f
    proof -
      obtain kvs where k: "rest = concat (map encode_extension kvs)" "distinct (map fst kvs)" "set (map fst kvs) \<inter> set (?kind # seen) = {}"
        "0xfe0d \<notin> set (map fst kvs)" "f \<or> 0 \<in> set (map fst kvs)" "\<forall>v. (0, v) \<in> set kvs \<longrightarrow> checkServerName u v host = None"
        using prem(1) by blast
      show ?thesis using k prem(2-4) v(3) e by (intro exI [of _ "(?kind, v) # kvs"]) auto
    qed
    have unf: "check_extensions u host seen found exts =
        (if ?kind = 0 then
           (case checkServerName u v host of Some e \<Rightarrow> Some e | None \<Rightarrow> check_extensions u host (?kind # seen) True rest)
         else if ?kind = 0xfe0d then Some EncryptedHello else check_extensions u host (?kind # seen) found rest)"
      using False v by (subst check_extensions.simps) (simp only: Let_def if_False option.case prod.case)
    show ?thesis
    proof (cases "?kind = 0")
      case True
      then have n: "checkServerName u v host = None" and c: "check_extensions u host (?kind # seen) True rest = None"
        using "1.prems" unf by (simp_all split: option.splits)
      show ?thesis
        by (rule step [of True, OF "1.IH"(1) [OF False v(1) refl v(2) refl v(3) True n c]]) (use True n in auto)
    next
      case k: False
      then have x: "?kind \<noteq> 0xfe0d" and c: "check_extensions u host (?kind # seen) found rest = None"
        using "1.prems" unf by (simp_all split: if_splits)
      show ?thesis
        by (rule step [of found, OF "1.IH"(2) [OF False v(1) refl v(2) refl v(3) k x c]]) (use x k in auto)
    qed
  qed
qed

text \<open>What the record loop keeps: once four handshake bytes are there, the length they announce is wanted.\<close>

definition want_ok :: "string \<Rightarrow> nat \<Rightarrow> bool" where
  "want_ok message want \<longleftrightarrow>
     (if 4 \<le> length message
      then byte (message ! 0) = 1 \<and> want = 4 + be_bytes (take 3 (drop 1 message)) \<and> want \<le> maxClientHello else want = 4)"

definition records_of :: "string \<Rightarrow> string \<Rightarrow> string \<Rightarrow> string \<Rightarrow> string \<Rightarrow> string \<Rightarrow> bool" where
  "records_of records message s records' message' rest \<longleftrightarrow>
     (\<exists>recs. list_all record_ok recs \<and> records' = records @ concat (map encode_record recs) \<and>
       s = concat (map encode_record recs) @ rest \<and> message' = message @ concat (map snd recs))"

lemma if_Inl_Inr: "(if b then Inl e else x) = Inr y \<longleftrightarrow> \<not> b \<and> x = Inr y"
  by simp

lemma read_full_Inr: "read_full n s = Inr (a, b) \<Longrightarrow> s = a @ b \<and> length a = n"
  by (auto simp: read_full_def split: if_splits)

lemma records_of_step:
  assumes "read_full 5 s = Inr (header, s1)" and "byte (header ! 0) = 22" and "byte (header ! 1) = 3"
    and "1 \<le> byte (header ! 2)" and "byte (header ! 2) \<le> 3" and "0 < be_bytes (drop 3 header)"
    and "be_bytes (drop 3 header) \<le> maxTLSPlaintext" and "read_full (be_bytes (drop 3 header)) s1 = Inr (payload, s2)"
    and "records_of (records @ header @ payload) (message @ payload) s2 records' message' rest"
  shows "records_of records message s records' message' rest"
proof -
  have s: "s = header @ s1" "length header = 5" "s1 = payload @ s2" "length payload = be_bytes (drop 3 header)"
    using read_full_Inr [OF assms(1)] read_full_Inr [OF assms(8)] by blast+
  then obtain a b c d e where h: "header = [a, b, c, d, e]"
    by (cases header; cases "tl header"; cases "tl (tl header)"; cases "tl (tl (tl header))"; cases "tl (tl (tl (tl header)))") auto
  have "a = char_of (22 :: nat)" "b = char_of (3 :: nat)" using assms(2,3) h by (simp_all, (metis char_of_char)+)
  moreover have "put_be16 (length payload) = [d, e]" using s(4) put_be16_bytes [of d e] by (simp add: h)
  ultimately have enc: "header @ payload = encode_record (c, payload)" by (simp add: h encode_record_def vec2_def)
  have "record_ok (c, payload)" using assms(4-7) s(4) by (simp add: record_ok_def h)
  moreover obtain recs where "list_all record_ok recs" "records' = (records @ header @ payload) @ concat (map encode_record recs)"
    "s2 = concat (map encode_record recs) @ rest" "message' = (message @ payload) @ concat (map snd recs)"
    using assms(9) by (auto simp: records_of_def)
  ultimately show ?thesis
    unfolding records_of_def using s(1,3) enc by (intro exI [of _ "(c, payload) # recs"]) simp
qed

lemma read_records_sound:
  assumes "read_records records message want s = Inr (records', message', want', rest)" and "want_ok message want"
    and "length records \<le> maxClientHelloWire"
  shows "records_of records message s records' message' rest \<and> want_ok message' want' \<and> want' \<le> length message' \<and>
     length records' \<le> maxClientHelloWire"
  using assms
proof (induction records message want s rule: read_records.induct)
  case (1 records message want s)
  show ?case
  proof (cases "want \<le> length message")
    case True
    with "1.prems" show ?thesis by (auto simp: read_records.simps records_of_def intro: exI [of _ "[]"])
  next
    case False
    obtain header s1 where h: "read_full 5 s = Inr (header, s1)"
      using "1.prems"(1) False by (subst (asm) read_records.simps) (auto split: sum.splits)
    let ?n = "be_bytes (drop 3 header)"
    let ?bad = "byte (header ! 0) \<noteq> 22 \<or> byte (header ! 1) \<noteq> 3 \<or> byte (header ! 2) < 1 \<or> 3 < byte (header ! 2)"
    let ?after = "\<lambda>(payload, s2). let records' = records @ header @ payload; message' = message @ payload in
        if 4 \<le> length message' then
          (if byte (message' ! 0) \<noteq> 1 then Inl FirstMustBeHello
           else let m = be_bytes (take 3 (drop 1 message')) in
             if maxClientHello - 4 < m then Inl LargeHello else read_records records' message' (4 + m) s2)
        else read_records records' message' want s2"
    have nxt: "read_records records message want s =
        (if ?bad then Inl PlaintextRequired else if ?n = 0 \<or> maxTLSPlaintext < ?n then Inl MalformedHello
         else if maxClientHelloWire < length records + 5 + ?n then Inl LargeHello
         else case read_full ?n s1 of Inl e \<Rightarrow> Inl (HelloIO e) | Inr r \<Rightarrow> ?after r)"
      using False h by (subst read_records.simps) (simp only: Let_def if_False sum.case prod.case)
    have ok: "\<not> ?bad" "\<not> (?n = 0 \<or> maxTLSPlaintext < ?n)" "\<not> maxClientHelloWire < length records + 5 + ?n"
      using "1.prems"(1) unfolding nxt if_Inl_Inr by blast+
    obtain payload s2 where p: "read_full ?n s1 = Inr (payload, s2)"
      using "1.prems"(1) unfolding nxt if_not_P [OF ok(1)] if_not_P [OF ok(2)] if_not_P [OF ok(3)]
      by (cases "read_full ?n s1") auto
    let ?records = "records @ header @ payload" and ?message = "message @ payload"
    let ?m = "be_bytes (take 3 (drop 1 ?message))"
    have unf: "read_records records message want s =
        (if 4 \<le> length ?message then
           (if byte (?message ! 0) \<noteq> 1 then Inl FirstMustBeHello
            else if maxClientHello - 4 < ?m then Inl LargeHello else read_records ?records ?message (4 + ?m) s2)
         else read_records ?records ?message want s2)"
      unfolding nxt if_not_P [OF ok(1)] if_not_P [OF ok(2)] if_not_P [OF ok(3)] p by (simp only: Let_def sum.case prod.case)
    have len: "length ?records \<le> maxClientHelloWire" "length payload = ?n"
      using ok(3) read_full_Inr [OF h] read_full_Inr [OF p] by auto
    note step = records_of_step [OF h _ _ _ _ _ _ p]
    show ?thesis
    proof (cases "4 \<le> length ?message")
      case True
      then have g: "\<not> byte (?message ! 0) \<noteq> 1" "\<not> maxClientHello - 4 < ?m"
        and r: "read_records ?records ?message (4 + ?m) s2 = Inr (records', message', want', rest)"
        using "1.prems"(1) unf by (simp_all split: if_splits)
      have "want_ok ?message (4 + ?m)" using True g by (simp add: want_ok_def maxClientHello_def)
      from "1.IH"(1) [OF False h refl ok(1) refl ok(2,3) p refl refl refl True g(1) refl g(2) r this len(1)] show ?thesis
        using ok by (auto intro: step)
    next
      case short: False
      then have "want_ok ?message want" using "1.prems"(2) by (auto simp: want_ok_def)
      moreover have r: "read_records ?records ?message want s2 = Inr (records', message', want', rest)"
        using "1.prems"(1) unf short by simp
      ultimately show ?thesis
        using "1.IH"(2) [OF False h refl ok(1) refl ok(2,3) p refl refl refl short r _ len(1)] ok by (auto intro: step)
    qed
  qed
qed

subsection \<open>Properties\<close>

text \<open>C19: A tunnel carries TLS for its own host only. When the inspection accepts the client's first bytes, the records it returns for replay are exactly the bytes it consumed,
  at most 128 KiB; they are plaintext handshake records whose contents begin with one complete ClientHello of at most 64 KiB, encoded without
  slack; no extension kind occurs twice and none is the encrypted ClientHello; and the server-name extension is there and holds a single ASCII host name that is,
  in lower case, the host the tunnel was opened for.\<close>

theorem accepted_hello_names_host:
  assumes "readClientHello u s host = Inr (records, rest)"
  shows "s = records @ rest \<and> length records \<le> maxClientHelloWire \<and>
    (\<exists>recs body extra head session ciphers compression exts name.
       list_all record_ok recs \<and> records = concat (map encode_record recs) \<and> concat (map snd recs) = handshake body @ extra \<and>
       length body \<le> maxClientHello - 4 \<and> body = hello_body head session ciphers compression exts \<and> length head = 34 \<and>
       distinct (map fst exts) \<and> 0xfe0d \<notin> set (map fst exts) \<and> map_of exts 0 = Some (server_name name) \<and>
       list_all (\<lambda>c. byte c < 128) name \<and> map ascii_lower name = host)"
proof -
  obtain message want where r: "read_records [] [] 4 s = Inr (records, message, want, rest)"
    and c: "checkClientHello u (drop 4 (take want message)) host = None"
    using assms by (auto simp: readClientHello_def split: sum.splits option.splits)
  have "want_ok [] 4" by (simp add: want_ok_def)
  from read_records_sound [OF r this] obtain recs where
    recs: "list_all record_ok recs" "records = concat (map encode_record recs)" "s = records @ rest" "message = concat (map snd recs)"
    and want: "want_ok message want" "want \<le> length message" and len: "length records \<le> maxClientHelloWire"
    by (auto simp: records_of_def)
  define body where "body = drop 4 (take want message)"
  have four: "4 \<le> length message" using want by (auto simp: want_ok_def split: if_splits)
  obtain k x y z where m: "message = k # x # y # z # drop 4 message" "take 3 (drop 1 message) = [x, y, z]"
    using take_three [OF four] by blast
  have w: "byte (message ! 0) = 1" "want = 4 + be_bytes [x, y, z]" "want \<le> maxClientHello"
    using want(1) four m(2) by (auto simp: want_ok_def)
  have k: "k = char_of (1 :: nat)" using w(1) m(1) by (metis char_of_char nth_Cons_0)
  have lb: "length body = be_bytes [x, y, z]" using w(2) want(2) by (simp add: body_def)
  have "body @ drop want message = drop 4 message"
    using w(2) by (simp add: body_def drop_take) (metis append_take_drop_id drop_drop add.commute)
  then have split: "message = handshake body @ drop want message"
    using m(1) k put_be24_bytes [of x y z] lb by (simp add: handshake_def)
  obtain session d1 ciphers d2 compression d3 extensions where v: "\<not> length body < 34" "tlsVector 1 (drop 34 body) = Some (session, d1)"
    "tlsVector 2 d1 = Some (ciphers, d2)" "tlsVector 1 d2 = Some (compression, d3)" "tlsVector 2 d3 = Some (extensions, [])"
    and e: "check_extensions u host [] False extensions = None"
    using c unfolding body_def [symmetric] by (auto simp: checkClientHello_def split: if_splits option.splits)
  obtain exts where x: "extensions = concat (map encode_extension exts)" "distinct (map fst exts)" "0xfe0d \<notin> set (map fst exts)"
    "0 \<in> set (map fst exts)" "\<forall>v. (0, v) \<in> set exts \<longrightarrow> checkServerName u v host = None"
    using check_extensions_sound [OF e] by auto
  obtain val where val: "map_of exts 0 = Some val" using x(4) by (metis map_of_eq_None_iff list.set_map not_Some_eq)
  then obtain name where name: "val = server_name name" "map ascii_lower name = host" "list_all (\<lambda>c. byte c < 128) name"
    using x(5) checkServerName_sound map_of_SomeD by metis
  have "body = hello_body (take 34 body) session ciphers compression exts"
    using tlsVector_one [OF v(2)] tlsVector_two [OF v(3)] tlsVector_one [OF v(4)] tlsVector_two [OF v(5)] x(1)
    by (simp add: hello_body_def) (metis append_take_drop_id)
  moreover have "length (take 34 body) = 34" "length body \<le> maxClientHello - 4" using v(1) lb w(2,3) by auto
  ultimately show ?thesis using recs len split x(2,3) val name by metis
qed

text \<open>The decoders read back what the encoders write.\<close>

lemma be16_roundtrip: "n < 65536 \<Longrightarrow> be_bytes (put_be16 n) = n"
  by (simp add: put_be16_def be_bytes_two div_less_iff_less_mult)

lemma tlsVector_vec2: "length v < 65536 \<Longrightarrow> tlsVector 2 (vec2 v @ rest) = Some (v, rest)"
proof -
  assume "length v < 65536"
  moreover have "take 2 (vec2 v @ rest) = put_be16 (length v)" "drop 2 (vec2 v @ rest) = v @ rest" by (simp_all add: vec2_def put_be16_def)
  ultimately show ?thesis by (simp add: tlsVector_def be16_roundtrip Let_def) (simp add: vec2_def put_be16_def)
qed

lemma tlsVector_vec1: "length v < 256 \<Longrightarrow> tlsVector 1 (vec1 v @ rest) = Some (v, rest)"
  by (simp add: tlsVector_def vec1_def)

lemma vector_Nil: "length v < 65536 \<Longrightarrow> tlsVector 2 (vec2 v) = Some (v, [])"
  using tlsVector_vec2 [of v "[]"] by simp

definition sample_body :: string where
  "sample_body = hello_body (char_of (3 :: nat) # char_of (3 :: nat) # replicate 32 (char_of (0 :: nat))) []
     [char_of (19 :: nat), char_of (1 :: nat)] [char_of (0 :: nat)] [(0, server_name ''a.b'')]"

definition sample_hello :: string where
  "sample_hello = encode_record (char_of (3 :: nat), handshake sample_body)"

lemma sample_name: "NormalizeHost ascii_env ''a.b'' = Inr ''a.b''"
proof -
  have "ValidLabel ''a''" "ValidLabel ''b''" by (simp_all add: ValidLabel_def label_char_def less_eq_char_def)
  from two_labels(1) [OF this] show ?thesis by simp
qed

lemma sample_checked: "checkClientHello ascii_env sample_body ''a.b'' = None"
proof -
  let ?head = "char_of (3 :: nat) # char_of (3 :: nat) # replicate 32 (char_of (0 :: nat)) :: string"
  let ?exts = "encode_extension (0, server_name ''a.b'')"
  have ne: "sample_body = ?head @ vec1 [] @ vec2 [char_of (19 :: nat), char_of (1 :: nat)] @ vec1 [char_of (0 :: nat)] @ vec2 ?exts"
    by (simp add: sample_body_def hello_body_def)
  have lens: "length (vec2 ''a.b'') = 5" "length (server_name ''a.b'') = 8" "length ?exts = 12"
    by (simp_all add: vec2_def put_be16_def server_name_def encode_extension_def)
  have "checkServerName ascii_env (server_name ''a.b'') ''a.b'' = None"
    using sample_name by (simp add: checkServerName_def server_name_def vector_Nil vec2_def [of "''a.b''"] put_be16_def)
      (simp add: vector_Nil [unfolded vec2_def put_be16_def] has_suffix_def suffix_def append_eq_Cons_conv tlsVector_def be_bytes_def be_value_def)
  moreover have "?exts \<noteq> []" "\<not> length ?exts < 4" "take 2 ?exts = put_be16 0" "drop 2 ?exts = vec2 (server_name ''a.b'')"
    using lens by (auto simp: encode_extension_def put_be16_def)
  ultimately have "check_extensions ascii_env ''a.b'' [] False ?exts = None"
    using lens vector_Nil [of "server_name ''a.b''"]
    by (subst check_extensions.simps) (simp add: be16_roundtrip Let_def check_extensions.simps [of _ _ _ _ "[]"])
  moreover have "drop 34 sample_body = vec1 [] @ vec2 [char_of (19 :: nat), char_of (1 :: nat)] @ vec1 [char_of (0 :: nat)] @ vec2 ?exts"
    by (simp add: ne)
  moreover have "\<not> length sample_body < 34" "sample_body ! 0 = char_of (3 :: nat)" "sample_body ! 1 = char_of (3 :: nat)"
    by (simp_all add: ne)
  ultimately show ?thesis using lens by (simp add: checkClientHello_def tlsVector_vec1 tlsVector_vec2 vector_Nil del: One_nat_def)
qed

lemma sample_accepted: "readClientHello ascii_env (sample_hello @ ''rest'') ''a.b'' = Inr (sample_hello, ''rest'')"
proof -
  let ?m = "handshake sample_body"
  have lb: "length sample_body = 55"
    by (simp add: sample_body_def hello_body_def vec1_def vec2_def put_be16_def encode_extension_def server_name_def)
  then have lm: "length ?m = 59" by (simp add: handshake_def put_be24_def)
  define header where "header = [char_of (22 :: nat), char_of (3 :: nat), char_of (3 :: nat)] @ put_be16 59"
  have s: "sample_hello = header @ ?m" "length header = 5" "drop 3 header = put_be16 59"
    by (simp_all add: sample_hello_def encode_record_def header_def vec2_def lm put_be16_def)
  have "read_full 5 (sample_hello @ ''rest'') = Inr (header, ?m @ ''rest'')" unfolding s(1) append_assoc s(2) [symmetric] by (rule read_full_append)
  moreover have "read_full 59 (?m @ ''rest'') = Inr (?m, ''rest'')" using lm by (simp add: read_full_def)
  moreover have "be_bytes (take 3 (drop 1 ?m)) = 55" "?m ! 0 = char_of (1 :: nat)"
    by (simp_all add: handshake_def lb put_be24_def be_bytes_def be_value_def)
  moreover have "header ! 0 = char_of (22 :: nat)" "header ! 1 = char_of (3 :: nat)" "header ! 2 = char_of (3 :: nat)" by (simp_all add: header_def)
  ultimately have "read_records [] [] 4 (sample_hello @ ''rest'') = Inr (sample_hello, ?m, 59, ''rest'')"
    using s lm by (subst read_records.simps)
      (simp add: be16_roundtrip Let_def maxTLSPlaintext_def maxClientHelloWire_def maxClientHello_def read_records.simps [of _ _ 59])
  moreover have "drop 4 (take 59 ?m) = sample_body" using lm by (simp add: handshake_def put_be24_def)
  ultimately show ?thesis using sample_checked by (simp add: readClientHello_def)
qed

theorem accepted_hello_names_host_witness:
  "\<exists>recs. list_all record_ok recs \<and> sample_hello = concat (map encode_record recs) \<and> length sample_hello \<le> maxClientHelloWire"
proof -
  note w = accepted_hello_names_host [OF sample_accepted]
  then obtain recs where "list_all record_ok recs" "sample_hello = concat (map encode_record recs)" by (elim conjE exE)
  with w show ?thesis by metis
qed

end
