(* ===== verification/Egress_Gateway.thy ===== *)
theory Egress_Gateway
  imports Egress_Hello Task_Model "HOL-Library.AList"
begin

text \<open>
  The egress gateway (\<open>internal/egress/gateway.go\<close>, \<open>serve.go\<close>, \<open>lease.go\<close> and the summary of \<open>collector.go\<close>): the only way out
  of a sandbox. The state of \<open>Gateway\<close> is a record; a summary entry and a tunnel, which the code shares through pointers, are
  cells of two growing lists, so a request keeps the address of its entry after a collection has forgotten it. One request is
  the sequence of phases of \<open>ServeHTTP\<close>: a phase ends where the code takes the lock of the statistics or waits for something
  outside, and what the outside answered (the lease directory, the resolver, the dialler, the client) is the record \<open>outside\<close>.
  The step relation interleaves the phases of any number of requests with collections, sweeps and the stop. Instants are
  integers in nanoseconds.
\<close>

subsection \<open>Leases\<close>

record lease =
  le_Sandbox :: string
  le_Kind :: string

definition proxyUser :: string where
  "proxyUser = ''sandbox''"

definition tokenBytes :: nat where
  "tokenBytes = 32"

definition maxLeaseBytes :: nat where
  "maxLeaseBytes = 4096"

text \<open>What the lease directory has under a name, with at most \<open>maxLeaseBytes + 1\<close> bytes of a regular file's content read.\<close>

datatype lease_file = NoFile | StatFailed | Irregular | OpenFailed | ReadFailed | Content string

text \<open>The digest is \<open>hex(sha256(token))\<close>; the decoder is that of the record codec.\<close>

record lease_dir =
  ld_Digest :: "string \<Rightarrow> string"
  ld_File :: "string \<Rightarrow> lease_file"
  ld_Decode :: "string \<Rightarrow> lease option"

definition leaseFile :: "lease_dir \<Rightarrow> string \<Rightarrow> string" where
  "leaseFile d token = ld_Digest d token @ ''.json''"

definition readLease :: "lease_dir \<Rightarrow> string \<Rightarrow> lease option" where
  "readLease d file =
     (case ld_File d file of
        Content data \<Rightarrow>
          if maxLeaseBytes < length data then None
          else (case ld_Decode d data of
              None \<Rightarrow> None
            | Some l \<Rightarrow> if le_Sandbox l = [] \<or> le_Kind l = [] then None else Some l)
      | _ \<Rightarrow> None)"

definition hex_token_char :: "char \<Rightarrow> bool" where
  "hex_token_char c \<longleftrightarrow> digit_char c \<or> CHR ''a'' \<le> c \<and> c \<le> CHR ''f'' \<or> CHR ''A'' \<le> c \<and> c \<le> CHR ''F''"

definition lease_lookup :: "lease_dir \<Rightarrow> string \<Rightarrow> (lease \<times> string) option" where
  "lease_lookup d token =
     (if length token \<noteq> 2 * tokenBytes \<or> \<not> list_all hex_token_char token then None
      else map_option (\<lambda>l. (l, leaseFile d token)) (readLease d (leaseFile d token)))"

definition lease_revoked :: "lease_dir \<Rightarrow> string \<Rightarrow> bool" where
  "lease_revoked d file \<longleftrightarrow> ld_File d file = NoFile"

text \<open>\<open>base64.StdEncoding.DecodeString\<close>: line ends are skipped, every quantum has four characters and only the last is padded.\<close>

definition base64_value :: "char \<Rightarrow> nat option" where
  "base64_value c =
     (if CHR ''A'' \<le> c \<and> c \<le> CHR ''Z'' then Some (byte c - 65)
      else if CHR ''a'' \<le> c \<and> c \<le> CHR ''z'' then Some (byte c - 71)
      else if digit_char c then Some (byte c + 4)
      else if c = CHR ''+'' then Some 62 else if c = CHR ''/'' then Some 63 else None)"

fun base64_quanta :: "string \<Rightarrow> string option" where
  "base64_quanta [] = Some []"
| "base64_quanta (a # b # c # d # rest) =
     (case (base64_value a, base64_value b) of
        (Some x, Some y) \<Rightarrow>
          (case (base64_value c, base64_value d) of
             (Some z, Some w) \<Rightarrow>
               map_option ((@) [char_of (4 * x + y div 16), char_of (16 * (y mod 16) + z div 4), char_of (64 * (z mod 4) + w)])
                 (base64_quanta rest)
           | (Some z, None) \<Rightarrow>
               if d = CHR ''='' \<and> rest = [] then Some [char_of (4 * x + y div 16), char_of (16 * (y mod 16) + z div 4)] else None
           | (None, _) \<Rightarrow> if c = CHR ''='' \<and> d = CHR ''='' \<and> rest = [] then Some [char_of (4 * x + y div 16)] else None)
      | _ \<Rightarrow> None)"
| "base64_quanta _ = None"

definition base64_decode :: "string \<Rightarrow> string option" where
  "base64_decode s = base64_quanta (filter (\<lambda>c. c \<noteq> CHR 0x0A \<and> c \<noteq> CHR 0x0D) s)"

definition gateway_lease :: "lease_dir \<Rightarrow> string \<Rightarrow> (lease \<times> string) option" where
  "gateway_lease d header =
     (if \<not> has_prefix header ''Basic '' then None
      else case base64_decode (trim_space (drop 6 header)) of
          None \<Rightarrow> None
        | Some decoded \<Rightarrow>
            (case cut_first CHR '':'' decoded of
               None \<Rightarrow> None
             | Some (user, token) \<Rightarrow> if user \<noteq> proxyUser then None else lease_lookup d token))"

subsection \<open>The state of the gateway\<close>

record host_count =
  hc_Count :: int

type_synonym counts = "(string \<times> host_count) list"

record summary =
  sm_Allowed :: counts
  sm_Denied :: counts
  sm_Failed :: counts
  sm_GatewayStarted :: "int option"
  sm_Incomplete :: bool

definition emptySummary :: summary where
  "emptySummary = \<lparr>sm_Allowed = [], sm_Denied = [], sm_Failed = [], sm_GatewayStarted = None, sm_Incomplete = False\<rparr>"

record decision =
  dc_Time :: int
  dc_Sandbox :: string
  dc_Kind :: string
  dc_Host :: string
  dc_Port :: u16
  dc_Decision :: string
  dc_Reason :: string
  dc_Tunnel :: u64
  dc_BytesUp :: int
  dc_BytesDown :: int
  dc_Millis :: int
  dc_Suppressed :: int

definition plain_decision :: decision where
  "plain_decision = \<lparr>dc_Time = 0, dc_Sandbox = [], dc_Kind = [], dc_Host = [], dc_Port = 0, dc_Decision = [], dc_Reason = [],
     dc_Tunnel = 0, dc_BytesUp = 0, dc_BytesDown = 0, dc_Millis = 0, dc_Suppressed = 0\<rparr>"

record collection =
  cl_At :: int
  cl_Incomplete :: bool

record usage =
  us_Summary :: summary
  us_Lease :: string
  us_Revoked :: "int option"
  us_Pending :: int
  us_Named :: "string list"

record log_budget =
  lb_Start :: int
  lb_Logged :: int
  lb_Suppressed :: int
  lb_Class :: string
  lb_Sandbox :: string
  lb_Kind :: string

text \<open>A tunnel: its lease, the address its upstream end was dialled at, the first reason it was cut for and whether its ends
  are closed.\<close>

record tunnel =
  tn_Lease :: string
  tn_Address :: addr
  tn_Port :: u16
  tn_Cause :: "string option"
  tn_Closed :: bool

record gateway =
  gw_Policy :: policy
  gw_Started :: int
  gw_Budgets :: "(string \<times> log_budget) list"
  gw_Usages :: "usage list"
  gw_Stats :: "(string \<times> nat) list"
  gw_Collected :: "(string \<times> collection) list"
  gw_Open :: "(string \<times> int) list"
  gw_Table :: "tunnel list"
  gw_Tunnels :: "nat list option"
  gw_Running :: int
  gw_TunnelIDs :: u64
  gw_Log :: "decision list"

definition tunnelLimit :: int where
  "tunnelLimit = 64"

definition second_ns :: int where
  "second_ns = 1000000000"

definition collectedFor :: int where
  "collectedFor = 120 * second_ns"

definition revokedGrace :: int where
  "revokedGrace = 120 * second_ns"

definition refusalLogBurst :: int where
  "refusalLogBurst = 20"

definition tunnelLogBurst :: int where
  "tunnelLogBurst = 120"

definition logWindow :: int where
  "logWindow = 60 * second_ns"

definition logBudgetKeys :: nat where
  "logBudgetKeys = 1024"

definition summaryHostLimit :: nat where
  "summaryHostLimit = SandboxHostLimit"

definition foldedNameLimit :: nat where
  "foldedNameLimit = 1024"

definition gateway_New :: "policy \<Rightarrow> int \<Rightarrow> gateway" where
  "gateway_New p now = \<lparr>gw_Policy = p, gw_Started = now, gw_Budgets = [], gw_Usages = [], gw_Stats = [], gw_Collected = [], gw_Open = [],
     gw_Table = [], gw_Tunnels = Some [], gw_Running = 0, gw_TunnelIDs = 0, gw_Log = []\<rparr>"

subsection \<open>The log and its budgets\<close>

definition writeLocked :: "int \<Rightarrow> decision \<Rightarrow> gateway \<Rightarrow> gateway" where
  "writeLocked now d g = g\<lparr>gw_Log := gw_Log g @ [d\<lparr>dc_Time := now\<rparr>]\<rparr>"

definition flushLocked :: "int \<Rightarrow> string \<Rightarrow> log_budget \<Rightarrow> gateway \<Rightarrow> gateway" where
  "flushLocked now key b g =
     (if 0 < lb_Suppressed b
      then (writeLocked now (plain_decision\<lparr>dc_Sandbox := lb_Sandbox b, dc_Kind := lb_Kind b, dc_Decision := ''suppressed'',
              dc_Reason := lb_Class b @ '' over the log budget'', dc_Suppressed := lb_Suppressed b\<rparr>) g)
           \<lparr>gw_Budgets := AList.update key (b\<lparr>lb_Suppressed := 0\<rparr>) (gw_Budgets g)\<rparr>
      else g)"

text \<open>The budget a line is charged to: the source's own, or past the bound the one its class shares.\<close>

definition budget_of :: "int \<Rightarrow> string \<Rightarrow> string \<Rightarrow> decision \<Rightarrow> gateway \<Rightarrow> string \<times> log_budget" where
  "budget_of now cls source d g =
     (let key = cls @ '' '' @ source in
      case map_of (gw_Budgets g) key of
        Some b \<Rightarrow> (key, b)
      | None \<Rightarrow>
          let (key, name, kind) = (if logBudgetKeys \<le> length (gw_Budgets g) then (cls, [], []) else (key, dc_Sandbox d, dc_Kind d)) in
          (case (if logBudgetKeys \<le> length (gw_Budgets g) then map_of (gw_Budgets g) key else None) of
             Some b \<Rightarrow> (key, b)
           | None \<Rightarrow> (key, \<lparr>lb_Start = now, lb_Logged = 0, lb_Suppressed = 0, lb_Class = cls, lb_Sandbox = name, lb_Kind = kind\<rparr>)))"

definition spendLocked :: "int \<Rightarrow> string \<Rightarrow> string \<Rightarrow> int \<Rightarrow> decision \<Rightarrow> gateway \<Rightarrow> bool \<times> gateway" where
  "spendLocked now cls source burst d g =
     (let (key, b) = budget_of now cls source d g;
          g1 = g\<lparr>gw_Budgets := AList.update key b (gw_Budgets g)\<rparr>;
          (b1, g2) = (if logWindow \<le> now - lb_Start b
                      then (b\<lparr>lb_Suppressed := 0, lb_Start := now, lb_Logged := 0\<rparr>, flushLocked now key b g1) else (b, g1))
      in if burst \<le> lb_Logged b1
         then (False, g2\<lparr>gw_Budgets := AList.update key (b1\<lparr>lb_Suppressed := lb_Suppressed b1 + 1\<rparr>) (gw_Budgets g2)\<rparr>)
         else (True, g2\<lparr>gw_Budgets := AList.update key (b1\<lparr>lb_Logged := lb_Logged b1 + 1\<rparr>) (gw_Budgets g2)\<rparr>))"

fun flush_each :: "int \<Rightarrow> bool \<Rightarrow> (string \<times> log_budget) list \<Rightarrow> gateway \<Rightarrow> gateway" where
  "flush_each now all [] g = g"
| "flush_each now all ((key, b) # rest) g =
     flush_each now all rest
       (if all \<or> logWindow \<le> now - lb_Start b
        then (let g' = flushLocked now key b g in g'\<lparr>gw_Budgets := AList.delete key (gw_Budgets g')\<rparr>) else g)"

definition flushBudgets :: "int \<Rightarrow> bool \<Rightarrow> gateway \<Rightarrow> gateway" where
  "flushBudgets now all g = flush_each now all (gw_Budgets g) g"

definition logRefusal :: "int \<Rightarrow> decision \<Rightarrow> string \<Rightarrow> bool \<Rightarrow> gateway \<Rightarrow> gateway" where
  "logRefusal now d source unnamed g =
     (if unnamed then writeLocked now d g
      else let (ok, g') = spendLocked now ''refusals'' source refusalLogBurst d g in if ok then writeLocked now d g' else g')"

definition logOpened :: "int \<Rightarrow> decision \<Rightarrow> bool \<Rightarrow> gateway \<Rightarrow> bool \<times> gateway" where
  "logOpened now d unnamed g =
     (if unnamed then (True, writeLocked now d g)
      else let (ok, g') = spendLocked now ''tunnels'' (''sandbox '' @ dc_Sandbox d) tunnelLogBurst d g in
        if ok then (True, writeLocked now d g') else (False, g'))"

subsection \<open>Summaries\<close>

definition summaryKey :: "string \<Rightarrow> u16 \<Rightarrow> string" where
  "summaryKey host port = (if port = 0 then host else JoinHostPort host (show_nat (unat port)))"

definition on_usage :: "nat \<Rightarrow> (usage \<Rightarrow> usage) \<Rightarrow> gateway \<Rightarrow> gateway" where
  "on_usage a f g = (if a < length (gw_Usages g) then g\<lparr>gw_Usages := (gw_Usages g)[a := f (gw_Usages g ! a)]\<rparr> else g)"

text \<open>The entry of a sandbox, made when there is none.\<close>

definition entry_of :: "string \<Rightarrow> string \<Rightarrow> gateway \<Rightarrow> nat \<times> gateway" where
  "entry_of name file g =
     (case map_of (gw_Stats g) name of
        Some a \<Rightarrow> (a, g)
      | None \<Rightarrow>
          let a = length (gw_Usages g) in
          (a, g\<lparr>gw_Usages := gw_Usages g @ [\<lparr>us_Summary = emptySummary, us_Lease = file, us_Revoked = None, us_Pending = 0, us_Named = []\<rparr>],
               gw_Stats := AList.update name a (gw_Stats g)\<rparr>))"

definition gateway_begin :: "string \<Rightarrow> string \<Rightarrow> gateway \<Rightarrow> nat option \<times> gateway" where
  "gateway_begin name file g =
     (if map_of (gw_Collected g) name \<noteq> None then (None, g)
      else let (a, g1) = entry_of name file g in (Some a, on_usage a (\<lambda>u. u\<lparr>us_Pending := us_Pending u + 1\<rparr>) g1))"

definition gateway_abandon :: "nat \<Rightarrow> gateway \<Rightarrow> gateway" where
  "gateway_abandon a =
     on_usage a (\<lambda>u. u\<lparr>us_Pending := us_Pending u - 1, us_Summary := (us_Summary u)\<lparr>sm_Incomplete := True\<rparr>\<rparr>)"

definition summary_target :: "string \<Rightarrow> summary \<Rightarrow> counts" where
  "summary_target dec s = (if dec = ''allowed'' then sm_Allowed s else if dec = ''failed'' then sm_Failed s else sm_Denied s)"

definition set_target :: "string \<Rightarrow> counts \<Rightarrow> summary \<Rightarrow> summary" where
  "set_target dec m s =
     (if dec = ''allowed'' then s\<lparr>sm_Allowed := m\<rparr> else if dec = ''failed'' then s\<lparr>sm_Failed := m\<rparr> else s\<lparr>sm_Denied := m\<rparr>)"

definition count_of :: "counts \<Rightarrow> string \<Rightarrow> int" where
  "count_of m key = (case map_of m key of None \<Rightarrow> 0 | Some c \<Rightarrow> hc_Count c)"

text \<open>One decision counted in an entry: the entry, the key it counted under and whether the log has to name its host.\<close>

definition count_decision :: "decision \<Rightarrow> usage \<Rightarrow> usage \<times> string \<times> bool" where
  "count_decision d u =
     (let target = summary_target (dc_Decision d) (us_Summary u); key = summaryKey (dc_Host d) (dc_Port d);
          folds = (map_of target key = None \<and> summaryHostLimit \<le> length target);
          folded = dc_Decision d @ '' '' @ key;
          unnamed = (folds \<and> folded \<notin> set (us_Named u) \<and> length (us_Named u) < foldedNameLimit);
          counted = (if folds then ''other'' else key)
      in (u\<lparr>us_Named := (if unnamed then folded # us_Named u else us_Named u),
            us_Summary := set_target (dc_Decision d) (AList.update counted \<lparr>hc_Count = count_of target counted + 1\<rparr> target) (us_Summary u)\<rparr>,
          counted, unnamed))"

definition settle_usage :: "nat option \<Rightarrow> gateway \<Rightarrow> gateway" where
  "settle_usage pending g =
     (case pending of None \<Rightarrow> g | Some a \<Rightarrow> on_usage a (\<lambda>u. u\<lparr>us_Pending := us_Pending u - 1\<rparr>) g)"

definition gateway_count :: "decision \<Rightarrow> string \<Rightarrow> nat option \<Rightarrow> gateway \<Rightarrow> (nat option \<times> string \<times> bool) \<times> gateway" where
  "gateway_count d file pending g =
     (let g1 = settle_usage pending g in
      if dc_Sandbox d = [] \<or> dc_Host d = [] then ((None, [], False), g1)
      else if map_of (gw_Collected g1) (dc_Sandbox d) \<noteq> None then ((None, [], False), g1)
      else let (a, g2) = entry_of (dc_Sandbox d) file g1; (u, key, unnamed) = count_decision d (gw_Usages g2 ! a)
        in ((Some a, key, unnamed), on_usage a (\<lambda>_. u) g2))"

definition gateway_collect :: "int \<Rightarrow> string \<Rightarrow> gateway \<Rightarrow> summary \<times> gateway" where
  "gateway_collect now name g =
     (let s0 = (case map_of (gw_Stats g) name of
            None \<Rightarrow> emptySummary
          | Some a \<Rightarrow> let u = gw_Usages g ! a in (us_Summary u)\<lparr>sm_Incomplete := sm_Incomplete (us_Summary u) \<or> 0 < us_Pending u\<rparr>);
          before = (case map_of (gw_Collected g) name of None \<Rightarrow> False | Some c \<Rightarrow> cl_Incomplete c);
          s = s0\<lparr>sm_Incomplete := sm_Incomplete s0 \<or> before, sm_GatewayStarted := Some (gw_Started g)\<rparr>
      in (s, g\<lparr>gw_Stats := AList.delete name (gw_Stats g),
             gw_Collected := AList.update name \<lparr>cl_At = now, cl_Incomplete = sm_Incomplete s\<rparr> (gw_Collected g)\<rparr>))"

subsection \<open>Tunnels\<close>

definition open_count :: "gateway \<Rightarrow> string \<Rightarrow> int" where
  "open_count g name = (case map_of (gw_Open g) name of None \<Rightarrow> 0 | Some n \<Rightarrow> n)"

definition gateway_reserve :: "string \<Rightarrow> gateway \<Rightarrow> bool \<times> gateway" where
  "gateway_reserve name g =
     (if tunnelLimit \<le> open_count g name then (False, g)
      else (True, g\<lparr>gw_Open := AList.update name (open_count g name + 1) (gw_Open g)\<rparr>))"

definition gateway_release :: "string \<Rightarrow> gateway \<Rightarrow> gateway" where
  "gateway_release name g =
     (let n = open_count g name - 1 in
      if n \<le> 0 then g\<lparr>gw_Open := AList.delete name (gw_Open g)\<rparr> else g\<lparr>gw_Open := AList.update name n (gw_Open g)\<rparr>)"

definition gateway_track :: "string \<Rightarrow> addr \<Rightarrow> u16 \<Rightarrow> gateway \<Rightarrow> nat option \<times> gateway" where
  "gateway_track file address port g =
     (case gw_Tunnels g of
        None \<Rightarrow> (None, g)
      | Some ts \<Rightarrow>
          let t = length (gw_Table g) in
          (Some t, g\<lparr>gw_Table := gw_Table g @ [\<lparr>tn_Lease = file, tn_Address = address, tn_Port = port, tn_Cause = None, tn_Closed = False\<rparr>],
                    gw_Tunnels := Some (t # ts), gw_Running := gw_Running g + 1\<rparr>))"

definition gateway_untrack :: "nat \<Rightarrow> gateway \<Rightarrow> gateway" where
  "gateway_untrack t g = g\<lparr>gw_Tunnels := map_option (removeAll t) (gw_Tunnels g), gw_Running := gw_Running g - 1\<rparr>"

definition tunnel_cut :: "string \<Rightarrow> nat \<Rightarrow> gateway \<Rightarrow> gateway" where
  "tunnel_cut reason t g =
     (if t < length (gw_Table g) \<and> tn_Cause (gw_Table g ! t) = None
      then g\<lparr>gw_Table := (gw_Table g)[t := (gw_Table g ! t)\<lparr>tn_Cause := Some reason, tn_Closed := True\<rparr>]\<rparr> else g)"

definition tunnel_reason :: "nat \<Rightarrow> gateway \<Rightarrow> string" where
  "tunnel_reason t g = (if t < length (gw_Table g) then case tn_Cause (gw_Table g ! t) of None \<Rightarrow> [] | Some r \<Rightarrow> r else [])"

text \<open>The end of \<open>splice\<close>: both ends are closed.\<close>

definition tunnel_close :: "nat \<Rightarrow> gateway \<Rightarrow> gateway" where
  "tunnel_close t g =
     (if t < length (gw_Table g) then g\<lparr>gw_Table := (gw_Table g)[t := (gw_Table g ! t)\<lparr>tn_Closed := True\<rparr>]\<rparr> else g)"

text \<open>\<open>sweep\<close> reads which leases are gone between two critical sections: \<open>gone\<close> is what it found.\<close>

definition sweep_entry :: "int \<Rightarrow> (string \<Rightarrow> bool) \<Rightarrow> gateway \<Rightarrow> nat \<Rightarrow> usage \<Rightarrow> usage" where
  "sweep_entry now gone g a u =
     (if a \<in> snd ` set (gw_Stats g) \<and> gone (us_Lease u) \<and> us_Revoked u = None then u\<lparr>us_Revoked := Some now\<rparr> else u)"

definition forgotten :: "int \<Rightarrow> (string \<Rightarrow> bool) \<Rightarrow> gateway \<Rightarrow> string \<Rightarrow> usage \<Rightarrow> bool" where
  "forgotten now gone g name u \<longleftrightarrow>
     gone (us_Lease u) \<and> (case us_Revoked u of None \<Rightarrow> False | Some at \<Rightarrow> revokedGrace \<le> now - at) \<and>
     open_count g name = 0 \<and> us_Pending u = 0"

definition sweep_stats :: "int \<Rightarrow> (string \<Rightarrow> bool) \<Rightarrow> gateway \<Rightarrow> gateway" where
  "sweep_stats now gone g =
     g\<lparr>gw_Usages := map (\<lambda>(a, u). sweep_entry now gone g a u) (enumerate 0 (gw_Usages g)),
       gw_Stats := filter (\<lambda>(name, a). \<not> forgotten now gone g name (gw_Usages g ! a)) (gw_Stats g),
       gw_Collected := filter (\<lambda>(name, c). now - cl_At c < collectedFor) (gw_Collected g)\<rparr>"

definition gateway_sweep :: "int \<Rightarrow> (string \<Rightarrow> bool) \<Rightarrow> gateway \<Rightarrow> gateway" where
  "gateway_sweep now gone g =
     (let revoked = (case gw_Tunnels g of None \<Rightarrow> [] | Some ts \<Rightarrow> filter (\<lambda>t. gone (tn_Lease (gw_Table g ! t))) ts)
      in flushBudgets now False (fold (tunnel_cut ''lease revoked'') revoked (sweep_stats now gone g)))"

text \<open>The stop, before it waits: no tunnel is admitted any more and every open one is cut. The budgets are flushed
  after the wait.\<close>

definition gateway_stop :: "gateway \<Rightarrow> gateway" where
  "gateway_stop g = fold (tunnel_cut ''gateway stopped'') (case gw_Tunnels g of None \<Rightarrow> [] | Some ts \<Rightarrow> ts) (g\<lparr>gw_Tunnels := None\<rparr>)"

subsection \<open>Requests\<close>

definition host_error_text :: "host_error \<Rightarrow> string" where
  "host_error_text e =
     (case e of HostLength \<Rightarrow> ''host name length'' | IPLiteral \<Rightarrow> ''IP literal'' | SingleLabel \<Rightarrow> ''single-label host''
      | InvalidHost \<Rightarrow> ''invalid host name'')"

definition refusedHost :: "unicode_tables \<Rightarrow> string \<Rightarrow> string" where
  "refusedHost u name =
     (case NormalizeHost u name of
        Inr host \<Rightarrow> host
      | Inl _ \<Rightarrow>
          (case ParseAddr (trim_brackets name) of
             Some a \<Rightarrow> bare_text a
           | None \<Rightarrow>
               let l = trim_suffix (to_lower u name) ''.'' in if ValidLabel l then l else ''(invalid host)''))"

text \<open>What the handler reads of a request: \<open>hr_URL\<close> is the scheme, host name and port text of its URL.\<close>

record http_request =
  hr_Method :: string
  hr_Host :: string
  hr_URL :: "(string \<times> string \<times> string) option"
  hr_Authorization :: string
  hr_RemoteAddr :: string

record http_answer =
  ha_Status :: nat
  ha_Body :: string

text \<open>A refusal: its decision, the host and port it names and the reason.\<close>

record refusal =
  rf_Decision :: string
  rf_Host :: string
  rf_Port :: u16
  rf_Reason :: string

definition denied :: "string \<Rightarrow> u16 \<Rightarrow> string \<Rightarrow> refusal" where
  "denied host port reason = \<lparr>rf_Decision = ''denied'', rf_Host = host, rf_Port = port, rf_Reason = reason\<rparr>"

definition unreached :: "string \<Rightarrow> u16 \<Rightarrow> string \<Rightarrow> refusal" where
  "unreached host port reason = \<lparr>rf_Decision = ''failed'', rf_Host = host, rf_Port = port, rf_Reason = reason\<rparr>"

definition refused_target :: "unicode_tables \<Rightarrow> http_request \<Rightarrow> string \<times> u16" where
  "refused_target u rq =
     (case hr_URL rq of
        None \<Rightarrow> (''(invalid host)'', 80)
      | Some (scheme, host, port) \<Rightarrow>
          (refusedHost u host,
           case parse_port port of Some p \<Rightarrow> p | None \<Rightarrow> if scheme = ''https'' then 443 else 80))"

text \<open>The target of a request, decided by the policy alone, before any lookup; or the status and the refusal.\<close>

definition connect_target :: "unicode_tables \<Rightarrow> policy \<Rightarrow> string \<Rightarrow> http_request \<Rightarrow> (nat \<times> refusal, string \<times> u16) result" where
  "connect_target u p kind rq =
     (if hr_Method rq \<noteq> ''CONNECT''
      then let (host, port) = refused_target u rq in Inl (403, denied host port ''only HTTPS tunnels are allowed'')
      else case SplitHostPort (hr_Host rq) of
          None \<Rightarrow> Inl (400, denied ''(malformed target)'' 0 ''malformed tunnel target'')
        | Some (hostText, portText) \<Rightarrow>
            (case parse_port portText of
               None \<Rightarrow> Inl (400, denied (refusedHost u hostText) 0 ''malformed tunnel target'')
             | Some port \<Rightarrow>
                 if port = 0 then Inl (400, denied (refusedHost u hostText) 0 ''malformed tunnel target'')
                 else (case NormalizeHost u hostText of
                     Inl e \<Rightarrow> Inl (403, denied (refusedHost u hostText) port
                       (''target is not an allowlisted host name ('' @ host_error_text e @ '')''))
                   | Inr host \<Rightarrow>
                       if allows p kind host port then Inr (host, port)
                       else Inl (403, denied host port (''host is not on the '' @ kind @ '' allowlist'')))))"

text \<open>What happens outside the gateway during one phase.\<close>

record outside =
  oc_Leases :: lease_dir
  oc_Lookup :: "string \<Rightarrow> (unit, addr list) result"
  oc_Done :: "nat \<Rightarrow> bool"
  oc_Dial :: "nat \<Rightarrow> addr \<Rightarrow> u16 \<Rightarrow> bool"
  oc_Hijacker :: bool
  oc_Hijack :: bool
  oc_DeadlineSet :: bool
  oc_Replied :: bool
  oc_Input :: string
  oc_TimedOut :: bool
  oc_Cleared :: bool
  oc_Up :: int
  oc_Down :: int

text \<open>The first of the vetted addresses that can be dialled; the attempt has a number, and the context may end before it.\<close>

fun dialAddresses :: "outside \<Rightarrow> nat \<Rightarrow> addr list \<Rightarrow> u16 \<Rightarrow> addr option" where
  "dialAddresses oc i [] port = None"
| "dialAddresses oc i (a # as) port =
     (if oc_Done oc i then None else if oc_Dial oc i a port then Some a else dialAddresses oc (Suc i) as port)"

text \<open>The addresses of a resolved name the gateway may connect to.\<close>

definition vetted :: "addr list \<Rightarrow> addr list" where
  "vetted as = map Unmap (filter publicAddress as)"

record serving =
  sv_Request :: http_request
  sv_Lease :: lease
  sv_File :: string
  sv_Pending :: nat

text \<open>The phases of a request. A finished request keeps its answer, if the connection was not taken over, and the entry its
  outcome was counted in.\<close>

datatype phase =
    Arrived http_request
  | Admitted serving
  | Slotted serving string u16
  | Connected serving string u16 addr
  | Inspecting serving string u16 nat
  | Splicing serving string u16 nat string "nat option" decision bool int
  | Refused http_answer
  | Abandoned serving
  | Settled serving "http_answer option" "nat option"

definition refusal_decision :: "serving \<Rightarrow> refusal \<Rightarrow> decision" where
  "refusal_decision sv rf =
     plain_decision\<lparr>dc_Sandbox := le_Sandbox (sv_Lease sv), dc_Kind := le_Kind (sv_Lease sv), dc_Host := rf_Host rf, dc_Port := rf_Port rf,
       dc_Decision := rf_Decision rf, dc_Reason := rf_Reason rf\<rparr>"

definition recordRefusal :: "int \<Rightarrow> serving \<Rightarrow> refusal \<Rightarrow> gateway \<Rightarrow> nat option \<times> gateway" where
  "recordRefusal now sv rf g =
     (let d = refusal_decision sv rf; ((counted, key, unnamed), g1) = gateway_count d (sv_File sv) (Some (sv_Pending sv)) g
      in (counted, logRefusal now d (''sandbox '' @ le_Sandbox (sv_Lease sv)) unnamed g1))"

definition gateway_refuse :: "int \<Rightarrow> serving \<Rightarrow> nat \<Rightarrow> refusal \<Rightarrow> gateway \<Rightarrow> phase \<times> gateway" where
  "gateway_refuse now sv status rf g =
     (let (counted, g1) = recordRefusal now sv rf g
      in (Settled sv (Some \<lparr>ha_Status = status, ha_Body = ''Octomus egress blocked this connection: '' @ rf_Reason rf\<rparr>) counted, g1))"

definition collected_body :: string where
  "collected_body = ''Octomus egress: this sandbox'' @ [CHR 0x27] @ ''s evidence has already been collected''"

definition serve_arrive :: "int \<Rightarrow> outside \<Rightarrow> http_request \<Rightarrow> gateway \<Rightarrow> phase \<times> gateway" where
  "serve_arrive now oc rq g =
     (case gateway_lease (oc_Leases oc) (hr_Authorization rq) of
        None \<Rightarrow>
          let source = (case SplitHostPort (hr_RemoteAddr rq) of None \<Rightarrow> [] | Some (host, _) \<Rightarrow> host) in
          (Refused \<lparr>ha_Status = 407, ha_Body = ''Octomus egress: only sandboxes with a live lease may connect''\<rparr>,
           logRefusal now (plain_decision\<lparr>dc_Decision := ''denied'', dc_Reason := ''no sandbox credential''\<rparr>) (''source '' @ source) False g)
      | Some (l, file) \<Rightarrow>
          (case gateway_begin (le_Sandbox l) file g of
             (None, g1) \<Rightarrow>
               (Refused \<lparr>ha_Status = 403, ha_Body = collected_body\<rparr>,
                logRefusal now (plain_decision\<lparr>dc_Sandbox := le_Sandbox l, dc_Kind := le_Kind l, dc_Decision := ''denied'',
                  dc_Reason := ''sandbox evidence already collected''\<rparr>) (''sandbox '' @ le_Sandbox l) False g1)
           | (Some a, g1) \<Rightarrow> (Admitted \<lparr>sv_Request = rq, sv_Lease = l, sv_File = file, sv_Pending = a\<rparr>, g1)))"

definition serve_target :: "unicode_tables \<Rightarrow> int \<Rightarrow> serving \<Rightarrow> gateway \<Rightarrow> phase \<times> gateway" where
  "serve_target u now sv g =
     (case connect_target u (gw_Policy g) (le_Kind (sv_Lease sv)) (sv_Request sv) of
        Inl (status, rf) \<Rightarrow> gateway_refuse now sv status rf g
      | Inr (host, port) \<Rightarrow>
          (case gateway_reserve (le_Sandbox (sv_Lease sv)) g of
             (False, g1) \<Rightarrow> gateway_refuse now sv 429 (unreached host port ''too many open tunnels'') g1
           | (True, g1) \<Rightarrow> (Slotted sv host port, g1)))"

text \<open>A refusal while the slot is held releases it as the handler returns.\<close>

definition release_refusal :: "int \<Rightarrow> serving \<Rightarrow> nat \<Rightarrow> refusal \<Rightarrow> gateway \<Rightarrow> phase \<times> gateway" where
  "release_refusal now sv status rf g =
     (let (ph, g1) = gateway_refuse now sv status rf g in (ph, gateway_release (le_Sandbox (sv_Lease sv)) g1))"

definition release_abandoned :: "serving \<Rightarrow> gateway \<Rightarrow> phase \<times> gateway" where
  "release_abandoned sv g = (Abandoned sv, gateway_abandon (sv_Pending sv) (gateway_release (le_Sandbox (sv_Lease sv)) g))"

definition serve_dial :: "int \<Rightarrow> outside \<Rightarrow> serving \<Rightarrow> string \<Rightarrow> u16 \<Rightarrow> gateway \<Rightarrow> phase \<times> gateway" where
  "serve_dial now oc sv host port g =
     (case oc_Lookup oc (host @ ''.'') of
        Inl _ \<Rightarrow> release_refusal now sv 502 (unreached host port ''name did not resolve'') g
      | Inr addresses \<Rightarrow>
          if vetted addresses = [] then release_refusal now sv 403 (denied host port ''name resolves only to non-public addresses'') g
          else (case dialAddresses oc 0 (vetted addresses) port of
              None \<Rightarrow> release_refusal now sv 502 (unreached host port ''upstream connection failed'') g
            | Some a \<Rightarrow> (Connected sv host port a, g)))"

definition serve_hijack :: "int \<Rightarrow> outside \<Rightarrow> serving \<Rightarrow> string \<Rightarrow> u16 \<Rightarrow> addr \<Rightarrow> gateway \<Rightarrow> phase \<times> gateway" where
  "serve_hijack now oc sv host port a g =
     (if \<not> oc_Hijacker oc then release_refusal now sv 500 (unreached host port ''tunnel unsupported'') g
      else if \<not> oc_Hijack oc then release_abandoned sv g
      else case gateway_track (sv_File sv) a port g of
          (None, g1) \<Rightarrow> release_abandoned sv g1
        | (Some t, g1) \<Rightarrow> (Inspecting sv host port t, g1))"

text \<open>A refusal over a connection taken over has no answer: the ends are closed, the tunnel untracked and the slot released.\<close>

definition drop_tunnel :: "int \<Rightarrow> serving \<Rightarrow> nat \<Rightarrow> refusal \<Rightarrow> gateway \<Rightarrow> phase \<times> gateway" where
  "drop_tunnel now sv t rf g =
     (let (counted, g1) = recordRefusal now sv rf g
      in (Settled sv None counted, gateway_release (le_Sandbox (sv_Lease sv)) (tunnel_close t (gateway_untrack t g1))))"

definition hello_refusal :: "outside \<Rightarrow> string \<Rightarrow> u16 \<Rightarrow> string \<Rightarrow> hello_error \<Rightarrow> refusal" where
  "hello_refusal oc host port cause e =
     (case hello_text e of
        Some reason \<Rightarrow> denied host port reason
      | None \<Rightarrow> unreached host port
          (if cause \<noteq> [] then cause else if oc_TimedOut oc then ''TLS ClientHello deadline exceeded''
           else ''TLS ClientHello was not completed''))"

definition allowed_decision :: "serving \<Rightarrow> string \<Rightarrow> u16 \<Rightarrow> u64 \<Rightarrow> decision" where
  "allowed_decision sv host port tid =
     plain_decision\<lparr>dc_Sandbox := le_Sandbox (sv_Lease sv), dc_Kind := le_Kind (sv_Lease sv), dc_Host := host,
       dc_Port := port, dc_Decision := ''allowed'', dc_Tunnel := tid\<rparr>"

definition serve_inspect :: "unicode_tables \<Rightarrow> int \<Rightarrow> outside \<Rightarrow> serving \<Rightarrow> string \<Rightarrow> u16 \<Rightarrow> nat \<Rightarrow> gateway \<Rightarrow> phase \<times> gateway" where
  "serve_inspect u now oc sv host port t g =
     (if \<not> oc_DeadlineSet oc then drop_tunnel now sv t (unreached host port ''setting TLS inspection deadline failed'') g
      else if \<not> oc_Replied oc then drop_tunnel now sv t (unreached host port ''client went away'') g
      else case readClientHello u (oc_Input oc) host of
          Inl e \<Rightarrow> drop_tunnel now sv t (hello_refusal oc host port (tunnel_reason t g) e) g
        | Inr (hello, _) \<Rightarrow>
            if \<not> oc_Cleared oc then drop_tunnel now sv t (unreached host port ''clearing TLS inspection deadline failed'') g
            else let tid = gw_TunnelIDs g + 1; d = allowed_decision sv host port tid;
                ((counted, key, unnamed), g1) = gateway_count d (sv_File sv) (Some (sv_Pending sv)) (g\<lparr>gw_TunnelIDs := tid\<rparr>);
                (logged, g2) = logOpened now d unnamed g1
              in (Splicing sv host port t hello counted d logged now, g2))"

definition serve_close :: "int \<Rightarrow> outside \<Rightarrow> serving \<Rightarrow> nat \<Rightarrow> nat option \<Rightarrow> decision \<Rightarrow> bool \<Rightarrow> int \<Rightarrow> gateway \<Rightarrow> phase \<times> gateway" where
  "serve_close now oc sv t counted d logged started g =
     (let g1 = tunnel_close t g;
          closed = d\<lparr>dc_Decision := ''closed'', dc_Reason := tunnel_reason t g1, dc_BytesUp := oc_Up oc, dc_BytesDown := oc_Down oc,
            dc_Millis := (now - started) div 1000000\<rparr>;
          g2 = (if logged then writeLocked now closed g1 else g1)
      in (Settled sv None counted, gateway_release (le_Sandbox (sv_Lease sv)) (gateway_untrack t g2)))"

text \<open>\<open>ServeHTTP\<close>, one phase at a time.\<close>

fun ServeHTTP :: "unicode_tables \<Rightarrow> int \<Rightarrow> outside \<Rightarrow> phase \<Rightarrow> gateway \<Rightarrow> phase \<times> gateway" where
  "ServeHTTP u now oc (Arrived rq) g = serve_arrive now oc rq g"
| "ServeHTTP u now oc (Admitted sv) g = serve_target u now sv g"
| "ServeHTTP u now oc (Slotted sv host port) g = serve_dial now oc sv host port g"
| "ServeHTTP u now oc (Connected sv host port a) g = serve_hijack now oc sv host port a g"
| "ServeHTTP u now oc (Inspecting sv host port t) g = serve_inspect u now oc sv host port t g"
| "ServeHTTP u now oc (Splicing sv host port t hello counted d logged started) g =
     serve_close now oc sv t counted d logged started g"
| "ServeHTTP u now oc ph g = (ph, g)"

text \<open>The gateway with the requests it has seen, and what can happen next: a request arrives or goes on, the broker collects a
  summary, a sweep or the stop runs, the budgets are flushed, or a tunnel is cut for its age or idleness.\<close>

inductive gateway_step :: "unicode_tables \<Rightarrow> gateway \<times> phase list \<Rightarrow> gateway \<times> phase list \<Rightarrow> bool" for u where
  arrive: "gateway_step u (g, ps) (g, ps @ [Arrived rq])"
| serve: "k < length ps \<Longrightarrow> ServeHTTP u now oc (ps ! k) g = (ph, g') \<Longrightarrow> gateway_step u (g, ps) (g', ps[k := ph])"
| collect: "gateway_collect now name g = (s, g') \<Longrightarrow> gateway_step u (g, ps) (g', ps)"
| sweep: "gateway_step u (g, ps) (gateway_sweep now gone g, ps)"
| stop: "gateway_step u (g, ps) (gateway_stop g, ps)"
| flush: "gateway_step u (g, ps) (flushBudgets now every g, ps)"
| cut: "gateway_step u (g, ps) (tunnel_cut reason t g, ps)"

inductive gateway_reachable :: "unicode_tables \<Rightarrow> policy \<Rightarrow> gateway \<times> phase list \<Rightarrow> bool" for u p where
  start: "gateway_reachable u p (gateway_New p now, [])"
| step: "gateway_reachable u p st \<Longrightarrow> gateway_step u st st' \<Longrightarrow> gateway_reachable u p st'"

subsection \<open>Connections\<close>

record limited_listener =
  ll_Open :: int
  ll_BySource :: "(string \<times> int) list"
  ll_Total :: int
  ll_PerSource :: int

definition by_source :: "limited_listener \<Rightarrow> string \<Rightarrow> int" where
  "by_source l source = (case map_of (ll_BySource l) source of None \<Rightarrow> 0 | Some n \<Rightarrow> n)"

definition listener_admit :: "string \<Rightarrow> limited_listener \<Rightarrow> bool \<times> limited_listener" where
  "listener_admit source l =
     (if ll_Total l \<le> ll_Open l \<or> ll_PerSource l \<le> by_source l source then (False, l)
      else (True, l\<lparr>ll_Open := ll_Open l + 1, ll_BySource := AList.update source (by_source l source + 1) (ll_BySource l)\<rparr>))"

definition listener_release :: "string \<Rightarrow> limited_listener \<Rightarrow> limited_listener" where
  "listener_release source l =
     (let n = by_source l source - 1; l1 = l\<lparr>ll_Open := ll_Open l - 1\<rparr> in
      if n \<le> 0 then l1\<lparr>ll_BySource := AList.delete source (ll_BySource l)\<rparr>
      else l1\<lparr>ll_BySource := AList.update source n (ll_BySource l)\<rparr>)"

subsection \<open>Lemmas: what an operation leaves alone\<close>

text \<open>The parts of the state: the statistics, the slots, the tunnels and the policy.\<close>

definition stats_of :: "gateway \<Rightarrow> usage list \<times> (string \<times> nat) list \<times> (string \<times> collection) list" where
  "stats_of g = (gw_Usages g, gw_Stats g, gw_Collected g)"

definition tunnels_of :: "gateway \<Rightarrow> tunnel list \<times> nat list option" where
  "tunnels_of g = (gw_Table g, gw_Tunnels g)"

definition parts_of :: "gateway \<Rightarrow> (usage list \<times> (string \<times> nat) list \<times> (string \<times> collection) list) \<times> (string \<times> int) list \<times>
    (tunnel list \<times> nat list option) \<times> policy" where
  "parts_of g = (stats_of g, gw_Open g, tunnels_of g, gw_Policy g)"

lemmas part_defs = parts_of_def stats_of_def tunnels_of_def

named_theorems part_simps

lemma flushLocked_parts [part_simps]: "parts_of (flushLocked now key b g) = parts_of g"
  by (simp add: flushLocked_def writeLocked_def part_defs)

lemma writeLocked_parts [part_simps]: "parts_of (writeLocked now d g) = parts_of g"
  by (simp add: writeLocked_def part_defs)

lemma spendLocked_parts [part_simps]: "parts_of (snd (spendLocked now cls source burst d g)) = parts_of g"
proof -
  obtain key b where b: "budget_of now cls source d g = (key, b)" by fastforce
  have "parts_of (g0\<lparr>gw_Budgets := x\<rparr>) = parts_of g0" for g0 :: gateway and x by (simp add: part_defs)
  then show ?thesis by (simp add: spendLocked_def b Let_def part_simps)
qed

lemma flush_each_parts: "parts_of (flush_each now every bs g) = parts_of g"
proof (induction now every bs g rule: flush_each.induct)
  case (2 now every key b rest g)
  have "parts_of (g0\<lparr>gw_Budgets := x\<rparr>) = parts_of g0" for g0 :: gateway and x by (simp add: part_defs)
  with 2 show ?case by (simp add: Let_def part_simps)
qed simp

lemma flushBudgets_parts [part_simps]: "parts_of (flushBudgets now every g) = parts_of g"
  by (simp add: flushBudgets_def flush_each_parts)

lemma spendLocked_partsD: "spendLocked now cls source burst d g = (ok, g1) \<Longrightarrow> parts_of g1 = parts_of g"
  by (metis snd_conv spendLocked_parts)

lemma logRefusal_parts [part_simps]: "parts_of (logRefusal now d source unnamed g) = parts_of g"
  by (auto simp: logRefusal_def writeLocked_parts dest: spendLocked_partsD split: prod.split)

lemma logOpened_parts [part_simps]: "parts_of (snd (logOpened now d unnamed g)) = parts_of g"
  by (auto simp: logOpened_def writeLocked_parts dest: spendLocked_partsD split: prod.split)

lemma parts_simps:
  assumes "parts_of g' = parts_of g"
  shows "stats_of g' = stats_of g" "gw_Open g' = gw_Open g" "tunnels_of g' = tunnels_of g" "gw_Policy g' = gw_Policy g"
  using assms by (simp_all add: parts_of_def)

lemmas log_parts [simp] =
  parts_simps [OF writeLocked_parts] parts_simps [OF logRefusal_parts] parts_simps [OF logOpened_parts] parts_simps [OF flushBudgets_parts]

lemma slot_parts [simp]:
  "stats_of (gateway_release name g) = stats_of g" "tunnels_of (gateway_release name g) = tunnels_of g"
  "gw_Policy (gateway_release name g) = gw_Policy g"
  "stats_of (snd (gateway_reserve name g)) = stats_of g" "tunnels_of (snd (gateway_reserve name g)) = tunnels_of g"
  "gw_Policy (snd (gateway_reserve name g)) = gw_Policy g"
  by (simp_all add: gateway_release_def gateway_reserve_def part_defs Let_def)

lemma on_usage_parts [simp]:
  "gw_Open (on_usage a f g) = gw_Open g" "tunnels_of (on_usage a f g) = tunnels_of g" "gw_Policy (on_usage a f g) = gw_Policy g"
  by (simp_all add: on_usage_def part_defs)

lemma entry_of_parts:
  "entry_of name file g = (a, g1) \<Longrightarrow> gw_Open g1 = gw_Open g \<and> tunnels_of g1 = tunnels_of g \<and> gw_Policy g1 = gw_Policy g"
  by (auto simp: entry_of_def part_defs Let_def split: option.splits)

lemma settle_parts [simp]:
  "gw_Open (settle_usage a g) = gw_Open g" "tunnels_of (settle_usage a g) = tunnels_of g" "gw_Policy (settle_usage a g) = gw_Policy g"
  by (simp_all add: settle_usage_def split: option.split)

lemma summary_parts [simp]:
  "gw_Open (snd (gateway_begin name file g)) = gw_Open g" "tunnels_of (snd (gateway_begin name file g)) = tunnels_of g"
  "gw_Policy (snd (gateway_begin name file g)) = gw_Policy g"
  "gw_Open (gateway_abandon a g) = gw_Open g" "tunnels_of (gateway_abandon a g) = tunnels_of g"
  "gw_Policy (gateway_abandon a g) = gw_Policy g"
  "gw_Open (snd (gateway_count d file a' g)) = gw_Open g" "tunnels_of (snd (gateway_count d file a' g)) = tunnels_of g"
  "gw_Policy (snd (gateway_count d file a' g)) = gw_Policy g"
  "gw_Open (snd (gateway_collect now name g)) = gw_Open g" "tunnels_of (snd (gateway_collect now name g)) = tunnels_of g"
  "gw_Policy (snd (gateway_collect now name g)) = gw_Policy g"
  by (auto simp: gateway_begin_def gateway_abandon_def gateway_count_def gateway_collect_def Let_def
      dest!: entry_of_parts split: prod.split) (simp_all add: tunnels_of_def)

lemma tunnel_parts [simp]:
  "stats_of (tunnel_cut reason t g) = stats_of g" "gw_Open (tunnel_cut reason t g) = gw_Open g" "gw_Policy (tunnel_cut reason t g) = gw_Policy g"
  "stats_of (tunnel_close t g) = stats_of g" "gw_Open (tunnel_close t g) = gw_Open g" "gw_Policy (tunnel_close t g) = gw_Policy g"
  "stats_of (gateway_untrack t g) = stats_of g" "gw_Open (gateway_untrack t g) = gw_Open g" "gw_Policy (gateway_untrack t g) = gw_Policy g"
  "stats_of (snd (gateway_track file a port g)) = stats_of g" "gw_Open (snd (gateway_track file a port g)) = gw_Open g"
  "gw_Policy (snd (gateway_track file a port g)) = gw_Policy g"
  by (simp_all add: tunnel_cut_def tunnel_close_def gateway_untrack_def gateway_track_def part_defs Let_def split: option.split)

lemma cut_all_parts [simp]:
  "stats_of (fold (tunnel_cut reason) ts g) = stats_of g" "gw_Open (fold (tunnel_cut reason) ts g) = gw_Open g"
  "gw_Policy (fold (tunnel_cut reason) ts g) = gw_Policy g"
  by (induction ts arbitrary: g) simp_all

subsection \<open>Lemmas: a tunnel keeps its lease and its address\<close>

definition table_extends :: "tunnel list \<Rightarrow> tunnel list \<Rightarrow> bool" where
  "table_extends ts ts' \<longleftrightarrow> length ts \<le> length ts' \<and>
     (\<forall>t < length ts. tn_Lease (ts' ! t) = tn_Lease (ts ! t) \<and> tn_Address (ts' ! t) = tn_Address (ts ! t) \<and> tn_Port (ts' ! t) = tn_Port (ts ! t))"

lemma table_extends_refl: "table_extends ts ts"
  by (simp add: table_extends_def)

lemma table_extends_trans: "table_extends a b \<Longrightarrow> table_extends b c \<Longrightarrow> table_extends a c"
  by (auto simp: table_extends_def)

lemma table_extends_update:
  "t < length ts \<Longrightarrow> tn_Lease x = tn_Lease (ts ! t) \<Longrightarrow> tn_Address x = tn_Address (ts ! t) \<Longrightarrow> tn_Port x = tn_Port (ts ! t) \<Longrightarrow>
    table_extends ts (ts[t := x])"
  by (auto simp: table_extends_def nth_list_update)

lemma table_extends_steps:
  "table_extends (gw_Table g) (gw_Table (tunnel_cut reason t g))" "table_extends (gw_Table g) (gw_Table (tunnel_close t g))"
  "table_extends (gw_Table g) (gw_Table (gateway_untrack t g))" "table_extends (gw_Table g) (gw_Table (snd (gateway_track file a port g)))"
  by (auto simp: tunnel_cut_def tunnel_close_def gateway_untrack_def gateway_track_def Let_def table_extends_refl
      intro!: table_extends_update split: option.split) (simp add: table_extends_def nth_append)

lemma table_extends_cuts: "table_extends (gw_Table g) (gw_Table (fold (tunnel_cut reason) ts g))"
  by (induction ts arbitrary: g) (auto simp: table_extends_refl intro: table_extends_trans table_extends_steps(1))

lemma same_table: "tunnels_of g' = tunnels_of g \<Longrightarrow> gw_Table g' = gw_Table g"
  by (simp add: tunnels_of_def)

lemma log_tables [simp]:
  "gw_Table (writeLocked now d g) = gw_Table g" "gw_Table (logRefusal now d source unnamed g) = gw_Table g"
  "gw_Table (flushBudgets now every g) = gw_Table g" "gw_Table (gateway_release name g) = gw_Table g"
  "gw_Table (gateway_abandon a g) = gw_Table g" "gw_Table (snd (gateway_collect t name g)) = gw_Table g"
  by (rule same_table, simp)+

lemma begin_partsD:
  "gateway_begin name file g = (r, g1) \<Longrightarrow> gw_Table g1 = gw_Table g \<and> gw_Policy g1 = gw_Policy g \<and> gw_Open g1 = gw_Open g"
  by (metis same_table snd_conv summary_parts(1-3))

lemma reserve_partsD: "gateway_reserve name g = (ok, g1) \<Longrightarrow> gw_Table g1 = gw_Table g \<and> gw_Policy g1 = gw_Policy g"
  by (metis same_table snd_conv slot_parts(5,6))

subsection \<open>Lemmas: every phase was vetted\<close>

definition leased :: "serving \<Rightarrow> bool" where
  "leased sv \<longleftrightarrow> (\<exists>d. gateway_lease d (hr_Authorization (sv_Request sv)) = Some (sv_Lease sv, sv_File sv))"

definition target_ok :: "unicode_tables \<Rightarrow> policy \<Rightarrow> serving \<Rightarrow> string \<Rightarrow> u16 \<Rightarrow> bool" where
  "target_ok u p sv host port \<longleftrightarrow> leased sv \<and> connect_target u p (le_Kind (sv_Lease sv)) (sv_Request sv) = Inr (host, port)"

definition tunnel_ok :: "tunnel list \<Rightarrow> serving \<Rightarrow> u16 \<Rightarrow> nat \<Rightarrow> bool" where
  "tunnel_ok ts sv port t \<longleftrightarrow> t < length ts \<and> publicAddress (tn_Address (ts ! t)) \<and> tn_Port (ts ! t) = port \<and> tn_Lease (ts ! t) = sv_File sv"

fun phase_ok :: "unicode_tables \<Rightarrow> policy \<Rightarrow> tunnel list \<Rightarrow> phase \<Rightarrow> bool" where
  "phase_ok u p ts (Admitted sv) = leased sv"
| "phase_ok u p ts (Slotted sv host port) = target_ok u p sv host port"
| "phase_ok u p ts (Connected sv host port a) = (target_ok u p sv host port \<and> publicAddress a)"
| "phase_ok u p ts (Inspecting sv host port t) = (target_ok u p sv host port \<and> tunnel_ok ts sv port t)"
| "phase_ok u p ts (Splicing sv host port t hello counted d logged started) =
     (target_ok u p sv host port \<and> tunnel_ok ts sv port t \<and> (\<exists>input rest. readClientHello u input host = Inr (hello, rest)))"
| "phase_ok u p ts ph = True"

lemma tunnel_ok_extends: "tunnel_ok ts sv port t \<Longrightarrow> table_extends ts ts' \<Longrightarrow> tunnel_ok ts' sv port t"
  by (auto simp: tunnel_ok_def table_extends_def)

lemma phase_ok_extends: "phase_ok u p ts ph \<Longrightarrow> table_extends ts ts' \<Longrightarrow> phase_ok u p ts' ph"
  by (cases ph) (auto intro: tunnel_ok_extends)

lemma public_Unmap: "publicAddress (Unmap a) = publicAddress a"
proof -
  have "Unmap (Unmap a) = Unmap a" by (cases a) (auto simp: Unmap_def)
  then show ?thesis by (simp add: publicAddress_def)
qed

lemma dialAddresses_vetted: "dialAddresses oc i as port = Some a \<Longrightarrow> a \<in> set as"
  by (induction oc i as port rule: dialAddresses.induct) (auto split: if_splits)

lemma vetted_public: "a \<in> set (vetted as) \<Longrightarrow> publicAddress a"
  by (auto simp: vetted_def public_Unmap)

lemma count_partsD:
  "gateway_count d file a g = (r, g1) \<Longrightarrow> gw_Open g1 = gw_Open g \<and> tunnels_of g1 = tunnels_of g \<and> gw_Policy g1 = gw_Policy g"
  by (metis snd_conv summary_parts(7-9))

lemma logOpened_partsD: "logOpened now d unnamed g = (b, g1) \<Longrightarrow> parts_of g1 = parts_of g"
  by (metis snd_conv logOpened_parts)

text \<open>The operations on the way of a refusal leave the tunnels and the policy as they are.\<close>

lemma refusal_parts [simp]:
  "tunnels_of (snd (recordRefusal now sv rf g)) = tunnels_of g" "gw_Policy (snd (recordRefusal now sv rf g)) = gw_Policy g"
  "gw_Open (snd (recordRefusal now sv rf g)) = gw_Open g"
  by (auto simp: recordRefusal_def Let_def dest!: count_partsD split: prod.split)

lemma recordRefusal_partsD:
  "recordRefusal now sv rf g = (c, g1) \<Longrightarrow> tunnels_of g1 = tunnels_of g \<and> gw_Policy g1 = gw_Policy g \<and> gw_Open g1 = gw_Open g"
  by (metis refusal_parts snd_conv)

lemma refuse_partsD:
  "gateway_refuse now sv status rf g = (ph, g1) \<Longrightarrow>
    tunnels_of g1 = tunnels_of g \<and> gw_Policy g1 = gw_Policy g \<and> gw_Open g1 = gw_Open g \<and> (\<exists>ans c. ph = Settled sv ans c)"
  by (auto simp: gateway_refuse_def dest: recordRefusal_partsD split: prod.splits)

lemma release_refusal_partsD:
  "release_refusal now sv status rf g = (ph, g1) \<Longrightarrow>
    tunnels_of g1 = tunnels_of g \<and> gw_Policy g1 = gw_Policy g \<and> gw_Open g1 = gw_Open (gateway_release (le_Sandbox (sv_Lease sv)) g) \<and>
    (\<exists>ans c. ph = Settled sv ans c)"
  by (auto simp: release_refusal_def gateway_release_def open_count_def tunnels_of_def Let_def dest!: refuse_partsD split: prod.splits if_splits)

lemma drop_tunnel_partsD:
  "drop_tunnel now sv t rf g = (ph, g1) \<Longrightarrow>
    table_extends (gw_Table g) (gw_Table g1) \<and> gw_Policy g1 = gw_Policy g \<and>
    gw_Open g1 = gw_Open (gateway_release (le_Sandbox (sv_Lease sv)) g) \<and> (\<exists>c. ph = Settled sv None c)"
  by (auto simp: drop_tunnel_def gateway_release_def open_count_def tunnels_of_def gateway_untrack_def tunnel_close_def Let_def
      table_extends_refl dest!: recordRefusal_partsD intro!: table_extends_update split: prod.splits if_splits)

lemma serve_vetted:
  assumes "ServeHTTP u now oc ph g = (ph', g')" "phase_ok u (gw_Policy g) (gw_Table g) ph"
  shows "phase_ok u (gw_Policy g) (gw_Table g') ph' \<and> table_extends (gw_Table g) (gw_Table g') \<and> gw_Policy g' = gw_Policy g"
proof (cases ph)
  case (Arrived rq)
  with assms show ?thesis
    by (auto simp: serve_arrive_def leased_def Let_def table_extends_refl dest!: begin_partsD split: option.splits prod.splits)
next
  case (Admitted sv)
  with assms show ?thesis
    by (auto simp: serve_target_def target_ok_def table_extends_refl dest!: same_table refuse_partsD reserve_partsD
        split: sum.splits bool.splits prod.splits)
next
  case (Slotted sv host port)
  with assms show ?thesis
    by (auto simp: serve_dial_def table_extends_refl dest!: same_table release_refusal_partsD dialAddresses_vetted
        intro: vetted_public split: sum.splits if_splits option.splits)
next
  case (Connected sv host port a)
  with assms show ?thesis
    by (auto simp: serve_hijack_def release_abandoned_def table_extends_refl gateway_track_def Let_def tunnel_ok_def table_extends_def nth_append
        dest!: same_table release_refusal_partsD split: if_splits option.splits)
next
  case (Inspecting sv host port t)
  with assms show ?thesis
    by (auto simp: serve_inspect_def Let_def table_extends_refl parts_of_def
        dest!: same_table drop_tunnel_partsD count_partsD logOpened_partsD intro: tunnel_ok_extends split: sum.splits if_splits prod.splits) blast
next
  case (Splicing sv host port t hello counted d logged started)
  with assms show ?thesis
    by (auto simp: serve_close_def Let_def writeLocked_def tunnel_close_def gateway_untrack_def gateway_release_def
        intro!: table_extends_update table_extends_refl split: if_splits)
qed (use assms in \<open>auto simp: table_extends_refl\<close>)

lemma sweep_parts [simp]:
  "gw_Open (sweep_stats now gone g) = gw_Open g" "gw_Policy (sweep_stats now gone g) = gw_Policy g"
  "tunnels_of (sweep_stats now gone g) = tunnels_of g" "gw_Table (sweep_stats now gone g) = gw_Table g"
  by (simp_all add: sweep_stats_def tunnels_of_def)

text \<open>What holds initially and survives every phase of every request, and does not depend on what the other steps change,
  holds always.\<close>

lemma reachable_vetted: "gateway_reachable u p (g, ps) \<Longrightarrow> gw_Policy g = p \<and> (\<forall>ph \<in> set ps. phase_ok u p (gw_Table g) ph)"
proof (induction "(g, ps)" arbitrary: g ps rule: gateway_reachable.induct)
  case (start now)
  then show ?case by (simp add: gateway_New_def)
next
  case (step st)
  obtain g0 ps0 where st: "st = (g0, ps0)" by (cases st)
  have IH: "gw_Policy g0 = p" "\<forall>ph \<in> set ps0. phase_ok u p (gw_Table g0) ph" using step.hyps(2) st by auto
  have "gw_Policy g = p \<and> table_extends (gw_Table g0) (gw_Table g) \<and>
      (\<forall>ph \<in> set ps. ph \<in> set ps0 \<or> phase_ok u p (gw_Table g) ph)"
    using step.hyps(3) unfolding st
  proof cases
    case (serve k now oc ph)
    then have "phase_ok u (gw_Policy g0) (gw_Table g0) (ps0 ! k)" using IH by simp
    from serve_vetted [OF serve(3) this] show ?thesis
      using serve(1) IH(1) set_update_subset_insert [of ps0 k ph] by auto
  next
    case (collect now name s)
    then show ?thesis using summary_parts(12) [of now name g0] log_tables(6) [of now name g0] IH(1) by (simp add: table_extends_refl)
  next
    case (sweep now gone)
    then show ?thesis using IH(1) table_extends_cuts [of "sweep_stats now gone g0"] by (simp add: gateway_sweep_def Let_def)
  next
    case stop
    then show ?thesis using IH(1) table_extends_cuts [of "g0\<lparr>gw_Tunnels := None\<rparr>"] by (simp add: gateway_stop_def)
  qed (use IH(1) in \<open>auto simp: table_extends_refl table_extends_steps\<close>)
  then show ?case using IH(2) phase_ok_extends by blast
qed

text \<open>C8: The gateway relays bytes of a sandbox only through a vetted tunnel: the request was a CONNECT under the proxy
  credential of a lease that was live when it arrived, its host name and port are allowed to that kind of sandbox by the policy, the
  upstream end was dialled at a public address and that port, and the relayed stream begins with an inspected ClientHello
  for that very host. This holds in every state the gateway can reach, whatever the interleaving of requests, collections, sweeps and
  the stop, and whatever the clients, the resolver and the network answer.\<close>

theorem tunnels_vetted:
  assumes "gateway_reachable u p (g, ps)" "Splicing sv host port t hello counted d logged started \<in> set ps"
  shows "hr_Method (sv_Request sv) = ''CONNECT'' \<and>
    (\<exists>hostText portText. SplitHostPort (hr_Host (sv_Request sv)) = Some (hostText, portText) \<and>
       parse_port portText = Some port \<and> port \<noteq> 0 \<and> NormalizeHost u hostText = Inr host) \<and>
    (\<exists>dir. gateway_lease dir (hr_Authorization (sv_Request sv)) = Some (sv_Lease sv, sv_File sv)) \<and>
    allows p (le_Kind (sv_Lease sv)) host port \<and>
    t < length (gw_Table g) \<and> publicAddress (tn_Address (gw_Table g ! t)) \<and> tn_Port (gw_Table g ! t) = port \<and>
    tn_Lease (gw_Table g ! t) = sv_File sv \<and> (\<exists>input rest. readClientHello u input host = Inr (hello, rest))"
proof -
  have ok: "target_ok u p sv host port" "tunnel_ok (gw_Table g) sv port t" "\<exists>input rest. readClientHello u input host = Inr (hello, rest)"
    using reachable_vetted [OF assms(1)] assms(2) by force+
  have "hr_Method (sv_Request sv) = ''CONNECT'' \<and>
    (\<exists>hostText portText. SplitHostPort (hr_Host (sv_Request sv)) = Some (hostText, portText) \<and>
       parse_port portText = Some port \<and> port \<noteq> 0 \<and> NormalizeHost u hostText = Inr host) \<and> allows p (le_Kind (sv_Lease sv)) host port"
    using ok(1) by (auto simp: target_ok_def connect_target_def split: if_splits option.splits sum.splits prod.splits)
  with ok show ?thesis unfolding target_ok_def tunnel_ok_def leased_def by blast
qed

subsection \<open>Lemmas: the slots of a sandbox\<close>

text \<open>The number of requests a function of the phase assigns to a key.\<close>

definition tally :: "(phase \<Rightarrow> 'k option) \<Rightarrow> 'k \<Rightarrow> phase list \<Rightarrow> int" where
  "tally f k ps = int (length (filter (\<lambda>ph. f ph = Some k) ps))"

lemma tally_Nil [simp]: "tally f k [] = 0"
  by (simp add: tally_def)

lemma tally_snoc [simp]: "tally f k (ps @ [ph]) = tally f k ps + of_bool (f ph = Some k)"
  by (simp add: tally_def)

lemma tally_update:
  "i < length ps \<Longrightarrow> tally f k (ps[i := ph]) = tally f k ps - of_bool (f (ps ! i) = Some k) + of_bool (f ph = Some k)"
  by (subst (2) id_take_nth_drop [of i ps]) (auto simp: tally_def upd_conv_take_nth_drop)

lemma tally_pos: "ph \<in> set ps \<Longrightarrow> f ph = Some k \<Longrightarrow> 1 \<le> tally f k ps"
proof -
  assume "ph \<in> set ps" "f ph = Some k"
  then have "filter (\<lambda>ph. f ph = Some k) ps \<noteq> []" by (auto simp: filter_empty_conv)
  then show ?thesis by (cases "filter (\<lambda>ph. f ph = Some k) ps") (simp_all add: tally_def)
qed

fun held_slot :: "phase \<Rightarrow> string option" where
  "held_slot (Slotted sv host port) = Some (le_Sandbox (sv_Lease sv))"
| "held_slot (Connected sv host port a) = Some (le_Sandbox (sv_Lease sv))"
| "held_slot (Inspecting sv host port t) = Some (le_Sandbox (sv_Lease sv))"
| "held_slot (Splicing sv host port t hello counted d logged started) = Some (le_Sandbox (sv_Lease sv))"
| "held_slot ph = None"

lemma open_count_release:
  "1 \<le> open_count g name \<Longrightarrow> open_count (gateway_release name g) m = open_count g m - of_bool (m = name)"
  by (auto simp: gateway_release_def open_count_def Let_def delete_conv' update_conv' split: option.splits)

lemma open_count_reserve:
  "gateway_reserve name g = (True, g1) \<Longrightarrow> open_count g1 m = open_count g m + of_bool (m = name) \<and> open_count g name < tunnelLimit"
  by (auto simp: gateway_reserve_def open_count_def update_conv' split: if_splits)

lemma open_count_same: "gw_Open g' = gw_Open g \<Longrightarrow> open_count g' = open_count g"
  by (simp add: open_count_def fun_eq_iff)

lemma release_cong: "gw_Open g1 = gw_Open g \<Longrightarrow> gw_Open (gateway_release name g1) = gw_Open (gateway_release name g)"
  by (simp add: gateway_release_def open_count_def Let_def)

lemma reserve_refused: "gateway_reserve name g = (False, g1) \<Longrightarrow> g1 = g"
  by (simp add: gateway_reserve_def split: if_splits)

text \<open>What a phase does to the slots: nothing, one more for the sandbox, or one less.\<close>

lemma serve_open:
  assumes "ServeHTTP u now oc ph g = (ph', g')"
  shows "gw_Open g' = gw_Open g \<and> held_slot ph' = held_slot ph \<or>
    (\<exists>name g1. held_slot ph = None \<and> held_slot ph' = Some name \<and> gateway_reserve name g = (True, g1) \<and> gw_Open g' = gw_Open g1) \<or>
    (\<exists>name. held_slot ph = Some name \<and> held_slot ph' = None \<and> gw_Open g' = gw_Open (gateway_release name g))"
proof (cases ph)
  case (Arrived rq)
  with assms show ?thesis by (auto simp: serve_arrive_def Let_def dest!: begin_partsD split: option.splits prod.splits)
next
  case (Admitted sv)
  with assms show ?thesis
    by (auto simp: serve_target_def dest!: refuse_partsD reserve_refused split: sum.splits bool.splits prod.splits)
next
  case (Slotted sv host port)
  with assms show ?thesis
    by (auto simp: serve_dial_def dest!: release_refusal_partsD split: sum.splits if_splits option.splits)
next
  case (Connected sv host port a)
  then have "held_slot ph = Some (le_Sandbox (sv_Lease sv))" by simp
  moreover have "held_slot ph' = None \<and> gw_Open g' = gw_Open (gateway_release (le_Sandbox (sv_Lease sv)) g) \<or>
      held_slot ph' = Some (le_Sandbox (sv_Lease sv)) \<and> gw_Open g' = gw_Open g"
    using assms Connected
    by (auto simp: serve_hijack_def release_abandoned_def gateway_track_def Let_def dest!: release_refusal_partsD split: if_splits option.splits)
  ultimately show ?thesis by auto
next
  case (Inspecting sv host port t)
  then have "held_slot ph = Some (le_Sandbox (sv_Lease sv))" by simp
  moreover have "held_slot ph' = None \<and> gw_Open g' = gw_Open (gateway_release (le_Sandbox (sv_Lease sv)) g) \<or>
      held_slot ph' = Some (le_Sandbox (sv_Lease sv)) \<and> gw_Open g' = gw_Open g"
    using assms Inspecting
    by (auto simp: serve_inspect_def Let_def parts_of_def dest!: drop_tunnel_partsD count_partsD logOpened_partsD
        split: sum.splits if_splits prod.splits)
  ultimately show ?thesis by auto
next
  case (Splicing sv host port t hello counted d logged started)
  with assms have "gw_Open g' = gw_Open (gateway_release (le_Sandbox (sv_Lease sv)) g)" "held_slot ph' = None"
    by (cases logged; auto simp: serve_close_def Let_def intro!: release_cong)+
  with Splicing show ?thesis by simp
qed (use assms in auto)

definition slots_inv :: "gateway \<Rightarrow> phase list \<Rightarrow> bool" where
  "slots_inv g ps \<longleftrightarrow> (\<forall>name. open_count g name = tally held_slot name ps \<and> tally held_slot name ps \<le> tunnelLimit)"

lemma slots_inv_cong: "gw_Open g' = gw_Open g \<Longrightarrow> slots_inv g ps \<Longrightarrow> slots_inv g' ps"
  by (simp add: slots_inv_def open_count_def)

lemma serve_slots:
  assumes "ServeHTTP u now oc (ps ! k) g = (ph, g')" "k < length ps" "slots_inv g ps"
  shows "slots_inv g' (ps[k := ph])"
proof -
  have inv: "open_count g m = tally held_slot m ps" "tally held_slot m ps \<le> tunnelLimit" for m using assms(3) by (simp_all add: slots_inv_def)
  have "open_count g' m = tally held_slot m (ps[k := ph]) \<and> tally held_slot m (ps[k := ph]) \<le> tunnelLimit" for m
    using serve_open [OF assms(1)]
  proof (elim disjE exE conjE)
    assume "gw_Open g' = gw_Open g" "held_slot ph = held_slot (ps ! k)"
    then show ?thesis using inv [of m] open_count_same [of g' g] by (simp add: tally_update assms(2))
  next
    fix name g1
    assume a: "held_slot (ps ! k) = None" "held_slot ph = Some name" "gateway_reserve name g = (True, g1)" "gw_Open g' = gw_Open g1"
    from open_count_reserve [OF a(3), of m] show ?thesis
      using inv [of m] a(1,2) open_count_same [OF a(4)] by (auto simp: tally_update assms(2))
  next
    fix name
    assume a: "held_slot (ps ! k) = Some name" "held_slot ph = None" "gw_Open g' = gw_Open (gateway_release name g)"
    have "1 \<le> open_count g name" using assms(2) a(1) tally_pos [of "ps ! k" ps held_slot name] inv(1) by simp
    from open_count_release [OF this, of m] show ?thesis
      using inv [of m] a(1,2) open_count_same [OF a(3)] by (auto simp: tally_update assms(2))
  qed
  then show ?thesis by (simp add: slots_inv_def)
qed

lemma reachable_slots: "gateway_reachable u p (g, ps) \<Longrightarrow> slots_inv g ps"
proof (induction "(g, ps)" arbitrary: g ps rule: gateway_reachable.induct)
  case (start now)
  then show ?case by (simp add: slots_inv_def gateway_New_def open_count_def tunnelLimit_def)
next
  case (step st)
  obtain g0 ps0 where st: "st = (g0, ps0)" by (cases st)
  have IH: "slots_inv g0 ps0" using step.hyps(2) st by simp
  show ?case
    using step.hyps(3) unfolding st
  proof cases
    case (serve k now oc ph)
    then show ?thesis using serve_slots IH by simp
  next
    case (arrive rq)
    then show ?thesis using IH by (simp add: slots_inv_def)
  next
    case (collect now name s)
    then have "gw_Open g = gw_Open g0" using summary_parts(10) [of now name g0] by simp
    then show ?thesis using IH collect slots_inv_cong by simp
  qed (use IH in \<open>auto simp: gateway_sweep_def gateway_stop_def Let_def elim!: slots_inv_cong [rotated]\<close>)
qed

subsection \<open>Lemmas: the statistics\<close>

lemma NormalizeHost_nonempty: "NormalizeHost u s = Inr h \<Longrightarrow> h \<noteq> []"
  by (auto simp: NormalizeHost_def Let_def split: if_splits)

lemma bare_text_nonempty: "bare_text a \<noteq> []"
proof -
  have "show_groups (groups_of x) \<noteq> []" for x
    by (auto simp: show_groups_def groups_of_def upt_rec [of 0] show_hex.simps [of "group16 x 0"] split: option.split)
      (auto simp: upt_rec split: list.splits)
  then show ?thesis using show_nat_digits(2) by (auto simp: bare_text_def split: addr.split)
qed

lemma refusedHost_nonempty: "refusedHost u s \<noteq> []"
  by (auto simp: refusedHost_def bare_text_nonempty ValidLabel_def Let_def dest: NormalizeHost_nonempty split: sum.split option.split)

lemma refused_target_nonempty: "fst (refused_target u rq) \<noteq> []"
  by (simp add: refused_target_def refusedHost_nonempty split: option.split prod.split)

lemma connect_target_host:
  "connect_target u p kind rq = Inl (status, rf) \<Longrightarrow> rf_Host rf \<noteq> []" "connect_target u p kind rq = Inr (host, port) \<Longrightarrow> host \<noteq> []"
  using refused_target_nonempty [of u rq]
  by (auto simp: connect_target_def denied_def refusedHost_nonempty dest: NormalizeHost_nonempty split: if_splits option.splits sum.splits prod.splits)

lemma leased_sandbox: "leased sv \<Longrightarrow> le_Sandbox (sv_Lease sv) \<noteq> []"
  by (auto simp: leased_def gateway_lease_def lease_lookup_def readLease_def split: if_splits option.splits lease_file.splits)

fun pending_at :: "phase \<Rightarrow> nat option" where
  "pending_at (Admitted sv) = Some (sv_Pending sv)"
| "pending_at (Slotted sv host port) = Some (sv_Pending sv)"
| "pending_at (Connected sv host port a) = Some (sv_Pending sv)"
| "pending_at (Inspecting sv host port t) = Some (sv_Pending sv)"
| "pending_at ph = None"

fun registered :: "phase \<Rightarrow> serving option" where
  "registered (Arrived rq) = None"
| "registered (Refused ans) = None"
| "registered (Admitted sv) = Some sv"
| "registered (Slotted sv host port) = Some sv"
| "registered (Connected sv host port a) = Some sv"
| "registered (Inspecting sv host port t) = Some sv"
| "registered (Splicing sv host port t hello counted d logged started) = Some sv"
| "registered (Abandoned sv) = Some sv"
| "registered (Settled sv ans counted) = Some sv"

fun counted_in :: "phase \<Rightarrow> nat option" where
  "counted_in (Splicing sv host port t hello counted d logged started) = counted"
| "counted_in (Settled sv ans counted) = counted"
| "counted_in ph = None"

text \<open>The operations of the statistics look at nothing else.\<close>

lemma on_usage_cong: "stats_of g1 = stats_of g \<Longrightarrow> stats_of (on_usage a f g1) = stats_of (on_usage a f g)"
  by (simp add: on_usage_def stats_of_def)

lemma abandon_cong: "stats_of g1 = stats_of g \<Longrightarrow> stats_of (gateway_abandon a g1) = stats_of (gateway_abandon a g)"
  unfolding gateway_abandon_def by (rule on_usage_cong)

lemma settle_cong: "stats_of g1 = stats_of g \<Longrightarrow> stats_of (settle_usage a g1) = stats_of (settle_usage a g)"
  unfolding settle_usage_def by (cases a) (auto intro: on_usage_cong)

lemma entry_of_cong:
  "stats_of g1 = stats_of g \<Longrightarrow> fst (entry_of name file g1) = fst (entry_of name file g) \<and>
    stats_of (snd (entry_of name file g1)) = stats_of (snd (entry_of name file g))"
  by (auto simp: entry_of_def stats_of_def Let_def split: option.splits)

lemma gw_usages_cong: "stats_of g1 = stats_of g \<Longrightarrow> gw_Usages g1 = gw_Usages g"
  by (simp add: stats_of_def)

lemma count_cong:
  assumes "stats_of g1 = stats_of g"
  shows "fst (gateway_count d file a g1) = fst (gateway_count d file a g) \<and>
    stats_of (snd (gateway_count d file a g1)) = stats_of (snd (gateway_count d file a g))"
proof -
  let ?h1 = "settle_usage a g1" and ?h = "settle_usage a g"
  have s: "stats_of ?h1 = stats_of ?h" using assms by (rule settle_cong)
  then have c: "gw_Collected ?h1 = gw_Collected ?h" by (simp add: stats_of_def)
  obtain b h1' where e1: "entry_of (dc_Sandbox d) file ?h1 = (b, h1')" by fastforce
  obtain b' h' where e: "entry_of (dc_Sandbox d) file ?h = (b', h')" by fastforce
  have "b' = b" "stats_of h1' = stats_of h'" using entry_of_cong [OF s, of "dc_Sandbox d" "file"] e1 e by simp_all
  then show ?thesis
    using s c gw_usages_cong [of h1' h'] by (auto simp: gateway_count_def Let_def e1 e intro: on_usage_cong split: prod.split)
qed

text \<open>What a phase does to the statistics: nothing, or one operation on behalf of the request.\<close>

datatype stats_move = Same | Begun serving | Counted serving decision "nat option" | Dropped serving

definition makes_move :: "stats_move \<Rightarrow> phase \<Rightarrow> gateway \<Rightarrow> phase \<Rightarrow> gateway \<Rightarrow> bool" where
  "makes_move m ph g ph' g' \<longleftrightarrow>
     (case m of
        Same \<Rightarrow> stats_of g' = stats_of g \<and> registered ph' = registered ph \<and> pending_at ph' = pending_at ph \<and> counted_in ph' = counted_in ph
      | Begun sv \<Rightarrow>
          registered ph = None \<and> pending_at ph = None \<and> counted_in ph = None \<and>
          registered ph' = Some sv \<and> pending_at ph' = Some (sv_Pending sv) \<and> counted_in ph' = None \<and>
          leased sv \<and> (\<exists>g1. gateway_begin (le_Sandbox (sv_Lease sv)) (sv_File sv) g = (Some (sv_Pending sv), g1) \<and> stats_of g' = stats_of g1)
      | Counted sv d c \<Rightarrow>
          registered ph = Some sv \<and> pending_at ph = Some (sv_Pending sv) \<and> counted_in ph = None \<and>
          registered ph' = Some sv \<and> pending_at ph' = None \<and> counted_in ph' = c \<and> dc_Sandbox d = le_Sandbox (sv_Lease sv) \<and> dc_Host d \<noteq> [] \<and>
          (\<exists>key unnamed g1. gateway_count d (sv_File sv) (Some (sv_Pending sv)) g = ((c, key, unnamed), g1) \<and> stats_of g' = stats_of g1)
      | Dropped sv \<Rightarrow>
          registered ph = Some sv \<and> pending_at ph = Some (sv_Pending sv) \<and> counted_in ph = None \<and>
          registered ph' = Some sv \<and> pending_at ph' = None \<and> counted_in ph' = None \<and>
          stats_of g' = stats_of (gateway_abandon (sv_Pending sv) g))"

lemma makes_move_Same: "stats_of g' = stats_of g \<Longrightarrow> registered ph' = registered ph \<Longrightarrow> pending_at ph' = pending_at ph \<Longrightarrow>
    counted_in ph' = counted_in ph \<Longrightarrow> \<exists>m. makes_move m ph g ph' g'"
  by (rule exI [of _ Same]) (simp add: makes_move_def)

lemma recordRefusal_count:
  assumes "recordRefusal now sv rf g = (c, g')" "rf_Host rf \<noteq> []"
  shows "\<exists>d key unnamed g1. dc_Sandbox d = le_Sandbox (sv_Lease sv) \<and> dc_Host d \<noteq> [] \<and>
    gateway_count d (sv_File sv) (Some (sv_Pending sv)) g = ((c, key, unnamed), g1) \<and> stats_of g' = stats_of g1"
proof -
  obtain c' key unnamed g1 where k: "gateway_count (refusal_decision sv rf) (sv_File sv) (Some (sv_Pending sv)) g = ((c', key, unnamed), g1)"
    by (metis surj_pair)
  with assms show ?thesis
    by (intro exI [of _ "refusal_decision sv rf"]) (auto simp: recordRefusal_def Let_def refusal_decision_def)
qed

lemma refuse_move:
  assumes "recordRefusal now sv rf g = (c, g1)" "rf_Host rf \<noteq> []" "stats_of g' = stats_of g1"
    "registered ph = Some sv" "pending_at ph = Some (sv_Pending sv)" "counted_in ph = None"
  shows "\<exists>m. makes_move m ph g (Settled sv ans c) g'"
proof -
  from recordRefusal_count [OF assms(1,2)] obtain d where "makes_move (Counted sv d c) ph g (Settled sv ans c) g'"
    using assms(3-) unfolding makes_move_def by fastforce
  then show ?thesis ..
qed

lemma refusal_moves:
  assumes "rf_Host rf \<noteq> []" "registered ph = Some sv" "pending_at ph = Some (sv_Pending sv)" "counted_in ph = None"
  shows "gateway_refuse now sv status rf g = (ph', g') \<Longrightarrow> \<exists>m. makes_move m ph g ph' g'"
    and "release_refusal now sv status rf g = (ph', g') \<Longrightarrow> \<exists>m. makes_move m ph g ph' g'"
    and "drop_tunnel now sv t rf g = (ph', g') \<Longrightarrow> \<exists>m. makes_move m ph g ph' g'"
  using refuse_move [OF _ assms(1) _ assms(2-4)]
  by (auto simp: gateway_refuse_def release_refusal_def drop_tunnel_def split: prod.splits)

lemma unreached_host [simp]: "rf_Host (unreached host port reason) = host" "rf_Host (denied host port reason) = host"
  "rf_Host (hello_refusal oc host port cause e) = host"
  by (simp_all add: unreached_def denied_def hello_refusal_def split: option.split)

lemma serve_move:
  assumes "ServeHTTP u now oc ph g = (ph', g')" "phase_ok u (gw_Policy g) (gw_Table g) ph"
  shows "\<exists>m. makes_move m ph g ph' g'"
proof (cases ph)
  case (Arrived rq)
  show ?thesis
  proof (cases "gateway_lease (oc_Leases oc) (hr_Authorization rq)")
    case None
    with assms(1) Arrived show ?thesis by (auto simp: serve_arrive_def Let_def intro!: makes_move_Same)
  next
    case (Some r)
    obtain l fl where r: "r = (l, fl)" by (cases r)
    obtain b g1 where b: "gateway_begin (le_Sandbox l) fl g = (b, g1)" by fastforce
    show ?thesis
    proof (cases b)
      case None
      with b have "g1 = g" by (auto simp: gateway_begin_def Let_def split: if_splits prod.splits)
      with None assms(1) Arrived Some r b show ?thesis by (auto simp: serve_arrive_def intro!: makes_move_Same)
    next
      case (Some a)
      let ?sv = "\<lparr>sv_Request = rq, sv_Lease = l, sv_File = fl, sv_Pending = a\<rparr>"
      from assms(1) Arrived \<open>gateway_lease (oc_Leases oc) (hr_Authorization rq) = Some r\<close> r b Some
      have "ph' = Admitted ?sv" "g' = g1" by (simp_all add: serve_arrive_def)
      moreover have "leased ?sv"
        using \<open>gateway_lease (oc_Leases oc) (hr_Authorization rq) = Some r\<close> r by (auto simp: leased_def)
      ultimately show ?thesis using Arrived b Some by (intro exI [of _ "Begun ?sv"]) (simp add: makes_move_def)
    qed
  qed
next
  case (Admitted sv)
  show ?thesis
  proof (cases "connect_target u (gw_Policy g) (le_Kind (sv_Lease sv)) (sv_Request sv)")
    case (Inl r)
    obtain status rf where r: "r = (status, rf)" by (cases r)
    with Inl have "rf_Host rf \<noteq> []" using connect_target_host(1) by simp
    moreover have "gateway_refuse now sv status rf g = (ph', g')" using assms(1) Admitted Inl r by (simp add: serve_target_def)
    ultimately show ?thesis using Admitted refusal_moves(1) [of rf ph sv] by simp
  next
    case (Inr r)
    obtain host port where r: "r = (host, port)" by (cases r)
    with Inr have host: "host \<noteq> []" using connect_target_host(2) by simp
    obtain ok g1 where ok: "gateway_reserve (le_Sandbox (sv_Lease sv)) g = (ok, g1)" by fastforce
    show ?thesis
    proof (cases ok)
      case True
      have "stats_of g1 = stats_of g" using slot_parts(4) [of "le_Sandbox (sv_Lease sv)" g] ok by simp
      with assms(1) Admitted Inr r ok True show ?thesis by (intro makes_move_Same) (auto simp: serve_target_def)
    next
      case False
      with ok have "gateway_refuse now sv 429 (unreached host port ''too many open tunnels'') g = (ph', g')"
        using assms(1) Admitted Inr r reserve_refused by (auto simp: serve_target_def)
      with host Admitted show ?thesis using refusal_moves(1) [of "unreached host port ''too many open tunnels''" ph sv] by simp
    qed
  qed
next
  case (Slotted sv host port)
  with assms have "host \<noteq> []" by (auto simp: target_ok_def dest: connect_target_host)
  then have refused: "\<exists>m. makes_move m ph g ph' g'" if "release_refusal now sv status rf g = (ph', g')" "rf_Host rf = host" for status rf
    using refusal_moves(2) [of rf ph sv] that Slotted by simp
  have same: "\<exists>m. makes_move m ph g ph' g'" if "ph' = Connected sv host port a" "g' = g" for a
    using that Slotted by (intro makes_move_Same) simp_all
  show ?thesis using assms(1) [unfolded Slotted] refused same
    by (simp add: serve_dial_def split: sum.splits if_splits option.splits) blast+
next
  case (Connected sv host port a)
  with assms have "host \<noteq> []" by (auto simp: target_ok_def dest: connect_target_host)
  then have refused: "\<exists>m. makes_move m ph g ph' g'" if "release_refusal now sv status rf g = (ph', g')" "rf_Host rf = host" for status rf
    using refusal_moves(2) [of rf ph sv] that Connected by simp
  have tracked: "stats_of g1 = stats_of g" if "gateway_track fl a port g = (r, g1)" for fl r g1
    using tunnel_parts(10) [of fl a port g] that by simp
  have same: "\<exists>m. makes_move m ph g (Inspecting sv host port t) g'" if "gateway_track fl a port g = (r, g')" for fl r t
    using that tracked Connected by (intro makes_move_Same) auto
  have dropped: "\<exists>m. makes_move m ph g (Abandoned sv) (gateway_abandon (sv_Pending sv) (gateway_release name g1))"
    if "stats_of g1 = stats_of g" for name g1
    using that Connected abandon_cong [of "gateway_release name g1" g]
    by (intro exI [of _ "Dropped sv"]) (simp add: makes_move_def)
  show ?thesis using assms(1) [unfolded Connected]
    by (auto simp: serve_hijack_def release_abandoned_def split: if_splits option.splits prod.splits
        elim: refused intro: same dropped tracked)
next
  case (Inspecting sv host port t)
  with assms have host: "host \<noteq> []" by (auto simp: target_ok_def dest: connect_target_host)
  have drop: "\<exists>m. makes_move m ph g ph' g'" if "drop_tunnel now sv t rf g = (ph', g')" "rf_Host rf = host" for rf
    using refusal_moves(3) [of rf ph sv] that Inspecting host by simp
  let ?tid = "gw_TunnelIDs g + 1"
  let ?d = "allowed_decision sv host port ?tid"
  obtain c key unnamed g1 where k: "gateway_count ?d (sv_File sv) (Some (sv_Pending sv)) (g\<lparr>gw_TunnelIDs := ?tid\<rparr>) = ((c, key, unnamed), g1)"
    by (metis surj_pair)
  obtain lg g2 where l: "logOpened now ?d unnamed g1 = (lg, g2)" by fastforce
  have s2: "stats_of g2 = stats_of g1" using logOpened_partsD [OF l] by (simp add: parts_of_def)
  obtain g3 where g3: "gateway_count ?d (sv_File sv) (Some (sv_Pending sv)) g = ((c, key, unnamed), g3)" "stats_of g3 = stats_of g1"
    using count_cong [of "g\<lparr>gw_TunnelIDs := ?tid\<rparr>" g ?d "sv_File sv" "Some (sv_Pending sv)"] k
    by (cases "gateway_count ?d (sv_File sv) (Some (sv_Pending sv)) g") (auto simp: stats_of_def)
  have "makes_move (Counted sv ?d c) ph g (Splicing sv host port t hello c ?d lg now) g2" for hello
    using Inspecting g3 s2 host by (auto simp: makes_move_def allowed_decision_def)
  then have opened: "\<exists>m. makes_move m ph g (Splicing sv host port t hello c ?d lg now) g'" if "g2 = g'" for hello using that by blast
  have drop': "\<exists>m. makes_move m ph g ph' g'" if "drop_tunnel now sv t (unreached host port reason) g = (ph', g')" for reason
    using drop [OF that] by simp
  show ?thesis using assms(1) [unfolded Inspecting]
    by (auto simp: serve_inspect_def Let_def k l elim: drop drop' intro: opened split: sum.splits if_splits)
next
  case (Splicing sv host port t hello counted d logged started)
  with assms(1) show ?thesis
    by (auto simp: serve_close_def Let_def intro!: makes_move_Same)
qed (use assms(1) in \<open>auto intro!: makes_move_Same\<close>)

subsection \<open>Lemmas: what a summary adds up to\<close>

definition counts_total :: "counts \<Rightarrow> int" where
  "counts_total m = sum_list (map (\<lambda>(k, c). hc_Count c) m)"

definition summary_total :: "summary \<Rightarrow> int" where
  "summary_total s = counts_total (sm_Allowed s) + counts_total (sm_Denied s) + counts_total (sm_Failed s)"

definition counts_ok :: "counts \<Rightarrow> bool" where
  "counts_ok m \<longleftrightarrow> distinct (map fst m) \<and> length (filter (\<lambda>(k, c). k \<noteq> ''other'') m) \<le> summaryHostLimit"

definition usage_ok :: "usage \<Rightarrow> bool" where
  "usage_ok u \<longleftrightarrow> counts_ok (sm_Allowed (us_Summary u)) \<and> counts_ok (sm_Denied (us_Summary u)) \<and> counts_ok (sm_Failed (us_Summary u)) \<and>
     length (us_Named u) \<le> foldedNameLimit"

lemma counts_total_update: "counts_total (AList.update k \<lparr>hc_Count = count_of m k + 1\<rparr> m) = counts_total m + 1"
  by (induction m) (auto simp: counts_total_def count_of_def)

lemma update_known: "map_of m k \<noteq> None \<Longrightarrow> map fst (AList.update k v m) = map fst m"
  by (induction m) auto

lemma update_unknown: "map_of m k = None \<Longrightarrow> AList.update k v m = m @ [(k, v)]"
  by (induction m) auto

lemma named_length: "length (filter (\<lambda>(k, c). k \<noteq> ''other'') m) = length (filter (\<lambda>k. k \<noteq> ''other'') (map fst m))"
  by (induction m) auto

lemma counts_ok_update:
  assumes "counts_ok m" "map_of m k = None \<longrightarrow> k = ''other'' \<or> length m < summaryHostLimit"
  shows "counts_ok (AList.update k v m)"
proof -
  have d: "distinct (map fst (AList.update k v m))" using assms(1) distinct_update by (auto simp: counts_ok_def)
  show ?thesis
  proof (cases "map_of m k")
    case None
    then show ?thesis
      using assms d by (auto simp: counts_ok_def update_unknown intro!: Suc_leI intro: le_less_trans [OF length_filter_le])
  next
    case (Some c)
    then have "map fst (AList.update k v m) = map fst m" by (simp add: update_known)
    then show ?thesis using assms(1) d by (simp add: counts_ok_def named_length)
  qed
qed

lemma set_target_total: "counts_total m = counts_total (summary_target dec s) + 1 \<Longrightarrow> summary_total (set_target dec m s) = summary_total s + 1"
  by (auto simp: summary_total_def set_target_def summary_target_def split: if_splits)

text \<open>Counting a decision adds one to the summary and keeps its bounds.\<close>

lemma count_decision_value:
  assumes "count_decision d u = (u', key, unnamed)" "usage_ok u"
  shows "usage_ok u' \<and> summary_total (us_Summary u') = summary_total (us_Summary u) + 1 \<and> us_Pending u' = us_Pending u \<and>
    sm_Incomplete (us_Summary u') = sm_Incomplete (us_Summary u)"
proof -
  let ?t = "summary_target (dc_Decision d) (us_Summary u)" and ?key = "summaryKey (dc_Host d) (dc_Port d)"
  define counted where "counted = (if map_of ?t ?key = None \<and> summaryHostLimit \<le> length ?t then ''other'' else ?key)"
  let ?m = "AList.update counted \<lparr>hc_Count = count_of ?t counted + 1\<rparr> ?t"
  obtain named where "u' = u\<lparr>us_Named := named, us_Summary := set_target (dc_Decision d) ?m (us_Summary u)\<rparr>"
    "length named \<le> max (length (us_Named u)) foldedNameLimit"
    using assms(1) unfolding count_decision_def Let_def counted_def [symmetric] prod.inject
    by (elim conjE) (rule that, erule sym, auto split: if_splits)
  then have u': "us_Summary u' = set_target (dc_Decision d) ?m (us_Summary u)" "us_Pending u' = us_Pending u"
    "length (us_Named u') \<le> max (length (us_Named u)) foldedNameLimit" by simp_all
  have "counts_ok ?t" using assms(2) by (simp add: usage_ok_def summary_target_def)
  then have "counts_ok ?m" by (rule counts_ok_update) (auto simp: counted_def)
  with u' assms(2) have "usage_ok u'" by (auto simp: usage_ok_def set_target_def)
  moreover have "sm_Incomplete (us_Summary u') = sm_Incomplete (us_Summary u)" using u'(1) by (simp add: set_target_def)
  ultimately show ?thesis using u'(1,2) set_target_total [OF counts_total_update] by simp
qed

subsection \<open>Lemmas: the books of the statistics\<close>

text \<open>Each entry knows how many of its requests are open and how many outcomes it counts; the directory gives each sandbox its own
  entry, unless it was collected; and a request whose entry is still in the directory is open, counted there, or has left the
  entry marked incomplete.\<close>

definition books_inv :: "gateway \<Rightarrow> phase list \<Rightarrow> bool" where
  "books_inv g ps \<longleftrightarrow> (\<forall>a < length (gw_Usages g). us_Pending (gw_Usages g ! a) = tally pending_at a ps \<and>
     summary_total (us_Summary (gw_Usages g ! a)) = tally counted_in a ps \<and> usage_ok (gw_Usages g ! a))"

definition range_inv :: "nat \<Rightarrow> phase \<Rightarrow> bool" where
  "range_inv n ph \<longleftrightarrow> (\<forall>a. pending_at ph = Some a \<or> counted_in ph = Some a \<or> map_option sv_Pending (registered ph) = Some a \<longrightarrow> a < n)"

definition directory_inv :: "gateway \<Rightarrow> bool" where
  "directory_inv g \<longleftrightarrow> distinct (map fst (gw_Stats g)) \<and>
     (\<forall>name a. map_of (gw_Stats g) name = Some a \<longrightarrow> a < length (gw_Usages g) \<and> map_of (gw_Collected g) name = None) \<and>
     (\<forall>n1 n2 a. map_of (gw_Stats g) n1 = Some a \<longrightarrow> map_of (gw_Stats g) n2 = Some a \<longrightarrow> n1 = n2)"

definition settled_inv :: "gateway \<Rightarrow> phase \<Rightarrow> bool" where
  "settled_inv g ph \<longleftrightarrow> (\<forall>sv. registered ph = Some sv \<longrightarrow> le_Sandbox (sv_Lease sv) \<noteq> [] \<and>
     (\<forall>name. map_of (gw_Stats g) name = Some (sv_Pending sv) \<longrightarrow> name = le_Sandbox (sv_Lease sv) \<and>
       (pending_at ph = Some (sv_Pending sv) \<or> counted_in ph = Some (sv_Pending sv) \<or>
        sm_Incomplete (us_Summary (gw_Usages g ! sv_Pending sv)))))"

definition usage_inv :: "gateway \<Rightarrow> phase list \<Rightarrow> bool" where
  "usage_inv g ps \<longleftrightarrow> books_inv g ps \<and> directory_inv g \<and> (\<forall>ph \<in> set ps. range_inv (length (gw_Usages g)) ph \<and> settled_inv g ph)"

lemma usage_inv_cong: "stats_of g' = stats_of g \<Longrightarrow> usage_inv g ps \<Longrightarrow> usage_inv g' ps"
  by (simp add: usage_inv_def books_inv_def directory_inv_def settled_inv_def stats_of_def)

lemma tally_none: "(\<And>ph. ph \<in> set ps \<Longrightarrow> f ph \<noteq> Some k) \<Longrightarrow> tally f k ps = 0"
  by (simp add: tally_def filter_empty_conv)

lemma entry_of_inv:
  assumes "usage_inv g ps" "map_of (gw_Collected g) name = None" "entry_of name file g = (a, g1)"
  shows "usage_inv g1 ps \<and> map_of (gw_Stats g1) name = Some a \<and> a < length (gw_Usages g1) \<and> gw_Collected g1 = gw_Collected g \<and>
    length (gw_Usages g) \<le> length (gw_Usages g1)"
proof (cases "map_of (gw_Stats g) name")
  case (Some b)
  then show ?thesis using assms by (auto simp: entry_of_def usage_inv_def directory_inv_def)
next
  case None
  let ?u = "\<lparr>us_Summary = emptySummary, us_Lease = file, us_Revoked = None, us_Pending = 0, us_Named = []\<rparr>"
  have a: "a = length (gw_Usages g)" "g1 = g\<lparr>gw_Usages := gw_Usages g @ [?u], gw_Stats := AList.update name a (gw_Stats g)\<rparr>"
    using assms(3) None by (auto simp: entry_of_def Let_def)
  have range: "range_inv a ph" "settled_inv g ph" if "ph \<in> set ps" for ph using assms(1) that a(1) by (simp_all add: usage_inv_def)
  have "tally pending_at a ps = 0" "tally counted_in a ps = 0" using range(1) by (auto intro!: tally_none simp: range_inv_def)
  then have "books_inv g1 ps"
    using assms(1) by (auto simp: usage_inv_def books_inv_def a nth_append less_Suc_eq emptySummary_def summary_total_def counts_total_def
        usage_ok_def counts_ok_def summaryHostLimit_def foldedNameLimit_def)
  moreover have "directory_inv g1"
    using assms(1,2) by (auto simp: usage_inv_def directory_inv_def a update_conv' distinct_update less_SucI split: if_splits)
      (metis less_irrefl)+
  moreover have "range_inv (length (gw_Usages g1)) ph \<and> settled_inv g1 ph" if "ph \<in> set ps" for ph
    using range [OF that] by (fastforce simp: range_inv_def settled_inv_def a update_conv' nth_append split: if_splits)
  ultimately show ?thesis by (simp add: usage_inv_def a update_conv')
qed

text \<open>A step of one request that moves its share of the books keeps them balanced.\<close>

lemma books_update:
  assumes inv: "usage_inv g ps" and k: "k < length ps"
    and dir: "gw_Stats g' = gw_Stats g" "gw_Collected g' = gw_Collected g" "length (gw_Usages g') = length (gw_Usages g)"
    and pend: "\<And>b. b < length (gw_Usages g) \<Longrightarrow> us_Pending (gw_Usages g' ! b) =
      us_Pending (gw_Usages g ! b) - of_bool (pending_at (ps ! k) = Some b) + of_bool (pending_at ph = Some b)"
    and total: "\<And>b. b < length (gw_Usages g) \<Longrightarrow> summary_total (us_Summary (gw_Usages g' ! b)) =
      summary_total (us_Summary (gw_Usages g ! b)) - of_bool (counted_in (ps ! k) = Some b) + of_bool (counted_in ph = Some b)"
    and ok: "\<And>b. b < length (gw_Usages g) \<Longrightarrow> usage_ok (gw_Usages g' ! b) \<and>
      (sm_Incomplete (us_Summary (gw_Usages g ! b)) \<longrightarrow> sm_Incomplete (us_Summary (gw_Usages g' ! b)))"
    and ph: "range_inv (length (gw_Usages g)) ph" "settled_inv g' ph"
  shows "usage_inv g' (ps[k := ph])"
proof -
  have "books_inv g' (ps[k := ph])"
    using inv pend total ok by (simp add: usage_inv_def books_inv_def dir tally_update k)
  moreover have "directory_inv g'" using inv by (simp add: usage_inv_def directory_inv_def dir)
  moreover have "settled_inv g' x" if "x \<in> set ps" for x
  proof -
    have "range_inv (length (gw_Usages g)) x" "settled_inv g x" using inv that by (simp_all add: usage_inv_def)
    then show ?thesis using ok unfolding settled_inv_def range_inv_def dir by (metis (no_types, lifting) option.simps(9))
  qed
  moreover have "range_inv (length (gw_Usages g)) x" if "x \<in> set ps" for x using inv that by (simp add: usage_inv_def)
  ultimately show ?thesis
    using ph set_update_subset_insert [of ps k ph] unfolding usage_inv_def dir(3) by blast
qed

lemma usage_invD:
  assumes "usage_inv g ps" "ph \<in> set ps" "registered ph = Some sv"
  shows "sv_Pending sv < length (gw_Usages g)" "le_Sandbox (sv_Lease sv) \<noteq> []"
    "map_of (gw_Stats g) name = Some (sv_Pending sv) \<Longrightarrow> name = le_Sandbox (sv_Lease sv)"
    "map_of (gw_Stats g) name = Some a \<Longrightarrow> map_of (gw_Collected g) name = None"
  using assms by (auto simp: usage_inv_def range_inv_def settled_inv_def directory_inv_def)

lemma books_ok: "usage_inv g ps \<Longrightarrow> b < length (gw_Usages g) \<Longrightarrow> usage_ok (gw_Usages g ! b)"
  by (simp add: usage_inv_def books_inv_def)

lemma dropped_inv:
  assumes "makes_move (Dropped sv) (ps ! k) g ph g'" "k < length ps" "usage_inv g ps"
  shows "usage_inv g' (ps[k := ph])"
proof -
  note m = assms(1) [unfolded makes_move_def stats_move.case]
  have reg: "registered (ps ! k) = Some sv" using m by simp
  note D = usage_invD [OF assms(3) nth_mem [OF assms(2)] reg]
  let ?a = "sv_Pending sv" and ?g = "gateway_abandon (sv_Pending sv) g"
  have us: "gw_Usages ?g = (gw_Usages g)[?a := (gw_Usages g ! ?a)\<lparr>us_Pending := us_Pending (gw_Usages g ! ?a) - 1,
      us_Summary := (us_Summary (gw_Usages g ! ?a))\<lparr>sm_Incomplete := True\<rparr>\<rparr>]" "gw_Stats ?g = gw_Stats g" "gw_Collected ?g = gw_Collected g"
    using D(1) by (simp_all add: gateway_abandon_def on_usage_def)
  have "usage_inv ?g (ps[k := ph])"
    using assms(3,2) us(2,3)
  proof (rule books_update)
    show "settled_inv ?g ph" using m D(1-3) us by (auto simp: settled_inv_def)
    show "range_inv (length (gw_Usages g)) ph" using m D(1) by (auto simp: range_inv_def)
    show "usage_ok (gw_Usages ?g ! b) \<and> (sm_Incomplete (us_Summary (gw_Usages g ! b)) \<longrightarrow> sm_Incomplete (us_Summary (gw_Usages ?g ! b)))"
      if "b < length (gw_Usages g)" for b
      using books_ok [OF assms(3) that] that D(1) by (auto simp: us nth_list_update usage_ok_def)
  qed (use m us D(1) in \<open>auto simp: nth_list_update summary_total_def\<close>)
  then show ?thesis using m usage_inv_cong by blast
qed

lemma begun_inv:
  assumes "makes_move (Begun sv) (ps ! k) g ph g'" "k < length ps" "usage_inv g ps"
  shows "usage_inv g' (ps[k := ph])"
proof -
  note m = assms(1) [unfolded makes_move_def stats_move.case]
  let ?n = "le_Sandbox (sv_Lease sv)" and ?a = "sv_Pending sv"
  obtain g2 where b: "gateway_begin ?n (sv_File sv) g = (Some ?a, g2)" "stats_of g' = stats_of g2" using m by blast
  obtain g1 where e: "entry_of ?n (sv_File sv) g = (?a, g1)" and c: "map_of (gw_Collected g) ?n = None"
    and g2: "g2 = on_usage ?a (\<lambda>u. u\<lparr>us_Pending := us_Pending u + 1\<rparr>) g1"
    using b(1) by (auto simp: gateway_begin_def Let_def split: if_splits prod.splits)
  note E = entry_of_inv [OF assms(3) c e]
  have us: "gw_Usages g2 = (gw_Usages g1)[?a := (gw_Usages g1 ! ?a)\<lparr>us_Pending := us_Pending (gw_Usages g1 ! ?a) + 1\<rparr>]"
    "gw_Stats g2 = gw_Stats g1" "gw_Collected g2 = gw_Collected g1"
    using E by (simp_all add: g2 on_usage_def)
  have "usage_inv g2 (ps[k := ph])"
    using E [THEN conjunct1] assms(2) us(2,3)
  proof (rule books_update)
    show "settled_inv g2 ph" using m E leased_sandbox us by (auto simp: settled_inv_def usage_inv_def directory_inv_def)
    show "range_inv (length (gw_Usages g1)) ph" using m E by (auto simp: range_inv_def)
    show "usage_ok (gw_Usages g2 ! b) \<and> (sm_Incomplete (us_Summary (gw_Usages g1 ! b)) \<longrightarrow> sm_Incomplete (us_Summary (gw_Usages g2 ! b)))"
      if "b < length (gw_Usages g1)" for b
      using books_ok [OF E [THEN conjunct1] that] that E by (auto simp: us nth_list_update usage_ok_def)
  qed (use m us E in \<open>auto simp: nth_list_update\<close>)
  then show ?thesis using b(2) usage_inv_cong by blast
qed

definition fewer :: "nat \<Rightarrow> usage list \<Rightarrow> usage list" where
  "fewer a us = us[a := (us ! a)\<lparr>us_Pending := us_Pending (us ! a) - 1\<rparr>]"

text \<open>The shape of a count for a registered request: after a collection only its entry's number of open requests falls; otherwise the outcome
  is also counted in the entry the directory has for its sandbox.\<close>

lemma count_shape:
  assumes "gateway_count d file (Some a) g = ((c, key, unnamed), g')" "a < length (gw_Usages g)" "dc_Sandbox d \<noteq> []" "dc_Host d \<noteq> []"
  shows "map_of (gw_Collected g) (dc_Sandbox d) \<noteq> None \<and> c = None \<and> gw_Usages g' = fewer a (gw_Usages g) \<and> gw_Stats g' = gw_Stats g \<and>
      gw_Collected g' = gw_Collected g \<or>
    map_of (gw_Collected g) (dc_Sandbox d) = None \<and> (\<exists>b g1. entry_of (dc_Sandbox d) file g = (b, g1) \<and> c = Some b \<and>
      gw_Stats g' = gw_Stats g1 \<and> gw_Collected g' = gw_Collected g1 \<and>
      gw_Usages g' = (fewer a (gw_Usages g1))[b := fst (count_decision d (fewer a (gw_Usages g1) ! b))])"
proof -
  let ?h = "g\<lparr>gw_Usages := fewer a (gw_Usages g)\<rparr>"
  have h: "settle_usage (Some a) g = ?h" using assms(2) by (simp add: settle_usage_def on_usage_def fewer_def)
  show ?thesis
  proof (cases "map_of (gw_Collected g) (dc_Sandbox d)")
    case (Some x)
    with assms(1,3,4) show ?thesis unfolding gateway_count_def h Let_def by (auto split: if_splits prod.splits)
  next
    case None
    obtain b g1 where e: "entry_of (dc_Sandbox d) file g = (b, g1)" by fastforce
    have eh: "entry_of (dc_Sandbox d) file ?h = (b, g1\<lparr>gw_Usages := fewer a (gw_Usages g1)\<rparr>)"
      using e assms(2) by (auto simp: entry_of_def Let_def fewer_def nth_append list_update_append split: option.splits)
    obtain x y z where cd: "count_decision d (fewer a (gw_Usages g1) ! b) = (x, y, z)" by (metis surj_pair)
    have "gw_Usages (on_usage b (\<lambda>_. x) (g1\<lparr>gw_Usages := fewer a (gw_Usages g1)\<rparr>)) = (fewer a (gw_Usages g1))[b := x]"
      "gw_Stats (on_usage b (\<lambda>_. x) (g1\<lparr>gw_Usages := fewer a (gw_Usages g1)\<rparr>)) = gw_Stats g1"
      "gw_Collected (on_usage b (\<lambda>_. x) (g1\<lparr>gw_Usages := fewer a (gw_Usages g1)\<rparr>)) = gw_Collected g1"
      by (simp_all add: on_usage_def list_update_beyond)
    then show ?thesis
      using assms(1,3,4) None e unfolding gateway_count_def h Let_def eh by (auto simp: cd)
  qed
qed

lemma counted_inv:
  assumes "makes_move (Counted sv d c) (ps ! k) g ph g'" "k < length ps" "usage_inv g ps"
  shows "usage_inv g' (ps[k := ph])"
proof -
  note m = assms(1) [unfolded makes_move_def stats_move.case]
  have reg: "registered (ps ! k) = Some sv" using m by simp
  note D = usage_invD [OF assms(3) nth_mem [OF assms(2)] reg]
  let ?a = "sv_Pending sv" and ?n = "le_Sandbox (sv_Lease sv)"
  obtain key unnamed g2 where g2: "gateway_count d (sv_File sv) (Some ?a) g = ((c, key, unnamed), g2)" "stats_of g' = stats_of g2"
    using m by blast
  have d: "dc_Sandbox d = ?n" "dc_Sandbox d \<noteq> []" "dc_Host d \<noteq> []" using m D(2) by simp_all
  have "usage_inv g2 (ps[k := ph])"
    using count_shape [OF g2(1) D(1) d(2,3)]
  proof (elim disjE conjE exE)
    assume c: "map_of (gw_Collected g) (dc_Sandbox d) \<noteq> None" "c = None" and us: "gw_Usages g2 = fewer ?a (gw_Usages g)"
      and dir: "gw_Stats g2 = gw_Stats g" "gw_Collected g2 = gw_Collected g"
    show ?thesis
      using assms(3,2) dir
    proof (rule books_update)
      show "settled_inv g2 ph" using m D(2-4) dir c d(1) by (auto simp: settled_inv_def)
      show "range_inv (length (gw_Usages g)) ph" using m c D(1) by (auto simp: range_inv_def)
      show "usage_ok (gw_Usages g2 ! b) \<and> (sm_Incomplete (us_Summary (gw_Usages g ! b)) \<longrightarrow> sm_Incomplete (us_Summary (gw_Usages g2 ! b)))"
        if "b < length (gw_Usages g)" for b
        using books_ok [OF assms(3) that] that D(1) by (auto simp: us fewer_def nth_list_update usage_ok_def)
    qed (use m us D(1) c in \<open>auto simp: nth_list_update fewer_def\<close>)
  next
    fix b g1
    assume n: "map_of (gw_Collected g) (dc_Sandbox d) = None" and e: "entry_of (dc_Sandbox d) (sv_File sv) g = (b, g1)" and c: "c = Some b"
      and dir: "gw_Stats g2 = gw_Stats g1" "gw_Collected g2 = gw_Collected g1"
      and us: "gw_Usages g2 = (fewer ?a (gw_Usages g1))[b := fst (count_decision d (fewer ?a (gw_Usages g1) ! b))]"
    note E = entry_of_inv [OF assms(3) n e]
    have a: "?a < length (gw_Usages g1)" "b < length (gw_Usages g1)" using E D(1) by simp_all
    have ok1: "usage_ok (fewer ?a (gw_Usages g1) ! x)" if "x < length (gw_Usages g1)" for x
      using books_ok [OF E [THEN conjunct1] that] that a by (auto simp: fewer_def nth_list_update usage_ok_def)
    obtain v key2 un2 where cd: "count_decision d (fewer ?a (gw_Usages g1) ! b) = (v, key2, un2)" by (metis surj_pair)
    have v: "usage_ok v" "summary_total (us_Summary v) = summary_total (us_Summary (fewer ?a (gw_Usages g1) ! b)) + 1"
      "us_Pending v = us_Pending (fewer ?a (gw_Usages g1) ! b)" "sm_Incomplete (us_Summary v) = sm_Incomplete (us_Summary (fewer ?a (gw_Usages g1) ! b))"
      using count_decision_value [OF cd ok1] E by simp_all
    have us': "gw_Usages g2 = (fewer ?a (gw_Usages g1))[b := v]" using us cd by simp
    have "?n = name" if "map_of (gw_Stats g1) name = Some ?a" for name
      using usage_invD(3) [OF E [THEN conjunct1] nth_mem [OF assms(2)] reg that] by simp
    moreover have "map_of (gw_Stats g1) ?n = Some b" using E d(1) by simp
    ultimately have dir_a: "name = ?n \<and> b = ?a" if "map_of (gw_Stats g1) name = Some ?a" for name using that by force
    show ?thesis
      using E [THEN conjunct1] assms(2) dir
    proof (rule books_update)
      show "settled_inv g2 ph" using m c D(2) dir dir_a by (auto simp: settled_inv_def)
      show "range_inv (length (gw_Usages g1)) ph" using m c a E by (auto simp: range_inv_def)
      show "usage_ok (gw_Usages g2 ! x) \<and> (sm_Incomplete (us_Summary (gw_Usages g1 ! x)) \<longrightarrow> sm_Incomplete (us_Summary (gw_Usages g2 ! x)))"
        if "x < length (gw_Usages g1)" for x
        using ok1 [OF that] that a v(1,4) by (auto simp: us' fewer_def nth_list_update split: if_splits)
      show "us_Pending (gw_Usages g2 ! x) = us_Pending (gw_Usages g1 ! x) - of_bool (pending_at (ps ! k) = Some x) + of_bool (pending_at ph = Some x)"
        if "x < length (gw_Usages g1)" for x
        using m that a v(3) E by (auto simp: us' fewer_def nth_list_update)
      show "summary_total (us_Summary (gw_Usages g2 ! x)) = summary_total (us_Summary (gw_Usages g1 ! x)) -
          of_bool (counted_in (ps ! k) = Some x) + of_bool (counted_in ph = Some x)" if "x < length (gw_Usages g1)" for x
        using m c that a v(2) E by (auto simp: us' fewer_def nth_list_update)
    qed (simp add: us' fewer_def)
  qed
  then show ?thesis using g2(2) usage_inv_cong by blast
qed

lemma serve_usage:
  assumes "ServeHTTP u now oc (ps ! k) g = (ph, g')" "k < length ps" "phase_ok u (gw_Policy g) (gw_Table g) (ps ! k)" "usage_inv g ps"
  shows "usage_inv g' (ps[k := ph])"
proof -
  obtain m where m: "makes_move m (ps ! k) g ph g'" using serve_move [OF assms(1,3)] by blast
  show ?thesis
  proof (cases m)
    case Same
    with m have s: "stats_of g' = stats_of g" "registered ph = registered (ps ! k)" "pending_at ph = pending_at (ps ! k)"
      "counted_in ph = counted_in (ps ! k)" by (simp_all add: makes_move_def)
    have old: "range_inv (length (gw_Usages g)) (ps ! k)" "settled_inv g (ps ! k)" using assms(2,4) by (simp_all add: usage_inv_def)
    have "usage_inv g (ps[k := ph])"
      using assms(4,2)
    proof (rule books_update)
      show "range_inv (length (gw_Usages g)) ph" using old(1) s by (simp add: range_inv_def)
      show "settled_inv g ph" using old(2) s by (simp add: settled_inv_def)
    qed (use s books_ok [OF assms(4)] in simp_all)
    then show ?thesis using s(1) usage_inv_cong by blast
  qed (use m assms(2,4) begun_inv counted_inv dropped_inv in blast)+
qed

lemma map_of_filter_distinct: "distinct (map fst xs) \<Longrightarrow> map_of (filter P xs) k = Some v \<Longrightarrow> map_of xs k = Some v"
  by (metis filter_is_subset map_of_SomeD map_of_is_SomeI subsetD)

lemma map_of_filter_none: "map_of xs k = None \<Longrightarrow> map_of (filter P xs) k = None"
  by (auto simp: map_of_eq_None_iff)

text \<open>Forgetting an entry of the directory, or adding a mark to a forgotten one, keeps the books.\<close>

lemma usage_inv_forget:
  assumes inv: "usage_inv g ps" and len: "length (gw_Usages g') = length (gw_Usages g)"
    and us: "\<And>a. a < length (gw_Usages g) \<Longrightarrow> us_Summary (gw_Usages g' ! a) = us_Summary (gw_Usages g ! a) \<and>
      us_Pending (gw_Usages g' ! a) = us_Pending (gw_Usages g ! a) \<and> us_Named (gw_Usages g' ! a) = us_Named (gw_Usages g ! a)"
    and st: "distinct (map fst (gw_Stats g'))" "\<And>name a. map_of (gw_Stats g') name = Some a \<Longrightarrow> map_of (gw_Stats g) name = Some a"
    and cl: "\<And>name. map_of (gw_Stats g') name \<noteq> None \<Longrightarrow> map_of (gw_Collected g) name = None \<Longrightarrow> map_of (gw_Collected g') name = None"
  shows "usage_inv g' ps"
proof -
  have "books_inv g' ps" using inv us by (simp add: usage_inv_def books_inv_def usage_ok_def len)
  moreover have "directory_inv g'" using inv st cl unfolding usage_inv_def directory_inv_def len by (metis option.distinct(1))
  moreover have "settled_inv g' ph" if "ph \<in> set ps" for ph
  proof -
    have old: "range_inv (length (gw_Usages g)) ph" "settled_inv g ph" using inv that by (simp_all add: usage_inv_def)
    have "sv_Pending sv < length (gw_Usages g)" if "registered ph = Some sv" for sv using old(1) that by (simp add: range_inv_def)
    with old(2) st(2) us show ?thesis unfolding settled_inv_def by (metis (no_types, lifting))
  qed
  ultimately show ?thesis using inv by (simp add: usage_inv_def len)
qed

lemma collect_usage:
  assumes "usage_inv g ps" "gateway_collect now name g = (s, g')"
  shows "usage_inv g' ps"
proof -
  have g': "gw_Usages g' = gw_Usages g" "gw_Stats g' = AList.delete name (gw_Stats g)"
    "\<exists>x. gw_Collected g' = AList.update name x (gw_Collected g)"
    using assms(2) by (auto simp: gateway_collect_def Let_def)
  have "distinct (map fst (gw_Stats g))" using assms(1) by (simp add: usage_inv_def directory_inv_def)
  then show ?thesis
    using g' by (intro usage_inv_forget [OF assms(1)]) (auto simp: delete_conv' update_conv' distinct_delete split: if_splits)
qed

lemma sweep_usage:
  assumes "usage_inv g ps"
  shows "usage_inv (sweep_stats now gone g) ps"
proof -
  have d: "distinct (map fst (gw_Stats g))" using assms by (simp add: usage_inv_def directory_inv_def)
  show ?thesis
    using assms
  proof (rule usage_inv_forget)
    show "map_of (gw_Stats g) name = Some a" if "map_of (gw_Stats (sweep_stats now gone g)) name = Some a" for name a
      using that map_of_filter_distinct [OF d] by (simp add: sweep_stats_def)
  qed (use d in \<open>auto simp: sweep_stats_def sweep_entry_def nth_enumerate_eq distinct_map_filter map_of_filter_none\<close>)
qed

lemma reachable_usage: "gateway_reachable u p (g, ps) \<Longrightarrow> usage_inv g ps"
proof (induction "(g, ps)" arbitrary: g ps rule: gateway_reachable.induct)
  case (start now)
  then show ?case by (simp add: usage_inv_def books_inv_def directory_inv_def gateway_New_def)
next
  case (step st)
  obtain g0 ps0 where st: "st = (g0, ps0)" by (cases st)
  have IH: "usage_inv g0 ps0" using step.hyps(2) st by simp
  have ok: "\<forall>ph \<in> set ps0. phase_ok u (gw_Policy g0) (gw_Table g0) ph" using reachable_vetted step.hyps(1) st by blast
  show ?case
    using step.hyps(3) unfolding st
  proof cases
    case (serve k now oc ph)
    then show ?thesis using serve_usage [OF serve(3,2) _ IH] ok by simp
  next
    case (arrive rq)
    then show ?thesis using IH by (simp add: usage_inv_def books_inv_def range_inv_def settled_inv_def)
  next
    case (collect now name s)
    then show ?thesis using collect_usage [OF IH] by blast
  next
    case (sweep now gone)
    moreover have "stats_of (gateway_sweep now gone g0) = stats_of (sweep_stats now gone g0)"
      by (simp add: gateway_sweep_def Let_def)
    ultimately show ?thesis using sweep_usage [OF IH] usage_inv_cong by simp
  next
    case stop
    moreover have "stats_of (gateway_stop g0) = stats_of g0" by (simp add: gateway_stop_def) (simp add: stats_of_def)
    ultimately show ?thesis using IH usage_inv_cong by simp
  qed (use IH in \<open>auto elim!: usage_inv_cong [rotated]\<close>)
qed

subsection \<open>What the broker collects and what a sandbox can use up\<close>

text \<open>C9: Evidence a collection calls complete is complete. In every state the gateway can reach, when the summary collected for a
  sandbox is not marked incomplete, every request that was registered with it has its outcome counted in it (none is still waiting,
  and none ended without one), the counts add up to exactly the outcomes recorded there, and no further request of the sandbox
  is admitted while the mark of the collection is kept.\<close>

theorem collected_evidence_complete:
  assumes "gateway_reachable u p (g, ps)" "map_of (gw_Stats g) name = Some a"
    and "gateway_collect now name g = (s, g')" "\<not> sm_Incomplete s"
  shows "(\<forall>ph \<in> set ps. map_option sv_Pending (registered ph) = Some a \<longrightarrow> counted_in ph = Some a) \<and>
    summary_total s = tally counted_in a ps \<and> fst (gateway_begin name file g') = None"
proof -
  note inv = reachable_usage [OF assms(1)]
  let ?u = "gw_Usages g ! a"
  have a: "a < length (gw_Usages g)" using inv assms(2) by (simp add: usage_inv_def directory_inv_def)
  have s: "\<not> sm_Incomplete (us_Summary ?u)" "us_Pending ?u \<le> 0" "summary_total s = summary_total (us_Summary ?u)"
    using assms(2-4) by (auto simp: gateway_collect_def Let_def summary_total_def)
  have books: "us_Pending ?u = tally pending_at a ps" "summary_total (us_Summary ?u) = tally counted_in a ps"
    using inv a by (simp_all add: usage_inv_def books_inv_def)
  have "counted_in ph = Some a" if ph: "ph \<in> set ps" "map_option sv_Pending (registered ph) = Some a" for ph
  proof -
    obtain sv where sv: "registered ph = Some sv" "sv_Pending sv = a" using ph(2) by auto
    have "pending_at ph \<noteq> Some a" using tally_pos [OF ph(1), of pending_at a] books(1) s(2) by auto
    moreover have "settled_inv g ph" using inv ph(1) by (simp add: usage_inv_def)
    ultimately show ?thesis using sv assms(2) s(1) by (auto simp: settled_inv_def)
  qed
  moreover have "fst (gateway_begin name file g') = None"
    using assms(3) by (auto simp: gateway_begin_def gateway_collect_def update_conv' Let_def)
  ultimately show ?thesis using books s(3) by simp
qed

text \<open>C10: What one sandbox can take of the gateway is bounded. In every state the gateway can reach, the number the gateway keeps
  for a sandbox is the number of its requests that hold a slot, at most 64; each of the three parts of a summary names at most
  \<open>summaryHostLimit\<close> hosts once each, beside the key that counts the rest, and the log names at most \<open>foldedNameLimit\<close> folded ones.\<close>

theorem sandbox_bounded:
  assumes "gateway_reachable u p (g, ps)"
  shows "open_count g name = tally held_slot name ps \<and> tally held_slot name ps \<le> 64 \<and> list_all usage_ok (gw_Usages g)"
proof -
  have "list_all usage_ok (gw_Usages g)" using books_ok [OF reachable_usage [OF assms]] by (simp add: list_all_length)
  moreover have "open_count g name = tally held_slot name ps" "tally held_slot name ps \<le> 64"
    using reachable_slots [OF assms] by (simp_all add: slots_inv_def tunnelLimit_def)
  ultimately show ?thesis by blast
qed

text \<open>A revoked lease or the stop closes both ends of the tunnels it finds.\<close>

lemma tunnel_cut_closed:
  assumes "t < length (gw_Table g)" "\<forall>x \<in> set (gw_Table g). tn_Cause x \<noteq> None \<longrightarrow> tn_Closed x"
  shows "tn_Closed (gw_Table (tunnel_cut reason t g) ! t) \<and> (\<forall>x \<in> set (gw_Table (tunnel_cut reason t g)). tn_Cause x \<noteq> None \<longrightarrow> tn_Closed x)"
proof (cases "tn_Cause (gw_Table g ! t)")
  case None
  let ?x = "(gw_Table g ! t)\<lparr>tn_Cause := Some reason, tn_Closed := True\<rparr>"
  have "gw_Table (tunnel_cut reason t g) = (gw_Table g)[t := ?x]" using assms(1) None by (simp add: tunnel_cut_def)
  moreover have "tn_Cause x \<noteq> None \<longrightarrow> tn_Closed x" if "x \<in> set ((gw_Table g)[t := ?x])" for x
  proof -
    from that set_update_subset_insert [of "gw_Table g" t ?x] have "x = ?x \<or> x \<in> set (gw_Table g)" by blast
    then show ?thesis using assms(2) by auto
  qed
  ultimately show ?thesis using assms(1) by simp
next
  case (Some c)
  then show ?thesis using assms by (simp add: tunnel_cut_def)
qed

lemma tunnel_cut_keeps: "tn_Closed (gw_Table g ! t) \<Longrightarrow> tn_Closed (gw_Table (tunnel_cut reason t' g) ! t)"
  by (cases "t = t'") (auto simp: tunnel_cut_def)

lemma cuts_close:
  assumes "\<forall>t \<in> set ts. t < length (gw_Table g)" "\<forall>x \<in> set (gw_Table g). tn_Cause x \<noteq> None \<longrightarrow> tn_Closed x"
  shows "\<forall>t \<in> set ts. tn_Closed (gw_Table (fold (tunnel_cut reason) ts g) ! t)"
  using assms
proof (induction ts arbitrary: g)
  case (Cons t ts)
  let ?g = "tunnel_cut reason t g"
  have one: "tn_Closed (gw_Table ?g ! t)" "\<forall>x \<in> set (gw_Table ?g). tn_Cause x \<noteq> None \<longrightarrow> tn_Closed x"
    using tunnel_cut_closed [of t g reason] Cons.prems by simp_all
  have keeps: "tn_Closed (gw_Table h ! x) \<Longrightarrow> tn_Closed (gw_Table (fold (tunnel_cut reason) us h) ! x)" for h us x
    by (induction us arbitrary: h) (simp_all add: tunnel_cut_keeps)
  have "length (gw_Table g) \<le> length (gw_Table ?g)" by (simp add: tunnel_cut_def)
  then show ?case using Cons.IH [of ?g] Cons.prems one keeps [OF one(1)] by force
qed simp

lemma stop_closes:
  assumes "gw_Tunnels g = Some ts" "\<forall>t \<in> set ts. t < length (gw_Table g)" "\<forall>x \<in> set (gw_Table g). tn_Cause x \<noteq> None \<longrightarrow> tn_Closed x"
  shows "\<forall>t \<in> set ts. tn_Closed (gw_Table (gateway_stop g) ! t)"
  using cuts_close [of ts "g\<lparr>gw_Tunnels := None\<rparr>"] assms by (simp add: gateway_stop_def)

text \<open>A run: one sandbox opens one tunnel.\<close>

definition gateway_policy :: policy where
  "gateway_policy = \<lparr>pol_Model = [\<lparr>ru_Host = ''a.b'', ru_Wildcard = False, ru_Port = 443\<rparr>], pol_Build = []\<rparr>"

definition sample_request :: http_request where
  "sample_request = \<lparr>hr_Method = ''CONNECT'', hr_Host = ''a.b:443'', hr_URL = None, hr_Authorization =
     ''Basic c2FuZGJveDowMDAwMDAwMDAwMDAwMDAwMDAwMDAwMDAwMDAwMDAwMDAwMDAwMDAwMDAwMDAwMDAwMDAwMDAwMDAwMDAwMDAw'',
     hr_RemoteAddr = ''10.0.0.2:4000''\<rparr>"

definition sample_lease :: lease where
  "sample_lease = \<lparr>le_Sandbox = ''s'', le_Kind = ''runner''\<rparr>"

definition sample_outside :: outside where
  "sample_outside = \<lparr>oc_Leases = \<lparr>ld_Digest = (\<lambda>_. ''d''), ld_File = (\<lambda>_. Content ''l''), ld_Decode = (\<lambda>_. Some sample_lease)\<rparr>,
     oc_Lookup = (\<lambda>_. Inr [V4 0x08080808]), oc_Done = (\<lambda>_. False), oc_Dial = (\<lambda>_ _ _. True), oc_Hijacker = True, oc_Hijack = True,
     oc_DeadlineSet = True, oc_Replied = True, oc_Input = sample_hello @ ''rest'', oc_TimedOut = False, oc_Cleared = True, oc_Up = 0, oc_Down = 0\<rparr>"

definition sample_serving :: serving where
  "sample_serving = \<lparr>sv_Request = sample_request, sv_Lease = sample_lease, sv_File = ''d.json'', sv_Pending = 0\<rparr>"

definition gateway_after :: "nat \<Rightarrow> gateway" where
  "gateway_after n =
     (let g0 = gateway_New gateway_policy 0;
          u = \<lparr>us_Summary = emptySummary, us_Lease = ''d.json'', us_Revoked = None, us_Pending = 1, us_Named = []\<rparr>;
          g1 = g0\<lparr>gw_Usages := [u], gw_Stats := [(''s'', 0)]\<rparr>;
          g2 = g1\<lparr>gw_Open := [(''s'', 1)]\<rparr>;
          g3 = g2\<lparr>gw_Table := [\<lparr>tn_Lease = ''d.json'', tn_Address = V4 0x08080808, tn_Port = 443, tn_Cause = None, tn_Closed = False\<rparr>],
            gw_Tunnels := Some [0], gw_Running := 1\<rparr>
      in if n = 0 then g0 else if n = 1 then g1 else if n = 2 then g2 else g3)"

lemma gateway_admits: "ServeHTTP ascii_env 0 sample_outside (Arrived sample_request) (gateway_after 0) = (Admitted sample_serving, gateway_after 1)"
proof -
  have "trim_space ''c2FuZGJveDowMDAwMDAwMDAwMDAwMDAwMDAwMDAwMDAwMDAwMDAwMDAwMDAwMDAwMDAwMDAwMDAwMDAwMDAwMDAwMDAwMDAw'' = ''c2FuZGJveDowMDAwMDAwMDAwMDAwMDAwMDAwMDAwMDAwMDAwMDAwMDAwMDAwMDAwMDAwMDAwMDAwMDAwMDAwMDAwMDAwMDAw''" by (simp add: go_eval is_space_def)
  moreover have "base64_decode ''c2FuZGJveDowMDAwMDAwMDAwMDAwMDAwMDAwMDAwMDAwMDAwMDAwMDAwMDAwMDAwMDAwMDAwMDAwMDAwMDAwMDAwMDAwMDAw'' = Some (''sandbox:'' @ replicate 64 CHR ''0'')" by code_simp
  moreover have "cut_first CHR '':'' (''sandbox:'' @ replicate 64 CHR ''0'') = Some (''sandbox'', replicate 64 CHR ''0'')" by code_simp
  moreover have "lease_lookup (oc_Leases sample_outside) (replicate 64 CHR ''0'') = Some (sample_lease, ''d.json'')"
    by (simp add: lease_lookup_def tokenBytes_def hex_token_char_def digit_char_def readLease_def leaseFile_def sample_outside_def maxLeaseBytes_def
        sample_lease_def list_all_iff less_eq_char_def)
  ultimately have "gateway_lease (oc_Leases sample_outside) (hr_Authorization sample_request) = Some (sample_lease, ''d.json'')"
    by (simp add: gateway_lease_def sample_request_def has_prefix_def proxyUser_def)
  then show ?thesis
    by (simp add: serve_arrive_def gateway_begin_def entry_of_def on_usage_def gateway_after_def gateway_New_def sample_serving_def sample_lease_def)
qed

lemma sample_target: "connect_target ascii_env gateway_policy ''runner'' sample_request = Inr (''a.b'', 443)"
proof -
  have "SplitHostPort ''a.b:443'' = Some (''a.b'', ''443'')" by code_simp
  moreover have "parse_port ''443'' = Some 443" by (simp add: parse_port_def decimal_value_def digit_char_def less_eq_char_def)
  moreover have "allows gateway_policy ''runner'' ''a.b'' 443" by (simp add: allows_def matches_def gateway_policy_def KindRunner_def)
  ultimately show ?thesis using sample_name by (simp add: connect_target_def sample_request_def)
qed

lemma gateway_slots: "ServeHTTP ascii_env 0 sample_outside (Admitted sample_serving) (gateway_after 1) = (Slotted sample_serving ''a.b'' 443, gateway_after 2)"
  using sample_target
  by (simp add: serve_target_def gateway_reserve_def open_count_def tunnelLimit_def gateway_after_def gateway_New_def sample_serving_def sample_lease_def)

lemma sample_connected: "ServeHTTP ascii_env 0 sample_outside (Slotted sample_serving ''a.b'' 443) (gateway_after 2) =
    (Connected sample_serving ''a.b'' 443 (V4 0x08080808), gateway_after 2)"
proof -
  have "vetted [V4 0x08080808] = [V4 0x08080808]" by code_simp
  then show ?thesis by (simp add: serve_dial_def sample_outside_def)
qed

lemma sample_inspecting: "ServeHTTP ascii_env 0 sample_outside (Connected sample_serving ''a.b'' 443 (V4 0x08080808)) (gateway_after 2) =
    (Inspecting sample_serving ''a.b'' 443 0, gateway_after 3)"
  by (simp add: serve_hijack_def sample_outside_def gateway_track_def gateway_after_def gateway_New_def sample_serving_def)

lemma sample_splicing:
  "\<exists>d logged g. ServeHTTP ascii_env 0 sample_outside (Inspecting sample_serving ''a.b'' 443 0) (gateway_after 3) =
     (Splicing sample_serving ''a.b'' 443 0 sample_hello (Some 0) d logged 0, g) \<and> map_of (gw_Stats g) ''s'' = Some 0 \<and>
     \<not> sm_Incomplete (fst (gateway_collect 1 ''s'' g))"
proof -
  let ?d = "allowed_decision sample_serving ''a.b'' 443 1"
  let ?g = "(gateway_after 3)\<lparr>gw_TunnelIDs := 1\<rparr>"
  obtain c key unnamed g1 where k: "gateway_count ?d ''d.json'' (Some 0) ?g = ((c, key, unnamed), g1)" by (metis surj_pair)
  have "fst (fst (gateway_count ?d ''d.json'' (Some 0) ?g)) = Some 0" "map_of (gw_Stats (snd (gateway_count ?d ''d.json'' (Some 0) ?g))) ''s'' = Some 0"
    "\<not> sm_Incomplete (fst (gateway_collect 1 ''s'' (snd (gateway_count ?d ''d.json'' (Some 0) ?g))))" by code_simp+
  then have g1: "c = Some 0" "map_of (gw_Stats g1) ''s'' = Some 0" "\<not> sm_Incomplete (fst (gateway_collect 1 ''s'' g1))" by (simp_all add: k)
  obtain lg g2 where l: "logOpened 0 ?d unnamed g1 = (lg, g2)" by fastforce
  have s: "stats_of g2 = stats_of g1" using logOpened_partsD [OF l] by (simp add: parts_of_def)
  have "gw_TunnelIDs (gateway_after 3) = 0" by (simp add: gateway_after_def gateway_New_def)
  then have "ServeHTTP ascii_env 0 sample_outside (Inspecting sample_serving ''a.b'' 443 0) (gateway_after 3) =
      (Splicing sample_serving ''a.b'' 443 0 sample_hello (Some 0) ?d lg 0, g2)"
    using sample_accepted k l g1(1) by (simp add: serve_inspect_def sample_outside_def sample_serving_def)
  moreover have "map_of (gw_Stats g2) ''s'' = Some 0" "\<not> sm_Incomplete (fst (gateway_collect 1 ''s'' g2))"
    using g1 s by (simp_all add: stats_of_def gateway_collect_def Let_def)
  ultimately show ?thesis by blast
qed

lemma sample_reachable:
  "\<exists>d logged g. gateway_reachable ascii_env gateway_policy (g, [Splicing sample_serving ''a.b'' 443 0 sample_hello (Some 0) d logged 0]) \<and>
     map_of (gw_Stats g) ''s'' = Some 0 \<and> \<not> sm_Incomplete (fst (gateway_collect 1 ''s'' g))"
proof -
  have one: "gateway_reachable ascii_env gateway_policy (g, [ph']) "
    if "gateway_reachable ascii_env gateway_policy (g0, [ph])" "ServeHTTP ascii_env 0 sample_outside ph g0 = (ph', g)" for g0 ph g ph'
    using gateway_reachable.step [OF that(1) gateway_step.serve [of 0 "[ph]"]] that(2) by simp
  have "gateway_reachable ascii_env gateway_policy (gateway_after 0, [])"
    using gateway_reachable.start [of ascii_env gateway_policy 0] by (simp add: gateway_after_def)
  then have "gateway_reachable ascii_env gateway_policy (gateway_after 0, [Arrived sample_request])"
    using gateway_reachable.step gateway_step.arrive by fastforce
  note last = one [OF one [OF one [OF one [OF this gateway_admits] gateway_slots] sample_connected] sample_inspecting]
  from sample_splicing show ?thesis using one [OF last] by blast
qed

theorem tunnels_vetted_witness:
  "\<exists>d logged g. gateway_reachable ascii_env gateway_policy (g, [Splicing sample_serving ''a.b'' 443 0 sample_hello (Some 0) d logged 0]) \<and>
     allows gateway_policy ''runner'' ''a.b'' 443 \<and> publicAddress (tn_Address (gw_Table g ! 0))"
proof -
  obtain d logged g where r: "gateway_reachable ascii_env gateway_policy (g, [Splicing sample_serving ''a.b'' 443 0 sample_hello (Some 0) d logged 0])"
    using sample_reachable by blast
  from tunnels_vetted [OF r] have "allows gateway_policy (le_Kind (sv_Lease sample_serving)) ''a.b'' 443 \<and> publicAddress (tn_Address (gw_Table g ! 0))"
    by (metis list.set_intros(1))
  with r show ?thesis by (auto simp: sample_serving_def sample_lease_def)
qed

theorem collected_evidence_complete_witness:
  "\<exists>g ps. gateway_reachable ascii_env gateway_policy (g, ps) \<and> summary_total (fst (gateway_collect 1 ''s'' g)) = tally counted_in 0 ps \<and>
     tally counted_in 0 ps = 1"
proof -
  obtain d logged g where r: "gateway_reachable ascii_env gateway_policy (g, [Splicing sample_serving ''a.b'' 443 0 sample_hello (Some 0) d logged 0])"
    "map_of (gw_Stats g) ''s'' = Some 0" "\<not> sm_Incomplete (fst (gateway_collect 1 ''s'' g))"
    using sample_reachable by blast
  from collected_evidence_complete [OF r(1,2) surjective_pairing r(3)]
  have "summary_total (fst (gateway_collect 1 ''s'' g)) =
      tally counted_in 0 [Splicing sample_serving ''a.b'' 443 0 sample_hello (Some 0) d logged 0]" by blast
  with r(1) show ?thesis by (intro exI [of _ g] exI) (auto simp: tally_def)
qed

theorem sandbox_bounded_witness:
  "\<exists>g ps. gateway_reachable ascii_env gateway_policy (g, ps) \<and> tally held_slot ''s'' ps = 1 \<and> open_count g ''s'' = 1"
proof -
  obtain d logged g where r: "gateway_reachable ascii_env gateway_policy (g, [Splicing sample_serving ''a.b'' 443 0 sample_hello (Some 0) d logged 0])"
    using sample_reachable by blast
  from sandbox_bounded [OF r, of "''s''"] r show ?thesis
    by (intro exI [of _ g] exI) (auto simp: tally_def sample_serving_def sample_lease_def)
qed

end
