(* ===== verification/Go_Regexp.thy ===== *)
theory Go_Regexp
  imports Go_Prelude
begin

text \<open>
  What the code uses of Go's package \<open>regexp\<close> and of the search functions of package \<open>strings\<close>. An expression
  is matched at a byte offset of the subject; the offsets where a match can end are listed in the order of
  preference of a leftmost-first (Perl-like) engine, so the head of the list is the match Go reports. Runes are
  decoded as Go decodes them, an invalid byte standing for the error rune of width one. The lemmas bound every
  match by the subject.
\<close>

subsection \<open>Expressions\<close>

datatype re = Rune "nat \<Rightarrow> bool" | Eps | Bol | Cat re re | Alt re re | Star re

text \<open>The repetitions of one greedy star: an iteration that consumes nothing ends it.\<close>

primrec star_ends :: "nat \<Rightarrow> (nat \<Rightarrow> nat list) \<Rightarrow> nat \<Rightarrow> nat list" where
  "star_ends 0 f i = [i]"
| "star_ends (Suc fuel) f i = concat (map (\<lambda>j. if i < j then star_ends fuel f j else []) (f i)) @ [i]"

primrec re_ends :: "re \<Rightarrow> string \<Rightarrow> nat \<Rightarrow> nat list" where
  "re_ends (Rune P) s i =
     (if i < length s \<and> P (fst (decode_rune (drop i s))) then [i + snd (decode_rune (drop i s))] else [])"
| "re_ends Eps s i = [i]"
| "re_ends Bol s i = (if i = 0 then [i] else [])"
| "re_ends (Cat a b) s i = concat (map (re_ends b s) (re_ends a s i))"
| "re_ends (Alt a b) s i = re_ends a s i @ re_ends b s i"
| "re_ends (Star a) s i = star_ends (length s) (re_ends a s) i"

definition re_plus :: "re \<Rightarrow> re" where
  "re_plus a = Cat a (Star a)"

primrec re_times :: "nat \<Rightarrow> re \<Rightarrow> re" where
  "re_times 0 a = Eps"
| "re_times (Suc n) a = Cat a (re_times n a)"

definition re_atleast :: "nat \<Rightarrow> re \<Rightarrow> re" where
  "re_atleast n a = Cat (re_times n a) (Star a)"

fun re_cat :: "re list \<Rightarrow> re" where
  "re_cat [] = Eps"
| "re_cat [a] = a"
| "re_cat (a # as) = Cat a (re_cat as)"

fun re_alt :: "re list \<Rightarrow> re" where
  "re_alt [] = Rune (\<lambda>r. False)"
| "re_alt [a] = a"
| "re_alt (a # as) = Alt a (re_alt as)"

text \<open>A literal under the flag \<open>i\<close>: a rune stands for its simple case folding, which for the letters of
  ASCII adds U+017F to s and U+212A to k.\<close>

definition folds_to :: "nat \<Rightarrow> nat \<Rightarrow> bool" where
  "folds_to c r \<longleftrightarrow> c = r \<or> byte (ascii_lower (char_of c)) = byte (ascii_lower (char_of r)) \<and> c < 128 \<and> r < 128 \<or>
     r = 383 \<and> (c = 115 \<or> c = 83) \<or> r = 8490 \<and> (c = 107 \<or> c = 75)"

definition re_lit :: "string \<Rightarrow> re" where
  "re_lit s = re_cat (map (\<lambda>c. Rune (folds_to (byte c))) s)"

subsection \<open>Searching\<close>

text \<open>The leftmost offset from i at which m finds a match; the search moves rune by rune.\<close>

function find_first :: "(nat \<Rightarrow> 'm option) \<Rightarrow> string \<Rightarrow> nat \<Rightarrow> 'm option" where
  "find_first m s i =
     (case m i of
        Some x \<Rightarrow> Some x
      | None \<Rightarrow> if i < length s then find_first m s (i + snd (decode_rune (drop i s))) else None)"
  by pat_completeness auto
termination
proof (relation "measure (\<lambda>(m, s, i). length s - i)")
  fix m :: "nat \<Rightarrow> 'm option" and s :: string and i
  assume "i < length s"
  then show "((m, s, i + snd (decode_rune (drop i s))), m, s, i) \<in> measure (\<lambda>(m, s, i). length s - i)"
    using decode_rune_width [of "drop i s"] by simp
qed simp

text \<open>\<open>allMatches\<close>: the successive matches from an offset. A match is its span with a value; one that is empty
  at the end of the previous match is dropped, and the search moves on by one rune.\<close>

function find_all :: "(nat \<Rightarrow> ((nat \<times> nat) \<times> 'm) option) \<Rightarrow> string \<Rightarrow> nat \<Rightarrow> nat option \<Rightarrow> 'm list" where
  "find_all m s pos prev =
     (if length s < pos then []
      else case find_first m s pos of
        None \<Rightarrow> []
      | Some ((a, b), x) \<Rightarrow>
          if b \<le> pos
          then (if prev = Some a then [] else [x]) @
            find_all m s (if pos < length s then pos + snd (decode_rune (drop pos s)) else length s + 1) (Some b)
          else x # find_all m s b (Some b))"
  by pat_completeness auto
termination
proof (relation "measure (\<lambda>(m, s, pos, prev). Suc (length s) - pos)")
  fix m :: "nat \<Rightarrow> ((nat \<times> nat) \<times> 'm) option" and s :: string and pos prev x y a b xa z
  assume "\<not> length s < pos"
  then show "((m, s, if pos < length s then pos + snd (decode_rune (drop pos s)) else length s + 1, Some b), m, s, pos, prev)
      \<in> measure (\<lambda>(m, s, pos, prev). Suc (length s) - pos)"
    using decode_rune_width [of "drop pos s"] by auto
qed auto

declare find_first.simps [simp del] find_all.simps [simp del]

definition re_span :: "re \<Rightarrow> string \<Rightarrow> nat \<Rightarrow> ((nat \<times> nat) \<times> (nat \<times> nat)) option" where
  "re_span a s i = (case re_ends a s i of [] \<Rightarrow> None | e # _ \<Rightarrow> Some ((i, e), (i, e)))"

text \<open>A match of a followed by a captured b: the span of the match and the span of the capture.\<close>

definition re_capture :: "re \<Rightarrow> re \<Rightarrow> string \<Rightarrow> nat \<Rightarrow> ((nat \<times> nat) \<times> (nat \<times> nat)) option" where
  "re_capture a b s i =
     (case concat (map (\<lambda>p. map (\<lambda>e. ((i, e), (p, e))) (re_ends b s p)) (re_ends a s i)) of
        [] \<Rightarrow> None | x # _ \<Rightarrow> Some x)"

definition FindAllIndex :: "re \<Rightarrow> string \<Rightarrow> (nat \<times> nat) list" where
  "FindAllIndex a s = find_all (re_span a s) s 0 None"

definition FindAllCapture :: "re \<Rightarrow> re \<Rightarrow> string \<Rightarrow> (nat \<times> nat) list" where
  "FindAllCapture a b s = find_all (re_capture a b s) s 0 None"

definition FindIndex :: "re \<Rightarrow> string \<Rightarrow> (nat \<times> nat) option" where
  "FindIndex a s = map_option fst (find_first (re_span a s) s 0)"

subsection \<open>Package strings\<close>

fun str_index :: "string \<Rightarrow> string \<Rightarrow> nat option" where
  "str_index s sub =
     (if prefix sub s then Some 0 else case s of [] \<Rightarrow> None | c # cs \<Rightarrow> map_option Suc (str_index cs sub))"

declare str_index.simps [simp del]

text \<open>\<open>IndexFunc\<close> and \<open>LastIndexFunc\<close>: the offset of the first and of the last rune in a class, the latter
  read from the end of the string.\<close>

definition index_func :: "(nat \<Rightarrow> bool) \<Rightarrow> string \<Rightarrow> nat option" where
  "index_func P s = find_first (\<lambda>i. if i < length s \<and> P (fst (decode_rune (drop i s))) then Some i else None) s 0"

function last_index_func :: "(nat \<Rightarrow> bool) \<Rightarrow> string \<Rightarrow> nat option" where
  "last_index_func P s =
     (if s = [] then None
      else let (r, n) = decode_last_rune s in
        if P r then Some (length s - n) else last_index_func P (take (length s - n) s))"
  by pat_completeness auto
termination
proof (relation "measure (\<lambda>(P, s). length s)")
  fix P :: "nat \<Rightarrow> bool" and s :: string and x r n
  assume "s \<noteq> []" "x = decode_last_rune s" "(r, n) = x"
  then show "((P, take (length s - n) s), P, s) \<in> measure (\<lambda>(P, s). length s)"
    using decode_last_rune_width [of s] by (auto simp: prod_eq_iff)
qed simp

declare last_index_func.simps [simp del]

definition last_index_byte :: "char \<Rightarrow> string \<Rightarrow> nat option" where
  "last_index_byte c s = (let n = length (takeWhile (\<lambda>x. x \<noteq> c) (rev s)) in if n < length s then Some (length s - n - 1) else None)"

definition slice :: "nat \<Rightarrow> nat \<Rightarrow> string \<Rightarrow> string" where
  "slice i j s = take (j - i) (drop i s)"

subsection \<open>Lemmas: matches stay in the subject\<close>

lemma decode_rune_width_le: "snd (decode_rune s) \<le> length s"
proof -
  consider "s = []" | a where "s = [a]" | a b where "s = [a, b]" | a b c where "s = [a, b, c]"
    | a b c d e where "s = a # b # c # d # e"
    by (metis list.exhaust)
  then show ?thesis by cases (simp_all add: decode_rune_def if_distrib [of snd])
qed

lemma star_ends_bounds:
  assumes "\<And>i j. j \<in> set (f i) \<Longrightarrow> i \<le> length s \<Longrightarrow> i \<le> j \<and> j \<le> length s"
  shows "j \<in> set (star_ends fuel f i) \<Longrightarrow> i \<le> length s \<Longrightarrow> i \<le> j \<and> j \<le> length s"
proof (induction fuel arbitrary: i)
  case (Suc fuel)
  show ?case
  proof (cases "j = i")
    case False
    with Suc.prems(1) obtain k where k: "k \<in> set (f i)" "i < k" "j \<in> set (star_ends fuel f k)"
      by (auto split: if_splits)
    with assms [OF k(1) Suc.prems(2)] Suc.IH [OF k(3)] show ?thesis by auto
  qed (use Suc.prems in auto)
qed simp

lemma re_ends_bounds: "j \<in> set (re_ends a s i) \<Longrightarrow> i \<le> length s \<Longrightarrow> i \<le> j \<and> j \<le> length s"
proof (induction a arbitrary: i j)
  case (Rune P)
  then show ?case using decode_rune_width_le [of "drop i s"] by (auto split: if_splits)
next
  case (Cat a b)
  then show ?case by fastforce
next
  case (Alt a b)
  then show ?case by auto
next
  case (Star a)
  from Star.prems(1) have "j \<in> set (star_ends (length s) (re_ends a s) i)" by simp
  from star_ends_bounds [OF Star.IH this Star.prems(2)] show ?case by blast
qed (auto split: if_splits)

text \<open>An expression that starts with a rune never matches the empty string.\<close>

primrec consumes :: "re \<Rightarrow> bool" where
  "consumes (Rune P) = True"
| "consumes Eps = False"
| "consumes Bol = False"
| "consumes (Cat a b) = (consumes a \<or> consumes b)"
| "consumes (Alt a b) = (consumes a \<and> consumes b)"
| "consumes (Star a) = False"

lemma re_ends_consumes: "consumes a \<Longrightarrow> j \<in> set (re_ends a s i) \<Longrightarrow> i \<le> length s \<Longrightarrow> i < j"
proof (induction a arbitrary: i j)
  case (Rune P)
  then show ?case using decode_rune_width [of "drop i s"] by (auto split: if_splits)
next
  case (Cat a b)
  from Cat.prems(2) obtain k where k: "k \<in> set (re_ends a s i)" "j \<in> set (re_ends b s k)" by auto
  have "i \<le> k" "k \<le> length s" using re_ends_bounds [OF k(1) Cat.prems(3)] by auto
  moreover have "k \<le> j" using re_ends_bounds [OF k(2) \<open>k \<le> length s\<close>] by simp
  ultimately show ?case using Cat.IH k Cat.prems by fastforce
qed auto

lemma find_first_Some: "find_first m s i = Some x \<Longrightarrow> i \<le> length s \<Longrightarrow> \<exists>j. i \<le> j \<and> j \<le> length s \<and> m j = Some x"
proof (induction m s i rule: find_first.induct)
  case (1 m s i)
  show ?case
  proof (cases "m i")
    case None
    with 1 have lt: "i < length s" and rest: "find_first m s (i + snd (decode_rune (drop i s))) = Some x"
      by (simp_all add: find_first.simps [of m s i] split: if_splits)
    have "i + snd (decode_rune (drop i s)) \<le> length s" using decode_rune_width_le [of "drop i s"] lt by simp
    from "1.IH" [OF None lt rest this] show ?thesis using le_trans [OF le_add1] by blast
  qed (use 1 in \<open>auto simp: find_first.simps [of m s i]\<close>)
qed

lemma find_all_in: "x \<in> set (find_all m s pos prev) \<Longrightarrow> \<exists>j sp. j \<le> length s \<and> m j = Some (sp, x)"
proof (induction m s pos prev rule: find_all.induct)
  case (1 m s pos prev)
  from "1.prems" have le: "\<not> length s < pos" by (auto simp: find_all.simps [of m s pos prev] split: if_splits)
  show ?case
  proof (cases "find_first m s pos")
    case None
    with "1.prems" le show ?thesis by (simp add: find_all.simps [of m s pos prev])
  next
    case (Some y)
    obtain a b z where y: "y = ((a, b), z)" by (metis surj_pair)
    from find_first_Some [OF Some] le y have here: "\<exists>j sp. j \<le> length s \<and> m j = Some (sp, z)" by auto
    show ?thesis
    proof (cases "b \<le> pos")
      case True
      with "1.prems" le Some y have "x = z \<or> x \<in> set (find_all m s
          (if pos < length s then pos + snd (decode_rune (drop pos s)) else length s + 1) (Some b))"
        by (auto simp: find_all.simps [of m s pos prev] split: if_splits)
      then show ?thesis using here "1.IH"(1) [OF le Some y [symmetric] refl True] by blast
    next
      case False
      with "1.prems" le Some y have "x = z \<or> x \<in> set (find_all m s b (Some b))"
        by (auto simp: find_all.simps [of m s pos prev] split: if_splits)
      then show ?thesis using here "1.IH"(2) [OF le Some y [symmetric] refl False] by blast
    qed
  qed
qed

lemma FindAllIndex_bounds:
  assumes "(a, b) \<in> set (FindAllIndex r s)" and "consumes r"
  shows "a < b \<and> b \<le> length s"
proof -
  from find_all_in [OF assms(1) [unfolded FindAllIndex_def]]
  obtain j sp where j: "j \<le> length s" "re_span r s j = Some (sp, a, b)" by blast
  then have "a = j" "b \<in> set (re_ends r s j)" by (auto simp: re_span_def split: list.splits)
  with j(1) assms(2) show ?thesis using re_ends_bounds re_ends_consumes by blast
qed

lemma FindAllCapture_bounds:
  assumes "(a, b) \<in> set (FindAllCapture p r s)" and "consumes r"
  shows "a < b \<and> b \<le> length s"
proof -
  from find_all_in [OF assms(1) [unfolded FindAllCapture_def]]
  obtain j sp where j: "j \<le> length s" "re_capture p r s j = Some (sp, a, b)" by blast
  define xs where "xs = concat (map (\<lambda>p. map (\<lambda>e. ((j, e), (p, e))) (re_ends r s p)) (re_ends p s j))"
  from j(2) have "(sp, a, b) \<in> set xs" by (cases xs) (simp_all add: re_capture_def flip: xs_def)
  then have "a \<in> set (re_ends p s j)" "b \<in> set (re_ends r s a)" by (auto simp: xs_def)
  with j(1) assms(2) show ?thesis using re_ends_bounds re_ends_consumes by blast
qed

lemma consumes_times: "consumes a \<Longrightarrow> 0 < n \<Longrightarrow> consumes (re_times n a)"
  by (cases n) auto

subsection \<open>Lemmas: searching for a string\<close>

lemma str_index_Some: "str_index s sub = Some i \<Longrightarrow> prefix sub (drop i s) \<and> i \<le> length s \<and> (\<forall>j < i. \<not> prefix sub (drop j s))"
proof (induction s arbitrary: i)
  case Nil
  then show ?case by (auto simp: str_index.simps [of "[]"] split: if_splits)
next
  case (Cons c cs)
  show ?case
  proof (cases "prefix sub (c # cs)")
    case False
    with Cons.prems obtain k where k: "str_index cs sub = Some k" "i = Suc k"
      by (auto simp: str_index.simps [of "c # cs"])
    have "\<not> prefix sub (drop j (c # cs))" if "j < i" for j
      using that k Cons.IH [OF k(1)] False by (cases j) auto
    with Cons.IH [OF k(1)] k show ?thesis by simp
  qed (use Cons.prems in \<open>auto simp: str_index.simps [of "c # cs"]\<close>)
qed

lemma str_index_None: "str_index s sub = None \<longleftrightarrow> (\<forall>j \<le> length s. \<not> prefix sub (drop j s))"
proof (induction s)
  case Nil
  then show ?case by (simp add: str_index.simps [of "[]"])
next
  case (Cons c cs)
  have "(\<forall>j \<le> length (c # cs). \<not> prefix sub (drop j (c # cs))) \<longleftrightarrow>
      \<not> prefix sub (c # cs) \<and> (\<forall>j \<le> length cs. \<not> prefix sub (drop j cs))"
    by (metis Suc_le_mono drop0 drop_Suc_Cons le0 length_Cons not0_implies_Suc)
  with Cons show ?case by (auto simp: str_index.simps [of "c # cs"])
qed

end
