(* ===== verification/Redact.thy ===== *)
theory Redact
  imports Go_Regexp
begin

text \<open>
  The redaction of secrets in every text the service keeps or shows: \<open>internal/redact/redact.go\<close> and
  \<open>fragment.go\<close>. The list \<open>values\<close> holds the secret values of the environment (\<open>environmentSecrets\<close>, computed once per
  process). Spans are pairs of byte offsets. The lemmas show that the merged spans cover every occurrence of a
  secret, that redacting the parts of a capture equals redacting their concatenation, and what a cut may leave.
\<close>

subsection \<open>The patterns\<close>

definition alpha :: "nat \<Rightarrow> bool" where
  "alpha r \<longleftrightarrow> (65 \<le> r \<and> r \<le> 90) \<or> (97 \<le> r \<and> r \<le> 122) \<or> r = 383 \<or> r = 8490"

definition digit :: "nat \<Rightarrow> bool" where
  "digit r \<longleftrightarrow> 48 \<le> r \<and> r \<le> 57"

definition hexadecimal :: "nat \<Rightarrow> bool" where
  "hexadecimal r \<longleftrightarrow> digit r \<or> (65 \<le> r \<and> r \<le> 70) \<or> (97 \<le> r \<and> r \<le> 102)"

text \<open>The category Z and the ASCII and Latin-1 spaces: \<open>tokenWhitespace\<close>.\<close>

definition tokenWhitespace :: "nat \<Rightarrow> bool" where
  "tokenWhitespace r \<longleftrightarrow> r \<in> set [32, 160, 5760, 8232, 8233, 8239, 8287, 12288, 133] \<or> (8192 \<le> r \<and> r \<le> 8202) \<or>
     (9 \<le> r \<and> r \<le> 13)"

definition among :: "string \<Rightarrow> nat \<Rightarrow> bool" where
  "among cs r \<longleftrightarrow> r \<in> set (map byte cs)"

definition tokenPattern :: re where
  "tokenPattern = re_alt
     [re_cat [re_lit ''bearer'', re_plus (Rune tokenWhitespace), re_plus (Rune (\<lambda>r. alpha r \<or> digit r \<or> among ''._~+/=-'' r))],
      re_cat [re_alt [re_cat [re_lit ''gh'', Rune (\<lambda>r. list_ex (\<lambda>c. folds_to (byte c) r) ''pousr''), re_lit ''_''], re_lit ''github_pat_''],
        re_atleast 10 (Rune (\<lambda>r. alpha r \<or> digit r \<or> among ''_-'' r))],
      re_cat [re_plus (Rune alpha), re_lit ''://'', re_plus (Rune (\<lambda>r. \<not> tokenWhitespace r \<and> \<not> among ''/@'' r)), re_lit '':'',
        re_plus (Rune (\<lambda>r. \<not> tokenWhitespace r \<and> \<not> among ''/@'' r)), re_lit ''@'']]"

definition escapeStart :: re where
  "escapeStart = re_alt [Rune (\<lambda>r. r = 27), re_cat [Rune (\<lambda>r. r = 92), re_alt [re_lit ''u001b'', re_lit ''x1b'', re_lit ''e'', re_lit ''033'']]]"

definition keyPrefix :: re where
  "keyPrefix = re_alt
     [Bol, Rune (\<lambda>r. \<not> alpha r),
      re_cat [Rune (\<lambda>r. r = 92), re_alt [re_cat [re_lit ''u'', re_times 4 (Rune hexadecimal)],
        re_cat [re_lit ''x'', re_times 2 (Rune hexadecimal)], Rune alpha]],
      re_cat [re_lit ''%'', re_times 2 (Rune hexadecimal)],
      re_cat [escapeStart, re_alt
        [re_cat [re_lit ''['', Star (Rune (\<lambda>r. digit r \<or> among '':;<=>?'' r)), Star (Rune (\<lambda>r. 32 \<le> r \<and> r \<le> 47)), Rune alpha],
         re_cat [Star (Rune (\<lambda>r. 32 \<le> r \<and> r \<le> 47)), Rune (\<lambda>r. (48 \<le> r \<and> r \<le> 126) \<or> r = 383 \<or> r = 8490)]]],
      re_cat [re_lit ''['', Star (Rune (\<lambda>r. digit r \<or> among '';'' r)), re_lit ''m'']]"

definition secretKey :: re where
  "secretKey = re_cat [re_lit ''sk-'', re_atleast 10 (Rune (\<lambda>r. alpha r \<or> digit r \<or> among ''_-'' r))]"

subsection \<open>Spans\<close>

definition redacted_name :: "string \<Rightarrow> bool" where
  "redacted_name key \<longleftrightarrow> list_ex (\<lambda>word. str_contains key word) [''WEBHOOK'', ''TOKEN'', ''SECRET'', ''PASSWORD'', ''API_KEY'']"

text \<open>The environment is a list of entries, name and value separated by the first equals sign.\<close>

definition environmentSecrets :: "string list \<Rightarrow> string list" where
  "environmentSecrets environ =
     concat (map (\<lambda>entry.
       let n = length (takeWhile (\<lambda>c. c \<noteq> CHR ''='') entry) in
       if length entry \<le> n \<or> length entry - n - 1 < 8 then []
       else if redacted_name (take n entry) then [drop (Suc n) entry] else []) environ)"

type_synonym span = "nat \<times> nat"

text \<open>The occurrences of one value from an offset, overlapping ones joined into the last span.\<close>

function value_spans :: "string \<Rightarrow> string \<Rightarrow> nat \<Rightarrow> span list \<Rightarrow> span list" where
  "value_spans input v from spans =
     (if length input < from then spans
      else case str_index (drop from input) v of
        None \<Rightarrow> spans
      | Some i \<Rightarrow>
          let start = from + i; stop = from + i + length v in
          value_spans input v (Suc start)
            (if spans \<noteq> [] \<and> start < snd (last spans)
             then butlast spans @ [(fst (last spans), stop)] else spans @ [(start, stop)]))"
  by pat_completeness auto
termination
  by (relation "measure (\<lambda>(input, v, from, spans). Suc (length input) - from)") auto

declare value_spans.simps [simp del]

fun merge_run :: "nat \<Rightarrow> nat \<Rightarrow> span list \<Rightarrow> span list" where
  "merge_run start stop [] = [(start, stop)]"
| "merge_run start stop ((a, b) # rest) =
     (if a < stop then merge_run start (max stop b) rest else (start, stop) # merge_run a b rest)"

text \<open>Spans are never empty, so the order of spans with one start does not matter.\<close>

definition mergeSpans :: "span list \<Rightarrow> span list" where
  "mergeSpans spans = (case sort_key fst spans of [] \<Rightarrow> [] | (a, b) # rest \<Rightarrow> merge_run a b rest)"

definition raw_spans :: "string \<Rightarrow> string list \<Rightarrow> span list" where
  "raw_spans input values =
     FindAllIndex tokenPattern input @ FindAllCapture keyPrefix secretKey input @
     concat (map (\<lambda>v. if v = [] then [] else value_spans input v 0 []) values)"

definition secretSpans :: "string \<Rightarrow> string list \<Rightarrow> span list" where
  "secretSpans input values = mergeSpans (raw_spans input values)"

subsection \<open>Replacing\<close>

definition redacted :: string where
  "redacted = ''[redacted]''"

text \<open>The inner loop over the spans that start before the end of a part: the offset up to which the part is
  handled, the spans left and the text written.\<close>

fun part_loop :: "string \<Rightarrow> nat \<Rightarrow> nat \<Rightarrow> nat \<Rightarrow> span list \<Rightarrow> nat \<times> span list \<times> string" where
  "part_loop input start stop pos [] = (pos, [], [])"
| "part_loop input start stop pos ((a, b) # rest) =
     (if \<not> a < stop then (pos, (a, b) # rest, [])
      else let out = (if start \<le> a then slice pos a input @ redacted else []) in
        if stop < b then (min b stop, (a, b) # rest, out)
        else let (pos', spans', out') = part_loop input start stop (min b stop) rest in (pos', spans', out @ out'))"

fun replace_from :: "string \<Rightarrow> nat \<Rightarrow> string list \<Rightarrow> span list \<Rightarrow> string list" where
  "replace_from input start [] spans = []"
| "replace_from input start (part # parts) spans =
     (let stop = start + length part; (pos, spans', out) = part_loop input start stop start spans
      in (out @ slice pos stop input) # replace_from input stop parts spans')"

definition replaceParts :: "string list \<Rightarrow> string \<Rightarrow> span list \<Rightarrow> string list" where
  "replaceParts parts input spans = (if length spans = 0 then parts else replace_from input 0 parts spans)"

definition scrubParts :: "string list \<Rightarrow> string list \<Rightarrow> string list" where
  "scrubParts parts values = (let input = concat parts in replaceParts parts input (secretSpans input values))"

definition scrub :: "string \<Rightarrow> string list \<Rightarrow> string" where
  "scrub input values = hd (scrubParts [input] values)"

definition Secrets :: "string list \<Rightarrow> string \<Rightarrow> string" where
  "Secrets values input = scrub input values"

definition displayTextLimit :: nat where
  "displayTextLimit = 16384"

text \<open>The first n runes of a text.\<close>

fun rune_prefix :: "nat \<Rightarrow> string \<Rightarrow> string" where
  "rune_prefix 0 s = []"
| "rune_prefix (Suc n) s =
     (if s = [] then [] else take (snd (decode_rune s)) s @ rune_prefix n (drop (snd (decode_rune s)) s))"

definition displayString :: "string list \<Rightarrow> string \<Rightarrow> string \<times> string list" where
  "displayString values s =
     (let display = Secrets values s;
          kinds = (if display \<noteq> s then [''redacted''] else []);
          short = rune_prefix displayTextLimit display
      in if short \<noteq> display then (short, kinds @ [''shortened'']) else (display, kinds))"

definition redact_Text :: "string list \<Rightarrow> string \<Rightarrow> string" where
  "redact_Text values input = fst (displayString values input)"

subsection \<open>Cuts\<close>

definition bearer :: string where
  "bearer = ''bearer''"

definition mayEndBearerPrefix :: "string \<Rightarrow> bool" where
  "mayEndBearerPrefix s \<longleftrightarrow>
     (let n = min (length s) (length bearer) in
      (n = length s \<or> n = length bearer) \<and>
      map ascii_lower (drop (length s - n) s) = map ascii_lower (drop (length bearer - n) bearer))"

text \<open>The offsets of the runes of a string.\<close>

function rune_offsets :: "string \<Rightarrow> nat \<Rightarrow> (nat \<times> nat) list" where
  "rune_offsets s i =
     (if i < length s then (i, fst (decode_rune (drop i s))) # rune_offsets s (i + snd (decode_rune (drop i s))) else [])"
  by pat_completeness auto
termination
proof (relation "measure (\<lambda>(s, i). length s - i)")
  fix s :: string and i
  assume "i < length s"
  then show "((s, i + snd (decode_rune (drop i s))), s, i) \<in> measure (\<lambda>(s, i). length s - i)"
    using decode_rune_width [of "drop i s"] by simp
qed simp

declare rune_offsets.simps [simp del]

definition trimCutSecretEnd :: "string list \<Rightarrow> string \<Rightarrow> string" where
  "trimCutSecretEnd values s =
     (let cut = fold (\<lambda>v cut. fold (\<lambda>(i, r) cut. if cut < i \<and> is_space r \<and> has_suffix s (take i v) then i else cut)
            (rune_offsets v 0) cut) values 0
      in take (length s - cut) s)"

text \<open>\<open>utf8.RuneLen\<close> of a space rune is the length of its encoding.\<close>

definition trimCutSecretStart :: "string list \<Rightarrow> string \<Rightarrow> string" where
  "trimCutSecretStart values s =
     (let cut = fold (\<lambda>v cut. fold (\<lambda>(i, r) cut.
            if \<not> is_space r then cut
            else let rest = drop (i + length (encode_rune r)) v in
              if cut < length rest \<and> has_prefix s rest then length rest else cut)
            (rune_offsets v 0) cut) values 0
      in drop cut s)"

definition afterWord :: "string \<Rightarrow> string" where
  "afterWord s = (case index_func is_space s of Some i \<Rightarrow> drop i s | None \<Rightarrow> [])"

definition cut_line :: "string \<Rightarrow> (string \<times> string) option" where
  "cut_line s = (let n = length (takeWhile (\<lambda>c. byte c \<noteq> 10) s) in if n < length s then Some (take n s, drop (Suc n) s) else None)"

definition tailTwoWordsStart :: "string list \<Rightarrow> string \<Rightarrow> string" where
  "tailTwoWordsStart values s =
     (let rest =
        (case cut_line s of
           Some (dropped, after) \<Rightarrow>
             if mayEndBearerPrefix (trim_right_space dropped) then afterWord (trim_left_space after) else after
         | None \<Rightarrow> afterWord (trim_left_space (afterWord s)))
      in trimCutSecretStart values (trim_left_space rest))"

definition escapeIntermediates :: string where
  "escapeIntermediates = map char_of [32 ..< 48::nat]"

definition cutEscapeKey :: re where
  "cutEscapeKey = re_cat [Bol, Rune alpha, re_lit ''sk-'', re_times 10 (Rune (\<lambda>r. alpha r \<or> digit r \<or> among ''_-'' r))]"

text \<open>The offset in the rest at which \<open>tailLineStart\<close> looks for the next space: None when the rest may stay.\<close>

definition tail_from :: "string list \<Rightarrow> string \<Rightarrow> nat \<Rightarrow> nat \<Rightarrow> string \<Rightarrow> string \<Rightarrow> nat option" where
  "tail_from values text0 run at dropped rest =
     (case FindIndex cutEscapeKey (drop run text0) of
        Some (_, e) \<Rightarrow> Some (run - at + e)
      | None \<Rightarrow>
          if mayEndBearerPrefix (trim_right_space dropped) then Some 0
          else let trimmed = trimCutSecretStart values rest in
            if length trimmed < length rest then Some (length rest - length trimmed) else None)"

lemma index_func_Some: "index_func P s = Some i \<Longrightarrow> i < length s \<and> P (fst (decode_rune (drop i s)))"
  using find_first_Some [of "\<lambda>i. if i < length s \<and> P (fst (decode_rune (drop i s))) then Some i else None" s 0 i]
  by (auto simp: index_func_def split: if_splits)

lemma trim_left_space_length: "length (trim_left_space s) \<le> length s"
proof (induction s rule: trim_left_space.induct)
  case (1 s)
  then show ?case by (cases "s \<noteq> [] \<and> is_space (fst (decode_rune s))") (auto simp: trim_left_space.simps [of s])
qed

lemma trim_left_space_head: "trim_left_space s \<noteq> [] \<Longrightarrow> \<not> is_space (fst (decode_rune (trim_left_space s)))"
proof (induction s rule: trim_left_space.induct)
  case (1 s)
  then show ?case by (cases "s \<noteq> [] \<and> is_space (fst (decode_rune s))") (auto simp: trim_left_space.simps [of s])
qed

text \<open>The loop of \<open>tailLineStart\<close>: each pass drops at least one byte of the rest.\<close>

function tail_line :: "string list \<Rightarrow> string \<Rightarrow> nat \<Rightarrow> string \<Rightarrow> string \<Rightarrow> string" where
  "tail_line values text0 run dropped rest0 =
     (let rest = trim_left_space rest0;
          at = length text0 - length rest;
          run = (if run \<le> at then at + length (takeWhile (\<lambda>c. c \<in> set escapeIntermediates) rest) else run)
      in case tail_from values text0 run at dropped rest of
           None \<Rightarrow> rest
         | Some from \<Rightarrow>
             (case index_func is_space (drop from rest) of
                None \<Rightarrow> []
              | Some i \<Rightarrow> tail_line values text0 run (take (from + i) rest) (drop (from + i) rest)))"
  by pat_completeness auto
termination
proof (relation "measure (\<lambda>(values, text0, run, dropped, rest0). length rest0)")
  fix vs :: "string list" and text0 dropped rest0 rest :: string and run run' d i :: nat
  assume rest: "rest = trim_left_space rest0" and i: "index_func is_space (drop d rest) = Some i"
  have "i < length (drop d rest)" "is_space (fst (decode_rune (drop i (drop d rest))))"
    using index_func_Some [OF i] by auto
  moreover have "d + i \<noteq> 0"
  proof
    assume "d + i = 0"
    with calculation have "rest \<noteq> []" "is_space (fst (decode_rune rest))" by auto
    then show False using trim_left_space_head rest by blast
  qed
  ultimately have "length (drop (d + i) rest) < length rest" by auto
  then show "((vs, text0, run', take (d + i) rest, drop (d + i) rest), vs, text0, run, dropped, rest0)
      \<in> measure (\<lambda>(values, text0, run, dropped, rest0). length rest0)"
    using trim_left_space_length [of rest0] rest by auto
qed simp

declare tail_line.simps [simp del]

definition tailLineStart :: "string list \<Rightarrow> string \<Rightarrow> string" where
  "tailLineStart values s =
     (case cut_line s of
        Some (dropped, rest) \<Rightarrow> tail_line values s 0 dropped rest
      | None \<Rightarrow>
          (case index_func is_space s of
             None \<Rightarrow> []
           | Some i \<Rightarrow> tail_line values s 0 (take i s) (drop i s)))"

datatype fragment_kind = HeadLineCut | HeadWordCut | TailLineCut | TailTwoWordsCut

fun cutFragment :: "string list \<Rightarrow> fragment_kind \<Rightarrow> string \<Rightarrow> string" where
  "cutFragment values HeadLineCut s =
     (case last_index_byte (char_of (10 :: nat)) s of
        Some i \<Rightarrow> trimCutSecretEnd values (take i s)
      | None \<Rightarrow>
          (case last_index_func is_space s of
             Some i \<Rightarrow> trimCutSecretEnd values (take i s)
           | None \<Rightarrow> []))"
| "cutFragment values HeadWordCut s =
     (let scrubbed = scrub s values;
          before = (case last_index_func is_space scrubbed of Some i \<Rightarrow> take i scrubbed | None \<Rightarrow> [])
      in trimCutSecretEnd values before)"
| "cutFragment values TailLineCut s = tailLineStart values s"
| "cutFragment values TailTwoWordsCut s = tailTwoWordsStart values (scrub s values)"

definition Fragment :: "string list \<Rightarrow> string \<Rightarrow> fragment_kind \<Rightarrow> string" where
  "Fragment values input kind = scrub (cutFragment values kind input) values"

subsection \<open>Parts of a capture\<close>

record capture_part =
  pt_Text :: string
  pt_Prefix :: string
  pt_CutStart :: bool
  pt_CutEnd :: bool

definition partSlice :: "string list \<Rightarrow> capture_part \<Rightarrow> string \<times> nat" where
  "partSlice values part =
     (let s = pt_Text part;
          (s, start) = (if pt_CutStart part
             then (let t = cutFragment values TailLineCut s in (t, length s - length t)) else (s, 0))
      in (if pt_CutEnd part then cutFragment values HeadLineCut s else s, start))"

definition part_text :: "string list \<Rightarrow> capture_part \<Rightarrow> string" where
  "part_text values part = (let s = fst (partSlice values part) in if s \<noteq> [] then pt_Prefix part @ s else [])"

definition part_raw :: "capture_part \<Rightarrow> string" where
  "part_raw part = (if pt_Text part \<noteq> [] then pt_Prefix part @ pt_Text part else [])"

definition redact_Parts :: "string list \<Rightarrow> capture_part list \<Rightarrow> string list" where
  "redact_Parts values parts = scrubParts (map (part_text values) parts) values"

definition map_adjacent :: "nat \<Rightarrow> span \<Rightarrow> span" where
  "map_adjacent boundary sp = (if boundary \<le> fst sp then Suc (fst sp) else fst sp, if boundary < snd sp then Suc (snd sp) else snd sp)"

definition streamSpans :: "string \<Rightarrow> nat \<Rightarrow> string list \<Rightarrow> span list" where
  "streamSpans input boundary values =
     (let spans = secretSpans input values;
          adjacent = take boundary input @ drop (Suc boundary) input
      in mergeSpans (spans @ map (map_adjacent boundary) (secretSpans adjacent values)))"

text \<open>A retained slice maps the bytes of the original capture to their offset in the display.\<close>

record kept_slice =
  ks_RawStart :: nat
  ks_RawEnd :: nat
  ks_TextStart :: nat

text \<open>The scan over the parts: the separator, flagged, contributes no slice.\<close>

fun kept_slices :: "string list \<Rightarrow> nat \<Rightarrow> nat \<Rightarrow> (bool \<times> capture_part) list \<Rightarrow> kept_slice list" where
  "kept_slices values rawOffset textOffset [] = []"
| "kept_slices values rawOffset textOffset ((separator, part) # parts) =
     (let (s, start) = partSlice values part;
          from = rawOffset + length (pt_Prefix part) + start;
          slices = (if s \<noteq> [] \<and> \<not> separator
            then [\<lparr>ks_RawStart = from, ks_RawEnd = from + length s, ks_TextStart = textOffset + length (pt_Prefix part)\<rparr>] else [])
      in slices @ kept_slices values (rawOffset + length (part_raw part)) (textOffset + length (part_text values part)) parts)"

text \<open>A span of the original projected on the retained slices; None when it falls in discarded text.\<close>

fun project_span :: "span \<Rightarrow> kept_slice list \<Rightarrow> span option \<Rightarrow> span option" where
  "project_span sp [] acc = acc"
| "project_span sp (k # ks) acc =
     (let start = max (fst sp) (ks_RawStart k); stop = min (snd sp) (ks_RawEnd k) in
      if start < stop
      then project_span sp ks (Some
        (case acc of None \<Rightarrow> ks_TextStart k + start - ks_RawStart k | Some (from, _) \<Rightarrow> from,
         ks_TextStart k + stop - ks_RawStart k))
      else project_span sp ks acc)"

definition separator_part :: capture_part where
  "separator_part = \<lparr>pt_Text = [char_of (10 :: nat)], pt_Prefix = [], pt_CutStart = False, pt_CutEnd = False\<rparr>"

definition redact_Streams :: "string list \<Rightarrow> capture_part list \<Rightarrow> capture_part list \<Rightarrow> string list" where
  "redact_Streams values first second =
     (let parts = first @ separator_part # second;
          texts = map (part_text values) parts;
          raw = map part_raw parts;
          kept = kept_slices values 0 0 (map (Pair False) first @ (True, separator_part) # map (Pair False) second);
          rawBoundary = length (concat (map part_raw first));
          textBoundary = length (concat (map (part_text values) first));
          input = concat texts;
          spans = streamSpans input textBoundary values;
          original = concat raw
      in if original = input then replaceParts texts input spans
         else replaceParts texts input (mergeSpans
           (spans @ concat (map (\<lambda>sp. case project_span sp kept None of None \<Rightarrow> [] | Some x \<Rightarrow> [x])
              (streamSpans original rawBoundary values)))))"

subsection \<open>Structured values\<close>

text \<open>A decoded JSON value; an object lists its members in the order of their keys.\<close>

datatype json = JNull | JBool bool | JNumber string | JString string | JArray "json list" | JObject "(string \<times> json) list"

datatype path_step = Key string | Pos nat

text \<open>\<open>walk\<close> rewrites every string of a value; the strings it visits, with their paths, in its order.\<close>

fun walk :: "(string \<Rightarrow> string) \<Rightarrow> json \<Rightarrow> json" where
  "walk visit (JString s) = JString (visit s)"
| "walk visit (JArray vs) = JArray (map (walk visit) vs)"
| "walk visit (JObject ms) = JObject (map (\<lambda>(k, v). (k, walk visit v)) ms)"
| "walk visit v = v"

lemma enumerate_size [termination_simp]: "(i, v) \<in> set (enumerate n vs) \<Longrightarrow> size v < Suc (size_list size vs)"
proof -
  assume "(i, v) \<in> set (enumerate n vs)"
  then have "v \<in> set vs" by (auto simp: in_set_enumerate_eq)
  then show ?thesis using size_list_estimation' [of v vs "size v" size] by simp
qed

fun visited :: "path_step list \<Rightarrow> json \<Rightarrow> (path_step list \<times> string) list" where
  "visited path (JString s) = [(path, s)]"
| "visited path (JArray vs) = concat (map (\<lambda>(i, v). visited (path @ [Pos i]) v) (enumerate 0 vs))"
| "visited path (JObject ms) = concat (map (\<lambda>(k, v). visited (path @ [Key k]) v) ms)"
| "visited path v = []"

record display_transform =
  dt_Field :: string
  dt_Kinds :: "string list"
  dt_Paths :: "path_step list list"

text \<open>The transforms of one field. The kinds are redacted and shortened, which are in alphabetical order.\<close>

definition field_transform :: "string list \<Rightarrow> string \<Rightarrow> json \<Rightarrow> display_transform list" where
  "field_transform values field v =
     (let changed = filter (\<lambda>(path, s). snd (displayString values s) \<noteq> []) (visited [Key field] v);
          kinds = concat (map (\<lambda>(path, s). snd (displayString values s)) changed)
      in if changed = [] then []
         else [\<lparr>dt_Field = field, dt_Kinds = filter (\<lambda>k. k \<in> set kinds) [''redacted'', ''shortened''], dt_Paths = map fst changed\<rparr>])"

definition DisplayJSON :: "string list \<Rightarrow> (string \<times> json) list \<Rightarrow> (string \<times> json) list \<times> display_transform list" where
  "DisplayJSON values members =
     (map (\<lambda>(field, v). (field, walk (redact_Text values) v)) members,
      concat (map (\<lambda>(field, v). field_transform values field v) members))"

definition cut_field :: "string list \<Rightarrow> string \<Rightarrow> (string \<times> json) list \<Rightarrow> (string \<times> json) list" where
  "cut_field values field ms =
     (case (map_of ms (field @ ''_truncated''), map_of ms field) of
        (Some (JBool True), Some (JString s)) \<Rightarrow>
          map (\<lambda>(k, v). (k, if k = field then JString (Fragment values s HeadLineCut) else v)) ms
      | _ \<Rightarrow> ms)"

lemma cut_field_in: "(k, v) \<in> set (cut_field values field ms) \<Longrightarrow> (k, v) \<in> set ms \<or> (\<exists>s. v = JString s)"
  by (auto simp: cut_field_def split: option.splits json.splits bool.splits if_splits)

lemma json_size_cut [termination_simp]:
  assumes "(k, v) \<in> set (cut_field vs f (cut_field vs g ms))"
  shows "size v < Suc (size_list (\<lambda>x. Suc (size (snd x))) ms)"
proof -
  have "(k, v) \<in> set ms \<or> (\<exists>s. v = JString s)" using cut_field_in assms by blast
  then show ?thesis
  proof
    assume "(k, v) \<in> set ms"
    from size_list_estimation' [OF this, of "size v" "\<lambda>x. Suc (size (snd x))"] show ?thesis by simp
  qed auto
qed

fun trimJSONFragments :: "string list \<Rightarrow> json \<Rightarrow> json" where
  "trimJSONFragments values (JArray vs) = JArray (map (trimJSONFragments values) vs)"
| "trimJSONFragments values (JObject ms) =
     JObject (map (\<lambda>(k, v). (k, trimJSONFragments values v)) (cut_field values ''body'' (cut_field values ''title'' ms)))"
| "trimJSONFragments values v = v"

definition redact_JSON :: "string list \<Rightarrow> json \<Rightarrow> json" where
  "redact_JSON values v = walk (redact_Text values) (trimJSONFragments values v)"

subsection \<open>Lemmas: merged spans\<close>

text \<open>Spans in order, disjoint, not empty and within n bytes.\<close>

fun chain :: "nat \<Rightarrow> span list \<Rightarrow> nat \<Rightarrow> bool" where
  "chain lo [] n = (lo \<le> n)"
| "chain lo ((a, b) # spans) n = (lo \<le> a \<and> a < b \<and> chain b spans n)"

definition proper :: "nat \<Rightarrow> span list \<Rightarrow> bool" where
  "proper n spans \<longleftrightarrow> (\<forall>(a, b) \<in> set spans. a < b \<and> b \<le> n)"

definition covered :: "span list \<Rightarrow> span \<Rightarrow> bool" where
  "covered spans sp \<longleftrightarrow> (\<exists>(a, b) \<in> set spans. a \<le> fst sp \<and> snd sp \<le> b)"

lemma proper_append [simp]: "proper n (xs @ ys) \<longleftrightarrow> proper n xs \<and> proper n ys"
  by (auto simp: proper_def)

lemma proper_simps [simp]: "proper n []" "proper n ((a, b) # xs) \<longleftrightarrow> a < b \<and> b \<le> n \<and> proper n xs"
  by (auto simp: proper_def)

lemma covered_in: "sp \<in> set spans \<Longrightarrow> covered spans sp"
  by (cases sp) (auto simp: covered_def)

lemma covered_trans: "covered spans sp \<Longrightarrow> (\<And>x. x \<in> set spans \<Longrightarrow> covered spans' x) \<Longrightarrow> covered spans' sp"
  unfolding covered_def by (smt (verit) case_prod_beta le_trans)

lemma chain_proper: "chain lo spans n \<Longrightarrow> proper n spans"
proof (induction lo spans n rule: chain.induct)
  case (2 lo a b spans n)
  moreover have "b \<le> n" if "chain b spans n" for b :: nat
    using that by (induction b spans n rule: chain.induct) auto
  ultimately show ?case by auto
qed simp

lemma merge_run_chain:
  assumes "sorted (map fst spans)" "\<forall>sp \<in> set spans. start \<le> fst sp" "proper n spans" "start < stop" "stop \<le> n" "lo \<le> start"
  shows "chain lo (merge_run start stop spans) n"
  using assms by (induction start stop spans arbitrary: lo rule: merge_run.induct) (auto simp: max_def)

lemma merge_run_covered:
  assumes "sorted (map fst spans)" "\<forall>sp \<in> set spans. start \<le> fst sp" "sp \<in> insert (start, stop) (set spans)"
  shows "covered (merge_run start stop spans) sp"
  using assms
proof (induction start stop spans arbitrary: sp rule: merge_run.induct)
  case (1 start stop)
  then show ?case by (simp add: covered_def)
next
  case (2 start stop a b rest)
  show ?case
  proof (cases "a < stop")
    case True
    have whole: "covered (merge_run start (max stop b) rest) (start, max stop b)"
      using "2.IH"(1) [OF True] "2.prems"(1,2) by simp
    consider "sp \<in> set rest" | "sp = (start, stop)" | "sp = (a, b)" using "2.prems"(3) by auto
    then show ?thesis
    proof cases
      case 1
      with "2.IH"(1) [OF True] "2.prems"(1,2) show ?thesis by (simp add: True)
    next
      case 2
      with whole True show ?thesis by (auto simp: covered_def)
    next
      case 3
      from whole obtain c d where cd: "(c, d) \<in> set (merge_run start (max stop b) rest)" "c \<le> start" "max stop b \<le> d"
        by (auto simp: covered_def)
      have "c \<le> a" "b \<le> d" using cd "2.prems"(2) by auto
      with cd(1) 3 True show ?thesis by (auto simp: covered_def)
    qed
  next
    case False
    have "covered (merge_run a b rest) x" if "x \<in> insert (a, b) (set rest)" for x
      using "2.IH"(2) [OF False _ _ that] "2.prems"(1) by simp
    with "2.prems"(3) False show ?thesis by (auto simp: covered_def)
  qed
qed

lemma mergeSpans_correct:
  assumes "proper n spans"
  shows "chain 0 (mergeSpans spans) n" and "sp \<in> set spans \<Longrightarrow> covered (mergeSpans spans) sp"
proof -
  have sorted: "sorted (map fst (sort_key fst spans))" by simp
  have p: "proper n (sort_key fst spans)" using assms by (simp add: proper_def)
  show "chain 0 (mergeSpans spans) n"
  proof (cases "sort_key fst spans")
    case (Cons x rest)
    obtain a b where x: "x = (a, b)" by (cases x)
    have "chain 0 (merge_run a b rest) n"
      using sorted p by (intro merge_run_chain) (auto simp: Cons x)
    then show ?thesis by (simp add: mergeSpans_def Cons x)
  qed (simp add: mergeSpans_def)
  assume "sp \<in> set spans"
  then have "sp \<in> set (sort_key fst spans)" by simp
  then show "covered (mergeSpans spans) sp"
  proof (cases "sort_key fst spans")
    case (Cons x rest)
    obtain a b where x: "x = (a, b)" by (cases x)
    have "covered (merge_run a b rest) sp"
      using sorted \<open>sp \<in> set (sort_key fst spans)\<close> by (intro merge_run_covered) (auto simp: Cons x)
    then show ?thesis by (simp add: mergeSpans_def Cons x)
  qed simp
qed

subsection \<open>Lemmas: the spans of a text\<close>

text \<open>What the loop over the occurrences of a value keeps: the spans are proper, they cover the occurrences
  before the offset, and the last one starts before it and reaches at most to the end of an occurrence there.\<close>

definition spans_inv :: "string \<Rightarrow> string \<Rightarrow> nat \<Rightarrow> span list \<Rightarrow> bool" where
  "spans_inv input v from spans \<longleftrightarrow>
     proper (length input) spans \<and>
     (\<forall>i < from. prefix v (drop i input) \<longrightarrow> covered spans (i, i + length v)) \<and>
     (spans \<noteq> [] \<longrightarrow> fst (last spans) < from \<and> snd (last spans) < from + length v)"

lemma prefix_drop_length: "prefix v (drop i s) \<Longrightarrow> v \<noteq> [] \<Longrightarrow> i + length v \<le> length s"
  by (metis add.commute drop_all length_drop le_diff_conv nat_le_linear prefix_bot.extremum_uniqueI prefix_length_le
      add_le_imp_le_diff diff_diff_cancel le_add_diff_inverse2 Nat.le_diff_conv2)

lemma spans_inv_step:
  assumes inv: "spans_inv input v d spans" and v: "v \<noteq> []" and i: "str_index (drop d input) v = Some i"
  shows "spans_inv input v (Suc (d + i))
    (if spans \<noteq> [] \<and> d + i < snd (last spans)
     then butlast spans @ [(fst (last spans), d + i + length v)] else spans @ [(d + i, d + i + length v)])"
    (is "spans_inv input v _ ?spans")
proof -
  let ?at = "d + i"
  have pre: "prefix v (drop ?at input)" using str_index_Some [OF i] by (simp add: add.commute)
  have len: "?at + length v \<le> length input" by (rule prefix_drop_length [OF pre v])
  have none: "\<not> prefix v (drop j input)" if j: "d \<le> j" "j < ?at" for j
    using str_index_Some [OF i] j by (auto simp: less_diff_conv2 dest!: spec [of _ "j - d"])
  have sub: "covered ?spans x" if x: "x \<in> set spans" for x
  proof (cases "spans \<noteq> [] \<and> ?at < snd (last spans)")
    case True
    then have split: "spans = butlast spans @ [last spans]" by simp
    from x have "x \<in> set (butlast spans) \<or> x = last spans" by (subst (asm) split) auto
    moreover have "snd (last spans) \<le> ?at + length v" using inv True by (auto simp: spans_inv_def)
    ultimately show ?thesis using True by (auto simp: covered_def)
  qed (use x in \<open>auto simp: covered_def\<close>)
  have here: "covered ?spans (?at, ?at + length v)"
    using inv by (auto simp: covered_def spans_inv_def)
  have "covered ?spans (j, j + length v)" if "j < Suc ?at" "prefix v (drop j input)" for j
  proof -
    have "j < d \<or> j = ?at" using none [of j] that by linarith
    then consider "j < d" | "j = ?at" by blast
    then show ?thesis
    proof cases
      case 1
      with inv that(2) have "covered spans (j, j + length v)" by (simp add: spans_inv_def)
      then show ?thesis using sub by (rule covered_trans)
    qed (use here in simp)
  qed
  moreover have "proper (length input) ?spans"
  proof (cases "spans \<noteq> [] \<and> ?at < snd (last spans)")
    case True
    then have split: "spans = butlast spans @ [last spans]" by simp
    have "proper (length input) (butlast spans)" using inv unfolding spans_inv_def by (metis split proper_append)
    with True inv len show ?thesis by (auto simp: spans_inv_def)
  qed (use inv len v in \<open>auto simp: spans_inv_def\<close>)
  ultimately show ?thesis using inv v by (auto simp: spans_inv_def)
qed

lemma value_spans_correct:
  assumes "v \<noteq> []"
  shows "spans_inv input v from spans \<Longrightarrow>
    proper (length input) (value_spans input v from spans) \<and>
    (\<forall>i. prefix v (drop i input) \<longrightarrow> covered (value_spans input v from spans) (i, i + length v))"
  using assms
proof (induction input v "from" spans rule: value_spans.induct)
  case (1 input v d spans)
  have before: "i < d" if none: "length input < d \<or> str_index (drop d input) v = None" and i: "prefix v (drop i input)" for i
  proof (rule ccontr)
    assume "\<not> i < d"
    moreover have "i + length v \<le> length input" by (rule prefix_drop_length [OF i "1.prems"(2)])
    ultimately have "str_index (drop d input) v = None" "i - d \<le> length (drop d input)" "drop (i - d) (drop d input) = drop i input"
      using none by auto
    with i show False by (metis str_index_None)
  qed
  show ?case
  proof (cases "length input < d")
    case True
    with "1.prems" before show ?thesis by (auto simp: value_spans.simps [of input v d] spans_inv_def)
  next
    case False
    show ?thesis
    proof (cases "str_index (drop d input) v")
      case None
      with "1.prems" False before show ?thesis by (auto simp: value_spans.simps [of input v d] spans_inv_def)
    next
      case (Some i)
      from "1.IH" [OF False Some refl refl spans_inv_step [OF "1.prems" Some] "1.prems"(2)]
      show ?thesis using False Some by (subst (1 2) value_spans.simps) (simp add: Let_def)
    qed
  qed
qed

lemma consumes_patterns: "consumes tokenPattern" "consumes secretKey"
  by (simp_all add: tokenPattern_def secretKey_def re_plus_def re_atleast_def re_lit_def consumes_times)

lemma raw_spans_proper: "proper (length input) (raw_spans input vals)"
proof -
  have "proper (length input) (FindAllIndex tokenPattern input)"
    using FindAllIndex_bounds consumes_patterns(1) by (fastforce simp: proper_def)
  moreover have "proper (length input) (FindAllCapture keyPrefix secretKey input)"
    using FindAllCapture_bounds consumes_patterns(2) by (fastforce simp: proper_def)
  moreover have "proper (length input) (if v = [] then [] else value_spans input v 0 [])" for v
    using value_spans_correct [of v input 0 "[]"] by (simp add: spans_inv_def)
  then have "proper (length input) (concat (map (\<lambda>v. if v = [] then [] else value_spans input v 0 []) vals))"
    by (induction vals) simp_all
  ultimately show ?thesis by (simp add: raw_spans_def)
qed

lemma secretSpans_chain: "chain 0 (secretSpans input values) (length input)"
  unfolding secretSpans_def by (rule mergeSpans_correct(1) [OF raw_spans_proper])

lemma secretSpans_covers: "sp \<in> set (raw_spans input values) \<Longrightarrow> covered (secretSpans input values) sp"
  unfolding secretSpans_def by (rule mergeSpans_correct(2) [OF raw_spans_proper])

lemma secretSpans_values:
  assumes "v \<in> set values" "v \<noteq> []" "prefix v (drop i input)"
  shows "covered (secretSpans input values) (i, i + length v)"
proof -
  have "covered (value_spans input v 0 []) (i, i + length v)"
    using value_spans_correct [OF assms(2), of input 0 "[]"] assms(3) by (simp add: spans_inv_def)
  moreover have "set (value_spans input v 0 []) \<subseteq> set (raw_spans input values)"
    using assms(1,2) by (auto simp: raw_spans_def)
  ultimately show ?thesis by (meson covered_trans secretSpans_covers subsetD)
qed

subsection \<open>Lemmas: replacing spans\<close>

text \<open>A text with each span replaced by the marker.\<close>

fun render :: "string \<Rightarrow> nat \<Rightarrow> span list \<Rightarrow> string" where
  "render input pos [] = drop pos input"
| "render input pos ((a, b) # spans) = slice pos a input @ redacted @ render input b spans"

text \<open>The rest of the output at a part boundary: a span that started in an earlier part has its marker there.\<close>

fun render_at :: "string \<Rightarrow> nat \<Rightarrow> span list \<Rightarrow> string" where
  "render_at input at [] = drop at input"
| "render_at input at ((a, b) # spans) = (if a < at then render input b spans else render input at ((a, b) # spans))"

fun boundary_ok :: "nat \<Rightarrow> span list \<Rightarrow> nat \<Rightarrow> bool" where
  "boundary_ok at [] n = (at \<le> n)"
| "boundary_ok at ((a, b) # spans) n = (if a < at then at < b \<and> chain b spans n else chain at ((a, b) # spans) n)"

lemma slice_append:
  assumes "i \<le> j" "j \<le> k"
  shows "slice i j s @ slice j k s = slice i k s"
proof -
  have "take ((j - i) + (k - j)) (drop i s) = take (j - i) (drop i s) @ take (k - j) (drop (j - i) (drop i s))"
    by (rule take_add)
  with assms show ?thesis by (simp add: slice_def)
qed

lemma slice_drop: "i \<le> j \<Longrightarrow> slice i j s @ drop j s = drop i s"
  unfolding slice_def by (metis append_take_drop_id drop_drop le_add_diff_inverse2)

lemma slice_same [simp]: "slice i i s = []"
  by (simp add: slice_def)

lemma render_from: "i \<le> j \<Longrightarrow> chain j spans n \<Longrightarrow> slice i j input @ render input j spans = render input i spans"
  by (cases spans) (auto simp: slice_drop simp flip: append_assoc intro: slice_append)

lemma part_loop_render:
  assumes "part_loop input start stop pos spans = (pos', spans', out)" "chain pos spans n" "start \<le> pos" "pos \<le> stop" "stop \<le> n"
  shows "out @ slice pos' stop input @ render_at input stop spans' = render input pos spans \<and> boundary_ok stop spans' n"
  using assms
proof (induction input start stop pos spans arbitrary: pos' spans' out rule: part_loop.induct)
  case (1 input start stop pos)
  then show ?case by (auto simp: slice_drop)
next
  case (2 input start stop pos a b rest)
  have le: "pos \<le> a" "a < b" "chain b rest n" using "2.prems"(2) by auto
  show ?case
  proof (cases "a < stop")
    case False
    with "2.prems" le show ?thesis
      by (auto simp: slice_append simp flip: append_assoc)
  next
    case here: True
    show ?thesis
    proof (cases "stop < b")
      case True
      with here "2.prems" le show ?thesis by auto
    next
      case False
      then obtain out' where rec: "part_loop input start stop b rest = (pos', spans', out')"
        and out: "out = slice pos a input @ redacted @ out'"
        using here "2.prems"(1,3) le(1) by (auto simp: Let_def min_def split: prod.splits if_splits)
      have "min b stop = b" using False by simp
      from "2.IH" [OF _ refl False, unfolded this, OF _ rec le(3)] here False "2.prems" le
      show ?thesis by (simp add: out)
    qed
  qed
qed

lemma straddle_render:
  assumes "part_loop input start stop start spans = (pos', spans', out)" "boundary_ok start spans n" "start \<le> stop" "stop \<le> n"
  shows "out @ slice pos' stop input @ render_at input stop spans' = render_at input start spans \<and> boundary_ok stop spans' n"
proof (cases spans)
  case Nil
  with assms show ?thesis by (auto simp: slice_drop)
next
  case (Cons x rest)
  obtain a b where x: "x = (a, b)" by (cases x)
  show ?thesis
  proof (cases "a < start")
    case False
    with assms Cons x show ?thesis using part_loop_render [OF assms(1), of n] by simp
  next
    case True
    then have ab: "start < b" "chain b rest n" using assms(2) Cons x by auto
    show ?thesis
    proof (cases "stop < b")
      case True
      with \<open>a < start\<close> assms Cons x ab show ?thesis by auto
    next
      case False
      then have "part_loop input start stop b rest = (pos', spans', out)"
        using assms(1,3) \<open>a < start\<close> Cons x by (auto simp: Let_def min_def split: prod.splits if_splits)
      from part_loop_render [OF this ab(2)] ab False assms(3,4) \<open>a < start\<close> Cons x show ?thesis by simp
    qed
  qed
qed

lemma boundary_end: "boundary_ok n spans n \<Longrightarrow> render_at input n spans = drop n input"
proof (cases spans)
  case (Cons x rest)
  obtain a b where x: "x = (a, b)" by (cases x)
  assume "boundary_ok n spans n"
  moreover have "lo \<le> n" if "chain lo rest n" for lo
    using that by (induction lo rest n rule: chain.induct) auto
  ultimately have False using Cons x by (force split: if_splits)
  then show ?thesis ..
qed simp

lemma replace_from_render:
  assumes "start + length (concat parts) = length input" "boundary_ok start spans (length input)"
  shows "concat (replace_from input start parts spans) = render_at input start spans"
  using assms
proof (induction input start parts spans rule: replace_from.induct)
  case (1 input start spans)
  then show ?case using boundary_end [of start spans input] by simp
next
  case (2 input start part parts spans)
  obtain pos' spans' out where loop: "part_loop input start (start + length part) start spans = (pos', spans', out)"
    by (metis prod_cases3)
  have stop: "start + length part \<le> length input" using "2.prems"(1) by simp
  note step = straddle_render [OF loop "2.prems"(2) _ stop]
  have "concat (replace_from input (start + length part) parts spans') = render_at input (start + length part) spans'"
    using step "2.prems"(1) by (intro "2.IH" [OF refl loop [symmetric] refl]) auto
  with step show ?case by (simp add: loop Let_def)
qed

lemma chain_boundary: "chain 0 spans n \<Longrightarrow> boundary_ok 0 spans n \<and> render_at input 0 spans = render input 0 spans"
  by (cases spans) auto

text \<open>Redacting the parts of a text redacts the text.\<close>

lemma replaceParts_render:
  assumes "concat parts = input" "chain 0 spans (length input)"
  shows "concat (replaceParts parts input spans) = render input 0 spans"
proof (cases "spans = []")
  case False
  have "concat (replace_from input 0 parts spans) = render_at input 0 spans"
    using assms chain_boundary by (intro replace_from_render) auto
  with False assms(2) show ?thesis by (simp add: replaceParts_def chain_boundary)
qed (simp add: replaceParts_def assms(1))

lemma scrub_render: "scrub input values = render input 0 (secretSpans input values)"
proof -
  have "concat (scrubParts [input] values) = render input 0 (secretSpans input values)"
    using replaceParts_render [of "[input]" input "secretSpans input values"] by (simp add: scrubParts_def secretSpans_chain)
  moreover have "\<exists>x. scrubParts [input] values = [x]"
    by (auto simp: scrubParts_def replaceParts_def Let_def split: prod.splits)
  ultimately show ?thesis by (auto simp: scrub_def)
qed

lemma scrubParts_concat: "concat (scrubParts parts values) = scrub (concat parts) values"
  unfolding scrub_render scrubParts_def Let_def using replaceParts_render [OF refl secretSpans_chain] .

subsection \<open>Lemmas: two streams\<close>

definition hides :: "string list \<Rightarrow> string \<Rightarrow> span list \<Rightarrow> bool" where
  "hides values input spans \<longleftrightarrow>
     (\<forall>v \<in> set values. v \<noteq> [] \<longrightarrow> (\<forall>i. prefix v (drop i input) \<longrightarrow> covered spans (i, i + length v))) \<and>
     (\<forall>sp \<in> set (FindAllIndex tokenPattern input) \<union> set (FindAllCapture keyPrefix secretKey input). covered spans sp)"

lemma secretSpans_hides: "hides values input (secretSpans input values)"
  unfolding hides_def using secretSpans_values secretSpans_covers by (auto simp: raw_spans_def)

lemma hides_mono: "hides values input spans \<Longrightarrow> (\<And>x. x \<in> set spans \<Longrightarrow> covered spans' x) \<Longrightarrow> hides values input spans'"
  unfolding hides_def by (meson covered_trans)

lemma map_adjacent_proper: "proper (n - 1) spans \<Longrightarrow> boundary < n \<Longrightarrow> proper n (map (map_adjacent boundary) spans)"
  by (fastforce simp: proper_def map_adjacent_def split: prod.splits)

lemma streamSpans_correct:
  assumes "boundary < length input"
  shows "chain 0 (streamSpans input boundary values) (length input)" and "hides values input (streamSpans input boundary values)"
proof -
  let ?adjacent = "take boundary input @ drop (Suc boundary) input"
  have "length ?adjacent = length input - 1" using assms by simp
  then have "proper (length input) (map (map_adjacent boundary) (secretSpans ?adjacent values))"
    using chain_proper [OF secretSpans_chain] assms by (intro map_adjacent_proper) metis+
  then have all: "proper (length input) (secretSpans input values @ map (map_adjacent boundary) (secretSpans ?adjacent values))"
    using chain_proper [OF secretSpans_chain] by simp
  show "chain 0 (streamSpans input boundary values) (length input)"
    unfolding streamSpans_def Let_def by (rule mergeSpans_correct(1) [OF all])
  show "hides values input (streamSpans input boundary values)"
    unfolding streamSpans_def Let_def
    by (rule hides_mono [OF secretSpans_hides]) (auto intro!: mergeSpans_correct(2) [OF all])
qed

fun kept_ok :: "nat \<Rightarrow> kept_slice list \<Rightarrow> nat \<Rightarrow> bool" where
  "kept_ok lo [] n = (lo \<le> n)"
| "kept_ok lo (k # ks) n = (lo \<le> ks_TextStart k \<and> ks_RawStart k < ks_RawEnd k \<and>
     kept_ok (ks_TextStart k + (ks_RawEnd k - ks_RawStart k)) ks n)"

lemma kept_ok_mono: "kept_ok hi ks n \<Longrightarrow> lo \<le> hi \<Longrightarrow> kept_ok lo ks n"
  by (cases ks) auto

lemma kept_slices_ok:
  "kept_ok textOffset (kept_slices vals rawOffset textOffset parts)
     (textOffset + length (concat (map (part_text vals \<circ> snd) parts)))"
proof (induction vals rawOffset textOffset parts rule: kept_slices.induct)
  case (2 vals rawOffset textOffset separator part parts)
  obtain s start where p: "partSlice vals part = (s, start)" by (cases "partSlice vals part")
  have len: "length (part_text vals part) = (if s \<noteq> [] then length (pt_Prefix part) + length s else 0)"
    by (simp add: part_text_def p)
  note IH = "2.IH" [OF p [symmetric] refl refl]
  show ?case
  proof (cases "s \<noteq> [] \<and> \<not> separator")
    case True
    with IH show ?thesis by (simp add: p len add.assoc)
  next
    case False
    with IH show ?thesis by (auto simp: p add.assoc Let_def intro: kept_ok_mono)
  qed
qed simp

lemma project_span_proper:
  assumes "kept_ok lo ks n" "project_span sp ks acc = Some (f, t)" "\<And>f t. acc = Some (f, t) \<Longrightarrow> f < t \<and> t \<le> lo"
  shows "f < t \<and> t \<le> n"
  using assms
proof (induction sp ks acc arbitrary: lo rule: project_span.induct)
  case (1 sp acc)
  then show ?case by force
next
  case (2 sp k ks acc)
  let ?start = "max (fst sp) (ks_RawStart k)" and ?stop = "min (snd sp) (ks_RawEnd k)"
  have k: "lo \<le> ks_TextStart k" "kept_ok (ks_TextStart k + (ks_RawEnd k - ks_RawStart k)) ks n"
    using "2.prems"(1) by auto
  show ?case
  proof (cases "?start < ?stop")
    case True
    have "project_span sp ks (Some (case acc of None \<Rightarrow> ks_TextStart k + ?start - ks_RawStart k | Some (from, _) \<Rightarrow> from,
        ks_TextStart k + ?stop - ks_RawStart k)) = Some (f, t)"
      using "2.prems"(2) True by (simp add: Let_def)
    from "2.IH"(1) [OF refl refl True k(2) this] show ?thesis
      using "2.prems"(3) k(1) True by (fastforce split: option.splits)
  next
    case False
    then have "project_span sp ks acc = Some (f, t)" using "2.prems"(2) by (simp only: project_span.simps Let_def if_False)
    from "2.IH"(2) [OF refl refl False k(2) this] show ?thesis using "2.prems"(3) k(1) by fastforce
  qed
qed

definition stream_text :: "string list \<Rightarrow> capture_part list \<Rightarrow> capture_part list \<Rightarrow> string" where
  "stream_text values first second = concat (map (part_text values) (first @ separator_part # second))"

lemma part_text_separator: "part_text values separator_part = [char_of (10 :: nat)]"
  by (simp add: part_text_def partSlice_def separator_part_def)

lemma redact_Streams_render:
  "\<exists>spans. concat (redact_Streams values first second) = render (stream_text values first second) 0 spans \<and>
     chain 0 spans (length (stream_text values first second)) \<and> hides values (stream_text values first second) spans"
proof -
  define parts where "parts = first @ separator_part # second"
  define input where "input = concat (map (part_text values) parts)"
  define original where "original = concat (map part_raw parts)"
  define textBoundary where "textBoundary = length (concat (map (part_text values) first))"
  define rawBoundary where "rawBoundary = length (concat (map part_raw first))"
  define tagged where "tagged = map (Pair False) first @ (True, separator_part) # map (Pair False) second"
  define kept where "kept = kept_slices values 0 0 tagged"
  define spans where "spans = streamSpans input textBoundary values"
  define projected where "projected = concat (map (\<lambda>sp. case project_span sp kept None of None \<Rightarrow> [] | Some x \<Rightarrow> [x])
    (streamSpans original rawBoundary values))"
  have "textBoundary < length input"
    by (simp add: input_def textBoundary_def parts_def part_text_separator)
  note spans_ok = streamSpans_correct [OF this, of "values", folded spans_def]
  have "map (part_text values \<circ> snd) tagged = map (part_text values) parts"
    by (simp add: tagged_def parts_def comp_def)
  then have ok: "kept_ok 0 kept (length input)"
    using kept_slices_ok [of 0 "values" 0 tagged] by (simp add: kept_def input_def)
  have "f < t \<and> t \<le> length input" if "project_span sp kept None = Some (f, t)" for sp f t
    using project_span_proper [OF ok that] by simp
  then have "proper (length input) projected"
    unfolding projected_def proper_def by (auto split: option.splits dest!: sym [of "Some _"])
  with chain_proper [OF spans_ok(1)] have all: "proper (length input) (spans @ projected)" by simp
  have hid: "hides values input (mergeSpans (spans @ projected))"
    by (rule hides_mono [OF spans_ok(2)]) (auto intro!: mergeSpans_correct(2) [OF all])
  have result: "redact_Streams values first second =
      (if original = input then replaceParts (map (part_text values) parts) input spans
       else replaceParts (map (part_text values) parts) input (mergeSpans (spans @ projected)))"
    by (simp add: redact_Streams_def Let_def input_def original_def spans_def projected_def kept_def tagged_def
        textBoundary_def rawBoundary_def parts_def)
  show ?thesis
  proof (cases "original = input")
    case True
    with result spans_ok show ?thesis unfolding stream_text_def
      by (intro exI [of _ spans]) (simp add: replaceParts_render input_def parts_def)
  next
    case False
    with result hid mergeSpans_correct(1) [OF all] show ?thesis unfolding stream_text_def
      by (intro exI [of _ "mergeSpans (spans @ projected)"]) (simp add: replaceParts_render input_def parts_def)
  qed
qed

subsection \<open>Lemmas: the bound of a displayed text\<close>

lemma rune_prefix_prefix: "prefix (rune_prefix n s) s"
proof (induction n s rule: rune_prefix.induct)
  case (2 n s)
  show ?case
  proof (cases "s = []")
    case False
    obtain t where "drop (snd (decode_rune s)) s = rune_prefix n (drop (snd (decode_rune s)) s) @ t"
      using 2 [OF False] by (auto elim: prefixE)
    then have "s = take (snd (decode_rune s)) s @ rune_prefix n (drop (snd (decode_rune s)) s) @ t"
      by (metis append_take_drop_id)
    then show ?thesis using False by (metis append_assoc prefixI rune_prefix.simps(2))
  qed simp
qed simp

section \<open>Properties\<close>

text \<open>C21: Redacting the parts of a text gives the text with disjoint spans replaced by the marker, and those spans
  cover, as a whole, every occurrence of every secret value of the environment and every match of the token and
  key patterns in the joined text. A secret that spans a part boundary is therefore hidden like any other.\<close>

theorem redaction_hides_secrets:
  "concat (scrubParts parts values) = render (concat parts) 0 (secretSpans (concat parts) values) \<and>
   chain 0 (secretSpans (concat parts) values) (length (concat parts)) \<and>
   (\<forall>v \<in> set values. v \<noteq> [] \<longrightarrow> (\<forall>i. prefix v (drop i (concat parts)) \<longrightarrow>
      covered (secretSpans (concat parts) values) (i, i + length v))) \<and>
   (\<forall>sp \<in> set (FindAllIndex tokenPattern (concat parts)) \<union> set (FindAllCapture keyPrefix secretKey (concat parts)).
      covered (secretSpans (concat parts) values) sp)"
  using secretSpans_hides [of "values" "concat parts"] secretSpans_chain [of "concat parts" "values"]
  by (simp add: scrubParts_concat scrub_render hides_def)

theorem redaction_hides_secrets_witness:
  "covered (secretSpans ''key=hunter-22'' [''hunter-22'']) (4, 13)"
  using redaction_hides_secrets [of "[''key=hun'', ''ter-22'']" "[''hunter-22'']"]
  by (auto dest!: spec [of _ "4 :: nat"] simp: prefix_def)

text \<open>The evidence of a command joins its two output streams, whose first and last lines a capture may
  have cut. After the cuts are trimmed, the streams together are the displayed text with disjoint spans replaced
  by the marker, and the spans hide every secret of the displayed text, across the stream boundary too.\<close>

lemma streams_hide_secrets:
  "\<exists>spans. concat (redact_Streams values first second) = render (stream_text values first second) 0 spans \<and>
     chain 0 spans (length (stream_text values first second)) \<and> hides values (stream_text values first second) spans"
  by (rule redact_Streams_render)

end
