(* ===== verification/Process_Capture.thy ===== *)
theory Process_Capture
  imports Redact
begin

text \<open>
  Child processes as the service reads them: \<open>internal/process/capture.go\<close> and \<open>status.go\<close>. A child's output is a
  list of chunks, as \<open>Read\<close> returns them; waiting, timers and signals have no counterpart. The tables of package
  \<open>unicode\<close> behind \<open>visible\<close> (format characters, separators, variation selectors, default-ignorable characters) are
  the parameter \<open>invisible\<close>, and \<open>unix.SignalName\<close> is the parameter \<open>signal_name\<close>. The lemmas show that a capture keeps the
  exact head and tail of a stream and that a reader of \<open>visible\<close> text can recover the bytes it was made from.
\<close>

subsection \<open>How a child ended\<close>

record exit_record =
  ex_Code :: int
  ex_OOM :: bool
  ex_Killed :: bool
  ex_Reason :: string

datatype wait_status = Exited int | Signaled nat bool | Stopped nat | Continued | OtherWait nat

record process_status =
  ps_State :: "wait_status option"
  ps_Exit :: "exit_record option"

definition ExitStatus :: "exit_record \<Rightarrow> process_status" where
  "ExitStatus ex = \<lparr>ps_State = None, ps_Exit = Some ex\<rparr>"

definition Process_Success :: "process_status \<Rightarrow> bool" where
  "Process_Success st =
     (case ps_Exit st of
        Some ex \<Rightarrow> ex_Code ex = 0 \<and> \<not> ex_OOM ex \<and> \<not> ex_Killed ex
      | None \<Rightarrow> ps_State st = Some (Exited 0))"

text \<open>A wait status that is not an exit has the exit status -1. A status with neither part is a nil
  dereference: None.\<close>

definition Process_Code :: "process_status \<Rightarrow> (int \<times> bool) option" where
  "Process_Code st =
     (case ps_Exit st of
        Some ex \<Rightarrow> Some (ex_Code ex, \<not> ex_Killed ex)
      | None \<Rightarrow>
          (case ps_State st of
             None \<Rightarrow> None
           | Some (Exited code) \<Rightarrow> Some (code, True)
           | Some _ \<Rightarrow> Some (- 1, False)))"

definition show_int :: "int \<Rightarrow> string" where
  "show_int i = (if i < 0 then ''-'' @ show_nat (nat (- i)) else show_nat (nat i))"

definition lower_hex_digit :: "nat \<Rightarrow> char" where
  "lower_hex_digit d = (if d < 10 then char_of (48 + d) else char_of (87 + d))"

fun lower_hex :: "nat \<Rightarrow> string" where
  "lower_hex n = (if n < 16 then [lower_hex_digit n] else lower_hex (n div 16) @ [lower_hex_digit (n mod 16)])"

declare lower_hex.simps [simp del]

definition signalString :: "(nat \<Rightarrow> string) \<Rightarrow> nat \<Rightarrow> string" where
  "signalString signal_name sig = (if signal_name sig \<noteq> [] then '' ('' @ signal_name sig @ '')'' else [])"

definition wait_String :: "(nat \<Rightarrow> string) \<Rightarrow> wait_status \<Rightarrow> string" where
  "wait_String signal_name ws =
     (case ws of
        Exited code \<Rightarrow> ''exit status: '' @ show_int code
      | Signaled sig core \<Rightarrow> ''signal: '' @ show_nat sig @ signalString signal_name sig @ (if core then '' (core dumped)'' else [])
      | Stopped sig \<Rightarrow> ''stopped (not terminated) by signal: '' @ show_nat sig @ signalString signal_name sig
      | Continued \<Rightarrow> ''continued (WIFCONTINUED)''
      | OtherWait raw \<Rightarrow> ''unrecognised wait status: '' @ show_nat raw @ '' 0x'' @ lower_hex raw)"

definition Process_String :: "(nat \<Rightarrow> string) \<Rightarrow> process_status \<Rightarrow> string" where
  "Process_String signal_name st =
     (case ps_Exit st of
        Some ex \<Rightarrow>
          if ex_OOM ex then ''exit status: '' @ show_int (ex_Code ex) @ '' (sandbox memory limit exceeded)''
          else if ex_Killed ex \<and> ex_Reason ex \<noteq> [] then ex_Reason ex
          else if ex_Killed ex then ''stopped by Octomus''
          else ''exit status: '' @ show_int (ex_Code ex)
      | None \<Rightarrow>
          (case ps_State st of
             None \<Rightarrow> ''unrecognised wait status: 0 0x0''
           | Some ws \<Rightarrow> wait_String signal_name ws))"

datatype exit_error = ErrKilled | ExitText string | ExitHost wait_status

definition Process_Err :: "(nat \<Rightarrow> string) \<Rightarrow> process_status \<Rightarrow> exit_error go_error" where
  "Process_Err signal_name st =
     (if Process_Success st then None
      else case ps_Exit st of
        Some ex \<Rightarrow> Some (if ex_Killed ex \<and> ex_Reason ex = [] then ErrKilled else ExitText (Process_String signal_name st))
      | None \<Rightarrow>
          (case ps_State st of
             None \<Rightarrow> Some (ExitText (Process_String signal_name st))
           | Some ws \<Rightarrow> Some (ExitHost ws)))"

subsection \<open>Bounded reading\<close>

definition diagnosticLimit :: nat where
  "diagnosticLimit = 262144"

definition machineLimit :: nat where
  "machineLimit = 16 * 1024 * 1024"

definition tailLimit :: nat where
  "tailLimit = 64 * 1024"

record captured =
  cp_Bytes :: string
  cp_Truncated :: bool
  cp_Tail :: string

text \<open>\<open>tailWindow\<close>: a ring buffer of the last \<open>tailLimit\<close> bytes written.\<close>

record tail_window =
  tw_Buf :: string
  tw_Next :: nat

text \<open>The copy loop of a full buffer. The offset stays below the length of the buffer, so every copy
  advances (lemma \<open>ring_copy_window\<close>).\<close>

function ring_copy :: "string \<Rightarrow> tail_window \<Rightarrow> tail_window" where
  "ring_copy p w =
     (let n = min (length (tw_Buf w) - tw_Next w) (length p) in
      if n = 0 then w
      else ring_copy (drop n p)
        \<lparr>tw_Buf = take (tw_Next w) (tw_Buf w) @ take n p @ drop (tw_Next w + n) (tw_Buf w),
         tw_Next = (tw_Next w + n) mod tailLimit\<rparr>)"
  by pat_completeness auto
termination
  by (relation "measure (\<lambda>(p, w). length p)") auto

declare ring_copy.simps [simp del]

definition window_write :: "string \<Rightarrow> tail_window \<Rightarrow> tail_window" where
  "window_write p w =
     (let p = (if tailLimit < length p then drop (length p - tailLimit) p else p);
          n = min (tailLimit - length (tw_Buf w)) (length p)
      in ring_copy (drop n p) (w\<lparr>tw_Buf := tw_Buf w @ take n p\<rparr>))"

definition window_bytes :: "tail_window \<Rightarrow> string" where
  "window_bytes w = rev (rev (take (tw_Next w) (tw_Buf w)) @ rev (drop (tw_Next w) (tw_Buf w)))"

fun read_chunks :: "nat \<Rightarrow> string list \<Rightarrow> string \<Rightarrow> bool \<Rightarrow> tail_window \<Rightarrow> captured" where
  "read_chunks limit [] kept truncated w = \<lparr>cp_Bytes = kept, cp_Truncated = truncated, cp_Tail = window_bytes w\<rparr>"
| "read_chunks limit (buf # bufs) kept truncated w =
     (let n = length buf; taken = min n (limit - length kept) in
      read_chunks limit bufs (kept @ take taken buf) (truncated \<or> taken < n)
        (if taken < n then window_write (drop taken buf) w else w))"

definition boundedRead :: "nat \<Rightarrow> string list \<Rightarrow> captured" where
  "boundedRead limit chunks = read_chunks limit chunks [] False \<lparr>tw_Buf = [], tw_Next = 0\<rparr>"

subsection \<open>Previews\<close>

definition truncatedMarker :: string where
  "truncatedMarker = ''[diagnostic output truncated]''"

definition newline :: string where
  "newline = [char_of (10 :: nat)]"

text \<open>\<open>strings.ToValidUTF8\<close> replaces each run of invalid bytes by one replacement character.\<close>

function to_valid_utf8 :: "bool \<Rightarrow> string \<Rightarrow> string" where
  "to_valid_utf8 invalid s =
     (if s = [] then []
      else let (r, n) = decode_rune s in
        if r = rune_error \<and> n = 1 then (if invalid then [] else encode_rune rune_error) @ to_valid_utf8 True (drop 1 s)
        else take n s @ to_valid_utf8 False (drop n s))"
  by pat_completeness auto
termination
proof (relation "measure (\<lambda>(b, s). length s)")
  fix b :: bool and s :: string and x r n
  assume "s \<noteq> []" "x = decode_rune s" "(r, n) = x"
  then show "((False, drop n s), b, s) \<in> measure (\<lambda>(b, s). length s)"
    using decode_rune_width [of s] by (auto simp: prod_eq_iff)
qed auto

declare to_valid_utf8.simps [simp del]

definition previewParts :: "captured \<Rightarrow> capture_part list" where
  "previewParts c =
     \<lparr>pt_Text = to_valid_utf8 False (cp_Bytes c), pt_Prefix = [], pt_CutStart = False, pt_CutEnd = cp_Truncated c\<rparr> #
     (if cp_Truncated c
      then [\<lparr>pt_Text = newline @ truncatedMarker, pt_Prefix = [], pt_CutStart = False, pt_CutEnd = False\<rparr>,
            \<lparr>pt_Text = to_valid_utf8 False (cp_Tail c), pt_Prefix = newline, pt_CutStart = True, pt_CutEnd = False\<rparr>]
      else [])"

definition SafePreview :: "string list \<Rightarrow> captured \<Rightarrow> string" where
  "SafePreview values c = concat (redact_Parts values (previewParts c))"

definition joinPreview :: "string \<Rightarrow> string \<Rightarrow> bool \<Rightarrow> string" where
  "joinPreview head tail truncated =
     (if \<not> truncated then head
      else if tail = [] then head @ newline @ truncatedMarker
      else head @ newline @ truncatedMarker @ newline @ tail)"

record process_output =
  po_Status :: process_status
  po_Stdout :: captured
  po_Stderr :: captured

record safe_capture =
  sc_Head :: string
  sc_Tail :: string
  sc_Truncated :: bool

definition safeParts :: "string list \<Rightarrow> process_output \<Rightarrow> string list \<times> nat" where
  "safeParts values out =
     (let stdoutParts = previewParts (po_Stdout out);
          boundary = length stdoutParts;
          safe = redact_Streams values stdoutParts (previewParts (po_Stderr out));
          separator = safe ! boundary
      in (if separator \<noteq> [] \<and> separator \<noteq> newline
          then safe[boundary + 1 := separator @ safe ! (boundary + 1), boundary := []] else safe, boundary))"

definition trim_prefix :: "string \<Rightarrow> string \<Rightarrow> string" where
  "trim_prefix s p = (if has_prefix s p then drop (length p) s else s)"

text \<open>\<open>scrubbedPreview\<close>, the type \<open>failurePreview\<close> and \<open>SafeCapture\<close> have one shape.\<close>

definition scrubbedPreview :: "string list \<Rightarrow> safe_capture" where
  "scrubbedPreview parts =
     \<lparr>sc_Head = parts ! 0, sc_Tail = (if length parts = 3 then trim_prefix (parts ! 2) newline else []),
      sc_Truncated = (length parts = 3)\<rparr>"

definition SafeCaptures :: "string list \<Rightarrow> process_output \<Rightarrow> safe_capture \<times> safe_capture" where
  "SafeCaptures values out =
     (let (safe, stdoutParts) = safeParts values out
      in (scrubbedPreview (take stdoutParts safe), scrubbedPreview (drop (stdoutParts + 1) safe)))"

subsection \<open>Failure texts\<close>

definition failureTextLimit :: int where
  "failureTextLimit = 16384 - 1024"

definition stderrShare :: int where
  "stderrShare = 4096"

definition elisionReserve :: int where
  "elisionReserve = 48"

definition rune_count :: "string \<Rightarrow> int" where
  "rune_count s = int (length (runes s))"

definition runeOffset :: "string \<Rightarrow> int \<Rightarrow> nat" where
  "runeOffset s n = (let os = map fst (rune_offsets s 0) in if 0 \<le> n \<and> nat n < length os then os ! nat n else length s)"

definition elideMiddle :: "string \<Rightarrow> int \<Rightarrow> string" where
  "elideMiddle s limit =
     (let runes_total = rune_count s in
      if runes_total \<le> limit then s
      else let keep = max (limit - elisionReserve) 0; head = keep div 2; tail = keep - head in
        take (runeOffset s head) s @ newline @ ''[... '' @ show_int (runes_total - keep) @ '' characters omitted ...]'' @ newline @
        drop (runeOffset s (runes_total - tail)) s)"

definition preview_text :: "safe_capture \<Rightarrow> string" where
  "preview_text p = joinPreview (sc_Head p) (sc_Tail p) (sc_Truncated p)"

definition preview_elide :: "safe_capture \<Rightarrow> int \<Rightarrow> string" where
  "preview_elide p limit =
     (if sc_Tail p = [] \<or> rune_count (preview_text p) \<le> limit then elideMiddle (preview_text p) limit
      else let marker = newline @ truncatedMarker @ newline;
               keep = max (limit - rune_count marker) 0;
               headRunes = rune_count (sc_Head p); tailRunes = rune_count (sc_Tail p)
           in if headRunes \<le> keep div 2 then sc_Head p @ marker @ elideMiddle (sc_Tail p) (keep - headRunes)
              else if tailRunes \<le> keep - keep div 2 then elideMiddle (sc_Head p) (keep - tailRunes) @ marker @ sc_Tail p
              else take (runeOffset (sc_Head p) (keep div 2)) (sc_Head p) @ marker @
                   drop (runeOffset (sc_Tail p) (tailRunes - (keep - keep div 2))) (sc_Tail p))"

definition failureText :: "(nat \<Rightarrow> string) \<Rightarrow> string list \<Rightarrow> string \<Rightarrow> process_output \<Rightarrow> string" where
  "failureText signal_name values binary out =
     (let pre = binary @ '' exited with '' @ Process_String signal_name (po_Status out) @ '': '';
          budget = failureTextLimit - rune_count pre;
          (safe, stdoutParts) = safeParts values out;
          joined = concat safe
      in if rune_count joined \<le> budget then pre @ joined
         else let stdout = scrubbedPreview (take stdoutParts safe); stderr = scrubbedPreview (drop (stdoutParts + 1) safe) in
           if preview_text stderr = [] then pre @ preview_elide stdout budget
           else let separator = newline @ ''[stderr]'' @ newline;
                    budget = budget - rune_count separator;
                    stderrText = preview_elide stderr
                      (min (rune_count (preview_text stderr)) (max stderrShare (budget - rune_count (preview_text stdout))))
                in pre @ preview_elide stdout (budget - rune_count stderrText) @ separator @ stderrText)"

definition ensureSuccess :: "(nat \<Rightarrow> string) \<Rightarrow> string list \<Rightarrow> string \<Rightarrow> process_output \<Rightarrow> string go_error" where
  "ensureSuccess signal_name values binary out =
     (if Process_Success (po_Status out) then None else Some (failureText signal_name values binary out))"

subsection \<open>Reading an output\<close>

text \<open>The runs take the result of the capture: an error (as its text) or the output.\<close>

datatype run_error = CaptureFailed string | CommandFailed string | OutputTooLarge nat | NotUTF8

definition RunMachine :: "(nat \<Rightarrow> string) \<Rightarrow> string list \<Rightarrow> string \<Rightarrow> (string, process_output) result \<Rightarrow> (run_error, string) result" where
  "RunMachine signal_name values binary capture =
     (case capture of
        Inl err \<Rightarrow> Inl (CaptureFailed err)
      | Inr out \<Rightarrow>
          (case ensureSuccess signal_name values binary out of
             Some err \<Rightarrow> Inl (CommandFailed err)
           | None \<Rightarrow>
               if cp_Truncated (po_Stdout out) then Inl (OutputTooLarge machineLimit)
               else if \<not> valid_utf8 (cp_Bytes (po_Stdout out)) then Inl NotUTF8
               else Inr (cp_Bytes (po_Stdout out))))"

definition hex_upper :: "nat \<Rightarrow> char" where
  "hex_upper d = (if d < 10 then char_of (48 + d) else char_of (55 + d))"

text \<open>The verbs \<open>02X\<close> and \<open>04X\<close> of package fmt: at least w digits.\<close>

function show_hex_upper :: "nat \<Rightarrow> nat \<Rightarrow> string" where
  "show_hex_upper w n =
     (if n < 16 \<and> w \<le> 1 then [hex_upper n] else show_hex_upper (w - 1) (n div 16) @ [hex_upper (n mod 16)])"
  by pat_completeness auto
termination
  by (relation "measure (\<lambda>(w, n). w + n)") auto

declare show_hex_upper.simps [simp del]

definition open_escape :: string where
  "open_escape = map char_of [226, 159, 166 :: nat]"

definition close_escape :: string where
  "close_escape = map char_of [226, 159, 167 :: nat]"

definition visible_piece :: "(nat \<Rightarrow> bool) \<Rightarrow> string \<Rightarrow> string" where
  "visible_piece invisible raw =
     (let (r, n) = decode_rune raw in
      if (32 \<le> r \<and> r < 127) \<or> r = 9 \<or> r = 10 \<or> (r = 13 \<and> 1 < length raw \<and> byte (raw ! 1) = 10) then take n raw
      else if r = rune_error \<and> n = 1 then open_escape @ ''x'' @ show_hex_upper 2 (byte (raw ! 0)) @ close_escape
      else if r = 10214 \<or> is_control r \<or> invisible r then open_escape @ ''U+'' @ show_hex_upper 4 r @ close_escape
      else take n raw)"

function visible_loop :: "(nat \<Rightarrow> bool) \<Rightarrow> int \<Rightarrow> string \<Rightarrow> string \<Rightarrow> string \<times> bool" where
  "visible_loop invisible limit raw out =
     (if raw = [] then (out, True)
      else let piece = visible_piece invisible raw in
        if limit < int (length out + length piece) then (out, False)
        else visible_loop invisible limit (drop (snd (decode_rune raw)) raw) (out @ piece))"
  by pat_completeness auto
termination
proof (relation "measure (\<lambda>(inv, limit, raw, out). length raw)")
  fix inv' :: "nat \<Rightarrow> bool" and limit :: int and raw out piece :: string
  assume "raw \<noteq> []"
  then show "((inv', limit, drop (snd (decode_rune raw)) raw, out @ piece), inv', limit, raw, out)
      \<in> measure (\<lambda>(inv, limit, raw, out). length raw)"
    using decode_rune_width [of raw] by auto
qed simp

declare visible_loop.simps [simp del]

definition visible :: "(nat \<Rightarrow> bool) \<Rightarrow> string \<Rightarrow> int \<Rightarrow> string \<times> bool" where
  "visible invisible raw limit = visible_loop invisible limit raw []"

definition RunText :: "(nat \<Rightarrow> bool) \<Rightarrow> (nat \<Rightarrow> string) \<Rightarrow> string list \<Rightarrow> string \<Rightarrow> (string, process_output) result \<Rightarrow> int \<Rightarrow>
    (run_error, string \<times> bool) result" where
  "RunText invisible signal_name values binary capture limit =
     (case capture of
        Inl err \<Rightarrow> Inl (CaptureFailed err)
      | Inr out \<Rightarrow>
          (case ensureSuccess signal_name values binary out of
             Some err \<Rightarrow> Inl (CommandFailed err)
           | None \<Rightarrow>
               let (shown, complete) = visible invisible (cp_Bytes (po_Stdout out)) (min limit (int diagnosticLimit))
               in Inr (shown, complete \<and> \<not> cp_Truncated (po_Stdout out))))"

definition RunPredicate :: "(nat \<Rightarrow> string) \<Rightarrow> string list \<Rightarrow> string \<Rightarrow> int list \<Rightarrow> (string, process_output) result \<Rightarrow>
    (run_error, bool) result" where
  "RunPredicate signal_name values binary falseCodes capture =
     (case capture of
        Inl err \<Rightarrow> Inl (CaptureFailed err)
      | Inr out \<Rightarrow>
          if Process_Success (po_Status out) then Inr True
          else (case Process_Code (po_Status out) of
             Some (code, True) \<Rightarrow>
               if code \<in> set falseCodes then Inr False
               else Inl (CommandFailed (failureText signal_name values binary out))
           | _ \<Rightarrow> Inl (CommandFailed (failureText signal_name values binary out))))"

subsection \<open>Lemmas: the tail window\<close>

definition last_n :: "nat \<Rightarrow> 'a list \<Rightarrow> 'a list" where
  "last_n k xs = drop (length xs - k) xs"

text \<open>The bytes a window holds, oldest first; the offset is in use only when the buffer is full.\<close>

definition window :: "tail_window \<Rightarrow> string" where
  "window w = drop (tw_Next w) (tw_Buf w) @ take (tw_Next w) (tw_Buf w)"

definition window_ok :: "tail_window \<Rightarrow> bool" where
  "window_ok w \<longleftrightarrow> length (tw_Buf w) \<le> tailLimit \<and> tw_Next w < tailLimit \<and> (length (tw_Buf w) < tailLimit \<longrightarrow> tw_Next w = 0)"

lemma tailLimit_pos: "0 < tailLimit"
  by (simp add: tailLimit_def)

lemma window_bytes_window: "window_bytes w = window w"
  by (simp add: window_bytes_def window_def)

lemma last_n_append: "last_n k (last_n k xs @ ys) = last_n k (xs @ ys)"
  by (cases "k \<le> length xs") (simp_all add: last_n_def add.commute)

lemma last_n_short: "length xs \<le> k \<Longrightarrow> last_n k xs = xs"
  by (simp add: last_n_def)

lemma last_n_long: "k \<le> length ys \<Longrightarrow> last_n k (xs @ ys) = last_n k ys"
  by (simp add: last_n_def)

lemma ring_copy_window:
  assumes "window_ok w" "length (tw_Buf w) = tailLimit"
  shows "window_ok (ring_copy p w) \<and> length (tw_Buf (ring_copy p w)) = tailLimit \<and>
    window (ring_copy p w) = last_n tailLimit (window w @ p)"
  using assms
proof (induction p w rule: ring_copy.induct)
  case (1 p w)
  let ?n = "min (length (tw_Buf w) - tw_Next w) (length p)"
  let ?w = "\<lparr>tw_Buf = take (tw_Next w) (tw_Buf w) @ take ?n p @ drop (tw_Next w + ?n) (tw_Buf w),
    tw_Next = (tw_Next w + ?n) mod tailLimit\<rparr>"
  have below: "tw_Next w < tailLimit" and len: "length (window w) = tailLimit"
    using "1.prems" by (auto simp: window_ok_def window_def)
  show ?case
  proof (cases "?n = 0")
    case True
    then have "p = []" using "1.prems"(2) below by (simp add: min_def split: if_splits)
    with "1.prems" len show ?thesis by (simp add: ring_copy.simps [of _ w] last_n_short)
  next
    case False
    have n: "?n \<le> tailLimit - tw_Next w" "?n \<le> length p" "tw_Next w + ?n \<le> tailLimit" using "1.prems"(2) below by auto
    have len': "length (tw_Buf ?w) = tailLimit" using "1.prems"(2) n below by simp
    have ok': "window_ok ?w" using len' tailLimit_pos by (simp add: window_ok_def)
    have moved: "window ?w = drop ?n (window w) @ take ?n p"
    proof (cases "tw_Next w + ?n = tailLimit")
      case True
      then show ?thesis using "1.prems"(2) below by (simp add: window_def)
    next
      case False
      then have lt: "tw_Next w + ?n < tailLimit" using n by simp
      then show ?thesis using "1.prems"(2) n below by (simp add: window_def drop_append take_append add.commute)
    qed
    have rec: "ring_copy p w = ring_copy (drop ?n p) ?w"
      by (subst ring_copy.simps) (use False in \<open>simp only: Let_def if_False\<close>)
    have "window ?w @ drop ?n p = drop ?n (window w) @ p"
      unfolding moved by simp
    moreover have "last_n tailLimit (drop ?n (window w) @ p) = last_n tailLimit (window w @ p)"
      using n len by (simp add: last_n_def drop_append)
    ultimately show ?thesis using "1.IH" [OF refl False ok' len'] rec by simp
  qed
qed

lemma window_write_window:
  assumes "window_ok w"
  shows "window_ok (window_write p w) \<and> window (window_write p w) = last_n tailLimit (window w @ p)"
proof -
  define q where "q = (if tailLimit < length p then drop (length p - tailLimit) p else p)"
  define n where "n = min (tailLimit - length (tw_Buf w)) (length q)"
  let ?w = "w\<lparr>tw_Buf := tw_Buf w @ take n q\<rparr>"
  have q: "q = last_n tailLimit p" by (auto simp: q_def last_n_def)
  have written: "window_write p w = ring_copy (drop n q) ?w"
    by (simp add: window_write_def q_def n_def Let_def)
  have same: "last_n tailLimit (window w @ q) = last_n tailLimit (window w @ p)"
  proof (cases "tailLimit < length p")
    case True
    then have "tailLimit \<le> length q" by (simp add: q_def)
    then have "last_n tailLimit (window w @ q) = last_n tailLimit q" by (rule last_n_long)
    also have "... = last_n tailLimit (window w @ p)" using True by (simp add: q last_n_def)
    finally show ?thesis .
  qed (simp add: q_def)
  show ?thesis
  proof (cases "length (tw_Buf ?w) = tailLimit")
    case True
    have ok: "window_ok ?w" using assms True by (auto simp: window_ok_def)
    have "window ?w @ drop n q = window w @ q"
    proof (cases "length (tw_Buf w) < tailLimit")
      case True
      then have "tw_Next w = 0" using assms by (simp add: window_ok_def)
      then show ?thesis by (simp add: window_def)
    next
      case False
      then have "n = 0" by (simp add: n_def)
      then show ?thesis by (simp add: window_def)
    qed
    with ring_copy_window [OF ok True, of "drop n q"] same show ?thesis by (simp add: written)
  next
    case False
    then have all: "n = length q" "length (tw_Buf w) + length q < tailLimit"
      using assms by (auto simp: n_def window_ok_def min_def split: if_splits)
    then have z: "tw_Next w = 0" using assms by (simp add: window_ok_def)
    have "ring_copy (drop n q) ?w = ?w" using all(1) by (simp add: ring_copy.simps [of "[]"])
    moreover have "window ?w = window w @ q" "length (window w @ q) < tailLimit" using z all by (simp_all add: window_def)
    ultimately show ?thesis using same all z assms
      by (simp add: written last_n_short window_ok_def)
  qed
qed

lemma read_chunks_exact:
  assumes "window_ok w" "kept = take limit seen" "truncated \<longleftrightarrow> limit < length seen" "window w = last_n tailLimit (drop limit seen)"
  shows "read_chunks limit chunks kept truncated w =
    \<lparr>cp_Bytes = take limit (seen @ concat chunks), cp_Truncated = (limit < length (seen @ concat chunks)),
     cp_Tail = last_n tailLimit (drop limit (seen @ concat chunks))\<rparr>"
  using assms
proof (induction limit chunks kept truncated w arbitrary: seen rule: read_chunks.induct)
  case (1 limit kept truncated w)
  then show ?case by (simp add: window_bytes_window)
next
  case (2 limit buf bufs kept truncated w)
  define taken where "taken = min (length buf) (limit - length kept)"
  define w' where "w' = (if taken < length buf then window_write (drop taken buf) w else w)"
  have kept: "length kept = min limit (length seen)" using "2.prems"(2) by (simp add: min.commute)
  have dropped: "drop limit (seen @ buf) = drop limit seen @ drop taken buf"
    by (cases "limit \<le> length seen"; cases "length buf \<le> limit - length seen") (auto simp: taken_def kept)
  have "window_ok w' \<and> window w' = last_n tailLimit (drop limit (seen @ buf))"
  proof (cases "taken < length buf")
    case True
    with window_write_window [OF "2.prems"(1), of "drop taken buf"] "2.prems"(4) dropped show ?thesis
      by (simp add: w'_def last_n_append)
  next
    case False
    then have "drop taken buf = []" by simp
    with False dropped "2.prems" show ?thesis by (simp add: w'_def)
  qed
  moreover have "kept @ take taken buf = take limit (seen @ buf)"
    using "2.prems"(2) kept by (auto simp: taken_def min_def)
  moreover have "(truncated \<or> taken < length buf) \<longleftrightarrow> limit < length (seen @ buf)"
    using "2.prems"(3) kept by (auto simp: taken_def)
  ultimately have "read_chunks limit bufs (kept @ take taken buf) (truncated \<or> taken < length buf) w' =
    \<lparr>cp_Bytes = take limit ((seen @ buf) @ concat bufs), cp_Truncated = (limit < length ((seen @ buf) @ concat bufs)),
     cp_Tail = last_n tailLimit (drop limit ((seen @ buf) @ concat bufs))\<rparr>"
    by (intro "2.IH" [unfolded taken_def [symmetric] Let_def, of "length buf" taken, folded w'_def]) (auto simp: taken_def w'_def)
  moreover have "read_chunks limit (buf # bufs) kept truncated w =
      read_chunks limit bufs (kept @ take taken buf) (truncated \<or> taken < length buf) w'"
    by (simp only: read_chunks.simps Let_def w'_def taken_def)
  ultimately show ?case by simp
qed

subsection \<open>Lemmas: runes and their bytes\<close>

text \<open>A rune that is not an encoding error.\<close>

abbreviation good_rune :: "string \<Rightarrow> bool" where
  "good_rune s \<equiv> s \<noteq> [] \<and> \<not> (fst (decode_rune s) = rune_error \<and> snd (decode_rune s) = 1)"

definition second_ok3 :: "nat \<Rightarrow> nat \<Rightarrow> bool" where
  "second_ok3 b0 b1 \<longleftrightarrow> (if b0 = 224 then 160 else 128) \<le> b1 \<and> b1 \<le> (if b0 = 237 then 159 else 191)"

definition second_ok4 :: "nat \<Rightarrow> nat \<Rightarrow> bool" where
  "second_ok4 b0 b1 \<longleftrightarrow> (if b0 = 240 then 144 else 128) \<le> b1 \<and> b1 \<le> (if b0 = 244 then 143 else 191)"

lemma decode_rune1: "byte a < 128 \<Longrightarrow> decode_rune (a # t) = (byte a, 1)"
  by (simp add: decode_rune_def)

lemma decode_rune2:
  "\<not> byte a < 194 \<Longrightarrow> byte a < 224 \<Longrightarrow> cont_byte (byte b) \<Longrightarrow>
   decode_rune (a # b # t) = ((byte a - 192) * 64 + (byte b - 128), 2)"
  by (simp add: decode_rune_def)

lemma decode_rune3:
  "\<not> byte a < 224 \<Longrightarrow> byte a < 240 \<Longrightarrow> second_ok3 (byte a) (byte b) \<Longrightarrow> cont_byte (byte c) \<Longrightarrow>
   decode_rune (a # b # c # t) = ((byte a - 224) * 4096 + (byte b - 128) * 64 + (byte c - 128), 3)"
  by (simp add: decode_rune_def second_ok3_def)

lemma decode_rune4:
  "\<not> byte a < 240 \<Longrightarrow> byte a \<le> 244 \<Longrightarrow> second_ok4 (byte a) (byte b) \<Longrightarrow> cont_byte (byte c) \<Longrightarrow> cont_byte (byte d) \<Longrightarrow>
   decode_rune (a # b # c # d # t) =
     ((byte a - 240) * 262144 + (byte b - 128) * 4096 + (byte c - 128) * 64 + (byte d - 128), 4)"
  by (simp add: decode_rune_def second_ok4_def)

lemmas decode_rune_shapes = decode_rune1 decode_rune2 decode_rune3 decode_rune4

lemma good_rune_cases:
  assumes "good_rune s"
  obtains a t where "s = a # t" "byte a < 128"
  | a b t where "s = a # b # t" "\<not> byte a < 194" "byte a < 224" "cont_byte (byte b)"
  | a b c t where "s = a # b # c # t" "\<not> byte a < 224" "byte a < 240" "second_ok3 (byte a) (byte b)" "cont_byte (byte c)"
  | a b c d t where "s = a # b # c # d # t" "\<not> byte a < 240" "byte a \<le> 244" "second_ok4 (byte a) (byte b)"
      "cont_byte (byte c)" "cont_byte (byte d)"
proof -
  have no: "decode_rune s \<noteq> (rune_error, 1)" using assms by auto
  obtain a t where s: "s = a # t" using assms by (cases s) auto
  consider "byte a < 128" | "\<not> byte a < 128" "byte a < 194" | "\<not> byte a < 194" "byte a < 224" | "\<not> byte a < 224" "byte a < 240"
    | "\<not> byte a < 240" "byte a \<le> 244" | "244 < byte a" by linarith
  then show ?thesis
  proof cases
    case 1
    then show ?thesis using that(1) s by blast
  next
    case 2
    then have "decode_rune s = (rune_error, 1)" by (simp add: s decode_rune_def)
    with no show ?thesis ..
  next
    case 3
    then have "decode_rune s = (rune_error, 1)" if "t = [] \<or> \<not> cont_byte (byte (hd t))"
      using that by (cases t) (auto simp: s decode_rune_def)
    with no have "t \<noteq> []" "cont_byte (byte (hd t))" by auto
    then show ?thesis using that(2) [of a "hd t" "tl t"] 3 s by simp
  next
    case 4
    then have "decode_rune s = (rune_error, 1)"
      if "t = [] \<or> tl t = [] \<or> \<not> second_ok3 (byte a) (byte (hd t)) \<or> \<not> cont_byte (byte (hd (tl t)))"
      using that by (cases t; cases "tl t") (auto simp: s decode_rune_def second_ok3_def)
    with no have "t \<noteq> []" "tl t \<noteq> []" "second_ok3 (byte a) (byte (hd t))" "cont_byte (byte (hd (tl t)))" by auto
    then show ?thesis using that(3) [of a "hd t" "hd (tl t)" "tl (tl t)"] 4 s by simp
  next
    case 5
    then have "decode_rune s = (rune_error, 1)"
      if "t = [] \<or> tl t = [] \<or> tl (tl t) = [] \<or> \<not> second_ok4 (byte a) (byte (hd t)) \<or> \<not> cont_byte (byte (hd (tl t))) \<or>
        \<not> cont_byte (byte (hd (tl (tl t))))"
      using that by (cases t; cases "tl t"; cases "tl (tl t)") (auto simp: s decode_rune_def second_ok4_def)
    with no have "t \<noteq> []" "tl t \<noteq> []" "tl (tl t) \<noteq> []" "second_ok4 (byte a) (byte (hd t))" "cont_byte (byte (hd (tl t)))"
      "cont_byte (byte (hd (tl (tl t))))" by auto
    then show ?thesis using that(4) [of a "hd t" "hd (tl t)" "hd (tl (tl t))" "tl (tl (tl t))"] 5 s by simp
  next
    case 6
    then have "decode_rune s = (rune_error, 1)" by (simp add: s decode_rune_def)
    with no show ?thesis ..
  qed
qed

text \<open>A good rune is read back from its bytes alone, and encodes to them.\<close>

lemma decode_rune_take: "good_rune s \<Longrightarrow> decode_rune (take (snd (decode_rune s)) s @ t) = decode_rune s"
  by (erule good_rune_cases) (simp_all add: decode_rune_shapes)

lemma digits64:
  fixes p q s u :: nat
  assumes "q < 64" "s < 64"
  shows "r = (p * 64 + q) * 64 + s \<Longrightarrow> r div 4096 = p \<and> r div 64 mod 64 = q \<and> r mod 64 = s"
    and "u < 64 \<Longrightarrow> r = ((p * 64 + q) * 64 + s) * 64 + u \<Longrightarrow>
      r div 262144 = p \<and> r div 4096 mod 64 = q \<and> r div 64 mod 64 = s \<and> r mod 64 = u"
proof -
  have split: "n div 4096 = n div 64 div 64" "n div 262144 = n div 64 div 64 div 64" for n :: nat
    by (simp_all flip: div_mult2_eq)
  have one: "(n * 64 + d) div 64 = n" "(n * 64 + d) mod 64 = d" if "d < 64" for n d :: nat
    using that by simp_all
  show "r = (p * 64 + q) * 64 + s \<Longrightarrow> r div 4096 = p \<and> r div 64 mod 64 = q \<and> r mod 64 = s"
    by (simp only: split one assms)
  show "u < 64 \<Longrightarrow> r = ((p * 64 + q) * 64 + s) * 64 + u \<Longrightarrow>
      r div 262144 = p \<and> r div 4096 mod 64 = q \<and> r div 64 mod 64 = s \<and> r mod 64 = u"
    by (simp only: split one assms)
qed

lemma encode_decode_rune:
  assumes "good_rune s"
  shows "encode_rune (fst (decode_rune s)) = take (snd (decode_rune s)) s"
  using assms
proof (cases rule: good_rune_cases)
  case (1 a t)
  then show ?thesis by (simp add: decode_rune1 encode_rune_ascii)
next
  case (2 a b t)
  define x y where "x = byte a" and "y = byte b"
  have b: "194 \<le> x" "x < 224" "128 \<le> y" "y \<le> 191" using 2 by (auto simp: cont_byte_def x_def y_def)
  define r where "r = (x - 192) * 64 + (y - 128)"
  have "128 \<le> r" "r < 2048" "192 + r div 64 = x" using b by (auto simp: r_def)
  moreover obtain q where "y = 128 + q" "q < 64" using b(3,4) by (auto simp: le_iff_add)
  then have "128 + r mod 64 = y" by (simp add: r_def)
  ultimately have "encode_rune r = [char_of x, char_of y]" by (simp add: encode_rune_def)
  with 2 show ?thesis by (simp add: decode_rune2 r_def x_def y_def)
next
  case (3 a b c t)
  define x y z where "x = byte a" and "y = byte b" and "z = byte c"
  have b: "224 \<le> x" "x < 240" "128 \<le> y" "y \<le> 191" "128 \<le> z" "z \<le> 191" "x = 224 \<Longrightarrow> 160 \<le> y" "x = 237 \<Longrightarrow> y \<le> 159"
    using 3 by (auto simp: cont_byte_def second_ok3_def x_def y_def z_def split: if_splits)
  define r where "r = (x - 224) * 4096 + (y - 128) * 64 + (z - 128)"
  have "2048 \<le> r" using b by (cases "x = 224") (auto simp: r_def)
  moreover have "\<not> (55296 \<le> r \<and> r \<le> 57343)"
  proof (cases "x \<le> 236")
    case False
    then show ?thesis using b by (cases "x = 237") (auto simp: r_def)
  qed (use b in \<open>auto simp: r_def\<close>)
  moreover have "r = ((x - 224) * 64 + (y - 128)) * 64 + (z - 128)" by (simp add: r_def algebra_simps)
  from digits64(1) [OF _ _ this] have "224 + r div 4096 = x" "128 + r div 64 mod 64 = y" "128 + r mod 64 = z" using b by auto
  moreover have "r < 65536" using b by (auto simp: r_def)
  ultimately have "encode_rune r = [char_of x, char_of y, char_of z]" by (auto simp: encode_rune_def)
  with 3 show ?thesis by (simp add: decode_rune3 r_def x_def y_def z_def)
next
  case (4 a b c d t)
  define x y z w where "x = byte a" and "y = byte b" and "z = byte c" and "w = byte d"
  have b: "240 \<le> x" "x \<le> 244" "128 \<le> y" "y \<le> 191" "128 \<le> z" "z \<le> 191" "128 \<le> w" "w \<le> 191" "x = 240 \<Longrightarrow> 144 \<le> y" "x = 244 \<Longrightarrow> y \<le> 143"
    using 4 by (auto simp: cont_byte_def second_ok4_def x_def y_def z_def w_def split: if_splits)
  define r where "r = (x - 240) * 262144 + (y - 128) * 4096 + (z - 128) * 64 + (w - 128)"
  have "65536 \<le> r" using b by (cases "x = 240") (auto simp: r_def)
  moreover have "r \<le> 1114111" using b by (cases "x = 244") (auto simp: r_def)
  moreover have "r = (((x - 240) * 64 + (y - 128)) * 64 + (z - 128)) * 64 + (w - 128)" by (simp add: r_def algebra_simps)
  from digits64(2) [OF _ _ _ this] have "240 + r div 262144 = x" "128 + r div 4096 mod 64 = y" "128 + r div 64 mod 64 = z"
    "128 + r mod 64 = w" using b by auto
  ultimately have "encode_rune r = [char_of x, char_of y, char_of z, char_of w]" by (simp add: encode_rune_def)
  with 4 show ?thesis by (simp add: decode_rune4 r_def x_def y_def z_def w_def)
qed

subsection \<open>Lemmas: reading visible text\<close>

definition hex_value_upper :: "char \<Rightarrow> nat" where
  "hex_value_upper c = (if byte c < 58 then byte c - 48 else byte c - 55)"

definition hex_number :: "string \<Rightarrow> nat" where
  "hex_number s = foldl (\<lambda>n c. 16 * n + hex_value_upper c) 0 s"

lemma hex_upper_value: "d < 16 \<Longrightarrow> hex_value_upper (hex_upper d) = d"
  and hex_upper_ascii: "d < 16 \<Longrightarrow> byte (hex_upper d) < 128"
  by (auto simp: hex_value_upper_def hex_upper_def)

lemma show_hex_number: "hex_number (show_hex_upper w n) = n"
proof (induction w n rule: show_hex_upper.induct)
  case (1 w n)
  show ?case
  proof (cases "n < 16 \<and> w \<le> 1")
    case True
    then show ?thesis by (simp add: show_hex_upper.simps [of w n] hex_number_def hex_upper_value)
  next
    case False
    have "hex_number (show_hex_upper w n) = 16 * hex_number (show_hex_upper (w - 1) (n div 16)) + n mod 16"
      by (subst show_hex_upper.simps, subst if_not_P [OF False]) (simp add: hex_number_def hex_upper_value)
    with 1 [OF False] show ?thesis by simp
  qed
qed

lemma show_hex_ascii: "c \<in> set (show_hex_upper w n) \<Longrightarrow> byte c < 128"
proof (induction w n rule: show_hex_upper.induct)
  case (1 w n)
  then show ?case
    by (cases "n < 16 \<and> w \<le> 1") (auto simp: show_hex_upper.simps [of w n] hex_upper_ascii split: if_splits)
qed

text \<open>How a reader undoes the escapes: an opening bracket starts one, every other rune stands for itself.\<close>

function unescape :: "string \<Rightarrow> string" where
  "unescape s =
     (if s = [] then []
      else let (r, n) = decode_rune s in
        if r = 10214
        then let body = takeWhile (\<lambda>c. byte c < 128) (drop 3 s); rest = drop (6 + length body) s in
          (if take 1 body = ''x'' then [char_of (hex_number (drop 1 body))] else encode_rune (hex_number (drop 2 body))) @
          unescape rest
        else take n s @ unescape (drop n s))"
  by pat_completeness auto
termination
proof (relation "measure length")
  fix s :: string and x r n
  assume "s \<noteq> []" "x = decode_rune s" "(r, n) = x"
  then show "(drop n s, s) \<in> measure length"
    using decode_rune_width [of s] by (auto simp: prod_eq_iff)
qed auto

declare unescape.simps [simp del]

lemma decode_open: "decode_rune (open_escape @ t) = (10214, 3)"
  by (simp add: open_escape_def decode_rune3 second_ok3_def cont_byte_def)

lemma unescape_escape:
  assumes "\<forall>c \<in> set body. byte c < 128"
  shows "unescape (open_escape @ body @ close_escape @ t) =
    (if take 1 body = ''x'' then [char_of (hex_number (drop 1 body))] else encode_rune (hex_number (drop 2 body))) @ unescape t"
proof -
  have len: "length open_escape = 3" "length close_escape = 3" by (simp_all add: open_escape_def close_escape_def)
  have "takeWhile (\<lambda>c. byte c < 128) (body @ close_escape @ t) = body"
    using assms by (subst takeWhile_append2) (auto simp: close_escape_def)
  moreover have "drop 3 (open_escape @ body @ close_escape @ t) = body @ close_escape @ t" by (simp add: len)
  moreover have "drop (6 + length body) (open_escape @ body @ close_escape @ t) = t" by (simp add: len)
  moreover have "open_escape \<noteq> []" by (simp add: open_escape_def)
  ultimately show ?thesis by (subst unescape.simps) (simp add: decode_open Let_def)
qed

lemma unescape_rune:
  assumes "good_rune s" "fst (decode_rune s) \<noteq> 10214"
  shows "unescape (take (snd (decode_rune s)) s @ t) = take (snd (decode_rune s)) s @ unescape t"
proof -
  obtain r n where rn: "decode_rune s = (r, n)" by (cases "decode_rune s")
  have "n \<le> length s" "1 \<le> n" using decode_rune_width_le [of s] decode_rune_width [of s] assms(1) rn by auto
  moreover have "decode_rune (take n s @ t) = (r, n)" using decode_rune_take [OF assms(1), of t] rn by simp
  ultimately show ?thesis using assms(1,2) rn by (subst unescape.simps) (auto simp: Let_def)
qed

lemma rune_prefix_ascii: "decode_rune s = (r, n) \<Longrightarrow> r < 128 \<Longrightarrow> s \<noteq> [] \<Longrightarrow> good_rune s"
  by (simp add: rune_error_def)

lemma unescape_piece:
  assumes "raw \<noteq> []"
  shows "unescape (visible_piece invisible raw @ t) = take (snd (decode_rune raw)) raw @ unescape t"
proof -
  obtain r n where rn: "decode_rune raw = (r, n)" by (cases "decode_rune raw")
  show ?thesis
  proof (cases "r = rune_error \<and> n = 1")
    case True
    then have piece: "visible_piece invisible raw = open_escape @ (''x'' @ show_hex_upper 2 (byte (raw ! 0))) @ close_escape"
      by (simp add: visible_piece_def rn rune_error_def)
    have "take 1 raw = [raw ! 0]" using assms by (cases raw) auto
    moreover have "unescape (open_escape @ (''x'' @ show_hex_upper 2 (byte (raw ! 0))) @ close_escape @ t) = [raw ! 0] @ unescape t"
      by (subst unescape_escape) (auto simp: show_hex_number dest: show_hex_ascii)
    ultimately show ?thesis using True rn piece by simp
  next
    case False
    then have good: "good_rune raw" using assms rn by simp
    show ?thesis
    proof (cases "visible_piece invisible raw = take n raw \<and> r \<noteq> 10214")
      case True
      then show ?thesis using unescape_rune [OF good] rn by simp
    next
      case other: False
      define plain where "plain \<longleftrightarrow> (32 \<le> r \<and> r < 127) \<or> r = 9 \<or> r = 10 \<or> (r = 13 \<and> 1 < length raw \<and> byte (raw ! 1) = 10)"
      define escaped where "escaped \<longleftrightarrow> r = 10214 \<or> is_control r \<or> invisible r"
      have "visible_piece invisible raw = (if plain then take n raw else if escaped
          then open_escape @ ''U+'' @ show_hex_upper 4 r @ close_escape else take n raw)"
        unfolding visible_piece_def rn plain_def escaped_def Let_def prod.case if_not_P [OF False] ..
      moreover have "plain \<Longrightarrow> r \<noteq> 10214" "\<not> escaped \<Longrightarrow> r \<noteq> 10214" by (auto simp: plain_def escaped_def)
      ultimately have piece: "visible_piece invisible raw = open_escape @ (''U+'' @ show_hex_upper 4 r) @ close_escape"
        using other by (simp split: if_splits)
      have "unescape (open_escape @ (''U+'' @ show_hex_upper 4 r) @ close_escape @ t) = encode_rune r @ unescape t"
        by (subst unescape_escape) (auto simp: show_hex_number dest: show_hex_ascii)
      then show ?thesis using encode_decode_rune [OF good] rn piece by simp
    qed
  qed
qed

lemma visible_loop_reads:
  "visible_loop invisible limit raw out = (shown, True) \<Longrightarrow> \<exists>rest. shown = out @ rest \<and> unescape rest = raw"
proof (induction invisible limit raw out rule: visible_loop.induct)
  case (1 invisible limit raw out)
  show ?case
  proof (cases "raw = []")
    case True
    with 1 show ?thesis by (simp add: visible_loop.simps [of _ _ "[]"] unescape.simps [of "[]"])
  next
    case False
    let ?piece = "visible_piece invisible raw"
    have fits: "\<not> limit < int (length out + length ?piece)"
      and more: "visible_loop invisible limit (drop (snd (decode_rune raw)) raw) (out @ ?piece) = (shown, True)"
      using "1.prems" False by (simp_all add: visible_loop.simps [of _ _ raw] Let_def split: if_splits)
    from "1.IH" [OF False refl fits more] obtain rest where rest: "shown = (out @ ?piece) @ rest"
      "unescape rest = drop (snd (decode_rune raw)) raw" by blast
    have "unescape (?piece @ rest) = raw" using unescape_piece [OF False] rest(2) by simp
    with rest(1) show ?thesis by auto
  qed
qed

lemma visible_loop_bound: "int (length out) \<le> limit \<Longrightarrow> int (length (fst (visible_loop invisible limit raw out))) \<le> limit"
proof (induction invisible limit raw out rule: visible_loop.induct)
  case (1 invisible limit raw out)
  then show ?case by (subst visible_loop.simps) (auto simp: Let_def)
qed

section \<open>Properties\<close>

text \<open>C22: A bounded read keeps exactly the first \<open>limit\<close> bytes of a stream, reports a cut exactly when there was more,
  and the ring buffer behind it then holds exactly the last 64 KiB of what followed, however the stream was
  split into reads.\<close>

theorem bounded_read_exact:
  "boundedRead limit chunks =
     \<lparr>cp_Bytes = take limit (concat chunks), cp_Truncated = (limit < length (concat chunks)),
      cp_Tail = last_n tailLimit (drop limit (concat chunks))\<rparr>"
  unfolding boundedRead_def
  by (subst read_chunks_exact [where seen = "[]"])
    (simp_all add: window_ok_def window_def last_n_def tailLimit_def)

text \<open>C23: Text shown to a reviewer never reads differently than the bytes it stands for: it respects its bound, and
  when it is complete, undoing its escapes gives back the raw output byte for byte. Two outputs that differ
  are therefore never shown alike.\<close>

theorem visible_text_faithful:
  "0 \<le> limit \<Longrightarrow> int (length (fst (visible invisible raw limit))) \<le> limit \<and>
     (snd (visible invisible raw limit) \<longrightarrow> unescape (fst (visible invisible raw limit)) = raw)"
  using visible_loop_bound [of "[]" limit invisible raw] visible_loop_reads [of invisible limit raw "[]"]
  by (auto simp: visible_def) (metis prod.collapse append_Nil)

theorem visible_text_faithful_witness:
  "int (length (fst (visible (\<lambda>r. False) ''ok'' 8))) \<le> 8 \<and> unescape (fst (visible (\<lambda>r. False) ''ok'' 8)) = ''ok''"
proof -
  have "visible (\<lambda>r. False) ''ok'' 8 = (''ok'', True)"
    by (simp add: visible_def visible_loop.simps visible_piece_def decode_rune1)
  then show ?thesis using visible_text_faithful [of 8 "\<lambda>r. False" "''ok''"] by simp
qed

end
