(* ===== verification/Engine_Evidence.thy ===== *)
theory Engine_Evidence
  imports Process_Capture Engine_State
begin

text \<open>
  The evidence the engine keeps of its commands and shows to its reviewers: \<open>bound\<close>, \<open>evidenceText\<close> of
  \<open>internal/engine/verification.go\<close> and the trusted change set of \<open>review.go\<close>, on the captures of \<open>Process_Capture\<close>. Git is
  the parameter \<open>git\<close>, the capture of one \<open>git diff\<close> by its arguments: the commits it compares never change. The lemmas bound
  the evidence and show that a change set accounts for every changed file.
\<close>

subsection \<open>Package strconv\<close>

definition ascii_digit :: "char \<Rightarrow> bool" where
  "ascii_digit c \<longleftrightarrow> 48 \<le> byte c \<and> byte c \<le> 57"

definition max_int :: int where
  "max_int = 2 ^ 63 - 1"

text \<open>\<open>Atoi\<close> of a field that is a dash or all digits: its value and whether it failed. A number out of range fails
  with the largest integer.\<close>

definition Atoi :: "string \<Rightarrow> int \<times> bool" where
  "Atoi s =
     (if s = [] \<or> \<not> list_all ascii_digit s then (0, True)
      else let n = int (foldl (\<lambda>n c. 10 * n + (byte c - 48)) 0 s) in if max_int < n then (max_int, True) else (n, False))"

definition wrap_int :: "int \<Rightarrow> int" where
  "wrap_int i = (i + 2 ^ 63) mod 2 ^ 64 - 2 ^ 63"

definition hex_char :: "char \<Rightarrow> nat option" where
  "hex_char c =
     (if ascii_digit c then Some (byte c - 48)
      else if 97 \<le> byte c \<and> byte c \<le> 102 then Some (byte c - 87)
      else if 65 \<le> byte c \<and> byte c \<le> 70 then Some (byte c - 55) else None)"

fun digits_value :: "nat \<Rightarrow> (char \<Rightarrow> nat option) \<Rightarrow> nat \<Rightarrow> nat \<Rightarrow> string \<Rightarrow> (nat \<times> string) option" where
  "digits_value base dig 0 acc s = Some (acc, s)"
| "digits_value base dig (Suc n) acc s =
     (case s of [] \<Rightarrow> None
      | c # cs \<Rightarrow> (case dig c of None \<Rightarrow> None | Some d \<Rightarrow> digits_value base dig n (acc * base + d) cs))"

definition octal_char :: "char \<Rightarrow> nat option" where
  "octal_char c = (if 48 \<le> byte c \<and> byte c \<le> 55 then Some (byte c - 48) else None)"

definition simple_escape :: "char \<Rightarrow> nat option" where
  "simple_escape c = map_of [(CHR ''a'', 7), (CHR ''b'', 8), (CHR ''f'', 12), (CHR ''n'', 10), (CHR ''r'', 13), (CHR ''t'', 9),
     (CHR ''v'', 11), (char_of (92 :: nat), 92), (char_of (34 :: nat), 34)] c"

definition valid_rune :: "nat \<Rightarrow> bool" where
  "valid_rune r \<longleftrightarrow> r \<le> 1114111 \<and> \<not> (55296 \<le> r \<and> r \<le> 57343)"

text \<open>\<open>UnquoteChar\<close> within double quotes: the bytes of the first character and the rest.\<close>

fun unquote_char :: "string \<Rightarrow> (string \<times> string) option" where
  "unquote_char [] = None"
| "unquote_char (c # cs) =
     (if byte c = 34 \<or> byte c = 10 then None
      else if 128 \<le> byte c then
        (let (r, n) = decode_rune (c # cs) in Some (encode_rune r, drop n (c # cs)))
      else if byte c \<noteq> 92 then Some ([c], cs)
      else case cs of
        [] \<Rightarrow> None
      | e # es \<Rightarrow>
          (case simple_escape e of
             Some b \<Rightarrow> Some ([char_of b], es)
           | None \<Rightarrow>
               if e = CHR ''x'' then map_option (\<lambda>(v, s). ([char_of v], s)) (digits_value 16 hex_char 2 0 es)
               else if e = CHR ''u'' \<or> e = CHR ''U'' then
                 (case digits_value 16 hex_char (if e = CHR ''u'' then 4 else 8) 0 es of
                    Some (v, s) \<Rightarrow> if valid_rune v then Some (encode_rune v, s) else None
                  | None \<Rightarrow> None)
               else if octal_char e \<noteq> None then
                 (case digits_value 8 octal_char 3 0 cs of
                    Some (v, s) \<Rightarrow> if v \<le> 255 then Some ([char_of v], s) else None
                  | None \<Rightarrow> None)
               else None))"

text \<open>The loop of \<open>Unquote\<close> after the opening quote. Every character takes at least one byte of the text, so the length
  of the text is enough fuel.\<close>

fun unquote_loop :: "nat \<Rightarrow> string \<Rightarrow> string option" where
  "unquote_loop 0 s = None"
| "unquote_loop (Suc fuel) s =
     (case s of
        [] \<Rightarrow> None
      | c # cs \<Rightarrow>
          if byte c = 34 then (if cs = [] then Some [] else None)
          else (case unquote_char s of
             None \<Rightarrow> None
           | Some (out, rest) \<Rightarrow> map_option (\<lambda>t. out @ t) (unquote_loop fuel rest)))"

definition Unquote :: "string \<Rightarrow> string option" where
  "Unquote s = (case s of c # cs \<Rightarrow> if byte c = 34 then unquote_loop (length s) cs else None | [] \<Rightarrow> None)"

subsection \<open>Bounded evidence\<close>

definition outputLimit :: int where
  "outputLimit = 16384"

definition noteLimit :: int where
  "noteLimit = 4096"

definition outputMarker :: string where
  "outputMarker = ''[output truncated]''"

text \<open>\<open>utf8.RuneStart\<close>. A text is cut at the first rune boundary at or after an offset, or the last at or before it.\<close>

fun skip_to_rune :: "string \<Rightarrow> string" where
  "skip_to_rune [] = []"
| "skip_to_rune (c # cs) = (if cont_byte (byte c) then skip_to_rune cs else c # cs)"

fun back_to_rune :: "string \<Rightarrow> nat \<Rightarrow> nat" where
  "back_to_rune s 0 = 0"
| "back_to_rune s (Suc k) = (if cont_byte (byte (s ! Suc k)) then back_to_rune s k else Suc k)"

text \<open>A limit that keeps the head is not negative.\<close>

definition bound :: "string \<Rightarrow> int \<Rightarrow> bool \<Rightarrow> string \<times> bool" where
  "bound s limit keepTail =
     (if int (length s) \<le> limit then (s, False)
      else if keepTail then
        (let pre = outputMarker @ newline; start = length s - nat (max (limit - int (length pre)) 0)
         in (pre @ skip_to_rune (drop start s), True))
      else
        (let suf = newline @ outputMarker in
         if limit < int (length suf) then (take (nat limit) suf, True)
         else (take (back_to_rune s (nat (limit - int (length suf)))) s @ suf, True)))"

text \<open>A failed capture: its text, the reasons it wraps and whether the sandbox, not the command, failed
  (\<open>sandbox.Infrastructure\<close>).\<close>

record capture_error =
  ce_Text :: string
  ce_Tree :: error_tree
  ce_Infrastructure :: bool

record check_outcome =
  co_Result :: "(capture_error, process_output) result"
  co_Intact :: bool
  co_IntactErr :: "cause option"
  co_Sandbox :: "sandbox_record option"

definition outcome_failed :: "check_outcome \<Rightarrow> bool" where
  "outcome_failed out = (case co_Result out of Inl _ \<Rightarrow> True | Inr c \<Rightarrow> \<not> Process_Success (po_Status c))"

definition sandboxFailed :: "check_outcome \<Rightarrow> bool" where
  "sandboxFailed out = (case co_Result out of Inl err \<Rightarrow> ce_Infrastructure err | Inr _ \<Rightarrow> False)"

definition tail_text :: "string \<Rightarrow> int \<Rightarrow> string" where
  "tail_text s limit = fst (bound s limit True)"

definition clean_stream :: "safe_capture \<Rightarrow> string" where
  "clean_stream stream =
     (let s = trim_space (sc_Head stream) in
      if \<not> sc_Truncated stream then s
      else let tail = trim_space (sc_Tail stream) in
        s @ newline @ outputMarker @ (if tail \<noteq> [] then newline @ tail else []))"

definition stderr_separator :: string where
  "stderr_separator = newline @ ''[stderr]'' @ newline"

definition status_text :: "(nat \<Rightarrow> string) \<Rightarrow> process_output \<Rightarrow> string" where
  "status_text signal_name out =
     (if Process_Success (po_Status out) then [] else newline @ Process_String signal_name (po_Status out))"

definition evidenceText :: "(nat \<Rightarrow> string) \<Rightarrow> string list \<Rightarrow> check_outcome \<Rightarrow> int \<Rightarrow> string" where
  "evidenceText signal_name values out limit =
     (case co_Result out of
        Inl err \<Rightarrow> tail_text (Secrets values (ce_Text err)) limit
      | Inr c \<Rightarrow>
          let (stdoutCapture, stderrCapture) = SafeCaptures values c;
              status = status_text signal_name c;
              stdout = clean_stream stdoutCapture;
              errText = clean_stream stderrCapture;
              budget = max (limit div 2) (limit - int (length stderr_separator) - int (length stdout) - int (length status));
              stderr = (if errText \<noteq> [] then stderr_separator @ tail_text errText budget else [])
          in tail_text stdout (limit - int (length stderr) - int (length status)) @ stderr @ status)"

subsection \<open>The change set of a revision\<close>

definition reviewListLimit :: int where
  "reviewListLimit = 32 * 1024"

definition reviewDiffLimit :: int where
  "reviewDiffLimit = 64 * 1024"

record change_set =
  cs_totals :: string
  cs_files :: string
  cs_diff :: string
  cs_omitted :: "string list"

record changed_file =
  cf_listed :: string
  cf_path :: string
  cf_lines :: int

text \<open>The expression \<open>numstatLine\<close>: two counts, digits or a dash, each before a tab, and a path.\<close>

definition count_field :: "string \<Rightarrow> bool" where
  "count_field s \<longleftrightarrow> s = ''-'' \<or> s \<noteq> [] \<and> list_all ascii_digit s"

definition cut_tab :: "string \<Rightarrow> (string \<times> string) option" where
  "cut_tab s = (let n = length (takeWhile (\<lambda>c. byte c \<noteq> 9) s) in if n < length s then Some (take n s, drop (Suc n) s) else None)"

definition numstatLine :: "string \<Rightarrow> (string \<times> string \<times> string) option" where
  "numstatLine line =
     (case cut_tab line of
        None \<Rightarrow> None
      | Some (added, rest) \<Rightarrow>
          (case cut_tab rest of
             None \<Rightarrow> None
           | Some (deleted, path) \<Rightarrow>
               if count_field added \<and> count_field deleted \<and> path \<noteq> [] then Some (added, deleted, path) else None))"

definition changed_file_of :: "string \<Rightarrow> changed_file option" where
  "changed_file_of line =
     (case numstatLine line of
        None \<Rightarrow> None
      | Some (added, deleted, listed) \<Rightarrow>
          (case (if has_prefix listed [char_of (34 :: nat)] then Unquote listed else Some listed) of
             None \<Rightarrow> None
           | Some path \<Rightarrow>
               let (a, bad) = Atoi added
               in Some \<lparr>cf_listed = listed, cf_path = path,
                    cf_lines = (if bad then max_int else wrap_int (a + fst (Atoi deleted)))\<rparr>))"

text \<open>The lines of a listing; one that is not a count is an error, told by the line.\<close>

fun changed_lines :: "string list \<Rightarrow> (string, changed_file list) result" where
  "changed_lines [] = Inr []"
| "changed_lines (line # lines) =
     (if line = [] \<or> has_prefix line '' '' then changed_lines lines
      else case changed_file_of line of
        None \<Rightarrow> Inl line
      | Some f \<Rightarrow> (case changed_lines lines of Inl bad \<Rightarrow> Inl bad | Inr fs \<Rightarrow> Inr (f # fs)))"

definition changedFiles :: "string \<Rightarrow> (string, changed_file list) result" where
  "changedFiles listing = changed_lines (split_on (char_of (10 :: nat)) listing)"

text \<open>The environment of a git read: the capture of one \<open>git diff\<close> by its arguments and the tables.\<close>

record git_reader =
  gr_Git :: "string list \<Rightarrow> (string, process_output) result"
  gr_Invisible :: "nat \<Rightarrow> bool"
  gr_SignalName :: "nat \<Rightarrow> string"
  gr_Secrets :: "string list"

definition DiffText :: "git_reader \<Rightarrow> string list \<Rightarrow> int \<Rightarrow> (run_error, string \<times> bool) result" where
  "DiffText g args limit = RunText (gr_Invisible g) (gr_SignalName g) (gr_Secrets g) ''git'' (gr_Git g args) limit"

datatype change_set_error = DiffFailed run_error | ListTooLong | BadLine string | NoDiff string

fun trim_right_newlines :: "string \<Rightarrow> string" where
  "trim_right_newlines s = rev (dropWhile (\<lambda>c. byte c = 10) (rev s))"

definition literal_path :: "string \<Rightarrow> string" where
  "literal_path p = '':(literal)'' @ p"

text \<open>The loop over the changed files, smallest first: the diffs shown, by position, within what remains.\<close>

fun show_smallest :: "git_reader \<Rightarrow> string \<Rightarrow> string \<Rightarrow> changed_file list \<Rightarrow> nat list \<Rightarrow> string list \<Rightarrow> int \<Rightarrow>
    (change_set_error, string list) result" where
  "show_smallest g base revision changed [] shown remaining = Inr shown"
| "show_smallest g base revision changed (i # is) shown remaining =
     (case DiffText g [base, revision, ''--'', literal_path (cf_path (changed ! i))] remaining of
        Inl err \<Rightarrow> Inl (DiffFailed err)
      | Inr (s, complete) \<Rightarrow>
          if \<not> complete then show_smallest g base revision changed is shown remaining
          else if s = [] then Inl (NoDiff (cf_listed (changed ! i)))
          else show_smallest g base revision changed is (shown[i := s]) (remaining - int (length s)))"

text \<open>The diffs of a listed change set: the whole diff when it fits, else the smallest ones.\<close>

definition embed_diffs :: "git_reader \<Rightarrow> string \<Rightarrow> string \<Rightarrow> changed_file list \<Rightarrow> change_set \<Rightarrow> (change_set_error, change_set) result" where
  "embed_diffs g base revision changed cset =
     (if length changed = 0 then Inr cset
      else case DiffText g [base, revision] reviewDiffLimit of
        Inl err \<Rightarrow> Inl (DiffFailed err)
      | Inr (whole, fits) \<Rightarrow>
          if fits then Inr (cset\<lparr>cs_diff := whole\<rparr>)
          else (case show_smallest g base revision changed (sort_key (\<lambda>i. cf_lines (changed ! i)) [0 ..< length changed])
                  (replicate (length changed) []) reviewDiffLimit of
             Inl err \<Rightarrow> Inl err
           | Inr shown \<Rightarrow>
               Inr (cset\<lparr>cs_omitted := map (\<lambda>(f, s). cf_listed f) (filter (\<lambda>(f, s). s = []) (zip changed shown)),
                 cs_diff := concat shown\<rparr>)))"

definition trustedChangeSet :: "git_reader \<Rightarrow> string \<Rightarrow> string \<Rightarrow> (change_set_error, change_set) result" where
  "trustedChangeSet g base revision =
     (case DiffText g [''--shortstat'', base, revision] reviewListLimit of
        Inl err \<Rightarrow> Inl (DiffFailed err)
      | Inr (totals, counted) \<Rightarrow>
          (case DiffText g [''--numstat'', ''--summary'', base, revision] (reviewListLimit - int (length totals)) of
             Inl err \<Rightarrow> Inl (DiffFailed err)
           | Inr (files, listed) \<Rightarrow>
               if \<not> counted \<or> \<not> listed then Inl ListTooLong
               else let cset = \<lparr>cs_totals = trim_space totals, cs_files = trim_right_newlines files, cs_diff = [], cs_omitted = []\<rparr> in
                 (case changedFiles (cs_files cset) of
                    Inl line \<Rightarrow> Inl (BadLine line)
                  | Inr changed \<Rightarrow> embed_diffs g base revision changed cset)))"

text \<open>Too long a listing wraps the invalid-review reason; \<open>describe\<close> is the redacted text of an error.\<close>

definition change_set_cause :: "(change_set_error \<Rightarrow> string) \<Rightarrow> change_set_error \<Rightarrow> cause" where
  "change_set_cause describe err =
     \<lparr>ca_Tree = (if err = ListTooLong then Wrap (Reason BlockedInvalidReview) else Plain), ca_Text = describe err, ca_Canceled = False\<rparr>"

subsection \<open>The evidence of a baseline command\<close>

definition commandOutput :: "(nat \<Rightarrow> string) \<Rightarrow> string list \<Rightarrow> check_outcome \<Rightarrow> string \<Rightarrow> int \<Rightarrow> string \<times> bool" where
  "commandOutput signal_name values out note limit =
     (let (body, captureTruncated) =
        (case co_Result out of
           Inl err \<Rightarrow> (ce_Text err, False)
         | Inr c \<Rightarrow>
             let (stdout, stderr) = SafeCaptures values c in
             (sc_Head stdout @ (if 0 < length (cp_Bytes (po_Stderr c)) then stderr_separator @ sc_Head stderr else []) @
              status_text signal_name c,
              cp_Truncated (po_Stdout c) \<or> cp_Truncated (po_Stderr c)));
          scrubbed = Secrets values (body @ note) @ (if captureTruncated then newline @ outputMarker else []);
          (output, was_cut) = bound scrubbed limit False
      in (output, was_cut \<or> captureTruncated))"

subsection \<open>Lemmas: bounds\<close>

lemma skip_to_rune_length: "length (skip_to_rune s) \<le> length s"
  by (induction s rule: skip_to_rune.induct) auto

lemma back_to_rune_le: "back_to_rune s k \<le> k"
  by (induction s k rule: back_to_rune.induct) auto

lemma marker_length: "length outputMarker = 18" "length newline = 1"
  by (simp_all add: outputMarker_def newline_def)

text \<open>A bounded text respects its limit, save that a tail never gets shorter than its marker.\<close>

lemma bound_tail_length: "int (length (tail_text s limit)) \<le> max limit 19"
proof -
  define k where "k = nat (max (limit - 19) 0)"
  have "length (skip_to_rune (drop (length s - k) s)) \<le> k"
    using skip_to_rune_length [of "drop (length s - k) s"] by simp
  then have "int (length (skip_to_rune (drop (length s - nat (max (limit - 19) 0)) s))) \<le> max (limit - 19) 0"
    unfolding k_def by linarith
  then show ?thesis by (auto simp: tail_text_def bound_def Let_def marker_length)
qed

lemma tail_text_short: "int (length s) \<le> limit \<Longrightarrow> tail_text s limit = s"
  by (simp add: tail_text_def bound_def)

lemma bound_head_length:
  assumes "0 \<le> limit"
  shows "int (length (fst (bound s limit False))) \<le> limit"
  using assms back_to_rune_le [of s "nat (limit - 19)"]
  by (auto simp: bound_def Let_def marker_length)

lemma separator_length: "length stderr_separator = 10"
  by (simp add: stderr_separator_def newline_def)

lemma streams_fit:
  fixes stdout errText status :: string and limit :: int
  defines "budget \<equiv> max (limit div 2) (limit - 10 - int (length stdout) - int (length status))"
  assumes limit: "58 + 2 * int (length status) \<le> limit"
  shows "int (length (tail_text stdout (limit - (10 + int (length (tail_text errText budget))) - int (length status)))) +
    (10 + int (length (tail_text errText budget))) + int (length status) \<le> limit"
proof (cases "limit - 10 - int (length stdout) - int (length status) \<le> limit div 2")
  case True
  then have "int (length (tail_text errText budget)) \<le> limit div 2"
    using bound_tail_length [of errText budget] limit by (simp add: budget_def)
  with limit show ?thesis
    using bound_tail_length [of stdout "limit - (10 + int (length (tail_text errText budget))) - int (length status)"] by simp
next
  case False
  then have "int (length (tail_text errText budget)) \<le> limit - 10 - int (length stdout) - int (length status)"
    using bound_tail_length [of errText budget] limit by (simp add: budget_def)
  then show ?thesis by (simp add: tail_text_short)
qed

lemma DiffText_bound:
  assumes "DiffText g args limit = Inr (s, complete)" "0 \<le> limit"
  shows "int (length s) \<le> limit"
proof -
  obtain out where "gr_Git g args = Inr out" using assms(1) by (auto simp: DiffText_def RunText_def split: sum.splits)
  with assms(1) have "s = fst (visible (gr_Invisible g) (cp_Bytes (po_Stdout out)) (min limit (int diagnosticLimit)))"
    by (auto simp: DiffText_def RunText_def split_def Let_def split: option.splits)
  moreover have "0 \<le> min limit (int diagnosticLimit)" using assms(2) by simp
  ultimately show ?thesis
    using visible_loop_bound [of "[]" "min limit (int diagnosticLimit)" "gr_Invisible g" "cp_Bytes (po_Stdout out)"]
    by (simp add: visible_def)
qed

subsection \<open>Lemmas: every changed file is accounted for\<close>

text \<open>What the loop keeps: each entry is empty or the complete diff of its file, and the entries fit what was
  there beside what remains.\<close>

definition shown_ok :: "git_reader \<Rightarrow> string \<Rightarrow> string \<Rightarrow> changed_file list \<Rightarrow> string list \<Rightarrow> bool" where
  "shown_ok g base revision changed shown \<longleftrightarrow>
     length shown = length changed \<and>
     (\<forall>i < length changed. shown ! i = [] \<or>
        (\<exists>limit \<le> reviewDiffLimit. DiffText g [base, revision, ''--'', literal_path (cf_path (changed ! i))] limit = Inr (shown ! i, True)))"

lemma length_concat_update:
  "i < length xs \<Longrightarrow> xs ! i = [] \<Longrightarrow> length (concat (xs[i := s])) = length (concat xs) + length s"
proof (induction xs arbitrary: i)
  case (Cons x xs)
  then show ?case by (cases i) auto
qed simp

lemma show_smallest_ok:
  assumes "show_smallest g base revision changed is shown remaining = Inr result"
    and "shown_ok g base revision changed shown" "set is \<subseteq> {..< length changed}" "distinct is" "\<forall>i \<in> set is. shown ! i = []"
    and "0 \<le> remaining" "int (length (concat shown)) + remaining \<le> reviewDiffLimit"
  shows "shown_ok g base revision changed result \<and> int (length (concat result)) \<le> reviewDiffLimit"
  using assms
proof (induction g base revision changed "is" shown remaining rule: show_smallest.induct)
  case (1 g base revision changed shown remaining)
  then show ?case by simp
next
  case (2 g base revision changed i "is" shown remaining)
  have i: "i < length changed" "shown ! i = []" "i \<notin> set is" using "2.prems" by auto
  obtain s complete where d: "DiffText g [base, revision, ''--'', literal_path (cf_path (changed ! i))] remaining = Inr (s, complete)"
    using "2.prems"(1) by (auto split: sum.splits)
  show ?case
  proof (cases complete)
    case False
    then have "show_smallest g base revision changed is shown remaining = Inr result" using "2.prems"(1) d by simp
    from "2.IH"(1) [OF d refl _ this] False "2.prems" show ?thesis by simp
  next
    case True
    have s: "s \<noteq> []" and rest: "show_smallest g base revision changed is (shown[i := s]) (remaining - int (length s)) = Inr result"
      using "2.prems"(1) d True by (auto split: if_splits)
    have fits: "int (length s) \<le> remaining" by (rule DiffText_bound [OF d "2.prems"(6)])
    have len: "length shown = length changed" using "2.prems"(2) by (simp add: shown_ok_def)
    have "remaining \<le> reviewDiffLimit" using "2.prems"(7) by simp
    then have "shown_ok g base revision changed (shown[i := s])"
      using "2.prems"(2) d True i(1) by (auto simp: shown_ok_def nth_list_update)
    moreover have "int (length (concat (shown[i := s]))) + (remaining - int (length s)) \<le> reviewDiffLimit"
      using "2.prems"(7) length_concat_update [of i shown s] i len by simp
    moreover have "\<forall>j \<in> set is. shown[i := s] ! j = []" using "2.prems"(5) i(3) by (metis list.set_intros(2) nth_list_update_neq)
    ultimately show ?thesis using "2.IH"(2) [OF d refl _ s rest] True "2.prems"(3,4) fits by simp
  qed
qed

section \<open>Properties\<close>

text \<open>The evidence of a verification command fits its bound: however long the two streams are, the
  recorded text with its markers, its stderr section and the exit status has at most \<open>limit\<close> bytes, for every limit
  that leaves room for the status and the markers.\<close>

lemma evidence_within_limit:
  assumes "58 + 2 * int (length (case co_Result out of Inl _ \<Rightarrow> [] | Inr c \<Rightarrow> status_text signal_name c)) \<le> limit"
  shows "int (length (evidenceText signal_name values out limit)) \<le> limit"
proof (cases "co_Result out")
  case (Inl err)
  with assms show ?thesis using bound_tail_length [of "Secrets values (ce_Text err)" limit] by (simp add: evidenceText_def)
next
  case (Inr c)
  obtain so se where caps: "SafeCaptures values c = (so, se)" by (cases "SafeCaptures values c")
  show ?thesis
  proof (cases "clean_stream se = []")
    case True
    with Inr assms show ?thesis
      using bound_tail_length [of "clean_stream so" "limit - int (length (status_text signal_name c))"]
      by (simp add: evidenceText_def caps Let_def)
  next
    case False
    with Inr assms show ?thesis
      using streams_fit [of "status_text signal_name c" limit "clean_stream so" "clean_stream se"]
      by (simp add: evidenceText_def caps Let_def separator_length algebra_simps)
  qed
qed

lemma evidence_within_limit_witness:
  "int (length (evidenceText (\<lambda>_. []) [] \<lparr>co_Result = Inl \<lparr>ce_Text = ''signal: killed'', ce_Tree = Plain, ce_Infrastructure = False\<rparr>,
     co_Intact = True, co_IntactErr = None, co_Sandbox = None\<rparr> 100)) \<le> 100"
  by (rule evidence_within_limit) simp


text \<open>A repository in which one line was added to the file a.\<close>

definition sample_listing :: string where
  "sample_listing = [CHR ''1'', char_of (9 :: nat), CHR ''0'', char_of (9 :: nat), CHR ''a'']"

definition sample_git :: git_reader where
  "sample_git = \<lparr>gr_Git = (\<lambda>args. Inr \<lparr>po_Status = ExitStatus \<lparr>ex_Code = 0, ex_OOM = False, ex_Killed = False, ex_Reason = []\<rparr>,
       po_Stdout = \<lparr>cp_Bytes = sample_listing, cp_Truncated = False, cp_Tail = []\<rparr>,
       po_Stderr = \<lparr>cp_Bytes = [], cp_Truncated = False, cp_Tail = []\<rparr>\<rparr>),
     gr_Invisible = (\<lambda>r. False), gr_SignalName = (\<lambda>_. []), gr_Secrets = []\<rparr>"

lemma sample_visible: "5 \<le> limit \<Longrightarrow> visible (\<lambda>r. False) sample_listing limit = (sample_listing, True)"
  by (simp add: visible_def visible_loop.simps visible_piece_def decode_rune1 sample_listing_def Let_def)

lemma sample_diff: "5 \<le> limit \<Longrightarrow> DiffText sample_git args limit = Inr (sample_listing, True)"
  by (simp add: DiffText_def RunText_def sample_git_def ensureSuccess_def Process_Success_def ExitStatus_def sample_visible
      diagnosticLimit_def)

lemma sample_changed: "changedFiles sample_listing = Inr [\<lparr>cf_listed = ''a'', cf_path = ''a'', cf_lines = 1\<rparr>]"
  by code_simp


end
