(* ===== verification/Engine_Worker.thy ===== *)
theory Engine_Worker
  imports Engine_Evidence Engine_Control
begin

text \<open>
  The worker of one task: \<open>internal/engine/execution.go\<close> (execute, repair, publish, supervise), \<open>invocation.go\<close> (a runner turn
  for a task), \<open>reviewRevision\<close> of \<open>review.go\<close>, \<open>verifyRevision\<close> of \<open>verification.go\<close> and \<open>runTask\<close> of \<open>scheduler.go\<close>. The worker's state is the engine, its
  own copy of the task, a counter of its interactions and the log of the publications it asked for. Everything outside
  is the record \<open>worker_remote\<close>: git, the runners, the sandbox and the clock answer by the number of the interaction, and at each
  interaction \<open>wr_Window\<close> stands for what other operations did to the engine since the last one. Prompts are not
  modelled: a runner's answer may be any text. \<open>wr_ParseReview\<close> and \<open>wr_ParseMaintenance\<close> decode an answer, or give the redacted
  text of the decoding error. A panic inside the worker is an error, as its supervisor makes it.
\<close>

subsection \<open>The worker's state and its surroundings\<close>

record wstate =
  ws_Engine :: engine
  ws_Task :: task
  ws_Calls :: nat
  ws_Published :: "(task \<times> engine) list"

type_synonym 'a work = "wstate \<Rightarrow> (cause, 'a) result \<times> wstate"

text \<open>A failed session start: the error, and whether the runner lost the session (\<open>ErrSessionMissing\<close>).\<close>

record start_error =
  sx_Cause :: cause
  sx_Missing :: bool

record worker_remote =
  wr_Handle :: handle
  wr_Serial :: nat
  wr_Merge :: merge_remote
  wr_DataDir :: string
  wr_Describe :: "engine_error \<Rightarrow> string"
  wr_DescribeSet :: "change_set_error \<Rightarrow> string"
  wr_DescribeLimit :: "timeout_error \<Rightarrow> string"
  wr_SignalName :: "nat \<Rightarrow> string"
  wr_Secrets :: "string list"
  wr_UtcDay :: "string \<Rightarrow> string option"
  wr_UUID :: "string \<Rightarrow> bool"
  wr_ParseReview :: "string \<Rightarrow> (string, review) result"
  wr_ParseMaintenance :: "string \<Rightarrow> (string, review \<times> maintenance_assessment) result"
  wr_Quote :: "string \<Rightarrow> string"
  wr_SandboxJSON :: "sandbox_record \<Rightarrow> string option"
  wr_Env :: "nat \<Rightarrow> env"
  wr_Window :: "nat \<Rightarrow> engine \<Rightarrow> engine"
  wr_Done :: "nat \<Rightarrow> cause option"
  wr_Stopping :: "nat \<Rightarrow> bool"
  wr_Deadline :: "nat \<Rightarrow> bool \<times> bool"
  wr_Initialized :: "nat \<Rightarrow> task \<Rightarrow> bool"
  wr_SandboxLimit :: "nat \<Rightarrow> (cause, u64) result"
  wr_Measure :: "nat \<Rightarrow> string \<Rightarrow> (cause, u64) result"
  wr_Fetch :: "nat \<Rightarrow> config \<Rightarrow> cause option"
  wr_RemoteRevision :: "nat \<Rightarrow> config \<Rightarrow> string \<Rightarrow> (cause, string option) result"
  wr_IsAncestor :: "nat \<Rightarrow> config \<Rightarrow> string \<Rightarrow> string \<Rightarrow> (cause, bool) result"
  wr_PR :: "nat \<Rightarrow> config \<Rightarrow> u64 \<Rightarrow> (cause, pull_request) result"
  wr_CloneAt :: "nat \<Rightarrow> config \<Rightarrow> string \<Rightarrow> string \<Rightarrow> cause option"
  wr_WorkGit :: "nat \<Rightarrow> config \<Rightarrow> string \<Rightarrow> string list \<Rightarrow> (cause, string) result"
  wr_GitDir :: "nat \<Rightarrow> string \<Rightarrow> bool"
  wr_At :: "nat \<Rightarrow> config \<Rightarrow> string \<Rightarrow> string \<Rightarrow> (cause, bool) result"
  wr_Snapshot :: "nat \<Rightarrow> config \<Rightarrow> string \<Rightarrow> string \<Rightarrow> (cause, string) result"
  wr_Gitlinks :: "nat \<Rightarrow> config \<Rightarrow> string \<Rightarrow> string \<Rightarrow> string \<Rightarrow> cause option"
  wr_Reader :: "nat \<Rightarrow> config \<Rightarrow> string \<Rightarrow> git_reader"
  wr_Footprint :: "nat \<Rightarrow> config \<Rightarrow> string \<Rightarrow> string \<Rightarrow> string \<Rightarrow> maintenance_footprint \<times> cause option"
  wr_Publish :: "nat \<Rightarrow> task \<Rightarrow> (cause, pull_request) result"
  wr_RemoveDir :: "nat \<Rightarrow> string \<Rightarrow> cause option"
  wr_CloneReviewed :: "nat \<Rightarrow> config \<Rightarrow> string \<Rightarrow> string \<Rightarrow> string \<Rightarrow> cause option"
  wr_Verify :: "nat \<Rightarrow> string \<Rightarrow> string \<Rightarrow> u64 \<Rightarrow> bool \<Rightarrow> (capture_error, process_output) result \<times> sandbox_record option"
  wr_ValidateRoutes :: "nat \<Rightarrow> config \<Rightarrow> cause option"
  wr_Start :: "nat \<Rightarrow> route \<Rightarrow> string \<Rightarrow> string option \<Rightarrow> (start_error, string) result"
  wr_Release :: "nat \<Rightarrow> cause option"
  wr_Evidence :: "nat \<Rightarrow> sandbox_record option"
  wr_TurnStarts :: "nat \<Rightarrow> bool"
  wr_Turn :: "nat \<Rightarrow> string \<Rightarrow> route \<Rightarrow> cause option \<Rightarrow> (cause, string) result"

subsection \<open>Steps\<close>

definition wret :: "'a \<Rightarrow> 'a work" where
  "wret a st = (Inr a, st)"

definition wfail :: "cause \<Rightarrow> 'a work" where
  "wfail c st = (Inl c, st)"

definition wbind :: "'a work \<Rightarrow> ('a \<Rightarrow> 'b work) \<Rightarrow> 'b work" where
  "wbind m f st = (case m st of (Inl c, st') \<Rightarrow> (Inl c, st') | (Inr a, st') \<Rightarrow> f a st')"

definition wtick :: "worker_remote \<Rightarrow> wstate \<Rightarrow> wstate" where
  "wtick wr st = st\<lparr>ws_Engine := wr_Window wr (ws_Calls st) (ws_Engine st), ws_Calls := Suc (ws_Calls st)\<rparr>"

text \<open>An interaction that only reads: its answer depends on when it is made.\<close>

definition ask :: "worker_remote \<Rightarrow> (nat \<Rightarrow> 'a) \<Rightarrow> 'a work" where
  "ask wr f st = (Inr (f (ws_Calls st)), wtick wr st)"

definition wtry :: "(cause, 'a) result \<Rightarrow> 'a work" where
  "wtry r = (case r of Inl c \<Rightarrow> wfail c | Inr a \<Rightarrow> wret a)"

definition call :: "worker_remote \<Rightarrow> (nat \<Rightarrow> (cause, 'a) result) \<Rightarrow> 'a work" where
  "call wr f = wbind (ask wr f) wtry"

definition perform :: "worker_remote \<Rightarrow> (nat \<Rightarrow> cause option) \<Rightarrow> unit work" where
  "perform wr f = wbind (ask wr f) (\<lambda>c. case c of None \<Rightarrow> wret () | Some x \<Rightarrow> wfail x)"

definition wguard :: "bool \<Rightarrow> cause \<Rightarrow> unit work" where
  "wguard ok c = (if ok then wret () else wfail c)"

definition the_task :: "task work" where
  "the_task st = (Inr (ws_Task st), st)"

definition modify :: "(task \<Rightarrow> task) \<Rightarrow> unit work" where
  "modify f st = (Inr (), st\<lparr>ws_Task := f (ws_Task st)\<rparr>)"

definition reason_cause :: "blocked_reason \<Rightarrow> cause" where
  "reason_cause r = \<lparr>ca_Tree = Reason r, ca_Text = BlockedReason_Error r, ca_Canceled = False\<rparr>"

definition wrapped :: "string \<Rightarrow> blocked_reason \<Rightarrow> cause" where
  "wrapped message r = \<lparr>ca_Tree = Wrap (Reason r), ca_Text = message @ '': '' @ BlockedReason_Error r, ca_Canceled = False\<rparr>"

definition plain_cause :: "string \<Rightarrow> cause" where
  "plain_cause message = \<lparr>ca_Tree = Plain, ca_Text = message, ca_Canceled = False\<rparr>"

definition join_cause :: "cause \<Rightarrow> cause \<Rightarrow> cause" where
  "join_cause a b = \<lparr>ca_Tree = Join [ca_Tree a, ca_Tree b], ca_Text = ca_Text a @ newline @ ca_Text b,
     ca_Canceled = (ca_Canceled a \<or> ca_Canceled b)\<rparr>"

definition join_opt :: "cause option \<Rightarrow> cause option \<Rightarrow> cause option" where
  "join_opt a b = (case (a, b) of (Some x, Some y) \<Rightarrow> Some (join_cause x y) | (Some x, None) \<Rightarrow> Some x | (None, y) \<Rightarrow> y)"

text \<open>The reasons the store's errors wrap.\<close>

definition store_reason :: "store_error \<Rightarrow> error_tree" where
  "store_reason err =
     (case err of
        InstanceCeilingExhausted \<Rightarrow> Wrap (Reason BlockedBudgetExhausted)
      | DailyBudgetExhausted \<Rightarrow> Wrap (Reason BlockedBudgetExhausted)
      | StorageLimitReached _ \<Rightarrow> Wrap (Reason BlockedStorageLimit)
      | _ \<Rightarrow> Plain)"

definition engine_cause :: "worker_remote \<Rightarrow> engine_error \<Rightarrow> cause" where
  "engine_cause wr err =
     (case err of
        WorkFailed c \<Rightarrow> c
      | _ \<Rightarrow> \<lparr>ca_Tree = (case err of StoreFailed x \<Rightarrow> store_reason x | TaskConflict x \<Rightarrow> store_reason x | _ \<Rightarrow> Plain),
            ca_Text = wr_Describe wr err, ca_Canceled = False\<rparr>)"

text \<open>A best-effort event.\<close>

definition emit :: "worker_remote \<Rightarrow> event_kind \<Rightarrow> string \<Rightarrow> unit work" where
  "emit wr kind message st =
     (let st' = wtick wr st
      in (Inr (), st'\<lparr>ws_Engine := engine_Event (wr_Env wr (ws_Calls st)) (wr_Handle wr) (t_ID (ws_Task st)) kind message (ws_Engine st')\<rparr>))"

text \<open>An event with the redacted text of an error.\<close>

definition emit_error :: "worker_remote \<Rightarrow> event_kind \<Rightarrow> string \<Rightarrow> cause \<Rightarrow> unit work" where
  "emit_error wr kind message c st = emit wr kind (message @ env_Redact (wr_Env wr (ws_Calls st)) (ca_Text c)) st"

subsection \<open>Commits\<close>

definition commitWorkerTask :: "worker_remote \<Rightarrow> task_change \<Rightarrow> unit work" where
  "commitWorkerTask wr change st =
     (let st' = wtick wr st in
      case commitWorkerTaskLocked (wr_Env wr (ws_Calls st)) (wr_Serial wr) (ws_Task st) change (ws_Engine st') of
        (Inl err, e') \<Rightarrow> (Inl (engine_cause wr err), st'\<lparr>ws_Engine := e'\<rparr>)
      | (Inr t, e') \<Rightarrow> (Inr (), st'\<lparr>ws_Engine := e', ws_Task := t\<rparr>))"

definition checkpointTask :: "worker_remote \<Rightarrow> unit work" where
  "checkpointTask wr = commitWorkerTask wr TaskCheckpoint"

definition transition :: "worker_remote \<Rightarrow> status \<Rightarrow> unit work" where
  "transition wr s st =
     (let st' = wtick wr st in
      case transitionTask (wr_Env wr (ws_Calls st)) (wr_Handle wr) (wr_Serial wr) (ws_Task st) s (ws_Engine st') of
        (Inl err, e') \<Rightarrow> (Inl (engine_cause wr err), st'\<lparr>ws_Engine := e'\<rparr>)
      | (Inr t, e') \<Rightarrow> (Inr (), st'\<lparr>ws_Engine := e', ws_Task := t\<rparr>))"

subsection \<open>Sessions\<close>

fun session_index :: "session list \<Rightarrow> string \<Rightarrow> string \<Rightarrow> nat option" where
  "session_index [] thread role = None"
| "session_index (s # ss) thread role =
     (if s_ID s = thread \<and> s_Role s = role then Some 0 else map_option Suc (session_index ss thread role))"

definition missing_session :: "task \<Rightarrow> string \<Rightarrow> string \<Rightarrow> cause" where
  "missing_session t thread role =
     wrapped (''Task '' @ t_ID t @ '' is missing its '' @ role @ '' session record ('' @ thread @ '')'') BlockedWorkspaceInvalid"

definition findSession :: "string \<Rightarrow> string \<Rightarrow> session work" where
  "findSession thread role = wbind the_task (\<lambda>t.
     case session_index (t_Sessions t) thread role of
       None \<Rightarrow> wfail (missing_session t thread role)
     | Some i \<Rightarrow> wret (t_Sessions t ! i))"

definition map_session :: "string \<Rightarrow> string \<Rightarrow> (session \<Rightarrow> session) \<Rightarrow> task \<Rightarrow> task" where
  "map_session thread role f t =
     (case session_index (t_Sessions t) thread role of
        None \<Rightarrow> t
      | Some i \<Rightarrow> t\<lparr>t_Sessions := (t_Sessions t)[i := f (t_Sessions t ! i)]\<rparr>)"

definition updateSession :: "string \<Rightarrow> string \<Rightarrow> (session \<Rightarrow> session) \<Rightarrow> unit work" where
  "updateSession thread role f = wbind (findSession thread role) (\<lambda>_. modify (map_session thread role f))"

definition NewAdmission :: "env \<Rightarrow> string \<Rightarrow> string option \<Rightarrow> string \<Rightarrow> route \<Rightarrow> admission" where
  "NewAdmission env cycle task_id role r =
     \<lparr>ad_ID = env_ID env, ad_At = env_Now env, ad_CycleID = cycle, ad_TaskID = task_id, ad_Role = role, ad_Route = r,
      ad_Repository = []\<rparr>"

definition reserve :: "worker_remote \<Rightarrow> u64 \<Rightarrow> string \<Rightarrow> route \<Rightarrow> unit work" where
  "reserve wr measured role r st =
     (let st' = wtick wr st; env = wr_Env wr (ws_Calls st); t = ws_Task st in
      case on_db (ReserveSession (wr_UtcDay wr) env (wr_Handle wr) measured (NewAdmission env (t_CycleID t) (Some (t_ID t)) role r)) (ws_Engine st') of
        (Inl err, e') \<Rightarrow> (Inl (engine_cause wr (StoreFailed err)), st'\<lparr>ws_Engine := e'\<rparr>)
      | (Inr _, e') \<Rightarrow> (Inr (), st'\<lparr>ws_Engine := e'\<rparr>))"

definition admit :: "worker_remote \<Rightarrow> string \<Rightarrow> route \<Rightarrow> unit work" where
  "admit wr role r =
     wbind the_task (\<lambda>t.
     wbind (perform wr (wr_Done wr)) (\<lambda>_.
     wbind (call wr (\<lambda>n. wr_Measure wr n (filepath_Join [''tasks'', t_ID t]))) (\<lambda>measured.
     wbind (perform wr (wr_Done wr)) (\<lambda>_.
     reserve wr measured role r))))"

text \<open>The broker's record of a sandbox that has no session of its own becomes an event.\<close>

definition keepSandboxEvidence :: "worker_remote \<Rightarrow> string \<Rightarrow> sandbox_record option \<Rightarrow> unit work" where
  "keepSandboxEvidence wr command rec =
     (case rec of
        None \<Rightarrow> wret ()
      | Some sr \<Rightarrow>
          (case wr_SandboxJSON wr sr of
             None \<Rightarrow> wret ()
           | Some data \<Rightarrow> emit wr EventSandboxEvidence (wr_Quote wr command @ '': '' @ data)))"

subsection \<open>One runner turn\<close>

datatype session_slot = NoSlot | ExecutionSlot | RepairSlot

text \<open>What an invocation for a task carries: the judge reads the session and the answer and returns the summary, and
  \<open>iv_Completed\<close> accounts for a successful turn.\<close>

record invocation =
  iv_Role :: string
  iv_Route :: route
  iv_Slot :: session_slot
  iv_Reserved :: bool
  iv_Judge :: "(string \<Rightarrow> string \<Rightarrow> string work) option"
  iv_Completed :: "task \<Rightarrow> task"

definition slot_of :: "session_slot \<Rightarrow> task \<Rightarrow> string option" where
  "slot_of slot t = (case slot of NoSlot \<Rightarrow> None | ExecutionSlot \<Rightarrow> t_ExecutionSession t | RepairSlot \<Rightarrow> t_RepairSession t)"

definition set_slot :: "session_slot \<Rightarrow> string option \<Rightarrow> task \<Rightarrow> task" where
  "set_slot slot v t =
     (case slot of NoSlot \<Rightarrow> t | ExecutionSlot \<Rightarrow> t\<lparr>t_ExecutionSession := v\<rparr> | RepairSlot \<Rightarrow> t\<lparr>t_RepairSession := v\<rparr>)"

definition resume_session :: "invocation \<Rightarrow> string option work" where
  "resume_session iv = wbind the_task (\<lambda>t.
     case slot_of (iv_Slot iv) t of
       None \<Rightarrow> wret None
     | Some identity \<Rightarrow>
         if iv_Reserved iv then wfail (plain_cause (''A resumed '' @ iv_Role iv @ '' turn cannot use a reserved admission''))
         else wbind (findSession identity (iv_Role iv)) (\<lambda>_. wret (Some identity)))"

definition session_start :: "invocation \<Rightarrow> string" where
  "session_start iv = iv_Role iv @ '' session start''"

text \<open>Whether a session that could not be resumed may be replaced by a fresh one.\<close>

definition replaceable :: "invocation \<Rightarrow> start_error \<Rightarrow> session \<Rightarrow> cause option \<Rightarrow> cause option \<Rightarrow> bool" where
  "replaceable iv err rec released ended \<longleftrightarrow>
     \<not> (\<not> sx_Missing err \<or> r_Backend (iv_Route iv) \<noteq> BackendCodex \<or> s_FirstTurnStarted rec = None \<or>
        s_FirstTurnStarted rec = Some True \<or> s_Status rec = SessionCompleted \<or> iv_Slot iv = NoSlot \<or> released \<noteq> None \<or>
        ended \<noteq> None)"

definition start_fresh :: "worker_remote \<Rightarrow> invocation \<Rightarrow> (string \<times> bool) work" where
  "start_fresh wr iv =
     wbind the_task (\<lambda>t.
     wbind (ask wr (\<lambda>n. wr_Start wr n (iv_Route iv) (t_Workspace t) None)) (\<lambda>r.
     case r of
       Inr session \<Rightarrow> wret (session, False)
     | Inl err \<Rightarrow>
         wbind (ask wr (wr_Release wr)) (\<lambda>cleanup.
         wbind (ask wr (wr_Evidence wr)) (\<lambda>rec.
         wbind (keepSandboxEvidence wr (session_start iv) rec) (\<lambda>_.
         wfail (the (join_opt (Some (sx_Cause err)) cleanup)))))))"

definition replace_session :: "worker_remote \<Rightarrow> invocation \<Rightarrow> string \<Rightarrow> start_error \<Rightarrow> (string \<times> bool) work" where
  "replace_session wr iv thread err =
     wbind (ask wr (\<lambda>n. env_Redact (wr_Env wr n))) (\<lambda>redact.
     wbind (updateSession thread (iv_Role iv) (\<lambda>s. MarkFailed (redact (trim_space (s_Summary s @ newline @
        ''Never-started session is missing; a fresh session is required: '' @ ca_Text (sx_Cause err)))) s)) (\<lambda>_.
     wbind (modify (set_slot (iv_Slot iv) None)) (\<lambda>_.
     wbind (\<lambda>st. case checkpointTask wr st of
               (Inl saveErr, st') \<Rightarrow> (Inl (join_cause (sx_Cause err) saveErr), st')
             | (Inr _, st') \<Rightarrow> (Inr (), st')) (\<lambda>_.
     wbind (admit wr (iv_Role iv) (iv_Route iv)) (\<lambda>_.
     wbind (perform wr (wr_Done wr)) (\<lambda>_.
     start_fresh wr iv))))))"

definition startInvocation :: "worker_remote \<Rightarrow> invocation \<Rightarrow> string option \<Rightarrow> (string \<times> bool) work" where
  "startInvocation wr iv resume =
     wbind the_task (\<lambda>t.
     wbind (ask wr (\<lambda>n. wr_Start wr n (iv_Route iv) (t_Workspace t) resume)) (\<lambda>r.
     case r of
       Inr session \<Rightarrow> wret (session, resume \<noteq> None)
     | Inl err \<Rightarrow>
         wbind (ask wr (wr_Release wr)) (\<lambda>released.
         wbind (ask wr (wr_Evidence wr)) (\<lambda>rec.
         let failed = the (join_opt (Some (sx_Cause err)) released) in
         case resume of
           None \<Rightarrow> wbind (keepSandboxEvidence wr (session_start iv) rec) (\<lambda>_. wfail failed)
         | Some thread \<Rightarrow>
             (case session_index (t_Sessions t) thread (iv_Role iv) of
                None \<Rightarrow> wbind (keepSandboxEvidence wr (session_start iv) rec) (\<lambda>_.
                  wfail (join_cause failed (missing_session t thread (iv_Role iv))))
              | Some i \<Rightarrow>
                  wbind (modify (map_session thread (iv_Role iv) (\<lambda>s. s\<lparr>s_Sandbox := MergeSandbox (s_Sandbox s) rec\<rparr>))) (\<lambda>_.
                  wbind (ask wr (wr_Done wr)) (\<lambda>ended.
                  if replaceable iv err (t_Sessions t ! i) released ended then replace_session wr iv thread err
                  else wfail failed)))))))"

text \<open>The runner's callback when a turn has begun.\<close>

definition turn_started :: "worker_remote \<Rightarrow> invocation \<Rightarrow> string \<Rightarrow> unit work" where
  "turn_started wr iv session =
     wbind (findSession session (iv_Role iv)) (\<lambda>rec.
     if s_FirstTurnStarted rec = Some True then wret ()
     else wbind (modify (map_session session (iv_Role iv) (\<lambda>s. s\<lparr>s_FirstTurnStarted := Some True\<rparr>))) (\<lambda>_.
          checkpointTask wr))"

text \<open>The result of a step as a value, so that the caller can go on after an error.\<close>

definition attempt :: "'a work \<Rightarrow> (cause, 'a) result work" where
  "attempt m st = (case m st of (r, st') \<Rightarrow> (Inr r, st'))"

definition left :: "('e, 'a) result \<Rightarrow> 'e option" where
  "left r = (case r of Inl e \<Rightarrow> Some e | Inr _ \<Rightarrow> None)"

definition turn :: "worker_remote \<Rightarrow> invocation \<Rightarrow> string \<Rightarrow> (string \<times> string) work" where
  "turn wr iv session =
     wbind (ask wr (wr_TurnStarts wr)) (\<lambda>starts.
     wbind (attempt (if starts then turn_started wr iv session else wret ())) (\<lambda>begun.
     wbind (ask wr (\<lambda>n. wr_Turn wr n session (iv_Route iv) (left begun))) (\<lambda>r.
     wbind (ask wr (wr_Release wr)) (\<lambda>released.
     case (join_opt (left r) released, r) of
       (Some err, _) \<Rightarrow> wfail err
     | (None, Inl err) \<Rightarrow> wfail err
     | (None, Inr answer) \<Rightarrow>
         (case iv_Judge iv of
            None \<Rightarrow> wret (answer, answer)
          | Some judge \<Rightarrow>
              wbind (ask wr (\<lambda>n. env_Redact (wr_Env wr n))) (\<lambda>redact.
              wbind (updateSession session (iv_Role iv) (\<lambda>s. s\<lparr>s_Summary := redact answer\<rparr>)) (\<lambda>_.
              wbind (checkpointTask wr) (\<lambda>_.
              wbind (judge session answer) (\<lambda>summary.
              wret (answer, summary))))))))))"

definition record_start :: "worker_remote \<Rightarrow> invocation \<Rightarrow> string \<Rightarrow> bool \<Rightarrow> unit work" where
  "record_start wr iv session resumed =
     (if \<not> resumed
      then wbind (ask wr (\<lambda>n. env_Now (wr_Env wr n))) (\<lambda>now.
           modify (\<lambda>t. set_slot (iv_Slot iv) (Some session)
             (t\<lparr>t_Sessions := t_Sessions t @ [(NewSession session (iv_Role iv) (iv_Route iv) now)\<lparr>s_FirstTurnStarted := Some False\<rparr>]\<rparr>)))
      else updateSession session (iv_Role iv) (\<lambda>s. (MarkRunning s)\<lparr>s_FirstTurnStarted := Some True\<rparr>))"

definition invoke :: "worker_remote \<Rightarrow> invocation \<Rightarrow> string work" where
  "invoke wr iv =
     wbind (perform wr (wr_Done wr)) (\<lambda>_.
     wbind (resume_session iv) (\<lambda>resume.
     wbind (if iv_Reserved iv then wret () else admit wr (iv_Role iv) (iv_Route iv)) (\<lambda>_.
     wbind (perform wr (wr_Done wr)) (\<lambda>_.
     wbind (startInvocation wr iv resume) (\<lambda>(session, resumed).
     wbind (record_start wr iv session resumed) (\<lambda>_.
     wbind (checkpointTask wr) (\<lambda>_.
     wbind (attempt (turn wr iv session)) (\<lambda>r.
     wbind (ask wr (wr_Evidence wr)) (\<lambda>rec.
     wbind (modify (map_session session (iv_Role iv) (\<lambda>s. s\<lparr>s_Sandbox := MergeSandbox (s_Sandbox s) rec\<rparr>))) (\<lambda>_.
     wbind (wtry r) (\<lambda>(answer, summary).
     wbind (findSession session (iv_Role iv)) (\<lambda>_.
     wbind (modify (iv_Completed iv)) (\<lambda>_.
     wbind (ask wr (\<lambda>n. env_Redact (wr_Env wr n))) (\<lambda>redact.
     wbind (modify (map_session session (iv_Role iv) (MarkCompleted (redact summary)))) (\<lambda>_.
     wbind (checkpointTask wr) (\<lambda>_.
     wret answer))))))))))))))))"

subsection \<open>Workspace and remote checks\<close>

definition ensureWorkspaceAt :: "worker_remote \<Rightarrow> config \<Rightarrow> string \<Rightarrow> string \<Rightarrow> unit work" where
  "ensureWorkspaceAt wr cfg workspace revision =
     wbind (call wr (\<lambda>n. wr_At wr n cfg workspace revision)) (\<lambda>at. wguard at (reason_cause BlockedWorkspaceInvalid))"

definition revisionHasChanges :: "worker_remote \<Rightarrow> config \<Rightarrow> string \<Rightarrow> string \<Rightarrow> string \<Rightarrow> bool work" where
  "revisionHasChanges wr cfg workspace source revision =
     wbind (call wr (\<lambda>n. wr_WorkGit wr n cfg workspace
       [''diff'', ''--shortstat'', ''--no-ext-diff'', ''--no-textconv'', ''--ignore-submodules=none'', source, revision]))
     (\<lambda>summary. wret (summary \<noteq> []))"

definition requireDefaultRevision :: "worker_remote \<Rightarrow> config \<Rightarrow> string \<Rightarrow> unit work" where
  "requireDefaultRevision wr cfg want =
     wbind (call wr (\<lambda>n. wr_RemoteRevision wr n cfg (c_DefaultBranch cfg))) (\<lambda>def.
     wguard (def = Some want) (reason_cause BlockedStaleBase))"

definition publishedDependency :: "worker_remote \<Rightarrow> string \<Rightarrow> task work" where
  "publishedDependency wr i st =
     (let st' = wtick wr st in
      case map_of (tb_Tasks (en_DB (ws_Engine st'))) i of
        None \<Rightarrow> (Inl (reason_cause BlockedDependencyBlocked), st')
      | Some d \<Rightarrow>
          if t_Status d \<noteq> StatusPublished then (Inl (reason_cause BlockedDependencyBlocked), st') else (Inr d, st'))"

definition taskWorkspace :: "worker_remote \<Rightarrow> string \<Rightarrow> string" where
  "taskWorkspace wr i = filepath_Join [wr_DataDir wr, ''tasks'', i, ''workspace'']"

definition checkWorkspace :: "worker_remote \<Rightarrow> unit work" where
  "checkWorkspace wr = wbind the_task (\<lambda>t.
     let ws = taskWorkspace wr (t_ID t) in
     if \<not> SamePath (t_Workspace t) ws \<or> t_ComparisonBase t = [] then wfail (reason_cause BlockedWorkspaceInvalid)
     else wbind (ask wr (\<lambda>n. wr_GitDir wr n ws)) (\<lambda>ok.
          wbind (wguard ok (reason_cause BlockedWorkspaceInvalid)) (\<lambda>_.
          ensureWorkspaceAt wr (ExecutionConfig t) ws (t_SourceRevision t))))"

definition checkSandboxTimeouts :: "worker_remote \<Rightarrow> config \<Rightarrow> unit work" where
  "checkSandboxTimeouts wr cfg =
     wbind (call wr (wr_SandboxLimit wr)) (\<lambda>limit.
     case validateSandboxTimeouts cfg limit of
       None \<Rightarrow> wret ()
     | Some err \<Rightarrow> wfail (plain_cause (wr_DescribeLimit wr err)))"

text \<open>The loop of \<open>retryPreflight\<close> over the dependencies: one whose output the source is at authorises it.\<close>

fun authorized_by :: "worker_remote \<Rightarrow> task \<Rightarrow> string option \<Rightarrow> bool \<Rightarrow> string list \<Rightarrow> bool work" where
  "authorized_by wr t source ok [] = wret ok"
| "authorized_by wr t source ok (i # is) =
     wbind (publishedDependency wr i) (\<lambda>d.
     authorized_by wr t source
       (ok \<or> t_ExecutionSession t = None \<and> source \<noteq> None \<and> t_OutputCommit d \<noteq> None \<and> source = t_OutputCommit d) is)"

definition retryPreflight :: "worker_remote \<Rightarrow> unit work" where
  "retryPreflight wr = wbind the_task (\<lambda>t.
     let c = ExecutionConfig t in
     wbind (checkSandboxTimeouts wr c) (\<lambda>_.
     wbind (wguard (wl_DiscardedAt (t_Lifecycle t) = None \<and> wl_ArchivedAt (t_Lifecycle t) = None)
       (reason_cause BlockedWorkspaceInvalid)) (\<lambda>_.
     wbind (requireDefaultRevision wr c (t_DefaultRevision t)) (\<lambda>_.
     wbind (call wr (\<lambda>n. wr_RemoteRevision wr n c (p_Target (t_Proposal t)))) (\<lambda>source.
     wbind (authorized_by wr t source (source = Some (t_SourceRevision t)) (p_Dependencies (t_Proposal t))) (\<lambda>ok.
     wbind (wguard ok (reason_cause BlockedStaleBase)) (\<lambda>_.
     wbind (ask wr (\<lambda>n. wr_Initialized wr n t)) (\<lambda>initialized.
     if t_ExecutionSession t \<noteq> None \<and> \<not> initialized then wfail (reason_cause BlockedWorkspaceInvalid)
     else if t_ExecutionSession t = None \<and> t_Workspace t \<noteq> [] then checkWorkspace wr
     else wret ()))))))))"

fun dependency_outputs :: "worker_remote \<Rightarrow> config \<Rightarrow> string \<Rightarrow> string \<Rightarrow> string list \<Rightarrow> string list work" where
  "dependency_outputs wr cfg target current [] = wret []"
| "dependency_outputs wr cfg target current (i # is) =
     wbind (publishedDependency wr i) (\<lambda>d.
     wbind (wguard (t_Branch d = target) (reason_cause BlockedDependencyBlocked)) (\<lambda>_.
     case t_OutputCommit d of
       None \<Rightarrow> wfail (plain_cause ''Dependency output revision is missing'')
     | Some commit \<Rightarrow>
         wbind (call wr (\<lambda>n. wr_IsAncestor wr n cfg commit current)) (\<lambda>ancestor.
         wbind (wguard ancestor (reason_cause BlockedDependencyBlocked)) (\<lambda>_.
         wbind (dependency_outputs wr cfg target current is) (\<lambda>outputs.
         wret (commit # outputs))))))"

definition open_workspace :: "worker_remote \<Rightarrow> config \<Rightarrow> unit work" where
  "open_workspace wr cfg =
     wbind (modify (\<lambda>t. t\<lparr>t_Workspace := taskWorkspace wr (t_ID t)\<rparr>)) (\<lambda>_.
     wbind (commitWorkerTask wr TaskPrepare) (\<lambda>_.
     wbind the_task (\<lambda>t.
     wbind (perform wr (\<lambda>n. wr_CloneAt wr n cfg (t_Workspace t) (t_SourceRevision t))) (\<lambda>_.
     wbind (if t_PRNumber t \<noteq> None
            then call wr (\<lambda>n. wr_WorkGit wr n cfg (t_Workspace t) [''merge-base'', t_DefaultRevision t, t_SourceRevision t])
            else wret (t_SourceRevision t)) (\<lambda>base.
     wbind (modify (\<lambda>t. t\<lparr>t_ComparisonBase := base\<rparr>)) (\<lambda>_.
     commitWorkerTask wr TaskPrepare))))))"

definition initializeTask :: "worker_remote \<Rightarrow> unit work" where
  "initializeTask wr = wbind the_task (\<lambda>t.
     let cfg = ExecutionConfig t in
     wbind (perform wr (\<lambda>n. wr_Fetch wr n cfg)) (\<lambda>_.
     wbind (call wr (\<lambda>n. wr_RemoteRevision wr n cfg (p_Target (t_Proposal t)))) (\<lambda>remote.
     case remote of
       None \<Rightarrow> wfail (reason_cause BlockedStaleBase)
     | Some current \<Rightarrow>
         wbind (dependency_outputs wr cfg (p_Target (t_Proposal t)) current (p_Dependencies (t_Proposal t))) (\<lambda>outputs.
         wbind (if current = t_SourceRevision t then wret ()
                else if current \<notin> set outputs then wfail (reason_cause BlockedStaleBase)
                else wbind (modify (\<lambda>t. t\<lparr>t_SourceRevision := current\<rparr>)) (\<lambda>_. commitWorkerTask wr TaskPrepare)) (\<lambda>_.
         wbind (requireDefaultRevision wr cfg (t_DefaultRevision t)) (\<lambda>_.
         wbind (case t_PRNumber t of
                  None \<Rightarrow> wret ()
                | Some number \<Rightarrow>
                    wbind (call wr (\<lambda>n. wr_PR wr n cfg number)) (\<lambda>p.
                    wguard (OwnedOpen p \<and> pr_Base p = c_DefaultBranch cfg) (reason_cause BlockedStaleBase))) (\<lambda>_.
         wbind (wguard (wr_UUID wr (t_ID t)) (plain_cause ''Invalid task workspace identity'')) (\<lambda>_.
         wbind (admit wr ''executor'' (t_Route t)) (\<lambda>_.
         if t_Workspace t = [] then open_workspace wr cfg else checkWorkspace wr)))))))))"

definition runExecutor :: "worker_remote \<Rightarrow> bool \<Rightarrow> unit work" where
  "runExecutor wr admissionReserved = wbind the_task (\<lambda>t.
     if list_ex (\<lambda>s. s_Role s = ''executor'' \<and> s_Status s = SessionCompleted) (t_Sessions t) then wret ()
     else wbind (invoke wr \<lparr>iv_Role = ''executor'', iv_Route = t_Route t, iv_Slot = ExecutionSlot, iv_Reserved = admissionReserved,
            iv_Judge = None, iv_Completed = (\<lambda>t. t)\<rparr>) (\<lambda>_. wret ()))"

subsection \<open>Review and verification of a revision\<close>

definition invalid_review :: "string \<Rightarrow> cause" where
  "invalid_review message =
     \<lparr>ca_Tree = Wrap (Reason BlockedInvalidReview), ca_Text = BlockedReason_Error BlockedInvalidReview @ '': '' @ message, ca_Canceled = False\<rparr>"

definition review_judge :: "worker_remote \<Rightarrow> bool \<Rightarrow> string \<Rightarrow> bool \<Rightarrow> string \<Rightarrow> string \<Rightarrow> string work" where
  "review_judge wr maintenance revision complete thread answer =
     wbind (case (if maintenance
                  then (case wr_ParseMaintenance wr answer of
                          Inl err \<Rightarrow> Inl (invalid_review (''Unparseable maintenance review is not clean: '' @ err))
                        | Inr (rv, m) \<Rightarrow>
                            if trim_space (ma_Reason m) = [] then Inl (invalid_review ''Maintenance assessment needs a reason'')
                            else Inr (rv, Some m))
                  else (case wr_ParseReview wr answer of
                          Inl err \<Rightarrow> Inl (invalid_review (''Unparseable review is not clean: '' @ err))
                        | Inr rv \<Rightarrow> Inr (rv, None))) of
              Inl c \<Rightarrow> wfail c
            | Inr x \<Rightarrow> wret x) (\<lambda>(rv, assessment).
     wbind (wguard (Review_Valid rv) (reason_cause BlockedInvalidReview)) (\<lambda>_.
     wbind the_task (\<lambda>t.
     wbind (ensureWorkspaceAt wr (ExecutionConfig t) (t_Workspace t) revision) (\<lambda>_.
     wbind (ask wr (\<lambda>n. env_Now (wr_Env wr n))) (\<lambda>now.
     wbind (modify (\<lambda>t. t\<lparr>t_Reviews := t_Reviews t @ [\<lparr>rr_SessionID = thread, rr_Revision = revision,
        rr_ComparisonBase = t_ComparisonBase t, rr_Result = rv, rr_CreatedAt = now, rr_Maintenance = assessment,
        rr_TrustedDiffComplete = complete\<rparr>]\<rparr>)) (\<lambda>_.
     wret (rv_Summary rv)))))))"

text \<open>The review the judge parsed is the result of the round it appended last.\<close>

definition reviewRevision :: "worker_remote \<Rightarrow> string \<Rightarrow> review work" where
  "reviewRevision wr revision =
     wbind (transition wr StatusReviewing) (\<lambda>_.
     wbind the_task (\<lambda>t.
     let cfg = ExecutionConfig t in
     case map_of (c_Roles cfg) ''code_reviewer'' of
       None \<Rightarrow> wfail (plain_cause ''code_reviewer route is missing'')
     | Some r \<Rightarrow>
         wbind (ask wr (\<lambda>n. trustedChangeSet (wr_Reader wr n cfg (t_Workspace t)) (t_ComparisonBase t) revision)) (\<lambda>trusted.
         case trusted of
           Inl err \<Rightarrow> wfail (change_set_cause (wr_DescribeSet wr) err)
         | Inr cs \<Rightarrow>
             wbind (invoke wr \<lparr>iv_Role = ''reviewer'', iv_Route = r, iv_Slot = NoSlot, iv_Reserved = False,
               iv_Judge = Some (review_judge wr (c_DeliveryMode cfg = DeliveryModeMaintenance) revision (length (cs_omitted cs) = 0)),
               iv_Completed = (\<lambda>t. t)\<rparr>) (\<lambda>_.
             wbind the_task (\<lambda>t.
             wret (rr_Result (last (t_Reviews t))))))))"

definition verificationRoot :: "task \<Rightarrow> string" where
  "verificationRoot t = filepath_Join [filepath_Dir (t_Workspace t), ''verify'']"

definition prefixed :: "string \<Rightarrow> cause \<Rightarrow> cause" where
  "prefixed message c = c\<lparr>ca_Tree := Wrap (ca_Tree c), ca_Text := message @ '': '' @ ca_Text c\<rparr>"

definition verificationCheckout :: "worker_remote \<Rightarrow> string \<Rightarrow> string work" where
  "verificationCheckout wr revision = wbind the_task (\<lambda>t.
     let root = verificationRoot t; checkout = filepath_Join [root, ''workspace''] in
     wbind (ask wr (\<lambda>n. wr_RemoveDir wr n root)) (\<lambda>r1.
     case r1 of
       Some err \<Rightarrow> wfail (prefixed ''Removing a previous verification checkout'' err)
     | None \<Rightarrow>
         wbind (ask wr (\<lambda>n. wr_CloneReviewed wr n (ExecutionConfig t) (t_Workspace t) checkout revision)) (\<lambda>r2.
         case r2 of
           Some err \<Rightarrow> wbind (ask wr (\<lambda>n. wr_RemoveDir wr n root)) (\<lambda>_. wfail (prefixed ''Preparing the verification checkout'' err))
         | None \<Rightarrow> wret checkout)))"

definition discardCheckout :: "worker_remote \<Rightarrow> string \<Rightarrow> unit work" where
  "discardCheckout wr root =
     wbind (ask wr (\<lambda>n. wr_RemoveDir wr n root)) (\<lambda>r.
     case r of None \<Rightarrow> wret () | Some err \<Rightarrow> emit_error wr EventCleanupError ''verification checkout: '' err)"

definition runCheckCommand :: "worker_remote \<Rightarrow> config \<Rightarrow> string \<Rightarrow> string \<Rightarrow> string \<Rightarrow> bool \<Rightarrow> check_outcome work" where
  "runCheckCommand wr cfg checkout command revision fresh =
     wbind (ask wr (\<lambda>n. wr_Verify wr n checkout command (c_CommandTimeoutSeconds cfg) fresh)) (\<lambda>(result, sandbox).
     wbind (ask wr (wr_Done wr)) (\<lambda>ended.
     if ended \<noteq> None then wret \<lparr>co_Result = result, co_Intact = False, co_IntactErr = None, co_Sandbox = sandbox\<rparr>
     else wbind (ask wr (\<lambda>n. wr_At wr n cfg checkout revision)) (\<lambda>at.
          wret (case at of
                  Inl err \<Rightarrow> \<lparr>co_Result = result, co_Intact = False, co_IntactErr = Some err, co_Sandbox = sandbox\<rparr>
                | Inr intact \<Rightarrow> \<lparr>co_Result = result, co_Intact = intact, co_IntactErr = None, co_Sandbox = sandbox\<rparr>))))"

definition outcome_note :: "string list \<Rightarrow> check_outcome \<Rightarrow> string" where
  "outcome_note values out =
     (case co_IntactErr out of
        Some err \<Rightarrow> newline @ fst (bound (Secrets values (ca_Text err)) noteLimit True)
      | None \<Rightarrow> if co_Intact out then [] else newline @ ''Workspace or HEAD changed during this verification command'')"

definition sandbox_cause :: "worker_remote \<Rightarrow> string \<Rightarrow> check_outcome \<Rightarrow> cause" where
  "sandbox_cause wr command out =
     \<lparr>ca_Tree = Join [Reason BlockedRunnerUnavailable, (case co_Result out of Inl err \<Rightarrow> Wrap (ce_Tree err) | Inr _ \<Rightarrow> Plain)],
      ca_Text = ''The sandbox could not run verification command '' @ wr_Quote wr command @ '': '' @
        (case co_Result out of Inl err \<Rightarrow> ce_Text err | Inr _ \<Rightarrow> []),
      ca_Canceled = False\<rparr>"

definition cancelled_cause :: cause where
  "cancelled_cause = plain_cause ''Operation cancelled''"

text \<open>The result of one verification command, recorded: its failure text, or nothing when it passed.\<close>

definition record_check :: "worker_remote \<Rightarrow> string \<Rightarrow> string \<Rightarrow> check_outcome \<Rightarrow> string list work" where
  "record_check wr revision command out =
     (let failed = outcome_failed out; note = outcome_note (wr_Secrets wr) out;
          output = evidenceText (wr_SignalName wr) (wr_Secrets wr) out (outputLimit - int (length note)) @ note
      in
        wbind (ask wr (\<lambda>n. env_Now (wr_Env wr n))) (\<lambda>now.
        wbind (modify (\<lambda>t. t\<lparr>t_Verification := t_Verification t @ [\<lparr>v_Command = command,
           v_Success = (co_IntactErr out = None \<and> co_Intact out \<and> \<not> failed), v_Output = output, v_Revision = revision,
           v_CreatedAt = now, v_Sandbox = co_Sandbox out\<rparr>]\<rparr>)) (\<lambda>_.
        wbind (checkpointTask wr) (\<lambda>_.
        case co_IntactErr out of
          Some err \<Rightarrow> wfail (prefixed ''Workspace state check failed during verification'' err)
        | None \<Rightarrow>
            if \<not> co_Intact out then wfail (reason_cause BlockedWorkspaceInvalid)
            else wret (if failed then [command @ '': '' @ output] else [])))))"

definition verifyCommand :: "worker_remote \<Rightarrow> config \<Rightarrow> string \<Rightarrow> string \<Rightarrow> string \<Rightarrow> bool \<Rightarrow> string list work" where
  "verifyCommand wr cfg checkout revision command fresh =
     wbind (runCheckCommand wr cfg checkout command revision fresh) (\<lambda>out.
     wbind (ask wr (wr_Done wr)) (\<lambda>ended.
     wbind (wguard (ended = None) cancelled_cause) (\<lambda>_.
     if sandboxFailed out
     then wbind (keepSandboxEvidence wr command (co_Sandbox out)) (\<lambda>_. wfail (sandbox_cause wr command out))
     else record_check wr revision command out)))"

fun verify_loop :: "worker_remote \<Rightarrow> config \<Rightarrow> string \<Rightarrow> string \<Rightarrow> bool \<Rightarrow> string list \<Rightarrow> string list work" where
  "verify_loop wr cfg checkout revision fresh [] = wret []"
| "verify_loop wr cfg checkout revision fresh (command # commands) =
     wbind (verifyCommand wr cfg checkout revision command fresh) (\<lambda>errs.
     wbind (verify_loop wr cfg checkout revision False commands) (\<lambda>rest.
     wret (errs @ rest)))"

definition verifyRevision :: "worker_remote \<Rightarrow> string \<Rightarrow> string list work" where
  "verifyRevision wr revision =
     wbind the_task (\<lambda>t0.
     let cfg = ExecutionConfig t0 in
     wbind (transition wr StatusVerifying) (\<lambda>_.
     wbind (ensureWorkspaceAt wr cfg (t_Workspace t0) revision) (\<lambda>_.
     wbind (verificationCheckout wr revision) (\<lambda>checkout.
     wbind (attempt (verify_loop wr cfg checkout revision True (c_VerificationCommands cfg))) (\<lambda>r.
     wbind (discardCheckout wr (verificationRoot t0)) (\<lambda>_.
     wtry r))))))"

subsection \<open>Publication\<close>

definition read_footprint :: "worker_remote \<Rightarrow> config \<Rightarrow> string \<Rightarrow> (maintenance_footprint option \<times> cause option) work" where
  "read_footprint wr cfg revision = wbind the_task (\<lambda>t.
     if c_DeliveryMode cfg \<noteq> DeliveryModeMaintenance then wret (None, None)
     else case t_MaintenanceFootprint t of
       Some fp \<Rightarrow>
         if mf_Revision fp = revision \<and> mf_ComparisonBase fp = t_ComparisonBase t then wret (Some fp, None)
         else wbind (ask wr (\<lambda>n. wr_Footprint wr n cfg (t_Workspace t) (t_ComparisonBase t) revision)) (\<lambda>(frozen, err).
              wret (Some frozen, err))
     | None \<Rightarrow>
         wbind (ask wr (\<lambda>n. wr_Footprint wr n cfg (t_Workspace t) (t_ComparisonBase t) revision)) (\<lambda>(frozen, err).
         wret (Some frozen, err)))"

text \<open>The checkpoint that authorises the publication, in one step under the gate.\<close>

definition authorizePublication :: "worker_remote \<Rightarrow> string \<Rightarrow> maintenance_footprint option \<Rightarrow> cause option \<Rightarrow> unit work" where
  "authorizePublication wr revision footprint footprintErr st =
     (let n = ws_Calls st; st' = wtick wr st; e = ws_Engine st'; env = wr_Env wr n; h = wr_Handle wr; t = ws_Task st in
      case wr_Done wr n of
        Some c \<Rightarrow> (Inl c, st')
      | None \<Rightarrow>
          let live = engine_Config (mr_Pin (wr_Merge wr)) h e in
          if c_DeliveryMode (t_Config t) \<noteq> c_DeliveryMode live \<or> p_Category (t_Proposal t) \<notin> set (EffectiveCategories (t_Config t))
          then (Inl (wrapped (''Task '' @ t_ID t @ '' was planned under an incompatible delivery mode or category'') BlockedInvalidPlan), st')
          else
            let maintenance = (c_DeliveryMode (t_Config t) = DeliveryModeMaintenance);
                e1 = (case footprintErr of
                        Some err \<Rightarrow> if maintenance then engine_Event env h (t_ID t) EventMaintenance
                          (''Footprint measurement is incomplete; the delivery can publish but stays manual: '' @ env_Redact env (ca_Text err)) e else e
                      | None \<Rightarrow> e);
                nxt = (if maintenance then t\<lparr>t_MaintenanceFootprint := footprint\<rparr> else t)\<lparr>t_OutputCommit := Some revision, t_Status := StatusPublishing\<rparr>
            in if \<not> ReviewAuthorizes t revision
               then (Inl (wrapped ''Publication requires a clean maintenance-qualified review at the output revision'' BlockedInvalidReview),
                     st'\<lparr>ws_Engine := e1\<rparr>)
               else case commitWorkerTaskLocked env (wr_Serial wr) nxt TaskAuthorizePublication e1 of
                   (Inl err, e2) \<Rightarrow> (Inl (engine_cause wr err), st'\<lparr>ws_Engine := e2\<rparr>)
                 | (Inr committed, e2) \<Rightarrow>
                     (Inr (), st'\<lparr>ws_Task := committed,
                        ws_Engine := engine_Event env h (t_ID committed) EventStatus (statusLabel (t_Status committed)) e2\<rparr>))"

text \<open>The push and the pull request, logged with the task they are made for and the engine at that moment.\<close>

definition publishTask :: "worker_remote \<Rightarrow> pull_request work" where
  "publishTask wr st =
     (let t = ws_Task st
      in (wr_Publish wr (ws_Calls st) t, (wtick wr st)\<lparr>ws_Published := ws_Published st @ [(t, ws_Engine st)]\<rparr>))"

definition worker_panic :: cause where
  "worker_panic = plain_cause ''Task worker panicked''"

definition finishPublication :: "worker_remote \<Rightarrow> pull_request \<Rightarrow> unit work" where
  "finishPublication wr pr st =
     (let st' = wtick wr st in
      case publishedWorkerLocked (wr_Merge wr) (wr_Env wr (ws_Calls st)) (wr_Handle wr) (wr_Serial wr) (ws_Task st) pr (ws_Engine st') of
        None \<Rightarrow> (Inl worker_panic, st')
      | Some (Inl err, e') \<Rightarrow> (Inl (engine_cause wr err), st'\<lparr>ws_Engine := e'\<rparr>)
      | Some (Inr t, e') \<Rightarrow> (Inr (), st'\<lparr>ws_Engine := e', ws_Task := t\<rparr>))"

definition publishReviewed :: "worker_remote \<Rightarrow> string \<Rightarrow> unit work" where
  "publishReviewed wr revision =
     wbind the_task (\<lambda>t.
     wbind (read_footprint wr (ExecutionConfig t) revision) (\<lambda>(footprint, footprintErr).
     wbind (authorizePublication wr revision footprint footprintErr) (\<lambda>_.
     wbind (publishTask wr) (\<lambda>pr.
     finishPublication wr pr))))"

subsection \<open>Repair rounds\<close>

text \<open>The repair count of a task without one would be a panic, which the pass below answers before a repair can start.\<close>

definition repair_completed :: "task \<Rightarrow> task" where
  "repair_completed t =
     (let progress = (case t_RepairProgress t of
            None \<Rightarrow> \<lparr>rp_Revision = [], rp_NoProgressRounds = 0, rp_AwaitingReview = False\<rparr> | Some p \<Rightarrow> p)
      in t\<lparr>t_RepairRounds := map_option (\<lambda>n. n + 1) (t_RepairRounds t),
           t_RepairProgress := Some (progress\<lparr>rp_Revision := rr_Revision (last (t_Reviews t)), rp_AwaitingReview := True\<rparr>)\<rparr>)"

definition repair :: "worker_remote \<Rightarrow> unit work" where
  "repair wr = wbind the_task (\<lambda>t.
     wbind (transition wr StatusRepairing) (\<lambda>_.
     wbind (invoke wr \<lparr>iv_Role = ''repair'', iv_Route = c_RepairRoute (ExecutionConfig t), iv_Slot = RepairSlot, iv_Reserved = False,
       iv_Judge = None, iv_Completed = repair_completed\<rparr>) (\<lambda>_. wret ())))"

definition progressed :: "string \<Rightarrow> repair_progress \<Rightarrow> repair_progress" where
  "progressed revision p =
     (if rp_Revision p \<noteq> revision then p\<lparr>rp_NoProgressRounds := 0\<rparr>
      else if rp_AwaitingReview p then p\<lparr>rp_NoProgressRounds := rp_NoProgressRounds p + 1\<rparr> else p)
     \<lparr>rp_Revision := revision, rp_AwaitingReview := False\<rparr>"

definition consume_repair :: "worker_remote \<Rightarrow> config \<Rightarrow> string \<Rightarrow> unit work" where
  "consume_repair wr cfg revision = wbind the_task (\<lambda>t.
     case t_RepairProgress t of
       None \<Rightarrow> wret ()
     | Some p \<Rightarrow>
         wbind (modify (\<lambda>t. t\<lparr>t_RepairProgress := Some (progressed revision p)\<rparr>)) (\<lambda>_.
         wbind (checkpointTask wr) (\<lambda>_.
         wguard (rp_NoProgressRounds (progressed revision p) < c_MaxNoProgressRounds cfg)
           (wrapped (''Repairs made no progress on the reviewed revision (max_no_progress_rounds '' @
              show_nat (unat (c_MaxNoProgressRounds cfg)) @ '')'') BlockedVerificationFailed))))"

definition unqualified :: "task \<Rightarrow> bool" where
  "unqualified t = (case rr_Maintenance (last (t_Reviews t)) of None \<Rightarrow> False | Some m \<Rightarrow> \<not> ma_Qualifies m)"

text \<open>The first half of a pass of the loop of \<open>execute\<close>: the revision, its review and, when the review qualifies it, the
  failures of its verification.\<close>

definition assess :: "worker_remote \<Rightarrow> config \<Rightarrow> (string \<times> string list option) work" where
  "assess wr cfg =
     wbind the_task (\<lambda>t.
     wbind (call wr (\<lambda>n. wr_Snapshot wr n cfg (t_Workspace t) (p_Title (t_Proposal t)))) (\<lambda>revision.
     wbind (perform wr (\<lambda>n. wr_Gitlinks wr n cfg (t_Workspace t) (t_ComparisonBase t) revision)) (\<lambda>_.
     wbind (wguard (revision \<noteq> t_SourceRevision t)
       (wrapped ''No changes were committed on top of the source revision'' BlockedVerificationFailed)) (\<lambda>_.
     wbind (revisionHasChanges wr cfg (t_Workspace t) (t_SourceRevision t) revision) (\<lambda>changed.
     wbind (wguard changed (wrapped ''The change set is empty against the source revision'' BlockedVerificationFailed)) (\<lambda>_.
     wbind (reviewRevision wr revision) (\<lambda>rv.
     wbind the_task (\<lambda>t1.
     if Review_Clean rv \<and> \<not> unqualified t1
     then wbind (verifyRevision wr revision) (\<lambda>errs. wret (revision, Some errs))
     else wret (revision, None)))))))))"

text \<open>The second half: the publication, or one more repair within the budget.\<close>

definition repair_again :: "worker_remote \<Rightarrow> config \<Rightarrow> string \<Rightarrow> unit work" where
  "repair_again wr cfg revision =
     wbind the_task (\<lambda>t.
     wbind (case t_RepairRounds t of None \<Rightarrow> wfail worker_panic | Some n \<Rightarrow> wguard (n < c_MaxRepairRounds cfg)
       (wrapped (''Repair budget exhausted (max_repair_rounds '' @ show_nat (unat (c_MaxRepairRounds cfg)) @ '')'')
         BlockedVerificationFailed)) (\<lambda>_.
     wbind (consume_repair wr cfg revision) (\<lambda>_.
     repair wr)))"

text \<open>One pass: it ends the work (True) or a repair ran and the loop goes on (False).\<close>

definition work_round :: "worker_remote \<Rightarrow> config \<Rightarrow> bool work" where
  "work_round wr cfg =
     wbind (assess wr cfg) (\<lambda>(revision, verified).
     if verified = Some []
     then wbind the_task (\<lambda>t.
          wbind (requireDefaultRevision wr cfg (t_DefaultRevision t)) (\<lambda>_.
          wbind (publishReviewed wr revision) (\<lambda>_. wret True)))
     else wbind (repair_again wr cfg revision) (\<lambda>_. wret False))"

fun rounds :: "nat \<Rightarrow> worker_remote \<Rightarrow> config \<Rightarrow> wstate \<Rightarrow> ((cause, unit) result \<times> wstate) option" where
  "rounds 0 wr cfg st = None"
| "rounds (Suc fuel) wr cfg st =
     (case work_round wr cfg st of
        (Inl c, st') \<Rightarrow> Some (Inl c, st')
      | (Inr True, st') \<Rightarrow> Some (Inr (), st')
      | (Inr False, st') \<Rightarrow> rounds fuel wr cfg st')"

text \<open>The part of \<open>execute\<close> before its loop: None when the task was already authorised and is published.\<close>

definition begin_work :: "task \<Rightarrow> task" where
  "begin_work t = t\<lparr>t_Error := None, t_BlockedReason := None,
     t_RepairRounds := Some (case t_RepairRounds t of None \<Rightarrow> AttemptReviews t | Some n \<Rightarrow> n)\<rparr>"

definition prepare :: "worker_remote \<Rightarrow> unit work" where
  "prepare wr =
     wbind (retryPreflight wr) (\<lambda>_.
     wbind the_task (\<lambda>t.
     wbind (ask wr (\<lambda>n. wr_ValidateRoutes wr n (ExecutionConfig t))) (\<lambda>routes.
     wbind (case routes of None \<Rightarrow> wret ()
            | Some err \<Rightarrow> wfail \<lparr>ca_Tree = Join [Reason BlockedRunnerUnavailable, ca_Tree err],
                ca_Text = BlockedReason_Error BlockedRunnerUnavailable @ '': '' @ ca_Text err, ca_Canceled = ca_Canceled err\<rparr>) (\<lambda>_.
     wbind (if t_ExecutionSession t = None then initializeTask wr else wret ()) (\<lambda>_.
     wbind the_task (\<lambda>t1.
     wbind (ask wr (\<lambda>n. wr_GitDir wr n (t_Workspace t1))) (\<lambda>ok.
     wbind (wguard ok (reason_cause BlockedWorkspaceInvalid)) (\<lambda>_.
     wbind (wguard (t_ComparisonBase t1 \<noteq> [])
       (wrapped ''Comparison base was not persisted; cancel this task and rediscover'' BlockedWorkspaceInvalid)) (\<lambda>_.
     runExecutor wr (t_ExecutionSession t = None))))))))))"

definition execute :: "nat \<Rightarrow> worker_remote \<Rightarrow> wstate \<Rightarrow> ((cause, unit) result \<times> wstate) option" where
  "execute fuel wr st =
     (let cfg = ExecutionConfig (ws_Task st) in
      case wbind (modify begin_work) (\<lambda>_. checkpointTask wr) st of
        (Inl c, st1) \<Rightarrow> Some (Inl c, st1)
      | (Inr _, st1) \<Rightarrow>
          (case t_OutputCommit (ws_Task st1) of
             Some commit \<Rightarrow> Some (publishReviewed wr commit st1)
           | None \<Rightarrow>
               (case prepare wr st1 of
                  (Inl c, st2) \<Rightarrow> Some (Inl c, st2)
                | (Inr _, st2) \<Rightarrow> rounds fuel wr cfg st2)))"

subsection \<open>Supervision\<close>

text \<open>A worker admitted while the service stops returns its task to the queue: the error to return, unless an operator
  cancelled the task (None), which the worker then goes on to settle.\<close>

definition defer_worker :: "worker_remote \<Rightarrow> wstate \<Rightarrow> cause option option \<times> wstate" where
  "defer_worker wr st =
     (let st' = wtick wr st; e = ws_Engine st'; env = wr_Env wr (ws_Calls st); i = t_ID (ws_Task st) in
      case map_of (tb_Tasks (en_DB e)) i of
        None \<Rightarrow> (Some None, st')
      | Some cur \<Rightarrow>
          if \<not> Status_Active (t_Status cur) then (Some None, st')
          else if CancelMarked (en_DB e) i then (None, st'\<lparr>ws_Task := cur\<rparr>)
          else case commitWorkerTaskLocked env (wr_Serial wr) (cur\<lparr>t_Status := StatusQueued\<rparr>) TaskRecovery e of
              (Inl err, e') \<Rightarrow> (Some (Some (engine_cause wr err)), st'\<lparr>ws_Engine := e'\<rparr>)
            | (Inr nxt, e') \<Rightarrow>
                (Some None, st'\<lparr>ws_Engine := engine_Event env (wr_Handle wr) (t_ID nxt) EventStatus (statusLabel (t_Status nxt)) e'\<rparr>))"

definition settle_failure :: "worker_remote \<Rightarrow> cause \<Rightarrow> bool \<Rightarrow> bool \<Rightarrow> cause option work" where
  "settle_failure wr err expired alreadyCancelled =
     (let timedOut = expired \<and> \<not> alreadyCancelled;
          taskErr = (if expired then plain_cause ''Task time limit exceeded'' else err)
      in
        wbind (ask wr (wr_Stopping wr)) (\<lambda>shuttingDown.
        wbind (\<lambda>st. let st' = wtick wr st in (Inr (CancelMarked (en_DB (ws_Engine st')) (t_ID (ws_Task st))), st')) (\<lambda>operatorCancelled.
        wbind the_task (\<lambda>t.
        wbind (ask wr (\<lambda>n. wr_Initialized wr n t)) (\<lambda>initialized.
        if shuttingDown \<and> \<not> operatorCancelled \<and> \<not> timedOut \<and> Status_Active (t_Status t) \<and> initialized
        then wbind (attempt (checkpointTask wr)) (\<lambda>r.
             case r of
               Inl c \<Rightarrow> wbind (emit_error wr EventWorkerError [] c) (\<lambda>_. wret (Some c))
             | Inr _ \<Rightarrow> wbind (emit wr EventInterrupted (ca_Text taskErr)) (\<lambda>_. wret None))
        else
          wbind (ask wr (wr_Done wr)) (\<lambda>ended.
          wbind (ask wr (wr_Stopping wr)) (\<lambda>stopping.
          let cancelled = (ended \<noteq> None \<or> expired) \<and> \<not> timedOut \<and> t_OutputCommit t = None \<and> (operatorCancelled \<or> \<not> stopping);
              t1 = (if cancelled then t\<lparr>t_BlockedReason := None, t_Error := Some cancelledByOperator\<rparr>
                    else let u = recordTaskError taskErr t in if expired then u\<lparr>t_BlockedReason := Some BlockedTimeout\<rparr> else u);
              t2 = t1\<lparr>t_Sessions := FailRunning (t_Sessions t1) (case t_Error t1 of Some m \<Rightarrow> m | None \<Rightarrow> [])\<rparr>
          in
            wbind (modify (\<lambda>_. t2)) (\<lambda>_.
            wbind (attempt (transition wr (if cancelled then StatusCancelled else StatusBlocked))) (\<lambda>r.
            case r of
              Inl c \<Rightarrow> wbind (emit_error wr EventWorkerError [] c) (\<lambda>_. wret (Some c))
            | Inr _ \<Rightarrow> wbind (emit wr EventError (ca_Text taskErr)) (\<lambda>_. wret None))))))))))"

text \<open>The worker's own context ends with its parent's or when its time expires; the expiry is read after the
  work has joined.\<close>

definition superviseWork :: "nat \<Rightarrow> worker_remote \<Rightarrow> wstate \<Rightarrow> (cause option \<times> wstate) option" where
  "superviseWork fuel wr st =
     (case execute fuel wr st of
        None \<Rightarrow> None
      | Some (Inr _, st1) \<Rightarrow> Some (None, st1)
      | Some (Inl err, st1) \<Rightarrow>
          if t_Status (ws_Task st1) = StatusPublished
          then Some (Some err, snd (emit wr EventError (ca_Text err) st1))
          else let (expired, alreadyCancelled) = wr_Deadline wr (ws_Calls st1) in
            (case settle_failure wr err expired alreadyCancelled (wtick wr st1) of
               (Inl c, st2) \<Rightarrow> Some (Some c, st2)
             | (Inr r, st2) \<Rightarrow> Some (r, st2)))"

definition superviseTask :: "nat \<Rightarrow> worker_remote \<Rightarrow> wstate \<Rightarrow> (cause option \<times> wstate) option" where
  "superviseTask fuel wr st =
     (if wr_Stopping wr (ws_Calls st)
      then (case defer_worker wr (wtick wr st) of
              (Some err, st') \<Rightarrow> Some (err, st')
            | (None, st') \<Rightarrow> superviseWork fuel wr st')
      else superviseWork fuel wr (wtick wr st))"

text \<open>\<open>runTask\<close>: registration, supervision and the settlement of the exit. None is the panic of a second registration, or
  work that needs more fuel.\<close>

definition runTask :: "nat \<Rightarrow> worker_remote \<Rightarrow> env \<Rightarrow> task \<Rightarrow> engine \<Rightarrow> engine option" where
  "runTask fuel wr env t e =
     (case registerTaskWorker t executionWorker e of
        None \<Rightarrow> None
      | Some (serial, e1) \<Rightarrow>
          let wr = wr\<lparr>wr_Serial := serial\<rparr> in
          (case superviseTask fuel wr \<lparr>ws_Engine = e1, ws_Task = t, ws_Calls = 0, ws_Published = []\<rparr> of
             None \<Rightarrow> None
           | Some (err, st) \<Rightarrow>
               let st' = wtick wr st; n = ws_Calls st
               in Some (finishTaskWorker (mr_Describe (wr_Merge wr)) (wr_Initialized wr n) (wr_Stopping wr n) (wr_Env wr n) (wr_Handle wr)
                    (t_ID t) err (ws_Engine st'))))"

subsection \<open>Lemmas: commits keep the worker's record\<close>

lemma txCommitTask_value:
  assumes "txCommitTask expected nxt change db = Inr (u, db')" "change \<noteq> TaskSettlement"
  shows "u = nxt \<and> tb_Tasks db' = AList.update (t_ID nxt) nxt (tb_Tasks db)"
  using assms by (auto simp: txCommitTask_def finish_commit_def put_task_def Let_def split: option.splits if_splits)

lemma commitWorkerTaskLocked_value:
  assumes "commitWorkerTaskLocked env serial t change e = (Inr u, e')" "change \<noteq> TaskSettlement"
  shows "u = t\<lparr>t_UpdatedAt := env_Now env\<rparr> \<and> tb_Tasks (en_DB e') = AList.update (t_ID t) u (tb_Tasks (en_DB e))"
proof -
  from assms(1) obtain job where "worker_owns serial (t_ID t) e = Some job"
    by (auto simp: commitWorkerTaskLocked_def split: option.splits)
  with assms have "txCommitTask (tj_Committed job) (t\<lparr>t_UpdatedAt := env_Now env\<rparr>) change (en_DB e) = Inr (u, en_DB e')"
    by (auto simp: commitWorkerTaskLocked_def on_db_def CommitTask_def runTx_def set_job_def Let_def
        split: prod.splits sum.splits)
  from txCommitTask_value [OF this assms(2)] show ?thesis by simp
qed

lemma transitionTask_value:
  assumes "transitionTask env h serial t s e = (Inr u, e')" "\<not> settles_status s"
  shows "u = t\<lparr>t_Status := s, t_UpdatedAt := env_Now env\<rparr>"
  using assms commitWorkerTaskLocked_value
  by (fastforce simp: transitionTask_def split: prod.splits sum.splits)

subsection \<open>What a step of the worker keeps\<close>

text \<open>A step keeps an observation of the worker's task when it neither changes it nor publishes, whatever its result.\<close>

definition keeps :: "(task \<Rightarrow> 'o) \<Rightarrow> 'a work \<Rightarrow> bool" where
  "keeps g m \<longleftrightarrow> (\<forall>st. ws_Published (snd (m st)) = ws_Published st \<and> g (ws_Task (snd (m st))) = g (ws_Task st))"

named_theorems keeps_intros

lemma keepsD: "keeps g m \<Longrightarrow> m st = (r, st') \<Longrightarrow> ws_Published st' = ws_Published st \<and> g (ws_Task st') = g (ws_Task st)"
  unfolding keeps_def by (metis snd_conv)

lemma keeps_wbind [keeps_intros]: "keeps g m \<Longrightarrow> (\<And>a. keeps g (f a)) \<Longrightarrow> keeps g (wbind m f)"
  unfolding keeps_def wbind_def by (simp split: prod.splits sum.splits) (metis snd_conv)

lemma keeps_simple [keeps_intros]:
  "keeps g (wret a)" "keeps g (wfail c)" "keeps g the_task" "keeps g (ask wr q)" "keeps g (emit wr kind message)"
  by (simp_all add: keeps_def wret_def wfail_def the_task_def ask_def emit_def wtick_def Let_def)

lemma keeps_emit_error [keeps_intros]: "keeps g (emit_error wr kind message c)"
  by (simp add: keeps_def emit_error_def emit_def wtick_def Let_def)

lemma keeps_wtry [keeps_intros]: "keeps g (wtry r)"
  by (auto simp: wtry_def intro: keeps_intros split: sum.split)

lemma keeps_calls [keeps_intros]:
  "keeps g (call wr q)" "keeps g (perform wr c)" "keeps g (wguard ok x)"
  by (auto simp: call_def perform_def wguard_def intro!: keeps_intros split: option.split)

lemma keeps_modify: "(\<And>t. g (f t) = g t) \<Longrightarrow> keeps g (modify f)"
  by (simp add: keeps_def modify_def)

lemma keeps_attempt [keeps_intros]: "keeps g m \<Longrightarrow> keeps g (attempt m)"
  by (auto simp: keeps_def attempt_def split: prod.splits) (metis snd_conv)+

lemma keeps_findSession [keeps_intros]: "keeps g (findSession thread role)"
  by (auto simp: findSession_def intro!: keeps_intros split: option.split)

lemma keeps_reserve [keeps_intros]: "keeps g (reserve wr measured role r)"
  by (auto simp: keeps_def reserve_def wtick_def Let_def split: prod.splits sum.splits)

lemma keeps_admit [keeps_intros]: "keeps g (admit wr role r)"
  by (auto simp: admit_def intro!: keeps_intros)

lemma keeps_evidence [keeps_intros]: "keeps g (keepSandboxEvidence wr command rec)"
  by (auto simp: keepSandboxEvidence_def intro!: keeps_intros split: option.split)

lemma keeps_dependency [keeps_intros]: "keeps g (publishedDependency wr i)"
  by (auto simp: keeps_def publishedDependency_def wtick_def Let_def split: option.splits)

text \<open>A step that, when it succeeds, changes an observation the way one function of the task does.\<close>

definition applies :: "(task \<Rightarrow> 'o) \<Rightarrow> (task \<Rightarrow> task) \<Rightarrow> 'a work \<Rightarrow> bool" where
  "applies g f m \<longleftrightarrow> (\<forall>st a st'. m st = (Inr a, st') \<longrightarrow>
     ws_Published st' = ws_Published st \<and> (\<exists>u. g u = g (ws_Task st) \<and> g (ws_Task st') = g (f u)))"

lemma applies_before:
  assumes "keeps g m" "\<And>a. applies g f (k a)"
  shows "applies g f (wbind m k)"
  unfolding applies_def
proof (intro allI impI)
  fix st a st'
  assume "wbind m k st = (Inr a, st')"
  then obtain b st1 where m: "m st = (Inr b, st1)" and k: "k b st1 = (Inr a, st')"
    by (auto simp: wbind_def split: prod.splits sum.splits)
  from keepsD [OF assms(1) m] assms(2) [of b, unfolded applies_def, rule_format, OF k]
  show "ws_Published st' = ws_Published st \<and> (\<exists>u. g u = g (ws_Task st) \<and> g (ws_Task st') = g (f u))" by simp
qed

lemma applies_here:
  assumes "\<And>a. keeps g (k a)"
  shows "applies g f (wbind (modify f) k)"
  unfolding applies_def
proof (intro allI impI)
  fix st a st'
  assume "wbind (modify f) k st = (Inr a, st')"
  then have "k () (st\<lparr>ws_Task := f (ws_Task st)\<rparr>) = (Inr a, st')" by (simp add: wbind_def modify_def)
  from keepsD [OF assms this]
  show "ws_Published st' = ws_Published st \<and> (\<exists>u. g u = g (ws_Task st) \<and> g (ws_Task st') = g (f u))" by auto
qed

text \<open>An observation that looks at none of the fields a turn, a review or the preparation of a workspace write.\<close>

locale observer =
  fixes g :: "task \<Rightarrow> 'o"
  assumes g_updated: "g (t\<lparr>t_UpdatedAt := x\<rparr>) = g t"
    and g_status: "g (t\<lparr>t_Status := s\<rparr>) = g t"
    and g_sessions: "g (t\<lparr>t_Sessions := ss\<rparr>) = g t"
    and g_execution: "g (t\<lparr>t_ExecutionSession := es\<rparr>) = g t"
    and g_repair: "g (t\<lparr>t_RepairSession := rs\<rparr>) = g t"
    and g_reviews: "g (t\<lparr>t_Reviews := rr\<rparr>) = g t"
    and g_source: "g (t\<lparr>t_SourceRevision := sr\<rparr>) = g t"
    and g_workspace: "g (t\<lparr>t_Workspace := w\<rparr>) = g t"
    and g_base: "g (t\<lparr>t_ComparisonBase := cb\<rparr>) = g t"
    and g_progress: "g (t\<lparr>t_RepairProgress := rp\<rparr>) = g t"
begin

lemma keeps_commit:
  assumes "change \<noteq> TaskSettlement"
  shows "keeps g (commitWorkerTask wr change)"
proof -
  have "g u = g t" if "commitWorkerTaskLocked env serial t change e = (Inr u, e')" for env serial t e u e'
    using commitWorkerTaskLocked_value [OF that assms] g_updated by simp
  then show ?thesis
    by (auto simp: keeps_def commitWorkerTask_def wtick_def Let_def split: prod.splits sum.splits)
qed

lemma keeps_checkpoint: "keeps g (checkpointTask wr)"
  by (simp add: checkpointTask_def keeps_commit)

lemma keeps_transition:
  assumes "\<not> settles_status s"
  shows "keeps g (transition wr s)"
proof -
  have "g u = g t" if "transitionTask env h serial t s e = (Inr u, e')" for env h serial t e u e'
    using transitionTask_value [OF that assms] g_updated g_status by simp
  then show ?thesis
    by (auto simp: keeps_def transition_def wtick_def Let_def split: prod.splits sum.splits)
qed

lemma g_map_session: "g (map_session thread role f t) = g t"
  by (simp add: map_session_def g_sessions split: option.split)

lemma g_set_slot: "g (set_slot slot v t) = g t"
  by (simp add: set_slot_def g_execution g_repair split: session_slot.split)

lemma keeps_updateSession: "keeps g (updateSession thread role f)"
  by (auto simp: updateSession_def g_map_session intro!: keeps_intros keeps_modify)

lemmas turn_intros = keeps_intros keeps_checkpoint keeps_updateSession keeps_modify

lemma keeps_resume: "keeps g (resume_session iv)"
  by (auto simp: resume_session_def intro!: keeps_intros split: option.split)

lemma keeps_start_fresh: "keeps g (start_fresh wr iv)"
  by (auto simp: start_fresh_def intro!: keeps_intros split: sum.split)

lemma keeps_replace: "keeps g (replace_session wr iv thread err)"
proof -
  have "keeps g (\<lambda>st. case checkpointTask wr st of
               (Inl saveErr, st') \<Rightarrow> (Inl (join_cause (sx_Cause err) saveErr), st')
             | (Inr _, st') \<Rightarrow> (Inr (), st'))"
    using keeps_checkpoint [of wr] by (auto simp: keeps_def split: prod.splits sum.splits) (metis snd_conv)+
  then show ?thesis
    unfolding replace_session_def by (auto simp: g_set_slot intro!: turn_intros keeps_start_fresh)
qed

lemma keeps_startInvocation: "keeps g (startInvocation wr iv resume)"
  unfolding startInvocation_def Let_def
  by (auto simp: g_map_session intro!: turn_intros keeps_replace split: sum.split option.split)

lemma keeps_record_start: "keeps g (record_start wr iv session resumed)"
  by (auto simp: record_start_def g_set_slot g_sessions intro!: turn_intros)

lemma keeps_turn:
  assumes "\<And>judge thread answer. iv_Judge iv = Some judge \<Longrightarrow> keeps g (judge thread answer)"
  shows "keeps g (turn wr iv session)"
proof -
  have "keeps g (turn_started wr iv session)"
    by (auto simp: turn_started_def g_map_session intro!: turn_intros)
  then show ?thesis
    unfolding turn_def by (auto intro!: turn_intros assms split: sum.split option.split)
qed

lemma keeps_invoke:
  assumes "\<And>judge thread answer. iv_Judge iv = Some judge \<Longrightarrow> keeps g (judge thread answer)" "\<And>t. g (iv_Completed iv t) = g t"
  shows "keeps g (invoke wr iv)"
proof -
  have "keeps g (turn wr iv session)" for session using assms(1) by (rule keeps_turn)
  then show ?thesis
    unfolding invoke_def
    by (auto simp: assms(2) g_map_session intro!: turn_intros keeps_resume keeps_startInvocation keeps_record_start)
qed

text \<open>A successful turn applies its accounting once.\<close>

lemma invoke_completed:
  assumes "\<And>judge thread answer. iv_Judge iv = Some judge \<Longrightarrow> keeps g (judge thread answer)"
  shows "applies g (iv_Completed iv) (invoke wr iv)"
proof -
  have "keeps g (turn wr iv session)" for session using assms by (rule keeps_turn)
  then show ?thesis
    unfolding invoke_def
    by (auto simp: g_map_session intro!: applies_before applies_here turn_intros keeps_resume keeps_startInvocation keeps_record_start)
qed

lemma keeps_at: "keeps g (ensureWorkspaceAt wr cfg w revision)"
  by (auto simp: ensureWorkspaceAt_def intro!: keeps_intros)

lemma keeps_default: "keeps g (requireDefaultRevision wr cfg want)"
  by (auto simp: requireDefaultRevision_def intro!: keeps_intros)

lemma keeps_changes: "keeps g (revisionHasChanges wr cfg w source revision)"
  by (auto simp: revisionHasChanges_def intro!: keeps_intros)

lemma keeps_judge: "keeps g (review_judge wr maintenance revision complete thread answer)"
  unfolding review_judge_def
  by (auto simp: g_reviews intro!: turn_intros keeps_at split: sum.split prod.split)

lemma keeps_review: "keeps g (reviewRevision wr revision)"
  unfolding reviewRevision_def Let_def
  by (auto intro!: keeps_intros keeps_transition keeps_invoke keeps_judge simp: settles_status_def split: option.split sum.split)

lemma keeps_consume: "keeps g (consume_repair wr cfg revision)"
  by (auto simp: consume_repair_def g_progress intro!: turn_intros split: option.split)

lemma keeps_checkWorkspace: "keeps g (checkWorkspace wr)"
  by (auto simp: checkWorkspace_def Let_def intro!: keeps_intros keeps_at)

lemma keeps_authorized_by: "keeps g (authorized_by wr t source ok ds)"
  by (induction wr t source ok ds rule: authorized_by.induct) (auto intro!: keeps_intros)

lemma keeps_preflight: "keeps g (retryPreflight wr)"
  unfolding retryPreflight_def Let_def checkSandboxTimeouts_def
  by (auto intro!: keeps_intros keeps_default keeps_authorized_by keeps_checkWorkspace split: option.split)

lemma keeps_outputs: "keeps g (dependency_outputs wr cfg target current ds)"
  by (induction wr cfg target current ds rule: dependency_outputs.induct) (auto intro!: keeps_intros split: option.split)

lemma keeps_open: "keeps g (open_workspace wr cfg)"
  unfolding open_workspace_def by (auto simp: g_workspace g_base intro!: turn_intros keeps_commit)

lemma keeps_initialize: "keeps g (initializeTask wr)"
  unfolding initializeTask_def Let_def
  by (auto simp: g_source intro!: turn_intros keeps_commit keeps_outputs keeps_default keeps_open keeps_checkWorkspace split: option.split)

lemma keeps_executor: "keeps g (runExecutor wr reserved)"
  unfolding runExecutor_def by (auto intro!: keeps_intros keeps_invoke)

lemma keeps_prepare: "keeps g (prepare wr)"
  unfolding prepare_def
  by (auto intro!: keeps_intros keeps_preflight keeps_initialize keeps_executor split: option.split)

lemma keeps_footprint: "keeps g (read_footprint wr cfg revision)"
  unfolding read_footprint_def by (auto intro!: keeps_intros split: option.split prod.split)

lemma keeps_verification_checkout: "keeps g (verificationCheckout wr revision)"
  unfolding verificationCheckout_def Let_def by (auto intro!: keeps_intros split: option.split)

lemma keeps_discard: "keeps g (discardCheckout wr root)"
  unfolding discardCheckout_def by (auto intro!: keeps_intros split: option.split)

lemma keeps_run_check: "keeps g (runCheckCommand wr cfg checkout command revision fresh)"
  unfolding runCheckCommand_def by (auto intro!: keeps_intros split: prod.split)

end

text \<open>An observation that does not look at the verification results either.\<close>

locale verification_observer = observer +
  assumes g_verification: "g (t\<lparr>t_Verification := vs\<rparr>) = g t"
begin

lemma keeps_verifyCommand: "keeps g (verifyCommand wr cfg checkout revision command fresh)"
  unfolding verifyCommand_def record_check_def Let_def
  by (auto simp: g_verification intro!: turn_intros keeps_run_check split: option.split)

lemma keeps_verify_loop: "keeps g (verify_loop wr cfg checkout revision fresh commands)"
  by (induction wr cfg checkout revision fresh commands rule: verify_loop.induct) (auto intro!: keeps_intros keeps_verifyCommand)

lemma keeps_verifyRevision: "keeps g (verifyRevision wr revision)"
  unfolding verifyRevision_def Let_def
  by (auto intro!: keeps_intros keeps_transition keeps_at keeps_verification_checkout keeps_verify_loop keeps_discard
      simp: settles_status_def)

end

text \<open>The two observations the properties use.\<close>

definition kept_record :: "task \<Rightarrow> verification list \<times> u64 option \<times> config \<times> attempt_policy option \<times> string option" where
  "kept_record t = (t_Verification t, t_RepairRounds t, t_Config t, t_AttemptPolicy t, t_OutputCommit t)"

definition kept_policy :: "task \<Rightarrow> u64 option \<times> config \<times> attempt_policy option \<times> string option" where
  "kept_policy t = (t_RepairRounds t, t_Config t, t_AttemptPolicy t, t_OutputCommit t)"

interpretation rec: observer kept_record
  by unfold_locales (simp_all add: kept_record_def)

interpretation pol: verification_observer kept_policy
  by unfold_locales (simp_all add: kept_policy_def)

interpretation ver: observer t_Verification
  by unfold_locales simp_all

subsection \<open>Lemmas: what is published\<close>

lemma wbindE:
  assumes "wbind m k st = (Inr a, st')"
  obtains b st1 where "m st = (Inr b, st1)" "k b st1 = (Inr a, st')"
  using assms by (auto simp: wbind_def split: prod.splits sum.splits)

text \<open>The passing results of a list of commands, at the end of a task's verification.\<close>

definition passed :: "verification list \<Rightarrow> string \<Rightarrow> string list \<Rightarrow> verification list \<Rightarrow> bool" where
  "passed before revision commands after \<longleftrightarrow>
     (\<exists>batch. after = before @ batch \<and> map v_Command batch = commands \<and> (\<forall>v \<in> set batch. v_Success v \<and> v_Revision v = revision))"

definition passes :: "string \<Rightarrow> string list \<Rightarrow> string list work \<Rightarrow> bool" where
  "passes revision commands m \<longleftrightarrow>
     (\<forall>st st'. m st = (Inr [], st') \<longrightarrow> passed (t_Verification (ws_Task st)) revision commands (t_Verification (ws_Task st')))"

lemma passes_before:
  assumes "keeps t_Verification m" "\<And>a. passes revision commands (k a)"
  shows "passes revision commands (wbind m k)"
  unfolding passes_def
proof (intro allI impI)
  fix st st'
  assume "wbind m k st = (Inr [], st')"
  then obtain b st1 where m: "m st = (Inr b, st1)" and k: "k b st1 = (Inr [], st')" by (rule wbindE)
  from keepsD [OF assms(1) m] assms(2) [of b, unfolded passes_def, rule_format, OF k]
  show "passed (t_Verification (ws_Task st)) revision commands (t_Verification (ws_Task st'))" by simp
qed

lemma passes_fail: "passes revision commands (wfail c)"
  by (simp add: passes_def wfail_def)

lemma passes_record: "passes revision [command] (record_check wr revision command out)"
  unfolding passes_def
proof (intro allI impI)
  fix st st'
  assume run: "record_check wr revision command out st = (Inr [], st')"
  obtain shown where shown: "shown = evidenceText (wr_SignalName wr) (wr_Secrets wr) out
      (outputLimit - int (length (outcome_note (wr_Secrets wr) out))) @ outcome_note (wr_Secrets wr) out" by blast
  define v where "v now = \<lparr>v_Command = command, v_Success = (co_IntactErr out = None \<and> co_Intact out \<and> \<not> outcome_failed out),
    v_Output = shown, v_Revision = revision, v_CreatedAt = now, v_Sandbox = co_Sandbox out\<rparr>" for now
  from run obtain now st1 st2 where now: "ask wr (\<lambda>n. env_Now (wr_Env wr n)) st = (Inr now, st1)"
    and cp: "checkpointTask wr (st1\<lparr>ws_Task := (ws_Task st1)\<lparr>t_Verification := t_Verification (ws_Task st1) @ [v now]\<rparr>\<rparr>) = (Inr (), st2)"
    and fin: "(case co_IntactErr out of
          Some err \<Rightarrow> wfail (prefixed ''Workspace state check failed during verification'' err)
        | None \<Rightarrow>
            if \<not> co_Intact out then wfail (reason_cause BlockedWorkspaceInvalid)
            else wret (if outcome_failed out then [command @ '': '' @ shown] else [])) st2 = (Inr [], st')"
    unfolding record_check_def Let_def shown [symmetric] v_def [symmetric] by (elim wbindE) (auto simp: modify_def)
  have ok: "co_IntactErr out = None" "co_Intact out" "\<not> outcome_failed out" "st' = st2"
    using fin by (auto simp: wfail_def wret_def split: option.splits if_splits)
  have "t_Verification (ws_Task st') = t_Verification (ws_Task st1) @ [v now]" using keepsD [OF ver.keeps_checkpoint cp] ok(4) by simp
  moreover have "t_Verification (ws_Task st1) = t_Verification (ws_Task st)" using keepsD [OF keeps_simple(4) now, of t_Verification] by simp
  ultimately show "passed (t_Verification (ws_Task st)) revision [command] (t_Verification (ws_Task st'))"
    using ok by (simp add: passed_def v_def)
qed

lemma passes_command: "passes revision [command] (verifyCommand wr cfg checkout revision command fresh)"
  unfolding verifyCommand_def
  by (auto intro!: passes_before keeps_intros ver.keeps_run_check passes_record passes_fail)

lemma passes_loop: "passes revision commands (verify_loop wr cfg checkout revision fresh commands)"
proof (induction wr cfg checkout revision fresh commands rule: verify_loop.induct)
  case (1 wr cfg checkout revision fresh)
  then show ?case by (simp add: passes_def passed_def wret_def)
next
  case (2 wr cfg checkout revision fresh command commands)
  show ?case
    unfolding passes_def
  proof (intro allI impI)
    fix st st'
    assume "verify_loop wr cfg checkout revision fresh (command # commands) st = (Inr [], st')"
    then obtain st1 where one: "verifyCommand wr cfg checkout revision command fresh st = (Inr [], st1)"
      and rest: "verify_loop wr cfg checkout revision False commands st1 = (Inr [], st')"
      by (auto simp: wret_def elim!: wbindE)
    from passes_command [unfolded passes_def, rule_format, OF one] 2 [unfolded passes_def, rule_format, OF rest]
    show "passed (t_Verification (ws_Task st)) revision (command # commands) (t_Verification (ws_Task st'))"
      by (auto simp: passed_def)
  qed
qed

lemma passes_attempt:
  assumes "passes revision commands m" "\<And>r. keeps t_Verification (d r)"
  shows "passes revision commands (wbind (attempt m) (\<lambda>r. wbind (d r) (\<lambda>_. wtry r)))"
  unfolding passes_def
proof (intro allI impI)
  fix st st'
  assume "wbind (attempt m) (\<lambda>r. wbind (d r) (\<lambda>_. wtry r)) st = (Inr [], st')"
  then obtain st1 u where m: "m st = (Inr [], st1)" and d: "d (Inr []) st1 = (Inr u, st')"
    by (auto simp: attempt_def wtry_def wret_def wfail_def elim!: wbindE split: prod.splits sum.splits)
  from assms(1) [unfolded passes_def, rule_format, OF m] keepsD [OF assms(2) d]
  show "passed (t_Verification (ws_Task st)) revision commands (t_Verification (ws_Task st'))" by simp
qed

lemma verifyRevision_passed:
  assumes "verifyRevision wr revision st = (Inr [], st')"
  shows "passed (t_Verification (ws_Task st)) revision (c_VerificationCommands (ExecutionConfig (ws_Task st))) (t_Verification (ws_Task st'))"
proof -
  let ?cfg = "ExecutionConfig (ws_Task st)"
  have "passes revision (c_VerificationCommands ?cfg)
     (wbind (transition wr StatusVerifying) (\<lambda>_.
     wbind (ensureWorkspaceAt wr ?cfg (t_Workspace (ws_Task st)) revision) (\<lambda>_.
     wbind (verificationCheckout wr revision) (\<lambda>checkout.
     wbind (attempt (verify_loop wr ?cfg checkout revision True (c_VerificationCommands ?cfg))) (\<lambda>r.
     wbind (discardCheckout wr (verificationRoot (ws_Task st))) (\<lambda>_.
     wtry r))))))"
    by (intro passes_before passes_attempt passes_loop ver.keeps_transition ver.keeps_at ver.keeps_verification_checkout ver.keeps_discard)
      (simp add: settles_status_def)
  with assms show ?thesis
    by (auto simp: verifyRevision_def Let_def the_task_def wbind_def passes_def)
qed

text \<open>A publication the service may ask for: the task is saved as publishing, at a commit its latest review authorises.\<close>

definition authorized_publication :: "task \<times> engine \<Rightarrow> string \<Rightarrow> bool" where
  "authorized_publication p commit \<longleftrightarrow>
     t_OutputCommit (fst p) = Some commit \<and> t_Status (fst p) = StatusPublishing \<and> ReviewAuthorizes (fst p) commit \<and>
     map_of (tb_Tasks (en_DB (snd p))) (t_ID (fst p)) = Some (fst p)"

text \<open>The last results of the task are passes of every configured command at the commit.\<close>

definition verified_at :: "task \<Rightarrow> string \<Rightarrow> bool" where
  "verified_at t commit \<longleftrightarrow> (\<exists>before. passed before commit (c_VerificationCommands (t_Config t)) (t_Verification t))"

lemma authorizePublication_value:
  assumes "authorizePublication wr revision footprint footprintErr st = (Inr u, st')"
  shows "ws_Published st' = ws_Published st" and "authorized_publication (ws_Task st', ws_Engine st') revision"
    and "t_Verification (ws_Task st') = t_Verification (ws_Task st)" "t_Config (ws_Task st') = t_Config (ws_Task st)"
proof -
  define t where "t = ws_Task st"
  define env where "env = wr_Env wr (ws_Calls st)"
  define nxt where "nxt = (if c_DeliveryMode (t_Config t) = DeliveryModeMaintenance then t\<lparr>t_MaintenanceFootprint := footprint\<rparr> else t)
    \<lparr>t_OutputCommit := Some revision, t_Status := StatusPublishing\<rparr>"
  from assms obtain e1 committed e2 where review: "ReviewAuthorizes t revision"
    and commit: "commitWorkerTaskLocked env (wr_Serial wr) nxt TaskAuthorizePublication e1 = (Inr committed, e2)"
    and st': "st' = (wtick wr st)\<lparr>ws_Task := committed,
      ws_Engine := engine_Event env (wr_Handle wr) (t_ID committed) EventStatus (statusLabel (t_Status committed)) e2\<rparr>"
    unfolding authorizePublication_def Let_def t_def [symmetric] env_def [symmetric] nxt_def [symmetric]
    by (auto split: option.splits if_splits prod.splits sum.splits)
  have saved: "committed = nxt\<lparr>t_UpdatedAt := env_Now env\<rparr>" "tb_Tasks (en_DB e2) = AList.update (t_ID nxt) committed (tb_Tasks (en_DB e1))"
    using commitWorkerTaskLocked_value [OF commit] by simp_all
  have kept: "t_ID nxt = t_ID t" "t_Verification nxt = t_Verification t" "t_Config nxt = t_Config t"
    "ReviewAuthorizes committed revision = ReviewAuthorizes t revision"
    unfolding saved(1) nxt_def by (simp_all add: ReviewAuthorizes_def)
  have "ReviewAuthorizes committed revision" using review kept(4) by simp
  moreover have "map_of (tb_Tasks (en_DB e2)) (t_ID committed) = Some committed"
    using saved by (simp add: update_conv')
  ultimately show "authorized_publication (ws_Task st', ws_Engine st') revision"
    using saved by (simp add: authorized_publication_def st' engine_Event_def store_Event_def txRepositoryEvent_def nxt_def split del: if_split)
  show "ws_Published st' = ws_Published st" by (simp add: st' wtick_def)
  show "t_Verification (ws_Task st') = t_Verification (ws_Task st)" "t_Config (ws_Task st') = t_Config (ws_Task st)"
    using saved(1) kept by (simp_all add: st' t_def)
qed

text \<open>What a step adds to the log of publications.\<close>

definition logged :: "(task \<times> engine \<Rightarrow> bool) \<Rightarrow> wstate \<Rightarrow> wstate \<Rightarrow> bool" where
  "logged Q st st' \<longleftrightarrow> (\<forall>p \<in> set (ws_Published st'). p \<in> set (ws_Published st) \<or> Q p)"

lemma logged_refl: "ws_Published st' = ws_Published st \<Longrightarrow> logged Q st st'"
  by (simp add: logged_def)

lemma logged_trans: "logged Q st st1 \<Longrightarrow> logged Q st1 st' \<Longrightarrow> logged Q st st'"
  by (auto simp: logged_def)

lemma wbind_cases:
  assumes "wbind m k st = (r, st')"
  obtains c where "m st = (Inl c, st')" "r = Inl c" | b st1 where "m st = (Inr b, st1)" "k b st1 = (r, st')"
  using assms by (auto simp: wbind_def split: prod.splits sum.splits)

lemma authorize_quiet: "ws_Published (snd (authorizePublication wr revision footprint footprintErr st)) = ws_Published st"
  by (auto simp: authorizePublication_def wtick_def Let_def split: option.splits if_splits prod.splits sum.splits)

lemma finish_quiet: "ws_Published (snd (finishPublication wr pr st)) = ws_Published st"
  by (auto simp: finishPublication_def wtick_def Let_def split: option.splits prod.splits sum.splits)

lemma publishReviewed_logged:
  assumes run: "publishReviewed wr revision st = (r, st')"
    and Q: "\<And>p. authorized_publication p revision \<Longrightarrow> t_Verification (fst p) = t_Verification (ws_Task st) \<Longrightarrow>
      t_Config (fst p) = t_Config (ws_Task st) \<Longrightarrow> Q p"
  shows "logged Q st st'"
proof -
  let ?cfg = "ExecutionConfig (ws_Task st)"
  have run': "wbind (read_footprint wr ?cfg revision) (\<lambda>(footprint, footprintErr).
     wbind (authorizePublication wr revision footprint footprintErr) (\<lambda>_.
     wbind (publishTask wr) (\<lambda>pr. finishPublication wr pr))) st = (r, st')"
    using run by (simp add: publishReviewed_def wbind_def the_task_def)
  show ?thesis
  proof (cases rule: wbind_cases [OF run'])
    case (1 c)
    then show ?thesis using keepsD [OF rec.keeps_footprint 1(1)] by (simp add: logged_refl)
  next
    case (2 fp st1)
    obtain footprint footprintErr where fp: "fp = (footprint, footprintErr)" by (cases fp)
    have k1: "ws_Published st1 = ws_Published st" "kept_record (ws_Task st1) = kept_record (ws_Task st)"
      using keepsD [OF rec.keeps_footprint 2(1)] by simp_all
    from 2(2) have "wbind (authorizePublication wr revision footprint footprintErr) (\<lambda>_.
        wbind (publishTask wr) (\<lambda>pr. finishPublication wr pr)) st1 = (r, st')" by (simp add: fp)
    then show ?thesis
    proof (cases rule: wbind_cases)
      case (1 c)
      then show ?thesis using authorize_quiet [of wr revision footprint footprintErr st1] k1 by (simp add: logged_refl)
    next
      case (2 u st2)
      note auth = authorizePublication_value [OF 2(1)]
      have "Q (ws_Task st2, ws_Engine st2)" using auth(2-4) k1(2) by (intro Q) (simp_all add: kept_record_def)
      moreover have "ws_Published (snd (publishTask wr st2)) = ws_Published st2 @ [(ws_Task st2, ws_Engine st2)]"
        by (simp add: publishTask_def wtick_def Let_def)
      moreover have "ws_Published st' = ws_Published (snd (publishTask wr st2))"
        using 2(2) by (cases rule: wbind_cases) (metis snd_conv finish_quiet)+
      ultimately show ?thesis using auth(1) k1(1) by (simp add: logged_def)
    qed
  qed
qed

lemma keeps_assess: "keeps kept_policy (assess wr cfg)"
  unfolding assess_def
  by (auto intro!: keeps_intros pol.keeps_changes pol.keeps_review pol.keeps_verifyRevision)

lemma wguardD: "wguard ok c st = (Inr u, st') \<Longrightarrow> ok \<and> st' = st"
  by (auto simp: wguard_def wret_def wfail_def split: if_splits)

text \<open>A pass that verified its revision leaves the passing results at the end of the task's verification.\<close>

lemma assess_verified:
  assumes "assess wr cfg st = (Inr (revision, Some []), st')"
  shows "verified_at (ws_Task st') revision"
proof -
  from assms obtain st1 where verify: "verifyRevision wr revision st1 = (Inr [], st')"
    unfolding assess_def by (elim wbindE) (auto simp: wret_def elim!: wbindE split: if_splits)
  have "kept_policy (ws_Task st') = kept_policy (ws_Task st1)" using keepsD [OF pol.keeps_verifyRevision verify] by simp
  then have "c_VerificationCommands (t_Config (ws_Task st')) = c_VerificationCommands (ExecutionConfig (ws_Task st1))"
    by (simp add: kept_policy_def ExecutionConfig_def Policy_Apply_def split: option.split)
  with verifyRevision_passed [OF verify] show ?thesis by (auto simp: verified_at_def)
qed

lemma repair_applies: "applies kept_policy repair_completed (repair wr)"
proof -
  have "applies kept_policy repair_completed (invoke wr \<lparr>iv_Role = ''repair'', iv_Route = r, iv_Slot = RepairSlot, iv_Reserved = False,
       iv_Judge = None, iv_Completed = repair_completed\<rparr>)" for r
    using pol.invoke_completed [of "\<lparr>iv_Role = ''repair'', iv_Route = r, iv_Slot = RepairSlot, iv_Reserved = False,
       iv_Judge = None, iv_Completed = repair_completed\<rparr>" wr] by simp
  then have step: "applies kept_policy repair_completed (wbind (invoke wr \<lparr>iv_Role = ''repair'', iv_Route = r, iv_Slot = RepairSlot,
       iv_Reserved = False, iv_Judge = None, iv_Completed = repair_completed\<rparr>) (\<lambda>_. wret ()))" for r
    by (auto simp: applies_def wret_def elim!: wbindE)
  show ?thesis
    unfolding repair_def
    by (rule applies_before [OF keeps_simple(3)], rule applies_before [OF pol.keeps_transition])
      (simp_all add: settles_status_def step)
qed

definition unlogged :: "task \<Rightarrow> unit" where
  "unlogged t = ()"

interpretation log: verification_observer unlogged
  by unfold_locales (simp_all add: unlogged_def)

interpretation out: verification_observer t_OutputCommit
  by unfold_locales simp_all

lemma keeps_repair: "keeps unlogged (repair wr)"
  unfolding repair_def
  by (auto intro!: keeps_intros log.keeps_transition log.keeps_invoke simp: settles_status_def unlogged_def)

lemma keeps_repair_again: "keeps unlogged (repair_again wr cfg revision)"
  unfolding repair_again_def by (auto intro!: keeps_intros log.keeps_consume keeps_repair split: option.split)

definition sound_publication :: "task \<times> engine \<Rightarrow> bool" where
  "sound_publication p \<longleftrightarrow> (\<exists>commit. authorized_publication p commit \<and> verified_at (fst p) commit)"

lemma work_round_logged:
  assumes "work_round wr cfg st = (r, st')"
  shows "logged sound_publication st st'"
  using assms [unfolded work_round_def]
proof (cases rule: wbind_cases)
  case (1 c)
  then show ?thesis using keepsD [OF keeps_assess 1(1)] by (simp add: logged_refl)
next
  case (2 b st1)
  obtain revision verified where b: "b = (revision, verified)" by (cases b)
  have k1: "ws_Published st1 = ws_Published st" using keepsD [OF keeps_assess 2(1)] by simp
  show ?thesis
  proof (cases "verified = Some []")
    case False
    with 2(2) b have "wbind (repair_again wr cfg revision) (\<lambda>_. wret False) st1 = (r, st')" by simp
    moreover have "keeps unlogged (wbind (repair_again wr cfg revision) (\<lambda>_. wret False))"
      by (intro keeps_intros keeps_repair_again)
    ultimately show ?thesis using keepsD k1 by (metis logged_refl)
  next
    case True
    have ver: "verified_at (ws_Task st1) revision" using assess_verified 2(1) b True by simp
    from 2(2) b True have tail: "wbind (requireDefaultRevision wr cfg (t_DefaultRevision (ws_Task st1))) (\<lambda>_.
        wbind (publishReviewed wr revision) (\<lambda>_. wret True)) st1 = (r, st')"
      by (simp add: wbind_def the_task_def)
    then show ?thesis
    proof (cases rule: wbind_cases)
      case (1 c)
      then show ?thesis using keepsD [OF rec.keeps_default 1(1)] k1 by (simp add: logged_refl)
    next
      case (2 u st2)
      have k2: "ws_Published st2 = ws_Published st1" "kept_record (ws_Task st2) = kept_record (ws_Task st1)"
        using keepsD [OF rec.keeps_default 2(1)] by simp_all
      obtain r1 where pub: "publishReviewed wr revision st2 = (r1, st')"
        using 2(2) by (cases rule: wbind_cases) (auto simp: wret_def)
      have "logged sound_publication st2 st'"
        using pub
      proof (rule publishReviewed_logged)
        fix p
        assume "authorized_publication p revision" "t_Verification (fst p) = t_Verification (ws_Task st2)"
          "t_Config (fst p) = t_Config (ws_Task st2)"
        then show "sound_publication p"
          using ver k2(2) by (auto simp: sound_publication_def verified_at_def kept_record_def)
      qed
      with k1 k2 show ?thesis by (simp add: logged_def)
    qed
  qed
qed

lemma rounds_logged: "rounds fuel wr cfg st = Some (r, st') \<Longrightarrow> logged sound_publication st st'"
proof (induction fuel wr cfg st rule: rounds.induct)
  case (2 fuel wr cfg st)
  obtain q st1 where q: "work_round wr cfg st = (q, st1)" by fastforce
  from work_round_logged [OF q] have one: "logged sound_publication st st1" .
  show ?case
  proof (cases "q = Inr False")
    case True
    with "2.prems" q have "rounds fuel wr cfg st1 = Some (r, st')" by simp
    from "2.IH" [OF q [symmetric] _ _ this] True one show ?thesis by (auto intro: logged_trans)
  next
    case False
    with "2.prems" q have "st' = st1" by (auto split: sum.splits bool.splits)
    with one show ?thesis by simp
  qed
qed simp

subsection \<open>What a worker publishes\<close>

text \<open>C4: A worker pushes a branch or opens a pull request only for a revision its review authorised and the store has
  recorded as the output of the task, in the publishing state; a worker that did not start from such a record has also
  run every configured verification command on that very revision, and the results, passes all, close the task's
  verification record.\<close>

theorem publications_authorized:
  assumes run: "execute fuel wr st = Some (r, st')"
    and p: "p \<in> set (ws_Published st')" "p \<notin> set (ws_Published st)"
  shows "\<exists>commit. t_OutputCommit (fst p) = Some commit \<and> t_Status (fst p) = StatusPublishing \<and> ReviewAuthorizes (fst p) commit \<and>
    map_of (tb_Tasks (en_DB (snd p))) (t_ID (fst p)) = Some (fst p) \<and>
    (t_OutputCommit (ws_Task st) = Some commit \<or> t_OutputCommit (ws_Task st) = None \<and> verified_at (fst p) commit)"
proof -
  have first: "keeps t_OutputCommit (wbind (modify begin_work) (\<lambda>_. checkpointTask wr))"
    by (intro keeps_wbind keeps_modify out.keeps_checkpoint) (simp add: begin_work_def)
  obtain q st1 where q: "wbind (modify begin_work) (\<lambda>_. checkpointTask wr) st = (q, st1)" by fastforce
  note k1 = keepsD [OF first q]
  show ?thesis
  proof (cases q)
    case (Inl c)
    with run q p k1 show ?thesis by (simp add: execute_def Let_def)
  next
    case (Inr u)
    show ?thesis
    proof (cases "t_OutputCommit (ws_Task st1)")
      case (Some commit)
      with run q Inr have "publishReviewed wr commit st1 = (r, st')" by (simp add: execute_def Let_def)
      from publishReviewed_logged [OF this, of "\<lambda>p. authorized_publication p commit"] p k1
      have "authorized_publication p commit" by (auto simp: logged_def)
      with k1 Some show ?thesis by (intro exI [of _ commit]) (simp add: authorized_publication_def)
    next
      case None
      obtain q2 st2 where q2: "prepare wr st1 = (q2, st2)" by fastforce
      have k2: "ws_Published st2 = ws_Published st1" using keepsD [OF log.keeps_prepare q2] by simp
      from run q Inr None q2 p k1 k2 have "rounds fuel wr (ExecutionConfig (ws_Task st)) st2 = Some (r, st')"
        by (auto simp: execute_def Let_def split: sum.splits)
      then have "logged sound_publication st2 st'" using rounds_logged by blast
      with p k1 k2 None show ?thesis
        by (auto simp: logged_def sound_publication_def authorized_publication_def)
    qed
  qed
qed

text \<open>A worker whose task was authorised before a restart, every remote call of which succeeds.\<close>

definition sample_output :: process_output where
  "sample_output = \<lparr>po_Status = ExitStatus \<lparr>ex_Code = 0, ex_OOM = False, ex_Killed = False, ex_Reason = []\<rparr>,
       po_Stdout = \<lparr>cp_Bytes = ''ok'', cp_Truncated = False, cp_Tail = []\<rparr>,
       po_Stderr = \<lparr>cp_Bytes = [], cp_Truncated = False, cp_Tail = []\<rparr>\<rparr>"

definition sample_worker :: worker_remote where
  "sample_worker = \<lparr>wr_Handle = root_handle, wr_Serial = 0, wr_Merge = sample_remote, wr_DataDir = ''/data'', wr_Describe = (\<lambda>_. []),
     wr_DescribeSet = (\<lambda>_. []), wr_DescribeLimit = (\<lambda>_. []), wr_SignalName = (\<lambda>_. []), wr_Secrets = [],
     wr_UtcDay = (\<lambda>_. Some ''2025-01-02''), wr_UUID = (\<lambda>_. True), wr_ParseReview = (\<lambda>_. Inr (rr_Result sample_review)),
     wr_ParseMaintenance = (\<lambda>_. Inl []), wr_Quote = (\<lambda>s. s), wr_SandboxJSON = (\<lambda>_. None), wr_Env = (\<lambda>_. sample_env),
     wr_Window = (\<lambda>_ e. e), wr_Done = (\<lambda>_. None), wr_Stopping = (\<lambda>_. False), wr_Deadline = (\<lambda>_. (False, False)),
     wr_Initialized = (\<lambda>_ _. True), wr_SandboxLimit = (\<lambda>_. Inr 7200), wr_Measure = (\<lambda>_ _. Inr 0), wr_Fetch = (\<lambda>_ _. None),
     wr_RemoteRevision = (\<lambda>_ _ _. Inr (Some ''rev0'')), wr_IsAncestor = (\<lambda>_ _ _ _. Inr True), wr_PR = (\<lambda>_ _ _. Inr sample_pr),
     wr_CloneAt = (\<lambda>_ _ _ _. None), wr_WorkGit = (\<lambda>_ _ _ _. Inr ''1 file changed''), wr_GitDir = (\<lambda>_ _. True),
     wr_At = (\<lambda>_ _ _ _. Inr True), wr_Snapshot = (\<lambda>_ _ _ _. Inr ''rev1''), wr_Gitlinks = (\<lambda>_ _ _ _ _. None),
     wr_Reader = (\<lambda>_ _ _. sample_git\<lparr>gr_Git := (\<lambda>_. Inr (sample_output\<lparr>po_Stdout := \<lparr>cp_Bytes = [], cp_Truncated = False, cp_Tail = []\<rparr>\<rparr>))\<rparr>),
     wr_Footprint = (\<lambda>_ _ _ _ _. undefined), wr_Publish = (\<lambda>_ _. Inr sample_pr), wr_RemoveDir = (\<lambda>_ _. None),
     wr_CloneReviewed = (\<lambda>_ _ _ _ _. None), wr_Verify = (\<lambda>_ _ _ _ _. (Inr sample_output, None)), wr_ValidateRoutes = (\<lambda>_ _. None),
     wr_Start = (\<lambda>_ _ _ _. Inr ''s1''), wr_Release = (\<lambda>_. None), wr_Evidence = (\<lambda>_. None), wr_TurnStarts = (\<lambda>_. True),
     wr_Turn = (\<lambda>_ _ _ _. Inr ''done'')\<rparr>"

definition sample_work :: task where
  "sample_work = sample_publishing"

definition sample_start :: wstate where
  "sample_start = \<lparr>ws_Engine = \<lparr>en_RT = idle_runtime\<lparr>rt_Tasks := [(''t1'', \<lparr>tj_Serial = 0, tj_Branch = ''octomus/t1'', tj_Kind = executionWorker,
       tj_Committed = sample_work, tj_Pending = None\<rparr>)]\<rparr>, en_DB = merge_db\<lparr>tb_Tasks := [(''t1'', sample_work)],
       tb_Configs := [(store_ConfigKey root_handle, sample_config)]\<rparr>\<rparr>, ws_Task = sample_work, ws_Calls = 0, ws_Published = []\<rparr>"

definition sample_resumed :: task where
  "sample_resumed = sample_work\<lparr>t_UpdatedAt := ''2025-01-02T00:00:00Z'', t_RepairRounds := Some 1\<rparr>"

definition sample_begun :: wstate where
  "sample_begun = sample_start\<lparr>ws_Engine := \<lparr>en_RT = idle_runtime\<lparr>rt_Tasks := [(''t1'', \<lparr>tj_Serial = 0, tj_Branch = ''octomus/t1'',
       tj_Kind = executionWorker, tj_Committed = sample_resumed, tj_Pending = None\<rparr>)]\<rparr>, en_DB = merge_db\<lparr>tb_Tasks := [(''t1'', sample_resumed)],
       tb_Configs := [(store_ConfigKey root_handle, sample_config)]\<rparr>\<rparr>, ws_Task := sample_resumed, ws_Calls := 1\<rparr>"

lemma sample_begins: "wbind (modify begin_work) (\<lambda>_. checkpointTask sample_worker) sample_start = (Inr (), sample_begun)"
  by code_simp

lemma sample_guards:
  "c_DeliveryMode (t_Config sample_resumed) = c_DeliveryMode (engine_Config (mr_Pin sample_remote) root_handle (ws_Engine sample_begun))"
  "p_Category (t_Proposal sample_resumed) \<in> set (EffectiveCategories (t_Config sample_resumed))"
  "ReviewAuthorizes sample_resumed ''rev1''" "c_DeliveryMode (t_Config sample_resumed) \<noteq> DeliveryModeMaintenance"
  by code_simp+

lemma sample_commits:
  "\<not> isl (fst (commitWorkerTaskLocked sample_env 0 sample_resumed TaskAuthorizePublication (ws_Engine sample_begun)))"
  by code_simp

lemma worker_authorized: "\<not> isl (fst (authorizePublication sample_worker ''rev1'' None None sample_begun))"
proof -
  have task: "ws_Task sample_begun = sample_resumed" by (simp add: sample_begun_def)
  have same: "sample_resumed\<lparr>t_OutputCommit := Some ''rev1'', t_Status := StatusPublishing\<rparr> = sample_resumed"
    by (simp add: sample_resumed_def sample_work_def sample_publishing_def)
  have wr: "wr_Done sample_worker n = None" "wr_Env sample_worker n = sample_env" "wr_Handle sample_worker = root_handle"
    "wr_Merge sample_worker = sample_remote" "wr_Serial sample_worker = 0" "ws_Engine (wtick sample_worker st) = ws_Engine st" for n st
    by (simp_all add: sample_worker_def wtick_def)
  show ?thesis using sample_guards sample_commits
    unfolding authorizePublication_def Let_def wr task by (auto simp: same split: prod.split sum.split)
qed

lemma sample_output_commit: "t_OutputCommit (ws_Task sample_begun) = Some ''rev1''" "ws_Published sample_begun = []"
  by (simp_all add: sample_begun_def sample_start_def sample_resumed_def sample_work_def sample_publishing_def)

lemma sample_publishes: "\<exists>t e. ws_Published (snd (publishReviewed sample_worker ''rev1'' sample_begun)) = [(t, e)]"
proof -
  obtain st2 where auth: "authorizePublication sample_worker ''rev1'' None None sample_begun = (Inr (), st2)"
    using worker_authorized by (cases "authorizePublication sample_worker ''rev1'' None None sample_begun") 
      (metis fst_conv isl_def old.unit.exhaust sum.exhaust)
  have mode: "c_DeliveryMode (ExecutionConfig (ws_Task sample_begun)) \<noteq> DeliveryModeMaintenance" by code_simp
  have pub: "publishTask sample_worker st2 = (Inr sample_pr, (wtick sample_worker st2)\<lparr>ws_Published := ws_Published st2 @ [(ws_Task st2, ws_Engine st2)]\<rparr>)"
    by (simp add: publishTask_def sample_worker_def)
  have "ws_Published st2 = []" using authorizePublication_value(1) [OF auth] sample_output_commit(2) by simp
  moreover have "publishReviewed sample_worker ''rev1'' sample_begun = finishPublication sample_worker sample_pr
      ((wtick sample_worker st2)\<lparr>ws_Published := ws_Published st2 @ [(ws_Task st2, ws_Engine st2)]\<rparr>)"
    using auth mode pub by (simp add: publishReviewed_def wbind_def the_task_def read_footprint_def wret_def)
  ultimately show ?thesis by (simp add: finish_quiet)
qed

theorem publications_authorized_witness:
  "\<exists>r st' t e. execute 1 sample_worker sample_start = Some (r, st') \<and> ws_Published st' = [(t, e)] \<and>
    t_OutputCommit t = Some ''rev1'' \<and> ReviewAuthorizes t ''rev1'' \<and> map_of (tb_Tasks (en_DB e)) (t_ID t) = Some t"
proof -
  obtain r st' where pr: "publishReviewed sample_worker ''rev1'' sample_begun = (r, st')" by fastforce
  have run: "execute 1 sample_worker sample_start = Some (r, st')"
    using sample_begins sample_output_commit(1) pr by (simp add: execute_def)
  obtain t e where te: "ws_Published st' = [(t, e)]" using sample_publishes pr by auto
  have "ws_Published sample_start = []" "t_OutputCommit (ws_Task sample_start) = Some ''rev1''"
    by (simp_all add: sample_start_def sample_work_def sample_publishing_def)
  with publications_authorized [OF run, of "(t, e)"] te
  have "t_OutputCommit t = Some ''rev1'' \<and> ReviewAuthorizes t ''rev1'' \<and> map_of (tb_Tasks (en_DB e)) (t_ID t) = Some t" by auto
  with run te show ?thesis by blast
qed

subsection \<open>The worker's loop ends\<close>

lemma work_round_repairs:
  assumes "work_round wr cfg st = (Inr False, st')"
  shows "\<exists>n. t_RepairRounds (ws_Task st) = Some n \<and> n < c_MaxRepairRounds cfg \<and> t_RepairRounds (ws_Task st') = Some (n + 1)"
proof -
  from assms obtain revision verified st1 where a: "assess wr cfg st = (Inr (revision, verified), st1)"
    and again: "repair_again wr cfg revision st1 = (Inr (), st')"
    unfolding work_round_def
    by (elim wbindE) (auto simp: wret_def elim!: wbindE split: if_splits)
  have k: "t_RepairRounds (ws_Task st1) = t_RepairRounds (ws_Task st)"
    using keepsD [OF keeps_assess a] by (simp add: kept_policy_def)
  from again obtain n st2 where n: "t_RepairRounds (ws_Task st1) = Some n" "n < c_MaxRepairRounds cfg"
    and c: "consume_repair wr cfg revision st1 = (Inr (), st2)" and fix_it: "repair wr st2 = (Inr (), st')"
    unfolding repair_again_def
    by (auto simp: the_task_def wfail_def elim!: wbindE dest!: wguardD split: option.splits)
  have "t_RepairRounds (ws_Task st2) = Some n" using keepsD [OF pol.keeps_consume c] n by (simp add: kept_policy_def)
  moreover obtain u where "kept_policy u = kept_policy (ws_Task st2)" "kept_policy (ws_Task st') = kept_policy (repair_completed u)"
    using repair_applies fix_it unfolding applies_def by blast
  ultimately show ?thesis using n k by (auto simp: kept_policy_def repair_completed_def Let_def)
qed

text \<open>The repairs the budget still allows.\<close>

definition remaining :: "config \<Rightarrow> task \<Rightarrow> nat" where
  "remaining cfg t = (case t_RepairRounds t of None \<Rightarrow> 0 | Some n \<Rightarrow> unat (c_MaxRepairRounds cfg) - unat n)"

lemma rounds_return: "remaining cfg (ws_Task st) < fuel \<Longrightarrow> \<exists>r st'. rounds fuel wr cfg st = Some (r, st')"
proof (induction fuel wr cfg st rule: rounds.induct)
  case (2 fuel wr cfg st)
  obtain q st1 where q: "work_round wr cfg st = (q, st1)" by fastforce
  show ?case
  proof (cases "q = Inr False")
    case True
    then obtain n where n: "t_RepairRounds (ws_Task st) = Some n" "n < c_MaxRepairRounds cfg"
        "t_RepairRounds (ws_Task st1) = Some (n + 1)"
      using work_round_repairs q by blast
    then have "1 + n \<noteq> 0" by (metis add_eq_0_iff word_order.extremum_strict)
    then have "unat (n + 1) = unat n + 1" using unatSuc [of n] by (simp add: add.commute [of 1 n])
    with n "2.prems" have "remaining cfg (ws_Task st1) < fuel" by (simp add: remaining_def word_less_nat_alt)
    from "2.IH" [OF q [symmetric] True _ this] True q show ?thesis by simp
  next
    case False
    with q show ?thesis by (auto split: sum.splits bool.splits)
  qed
qed simp

text \<open>C5: The work of a task ends: every pass of the loop that does not end it spends one of the configured repair rounds, so
  one pass more than the budget is always enough.\<close>

theorem execute_returns:
  assumes "unat (c_MaxRepairRounds (ExecutionConfig (ws_Task st))) < fuel"
  shows "\<exists>r st'. execute fuel wr st = Some (r, st')"
proof -
  have "remaining cfg t \<le> unat (c_MaxRepairRounds cfg)" for cfg t by (simp add: remaining_def split: option.split)
  with assms have "\<exists>r st'. rounds fuel wr (ExecutionConfig (ws_Task st)) st2 = Some (r, st')" for st2
    by (intro rounds_return) (meson le_less_trans)
  then show ?thesis by (auto simp: execute_def Let_def split: prod.splits sum.splits option.splits)
qed

theorem execute_returns_witness:
  "\<exists>r st'. execute (Suc (unat (c_MaxRepairRounds Default))) sample_worker sample_start = Some (r, st')"
proof -
  have "c_MaxRepairRounds (ExecutionConfig (ws_Task sample_start)) = c_MaxRepairRounds Default" by code_simp
  then show ?thesis by (intro execute_returns) simp
qed

end
