(* ===== verification/Broker_Spec.thy ===== *)
theory Broker_Spec
  imports Sandbox_Wire Process_Capture Engine_Actions
begin

text \<open>
  The sandbox broker's boundary (\<open>internal/sandbox/broker/\<close>: \<open>config.go\<close>, \<open>validate.go\<close>, \<open>spec.go\<close> and
  the create body of \<open>dockerapi.go\<close>): the deployment settings the broker reads, the request it accepts from the
  control plane, the plan it resolves against its own settings and the one container spec a plan can produce.
  The settings come from a \<open>getenv\<close> function and the data directory is seen through an \<open>lstat\<close> function,
  both parameters. The theorems show that accepted settings are well formed, that a validated plan's lifetime is
  bounded without wrap-around, that its directories are real directories of the sandbox user reached without a
  symbolic link, and that its container is confined to them.
\<close>

subsection \<open>Anchored patterns\<close>

text \<open>\<open>MatchString\<close> of an expression written between \<open>^\<close> and \<open>$\<close>: some match from the start ends at
  the end of the text. The classes of these patterns are sets of ASCII characters.\<close>

definition re_full :: "re \<Rightarrow> string \<Rightarrow> bool" where
  "re_full r s \<longleftrightarrow> length s \<in> set (re_ends r s 0)"

definition re_class :: "(char \<Rightarrow> bool) \<Rightarrow> re" where
  "re_class P = Rune (\<lambda>r. r < 128 \<and> P (char_of r))"

definition re_word :: "string \<Rightarrow> re" where
  "re_word s = re_cat (map (\<lambda>c. re_class (\<lambda>d. d = c)) s)"

definition re_opt :: "re \<Rightarrow> re" where
  "re_opt a = Alt a Eps"

primrec re_upto :: "nat \<Rightarrow> re \<Rightarrow> re" where
  "re_upto 0 a = Eps"
| "re_upto (Suc n) a = re_opt (Cat a (re_upto n a))"

definition upper_c :: "char \<Rightarrow> bool" where
  "upper_c c \<longleftrightarrow> CHR ''A'' \<le> c \<and> c \<le> CHR ''Z''"

definition lower_c :: "char \<Rightarrow> bool" where
  "lower_c c \<longleftrightarrow> CHR ''a'' \<le> c \<and> c \<le> CHR ''z''"

definition digit_c :: "char \<Rightarrow> bool" where
  "digit_c c \<longleftrightarrow> CHR ''0'' \<le> c \<and> c \<le> CHR ''9''"

definition hex_c :: "char \<Rightarrow> bool" where
  "hex_c c \<longleftrightarrow> digit_c c \<or> CHR ''a'' \<le> c \<and> c \<le> CHR ''f''"

subsection \<open>Paths\<close>

definition filepath_IsAbs :: "string \<Rightarrow> bool" where
  "filepath_IsAbs path \<longleftrightarrow> has_prefix path ''/''"

text \<open>\<open>filepath.Base\<close>: the last element after trailing slashes are stripped.\<close>

definition filepath_Base :: "string \<Rightarrow> string" where
  "filepath_Base path =
     (if path = [] then ''.''
      else let stripped = rev (dropWhile (\<lambda>c. c = CHR ''/'') (rev path));
               base = rev (takeWhile (\<lambda>c. c \<noteq> CHR ''/'') (rev stripped))
           in if base = [] then ''/'' else base)"

text \<open>\<open>filepath.Rel\<close> on the elements of the two cleaned paths: the common prefix is dropped, every element left
  of the base becomes a step up.\<close>

fun drop_common :: "string list \<Rightarrow> string list \<Rightarrow> string list \<times> string list" where
  "drop_common (b # bs) (t # ts) = (if b = t then drop_common bs ts else (b # bs, t # ts))"
| "drop_common bs ts = (bs, ts)"

definition path_elements :: "string \<Rightarrow> string list" where
  "path_elements path = filter (\<lambda>p. p \<noteq> []) (split_on (CHR ''/'') path)"

definition filepath_Rel :: "string \<Rightarrow> string \<Rightarrow> string option" where
  "filepath_Rel basepath targpath =
     (let base = filepath_Clean basepath; targ = filepath_Clean targpath in
      if base = targ then Some ''.''
      else if filepath_IsAbs base \<noteq> filepath_IsAbs targ then None
      else let (bs, ts) = drop_common (if base = ''.'' then [] else path_elements base) (path_elements targ) in
        if bs \<noteq> [] \<and> hd bs = ''..'' then None
        else Some (join_with ''/'' (map (\<lambda>_. ''..'') bs @ ts)))"

subsection \<open>Settings\<close>

record broker_config =
  bc_Socket :: string
  bc_DockerSocket :: string
  bc_Image :: string
  bc_DataDir :: string
  bc_DataVolume :: string
  bc_RunnerVolume :: string
  bc_RunnerDir :: string
  bc_ToolsVolume :: string
  bc_ToolsDir :: string
  bc_CAFile :: string
  bc_RunnerNetwork :: string
  bc_VerifyNetwork :: string
  bc_Instance :: string
  bc_UID :: int
  bc_GID :: int
  bc_ClientUID :: int
  bc_NanoCPUs :: int
  bc_Memory :: int
  bc_Pids :: int
  bc_Tmpfs :: int
  bc_Max :: int
  bc_MaxSeconds :: u64
  bc_Runtime :: string
  bc_EgressProxy :: string
  bc_LeaseDir :: string
  bc_EgressCollector :: string

definition sandboxHome :: string where
  "sandboxHome = ''/home/octomus''"

definition toolsMount :: string where
  "toolsMount = ''/opt/octomus''"

definition toolsBinary :: string where
  "toolsBinary = toolsMount @ ''/octomus-agent''"

definition toolsGitConfig :: string where
  "toolsGitConfig = toolsMount @ ''/gitconfig''"

definition toolsCAFile :: string where
  "toolsCAFile = toolsMount @ ''/ca-certificates.pem''"

definition instanceLabel :: string where
  "instanceLabel = ''octomus.sandbox.instance''"

definition kindLabel :: string where
  "kindLabel = ''octomus.sandbox.kind''"

definition rootLabel :: string where
  "rootLabel = ''octomus.sandbox.root''"

definition instancePattern :: re where
  "instancePattern = Cat (re_class (\<lambda>c. lower_c c \<or> digit_c c)) (re_upto 31 (re_class (\<lambda>c. lower_c c \<or> digit_c c \<or> c = CHR ''-'')))"

definition runtimePattern :: re where
  "runtimePattern = Cat (re_class (\<lambda>c. lower_c c \<or> digit_c c))
     (re_upto 63 (re_class (\<lambda>c. lower_c c \<or> digit_c c \<or> c \<in> set ''._-'')))"

datatype config_error =
    SettingRequired string
  | SettingNotCleanPath string
  | CAFileInsideVolume
  | ProxyWithoutLeases
  | InstanceInvalid
  | SettingNotInteger string int int
  | SettingNotSize string int int
  | CPUsInvalid
  | RuntimeInvalid

subsubsection \<open>Numbers\<close>

definition max_int64 :: int where
  "max_int64 = 9223372036854775807"

text \<open>\<open>strconv.ParseInt\<close> in base ten at 64 bits: the value, and whether it was accepted; a number out of range is
  returned as the nearest bound, a malformed one as zero.\<close>

definition digits_value :: "string \<Rightarrow> int" where
  "digits_value s = foldl (\<lambda>n c. 10 * n + (int (byte c) - 48)) 0 s"

definition ParseInt :: "string \<Rightarrow> int \<times> bool" where
  "ParseInt s =
     (let negative = has_prefix s ''-'';
          digits = (if negative \<or> has_prefix s ''+'' then tl s else s);
          n = digits_value digits
      in if digits = [] \<or> \<not> list_all digit_c digits then (0, False)
         else if negative then (if n > max_int64 + 1 then (- max_int64 - 1, False) else (- n, True))
         else if n > max_int64 then (max_int64, False) else (n, True))"

text \<open>\<open>int64\<close> multiplication wraps.\<close>

definition int64 :: "int \<Rightarrow> int" where
  "int64 n = sint (word_of_int n :: 64 word)"

definition size_units :: "(string \<times> int) list" where
  "size_units = [(''k'', 2 ^ 10), (''m'', 2 ^ 20), (''g'', 2 ^ 30), (''t'', 2 ^ 40)]"

definition ParseBytes :: "unicode_tables \<Rightarrow> string \<Rightarrow> int option" where
  "ParseBytes u text =
     (let raw = to_lower u (trim_space text);
          (digits, multiplier) =
            (case find (\<lambda>(letter, _). has_suffix raw letter) size_units of
               Some (letter, factor) \<Rightarrow> (trim_suffix raw letter, factor)
             | None \<Rightarrow> (raw, 1));
          (n, ok) = ParseInt digits
      in if \<not> ok \<or> n < 0 \<or> n > max_int64 div multiplier then None else Some (int64 (n * multiplier)))"

subsubsection \<open>Loading\<close>

definition setting :: "(string \<Rightarrow> string) \<Rightarrow> string \<Rightarrow> string \<Rightarrow> string" where
  "setting getenv key fallback = (let v = trim_space (getenv key) in if v \<noteq> [] then v else fallback)"

definition integer_setting :: "(string \<Rightarrow> string) \<Rightarrow> string \<Rightarrow> int \<Rightarrow> int \<Rightarrow> int \<Rightarrow> int \<times> config_error list" where
  "integer_setting getenv key fallback low high =
     (let (n, ok) = ParseInt (setting getenv key (show_int fallback))
      in (n, if \<not> ok \<or> n < low \<or> n > high then [SettingNotInteger key low high] else []))"

definition bytes_setting :: "unicode_tables \<Rightarrow> (string \<Rightarrow> string) \<Rightarrow> string \<Rightarrow> string \<Rightarrow> int \<Rightarrow> int \<Rightarrow> int \<times> config_error list" where
  "bytes_setting u getenv key fallback low high =
     (case ParseBytes u (setting getenv key fallback) of
        None \<Rightarrow> (0, [SettingNotSize key low high])
      | Some n \<Rightarrow> (n, if n < low \<or> n > high then [SettingNotSize key low high] else []))"

definition clean_absolute :: "string \<Rightarrow> bool" where
  "clean_absolute path \<longleftrightarrow> filepath_IsAbs path \<and> filepath_Clean path = path"

definition inside_volume :: "string \<Rightarrow> string \<Rightarrow> bool" where
  "inside_volume dir path \<longleftrightarrow>
     dir \<noteq> [] \<and> (case filepath_Rel dir path of None \<Rightarrow> False | Some rel \<Rightarrow> rel \<noteq> ''..'' \<and> \<not> has_prefix rel ''../'')"

text \<open>The settings before their numbers are read. The checks over maps run in no fixed order: here they run in the
  order they are written, and only whether there is an error is ever used.\<close>

definition config_strings :: "(string \<Rightarrow> string) \<Rightarrow> broker_config" where
  "config_strings getenv =
     \<lparr>bc_Socket = setting getenv ''OCTOMUS_SANDBOXD_SOCKET'' ''/run/octomus/sandboxd.sock'',
      bc_DockerSocket = setting getenv ''OCTOMUS_DOCKER_SOCKET'' ''/var/run/docker.sock'',
      bc_Image = setting getenv ''OCTOMUS_SANDBOX_IMAGE'' [],
      bc_DataDir = setting getenv ''OCTOMUS_DATA_DIR'' [],
      bc_DataVolume = setting getenv ''OCTOMUS_SANDBOX_DATA_VOLUME'' [],
      bc_RunnerVolume = setting getenv ''OCTOMUS_SANDBOX_RUNNER_VOLUME'' [],
      bc_RunnerDir = setting getenv ''OCTOMUS_SANDBOX_RUNNER_DIR'' ''/var/lib/octomus/runner'',
      bc_ToolsVolume = setting getenv ''OCTOMUS_SANDBOX_TOOLS_VOLUME'' [],
      bc_ToolsDir = setting getenv ''OCTOMUS_SANDBOX_TOOLS_DIR'' ''/opt/octomus-tools'',
      bc_CAFile = setting getenv ''OCTOMUS_SANDBOX_CA_FILE'' [],
      bc_RunnerNetwork = setting getenv ''OCTOMUS_SANDBOX_RUNNER_NETWORK'' [],
      bc_VerifyNetwork = setting getenv ''OCTOMUS_SANDBOX_VERIFY_NETWORK'' [],
      bc_Instance = setting getenv ''OCTOMUS_SANDBOX_INSTANCE'' ''octomus'',
      bc_UID = 0, bc_GID = 0, bc_ClientUID = 0, bc_NanoCPUs = 0, bc_Memory = 0, bc_Pids = 0, bc_Tmpfs = 0,
      bc_Max = 0, bc_MaxSeconds = 0,
      bc_Runtime = setting getenv ''OCTOMUS_SANDBOX_RUNTIME'' [],
      bc_EgressProxy = setting getenv ''OCTOMUS_EGRESS_PROXY'' [],
      bc_LeaseDir = setting getenv ''OCTOMUS_EGRESS_LEASES'' [],
      bc_EgressCollector = setting getenv ''OCTOMUS_EGRESS_COLLECTOR'' []\<rparr>"

definition string_errors :: "broker_config \<Rightarrow> config_error list" where
  "string_errors c =
     map (\<lambda>(key, _). SettingRequired key) (filter (\<lambda>(_, v). v = [])
       [(''OCTOMUS_SANDBOX_IMAGE'', bc_Image c), (''OCTOMUS_DATA_DIR'', bc_DataDir c),
        (''OCTOMUS_SANDBOX_DATA_VOLUME'', bc_DataVolume c), (''OCTOMUS_SANDBOX_RUNNER_VOLUME'', bc_RunnerVolume c),
        (''OCTOMUS_SANDBOX_TOOLS_VOLUME'', bc_ToolsVolume c), (''OCTOMUS_SANDBOX_RUNNER_NETWORK'', bc_RunnerNetwork c),
        (''OCTOMUS_SANDBOX_VERIFY_NETWORK'', bc_VerifyNetwork c)]) @
     map (\<lambda>(key, _). SettingNotCleanPath key) (filter (\<lambda>(_, path). path \<noteq> [] \<and> \<not> clean_absolute path)
       [(''OCTOMUS_SANDBOXD_SOCKET'', bc_Socket c), (''OCTOMUS_DOCKER_SOCKET'', bc_DockerSocket c),
        (''OCTOMUS_DATA_DIR'', bc_DataDir c), (''OCTOMUS_SANDBOX_RUNNER_DIR'', bc_RunnerDir c),
        (''OCTOMUS_SANDBOX_TOOLS_DIR'', bc_ToolsDir c), (''OCTOMUS_SANDBOX_CA_FILE'', bc_CAFile c),
        (''OCTOMUS_EGRESS_LEASES'', bc_LeaseDir c)]) @
     (if bc_CAFile c \<noteq> []
      then map (\<lambda>_. CAFileInsideVolume) (filter (\<lambda>dir. inside_volume dir (bc_CAFile c)) [bc_DataDir c, bc_RunnerDir c, bc_ToolsDir c])
      else []) @
     (if (bc_LeaseDir c = []) \<noteq> (bc_EgressProxy c = []) then [ProxyWithoutLeases] else []) @
     (if \<not> re_full instancePattern (bc_Instance c) then [InstanceInvalid] else [])"

text \<open>\<open>cpus\<close> stands for \<open>strconv.ParseFloat\<close> followed by the range test and the conversion to billionths of a
  CPU: the number of billionths, and whether the text was accepted as a number from 0.1 to 256.\<close>

definition LoadConfig ::
  "unicode_tables \<Rightarrow> (string \<Rightarrow> int \<times> bool) \<Rightarrow> int \<Rightarrow> (string \<Rightarrow> string) \<Rightarrow> broker_config \<times> config_error list" where
  "LoadConfig u cpus getuid getenv =
     (let c = config_strings getenv;
          (uid, e1) = integer_setting getenv ''OCTOMUS_SANDBOX_UID'' 10001 1 (2 ^ 31 - 1);
          (gid, e2) = integer_setting getenv ''OCTOMUS_SANDBOX_GID'' 10001 1 (2 ^ 31 - 1);
          (client, e3) = integer_setting getenv ''OCTOMUS_SANDBOX_CLIENT_UID'' getuid 0 (2 ^ 31 - 1);
          (nano, cpus_ok) = cpus (setting getenv ''OCTOMUS_SANDBOX_CPUS'' ''2'');
          (memory, e4) = bytes_setting u getenv ''OCTOMUS_SANDBOX_MEMORY'' ''4g'' (2 ^ 26) (2 ^ 40);
          (tmpfs, e5) = bytes_setting u getenv ''OCTOMUS_SANDBOX_TMPFS'' ''1g'' (2 ^ 24) (2 ^ 40);
          (pids, e6) = integer_setting getenv ''OCTOMUS_SANDBOX_PIDS'' 1024 32 (2 ^ 22);
          (most, e7) = integer_setting getenv ''OCTOMUS_SANDBOX_MAX'' 12 1 256;
          (seconds, e8) = integer_setting getenv ''OCTOMUS_SANDBOX_MAX_SECONDS'' 21600 60 (7 * 24 * 3600)
      in (c\<lparr>bc_UID := uid, bc_GID := gid, bc_ClientUID := client, bc_NanoCPUs := nano, bc_Memory := memory,
            bc_Tmpfs := tmpfs, bc_Pids := pids, bc_Max := most, bc_MaxSeconds := word_of_int seconds\<rparr>,
          string_errors c @ e1 @ e2 @ e3 @ (if cpus_ok then [] else [CPUsInvalid]) @ e4 @ e5 @ e6 @ e7 @ e8 @
            (if bc_Runtime c \<noteq> [] \<and> \<not> re_full runtimePattern (bc_Runtime c) then [RuntimeInvalid] else [])))"

subsection \<open>The request\<close>

definition WorkspaceDir :: string where
  "WorkspaceDir = ''workspace''"

definition RunnerHome :: string where
  "RunnerHome = ''home''"

definition VerifyHome :: string where
  "VerifyHome = ''verify-home''"

definition GitDirName :: string where
  "GitDirName = ''repo.git''"

definition InitFlag :: string where
  "InitFlag = ''--sandbox-init''"

definition RunnerModeStdio :: string where
  "RunnerModeStdio = ''stdio''"

definition RunnerModeOpenCode :: string where
  "RunnerModeOpenCode = ''opencode''"

definition ProbeVersions :: string where
  "ProbeVersions = ''versions''"

definition ProbeContainment :: string where
  "ProbeContainment = ''containment''"

definition RunnerCodex :: string where
  "RunnerCodex = ''codex''"

definition RunnerOpenCode :: string where
  "RunnerOpenCode = ''opencode''"

definition uuidPattern :: re where
  "uuidPattern = re_cat
     [re_times 8 (re_class hex_c), re_word ''-'', re_times 4 (re_class hex_c), re_word ''-'', re_times 4 (re_class hex_c),
      re_word ''-'', re_times 4 (re_class hex_c), re_word ''-'', re_times 12 (re_class hex_c)]"

definition slugPattern :: re where
  "slugPattern = Cat (re_class (\<lambda>c. upper_c c \<or> lower_c c \<or> digit_c c \<or> c \<in> set ''_-''))
     (Star (Alt (re_class (\<lambda>c. upper_c c \<or> lower_c c \<or> digit_c c \<or> c \<in> set ''._-''))
        (Cat (re_word ''%'') (re_times 2 (re_class (\<lambda>c. digit_c c \<or> CHR ''A'' \<le> c \<and> c \<le> CHR ''F''))))))"

definition reposPrefix :: re where
  "reposPrefix = re_opt (re_cat [re_word ''repos/'', slugPattern, re_word ''/''])"

definition phasePattern :: re where
  "phasePattern = re_alt
     [re_word ''grounding'', re_word ''consolidation'',
      Cat (re_word ''adversary-'') (re_class (\<lambda>c. c \<in> set ''ab'')),
      Cat (re_word ''discovery-'') (Cat (re_class digit_c) (re_upto 1 (re_class digit_c)))]"

definition rootPattern :: re where
  "rootPattern = Cat reposPrefix (re_alt
     [re_cat [re_word ''tasks/'', uuidPattern, re_opt (re_word ''/verify'')],
      re_cat [re_word ''cycles/'', uuidPattern, re_word ''/'', phasePattern],
      re_cat [re_word ''baselines/'', uuidPattern],
      re_cat [re_word ''system/'', uuidPattern]])"

definition scratchPattern :: re where
  "scratchPattern = Cat reposPrefix (re_cat [re_word ''system/'', uuidPattern])"

definition envKeyPattern :: re where
  "envKeyPattern = Cat (re_word ''OPENCODE_'')
     (Cat (re_class (\<lambda>c. upper_c c \<or> digit_c c \<or> c = CHR ''_'')) (re_upto 63 (re_class (\<lambda>c. upper_c c \<or> digit_c c \<or> c = CHR ''_''))))"

definition maxCommand :: nat where
  "maxCommand = 4096"

definition maxEnvBytes :: nat where
  "maxEnvBytes = 256 * 1024"

datatype file_type = Regular | Directory | Symlink | Special

record file_info =
  fi_Type :: file_type
  fi_Uid :: "int option"

datatype lstat_error = NotExist | LstatFailed string

datatype request_error =
    CodexOnlyStdio
  | OpenCodeOnlyBridge
  | ReadinessOutOfRange
  | UnknownRunner
  | EnvironmentRefused
  | EnvironmentTooLarge
  | CommandRefused
  | VerifyTakesNoInput
  | ProbeTakesNoInput
  | UnknownProbe
  | UnknownKind
  | TimeoutExceeds u64 u64
  | NotAWorkspace
  | NotAnOwnedRoot
  | RootIncomplete string
  | NotPlain string string
  | NotOwned string
  | LstatError string

record sandbox_plan =
  pl_kind :: string
  pl_dir :: string
  pl_root :: string
  pl_rel :: string
  pl_scratch :: bool
  pl_runner :: string
  pl_mode :: string
  pl_probe :: string
  pl_command :: string
  pl_env :: "string list"
  pl_stdin :: bool
  pl_timeout :: "64 word"
  pl_readiness :: u64
  pl_image :: string

type_synonym lstat = "string \<Rightarrow> (lstat_error, file_info) result"

definition ownedEntry :: "broker_config \<Rightarrow> string \<Rightarrow> file_info \<Rightarrow> bool \<Rightarrow> request_error go_error" where
  "ownedEntry c rel info wantDir =
     (let plain = (if wantDir then fi_Type info = Directory else fi_Type info = Regular);
          what = (if wantDir then ''directory'' else ''file'')
      in if fi_Type info = Symlink \<or> \<not> plain then Some (NotPlain rel what)
         else case fi_Uid info of
           Some uid \<Rightarrow> if uid \<noteq> bc_UID c then Some (NotOwned rel) else None
         | None \<Rightarrow> None)"

definition lstat_checked :: "lstat \<Rightarrow> broker_config \<Rightarrow> string \<Rightarrow> string \<Rightarrow> bool \<Rightarrow> request_error go_error" where
  "lstat_checked lstat c path rel wantDir =
     (case lstat path of
        Inl NotExist \<Rightarrow> Some (RootIncomplete rel)
      | Inl (LstatFailed message) \<Rightarrow> Some (LstatError message)
      | Inr info \<Rightarrow> ownedEntry c rel info wantDir)"

fun owned_walk :: "lstat \<Rightarrow> broker_config \<Rightarrow> string \<Rightarrow> string \<Rightarrow> string list \<Rightarrow> request_error go_error" where
  "owned_walk lstat c rel current [] = None"
| "owned_walk lstat c rel current (part # parts) =
     (let here = filepath_Join [current, part] in
      case lstat_checked lstat c here rel True of
        Some err \<Rightarrow> Some err
      | None \<Rightarrow> owned_walk lstat c rel here parts)"

definition ownedDirectory :: "lstat \<Rightarrow> broker_config \<Rightarrow> string \<Rightarrow> request_error go_error" where
  "ownedDirectory lstat c rel = owned_walk lstat c rel (bc_DataDir c) (split_on (CHR ''/'') rel)"

definition ownedFile :: "lstat \<Rightarrow> broker_config \<Rightarrow> string \<Rightarrow> request_error go_error" where
  "ownedFile lstat c rel =
     (case ownedDirectory lstat c (filepath_Dir rel) of
        Some err \<Rightarrow> Some err
      | None \<Rightarrow> lstat_checked lstat c (filepath_Join [bc_DataDir c, rel]) rel False)"

definition required_dirs :: "sandbox_plan \<Rightarrow> string list" where
  "required_dirs p =
     filepath_Join [pl_rel p, WorkspaceDir] #
     (if pl_scratch p then [] else [filepath_Join [pl_rel p, GitDirName]]) @
     map (\<lambda>dir. filepath_Join [pl_rel p, dir]) (HomeDirs (pl_kind p))"

definition resolveRoot :: "lstat \<Rightarrow> broker_config \<Rightarrow> sandbox_plan \<Rightarrow> string \<Rightarrow> (request_error, sandbox_plan) result" where
  "resolveRoot lstat c p dir =
     (if \<not> filepath_IsAbs dir \<or> filepath_Clean dir \<noteq> dir \<or> filepath_Base dir \<noteq> WorkspaceDir then Inl NotAWorkspace
      else let root = filepath_Dir dir in
        case filepath_Rel (bc_DataDir c) root of
          None \<Rightarrow> Inl NotAnOwnedRoot
        | Some rel \<Rightarrow>
            if \<not> re_full rootPattern rel then Inl NotAnOwnedRoot
            else let p = p\<lparr>pl_dir := dir, pl_root := root, pl_rel := rel, pl_scratch := re_full scratchPattern rel\<rparr> in
              case first_error (map (ownedDirectory lstat c) (required_dirs p)) of
                Some err \<Rightarrow> Inl err
              | None \<Rightarrow>
                  if pl_scratch p then Inr p
                  else case ownedFile lstat c (filepath_Join [rel, WorkspaceDir, ''.git'']) of
                    Some err \<Rightarrow> Inl err
                  | None \<Rightarrow> Inr p)"

text \<open>The checks of each kind, before the lifetime and the directory.\<close>

definition empty_plan :: "sandbox_request \<Rightarrow> sandbox_plan" where
  "empty_plan req =
     \<lparr>pl_kind = [], pl_dir = [], pl_root = [], pl_rel = [], pl_scratch = False, pl_runner = [], pl_mode = [],
      pl_probe = [], pl_command = [], pl_env = [], pl_stdin = rq_Stdin req, pl_timeout = 0,
      pl_readiness = rq_Readiness req, pl_image = []\<rparr>"

definition env_entry_ok :: "string \<Rightarrow> bool" where
  "env_entry_ok entry \<longleftrightarrow>
     CHR ''='' \<in> set entry \<and> re_full envKeyPattern (takeWhile (\<lambda>c. c \<noteq> CHR ''='') entry) \<and> CHR 0x00 \<notin> set entry"

definition runner_plan :: "sandbox_request \<Rightarrow> (request_error, sandbox_plan) result" where
  "runner_plan req =
     (let p = (empty_plan req)\<lparr>pl_kind := KindRunner\<rparr>;
          chosen =
            (if rq_Runner req = RunnerCodex then
               if rq_Mode req \<noteq> RunnerModeStdio then Inl CodexOnlyStdio else Inr p
             else if rq_Runner req = RunnerOpenCode then
               if rq_Mode req \<noteq> RunnerModeOpenCode then Inl OpenCodeOnlyBridge
               else if rq_Readiness req = 0 \<or> rq_Readiness req > 600 then Inl ReadinessOutOfRange
               else Inr (p\<lparr>pl_stdin := True\<rparr>)
             else Inl UnknownRunner)
      in case chosen of
           Inl err \<Rightarrow> Inl err
         | Inr p \<Rightarrow>
             if \<not> list_all env_entry_ok (rq_Env req) then Inl EnvironmentRefused
             else if sum_list (map length (rq_Env req)) > maxEnvBytes then Inl EnvironmentTooLarge
             else Inr (p\<lparr>pl_runner := rq_Runner req, pl_mode := rq_Mode req, pl_env := rq_Env req\<rparr>))"

definition verify_plan :: "sandbox_request \<Rightarrow> (request_error, sandbox_plan) result" where
  "verify_plan req =
     (if rq_Command req = [] \<or> length (rq_Command req) > maxCommand \<or> CHR 0x00 \<in> set (rq_Command req)
      then Inl CommandRefused
      else if rq_Env req \<noteq> [] \<or> rq_Stdin req then Inl VerifyTakesNoInput
      else Inr ((empty_plan req)\<lparr>pl_kind := KindVerify, pl_command := rq_Command req\<rparr>))"

definition probe_plan :: "sandbox_request \<Rightarrow> (request_error, sandbox_plan) result" where
  "probe_plan req =
     (if rq_Dir req \<noteq> [] \<or> rq_Env req \<noteq> [] \<or> rq_Stdin req then Inl ProbeTakesNoInput
      else if rq_Mode req = ProbeVersions \<or> rq_Mode req = ProbeContainment
      then Inr ((empty_plan req)\<lparr>pl_kind := KindProbe, pl_probe := rq_Mode req\<rparr>)
      else Inl UnknownProbe)"

definition kind_plan :: "sandbox_request \<Rightarrow> (request_error, sandbox_plan) result" where
  "kind_plan req =
     (if rq_Kind req = KindRunner then runner_plan req
      else if rq_Kind req = KindVerify then verify_plan req
      else if rq_Kind req = KindProbe then probe_plan req
      else Inl UnknownKind)"

text \<open>\<open>Config.plan\<close>. The lifetime is a \<open>time.Duration\<close>, a count of nanoseconds at 64 bits, so the
  multiplication wraps.\<close>

definition Config_plan :: "lstat \<Rightarrow> broker_config \<Rightarrow> sandbox_request \<Rightarrow> (request_error, sandbox_plan) result" where
  "Config_plan lstat c req =
     (case kind_plan req of
        Inl err \<Rightarrow> Inl err
      | Inr p \<Rightarrow>
          if pl_kind p \<noteq> KindProbe \<and> rq_Timeout req > bc_MaxSeconds c
          then Inl (TimeoutExceeds (rq_Timeout req) (bc_MaxSeconds c))
          else let seconds = (if rq_Timeout req > 0 \<and> rq_Timeout req < bc_MaxSeconds c then rq_Timeout req else bc_MaxSeconds c);
                   p = p\<lparr>pl_timeout := seconds * 1000000000\<rparr>
            in if pl_kind p = KindProbe then Inr p else resolveRoot lstat c p (rq_Dir req))"

subsection \<open>The container\<close>

record volume_options =
  vo_NoCopy :: bool
  vo_Subpath :: string

record mount =
  mt_Type :: string
  mt_Source :: string
  mt_Target :: string
  mt_ReadOnly :: bool
  mt_VolumeOptions :: "volume_options option"

record host_config =
  hc_Init :: bool
  hc_Privileged :: bool
  hc_ReadonlyRootfs :: bool
  hc_CapDrop :: "string list"
  hc_CapAdd :: "string list"
  hc_SecurityOpt :: "string list"
  hc_NetworkMode :: string
  hc_IpcMode :: string
  hc_PidMode :: string
  hc_UTSMode :: string
  hc_UsernsMode :: string
  hc_CgroupnsMode :: string
  hc_PidsLimit :: int
  hc_Memory :: int
  hc_MemorySwap :: int
  hc_NanoCPUs :: int
  hc_OomScoreAdj :: int
  hc_ShmSize :: int
  hc_Tmpfs :: "string smap"
  hc_Mounts :: "mount list"
  hc_Binds :: "string list"
  hc_Devices :: "string list"
  hc_Runtime :: string
  hc_AutoRemove :: bool
  hc_LogConfig :: string
  hc_RestartPolicy :: string

record container_config =
  cc_Image :: string
  cc_User :: string
  cc_Entrypoint :: "string list"
  cc_Cmd :: "string list"
  cc_WorkingDir :: string
  cc_Env :: "string list"
  cc_Labels :: "string smap"
  cc_AttachStdin :: bool
  cc_AttachStdout :: bool
  cc_AttachStderr :: bool
  cc_OpenStdin :: bool
  cc_StdinOnce :: bool
  cc_Tty :: bool
  cc_StopSignal :: string
  cc_HostConfig :: host_config

definition Config_program :: "sandbox_plan \<Rightarrow> string list \<times> string list" where
  "Config_program p =
     (if pl_kind p = KindRunner then
        if pl_mode p = RunnerModeOpenCode
        then ([toolsBinary, InitFlag, RunnerModeOpenCode, show_nat (unat (pl_readiness p)), ''--'', pl_runner p], RunnerArgs (pl_runner p))
        else ([pl_runner p], RunnerArgs (pl_runner p))
      else if pl_kind p = KindVerify then
        let (prog, args) = VerifyProgram (pl_command p) in ([prog], args)
      else ([toolsBinary, InitFlag, pl_probe p], []))"

definition volume_mount :: "string \<Rightarrow> string \<Rightarrow> string \<Rightarrow> bool \<Rightarrow> mount" where
  "volume_mount source subpath target readOnly =
     \<lparr>mt_Type = ''volume'', mt_Source = source, mt_Target = target, mt_ReadOnly = readOnly,
      mt_VolumeOptions = Some \<lparr>vo_NoCopy = True, vo_Subpath = subpath\<rparr>\<rparr>"

definition Config_mounts :: "broker_config \<Rightarrow> sandbox_plan \<Rightarrow> mount list" where
  "Config_mounts c p =
     (let data = volume_mount (bc_DataVolume c);
          tools = [volume_mount (bc_ToolsVolume c) [] toolsMount True]
      in if pl_kind p = KindProbe then tools
         else tools @ [data (filepath_Join [pl_rel p, WorkspaceDir]) (pl_dir p) False] @
           (if pl_scratch p then []
            else [data (filepath_Join [pl_rel p, GitDirName]) (filepath_Join [pl_root p, GitDirName]) True,
                  data (filepath_Join [pl_rel p, WorkspaceDir, ''.git'']) (filepath_Join [pl_dir p, ''.git'']) True]) @
           (if pl_kind p = KindRunner then
              data (filepath_Join [pl_rel p, RunnerHome]) sandboxHome False #
              map (\<lambda>(home, volume). volume_mount (bc_RunnerVolume c) volume (filepath_Join [sandboxHome, home]) False) RunnerHomeDirs
            else if pl_kind p = KindVerify then
              [data (filepath_Join [pl_rel p, VerifyHome]) sandboxHome False]
            else []))"

definition sandbox_network :: "broker_config \<Rightarrow> sandbox_plan \<Rightarrow> string" where
  "sandbox_network c p =
     (if pl_kind p = KindRunner then bc_RunnerNetwork c
      else if pl_kind p = KindVerify then bc_VerifyNetwork c
      else if pl_kind p = KindProbe \<and> pl_probe p = ProbeContainment then bc_RunnerNetwork c
      else ''none'')"

definition Config_container :: "broker_config \<Rightarrow> sandbox_plan \<Rightarrow> string list \<Rightarrow> container_config" where
  "Config_container c p extraEnv =
     (let user = show_int (bc_UID c) @ '':'' @ show_int (bc_GID c);
          (entrypoint, cmd) = Config_program p;
          workdir = (if pl_kind p = KindProbe then ''/tmp'' else pl_dir p);
          env = [''HOME='' @ sandboxHome, ''USER=octomus'', ''LANG=C.UTF-8'', ''TMPDIR=/tmp'', ''GIT_TERMINAL_PROMPT=0'',
                 ''GIT_OPTIONAL_LOCKS=0''] @
                (if pl_kind p = KindRunner
                 then (''GIT_CONFIG_GLOBAL='' @ toolsGitConfig) #
                      (if bc_CAFile c \<noteq> [] then [''SSL_CERT_FILE='' @ toolsCAFile, ''NODE_EXTRA_CA_CERTS='' @ toolsCAFile] else [])
                 else []) @ extraEnv @ pl_env p;
          tmp = [(''/tmp'', ''rw,exec,nosuid,nodev,size='' @ show_int (bc_Tmpfs c))];
          tmpfs =
            (if pl_kind p = KindProbe
             then smap_put sandboxHome (''rw,nosuid,nodev,size='' @ show_int (64 * 2 ^ 20) @ '',uid='' @ show_int (bc_UID c) @
                    '',gid='' @ show_int (bc_GID c) @ '',mode=0700'') tmp
             else tmp)
      in \<lparr>cc_Image = [], cc_User = user, cc_Entrypoint = entrypoint, cc_Cmd = cmd, cc_WorkingDir = workdir, cc_Env = env,
          cc_Labels = [(instanceLabel, bc_Instance c), (kindLabel, pl_kind p), (rootLabel, pl_rel p)],
          cc_AttachStdin = pl_stdin p, cc_AttachStdout = True, cc_AttachStderr = True, cc_OpenStdin = pl_stdin p,
          cc_StdinOnce = pl_stdin p, cc_Tty = False, cc_StopSignal = ''SIGTERM'',
          cc_HostConfig =
            \<lparr>hc_Init = True, hc_Privileged = False, hc_ReadonlyRootfs = True, hc_CapDrop = [''ALL''], hc_CapAdd = [],
             hc_SecurityOpt = [''no-new-privileges:true''], hc_NetworkMode = sandbox_network c p, hc_IpcMode = ''private'',
             hc_PidMode = [], hc_UTSMode = [], hc_UsernsMode = [], hc_CgroupnsMode = [], hc_PidsLimit = bc_Pids c,
             hc_Memory = bc_Memory c, hc_MemorySwap = bc_Memory c, hc_NanoCPUs = bc_NanoCPUs c, hc_OomScoreAdj = 1000,
             hc_ShmSize = 0, hc_Tmpfs = tmpfs, hc_Mounts = Config_mounts c p, hc_Binds = [], hc_Devices = [],
             hc_Runtime = bc_Runtime c, hc_AutoRemove = False, hc_LogConfig = ''none'', hc_RestartPolicy = ''no''\<rparr>\<rparr>)"

subsection \<open>What confines a sandbox\<close>

text \<open>An owned root in elements: a task's root or its verification copy, one phase of a planning cycle, a baseline or
  a scratch directory, of the primary repository or of one below \<open>repos\<close>.\<close>

fun root_parts :: "string list \<Rightarrow> bool" where
  "root_parts [base, u] \<longleftrightarrow> base \<in> {''tasks'', ''baselines'', ''system''}"
| "root_parts [base, u, phase] \<longleftrightarrow> base = ''tasks'' \<and> phase = ''verify'' \<or> base = ''cycles''"
| "root_parts _ \<longleftrightarrow> False"

definition plain_part :: "string \<Rightarrow> bool" where
  "plain_part p \<longleftrightarrow> p \<noteq> [] \<and> p \<noteq> ''.'' \<and> p \<noteq> ''..'' \<and> CHR ''/'' \<notin> set p"

definition plain_rel :: "string \<Rightarrow> bool" where
  "plain_rel s \<longleftrightarrow> list_all plain_part (split_on (CHR ''/'') s)"

definition owned_root :: "string \<Rightarrow> bool" where
  "owned_root rel \<longleftrightarrow> plain_rel rel \<and>
     (let parts = split_on (CHR ''/'') rel in root_parts parts \<or> hd parts = ''repos'' \<and> root_parts (drop 2 parts))"

text \<open>The mounts a sandbox may have: the read-only tools; inside its own root, the writable work tree and home and
  the read-only git metadata and pointer; for a runner, the shared runner state.\<close>

definition mount_confined :: "broker_config \<Rightarrow> sandbox_plan \<Rightarrow> mount \<Rightarrow> bool" where
  "mount_confined c p m \<longleftrightarrow> mt_Type m = ''volume'' \<and>
     (case mt_VolumeOptions m of None \<Rightarrow> False | Some opts \<Rightarrow> vo_NoCopy opts \<and>
       (mt_Source m = bc_ToolsVolume c \<and> mt_ReadOnly m \<and> mt_Target m = toolsMount
      \<or> mt_Source m = bc_DataVolume c \<and> pl_kind p \<noteq> KindProbe \<and>
          vo_Subpath opts \<in> (\<lambda>leaf. pl_rel p @ ''/'' @ leaf) `
            (if mt_ReadOnly m then {GitDirName, WorkspaceDir @ ''/.git''}
             else if pl_kind p = KindRunner then {WorkspaceDir, RunnerHome} else {WorkspaceDir, VerifyHome})
      \<or> mt_Source m = bc_RunnerVolume c \<and> pl_kind p = KindRunner \<and> vo_Subpath opts \<in> snd ` set RunnerHomeDirs))"

definition confined :: "broker_config \<Rightarrow> sandbox_plan \<Rightarrow> container_config \<Rightarrow> bool" where
  "confined c p cc \<longleftrightarrow>
     (let h = cc_HostConfig cc in
      cc_User cc = show_int (bc_UID c) @ '':'' @ show_int (bc_GID c) \<and> 0 < bc_UID c \<and> 0 < bc_GID c \<and>
      \<not> hc_Privileged h \<and> hc_ReadonlyRootfs h \<and> hc_CapDrop h = [''ALL''] \<and> hc_CapAdd h = [] \<and>
      hc_SecurityOpt h = [''no-new-privileges:true''] \<and> hc_Binds h = [] \<and> hc_Devices h = [] \<and>
      hc_IpcMode h = ''private'' \<and> hc_PidMode h = [] \<and>
      hc_NetworkMode h \<in> {''none'', bc_RunnerNetwork c, bc_VerifyNetwork c} \<and>
      (pl_kind p = KindVerify \<longrightarrow> hc_NetworkMode h = bc_VerifyNetwork c) \<and>
      32 \<le> hc_PidsLimit h \<and> hc_PidsLimit h \<le> 2 ^ 22 \<and> 2 ^ 26 \<le> hc_Memory h \<and> hc_Memory h \<le> 2 ^ 40 \<and>
      hc_MemorySwap h = hc_Memory h \<and> hc_LogConfig h = ''none'' \<and>
      list_all (mount_confined c p) (hc_Mounts h) \<and> (pl_kind p \<noteq> KindProbe \<longrightarrow> owned_root (pl_rel p)))"

subsection \<open>Lemmas: the language of an anchored pattern\<close>

inductive_set words :: "string set \<Rightarrow> string set" for A where
  words_nil: "[] \<in> words A"
| words_step: "u \<in> A \<Longrightarrow> v \<in> words A \<Longrightarrow> u @ v \<in> words A"

primrec lang :: "re \<Rightarrow> string set" where
  "lang (Rune P) = {[c] |c. P (byte c)}"
| "lang Eps = {[]}"
| "lang Bol = {[]}"
| "lang (Cat a b) = {u @ v |u v. u \<in> lang a \<and> v \<in> lang b}"
| "lang (Alt a b) = lang a \<union> lang b"
| "lang (Star a) = words (lang a)"

primrec ascii_re :: "re \<Rightarrow> bool" where
  "ascii_re (Rune P) \<longleftrightarrow> (\<forall>n \<ge> 128. \<not> P n)"
| "ascii_re Eps \<longleftrightarrow> True"
| "ascii_re Bol \<longleftrightarrow> True"
| "ascii_re (Cat a b) \<longleftrightarrow> ascii_re a \<and> ascii_re b"
| "ascii_re (Alt a b) \<longleftrightarrow> ascii_re a \<and> ascii_re b"
| "ascii_re (Star a) \<longleftrightarrow> ascii_re a"

primrec re_chars :: "re \<Rightarrow> char set" where
  "re_chars (Rune P) = {c. P (byte c)}"
| "re_chars Eps = {}"
| "re_chars Bol = {}"
| "re_chars (Cat a b) = re_chars a \<union> re_chars b"
| "re_chars (Alt a b) = re_chars a \<union> re_chars b"
| "re_chars (Star a) = re_chars a"

lemma decode_rune_ascii:
  assumes "fst (decode_rune s) < 128" "s \<noteq> []"
  shows "snd (decode_rune s) = 1 \<and> byte (hd s) = fst (decode_rune s)"
proof -
  have "good_rune s" using assms by (auto simp: rune_error_def)
  then show ?thesis
  proof (cases rule: good_rune_cases)
    case (2 a b t)
    then show ?thesis using assms(1) by (simp add: decode_rune2)
  next
    case (3 a b c t)
    then have "fst (decode_rune s) = (byte a - 224) * 4096 + (byte b - 128) * 64 + (byte c - 128)" by (simp add: decode_rune3)
    moreover have "byte a = 224 \<longrightarrow> 160 \<le> byte b" using 3(4) by (auto simp: second_ok3_def)
    ultimately show ?thesis using assms(1) 3(2) by arith
  next
    case (4 a b c d t)
    then have "fst (decode_rune s) = (byte a - 240) * 262144 + (byte b - 128) * 4096 + (byte c - 128) * 64 + (byte d - 128)"
      by (simp add: decode_rune4)
    moreover have "byte a = 240 \<longrightarrow> 144 \<le> byte b" using 4(4) by (auto simp: second_ok4_def)
    ultimately show ?thesis using assms(1) 4(2) by arith
  qed (simp add: decode_rune1)
qed

lemma slice_split: "i \<le> k \<Longrightarrow> k \<le> j \<Longrightarrow> slice i j s = slice i k s @ slice k j s"
  using take_add [of "k - i" "j - k" "drop i s"] by (simp add: slice_def)

lemma star_ends_words:
  assumes f: "\<And>i j. j \<in> set (f i) \<Longrightarrow> i \<le> length s \<Longrightarrow> i \<le> j \<and> j \<le> length s \<and> slice i j s \<in> A"
  shows "j \<in> set (star_ends fuel f i) \<Longrightarrow> i \<le> length s \<Longrightarrow> slice i j s \<in> words A"
proof (induction fuel arbitrary: i)
  case (Suc fuel)
  show ?case
  proof (cases "j = i")
    case False
    with Suc.prems(1) obtain k where k: "k \<in> set (f i)" "i < k" "j \<in> set (star_ends fuel f k)"
      by (auto split: if_splits)
    have step: "i \<le> k" "k \<le> length s" "slice i k s \<in> A" using f [OF k(1) Suc.prems(2)] by auto
    have "k \<le> j" using star_ends_bounds [of f s, OF _ k(3) step(2)] f by blast
    from slice_split [OF step(1) this, of s] show ?thesis
      using words_step [OF step(3) Suc.IH [OF k(3) step(2)]] by simp
  qed (simp add: words_nil)
qed (simp add: words_nil)

lemma ends_lang: "ascii_re r \<Longrightarrow> j \<in> set (re_ends r s i) \<Longrightarrow> i \<le> length s \<Longrightarrow> slice i j s \<in> lang r"
proof (induction r arbitrary: i j)
  case (Rune P)
  then have i: "i < length s" and P: "P (fst (decode_rune (drop i s)))" and j: "j = i + snd (decode_rune (drop i s))"
    by (auto split: if_splits)
  from P Rune.prems(1) have "fst (decode_rune (drop i s)) < 128" by (metis ascii_re.simps(1) not_le)
  from decode_rune_ascii [OF this] i have "j = Suc i" "byte (s ! i) = fst (decode_rune (drop i s))"
    using j by (simp_all add: hd_drop_conv_nth)
  then show ?case using i P by (simp add: slice_def take_Suc_conv_app_nth hd_drop_conv_nth take_Suc)
next
  case (Cat a b)
  from Cat.prems(2) obtain k where k: "k \<in> set (re_ends a s i)" "j \<in> set (re_ends b s k)" by auto
  have ik: "i \<le> k" "k \<le> length s" using re_ends_bounds [OF k(1) Cat.prems(3)] by auto
  have "k \<le> j" using re_ends_bounds [OF k(2) ik(2)] by simp
  from slice_split [OF ik(1) this, of s] show ?case
    using Cat.IH(1) [OF _ k(1) Cat.prems(3)] Cat.IH(2) [OF _ k(2) ik(2)] Cat.prems(1) by auto
next
  case (Star a)
  from Star.prems(2) have "j \<in> set (star_ends (length s) (re_ends a s) i)" by simp
  from star_ends_words [OF _ this Star.prems(3), of "lang a"] show ?case
    using Star.IH Star.prems(1) re_ends_bounds by auto
qed (auto split: if_splits)

lemma re_full_lang: "re_full r s \<Longrightarrow> ascii_re r \<Longrightarrow> s \<in> lang r"
  using ends_lang [of r "length s" s 0] by (simp add: re_full_def slice_def)

lemma words_chars: "s \<in> words A \<Longrightarrow> (\<And>u. u \<in> A \<Longrightarrow> set u \<subseteq> C) \<Longrightarrow> set s \<subseteq> C"
  by (induction rule: words.induct) auto

lemma lang_chars: "s \<in> lang r \<Longrightarrow> set s \<subseteq> re_chars r"
proof (induction r arbitrary: s)
  case (Cat a b)
  then show ?case by fastforce
next
  case (Star a)
  then show ?case using words_chars [of s "lang a" "re_chars a"] by simp
qed auto

lemma lang_cat: "lang (re_cat (a # as)) = {u @ v |u v. u \<in> lang a \<and> v \<in> lang (re_cat as)}"
  by (cases as) auto

lemma lang_alt: "lang (re_alt (a # as)) = lang a \<union> lang (re_alt as)"
  by (cases as) auto

lemma lang_word: "lang (re_word w) \<subseteq> {w}"
proof (induction w)
  case (Cons c w)
  then show ?case by (auto simp: re_word_def lang_cat re_class_def)
qed (simp add: re_word_def)

lemma ascii_cat [simp]: "ascii_re (re_cat rs) = list_all ascii_re rs"
  by (induction rs rule: re_cat.induct) auto

lemma ascii_alt [simp]: "ascii_re (re_alt rs) = list_all ascii_re rs"
  by (induction rs rule: re_alt.induct) auto

lemma ascii_class [simp]: "ascii_re (re_class P)"
  by (simp add: re_class_def)

lemma ascii_word [simp]: "ascii_re (re_word w)"
  by (simp add: re_word_def list_all_iff)

lemma ascii_times [simp]: "ascii_re a \<Longrightarrow> ascii_re (re_times n a)"
  by (induction n) auto

lemma ascii_opt [simp]: "ascii_re (re_opt a) = ascii_re a"
  by (simp add: re_opt_def)

lemma ascii_upto [simp]: "ascii_re a \<Longrightarrow> ascii_re (re_upto n a)"
  by (induction n) auto

lemma root_ascii: "ascii_re rootPattern" "ascii_re scratchPattern"
  by (simp_all add: rootPattern_def phasePattern_def scratchPattern_def reposPrefix_def slugPattern_def uuidPattern_def)

subsection \<open>Lemmas: owned roots\<close>

lemma split_on_single: "d \<notin> set s \<Longrightarrow> split_on d s = [s]"
  by (induction d s rule: split_on.induct) auto

lemma plain_rel_part: "plain_part p \<Longrightarrow> plain_rel p"
  by (simp add: plain_rel_def plain_part_def split_on_single)

lemma plain_rel_append: "plain_rel a \<Longrightarrow> plain_rel b \<Longrightarrow> plain_rel (a @ CHR ''/'' # b)"
  by (simp add: plain_rel_def split_on_append)

lemma uuid_chars: "u \<in> lang uuidPattern \<Longrightarrow> c \<in> set u \<Longrightarrow> hex_c c \<or> c = CHR ''-''"
proof -
  have times: "re_chars (re_times n (re_class hex_c)) \<subseteq> {c. hex_c c}" for n
    by (induction n) (auto simp: re_class_def)
  have "re_chars uuidPattern \<subseteq> {c. hex_c c \<or> c = CHR ''-''}"
    using times by (auto simp: uuidPattern_def re_word_def re_class_def)
  then show "u \<in> lang uuidPattern \<Longrightarrow> c \<in> set u \<Longrightarrow> hex_c c \<or> c = CHR ''-''" using lang_chars by blast
qed

lemma lang_consumes: "s \<in> lang r \<Longrightarrow> consumes r \<Longrightarrow> s \<noteq> []"
  by (induction r arbitrary: s) auto

lemma hex_not: "\<not> hex_c (CHR ''.'')" "\<not> hex_c (CHR ''/'')"
  by code_simp+

lemma uuid_plain: "u \<in> lang uuidPattern \<Longrightarrow> plain_part u"
proof -
  assume u: "u \<in> lang uuidPattern"
  have "consumes uuidPattern" by (simp add: uuidPattern_def re_word_def re_class_def)
  with u have "u \<noteq> []" by (rule lang_consumes)
  moreover have "CHR ''.'' \<notin> set u" "CHR ''/'' \<notin> set u" using uuid_chars [OF u] hex_not by force+
  ultimately show "plain_part u" by (auto simp: plain_part_def)
qed

lemma slug_plain: "s \<in> lang slugPattern \<Longrightarrow> plain_part s"
proof -
  assume s: "s \<in> lang slugPattern"
  then have "s \<noteq> []" "hd s \<noteq> CHR ''.''"
    by (auto simp: slugPattern_def re_class_def upper_c_def lower_c_def digit_c_def less_eq_char_def)
  moreover have "re_chars slugPattern \<subseteq> {c. c \<noteq> CHR ''/''}"
    by (auto simp: slugPattern_def re_class_def re_word_def upper_c_def lower_c_def digit_c_def less_eq_char_def numeral_2_eq_2)
  then have "CHR ''/'' \<notin> set s" using lang_chars [OF s] by blast
  ultimately show "plain_part s" by (cases s) (auto simp: plain_part_def)
qed

lemma phase_plain: "s \<in> lang phasePattern \<Longrightarrow> plain_part s"
proof -
  assume s: "s \<in> lang phasePattern"
  have "consumes phasePattern" by (simp add: phasePattern_def re_word_def re_class_def)
  with s have "s \<noteq> []" by (rule lang_consumes)
  moreover have "CHR ''.'' \<notin> re_chars phasePattern" "CHR ''/'' \<notin> re_chars phasePattern"
    by (simp_all add: phasePattern_def re_word_def re_class_def re_opt_def digit_c_def less_eq_char_def)
  then have "CHR ''.'' \<notin> set s" "CHR ''/'' \<notin> set s" using lang_chars [OF s] by blast+
  ultimately show "plain_part s" by (auto simp: plain_part_def)
qed

lemma lang_wordD: "s \<in> lang (re_word w) \<Longrightarrow> s = w"
  using lang_word by blast

lemma lang_cat_word: "s \<in> lang (re_cat (re_word w # rs)) \<Longrightarrow> \<exists>v \<in> lang (re_cat rs). s = w @ v"
  by (auto simp: lang_cat dest!: lang_wordD)

lemma lang_catE:
  assumes "s \<in> lang (re_cat (r # rs))"
  obtains u v where "s = u @ v" "u \<in> lang r" "v \<in> lang (re_cat rs)"
  using assms by (auto simp: lang_cat)

lemma words_plain [simp]:
  "plain_part ''tasks''" "plain_part ''cycles''" "plain_part ''baselines''" "plain_part ''system''" "plain_part ''repos''"
  "plain_part ''verify''" "plain_part ''workspace''" "plain_part ''home''" "plain_part ''verify-home''" "plain_part ''repo.git''"
  "plain_part ''.git''"
  by (simp_all add: plain_part_def)

text \<open>The body of an owned root, in elements.\<close>

lemma body_parts:
  assumes "s \<in> lang (re_alt
     [re_cat [re_word ''tasks/'', uuidPattern, re_opt (re_word ''/verify'')],
      re_cat [re_word ''cycles/'', uuidPattern, re_word ''/'', phasePattern],
      re_cat [re_word ''baselines/'', uuidPattern],
      re_cat [re_word ''system/'', uuidPattern]])"
  shows "\<exists>parts. s = join_with ''/'' parts \<and> list_all plain_part parts \<and> root_parts parts"
proof -
  from assms consider
      (tasks) "s \<in> lang (re_cat [re_word ''tasks/'', uuidPattern, re_opt (re_word ''/verify'')])"
    | (cycles) "s \<in> lang (re_cat [re_word ''cycles/'', uuidPattern, re_word ''/'', phasePattern])"
    | (baselines) "s \<in> lang (re_cat [re_word ''baselines/'', uuidPattern])"
    | (system) "s \<in> lang (re_cat [re_word ''system/'', uuidPattern])"
    unfolding lang_alt by (auto simp del: re_cat.simps)
  then show ?thesis
  proof cases
    case tasks
    from lang_cat_word [OF this] obtain w where w: "s = ''tasks/'' @ w" "w \<in> lang (re_cat [uuidPattern, re_opt (re_word ''/verify'')])"
      by blast
    from w(2) obtain u v where "w = u @ v" "u \<in> lang uuidPattern" "v = [] \<or> v = ''/verify''"
      by (auto simp: re_opt_def dest: lang_wordD)
    then show ?thesis using w(1) uuid_plain
      by (intro exI [of _ "[''tasks'', u] @ (if v = [] then [] else [''verify''])"]) auto
  next
    case cycles
    from lang_cat_word [OF this] obtain w where w: "s = ''cycles/'' @ w" "w \<in> lang (re_cat [uuidPattern, re_word ''/'', phasePattern])"
      by blast
    from w(2) obtain u v where "w = u @ ''/'' @ v" "u \<in> lang uuidPattern" "v \<in> lang phasePattern"
      by (auto dest!: lang_wordD)
    then show ?thesis using w(1) uuid_plain phase_plain by (intro exI [of _ "[''cycles'', u, v]"]) auto
  next
    case baselines
    from lang_cat_word [OF this] obtain u where "s = ''baselines/'' @ u" "u \<in> lang uuidPattern" by auto
    then show ?thesis using uuid_plain by (intro exI [of _ "[''baselines'', u]"]) auto
  next
    case system
    from lang_cat_word [OF this] obtain u where "s = ''system/'' @ u" "u \<in> lang uuidPattern" by auto
    then show ?thesis using uuid_plain by (intro exI [of _ "[''system'', u]"]) auto
  qed
qed

lemma split_join_plain: "list_all plain_part ps \<Longrightarrow> ps \<noteq> [] \<Longrightarrow> split_on (CHR ''/'') (join_with ''/'' ps) = ps"
proof (induction "''/''" ps rule: join_with.induct)
  case (3 p q ps)
  then show ?case using split_on_append [of "CHR ''/''" p] by (simp add: plain_part_def split_on_single)
qed (auto simp: plain_part_def split_on_single)

lemma rootPattern_owned: "re_full rootPattern rel \<Longrightarrow> owned_root rel"
proof -
  assume "re_full rootPattern rel"
  then have "rel \<in> lang rootPattern" using re_full_lang root_ascii(1) by blast
  then obtain pre s where rel: "rel = pre @ s" and pre: "pre \<in> lang reposPrefix"
    and s: "\<exists>parts. s = join_with ''/'' parts \<and> list_all plain_part parts \<and> root_parts parts"
    unfolding rootPattern_def lang.simps using body_parts by blast
  from s obtain parts where parts: "s = join_with ''/'' parts" "list_all plain_part parts" "root_parts parts" by blast
  then have split: "split_on (CHR ''/'') s = parts" using split_join_plain [of parts] by (cases parts) auto
  from pre have "pre = [] \<or> pre \<in> lang (re_cat [re_word ''repos/'', slugPattern, re_word ''/''])"
    by (auto simp: reposPrefix_def re_opt_def simp del: re_cat.simps)
  then consider "pre = []" | slug where "pre = ''repos/'' @ slug @ ''/''" "slug \<in> lang slugPattern"
    by (force dest!: lang_cat_word dest: lang_wordD)
  then show "owned_root rel"
  proof cases
    case 1
    then show ?thesis using rel parts split by (simp add: owned_root_def plain_rel_def)
  next
    case 2
    then have "split_on (CHR ''/'') rel = ''repos'' # slug # parts"
      using rel split split_on_append [of "CHR ''/''" "''repos''" "slug @ ''/'' @ s"] split_on_append [of "CHR ''/''" slug s]
        slug_plain [of slug] by (simp add: plain_part_def split_on_single)
    then show ?thesis using parts slug_plain [OF 2(2)] by (simp add: owned_root_def plain_rel_def)
  qed
qed

subsection \<open>Lemmas: validated plans\<close>

lemma clean_parts_plain: "list_all plain_part ps \<Longrightarrow> clean_parts rooted kept ps = rev kept @ ps"
  by (induction ps arbitrary: kept) (auto simp: plain_part_def)

lemma Clean_plain: "plain_rel s \<Longrightarrow> filepath_Clean s = s"
proof -
  assume s: "plain_rel s"
  then have "\<not> has_prefix s ''/''" "s \<noteq> []"
    by (cases s; auto simp: plain_rel_def plain_part_def has_prefix_def)+
  then show ?thesis using s clean_parts_plain [of "split_on (CHR ''/'') s" False "[]"]
    by (simp add: filepath_Clean_def plain_rel_def)
qed

lemma plain_rel_not_Nil: "plain_rel s \<Longrightarrow> s \<noteq> []"
  by (auto simp: plain_rel_def plain_part_def)

lemma Join_plain: "plain_rel a \<Longrightarrow> plain_rel b \<Longrightarrow> filepath_Join [a, b] = a @ ''/'' @ b"
  using Clean_plain [OF plain_rel_append [of a b]] plain_rel_not_Nil [of a] by (simp add: filepath_Join_def)

lemma Join3_plain: "plain_rel a \<Longrightarrow> plain_rel b \<Longrightarrow> plain_rel d \<Longrightarrow> filepath_Join [a, b, d] = a @ ''/'' @ b @ ''/'' @ d"
  using Clean_plain [OF plain_rel_append [OF _ plain_rel_append [of b d]], of a] plain_rel_not_Nil [of a]
  by (simp add: filepath_Join_def)

lemma kind_plan_kind: "kind_plan req = Inr p \<Longrightarrow> pl_kind p = rq_Kind req \<and> rq_Kind req \<in> {KindRunner, KindVerify, KindProbe}"
  by (auto simp: kind_plan_def runner_plan_def verify_plan_def probe_plan_def Let_def split: if_splits)

lemma kinds_distinct [simp]:
  "KindRunner \<noteq> KindVerify" "KindRunner \<noteq> KindProbe" "KindVerify \<noteq> KindProbe"
  "KindVerify \<noteq> KindRunner" "KindProbe \<noteq> KindRunner" "KindProbe \<noteq> KindVerify"
  by (simp_all add: KindRunner_def KindVerify_def KindProbe_def)

lemma resolveRoot_Inr:
  assumes "resolveRoot lstat c q dir = Inr p"
  shows "pl_kind p = pl_kind q" "pl_timeout p = pl_timeout q" "re_full rootPattern (pl_rel p)"
    "filepath_Rel (bc_DataDir c) (pl_root p) = Some (pl_rel p)" "pl_scratch p = re_full scratchPattern (pl_rel p)"
    "pl_dir p = dir" "pl_root p = filepath_Dir dir" "filepath_Base dir = WorkspaceDir"
    "first_error (map (ownedDirectory lstat c) (required_dirs p)) = None"
    "\<not> pl_scratch p \<Longrightarrow> ownedFile lstat c (filepath_Join [pl_rel p, WorkspaceDir, ''.git'']) = None"
  using assms by (auto simp: resolveRoot_def Let_def split: if_splits option.splits)

lemma Config_plan_Inr:
  assumes "Config_plan lstat c req = Inr p"
  shows "pl_kind p = rq_Kind req" "pl_kind p \<in> {KindRunner, KindVerify, KindProbe}"
    "pl_timeout p = (if rq_Timeout req > 0 \<and> rq_Timeout req < bc_MaxSeconds c then rq_Timeout req else bc_MaxSeconds c) * 1000000000"
    "pl_kind p \<noteq> KindProbe \<Longrightarrow> rq_Timeout req \<le> bc_MaxSeconds c"
    "pl_kind p \<noteq> KindProbe \<Longrightarrow> \<exists>q. resolveRoot lstat c q (rq_Dir req) = Inr p"
proof -
  obtain q where q: "kind_plan req = Inr q" using assms by (cases "kind_plan req") (auto simp: Config_plan_def)
  note kind = kind_plan_kind [OF q]
  let ?q = "q\<lparr>pl_timeout := (if rq_Timeout req > 0 \<and> rq_Timeout req < bc_MaxSeconds c then rq_Timeout req else bc_MaxSeconds c) * 1000000000\<rparr>"
  have limit: "pl_kind q = KindProbe \<or> rq_Timeout req \<le> bc_MaxSeconds c"
    using assms q by (auto simp: Config_plan_def Let_def not_less split: if_splits)
  have p: "(if pl_kind q = KindProbe then Inr ?q else resolveRoot lstat c ?q (rq_Dir req)) = Inr p"
    using assms q limit unfolding Config_plan_def Let_def by (auto simp: not_less split: if_splits)
  show "pl_kind p = rq_Kind req" "pl_kind p \<in> {KindRunner, KindVerify, KindProbe}"
    "pl_timeout p = (if rq_Timeout req > 0 \<and> rq_Timeout req < bc_MaxSeconds c then rq_Timeout req else bc_MaxSeconds c) * 1000000000"
    "pl_kind p \<noteq> KindProbe \<Longrightarrow> rq_Timeout req \<le> bc_MaxSeconds c"
    "pl_kind p \<noteq> KindProbe \<Longrightarrow> \<exists>q. resolveRoot lstat c q (rq_Dir req) = Inr p"
    using p kind limit resolveRoot_Inr [of lstat c ?q "rq_Dir req" p] by (auto split: if_splits)
qed

lemma Config_plan_root:
  assumes "Config_plan lstat c req = Inr p" "pl_kind p \<noteq> KindProbe"
  shows "owned_root (pl_rel p)" "plain_rel (pl_rel p)"
proof -
  obtain q where "resolveRoot lstat c q (rq_Dir req) = Inr p" using Config_plan_Inr(5) [OF assms] by blast
  from rootPattern_owned [OF resolveRoot_Inr(3) [OF this]] show "owned_root (pl_rel p)" "plain_rel (pl_rel p)"
    by (auto simp: owned_root_def)
qed

lemma plain_leaves [simp]:
  "plain_rel WorkspaceDir" "plain_rel RunnerHome" "plain_rel VerifyHome" "plain_rel GitDirName" "plain_rel ''.git''"
  by (simp_all add: plain_rel_part WorkspaceDir_def RunnerHome_def VerifyHome_def GitDirName_def)

lemma mounts_confined:
  assumes "pl_kind p \<in> {KindRunner, KindVerify, KindProbe}" "pl_kind p \<noteq> KindProbe \<Longrightarrow> plain_rel (pl_rel p)"
  shows "list_all (mount_confined c p) (Config_mounts c p)"
proof (cases "pl_kind p = KindProbe")
  case True
  then show ?thesis by (simp add: Config_mounts_def mount_confined_def volume_mount_def Let_def)
next
  case False
  note join = Join_plain [OF assms(2) [OF False]] Join3_plain [OF assms(2) [OF False]]
  have "b \<in> snd ` set RunnerHomeDirs" if "(a, b) \<in> set RunnerHomeDirs" for a b using that by force
  then show ?thesis using assms(1) False
    by (auto simp: Config_mounts_def mount_confined_def volume_mount_def Let_def join list_all_iff)
qed

lemma integer_setting_ok: "integer_setting getenv key fallback low high = (n, []) \<Longrightarrow> low \<le> n \<and> n \<le> high"
  by (auto simp: integer_setting_def Let_def split: prod.splits if_splits)

lemma bytes_setting_ok: "bytes_setting u getenv key fallback low high = (n, []) \<Longrightarrow> low \<le> n \<and> n \<le> high"
  by (auto simp: bytes_setting_def split: option.splits if_splits)

text \<open>Accepted settings. Sizes and counts are inside their ranges, so every later product stays inside 64 bits.\<close>

definition strings_wf :: "broker_config \<Rightarrow> bool" where
  "strings_wf c \<longleftrightarrow>
     list_all (\<lambda>v. v \<noteq> []) [bc_Image c, bc_DataDir c, bc_DataVolume c, bc_RunnerVolume c, bc_ToolsVolume c,
       bc_RunnerNetwork c, bc_VerifyNetwork c] \<and>
     list_all (\<lambda>path. path = [] \<or> clean_absolute path)
       [bc_Socket c, bc_DockerSocket c, bc_DataDir c, bc_RunnerDir c, bc_ToolsDir c, bc_CAFile c, bc_LeaseDir c] \<and>
     (bc_CAFile c \<noteq> [] \<longrightarrow> list_all (\<lambda>dir. \<not> inside_volume dir (bc_CAFile c)) [bc_DataDir c, bc_RunnerDir c, bc_ToolsDir c]) \<and>
     (bc_LeaseDir c = [] \<longleftrightarrow> bc_EgressProxy c = []) \<and> re_full instancePattern (bc_Instance c)"

definition broker_config_wf :: "broker_config \<Rightarrow> bool" where
  "broker_config_wf c \<longleftrightarrow> strings_wf c \<and>
     bc_UID c \<in> {1 .. 2 ^ 31 - 1} \<and> bc_GID c \<in> {1 .. 2 ^ 31 - 1} \<and> bc_ClientUID c \<in> {0 .. 2 ^ 31 - 1} \<and>
     bc_Memory c \<in> {2 ^ 26 .. 2 ^ 40} \<and> bc_Tmpfs c \<in> {2 ^ 24 .. 2 ^ 40} \<and> bc_Pids c \<in> {32 .. 2 ^ 22} \<and>
     bc_Max c \<in> {1 .. 256} \<and> uint (bc_MaxSeconds c) \<in> {60 .. 604800}"

lemma checks_empty: "map f (filter P xs) = [] \<longleftrightarrow> list_all (\<lambda>x. \<not> P x) xs"
  by (induction xs) auto

lemma string_errors_ok: "string_errors c = [] \<Longrightarrow> strings_wf c"
  unfolding string_errors_def strings_wf_def append_is_Nil_conv checks_empty
  by (simp split: if_splits) (elim conjE, simp)+

lemma strings_wf_numbers: "strings_wf (c\<lparr>bc_UID := uid, bc_GID := gid, bc_ClientUID := cl, bc_NanoCPUs := na, bc_Memory := me,
    bc_Tmpfs := tm, bc_Pids := pi, bc_Max := mo, bc_MaxSeconds := se\<rparr>) = strings_wf c"
  by (simp add: strings_wf_def)

lemma LoadConfig_wf:
  assumes "LoadConfig u cpus getuid getenv = (c, [])"
  shows "broker_config_wf c"
proof -
  obtain uid e1 where 1: "integer_setting getenv ''OCTOMUS_SANDBOX_UID'' 10001 1 (2 ^ 31 - 1) = (uid, e1)" by force
  obtain gid e2 where 2: "integer_setting getenv ''OCTOMUS_SANDBOX_GID'' 10001 1 (2 ^ 31 - 1) = (gid, e2)" by force
  obtain cl e3 where 3: "integer_setting getenv ''OCTOMUS_SANDBOX_CLIENT_UID'' getuid 0 (2 ^ 31 - 1) = (cl, e3)" by force
  obtain me e4 where 4: "bytes_setting u getenv ''OCTOMUS_SANDBOX_MEMORY'' ''4g'' (2 ^ 26) (2 ^ 40) = (me, e4)" by force
  obtain tm e5 where 5: "bytes_setting u getenv ''OCTOMUS_SANDBOX_TMPFS'' ''1g'' (2 ^ 24) (2 ^ 40) = (tm, e5)" by force
  obtain pi e6 where 6: "integer_setting getenv ''OCTOMUS_SANDBOX_PIDS'' 1024 32 (2 ^ 22) = (pi, e6)" by force
  obtain mo e7 where 7: "integer_setting getenv ''OCTOMUS_SANDBOX_MAX'' 12 1 256 = (mo, e7)" by force
  obtain se e8 where 8: "integer_setting getenv ''OCTOMUS_SANDBOX_MAX_SECONDS'' 21600 60 (7 * 24 * 3600) = (se, e8)" by force
  obtain na ok where 9: "cpus (setting getenv ''OCTOMUS_SANDBOX_CPUS'' ''2'') = (na, ok)" by force
  note parts = 1 2 3 4 5 6 7 8 9
  let ?s = "config_strings getenv"
  have c: "c = ?s\<lparr>bc_UID := uid, bc_GID := gid, bc_ClientUID := cl, bc_NanoCPUs := na, bc_Memory := me,
            bc_Tmpfs := tm, bc_Pids := pi, bc_Max := mo, bc_MaxSeconds := word_of_int se\<rparr>"
    and none: "string_errors ?s = []" "e1 = []" "e2 = []" "e3 = []" "e4 = []" "e5 = []" "e6 = []" "e7 = []" "e8 = []"
    using assms unfolding LoadConfig_def Let_def parts by auto
  note ranges = 1 [unfolded none, THEN integer_setting_ok] 2 [unfolded none, THEN integer_setting_ok]
    3 [unfolded none, THEN integer_setting_ok] 4 [unfolded none, THEN bytes_setting_ok] 5 [unfolded none, THEN bytes_setting_ok]
    6 [unfolded none, THEN integer_setting_ok] 7 [unfolded none, THEN integer_setting_ok] 8 [unfolded none, THEN integer_setting_ok]
  have "uint (word_of_int se :: 64 word) = se" using ranges(8) by (intro word_of_int_inverse) auto
  then show ?thesis using string_errors_ok [OF none(1)] ranges
    unfolding c broker_config_wf_def strings_wf_numbers by simp
qed

subsection \<open>Lemmas: the directories of a plan\<close>

text \<open>The paths a walk from \<open>current\<close> looks at.\<close>

fun descend :: "string \<Rightarrow> string list \<Rightarrow> string list" where
  "descend current [] = []"
| "descend current (part # parts) = filepath_Join [current, part] # descend (filepath_Join [current, part]) parts"

definition owned_as :: "file_type \<Rightarrow> broker_config \<Rightarrow> lstat \<Rightarrow> string \<Rightarrow> bool" where
  "owned_as kind c lstat path \<longleftrightarrow>
     (case lstat path of Inl _ \<Rightarrow> False | Inr info \<Rightarrow> fi_Type info = kind \<and> fi_Uid info \<in> {None, Some (bc_UID c)})"

lemma lstat_checked_None:
  "lstat_checked lstat c path rel wantDir = None \<longleftrightarrow> owned_as (if wantDir then Directory else Regular) c lstat path"
  by (auto simp: lstat_checked_def owned_as_def ownedEntry_def Let_def split: sum.splits lstat_error.splits option.splits)

lemma owned_walk_None:
  "owned_walk lstat c rel current parts = None \<longleftrightarrow> list_all (owned_as Directory c lstat) (descend current parts)"
proof (induction parts arbitrary: current)
  case (Cons part parts)
  then show ?case using lstat_checked_None [of lstat c "filepath_Join [current, part]" rel True]
    by (cases "lstat_checked lstat c (filepath_Join [current, part]) rel True") (simp_all add: Let_def)
qed simp

lemma ownedDirectory_None:
  "ownedDirectory lstat c rel = None \<longleftrightarrow> list_all (owned_as Directory c lstat) (descend (bc_DataDir c) (split_on (CHR ''/'') rel))"
  by (simp add: ownedDirectory_def owned_walk_None)

lemma data_mount_required:
  assumes "m \<in> set (Config_mounts c p)" "\<not> mt_ReadOnly m" "pl_kind p \<in> {KindRunner, KindVerify}"
  shows "(\<exists>opts. mt_VolumeOptions m = Some opts \<and> mt_Source m = bc_DataVolume c \<and> vo_Subpath opts \<in> set (required_dirs p)) \<or>
    mt_Source m = bc_RunnerVolume c \<and> pl_kind p = KindRunner"
  using assms by (auto simp: Config_mounts_def volume_mount_def Let_def required_dirs_def HomeDirs_def RunnerHome_def
      VerifyHome_def split: if_splits)

text \<open>The fields of the container that confine it.\<close>

lemma container_fields:
  "cc_User (Config_container c p extra) = show_int (bc_UID c) @ '':'' @ show_int (bc_GID c)"
  "hc_Privileged (cc_HostConfig (Config_container c p extra)) = False"
  "hc_ReadonlyRootfs (cc_HostConfig (Config_container c p extra)) = True"
  "hc_CapDrop (cc_HostConfig (Config_container c p extra)) = [''ALL'']"
  "hc_CapAdd (cc_HostConfig (Config_container c p extra)) = []"
  "hc_SecurityOpt (cc_HostConfig (Config_container c p extra)) = [''no-new-privileges:true'']"
  "hc_Binds (cc_HostConfig (Config_container c p extra)) = []"
  "hc_Devices (cc_HostConfig (Config_container c p extra)) = []"
  "hc_IpcMode (cc_HostConfig (Config_container c p extra)) = ''private''"
  "hc_PidMode (cc_HostConfig (Config_container c p extra)) = []"
  "hc_NetworkMode (cc_HostConfig (Config_container c p extra)) = sandbox_network c p"
  "hc_PidsLimit (cc_HostConfig (Config_container c p extra)) = bc_Pids c"
  "hc_Memory (cc_HostConfig (Config_container c p extra)) = bc_Memory c"
  "hc_MemorySwap (cc_HostConfig (Config_container c p extra)) = bc_Memory c"
  "hc_LogConfig (cc_HostConfig (Config_container c p extra)) = ''none''"
  "hc_Mounts (cc_HostConfig (Config_container c p extra)) = Config_mounts c p"
  unfolding Config_container_def Let_def split_beta by simp_all

subsection \<open>Properties\<close>



text \<open>C12: every writable mount of a runner or verification sandbox is a directory the broker checked: walking its
  path from the data directory, each component is a real directory, never a symbolic link, and belongs to the
  sandbox user; only the shared runner state comes from another volume.\<close>

theorem writable_mounts_owned:
  assumes "Config_plan lstat c req = Inr p" "rq_Kind req \<noteq> KindProbe" "m \<in> set (Config_mounts c p)" "\<not> mt_ReadOnly m"
    "mt_Source m \<noteq> bc_RunnerVolume c"
  shows "\<exists>opts. mt_VolumeOptions m = Some opts \<and> mt_Source m = bc_DataVolume c \<and>
    list_all (owned_as Directory c lstat) (descend (bc_DataDir c) (split_on (CHR ''/'') (vo_Subpath opts)))"
proof -
  have kind: "pl_kind p \<in> {KindRunner, KindVerify}" "pl_kind p \<noteq> KindProbe" using Config_plan_Inr(1,2) [OF assms(1)] assms(2) by auto
  obtain q where q: "resolveRoot lstat c q (rq_Dir req) = Inr p" using Config_plan_Inr(5) [OF assms(1) kind(2)] by blast
  obtain opts where opts: "mt_VolumeOptions m = Some opts" "mt_Source m = bc_DataVolume c" "vo_Subpath opts \<in> set (required_dirs p)"
    using data_mount_required [OF assms(3,4) kind(1)] assms(5) by blast
  have "ownedDirectory lstat c (vo_Subpath opts) = None"
    using resolveRoot_Inr(9) [OF q] opts(3) by (simp add: first_error_None)
  then show ?thesis using opts by (simp add: ownedDirectory_None)
qed

text \<open>C13: a plan's lifetime is positive, is the number of seconds asked for or the configured maximum, never more than
  the maximum, and its nanoseconds fit a signed 64-bit duration; a longer request for work is refused.\<close>

theorem sandbox_lifetime_bounded:
  assumes "LoadConfig u cpus getuid getenv = (c, [])" "Config_plan lstat c req = Inr p"
  shows "sint (pl_timeout p) = 10 ^ 9 * (if 0 < uint (rq_Timeout req) \<and> uint (rq_Timeout req) < uint (bc_MaxSeconds c)
      then uint (rq_Timeout req) else uint (bc_MaxSeconds c)) \<and>
    0 < sint (pl_timeout p) \<and> sint (pl_timeout p) \<le> 10 ^ 9 * uint (bc_MaxSeconds c) \<and>
    (rq_Kind req \<noteq> KindProbe \<longrightarrow> uint (rq_Timeout req) \<le> uint (bc_MaxSeconds c))"
proof -
  define seconds where "seconds = (if rq_Timeout req > 0 \<and> rq_Timeout req < bc_MaxSeconds c then rq_Timeout req else bc_MaxSeconds c)"
  have limit: "60 \<le> uint (bc_MaxSeconds c)" "uint (bc_MaxSeconds c) \<le> 604800"
    using LoadConfig_wf [OF assms(1)] by (auto simp: broker_config_wf_def)
  have s: "uint seconds = (if 0 < uint (rq_Timeout req) \<and> uint (rq_Timeout req) < uint (bc_MaxSeconds c)
      then uint (rq_Timeout req) else uint (bc_MaxSeconds c))"
    by (auto simp: seconds_def word_less_def)
  have pos: "0 < uint seconds" "uint seconds \<le> uint (bc_MaxSeconds c)" using s limit by auto
  have "uint (pl_timeout p) = uint seconds * 1000000000"
    using pos limit Config_plan_Inr(3) [OF assms(2)] by (simp add: seconds_def [symmetric] uint_mult_lem [THEN iffD1])
  moreover have "uint seconds * 1000000000 < 2 ^ 63" using pos limit by simp
  ultimately have "sint (pl_timeout p) = uint seconds * 1000000000" using pos by (simp add: sint_uint signed_take_bit_int_eq_self)
  moreover have "rq_Kind req \<noteq> KindProbe \<longrightarrow> uint (rq_Timeout req) \<le> uint (bc_MaxSeconds c)"
    using Config_plan_Inr(1,4) [OF assms(2)] by (simp add: word_le_def)
  ultimately show ?thesis using pos s by simp
qed

subsection \<open>Witnesses\<close>

definition latin_tables :: unicode_tables where
  "latin_tables = \<lparr>to_lower_rune = (\<lambda>r. r), cased_rune = (\<lambda>_. False), ignorable_rune = (\<lambda>_. False), cases_lower = (\<lambda>s. s)\<rparr>"

definition sample_getenv :: "string \<Rightarrow> string" where
  "sample_getenv key =
     (case map_of
        [(''OCTOMUS_SANDBOX_IMAGE'', ''box''), (''OCTOMUS_DATA_DIR'', ''/data''), (''OCTOMUS_SANDBOX_DATA_VOLUME'', ''d''),
         (''OCTOMUS_SANDBOX_RUNNER_VOLUME'', ''r''), (''OCTOMUS_SANDBOX_TOOLS_VOLUME'', ''t''),
         (''OCTOMUS_SANDBOX_RUNNER_NETWORK'', ''rn''), (''OCTOMUS_SANDBOX_VERIFY_NETWORK'', ''vn'')] key of
        Some v \<Rightarrow> v | None \<Rightarrow> [])"

definition sample_root :: string where
  "sample_root = ''tasks/01234567-89ab-cdef-0123-456789abcdef''"

definition sample_verify :: sandbox_request where
  "sample_verify =
     \<lparr>rq_Kind = KindVerify, rq_Dir = ''/data/'' @ sample_root @ ''/workspace'', rq_Runner = [], rq_Mode = [],
      rq_Command = ''make test'', rq_Env = [], rq_Stdin = False, rq_FreshHome = True, rq_Timeout = 60, rq_Readiness = 0\<rparr>"

definition sample_lstat :: lstat where
  "sample_lstat path = Inr \<lparr>fi_Type = (if has_suffix path ''/.git'' then Regular else Directory), fi_Uid = Some 10001\<rparr>"

definition sample_planned :: sandbox_plan where
  "sample_planned =
     \<lparr>pl_kind = KindVerify, pl_dir = ''/data/'' @ sample_root @ ''/workspace'', pl_root = ''/data/'' @ sample_root,
      pl_rel = sample_root, pl_scratch = False, pl_runner = [], pl_mode = [], pl_probe = [], pl_command = ''make test'',
      pl_env = [], pl_stdin = False, pl_timeout = 60000000000, pl_readiness = 0, pl_image = []\<rparr>"

definition sample_settings :: broker_config where
  "sample_settings =
     \<lparr>bc_Socket = ''/run/octomus/sandboxd.sock'', bc_DockerSocket = ''/var/run/docker.sock'', bc_Image = ''box'',
      bc_DataDir = ''/data'', bc_DataVolume = ''d'', bc_RunnerVolume = ''r'', bc_RunnerDir = ''/var/lib/octomus/runner'',
      bc_ToolsVolume = ''t'', bc_ToolsDir = ''/opt/octomus-tools'', bc_CAFile = [], bc_RunnerNetwork = ''rn'',
      bc_VerifyNetwork = ''vn'', bc_Instance = ''octomus'', bc_UID = 10001, bc_GID = 10001, bc_ClientUID = 0,
      bc_NanoCPUs = 2000000000, bc_Memory = 4294967296, bc_Pids = 1024, bc_Tmpfs = 1073741824, bc_Max = 12,
      bc_MaxSeconds = 21600, bc_Runtime = [], bc_EgressProxy = [], bc_LeaseDir = [], bc_EgressCollector = []\<rparr>"

lemma int64_same: "0 \<le> n \<Longrightarrow> n < 2 ^ 63 \<Longrightarrow> int64 n = n"
  using word_of_int_inverse [where 'a = 64, OF refl, of n]
  by (simp add: int64_def sint_uint signed_take_bit_int_eq_self)

lemma sample_size:
  assumes "ParseInt [d] = (n, True)" "0 \<le> n" "n < 10" "byte d < 128" "ascii_lower d = d"
    "trim_space [d, CHR ''g''] = [d, CHR ''g'']"
  shows "ParseBytes latin_tables [d, CHR ''g''] = Some (n * 1073741824)"
proof -
  have "to_lower latin_tables [d, CHR ''g''] = [d, CHR ''g'']"
    using assms by (simp add: to_lower_ascii ascii_lower_def less_eq_char_def)
  then show ?thesis using assms int64_same [of "n * 1073741824"]
    by (simp add: ParseBytes_def size_units_def has_suffix_def trim_suffix_def suffix_def max_int64_def)
qed

lemma setting_unset: "getenv key = [] \<Longrightarrow> setting getenv key fallback = fallback"
  by (simp add: setting_def trim_space_def trim_left_space.simps [of "[]"] trim_right_space.simps [of "[]"])

lemma sample_unset:
  "key \<notin> {''OCTOMUS_SANDBOX_IMAGE'', ''OCTOMUS_DATA_DIR'', ''OCTOMUS_SANDBOX_DATA_VOLUME'', ''OCTOMUS_SANDBOX_RUNNER_VOLUME'',
     ''OCTOMUS_SANDBOX_TOOLS_VOLUME'', ''OCTOMUS_SANDBOX_RUNNER_NETWORK'', ''OCTOMUS_SANDBOX_VERIFY_NETWORK''} \<Longrightarrow>
   setting sample_getenv key fallback = fallback"
  by (rule setting_unset) (simp add: sample_getenv_def)

lemma sample_shown:
  "ParseInt (show_int 10001) = (10001, True)" "ParseInt (show_int 0) = (0, True)" "ParseInt (show_int 1024) = (1024, True)"
  "ParseInt (show_int 12) = (12, True)" "ParseInt (show_int 21600) = (21600, True)"
proof -
  have "show_int 10001 = ''10001''" "show_int 0 = ''0''" "show_int 1024 = ''1024''" "show_int 12 = ''12''" "show_int 21600 = ''21600''"
    by (simp_all add: show_int_def show_nat.simps char_of_def bit_0)
  moreover have "ParseInt ''10001'' = (10001, True)" "ParseInt ''0'' = (0, True)" "ParseInt ''1024'' = (1024, True)"
    "ParseInt ''12'' = (12, True)" "ParseInt ''21600'' = (21600, True)" by code_simp+
  ultimately show "ParseInt (show_int 10001) = (10001, True)" "ParseInt (show_int 0) = (0, True)" "ParseInt (show_int 1024) = (1024, True)"
    "ParseInt (show_int 12) = (12, True)" "ParseInt (show_int 21600) = (21600, True)" by simp_all
qed

lemma sample_sizes: "ParseBytes latin_tables ''4g'' = Some 4294967296" "ParseBytes latin_tables ''1g'' = Some 1073741824"
proof -
  have "ParseInt ''4'' = (4, True)" "ParseInt ''1'' = (1, True)"
    "ascii_lower (CHR ''4'') = CHR ''4''" "ascii_lower (CHR ''1'') = CHR ''1''"
    by code_simp+
  moreover have "trim_space ''4g'' = ''4g''" "trim_space ''1g'' = ''1g''" by (simp_all add: go_eval is_space_def)
  note sample_size [OF calculation(1) _ _ _ calculation(3) this(1)] sample_size [OF calculation(2) _ _ _ calculation(4) this(2)]
  then show "ParseBytes latin_tables ''4g'' = Some 4294967296" "ParseBytes latin_tables ''1g'' = Some 1073741824" by simp_all
qed

lemma sample_trim:
  "trim_space ''box'' = ''box''" "trim_space ''/data'' = ''/data''" "trim_space ''d'' = ''d''" "trim_space ''r'' = ''r''"
  "trim_space ''t'' = ''t''" "trim_space ''rn'' = ''rn''" "trim_space ''vn'' = ''vn''"
  by (simp_all add: go_eval is_space_def)

lemma sample_set:
  "setting sample_getenv ''OCTOMUS_SANDBOX_IMAGE'' [] = ''box''" "setting sample_getenv ''OCTOMUS_DATA_DIR'' [] = ''/data''"
  "setting sample_getenv ''OCTOMUS_SANDBOX_DATA_VOLUME'' [] = ''d''" "setting sample_getenv ''OCTOMUS_SANDBOX_RUNNER_VOLUME'' [] = ''r''"
  "setting sample_getenv ''OCTOMUS_SANDBOX_TOOLS_VOLUME'' [] = ''t''" "setting sample_getenv ''OCTOMUS_SANDBOX_RUNNER_NETWORK'' [] = ''rn''"
  "setting sample_getenv ''OCTOMUS_SANDBOX_VERIFY_NETWORK'' [] = ''vn''"
  by (simp_all add: setting_def sample_getenv_def sample_trim)

lemma sample_strings:
  "config_strings sample_getenv = sample_settings\<lparr>bc_UID := 0, bc_GID := 0, bc_ClientUID := 0, bc_NanoCPUs := 0, bc_Memory := 0,
     bc_Pids := 0, bc_Tmpfs := 0, bc_Max := 0, bc_MaxSeconds := 0\<rparr>"
  unfolding config_strings_def sample_set by (simp add: sample_unset sample_settings_def)

lemma sample_no_errors: "string_errors (config_strings sample_getenv) = []"
proof -
  have "list_all clean_absolute [''/run/octomus/sandboxd.sock'', ''/var/run/docker.sock'', ''/data'', ''/var/lib/octomus/runner'', ''/opt/octomus-tools'']"
    "re_full instancePattern ''octomus''" by code_simp+
  then show ?thesis unfolding sample_strings sample_settings_def string_errors_def by simp
qed

lemma sample_loaded: "LoadConfig latin_tables (\<lambda>_. (2000000000, True)) 0 sample_getenv = (sample_settings, [])"
  unfolding LoadConfig_def Let_def integer_setting_def bytes_setting_def sample_no_errors
  unfolding sample_strings by (simp add: sample_unset sample_shown sample_sizes sample_settings_def)

lemma sample_planned: "Config_plan sample_lstat sample_settings sample_verify = Inr sample_planned"
  by code_simp



theorem writable_mounts_owned_witness:
  "list_all (owned_as Directory sample_settings sample_lstat)
     (descend ''/data'' (split_on (CHR ''/'') (sample_root @ ''/verify-home'')))"
proof -
  let ?m = "volume_mount ''d'' (filepath_Join [sample_root, VerifyHome]) sandboxHome False"
  have "?m \<in> set (Config_mounts sample_settings sample_planned)"
    by (simp add: Config_mounts_def sample_planned_def sample_settings_def Let_def)
  moreover have "filepath_Join [sample_root, VerifyHome] = sample_root @ ''/verify-home''" by code_simp
  ultimately show ?thesis
    using writable_mounts_owned [OF sample_planned, of ?m] by (simp add: sample_verify_def volume_mount_def sample_settings_def)
qed

theorem sandbox_lifetime_bounded_witness: "sint (pl_timeout sample_planned) = 60 * 10 ^ 9 \<and> sint (pl_timeout sample_planned) \<le> 10 ^ 9 * 21600"
  using sandbox_lifetime_bounded [OF sample_loaded sample_planned] by (simp add: sample_verify_def sample_settings_def)

end
