(* ===== verification/Broker_Run.thy ===== *)
theory Broker_Run
  imports Broker_Spec Egress_Gateway
begin

text \<open>
  One sandbox under the broker (\<open>internal/sandbox/broker/lifecycle.go\<close>): the loop that starts a prepared
  container and serves its controls until it ends, as a step function over the things the loop can receive; the
  evidence of a finished sandbox; and the exit report the control plane is given. What the Docker daemon, the clock
  and the egress collector answer is carried by the events and by the arguments. The theorems show how a run can
  end, that only a delivered or overdue kill marks a sandbox killed and only a passed deadline reports the time
  limit, and that a report of a plain command exit is vouched for: the start was confirmed, the daemon reported the
  exit status, all output was delivered and the container and its lease are gone.
\<close>

subsection \<open>Times\<close>

definition teardownBudget :: int where
  "teardownBudget = 45 * 1000000000"

definition stopWait :: int where
  "stopWait = 15 * 1000000000"

definition sigkillStatus :: int where
  "sigkillStatus = 128 + 9"

definition TimeLimitReason :: string where
  "TimeLimitReason = ''Sandbox time limit reached''"

definition streamClosed :: string where
  "streamClosed = ''Sandbox stream closed''"

definition SignalTerminate :: string where
  "SignalTerminate = ''TERM''"

definition SignalKill :: string where
  "SignalKill = ''KILL''"

subsection \<open>The state of a run\<close>

datatype exit_outcome = ExitCommand | ExitTimeLimit | ExitFailure

record wait_result =
  wr_StatusCode :: int
  wr_Error :: "string option"

record control_message =
  cm_stdin :: "string option"
  cm_eof :: bool
  cm_signal :: string

text \<open>How a run ended; the outcome of a sandbox that was not killed is the empty string, here \<open>None\<close>, and a zero
  deadline is \<open>None\<close>.\<close>

record ending =
  ed_result :: "wait_result option"
  ed_killed :: bool
  ed_reason :: string
  ed_outcome :: "exit_outcome option"
  ed_cut :: bool
  ed_err :: "string option"
  ed_started :: bool
  ed_startAttempted :: bool
  ed_deadline :: "int option"

text \<open>The variables of the loop: which channels are live (\<open>starting\<close>, \<open>results\<close> and \<open>errs\<close>), which timers
  are set (\<open>limit\<close>, \<open>retry\<close>, \<open>stopped\<close>), what a kill was asked for, and the input that waits. The
  input handed to the writer and the signals asked of the daemon are the loop's output.\<close>

record run_state =
  rs_end :: ending
  rs_starting :: bool
  rs_waiting :: bool
  rs_limit :: bool
  rs_retry :: bool
  rs_stopped :: "int option"
  rs_asked :: string
  rs_askedOutcome :: exit_outcome
  rs_unanswered :: bool
  rs_terminatePending :: bool
  rs_pendingInput :: "control_message list"
  rs_pendingBytes :: nat
  rs_input :: "control_message list"
  rs_signals :: "string list"

text \<open>The daemon's answer to a SIGKILL: delivered, refused because the container is not running, or no answer.\<close>

datatype kill_answer = KillDelivered | KillNotRunning | KillUnanswered

text \<open>What the loop's \<open>select\<close> can receive.\<close>

datatype received =
    StartAnswered "string option"
  | InputTaken
  | Waited wait_result
  | WaitFailed string
  | LimitReached
  | RetryDue
  | StopDue
  | ContextDone
  | ControlsClosed
  | Control control_message

record run_event =
  ev_Now :: int
  ev_Done :: bool
  ev_Kill :: kill_answer
  ev_What :: received

subsection \<open>The loop\<close>

definition on_end :: "(ending \<Rightarrow> ending) \<Rightarrow> run_state \<Rightarrow> run_state" where
  "on_end f st = st\<lparr>rs_end := f (rs_end st)\<rparr>"

definition mark_killed :: "string \<Rightarrow> exit_outcome \<Rightarrow> ending \<Rightarrow> ending" where
  "mark_killed reason out_come e =
     (if ed_killed e then e else e\<lparr>ed_killed := True, ed_reason := reason, ed_outcome := Some out_come\<rparr>)"

definition run_kill :: "int \<Rightarrow> kill_answer \<Rightarrow> string \<Rightarrow> exit_outcome \<Rightarrow> run_state \<Rightarrow> run_state" where
  "run_kill now answer reason out_come st =
     (let st1 = (if ed_deadline (rs_end st) = None
                 then (on_end (\<lambda>e. e\<lparr>ed_deadline := Some (now + teardownBudget)\<rparr>) st)
                   \<lparr>rs_stopped := Some (now + stopWait), rs_asked := reason, rs_askedOutcome := out_come\<rparr>
                 else st);
          st2 = st1\<lparr>rs_signals := rs_signals st1 @ [''SIGKILL'']\<rparr>
      in case answer of
           KillDelivered \<Rightarrow> on_end (mark_killed reason out_come) st2
         | KillNotRunning \<Rightarrow> st2
         | KillUnanswered \<Rightarrow> st2\<lparr>rs_unanswered := True, rs_retry := True\<rparr>)"

definition run_terminate :: "run_state \<Rightarrow> run_state" where
  "run_terminate st = st\<lparr>rs_signals := rs_signals st @ [''SIGTERM'']\<rparr>"

definition startFailed :: "int \<Rightarrow> string \<Rightarrow> run_state \<Rightarrow> ending" where
  "startFailed now message st =
     (let e = (rs_end st)\<lparr>ed_err := Some (''Starting the sandbox: '' @ message)\<rparr>
      in if ed_deadline e = None then e\<lparr>ed_deadline := Some (now + teardownBudget)\<rparr> else e)"

definition late_start :: string where
  "late_start = TimeLimitReason @ '': context deadline exceeded''"

definition start_answered :: "int \<Rightarrow> run_event \<Rightarrow> string option \<Rightarrow> run_state \<Rightarrow> (ending, run_state) result" where
  "start_answered deadline ev err st =
     (if ev_Done ev then Inl ((rs_end st)\<lparr>ed_cut := True\<rparr>)
      else if \<not> ev_Now ev < deadline then Inl (startFailed (ev_Now ev) late_start st)
      else case err of
        Some message \<Rightarrow> Inl (startFailed (ev_Now ev) message st)
      | None \<Rightarrow>
          let st1 = (on_end (\<lambda>e. e\<lparr>ed_started := True\<rparr>) st)\<lparr>rs_starting := False, rs_waiting := True\<rparr> in
          Inr (if ed_deadline (rs_end st1) \<noteq> None \<and> \<not> ed_killed (rs_end st1)
               then run_kill (ev_Now ev) (ev_Kill ev) (rs_asked st1) (rs_askedOutcome st1) st1
               else if rs_terminatePending st1 then run_terminate st1 else st1))"

definition wait_ended :: "wait_result \<Rightarrow> run_state \<Rightarrow> ending" where
  "wait_ended r st =
     (case wr_Error r of
        Some message \<Rightarrow> (rs_end st)\<lparr>ed_err := Some (''Waiting for the sandbox: '' @ message)\<rparr>
      | None \<Rightarrow>
          let e = (rs_end st)\<lparr>ed_result := Some r\<rparr> in
          if rs_unanswered st \<and> wr_StatusCode r = sigkillStatus then mark_killed (rs_asked st) (rs_askedOutcome st) e else e)"

definition take_control :: "run_event \<Rightarrow> control_message \<Rightarrow> run_state \<Rightarrow> (ending, run_state) result" where
  "take_control ev msg st =
     (if cm_stdin msg \<noteq> None \<or> cm_eof msg then
        let bytes = (case cm_stdin msg of None \<Rightarrow> 0 | Some data \<Rightarrow> length data) in
        if 1024 \<le> length (rs_pendingInput st) \<or> 32 * 2 ^ 20 < rs_pendingBytes st + bytes
        then Inl ((rs_end st)\<lparr>ed_err := Some ''Sandbox stdin backlog exceeded''\<rparr>)
        else Inr (st\<lparr>rs_pendingInput := rs_pendingInput st @ [msg], rs_pendingBytes := rs_pendingBytes st + bytes\<rparr>)
      else if cm_signal msg = SignalTerminate then
        Inr (run_terminate (st\<lparr>rs_terminatePending := \<not> ed_started (rs_end st)\<rparr>))
      else if cm_signal msg = SignalKill then Inr (run_kill (ev_Now ev) (ev_Kill ev) [] ExitCommand st)
      else Inr st)"

definition take_input :: "run_state \<Rightarrow> run_state" where
  "take_input st =
     (case rs_pendingInput st of
        [] \<Rightarrow> st
      | msg # rest \<Rightarrow>
          st\<lparr>rs_pendingInput := rest, rs_input := rs_input st @ [msg],
             rs_pendingBytes := rs_pendingBytes st - (case cm_stdin msg of None \<Rightarrow> 0 | Some data \<Rightarrow> length data)\<rparr>)"

definition run_step :: "int \<Rightarrow> run_event \<Rightarrow> run_state \<Rightarrow> (ending, run_state) result" where
  "run_step deadline ev st =
     (case ev_What ev of
        StartAnswered err \<Rightarrow> start_answered deadline ev err st
      | InputTaken \<Rightarrow> Inr (take_input st)
      | Waited r \<Rightarrow> Inl (wait_ended r st)
      | WaitFailed message \<Rightarrow> Inl ((rs_end st)\<lparr>ed_err := Some (''Waiting for the sandbox: '' @ message)\<rparr>)
      | LimitReached \<Rightarrow>
          if \<not> ed_started (rs_end st) then Inl (startFailed (ev_Now ev) late_start st)
          else Inr (run_kill (ev_Now ev) (ev_Kill ev) TimeLimitReason ExitTimeLimit (st\<lparr>rs_limit := False\<rparr>))
      | RetryDue \<Rightarrow> Inr (run_kill (ev_Now ev) (ev_Kill ev) (rs_asked st) (rs_askedOutcome st) (st\<lparr>rs_retry := False\<rparr>))
      | StopDue \<Rightarrow>
          if \<not> ed_started (rs_end st)
          then Inl (startFailed (ev_Now ev) ''Docker did not confirm the start after a kill request'' st)
          else Inl (mark_killed (rs_asked st) (rs_askedOutcome st) (rs_end st))
      | ContextDone \<Rightarrow> Inl ((rs_end st)\<lparr>ed_cut := True\<rparr>)
      | ControlsClosed \<Rightarrow> Inl ((rs_end st)\<lparr>ed_cut := True\<rparr>)
      | Control msg \<Rightarrow> take_control ev msg st)"

text \<open>A case of \<open>select\<close> is ready only when its channel is live, has something and, for a timer, when it is due.\<close>

definition ready :: "int \<Rightarrow> run_event \<Rightarrow> run_state \<Rightarrow> bool" where
  "ready deadline ev st =
     (case ev_What ev of
        StartAnswered err \<Rightarrow> rs_starting st
      | InputTaken \<Rightarrow> rs_pendingInput st \<noteq> []
      | Waited r \<Rightarrow> rs_waiting st
      | WaitFailed message \<Rightarrow> rs_waiting st
      | LimitReached \<Rightarrow> rs_limit st \<and> deadline \<le> ev_Now ev
      | RetryDue \<Rightarrow> rs_retry st
      | StopDue \<Rightarrow> (case rs_stopped st of None \<Rightarrow> False | Some t \<Rightarrow> t \<le> ev_Now ev)
      | ContextDone \<Rightarrow> ev_Done ev
      | ControlsClosed \<Rightarrow> True
      | Control msg \<Rightarrow> True)"

fun run_loop :: "int \<Rightarrow> run_state \<Rightarrow> run_event list \<Rightarrow> ending option" where
  "run_loop deadline st [] = None"
| "run_loop deadline st (ev # evs) =
     (if ready deadline ev st
      then case run_step deadline ev st of Inl e \<Rightarrow> Some e | Inr st' \<Rightarrow> run_loop deadline st' evs
      else run_loop deadline st evs)"

definition no_ending :: ending where
  "no_ending = \<lparr>ed_result = None, ed_killed = False, ed_reason = [], ed_outcome = None, ed_cut = False, ed_err = None,
     ed_started = False, ed_startAttempted = False, ed_deadline = None\<rparr>"

definition run_start :: run_state where
  "run_start = \<lparr>rs_end = no_ending\<lparr>ed_startAttempted := True\<rparr>, rs_starting = True, rs_waiting = False, rs_limit = True, rs_retry = False,
     rs_stopped = None, rs_asked = [], rs_askedOutcome = ExitCommand, rs_unanswered = False, rs_terminatePending = False,
     rs_pendingInput = [], rs_pendingBytes = 0, rs_input = [], rs_signals = []\<rparr>"

definition prepared_run :: "bool \<Rightarrow> int \<Rightarrow> int \<Rightarrow> run_event list \<Rightarrow> ending option" where
  "prepared_run ctx_done now timeout evs =
     (if ctx_done then Some (no_ending\<lparr>ed_cut := True\<rparr>) else run_loop (now + timeout) run_start evs)"

subsection \<open>Evidence\<close>

text \<open>What is known of the sandbox: its name, image, lease (empty for none) and when the lease was granted.\<close>

record prepared_sandbox =
  ps_id :: string
  ps_name :: string
  ps_image :: string
  ps_lease :: string
  ps_granted :: int

definition hostCounts :: "counts \<Rightarrow> u64 smap" where
  "hostCounts counts = smap_of_list (map (\<lambda>(host, n). (host, word_of_int (hc_Count n))) counts)"

definition egressEvidence :: "prepared_sandbox \<Rightarrow> sandbox_record \<Rightarrow> summary \<Rightarrow> sandbox_record option" where
  "egressEvidence s record sm =
     (let late = (case sm_GatewayStarted sm of None \<Rightarrow> True | Some started \<Rightarrow> ps_granted s < started);
          r1 = (if late then record\<lparr>sr_Incomplete := True\<rparr> else record);
          r2 = (if sm_Incomplete sm then r1\<lparr>sr_Incomplete := True\<rparr> else r1)
      in MergeSandbox None (Some (r2\<lparr>sr_Egress := \<lparr>se_Allowed = hostCounts (sm_Allowed sm), se_Denied = hostCounts (sm_Denied sm),
           se_Failed = hostCounts (sm_Failed sm)\<rparr>\<rparr>)))"

text \<open>\<open>fetch\<close> is the collector's answer, \<open>None\<close> when it could not be read.\<close>

definition evidence :: "broker_config \<Rightarrow> prepared_sandbox \<Rightarrow> bool \<Rightarrow> bool \<Rightarrow> summary option \<Rightarrow> sandbox_record option" where
  "evidence c s oom oomKnown fetch =
     (let record = \<lparr>sr_ImageID = ps_image s, sr_Runtime = bc_Runtime c, sr_Runs = 1, sr_OOM = oom, sr_Incomplete = \<not> oomKnown,
            sr_Egress = \<lparr>se_Allowed = [], se_Denied = [], se_Failed = []\<rparr>\<rparr>
      in if ps_lease s = [] then Some record
         else if bc_EgressCollector c = [] then Some (record\<lparr>sr_Incomplete := True\<rparr>)
         else case fetch of
           None \<Rightarrow> Some (record\<lparr>sr_Incomplete := True\<rparr>)
         | Some sm \<Rightarrow> egressEvidence s record sm)"

subsection \<open>The report\<close>

record exit_report =
  er_Outcome :: "exit_outcome option"
  er_Code :: int
  er_OOM :: bool
  er_Killed :: bool
  er_Error :: string
  er_Sandbox :: "sandbox_record option"

text \<open>What the teardown found: whether output was cut off, else the output pump's own error; the inspected memory
  state; the collector's answer; the early revocation's failure; and the removal's failure.\<close>

record teardown =
  td_Truncated :: bool
  td_OutErr :: "string option"
  td_Inspect :: "bool option"
  td_Fetch :: "summary option"
  td_EarlyRevoke :: "string option"
  td_Removed :: "string option"

definition oomKilled :: "bool option \<Rightarrow> bool \<times> bool" where
  "oomKilled inspect = (case inspect of None \<Rightarrow> (False, False) | Some oom \<Rightarrow> (oom, True))"

definition no_report :: exit_report where
  "no_report = \<lparr>er_Outcome = None, er_Code = 0, er_OOM = False, er_Killed = False, er_Error = [], er_Sandbox = None\<rparr>"

definition mark_incomplete :: "exit_report \<Rightarrow> exit_report" where
  "mark_incomplete report = report\<lparr>er_Sandbox := map_option (\<lambda>r. r\<lparr>sr_Incomplete := True\<rparr>) (er_Sandbox report)\<rparr>"

definition cut_report :: "broker_config \<Rightarrow> prepared_sandbox \<Rightarrow> ending \<Rightarrow> teardown \<Rightarrow> exit_report" where
  "cut_report c s e td =
     no_report\<lparr>er_Outcome := Some ExitFailure, er_Killed := True, er_Error := streamClosed,
       er_Sandbox := (if ed_startAttempted e then evidence c s False False (td_Fetch td) else None)\<rparr>"

definition failed_report :: "broker_config \<Rightarrow> prepared_sandbox \<Rightarrow> ending \<Rightarrow> teardown \<Rightarrow> exit_report" where
  "failed_report c s e td =
     (let report = no_report\<lparr>er_Outcome := Some ExitFailure\<rparr> in
      if ed_startAttempted e then
        let (oom, known) = oomKilled (td_Inspect td);
            report = report\<lparr>er_Sandbox := evidence c s oom known (td_Fetch td)\<rparr>
        in if \<not> ed_started e then mark_incomplete report else report
      else report)"

definition ended_report :: "broker_config \<Rightarrow> prepared_sandbox \<Rightarrow> ending \<Rightarrow> teardown \<Rightarrow> exit_report" where
  "ended_report c s e td =
     (let (oom, known) = (case ed_result e of None \<Rightarrow> (False, False) | Some _ \<Rightarrow> oomKilled (td_Inspect td));
          code = (case ed_result e of None \<Rightarrow> 0 | Some r \<Rightarrow> wr_StatusCode r);
          report = \<lparr>er_Outcome = (if ed_killed e then ed_outcome e else Some ExitCommand), er_Code = code,
                    er_OOM = (oom \<and> code \<noteq> 0), er_Killed = ed_killed e, er_Error = ed_reason e,
                    er_Sandbox = evidence c s oom known (td_Fetch td)\<rparr>
      in if ed_killed e then report
         else if td_Truncated td
         then report\<lparr>er_Outcome := Some ExitFailure, er_Error := ''Sandbox output was cut short after the sandbox ended''\<rparr>
         else case td_OutErr td of
           Some message \<Rightarrow> report\<lparr>er_Outcome := Some ExitFailure, er_Error := ''Sandbox output failed: '' @ message\<rparr>
         | None \<Rightarrow> report)"

text \<open>The early revocation happens only for a start that was attempted and never confirmed, of a sandbox with a lease.\<close>

definition early_revoked :: "prepared_sandbox \<Rightarrow> ending \<Rightarrow> bool" where
  "early_revoked s e \<longleftrightarrow> ed_startAttempted e \<and> \<not> ed_started e \<and> ps_lease s \<noteq> []"

definition execute_report :: "broker_config \<Rightarrow> prepared_sandbox \<Rightarrow> ending \<Rightarrow> teardown \<Rightarrow> exit_report \<times> string option" where
  "execute_report c s e td =
     (let (report, failure) =
            (if ed_cut e then (cut_report c s e td, None)
             else case ed_err e of
               Some err \<Rightarrow> (failed_report c s e td, Some err)
             | None \<Rightarrow> (ended_report c s e td, None));
          report = (if early_revoked s e \<and> td_EarlyRevoke td \<noteq> None then mark_incomplete report else report)
      in case td_Removed td of
           None \<Rightarrow> (report, failure)
         | Some message \<Rightarrow>
             if ed_cut e then (report, failure)
             else case failure of
               Some err \<Rightarrow> (report, Some (err @ ''; sandbox cleanup also failed: '' @ message))
             | None \<Rightarrow> (report\<lparr>er_Outcome := Some ExitFailure, er_Killed := False, er_Error := ''Sandbox cleanup failed: '' @ message\<rparr>, None))"

text \<open>The report as the stream sends it: a failure is reported as one. Nothing is sent once the lifeline is cut or a
  write failed.\<close>

definition stream_report :: "bool \<Rightarrow> exit_report \<times> string option \<Rightarrow> exit_report option" where
  "stream_report gone outcome =
     (let (report, failure) = outcome;
          report = (case failure of
              None \<Rightarrow> report
            | Some err \<Rightarrow> no_report\<lparr>er_Outcome := Some ExitFailure, er_Error := err, er_Sandbox := er_Sandbox report\<rparr>)
      in if gone then None else Some report)"

subsection \<open>How a run can end\<close>

text \<open>A kill is asked for at the time limit or by the client.\<close>

definition kill_asked :: "run_event list \<Rightarrow> bool" where
  "kill_asked evs \<longleftrightarrow>
     list_ex (\<lambda>ev. case ev_What ev of LimitReached \<Rightarrow> True | Control msg \<Rightarrow> cm_signal msg = SignalKill | _ \<Rightarrow> False) evs"

definition limit_passed :: "int \<Rightarrow> run_event list \<Rightarrow> bool" where
  "limit_passed deadline evs \<longleftrightarrow> list_ex (\<lambda>ev. ev_What ev = LimitReached \<and> deadline \<le> ev_Now ev) evs"

text \<open>The reason and the outcome a kill is recorded with.\<close>

definition kill_ok :: "int \<Rightarrow> run_event list \<Rightarrow> string \<Rightarrow> exit_outcome \<Rightarrow> bool" where
  "kill_ok deadline evs reason out_come \<longleftrightarrow> kill_asked evs \<and>
     (reason = [] \<and> out_come = ExitCommand \<or> reason = TimeLimitReason \<and> out_come = ExitTimeLimit \<and> limit_passed deadline evs)"

text \<open>A killed ending names how it was killed; another has neither reason nor outcome.\<close>

definition killed_ok :: "int \<Rightarrow> run_event list \<Rightarrow> ending \<Rightarrow> bool" where
  "killed_ok deadline evs e \<longleftrightarrow>
     (if ed_killed e then (case ed_outcome e of None \<Rightarrow> False | Some out_come \<Rightarrow> kill_ok deadline evs (ed_reason e) out_come)
      else ed_reason e = [] \<and> ed_outcome e = None)"

definition start_seen :: "run_event list \<Rightarrow> bool" where
  "start_seen evs \<longleftrightarrow> list_ex (\<lambda>ev. ev_What ev = StartAnswered None) evs"

definition run_inv :: "int \<Rightarrow> run_event list \<Rightarrow> run_state \<Rightarrow> bool" where
  "run_inv deadline evs st \<longleftrightarrow>
     (let e = rs_end st in
      \<not> ed_cut e \<and> ed_err e = None \<and> ed_result e = None \<and> ed_startAttempted e \<and>
      (ed_started e \<longrightarrow> start_seen evs) \<and> (rs_waiting st \<longrightarrow> ed_started e) \<and> killed_ok deadline evs e \<and>
      (rs_stopped st = None \<longleftrightarrow> ed_deadline e = None) \<and> (ed_killed e \<or> rs_unanswered st \<or> rs_retry st \<longrightarrow> ed_deadline e \<noteq> None) \<and>
      (ed_deadline e \<noteq> None \<longrightarrow> kill_ok deadline evs (rs_asked st) (rs_askedOutcome st)))"

text \<open>The endings of a run: the control stream closed; a failure; or the exit the daemon reported for a container
  whose start it had confirmed, or a kill of one.\<close>

definition ending_ok :: "int \<Rightarrow> run_event list \<Rightarrow> ending \<Rightarrow> bool" where
  "ending_ok deadline evs e \<longleftrightarrow>
     killed_ok deadline evs e \<and> (ed_started e \<longrightarrow> start_seen evs) \<and>
     (ed_result e \<noteq> None \<longrightarrow> ed_started e) \<and>
     (\<not> ed_cut e \<and> ed_err e = None \<longrightarrow> ed_started e \<and>
       (case ed_result e of None \<Rightarrow> ed_killed e
        | Some r \<Rightarrow> wr_Error r = None \<and> list_ex (\<lambda>ev. ev_What ev = Waited r) evs))"

lemma asked_mono:
  "kill_asked evs \<Longrightarrow> kill_asked (evs @ evs')" "limit_passed d evs \<Longrightarrow> limit_passed d (evs @ evs')"
  "kill_ok d evs reason out_come \<Longrightarrow> kill_ok d (evs @ evs') reason out_come"
  "killed_ok d evs e \<Longrightarrow> killed_ok d (evs @ evs') e" "start_seen evs \<Longrightarrow> start_seen (evs @ evs')"
  by (auto simp: kill_asked_def limit_passed_def kill_ok_def killed_ok_def start_seen_def split: if_splits option.splits)

lemma run_inv_mono: "run_inv d evs st \<Longrightarrow> run_inv d (evs @ evs') st"
  by (auto simp: run_inv_def Let_def intro: asked_mono)

lemma mark_killed_fields [simp]:
  "ed_cut (mark_killed reason out_come e) = ed_cut e" "ed_err (mark_killed reason out_come e) = ed_err e"
  "ed_result (mark_killed reason out_come e) = ed_result e" "ed_started (mark_killed reason out_come e) = ed_started e"
  "ed_startAttempted (mark_killed reason out_come e) = ed_startAttempted e" "ed_deadline (mark_killed reason out_come e) = ed_deadline e"
  "ed_killed (mark_killed reason out_come e)"
  by (simp_all add: mark_killed_def)

lemma killed_ok_fields [simp]:
  "killed_ok d evs (e\<lparr>ed_cut := b\<rparr>) = killed_ok d evs e" "killed_ok d evs (e\<lparr>ed_err := err\<rparr>) = killed_ok d evs e"
  "killed_ok d evs (e\<lparr>ed_result := r\<rparr>) = killed_ok d evs e" "killed_ok d evs (e\<lparr>ed_started := b\<rparr>) = killed_ok d evs e"
  "killed_ok d evs (e\<lparr>ed_deadline := t\<rparr>) = killed_ok d evs e"
  by (simp_all add: killed_ok_def split: option.split)

lemma mark_killed_ok: "killed_ok d evs e \<Longrightarrow> kill_ok d evs reason out_come \<Longrightarrow> killed_ok d evs (mark_killed reason out_come e)"
  by (auto simp: killed_ok_def mark_killed_def)

lemma run_kill_inv:
  assumes "run_inv d evs st" "kill_ok d evs reason out_come"
  shows "run_inv d evs (run_kill now answer reason out_come st)"
proof -
  let ?st1 = "if ed_deadline (rs_end st) = None
     then (on_end (\<lambda>e. e\<lparr>ed_deadline := Some (now + teardownBudget)\<rparr>) st)
       \<lparr>rs_stopped := Some (now + stopWait), rs_asked := reason, rs_askedOutcome := out_come\<rparr>
     else st"
  have 1: "run_inv d evs ?st1" "ed_deadline (rs_end ?st1) \<noteq> None"
    using assms by (auto simp: run_inv_def Let_def on_end_def)
  then show ?thesis using assms(2)
    by (cases answer) (auto simp: run_kill_def Let_def run_inv_def on_end_def intro: mark_killed_ok)
qed

lemma startFailed_ok: "run_inv d evs st \<Longrightarrow> ending_ok d evs (startFailed now message st)"
  by (auto simp: run_inv_def ending_ok_def startFailed_def Let_def)

lemma cut_ok: "run_inv d evs st \<Longrightarrow> ending_ok d evs ((rs_end st)\<lparr>ed_cut := True\<rparr>)"
  by (auto simp: run_inv_def ending_ok_def Let_def)

lemma err_ok: "run_inv d evs st \<Longrightarrow> ending_ok d evs ((rs_end st)\<lparr>ed_err := Some message\<rparr>)"
  by (auto simp: run_inv_def ending_ok_def Let_def)

lemma start_answered_ok:
  assumes "run_inv d evs st" "ev_What ev = StartAnswered err" "ev \<in> set evs"
  shows "case start_answered d ev err st of Inl e \<Rightarrow> ending_ok d evs e | Inr st' \<Rightarrow> run_inv d evs st'"
proof (cases err)
  case None
  let ?st1 = "(on_end (\<lambda>e. e\<lparr>ed_started := True\<rparr>) st)\<lparr>rs_starting := False, rs_waiting := True\<rparr>"
  have "start_seen evs" using assms(2,3) None by (auto simp: start_seen_def list_ex_iff)
  with assms(1) have inv: "run_inv d evs ?st1" by (auto simp: run_inv_def Let_def on_end_def)
  moreover have "run_inv d evs (run_terminate ?st1)" using inv by (simp add: run_inv_def run_terminate_def)
  moreover have "run_inv d evs (run_kill now answer (rs_asked ?st1) (rs_askedOutcome ?st1) ?st1)"
    if "ed_deadline (rs_end ?st1) \<noteq> None" for now answer
    using run_kill_inv [OF inv] inv that by (auto simp: run_inv_def Let_def)
  ultimately show ?thesis using assms(1) None
    by (simp add: start_answered_def Let_def cut_ok startFailed_ok)
qed (use assms(1) in \<open>simp add: start_answered_def cut_ok startFailed_ok\<close>)

lemma wait_ended_ok:
  assumes "run_inv d evs st" "rs_waiting st" "ev_What ev = Waited r" "ev \<in> set evs"
  shows "ending_ok d evs (wait_ended r st)"
proof (cases "wr_Error r")
  case None
  let ?e = "(rs_end st)\<lparr>ed_result := Some r\<rparr>"
  have seen: "list_ex (\<lambda>ev. ev_What ev = Waited r) evs" using assms(3,4) by (auto simp: list_ex_iff)
  have ok: "killed_ok d evs ?e" "ed_started ?e" "start_seen evs" "ed_deadline ?e \<noteq> None \<Longrightarrow> kill_ok d evs (rs_asked st) (rs_askedOutcome st)"
    "rs_unanswered st \<Longrightarrow> ed_deadline ?e \<noteq> None"
    using assms(1,2) by (auto simp: run_inv_def Let_def)
  then show ?thesis using None seen mark_killed_ok [OF ok(1)]
    by (auto simp: wait_ended_def ending_ok_def Let_def)
qed (use err_ok [OF assms(1)] in \<open>simp add: wait_ended_def\<close>)

lemma stop_due_ok:
  assumes "run_inv d evs st" "rs_stopped st = Some t" "ed_started (rs_end st)"
  shows "ending_ok d evs (mark_killed (rs_asked st) (rs_askedOutcome st) (rs_end st))"
proof -
  have "kill_ok d evs (rs_asked st) (rs_askedOutcome st)" "killed_ok d evs (rs_end st)" "start_seen evs"
    "\<not> ed_cut (rs_end st)" "ed_err (rs_end st) = None" "ed_result (rs_end st) = None"
    using assms by (auto simp: run_inv_def Let_def)
  then show ?thesis using mark_killed_ok assms(3) by (simp add: ending_ok_def)
qed

lemma take_control_ok:
  assumes "run_inv d evs st" "ev_What ev = Control msg" "ev \<in> set evs"
  shows "case take_control ev msg st of Inl e \<Rightarrow> ending_ok d evs e | Inr st' \<Rightarrow> run_inv d evs st'"
proof -
  have "run_inv d evs (run_kill now answer [] ExitCommand st)" if "cm_signal msg = SignalKill" for now answer
  proof (rule run_kill_inv [OF assms(1)])
    show "kill_ok d evs [] ExitCommand" using assms(2,3) that by (auto simp: kill_ok_def kill_asked_def list_ex_iff intro!: bexI [of _ ev])
  qed
  moreover have "run_inv d evs (st\<lparr>rs_pendingInput := xs, rs_pendingBytes := n\<rparr>)" for xs n
    using assms(1) by (simp add: run_inv_def)
  moreover have "run_inv d evs (run_terminate (st\<lparr>rs_terminatePending := b\<rparr>))" for b
    using assms(1) by (simp add: run_inv_def run_terminate_def)
  ultimately show ?thesis using assms(1) by (simp add: take_control_def Let_def err_ok split: if_splits)
qed

lemma run_step_ok:
  assumes inv: "run_inv d evs st" and r: "ready d ev st" and ev: "ev \<in> set evs"
  shows "case run_step d ev st of Inl e \<Rightarrow> ending_ok d evs e | Inr st' \<Rightarrow> run_inv d evs st'"
proof (cases "ev_What ev")
  case (StartAnswered err)
  then show ?thesis using start_answered_ok [OF inv StartAnswered ev] by (simp add: run_step_def)
next
  case InputTaken
  then show ?thesis using inv by (auto simp: run_step_def take_input_def run_inv_def split: list.split)
next
  case (Waited r)
  then show ?thesis using wait_ended_ok [OF inv _ Waited ev] r by (simp add: run_step_def ready_def)
next
  case LimitReached
  have "kill_ok d evs TimeLimitReason ExitTimeLimit"
    using LimitReached r ev by (auto simp: kill_ok_def kill_asked_def limit_passed_def ready_def list_ex_iff intro!: bexI [of _ ev])
  moreover have "run_inv d evs (st\<lparr>rs_limit := False\<rparr>)" using inv by (simp add: run_inv_def)
  ultimately show ?thesis using LimitReached startFailed_ok [OF inv] run_kill_inv by (simp add: run_step_def)
next
  case RetryDue
  have "run_inv d evs (st\<lparr>rs_retry := False\<rparr>)" "kill_ok d evs (rs_asked st) (rs_askedOutcome st)"
    using inv r RetryDue by (auto simp: run_inv_def ready_def Let_def)
  then show ?thesis using RetryDue run_kill_inv by (simp add: run_step_def)
next
  case StopDue
  then obtain t where "rs_stopped st = Some t" using r by (auto simp: ready_def split: option.splits)
  from stop_due_ok [OF inv this] show ?thesis using StopDue startFailed_ok [OF inv] by (simp add: run_step_def)
next
  case (Control msg)
  then show ?thesis using take_control_ok [OF inv Control ev] by (simp add: run_step_def)
qed (simp_all add: run_step_def cut_ok [OF inv] err_ok [OF inv])

lemma run_loop_ok: "run_loop d st evs = Some e \<Longrightarrow> run_inv d past st \<Longrightarrow> ending_ok d (past @ evs) e"
proof (induction evs arbitrary: st past)
  case (Cons ev evs)
  have inv: "run_inv d (past @ [ev]) st" using Cons.prems(2) by (rule run_inv_mono)
  show ?case
  proof (cases "ready d ev st")
    case True
    note step = run_step_ok [OF inv True]
    show ?thesis
    proof (cases "run_step d ev st")
      case (Inl e')
      have "ending_ok d (past @ ev # evs) e'" using run_step_ok [OF run_inv_mono [OF Cons.prems(2)] True, of "ev # evs"] Inl by simp
      then show ?thesis using Inl True Cons.prems(1) by simp
    next
      case (Inr st')
      then show ?thesis using Cons.IH [of st' "past @ [ev]"] Cons.prems(1) True step by simp
    qed
  qed (use Cons.IH [of st "past @ [ev]"] Cons.prems(1) inv in simp)
qed simp

lemma run_start_inv: "run_inv d [] run_start"
  by (simp add: run_inv_def run_start_def no_ending_def killed_ok_def)

lemma prepared_run_ok: "prepared_run ctx_done now timeout evs = Some e \<Longrightarrow> ending_ok (now + timeout) evs e"
  using run_loop_ok [OF _ run_start_inv, of _ evs e] by (auto simp: prepared_run_def ending_ok_def no_ending_def killed_ok_def split: if_splits)


subsection \<open>Lemmas: evidence and reports\<close>

lemma MergeSandbox_keeps: "MergeSandbox None (Some r) = Some r' \<Longrightarrow> sr_Incomplete r' = sr_Incomplete r \<and> sr_OOM r' = sr_OOM r"
  by (auto simp: MergeSandbox_def Let_def)

lemma evidence_Some: "\<exists>r. evidence c s oom known fetch = Some r"
  by (auto simp: evidence_def egressEvidence_def Let_def MergeSandbox_def split: option.splits)

lemma evidence_complete:
  assumes "evidence c s oom known fetch = Some r" "\<not> sr_Incomplete r"
  shows "known \<and> (ps_lease s \<noteq> [] \<longrightarrow> (\<exists>sm started. fetch = Some sm \<and> \<not> sm_Incomplete sm \<and>
    sm_GatewayStarted sm = Some started \<and> started \<le> ps_granted s))"
  using assms
  by (auto simp: evidence_def egressEvidence_def Let_def dest: MergeSandbox_keeps split: if_splits option.splits)

lemma mark_incomplete_fields [simp]:
  "er_Outcome (mark_incomplete r) = er_Outcome r" "er_Killed (mark_incomplete r) = er_Killed r"
  "er_Error (mark_incomplete r) = er_Error r" "er_Code (mark_incomplete r) = er_Code r"
  "er_Sandbox (mark_incomplete r) = Some rec \<Longrightarrow> sr_Incomplete rec"
  by (auto simp: mark_incomplete_def)

text \<open>A report with the outcome of a command and no failure comes from an ending that was neither cut nor failed, after
  a confirmed removal.\<close>

lemma command_report:
  assumes "stream_report gone (execute_report c s e td) = Some r" "er_Outcome r = Some ExitCommand"
  shows "\<not> ed_cut e \<and> ed_err e = None \<and> td_Removed td = None \<and> er_Code r = er_Code (ended_report c s e td) \<and>
    er_Outcome r = er_Outcome (ended_report c s e td) \<and> er_Killed r = er_Killed (ended_report c s e td)"
proof -
  have r: "r = (case snd (execute_report c s e td) of None \<Rightarrow> fst (execute_report c s e td)
      | Some err \<Rightarrow> no_report\<lparr>er_Outcome := Some ExitFailure, er_Error := err, er_Sandbox := er_Sandbox (fst (execute_report c s e td))\<rparr>)"
    using assms(1) by (simp add: stream_report_def Let_def split_beta split: if_splits)
  with assms(2) have none: "snd (execute_report c s e td) = None" and fst: "r = fst (execute_report c s e td)"
    by (auto split: option.splits)
  from none fst assms(2) show ?thesis
    by (auto simp: execute_report_def Let_def cut_report_def no_report_def split: if_splits option.splits)
qed

lemma ended_command:
  assumes "er_Outcome (ended_report c s e td) = Some ExitCommand" "\<not> er_Killed (ended_report c s e td)"
  shows "\<not> ed_killed e \<and> \<not> td_Truncated td \<and> td_OutErr td = None"
  using assms by (auto simp: ended_report_def Let_def split: if_splits option.splits prod.splits)

lemma report_evidence:
  assumes "stream_report gone (execute_report c s e td) = Some r" "er_Sandbox r = Some rec" "\<not> sr_Incomplete rec"
  shows "\<not> ed_cut e \<and> (\<exists>oom. td_Inspect td = Some oom \<and> evidence c s oom True (td_Fetch td) = Some rec) \<and>
    (ed_started e \<or> ed_err e = None)"
proof -
  define base where "base = (if ed_cut e then cut_report c s e td else if ed_err e = None then ended_report c s e td else failed_report c s e td)"
  have "er_Sandbox r = er_Sandbox (fst (execute_report c s e td))"
    using assms(1) by (auto simp: stream_report_def Let_def split: prod.splits if_splits option.splits)
  moreover have "er_Sandbox (fst (execute_report c s e td)) = er_Sandbox base \<or>
      er_Sandbox (fst (execute_report c s e td)) = er_Sandbox (mark_incomplete base)"
    by (auto simp: execute_report_def base_def Let_def split: option.splits)
  ultimately have rec: "er_Sandbox base = Some rec" using assms(2,3) mark_incomplete_fields(5) by metis
  have "\<not> sr_Incomplete rec \<Longrightarrow> evidence c s oom known fetch = Some rec \<Longrightarrow> known" for oom known fetch
    using evidence_complete by blast
  with rec assms(3) show ?thesis
    by (auto simp: base_def cut_report_def ended_report_def failed_report_def oomKilled_def no_report_def Let_def
        dest: mark_incomplete_fields(5) split: if_splits option.splits)
qed

subsection \<open>Properties\<close>

text \<open>C15: the loop that serves a sandbox ends only in one of four ways: its control stream closed, a failure, the exit
  the daemon reported for a container whose start it had confirmed, or a kill. A sandbox is marked killed only after
  a kill was asked for, by the client or at the time limit, and only a deadline that has passed is reported as the
  time limit.\<close>

theorem sandbox_run_ends:
  assumes "prepared_run ctx_done now timeout evs = Some e"
  shows "(\<not> ed_cut e \<and> ed_err e = None \<longrightarrow> start_seen evs \<and>
      (case ed_result e of None \<Rightarrow> ed_killed e
       | Some r \<Rightarrow> wr_Error r = None \<and> list_ex (\<lambda>ev. ev_What ev = Waited r) evs)) \<and>
    (ed_killed e \<longrightarrow> kill_asked evs \<and> (ed_outcome e = Some ExitCommand \<and> ed_reason e = [] \<or>
      ed_outcome e = Some ExitTimeLimit \<and> ed_reason e = TimeLimitReason \<and> limit_passed (now + timeout) evs))"
  using prepared_run_ok [OF assms]
  by (auto simp: ending_ok_def killed_ok_def kill_ok_def split: if_splits option.splits)

text \<open>C16: a report of a command's own exit can be relied on: the daemon confirmed the start and reported the exit
  status the report carries, every byte of output was delivered before it, and the container and its egress lease
  are gone.\<close>

theorem command_report_vouched:
  assumes "prepared_run ctx_done now timeout evs = Some e" "stream_report gone (execute_report c s e td) = Some r"
    "er_Outcome r = Some ExitCommand" "\<not> er_Killed r"
  shows "start_seen evs \<and> (\<exists>w. list_ex (\<lambda>ev. ev_What ev = Waited w) evs \<and> wr_Error w = None \<and> er_Code r = wr_StatusCode w) \<and>
    \<not> td_Truncated td \<and> td_OutErr td = None \<and> td_Removed td = None"
proof -
  note cr = command_report [OF assms(2,3)]
  have ended: "\<not> ed_killed e" "\<not> td_Truncated td" "td_OutErr td = None"
    using ended_command [of c s e td] cr assms(3,4) by auto
  have run: "ending_ok (now + timeout) evs e" using prepared_run_ok [OF assms(1)] .
  then obtain w where w: "ed_result e = Some w" using cr ended by (auto simp: ending_ok_def split: option.splits)
  have "er_Code r = wr_StatusCode w" using cr w by (auto simp: ended_report_def Let_def split: prod.splits option.splits if_splits)
  then show ?thesis using run cr ended w by (auto simp: ending_ok_def)
qed

text \<open>C17: a sandbox record that is not marked incomplete is complete: the start of the sandbox was confirmed, its memory
  state was read, and, when it held an egress lease, its counts are a finished summary of a gateway that was running
  before the lease was granted.\<close>

theorem complete_record_vouched:
  assumes "prepared_run ctx_done now timeout evs = Some e" "stream_report gone (execute_report c s e td) = Some r"
    "er_Sandbox r = Some rec" "\<not> sr_Incomplete rec"
  shows "start_seen evs \<and> td_Inspect td \<noteq> None \<and>
    (ps_lease s \<noteq> [] \<longrightarrow> (\<exists>sm started. td_Fetch td = Some sm \<and> \<not> sm_Incomplete sm \<and>
      sm_GatewayStarted sm = Some started \<and> started \<le> ps_granted s))"
proof -
  from report_evidence [OF assms(2-4)] obtain oom where cut: "\<not> ed_cut e" and oom: "td_Inspect td = Some oom"
    and ev: "evidence c s oom True (td_Fetch td) = Some rec" and st: "ed_started e \<or> ed_err e = None" by blast
  have "start_seen evs" using prepared_run_ok [OF assms(1)] cut st by (auto simp: ending_ok_def)
  then show ?thesis using evidence_complete [OF ev assms(4)] oom by simp
qed

subsection \<open>Witnesses\<close>

definition quiet_event :: "int \<Rightarrow> received \<Rightarrow> run_event" where
  "quiet_event now what = \<lparr>ev_Now = now, ev_Done = False, ev_Kill = KillUnanswered, ev_What = what\<rparr>"

definition plain_exit :: wait_result where
  "plain_exit = \<lparr>wr_StatusCode = 3, wr_Error = None\<rparr>"

definition sample_events :: "run_event list" where
  "sample_events = [quiet_event 1 (StartAnswered None), quiet_event 2 (Waited plain_exit)]"

definition sample_ending :: ending where
  "sample_ending = no_ending\<lparr>ed_startAttempted := True, ed_started := True, ed_result := Some plain_exit\<rparr>"

definition sample_teardown :: teardown where
  "sample_teardown = \<lparr>td_Truncated = False, td_OutErr = None, td_Inspect = Some True,
     td_Fetch = Some (emptySummary\<lparr>sm_GatewayStarted := Some 0\<rparr>), td_EarlyRevoke = None, td_Removed = None\<rparr>"

definition sample_sandbox :: prepared_sandbox where
  "sample_sandbox = \<lparr>ps_id = ''c1'', ps_name = ''octomus-1'', ps_image = ''sha256:1'', ps_lease = ''token'', ps_granted = 1\<rparr>"

definition collecting_settings :: broker_config where
  "collecting_settings = sample_settings\<lparr>bc_EgressCollector := ''/run/collector.sock''\<rparr>"

lemma sample_ran: "prepared_run False 0 60 sample_events = Some sample_ending"
  by (simp add: prepared_run_def sample_events_def quiet_event_def ready_def run_step_def run_start_def start_answered_def
      wait_ended_def plain_exit_def sample_ending_def on_end_def no_ending_def)

definition sample_report :: exit_report where
  "sample_report = fst (execute_report collecting_settings sample_sandbox sample_ending sample_teardown)"

lemma sample_reported:
  "stream_report False (execute_report collecting_settings sample_sandbox sample_ending sample_teardown) = Some sample_report"
  "er_Outcome sample_report = Some ExitCommand" "\<not> er_Killed sample_report" "er_Code sample_report = 3"
  by (simp_all add: sample_report_def stream_report_def execute_report_def ended_report_def sample_ending_def no_ending_def
      sample_teardown_def plain_exit_def oomKilled_def early_revoked_def)

theorem sandbox_run_ends_witness: "start_seen sample_events \<and> list_ex (\<lambda>ev. ev_What ev = Waited plain_exit) sample_events"
  using sandbox_run_ends [OF sample_ran] by (simp add: sample_ending_def no_ending_def)

theorem command_report_vouched_witness:
  "\<exists>w. list_ex (\<lambda>ev. ev_What ev = Waited w) sample_events \<and> wr_StatusCode w = 3"
  using command_report_vouched [OF sample_ran sample_reported(1-3)] sample_reported(4) by auto

theorem complete_record_vouched_witness:
  "\<exists>sm started. td_Fetch sample_teardown = Some sm \<and> \<not> sm_Incomplete sm \<and> sm_GatewayStarted sm = Some started \<and> started \<le> 1"
proof -
  obtain rec where rec: "er_Sandbox sample_report = Some rec" "\<not> sr_Incomplete rec"
    by (simp add: sample_report_def execute_report_def ended_report_def sample_ending_def no_ending_def evidence_def egressEvidence_def
        sample_teardown_def plain_exit_def oomKilled_def early_revoked_def collecting_settings_def sample_sandbox_def emptySummary_def
        MergeSandbox_def Let_def)
  show ?thesis using complete_record_vouched [OF sample_ran sample_reported(1) rec] by (simp add: sample_sandbox_def)
qed

end
