(* ===== verification/Broker_Slots.thy ===== *)
theory Broker_Slots
  imports Broker_Run
begin

text \<open>
  The broker's books (\<open>internal/sandbox/broker/\<close>: \<open>broker.go\<close>, the preparation in \<open>lifecycle.go\<close> and
  \<open>teardown.go\<close>, with the lease operations of \<open>internal/egress/lease.go\<close>): the admission slots, the sandboxes
  whose removal is not confirmed, their egress leases, and the goroutines that remove them or retry. Beside the
  broker's own state stand the containers the Docker daemon has and the creates it has not answered, which may still
  complete; the daemon's answers are arguments of the operations. The state machine interleaves requests, removals,
  retries, the shutdown sweep and the daemon in any order. The theorem shows that a slot is given back only for a
  container that is gone: the containers that exist or may yet appear never exceed the configured maximum, and no
  egress lease is left without an owner that still has to revoke it.
\<close>

subsection \<open>Leases\<close>

definition ProxyURL :: "string \<Rightarrow> string \<Rightarrow> string" where
  "ProxyURL proxy token = ''http://'' @ proxyUser @ '':'' @ token @ ''@'' @ proxy"

definition ProxyEnv :: "string \<Rightarrow> string \<Rightarrow> string list" where
  "ProxyEnv proxy token =
     (let address = ProxyURL proxy token in
      [''HTTP_PROXY='' @ address, ''http_proxy='' @ address, ''HTTPS_PROXY='' @ address, ''https_proxy='' @ address,
       ''ALL_PROXY='' @ address, ''all_proxy='' @ address, ''NO_PROXY=localhost,127.0.0.1,::1'', ''no_proxy=localhost,127.0.0.1,::1''])"

text \<open>A lease is needed by every sandbox but the version probe, when the deployment has a gateway; the containment probe
  holds a runner's.\<close>

definition lease_kind :: "broker_config \<Rightarrow> sandbox_plan \<Rightarrow> string option" where
  "lease_kind c p =
     (if bc_LeaseDir c = [] then None
      else if pl_kind p \<noteq> KindProbe then Some (pl_kind p)
      else if pl_probe p = ProbeContainment then Some KindRunner
      else None)"

subsection \<open>State\<close>

text \<open>A prepared sandbox: the slot its \<open>release\<close> gives back, its container's ID, empty while creation is unconfirmed,
  its name and its lease, empty for none.\<close>

record sandbox_entry =
  sb_slot :: nat
  sb_id :: string
  sb_name :: string
  sb_lease :: string

text \<open>What a removal still has to do, and the container ID it has seen.\<close>

record cleanup =
  cu_lease :: bool
  cu_container :: bool
  cu_id :: string

text \<open>A goroutine that removes a sandbox: the first removal, or a reaper.\<close>

record removal =
  rm_Reaper :: bool
  rm_Entry :: sandbox_entry
  rm_Cleanup :: cleanup

record broker_state =
  bk_Max :: nat
  bk_Slots :: "nat list"
  bk_NextSlot :: nat
  bk_Admitted :: "nat list"
  bk_Live :: "sandbox_entry list"
  bk_Begun :: "nat list"
  bk_Removals :: "removal list"
  bk_Leases :: "string list"
  bk_Closing :: bool
  bk_Names :: "string list"
  bk_Tokens :: "string list"
  bk_Docker :: "(string \<times> string) list"
  bk_Creating :: "string list"

definition newBroker :: "nat \<Rightarrow> broker_state" where
  "newBroker limit = \<lparr>bk_Max = limit, bk_Slots = [], bk_NextSlot = 0, bk_Admitted = [], bk_Live = [], bk_Begun = [], bk_Removals = [],
     bk_Leases = [], bk_Closing = False, bk_Names = [], bk_Tokens = [], bk_Docker = [], bk_Creating = []\<rparr>"

subsection \<open>Admission\<close>

text \<open>\<open>acquire\<close> takes a slot of the channel, or waits: it returns nothing when the context ended first or, at
  shutdown, when the closing case was chosen. The slot's release works once.\<close>

definition acquire :: "bool \<Rightarrow> bool \<Rightarrow> broker_state \<Rightarrow> nat option \<times> broker_state" where
  "acquire ctx_done closing_chosen b =
     (if ctx_done \<or> bk_Closing b \<and> closing_chosen \<or> bk_Max b \<le> length (bk_Slots b) then (None, b)
      else (Some (bk_NextSlot b),
            b\<lparr>bk_Slots := bk_Slots b @ [bk_NextSlot b], bk_Admitted := bk_Admitted b @ [bk_NextSlot b], bk_NextSlot := bk_NextSlot b + 1\<rparr>))"

definition release :: "nat \<Rightarrow> broker_state \<Rightarrow> broker_state" where
  "release slot b = b\<lparr>bk_Slots := removeAll slot (bk_Slots b), bk_Admitted := removeAll slot (bk_Admitted b)\<rparr>"

definition forget :: "sandbox_entry \<Rightarrow> broker_state \<Rightarrow> broker_state" where
  "forget s b = release (sb_slot s) (b\<lparr>bk_Live := filter (\<lambda>x. sb_slot x \<noteq> sb_slot s) (bk_Live b)\<rparr>)"

subsection \<open>The daemon\<close>

text \<open>A removal by ID or name that is confirmed leaves no such container.\<close>

definition docker_removed :: "string \<Rightarrow> broker_state \<Rightarrow> broker_state" where
  "docker_removed key b = b\<lparr>bk_Docker := filter (\<lambda>(name, i). name \<noteq> key \<and> i \<noteq> key) (bk_Docker b)\<rparr>"

datatype remove_answer = Removed | RemoveNotFound | RemoveInProgress | RemoveFailed string

text \<open>\<open>containerRemove\<close> asks again while another removal is in progress; the list is what the daemon answers until
  the context ends.\<close>

fun containerRemove :: "remove_answer list \<Rightarrow> string option" where
  "containerRemove [] = Some ''Waiting for the removal of the container''"
| "containerRemove (Removed # rest) = None"
| "containerRemove (RemoveNotFound # rest) = None"
| "containerRemove (RemoveInProgress # rest) = containerRemove rest"
| "containerRemove (RemoveFailed message # rest) = Some message"

text \<open>One attempt: what inspecting the reserved name answers, asked only while no ID is known, and what removing
  answers.\<close>

record removal_attempt =
  ra_Inspect :: "string option"
  ra_Remove :: "remove_answer list"

definition removeContainer :: "removal_attempt \<Rightarrow> string \<Rightarrow> string option \<times> string" where
  "removeContainer a i =
     (if i = [] then
        case ra_Inspect a of
          None \<Rightarrow> (Some ''Creation of the sandbox is unconfirmed'', i)
        | Some seen \<Rightarrow>
            if seen = [] then (Some ''Docker Engine reported an unconfirmed sandbox without an ID'', i)
            else (containerRemove (ra_Remove a), seen)
      else (containerRemove (ra_Remove a), i))"

text \<open>An inspection answers with a container the daemon has under that name.\<close>

definition attempt_true :: "sandbox_entry \<Rightarrow> string \<Rightarrow> removal_attempt \<Rightarrow> broker_state \<Rightarrow> bool" where
  "attempt_true s i a b \<longleftrightarrow>
     (case ra_Inspect a of None \<Rightarrow> True | Some seen \<Rightarrow> i = [] \<longrightarrow> seen = [] \<or> (sb_name s, seen) \<in> set (bk_Docker b))"

subsection \<open>Preparation\<close>

text \<open>The daemon's answer to a create: an ID; a rejection as malformed or conflicting, which owns no container; another
  refusal, which may leave a partial container; or none, after which the container may still appear.\<close>

datatype create_answer = Created string | CreateRejected | CreateRefused "string option" | CreateUnanswered

definition entry_of_create :: "create_answer \<Rightarrow> nat \<Rightarrow> string \<Rightarrow> string \<Rightarrow> sandbox_entry" where
  "entry_of_create answer slot name lease =
     \<lparr>sb_slot = slot,
      sb_id = (case answer of Created i \<Rightarrow> i | CreateRejected \<Rightarrow> [] | CreateRefused _ \<Rightarrow> name | CreateUnanswered \<Rightarrow> []),
      sb_name = name, sb_lease = lease\<rparr>"

definition docker_create :: "create_answer \<Rightarrow> string \<Rightarrow> broker_state \<Rightarrow> broker_state" where
  "docker_create answer name b =
     (case answer of
        Created i \<Rightarrow> b\<lparr>bk_Docker := bk_Docker b @ [(name, i)]\<rparr>
      | CreateRejected \<Rightarrow> b
      | CreateRefused partial \<Rightarrow> (case partial of None \<Rightarrow> b | Some i \<Rightarrow> b\<lparr>bk_Docker := bk_Docker b @ [(name, i)]\<rparr>)
      | CreateUnanswered \<Rightarrow> b\<lparr>bk_Creating := bk_Creating b @ [name]\<rparr>)"

definition revoke :: "bool \<Rightarrow> string \<Rightarrow> broker_state \<Rightarrow> broker_state" where
  "revoke ok lease b = (if ok then b\<lparr>bk_Leases := removeAll lease (bk_Leases b)\<rparr> else b)"

text \<open>\<open>prepare\<close> from the granted lease on, for an admitted slot; a sandbox that is refused or not wanted any more is
  left to \<open>remove\<close>.\<close>

definition prepare_created :: "create_answer \<Rightarrow> bool \<Rightarrow> nat \<Rightarrow> string \<Rightarrow> string \<Rightarrow> broker_state \<Rightarrow> broker_state" where
  "prepare_created answer revoke_ok slot name lease b =
     (let s = entry_of_create answer slot name lease;
          b0 = b\<lparr>bk_Names := bk_Names b @ [name], bk_Tokens := bk_Tokens b @ (if lease = [] then [] else [lease]),
                 bk_Leases := bk_Leases b @ (if lease = [] then [] else [lease])\<rparr>;
          b1 = docker_create answer name b0
      in case answer of
           CreateRejected \<Rightarrow>
             let b2 = (if lease = [] then b1 else revoke revoke_ok lease b1);
                 b3 = (if lease \<noteq> [] \<and> \<not> revoke_ok
                       then b2\<lparr>bk_Removals := bk_Removals b2 @
                         [\<lparr>rm_Reaper = True, rm_Entry = s, rm_Cleanup = \<lparr>cu_lease = True, cu_container = False, cu_id = []\<rparr>\<rparr>]\<rparr>
                       else b2)
             in release slot b3
         | _ \<Rightarrow> b1\<lparr>bk_Live := bk_Live b1 @ [s], bk_Admitted := removeAll slot (bk_Admitted b1)\<rparr>)"

subsection \<open>Removal\<close>

definition remove_begin :: "bool \<Rightarrow> sandbox_entry \<Rightarrow> broker_state \<Rightarrow> broker_state" where
  "remove_begin revoke_ok s b =
     (let b1 = (if sb_lease s = [] then b else revoke revoke_ok (sb_lease s) b)
      in b1\<lparr>bk_Begun := sb_slot s # bk_Begun b1,
            bk_Removals := bk_Removals b1 @ [\<lparr>rm_Reaper = False, rm_Entry = s,
              rm_Cleanup = \<lparr>cu_lease = (sb_lease s \<noteq> [] \<and> \<not> revoke_ok), cu_container = True, cu_id = sb_id s\<rparr>\<rparr>]\<rparr>)"

text \<open>What an attempt at the container does to a cleanup that still has to remove it.\<close>

definition attempt_container :: "removal_attempt \<Rightarrow> sandbox_entry \<Rightarrow> cleanup \<Rightarrow> broker_state \<Rightarrow> cleanup \<times> broker_state" where
  "attempt_container a s cu b =
     (case removeContainer a (cu_id cu) of
        (None, i) \<Rightarrow> (cu\<lparr>cu_container := False, cu_id := i\<rparr>, forget s (docker_removed i b))
      | (Some _, i) \<Rightarrow> (cu\<lparr>cu_id := i\<rparr>, b))"

definition pending :: "cleanup \<Rightarrow> bool" where
  "pending cu \<longleftrightarrow> cu_lease cu \<or> cu_container cu"

text \<open>One turn of the loop of \<open>remove\<close>: the removal ends when the container is gone, and when the context ends with
  it unconfirmed; what is pending then goes to a reaper.\<close>

definition remove_turn :: "removal_attempt \<Rightarrow> bool \<Rightarrow> removal \<Rightarrow> broker_state \<Rightarrow> removal option \<times> broker_state" where
  "remove_turn a ctx_done r b =
     (let (cu, b1) = attempt_container a (rm_Entry r) (rm_Cleanup r) b in
      if cu_container cu \<and> \<not> ctx_done then (Some (r\<lparr>rm_Cleanup := cu\<rparr>), b1)
      else if pending cu then (Some (r\<lparr>rm_Reaper := True, rm_Cleanup := cu\<rparr>), b1)
      else (None, b1))"

definition reap_turn :: "bool \<Rightarrow> removal_attempt \<Rightarrow> removal \<Rightarrow> broker_state \<Rightarrow> removal option \<times> broker_state" where
  "reap_turn revoke_ok a r b =
     (let s = rm_Entry r; cu = rm_Cleanup r;
          (cu1, b1) = (if cu_lease cu then (cu\<lparr>cu_lease := \<not> revoke_ok\<rparr>, revoke revoke_ok (sb_lease s) b) else (cu, b));
          (cu2, b2) = (if cu_container cu1 then attempt_container a s cu1 b1 else (cu1, b1))
      in (if pending cu2 then Some (r\<lparr>rm_Cleanup := cu2\<rparr>) else None, b2))"

definition removal_turn :: "bool \<Rightarrow> removal_attempt \<Rightarrow> bool \<Rightarrow> removal \<Rightarrow> broker_state \<Rightarrow> removal option \<times> broker_state" where
  "removal_turn revoke_ok a ctx_done r b = (if rm_Reaper r then reap_turn revoke_ok a r b else remove_turn a ctx_done r b)"

subsection \<open>The sweep\<close>

text \<open>The containers the list answered, each with whether its removal was confirmed; the owners of a removed container
  are forgotten.\<close>

definition owners :: "string \<times> string \<Rightarrow> broker_state \<Rightarrow> sandbox_entry list" where
  "owners container b = filter (\<lambda>s. sb_id s = snd container \<or> sb_name s = fst container) (bk_Live b)"

definition sweep_container :: "(string \<times> string) \<times> bool \<Rightarrow> broker_state \<Rightarrow> broker_state" where
  "sweep_container listed b =
     (let (container, ok) = listed in
      if ok then fold forget (owners container b) (docker_removed (snd container) b) else b)"

definition sweep :: "((string \<times> string) \<times> bool) list \<Rightarrow> (string \<Rightarrow> bool) \<Rightarrow> broker_state \<Rightarrow> broker_state" where
  "sweep listed cleared b =
     (let b1 = fold sweep_container listed b in b1\<lparr>bk_Leases := filter (\<lambda>l. \<not> cleared l) (bk_Leases b1)\<rparr>)"

subsection \<open>The machine\<close>

text \<open>The daemon's container IDs are not empty and are never one of the broker's names, which all begin alike; names and
  lease tokens are drawn at random and never drawn twice. The final sweep is one step: the containers it lists are those
  the daemon has when it begins.\<close>

definition docker_id :: "string \<Rightarrow> bool" where
  "docker_id i \<longleftrightarrow> i \<noteq> [] \<and> \<not> has_prefix i ''octomus-''"

definition create_ids :: "create_answer \<Rightarrow> bool" where
  "create_ids answer \<longleftrightarrow>
     (case answer of Created i \<Rightarrow> docker_id i | CreateRefused (Some i) \<Rightarrow> docker_id i | _ \<Rightarrow> True)"

definition replace_removal :: "nat \<Rightarrow> removal option \<Rightarrow> broker_state \<Rightarrow> broker_state" where
  "replace_removal k r b =
     b\<lparr>bk_Removals := take k (bk_Removals b) @ (case r of None \<Rightarrow> [] | Some r \<Rightarrow> [r]) @ drop (Suc k) (bk_Removals b)\<rparr>"

inductive broker_step :: "broker_state \<Rightarrow> broker_state \<Rightarrow> bool" where
  acquires: "acquire ctx_done closing_chosen b = (r, b') \<Longrightarrow> broker_step b b'"
| drops: "slot \<in> set (bk_Admitted b) \<Longrightarrow> broker_step b (release slot b)"
| prepares: "slot \<in> set (bk_Admitted b) \<Longrightarrow> has_prefix name ''octomus-'' \<Longrightarrow> name \<notin> set (bk_Names b) \<Longrightarrow>
    lease \<notin> set (bk_Tokens b) \<Longrightarrow> create_ids answer \<Longrightarrow>
    broker_step b (prepare_created answer revoke_ok slot name lease b)"
| revokes_early: "s \<in> set (bk_Live b) \<Longrightarrow> sb_lease s \<noteq> [] \<Longrightarrow> broker_step b (revoke revoke_ok (sb_lease s) b)"
| removes: "s \<in> set (bk_Live b) \<Longrightarrow> sb_slot s \<notin> set (bk_Begun b) \<Longrightarrow> broker_step b (remove_begin revoke_ok s b)"
| turns: "k < length (bk_Removals b) \<Longrightarrow> r = bk_Removals b ! k \<Longrightarrow> attempt_true (rm_Entry r) (cu_id (rm_Cleanup r)) a b \<Longrightarrow>
    removal_turn revoke_ok a ctx_done r b = (r', b1) \<Longrightarrow> broker_step b (replace_removal k r' b1)"
| reaper_stops: "bk_Closing b \<Longrightarrow> k < length (bk_Removals b) \<Longrightarrow> rm_Reaper (bk_Removals b ! k) \<Longrightarrow> broker_step b (replace_removal k None b)"
| closes: "broker_step b (b\<lparr>bk_Closing := True\<rparr>)"
| sweeps: "bk_Closing b \<Longrightarrow> \<forall>l \<in> set listed. fst l \<in> set (bk_Docker b) \<Longrightarrow> broker_step b (sweep listed cleared b)"
| completes: "name \<in> set (bk_Creating b) \<Longrightarrow> docker_id i \<Longrightarrow>
    broker_step b (b\<lparr>bk_Docker := bk_Docker b @ [(name, i)], bk_Creating := removeAll name (bk_Creating b)\<rparr>)"
| abandons: "broker_step b (b\<lparr>bk_Creating := removeAll name (bk_Creating b)\<rparr>)"
| vanishes: "broker_step b (docker_removed key b)"

inductive broker_reachable :: "nat \<Rightarrow> broker_state \<Rightarrow> bool" for limit where
  fresh: "broker_reachable limit (newBroker limit)"
| step: "broker_reachable limit b \<Longrightarrow> broker_step b b' \<Longrightarrow> broker_reachable limit b'"

subsection \<open>The invariant\<close>

text \<open>A known ID settles what the daemon has under a sandbox's name: no create of it is open, and a container of that name
  has that ID, or is the partial container removed by name.\<close>

definition id_settles :: "broker_state \<Rightarrow> sandbox_entry \<Rightarrow> string \<Rightarrow> bool" where
  "id_settles b s i \<longleftrightarrow> i \<noteq> [] \<longrightarrow> sb_name s \<notin> set (bk_Creating b) \<and>
     (\<forall>i'. (sb_name s, i') \<in> set (bk_Docker b) \<longrightarrow> i' = i \<or> i = sb_name s)"

definition slots_ok :: "broker_state \<Rightarrow> bool" where
  "slots_ok b \<longleftrightarrow> distinct (bk_Slots b) \<and> length (bk_Slots b) \<le> bk_Max b \<and> (\<forall>n \<in> set (bk_Slots b). n < bk_NextSlot b) \<and>
     set (bk_Admitted b) \<subseteq> set (bk_Slots b)"

definition entry_ok :: "broker_state \<Rightarrow> sandbox_entry \<Rightarrow> bool" where
  "entry_ok b s \<longleftrightarrow> sb_slot s \<in> set (bk_Slots b) \<and> sb_slot s \<notin> set (bk_Admitted b) \<and> sb_name s \<in> set (bk_Names b) \<and>
     has_prefix (sb_name s) ''octomus-'' \<and> sb_lease s \<in> insert [] (set (bk_Tokens b)) \<and> id_settles b s (sb_id s)"

definition live_ok :: "broker_state \<Rightarrow> bool" where
  "live_ok b \<longleftrightarrow> distinct (map sb_slot (bk_Live b)) \<and> distinct (map sb_name (bk_Live b)) \<and> (\<forall>s \<in> set (bk_Live b). entry_ok b s)"

definition docker_ok :: "broker_state \<Rightarrow> bool" where
  "docker_ok b \<longleftrightarrow> distinct (map fst (bk_Docker b) @ bk_Creating b) \<and>
     set (map fst (bk_Docker b) @ bk_Creating b) \<subseteq> sb_name ` set (bk_Live b) \<and> (\<forall>c \<in> set (bk_Docker b). docker_id (snd c))"

definition removal_ok :: "broker_state \<Rightarrow> removal \<Rightarrow> bool" where
  "removal_ok b r \<longleftrightarrow>
     (let s = rm_Entry r; cu = rm_Cleanup r in
      sb_lease s \<in> insert [] (set (bk_Tokens b)) \<and> (\<not> cu_lease cu \<longrightarrow> sb_lease s \<notin> set (bk_Leases b)) \<and>
      (\<not> rm_Reaper r \<longrightarrow> cu_container cu) \<and>
      (cu_container cu \<longrightarrow> sb_slot s < bk_NextSlot b \<and> sb_slot s \<notin> set (bk_Admitted b) \<and> sb_name s \<in> set (bk_Names b) \<and>
         id_settles b s (cu_id cu) \<and> (\<forall>x \<in> set (bk_Live b). sb_slot x = sb_slot s \<longrightarrow> x = s)))"

definition lease_owned :: "broker_state \<Rightarrow> string \<Rightarrow> bool" where
  "lease_owned b l \<longleftrightarrow> (\<exists>s \<in> set (bk_Live b). sb_lease s = l) \<or>
     (\<exists>r \<in> set (bk_Removals b). sb_lease (rm_Entry r) = l \<and> cu_lease (rm_Cleanup r))"

definition leases_ok :: "broker_state \<Rightarrow> bool" where
  "leases_ok b \<longleftrightarrow> set (bk_Leases b) \<subseteq> set (bk_Tokens b) \<and> [] \<notin> set (bk_Leases b) \<and>
     (\<not> bk_Closing b \<longrightarrow> (\<forall>l \<in> set (bk_Leases b). lease_owned b l))"

definition broker_inv :: "broker_state \<Rightarrow> bool" where
  "broker_inv b \<longleftrightarrow> slots_ok b \<and> live_ok b \<and> docker_ok b \<and> (\<forall>r \<in> set (bk_Removals b). removal_ok b r) \<and> leases_ok b"

lemmas inv_defs = broker_inv_def slots_ok_def live_ok_def docker_ok_def leases_ok_def

lemma inv_new: "broker_inv (newBroker limit)"
  by (simp add: inv_defs newBroker_def)

text \<open>What a step leaves of each part.\<close>

lemma id_settles_mono:
  assumes "id_settles b s i" "sb_name s \<in> set (bk_Creating b') \<Longrightarrow> sb_name s \<in> set (bk_Creating b)"
    "\<And>i'. (sb_name s, i') \<in> set (bk_Docker b') \<Longrightarrow> (sb_name s, i') \<in> set (bk_Docker b)"
  shows "id_settles b' s i"
  using assms by (auto simp: id_settles_def)

lemma entry_ok_mono:
  assumes "entry_ok b s" "sb_slot s \<in> set (bk_Slots b')" "sb_slot s \<notin> set (bk_Admitted b')" "set (bk_Names b) \<subseteq> set (bk_Names b')"
    "set (bk_Tokens b) \<subseteq> set (bk_Tokens b')" "id_settles b s (sb_id s) \<Longrightarrow> id_settles b' s (sb_id s)"
  shows "entry_ok b' s"
  using assms by (auto simp: entry_ok_def)

lemma removal_ok_mono:
  assumes "removal_ok b r" "set (bk_Tokens b) \<subseteq> set (bk_Tokens b')"
    "\<And>l. l \<in> set (bk_Leases b') \<Longrightarrow> l \<in> set (bk_Leases b) \<or> l \<notin> insert [] (set (bk_Tokens b))"
    "bk_NextSlot b \<le> bk_NextSlot b'" "\<And>n. n \<in> set (bk_Admitted b') \<Longrightarrow> n \<in> set (bk_Admitted b) \<or> bk_NextSlot b \<le> n"
    "set (bk_Names b) \<subseteq> set (bk_Names b')"
    "\<And>i. sb_name (rm_Entry r) \<in> set (bk_Names b) \<Longrightarrow> id_settles b (rm_Entry r) i \<Longrightarrow> id_settles b' (rm_Entry r) i"
    "\<And>x. x \<in> set (bk_Live b') \<Longrightarrow> x \<in> set (bk_Live b) \<or> sb_slot x \<in> set (bk_Admitted b)"
  shows "removal_ok b' r"
proof -
  have "sb_lease (rm_Entry r) \<notin> set (bk_Leases b')" if "\<not> cu_lease (rm_Cleanup r)"
    using assms(1,3) that by (auto simp: removal_ok_def Let_def)
  moreover have "sb_slot (rm_Entry r) \<notin> set (bk_Admitted b')" if "cu_container (rm_Cleanup r)"
    using assms(1,5) that by (fastforce simp: removal_ok_def Let_def)
  moreover have "\<forall>x \<in> set (bk_Live b'). sb_slot x = sb_slot (rm_Entry r) \<longrightarrow> x = rm_Entry r" if "cu_container (rm_Cleanup r)"
    using assms(1,8) that by (metis removal_ok_def)
  ultimately show ?thesis using assms(1,2,4,6,7) by (auto simp: removal_ok_def Let_def)
qed

lemma lease_owned_mono:
  "lease_owned b l \<Longrightarrow> set (bk_Live b) \<subseteq> set (bk_Live b') \<Longrightarrow> set (bk_Removals b) \<subseteq> set (bk_Removals b') \<Longrightarrow> lease_owned b' l"
  by (auto simp: lease_owned_def)

lemma inv_acquire:
  assumes "broker_inv b" "acquire d ch b = (r, b')"
  shows "broker_inv b'"
proof (cases "b' = b")
  case False
  then have b': "b' = b\<lparr>bk_Slots := bk_Slots b @ [bk_NextSlot b], bk_Admitted := bk_Admitted b @ [bk_NextSlot b], bk_NextSlot := bk_NextSlot b + 1\<rparr>"
    and room: "length (bk_Slots b) < bk_Max b"
    using assms(2) by (auto simp: acquire_def split: if_splits)
  have slots: "slots_ok b'" using assms(1) room by (auto simp: b' broker_inv_def slots_ok_def less_Suc_eq)
  have "entry_ok b' s" if "entry_ok b s" for s
    using that assms(1) by (intro entry_ok_mono [OF that]) (auto simp: b' entry_ok_def inv_defs id_settles_def)
  moreover have "removal_ok b' r" if "removal_ok b r" for r
    by (rule removal_ok_mono [OF that]) (auto simp: b' id_settles_def)
  moreover have "lease_owned b' l = lease_owned b l" for l by (simp add: b' lease_owned_def)
  ultimately show ?thesis using assms(1) slots by (auto simp: b' inv_defs)
qed (use assms in simp)

lemma slots_ok_release: "slots_ok b \<Longrightarrow> slots_ok (release slot b)"
  by (auto simp: release_def slots_ok_def distinct_removeAll removeAll_filter_not_eq intro: le_trans [OF length_filter_le])

lemma inv_drop:
  assumes "broker_inv b" "slot \<in> set (bk_Admitted b)"
  shows "broker_inv (release slot b)"
proof -
  have "entry_ok (release slot b) s" if "entry_ok b s" for s
    using that assms(2) by (intro entry_ok_mono [OF that]) (auto simp: release_def entry_ok_def id_settles_def)
  moreover have "removal_ok (release slot b) r" if "removal_ok b r" for r
    by (rule removal_ok_mono [OF that]) (auto simp: release_def id_settles_def)
  moreover have "lease_owned (release slot b) l = lease_owned b l" for l by (simp add: release_def lease_owned_def)
  moreover have "slots_ok (release slot b)" using slots_ok_release assms(1) by (simp add: broker_inv_def)
  moreover have "docker_ok (release slot b) = docker_ok b" "bk_Live (release slot b) = bk_Live b" "bk_Removals (release slot b) = bk_Removals b"
    "bk_Leases (release slot b) = bk_Leases b" "bk_Tokens (release slot b) = bk_Tokens b" "bk_Closing (release slot b) = bk_Closing b"
    by (simp_all add: release_def docker_ok_def)
  ultimately show ?thesis using assms(1) by (simp add: broker_inv_def live_ok_def leases_ok_def)
qed

text \<open>Steps of the daemon alone.\<close>

lemma inv_docker:
  assumes "broker_inv b" and b': "b' = b\<lparr>bk_Docker := dk, bk_Creating := cr\<rparr>" and "docker_ok b'"
    and "\<And>s i. id_settles b s i \<Longrightarrow> id_settles b' s i"
  shows "broker_inv b'"
proof -
  have "entry_ok b' s" if "entry_ok b s" for s
    using that assms(4) by (intro entry_ok_mono [OF that]) (auto simp: b' entry_ok_def)
  moreover have "removal_ok b' r" if "removal_ok b r" for r
    by (rule removal_ok_mono [OF that]) (auto simp: b' intro: assms(4) [unfolded b'])
  moreover have "lease_owned b' l = lease_owned b l" for l by (simp add: b' lease_owned_def)
  ultimately show ?thesis using assms(1,3) by (auto simp: inv_defs b')
qed

lemma inv_complete:
  assumes "broker_inv b" "name \<in> set (bk_Creating b)" "docker_id i"
  shows "broker_inv (b\<lparr>bk_Docker := bk_Docker b @ [(name, i)], bk_Creating := removeAll name (bk_Creating b)\<rparr>)"
  using assms by (intro inv_docker [OF assms(1) refl]) (auto simp: inv_defs id_settles_def distinct_removeAll)

lemma inv_abandon: "broker_inv b \<Longrightarrow> broker_inv (b\<lparr>bk_Creating := removeAll name (bk_Creating b)\<rparr>)"
  by (rule inv_docker [where dk = "bk_Docker b" and cr = "removeAll name (bk_Creating b)"])
    (auto simp: inv_defs id_settles_def distinct_removeAll)

lemma inv_removed: "broker_inv b \<Longrightarrow> broker_inv (docker_removed key b)"
  by (rule inv_docker [where cr = "bk_Creating b" and dk = "filter (\<lambda>(name, i). name \<noteq> key \<and> i \<noteq> key) (bk_Docker b)"])
    (auto simp: docker_removed_def inv_defs id_settles_def distinct_map intro: inj_on_subset)

lemma inv_close: "broker_inv b \<Longrightarrow> broker_inv (b\<lparr>bk_Closing := True\<rparr>)"
  by (auto simp: inv_defs entry_ok_def removal_ok_def id_settles_def)

text \<open>Forgetting a sandbox whose container is gone.\<close>

lemma inv_forget:
  assumes inv: "broker_inv b" and gone: "sb_name s \<notin> fst ` set (bk_Docker b)" "sb_name s \<notin> set (bk_Creating b)"
    and same: "\<And>x. x \<in> set (bk_Live b) \<Longrightarrow> sb_slot x = sb_slot s \<Longrightarrow> sb_name x = sb_name s"
    and lease: "\<And>x. x \<in> set (bk_Live b) \<Longrightarrow> sb_slot x = sb_slot s \<Longrightarrow> sb_lease x \<in> set (bk_Leases b) \<Longrightarrow> \<not> bk_Closing b \<Longrightarrow>
      \<exists>r \<in> set (bk_Removals b). sb_lease (rm_Entry r) = sb_lease x \<and> cu_lease (rm_Cleanup r)"
  shows "broker_inv (forget s b)"
proof -
  let ?b = "forget s b"
  have slots: "slots_ok ?b" using inv slots_ok_release [of "b\<lparr>bk_Live := filter (\<lambda>x. sb_slot x \<noteq> sb_slot s) (bk_Live b)\<rparr>"]
    by (simp add: broker_inv_def forget_def slots_ok_def)
  have entry: "entry_ok ?b x" if "entry_ok b x" "sb_slot x \<noteq> sb_slot s" for x
    using that by (auto simp: forget_def release_def entry_ok_def id_settles_def)
  have removal: "removal_ok ?b r" if "removal_ok b r" for r
    by (rule removal_ok_mono [OF that]) (auto simp: forget_def release_def id_settles_def)
  have live: "live_ok ?b" using inv entry by (auto simp: broker_inv_def live_ok_def forget_def release_def distinct_map inj_on_filter_key_eq intro: inj_on_subset)
  have "set (map fst (bk_Docker b) @ bk_Creating b) \<subseteq> sb_name ` set (bk_Live ?b)"
  proof
    fix n assume n: "n \<in> set (map fst (bk_Docker b) @ bk_Creating b)"
    then obtain x where x: "x \<in> set (bk_Live b)" "n = sb_name x" using inv by (auto simp: broker_inv_def docker_ok_def)
    then have "sb_slot x \<noteq> sb_slot s" using same [of x] gone n by (auto simp: image_iff)
    with x show "n \<in> sb_name ` set (bk_Live ?b)" by (auto simp: forget_def release_def)
  qed
  with inv have docker: "docker_ok ?b" by (auto simp: broker_inv_def docker_ok_def forget_def release_def)
  have "leases_ok ?b"
    using inv lease unfolding broker_inv_def leases_ok_def lease_owned_def by (fastforce simp: forget_def release_def)
  with slots live docker removal inv show ?thesis by (auto simp: broker_inv_def forget_def release_def)
qed

lemma inv_revoke:
  assumes "broker_inv b"
  shows "broker_inv (revoke ok lease b)"
proof -
  have "removal_ok (revoke ok lease b) r" if "removal_ok b r" for r
    by (rule removal_ok_mono [OF that]) (auto simp: revoke_def id_settles_def split: if_splits)
  moreover have "entry_ok (revoke ok lease b) s = entry_ok b s" for s by (simp add: revoke_def entry_ok_def id_settles_def)
  moreover have "lease_owned (revoke ok lease b) l = lease_owned b l" for l by (simp add: revoke_def lease_owned_def)
  ultimately show ?thesis using assms by (auto simp: inv_defs revoke_def split: if_splits)
qed

text \<open>An attempt at the container of a removal that still has to remove it.\<close>

lemma docker_unique:
  assumes "docker_ok b" "(n, i) \<in> set (bk_Docker b)"
  shows "n \<notin> set (bk_Creating b)" "\<forall>i'. (n, i') \<in> set (bk_Docker b) \<longrightarrow> i' = i" "docker_id i"
proof -
  have d: "distinct (map fst (bk_Docker b))" "fst ` set (bk_Docker b) \<inter> set (bk_Creating b) = {}"
    using assms(1) by (simp_all add: docker_ok_def)
  have "n \<in> fst ` set (bk_Docker b)" using assms(2) by (force simp: image_iff)
  then show "n \<notin> set (bk_Creating b)" using d(2) by blast
  show "\<forall>i'. (n, i') \<in> set (bk_Docker b) \<longrightarrow> i' = i" using eq_key_imp_eq_value [OF d(1)] assms(2) by blast
  show "docker_id i" using assms by (force simp: docker_ok_def)
qed

lemma removeContainer_settles:
  assumes inv: "broker_inv b" and settles: "id_settles b s i" and true: "attempt_true s i a b"
    and res: "removeContainer a i = (err, i')"
  shows "id_settles b s i'" "err = None \<Longrightarrow> i' \<noteq> []"
proof -
  have seen: "id_settles b s v" if "(sb_name s, v) \<in> set (bk_Docker b)" for v
    using docker_unique [OF _ that] inv by (simp add: broker_inv_def id_settles_def)
  show "id_settles b s i'" "err = None \<Longrightarrow> i' \<noteq> []"
    using res settles true seen by (auto simp: removeContainer_def attempt_true_def split: if_splits option.splits)
qed

lemma attempt_inv:
  assumes inv: "broker_inv b" and ok: "removal_ok b r" and cu: "cu_container (rm_Cleanup r)"
    and true: "attempt_true (rm_Entry r) (cu_id (rm_Cleanup r)) a b"
    and lease: "cu_lease (rm_Cleanup r) \<Longrightarrow> \<exists>q \<in> set (bk_Removals b). sb_lease (rm_Entry q) = sb_lease (rm_Entry r) \<and> cu_lease (rm_Cleanup q)"
    and res: "attempt_container a (rm_Entry r) (rm_Cleanup r) b = (cu', b1)"
  shows "broker_inv b1 \<and> (cu_container cu' \<or> rm_Reaper q \<longrightarrow> removal_ok b1 (q\<lparr>rm_Entry := rm_Entry r, rm_Cleanup := cu'\<rparr>)) \<and>
    bk_Removals b1 = bk_Removals b \<and> bk_Leases b1 = bk_Leases b \<and> bk_Closing b1 = bk_Closing b \<and> cu_lease cu' = cu_lease (rm_Cleanup r)"
proof -
  let ?s = "rm_Entry r" and ?cu = "rm_Cleanup r"
  obtain err i where rc: "removeContainer a (cu_id ?cu) = (err, i)" by force
  have settles: "id_settles b ?s (cu_id ?cu)" using ok cu by (simp add: removal_ok_def Let_def)
  note i = removeContainer_settles [OF inv settles true rc]
  show ?thesis
  proof (cases err)
    case (Some message)
    then have eq: "cu' = ?cu\<lparr>cu_id := i\<rparr>" "b1 = b" using res rc by (simp_all add: attempt_container_def)
    have "removal_ok b (q\<lparr>rm_Entry := ?s, rm_Cleanup := cu'\<rparr>)" using ok cu i(1) by (simp add: eq removal_ok_def Let_def)
    then show ?thesis using inv by (simp add: eq)
  next
    case None
    then have eq: "cu' = ?cu\<lparr>cu_container := False, cu_id := i\<rparr>" "b1 = forget ?s (docker_removed i b)"
      using res rc by (simp_all add: attempt_container_def)
    let ?d = "docker_removed i b"
    have d: "broker_inv ?d" using inv by (rule inv_removed)
    have gone: "sb_name ?s \<notin> fst ` set (bk_Docker ?d)" "sb_name ?s \<notin> set (bk_Creating ?d)"
      using i None by (auto simp: id_settles_def docker_removed_def)
    have same: "x = ?s" if "x \<in> set (bk_Live ?d)" "sb_slot x = sb_slot ?s" for x
      using ok cu that by (simp add: removal_ok_def Let_def docker_removed_def)
    have free: "sb_lease ?s \<notin> set (bk_Leases b)" if "\<not> cu_lease ?cu" using ok that by (simp add: removal_ok_def Let_def)
    have "broker_inv b1" unfolding eq
      by (rule inv_forget [OF d gone]) (use same lease free in \<open>auto simp: docker_removed_def\<close>)
    moreover have "removal_ok b1 (q\<lparr>rm_Entry := ?s, rm_Cleanup := cu'\<rparr>)" if "rm_Reaper q"
      using ok that by (simp add: eq removal_ok_def Let_def forget_def release_def docker_removed_def)
    ultimately show ?thesis by (simp add: eq forget_def release_def docker_removed_def)
  qed
qed

text \<open>Putting back what a turn leaves of a removal.\<close>

lemma inv_replace:
  assumes inv: "broker_inv b" and k: "k < length (bk_Removals b)" and ok: "\<And>q. r' = Some q \<Longrightarrow> removal_ok b q"
    and lease: "cu_lease (rm_Cleanup (bk_Removals b ! k)) \<Longrightarrow> sb_lease (rm_Entry (bk_Removals b ! k)) \<in> set (bk_Leases b) \<Longrightarrow>
      \<not> bk_Closing b \<Longrightarrow> \<exists>q. r' = Some q \<and> sb_lease (rm_Entry q) = sb_lease (rm_Entry (bk_Removals b ! k)) \<and> cu_lease (rm_Cleanup q)"
  shows "broker_inv (replace_removal k r' b)"
proof -
  let ?b = "replace_removal k r' b"
  have rs: "bk_Removals ?b = take k (bk_Removals b) @ (case r' of None \<Rightarrow> [] | Some r \<Rightarrow> [r]) @ drop (Suc k) (bk_Removals b)"
    by (simp add: replace_removal_def)
  have kept: "set (bk_Removals ?b) \<subseteq> set (bk_Removals b) \<union> set_option r'"
    using set_take_subset [of k "bk_Removals b"] set_drop_subset [of "Suc k" "bk_Removals b"]
    by (auto simp: rs split: option.splits)
  have same: "removal_ok ?b q = removal_ok b q" "entry_ok ?b s = entry_ok b s" for q s
    by (simp_all add: replace_removal_def removal_ok_def entry_ok_def id_settles_def)
  have all: "set (bk_Removals b) \<subseteq> insert (bk_Removals b ! k) (set (take k (bk_Removals b)) \<union> set (drop (Suc k) (bk_Removals b)))"
    using k by (metis Un_insert_right id_take_nth_drop list.simps(15) set_append subset_refl)
  have "lease_owned ?b l" if l: "lease_owned b l" "l \<in> set (bk_Leases b)" "\<not> bk_Closing b" for l
  proof (cases "\<exists>s \<in> set (bk_Live b). sb_lease s = l")
    case False
    then obtain q where q: "q \<in> set (bk_Removals b)" "sb_lease (rm_Entry q) = l" "cu_lease (rm_Cleanup q)"
      using l(1) by (auto simp: lease_owned_def)
    with all lease [OF _ _ l(3)] l(2) have "\<exists>q \<in> set (bk_Removals ?b). sb_lease (rm_Entry q) = l \<and> cu_lease (rm_Cleanup q)"
      by (auto simp: rs)
    then show ?thesis by (auto simp: lease_owned_def)
  qed (simp add: lease_owned_def replace_removal_def)
  then have "leases_ok ?b" using inv by (simp add: broker_inv_def leases_ok_def replace_removal_def)
  moreover have "slots_ok ?b" "live_ok ?b" "docker_ok ?b" using inv same(2)
    by (simp_all add: broker_inv_def slots_ok_def live_ok_def docker_ok_def replace_removal_def)
  moreover have "removal_ok ?b q" if "q \<in> set (bk_Removals ?b)" for q
    using that kept ok inv unfolding same by (auto simp: broker_inv_def)
  ultimately show ?thesis by (simp add: broker_inv_def)
qed

lemma removal_ok_lease:
  "removal_ok b r \<Longrightarrow> (\<not> l \<Longrightarrow> sb_lease (rm_Entry r) \<notin> set (bk_Leases b)) \<Longrightarrow>
    removal_ok b (r\<lparr>rm_Cleanup := (rm_Cleanup r)\<lparr>cu_lease := l\<rparr>\<rparr>)"
  by (simp add: removal_ok_def Let_def)

lemma removal_turn_inv:
  assumes inv: "broker_inv b" and k: "k < length (bk_Removals b)" and r: "r = bk_Removals b ! k"
    and true: "attempt_true (rm_Entry r) (cu_id (rm_Cleanup r)) a b"
    and res: "removal_turn revoke_ok a ctx_done r b = (r', b1)"
  shows "broker_inv (replace_removal k r' b1)"
proof -
  let ?s = "rm_Entry r" and ?cu = "rm_Cleanup r"
  have mem: "r \<in> set (bk_Removals b)" using k r by simp
  then have ok: "removal_ok b r" using inv by (simp add: broker_inv_def)
  show ?thesis
  proof (cases "rm_Reaper r")
    case False
    have cu: "cu_container ?cu" using ok False by (simp add: removal_ok_def Let_def)
    obtain cu' b' where at: "attempt_container a ?s ?cu b = (cu', b')" by force
    have step: "broker_inv b'" "\<And>q. cu_container cu' \<or> rm_Reaper q \<Longrightarrow> removal_ok b' (q\<lparr>rm_Entry := ?s, rm_Cleanup := cu'\<rparr>)"
      "bk_Removals b' = bk_Removals b" "cu_lease cu' = cu_lease ?cu"
      using attempt_inv [OF inv ok cu true _ at] mem by blast+
    have b1: "b1 = b'" and r': "r' = (if cu_container cu' \<and> \<not> ctx_done then Some (r\<lparr>rm_Cleanup := cu'\<rparr>)
        else if pending cu' then Some (r\<lparr>rm_Reaper := True, rm_Cleanup := cu'\<rparr>) else None)"
      using res False at by (auto simp: removal_turn_def remove_turn_def split: if_splits)
    have "removal_ok b' (r\<lparr>rm_Cleanup := cu'\<rparr>)" if "cu_container cu'" using step(2) [of r] that by simp
    moreover have "removal_ok b' (r\<lparr>rm_Reaper := True, rm_Cleanup := cu'\<rparr>)" using step(2) [of "r\<lparr>rm_Reaper := True\<rparr>"] by simp
    ultimately show ?thesis unfolding b1
      by (intro inv_replace [OF step(1)]) (use k step(3,4) r in \<open>auto simp: r' pending_def split: if_splits\<close>)
  next
    case True
    define b0 where "b0 = (if cu_lease ?cu then revoke revoke_ok (sb_lease ?s) b else b)"
    define cu1 where "cu1 = (if cu_lease ?cu then ?cu\<lparr>cu_lease := \<not> revoke_ok\<rparr> else ?cu)"
    have inv1: "broker_inv b0" using inv inv_revoke by (simp add: b0_def)
    have rs1: "bk_Removals b0 = bk_Removals b" "bk_Docker b0 = bk_Docker b" by (simp_all add: b0_def revoke_def)
    have old: "removal_ok b0 r" using inv1 mem rs1 by (simp add: broker_inv_def)
    have ok1: "removal_ok b0 (r\<lparr>rm_Cleanup := cu1\<rparr>)"
    proof (cases "cu_lease ?cu")
      case True
      then show ?thesis using removal_ok_lease [OF old, of "\<not> revoke_ok"] by (simp add: cu1_def b0_def revoke_def)
    qed (use old in \<open>simp add: cu1_def\<close>)
    have fields: "cu_id cu1 = cu_id ?cu" "cu_lease cu1 \<Longrightarrow> cu_lease ?cu" by (simp_all add: cu1_def split: if_splits)
    have gone: "sb_lease ?s \<notin> set (bk_Leases b0)" if "cu_lease ?cu" "\<not> cu_lease cu1"
      using that by (simp add: cu1_def b0_def revoke_def)
    obtain cu2 b2 where at: "(if cu_container cu1 then attempt_container a ?s cu1 b0 else (cu1, b0)) = (cu2, b2)" by force
    have step: "broker_inv b2 \<and> removal_ok b2 (r\<lparr>rm_Cleanup := cu2\<rparr>) \<and> bk_Removals b2 = bk_Removals b \<and>
      cu_lease cu2 = cu_lease cu1 \<and> bk_Leases b2 = bk_Leases b0"
    proof (cases "cu_container cu1")
      case c: True
      have 1: "attempt_container a (rm_Entry (r\<lparr>rm_Cleanup := cu1\<rparr>)) (rm_Cleanup (r\<lparr>rm_Cleanup := cu1\<rparr>)) b0 = (cu2, b2)"
        using at c by simp
      have 2: "attempt_true (rm_Entry (r\<lparr>rm_Cleanup := cu1\<rparr>)) (cu_id (rm_Cleanup (r\<lparr>rm_Cleanup := cu1\<rparr>))) a b0"
        using true fields(1) rs1(2) by (simp add: attempt_true_def split: option.splits)
      have 3: "\<exists>q \<in> set (bk_Removals b0). sb_lease (rm_Entry q) = sb_lease (rm_Entry (r\<lparr>rm_Cleanup := cu1\<rparr>)) \<and> cu_lease (rm_Cleanup q)"
        if "cu_lease (rm_Cleanup (r\<lparr>rm_Cleanup := cu1\<rparr>))"
        using that fields(2) mem rs1(1) by (intro bexI [of _ r]) simp_all
      show ?thesis using attempt_inv [OF inv1 ok1 _ 2 3 1, of r] c True rs1(1) by simp
    qed (use at inv1 ok1 rs1 in simp)
    have b1: "b1 = b2" and r': "r' = (if pending cu2 then Some (r\<lparr>rm_Cleanup := cu2\<rparr>) else None)"
      using res True at unfolding removal_turn_def reap_turn_def Let_def b0_def cu1_def by (auto split: if_splits)
    show ?thesis unfolding b1
    proof (rule inv_replace)
      show "broker_inv b2" "k < length (bk_Removals b2)" using step k by simp_all
      show "removal_ok b2 q" if "r' = Some q" for q using that step by (simp add: r' split: if_splits)
      show "\<exists>q. r' = Some q \<and> sb_lease (rm_Entry q) = sb_lease (rm_Entry (bk_Removals b2 ! k)) \<and> cu_lease (rm_Cleanup q)"
        if "cu_lease (rm_Cleanup (bk_Removals b2 ! k))" "sb_lease (rm_Entry (bk_Removals b2 ! k)) \<in> set (bk_Leases b2)"
        using that step gone r by (auto simp: r' pending_def)
    qed
  qed
qed

lemma inv_reaper_stops:
  "broker_inv b \<Longrightarrow> bk_Closing b \<Longrightarrow> k < length (bk_Removals b) \<Longrightarrow> broker_inv (replace_removal k None b)"
  by (rule inv_replace) simp_all

lemma inv_remove_begin:
  assumes inv: "broker_inv b" and s: "s \<in> set (bk_Live b)"
  shows "broker_inv (remove_begin revoke_ok s b)"
proof -
  define b1 where "b1 = (if sb_lease s = [] then b else revoke revoke_ok (sb_lease s) b)"
  have inv1: "broker_inv b1" using inv inv_revoke by (simp add: b1_def)
  have live: "bk_Live b1 = bk_Live b" by (simp add: b1_def revoke_def)
  define r where "r = \<lparr>rm_Reaper = False, rm_Entry = s,
      rm_Cleanup = \<lparr>cu_lease = (sb_lease s \<noteq> [] \<and> \<not> revoke_ok), cu_container = True, cu_id = sb_id s\<rparr>\<rparr>"
  have eq: "remove_begin revoke_ok s b = b1\<lparr>bk_Begun := sb_slot s # bk_Begun b1, bk_Removals := bk_Removals b1 @ [r]\<rparr>" (is "_ = ?b")
    by (simp add: remove_begin_def b1_def r_def Let_def)
  have same: "removal_ok ?b q = removal_ok b1 q" "entry_ok ?b x = entry_ok b1 x" for q x
    by (simp_all add: removal_ok_def entry_ok_def id_settles_def)
  have entry: "entry_ok b1 s" using inv1 s live by (simp add: broker_inv_def live_ok_def)
  have "\<forall>x \<in> set (bk_Live b1). sb_slot x = sb_slot s \<longrightarrow> x = s"
    using inv1 s live by (auto simp: broker_inv_def live_ok_def distinct_map inj_on_def)
  moreover have "sb_slot s < bk_NextSlot b1" using inv1 entry by (simp add: broker_inv_def slots_ok_def entry_ok_def)
  moreover have "sb_lease s \<notin> set (bk_Leases b1)" if "sb_lease s = [] \<or> revoke_ok"
    using that inv1 by (auto simp: b1_def revoke_def broker_inv_def leases_ok_def split: if_splits)
  ultimately have "removal_ok b1 r" using entry by (auto simp: removal_ok_def r_def entry_ok_def)
  moreover have "lease_owned b1 l \<Longrightarrow> lease_owned ?b l" for l by (rule lease_owned_mono) auto
  ultimately show ?thesis using inv1 unfolding eq
    by (simp add: broker_inv_def live_ok_def same) (auto simp: slots_ok_def docker_ok_def leases_ok_def)
qed

text \<open>A sweep touches only containers the daemon listed.\<close>

definition listed_ok :: "string \<times> string \<Rightarrow> broker_state \<Rightarrow> bool" where
  "listed_ok c b \<longleftrightarrow> docker_id (snd c) \<and> fst c \<notin> set (bk_Creating b) \<and> (\<forall>i. (fst c, i) \<in> set (bk_Docker b) \<longrightarrow> i = snd c)"

lemma forget_keeps:
  "bk_Docker (forget s b) = bk_Docker b" "bk_Creating (forget s b) = bk_Creating b" "bk_Closing (forget s b) = bk_Closing b"
  "set (bk_Live (forget s b)) \<subseteq> set (bk_Live b)"
  by (auto simp: forget_def release_def)

lemma inv_forget_all:
  assumes "broker_inv b" "bk_Closing b" "\<forall>s \<in> set ss. sb_name s \<notin> fst ` set (bk_Docker b) \<and> sb_name s \<notin> set (bk_Creating b) \<and>
    (\<forall>x \<in> set (bk_Live b). sb_slot x = sb_slot s \<longrightarrow> x = s)"
  shows "broker_inv (fold forget ss b) \<and> bk_Closing (fold forget ss b) \<and> bk_Docker (fold forget ss b) = bk_Docker b \<and>
    bk_Creating (fold forget ss b) = bk_Creating b"
  using assms
proof (induction ss arbitrary: b)
  case (Cons s ss)
  have "broker_inv (forget s b)" by (rule inv_forget [OF Cons.prems(1)]) (use Cons.prems in auto)
  moreover have "\<forall>x \<in> set (bk_Live (forget s b)). sb_slot x = sb_slot q \<longrightarrow> x = q" if "q \<in> set ss" for q
    using that Cons.prems(3) forget_keeps(4) [of s b] by auto
  ultimately show ?case using Cons.IH [of "forget s b"] Cons.prems(2,3) by (simp add: forget_keeps)
qed simp

lemma inv_sweep_container:
  assumes inv: "broker_inv b" "bk_Closing b" "listed_ok c b"
  shows "broker_inv (sweep_container (c, ok) b) \<and> bk_Closing (sweep_container (c, ok) b) \<and>
    set (bk_Docker (sweep_container (c, ok) b)) \<subseteq> set (bk_Docker b) \<and> bk_Creating (sweep_container (c, ok) b) = bk_Creating b"
proof -
  let ?d = "docker_removed (snd c) b"
  have d: "broker_inv ?d" "bk_Closing ?d" using inv inv_removed by (simp_all add: docker_removed_def)
  have "sb_name s \<notin> fst ` set (bk_Docker ?d) \<and> sb_name s \<notin> set (bk_Creating ?d) \<and> (\<forall>x \<in> set (bk_Live ?d). sb_slot x = sb_slot s \<longrightarrow> x = s)"
    if s: "s \<in> set (owners c b)" for s
  proof -
    have live: "s \<in> set (bk_Live b)" "sb_id s = snd c \<or> sb_name s = fst c" using s by (auto simp: owners_def)
    have entry: "entry_ok b s" using live(1) inv(1) by (simp add: broker_inv_def live_ok_def)
    have "snd c \<noteq> []" "snd c \<noteq> sb_name s" using inv(3) entry by (auto simp: listed_ok_def docker_id_def entry_ok_def)
    then have "sb_name s \<notin> set (bk_Creating b)" "\<forall>i. (sb_name s, i) \<in> set (bk_Docker b) \<longrightarrow> i = snd c"
      using live(2) entry inv(3) by (auto simp: entry_ok_def id_settles_def listed_ok_def)
    moreover have "\<forall>x \<in> set (bk_Live b). sb_slot x = sb_slot s \<longrightarrow> x = s"
      using inv(1) live(1) by (auto simp: broker_inv_def live_ok_def distinct_map inj_on_def)
    ultimately show ?thesis by (auto simp: docker_removed_def)
  qed
  then have "broker_inv (fold forget (owners c b) ?d) \<and> bk_Closing (fold forget (owners c b) ?d) \<and>
      bk_Docker (fold forget (owners c b) ?d) = bk_Docker ?d \<and> bk_Creating (fold forget (owners c b) ?d) = bk_Creating ?d"
    using inv_forget_all [OF d] by blast
  then show ?thesis using inv by (auto simp: sweep_container_def docker_removed_def)
qed

lemma inv_clear:
  assumes "broker_inv b" "bk_Closing b"
  shows "broker_inv (b\<lparr>bk_Leases := filter (\<lambda>l. \<not> cleared l) (bk_Leases b)\<rparr>)" (is "broker_inv ?c")
proof -
  have "removal_ok ?c r" if "removal_ok b r" for r
    by (rule removal_ok_mono [OF that]) (auto simp: id_settles_def)
  moreover have "entry_ok ?c s = entry_ok b s" for s by (simp add: entry_ok_def id_settles_def)
  ultimately show ?thesis using assms by (auto simp: inv_defs)
qed

lemma inv_sweep:
  assumes "broker_inv b" "bk_Closing b" "\<forall>l \<in> set listed. fst l \<in> set (bk_Docker b)"
  shows "broker_inv (sweep listed cleared b)"
proof -
  have fold: "broker_inv b' \<Longrightarrow> bk_Closing b' \<Longrightarrow> \<forall>l \<in> set ls. listed_ok (fst l) b' \<Longrightarrow>
      broker_inv (fold sweep_container ls b') \<and> bk_Closing (fold sweep_container ls b')" for ls b'
  proof (induction ls arbitrary: b')
    case (Cons l ls)
    obtain c ok where l: "l = (c, ok)" by (cases l)
    note step = inv_sweep_container [OF Cons.prems(1,2), of c ok]
    have "listed_ok (fst q) (sweep_container l b')" if "q \<in> set ls" for q
      using that step Cons.prems(3) l by (auto simp: listed_ok_def)
    then show ?case using Cons.IH [of "sweep_container l b'"] step Cons.prems(3) l by simp
  qed simp
  have "listed_ok (fst l) b" if "l \<in> set listed" for l
    using docker_unique [of b "fst (fst l)" "snd (fst l)"] assms(1,3) that by (simp add: broker_inv_def listed_ok_def)
  then have b1: "broker_inv (fold sweep_container listed b)" "bk_Closing (fold sweep_container listed b)"
    using fold [OF assms(1,2)] by blast+
  then show ?thesis unfolding sweep_def Let_def by (rule inv_clear)
qed

text \<open>Preparing a sandbox under a fresh name and, if any, a fresh lease.\<close>

lemma inv_prepare:
  assumes inv: "broker_inv b" and slot: "slot \<in> set (bk_Admitted b)" and name: "has_prefix name ''octomus-''" "name \<notin> set (bk_Names b)"
    and lease: "lease \<notin> set (bk_Tokens b)" and ids: "create_ids answer"
  shows "broker_inv (prepare_created answer revoke_ok slot name lease b)"
proof -
  define s where "s = entry_of_create answer slot name lease"
  define ls where "ls = (if lease = [] then [] else [lease])"
  define b0 where "b0 = b\<lparr>bk_Names := bk_Names b @ [name], bk_Tokens := bk_Tokens b @ ls, bk_Leases := bk_Leases b @ ls\<rparr>"
  have ls: "[] \<notin> set ls" "set ls \<inter> set (bk_Tokens b) = {}" using lease by (auto simp: ls_def)
  have names: "sb_name ` set (bk_Live b) \<subseteq> set (bk_Names b)" using inv by (auto simp: broker_inv_def live_ok_def entry_ok_def)
  then have fresh: "name \<notin> fst ` set (bk_Docker b)" "name \<notin> set (bk_Creating b)" "name \<notin> sb_name ` set (bk_Live b)"
    using inv name(2) unfolding broker_inv_def docker_ok_def set_append set_map by blast+
  have prep: "prepare_created answer revoke_ok slot name lease b =
      (let b1 = docker_create answer name b0 in
       case answer of
         CreateRejected \<Rightarrow>
           let b2 = (if lease = [] then b1 else revoke revoke_ok lease b1);
               b3 = (if lease \<noteq> [] \<and> \<not> revoke_ok
                     then b2\<lparr>bk_Removals := bk_Removals b2 @
                       [\<lparr>rm_Reaper = True, rm_Entry = s, rm_Cleanup = \<lparr>cu_lease = True, cu_container = False, cu_id = []\<rparr>\<rparr>]\<rparr>
                     else b2)
           in release slot b3
       | _ \<Rightarrow> b1\<lparr>bk_Live := bk_Live b1 @ [s], bk_Admitted := removeAll slot (bk_Admitted b1)\<rparr>)"
    unfolding prepare_created_def Let_def s_def b0_def ls_def by (rule refl)
  show ?thesis
  proof (cases "answer = CreateRejected")
    case True
    define q where "q = \<lparr>rm_Reaper = True, rm_Entry = s, rm_Cleanup = \<lparr>cu_lease = True, cu_container = False, cu_id = []\<rparr>\<rparr>"
    define b3 where "b3 = b0\<lparr>bk_Leases := (if revoke_ok then removeAll lease (bk_Leases b0) else bk_Leases b0),
        bk_Removals := bk_Removals b0 @ (if lease \<noteq> [] \<and> \<not> revoke_ok then [q] else [])\<rparr>"
    have eq: "prepare_created answer revoke_ok slot name lease b = release slot b3"
    proof (cases "lease = []")
      case t: True
      have "removeAll [] (bk_Leases b) = bk_Leases b" using inv by (simp add: broker_inv_def leases_ok_def removeAll_id)
      then show ?thesis unfolding prep using True t by (simp add: docker_create_def b3_def b0_def ls_def)
    qed (unfold prep, use True in \<open>simp add: docker_create_def revoke_def b3_def q_def\<close>)
    have g: "bk_Slots b3 = bk_Slots b" "bk_Max b3 = bk_Max b" "bk_NextSlot b3 = bk_NextSlot b" "bk_Admitted b3 = bk_Admitted b"
      "bk_Live b3 = bk_Live b" "bk_Docker b3 = bk_Docker b" "bk_Creating b3 = bk_Creating b" "bk_Closing b3 = bk_Closing b"
      "bk_Names b3 = bk_Names b @ [name]" "bk_Tokens b3 = bk_Tokens b @ ls"
      "set (bk_Leases b3) \<subseteq> set (bk_Leases b) \<union> {l. l = lease \<and> lease \<noteq> [] \<and> \<not> revoke_ok}"
      "set (bk_Removals b3) = set (bk_Removals b) \<union> {r. r = q \<and> lease \<noteq> [] \<and> \<not> revoke_ok}"
      by (auto simp: b3_def b0_def ls_def)
    have "removal_ok b3 r" if "removal_ok b r" for r
      by (rule removal_ok_mono [OF that]) (use lease g(11) in \<open>auto simp: g(1-10) id_settles_def\<close>)
    moreover have "removal_ok b3 q" if "lease \<noteq> []"
      using that by (simp add: removal_ok_def q_def s_def entry_of_create_def g(1-10) ls_def)
    ultimately have removals: "\<forall>r \<in> set (bk_Removals b3). removal_ok b3 r" using inv by (auto simp: broker_inv_def g(12))
    have "entry_ok b3 x" if "entry_ok b x" for x
      by (rule entry_ok_mono [OF that]) (use that in \<open>auto simp: entry_ok_def g(1-10) id_settles_def\<close>)
    then have live: "live_ok b3" using inv by (simp add: broker_inv_def live_ok_def g(1-10))
    have "lease_owned b3 l" if "lease_owned b l" for l
      by (rule lease_owned_mono [OF that]) (auto simp: g)
    moreover have "lease_owned b3 lease" if "lease \<noteq> []" "\<not> revoke_ok"
      using that by (auto simp: lease_owned_def g q_def s_def entry_of_create_def)
    moreover have "set (bk_Leases b) \<subseteq> set (bk_Tokens b)" "[] \<notin> set (bk_Leases b)"
      "\<not> bk_Closing b \<Longrightarrow> \<forall>l \<in> set (bk_Leases b). lease_owned b l" using inv by (auto simp: broker_inv_def leases_ok_def)
    moreover have "lease \<in> set ls" if "lease \<noteq> []" using that by (simp add: ls_def)
    ultimately have "leases_ok b3" using g(11) unfolding leases_ok_def g(1-10) set_append by blast
    then have "broker_inv b3" using inv live removals by (simp add: broker_inv_def slots_ok_def docker_ok_def g(1-10))
    moreover have "slot \<in> set (bk_Admitted b3)" using slot by (simp add: b3_def b0_def)
    ultimately show ?thesis unfolding eq by (rule inv_drop)
  next
    case False
    define b1 where "b1 = docker_create answer name b0"
    define b' where "b' = b1\<lparr>bk_Live := bk_Live b1 @ [s], bk_Admitted := removeAll slot (bk_Admitted b1)\<rparr>"
    have eq: "prepare_created answer revoke_ok slot name lease b = b'"
      unfolding prep using False by (cases answer) (simp_all add: Let_def b1_def b'_def)
    have f: "bk_Slots b' = bk_Slots b" "bk_Max b' = bk_Max b" "bk_NextSlot b' = bk_NextSlot b" "bk_Removals b' = bk_Removals b"
      "bk_Closing b' = bk_Closing b" "bk_Names b' = bk_Names b @ [name]" "bk_Tokens b' = bk_Tokens b @ ls" "bk_Leases b' = bk_Leases b @ ls"
      "bk_Live b' = bk_Live b @ [s]" "bk_Admitted b' = removeAll slot (bk_Admitted b)"
      by (simp_all add: b'_def b1_def b0_def docker_create_def split: create_answer.split option.split)
    have s: "sb_slot s = slot" "sb_name s = name" "sb_lease s = lease" by (simp_all add: s_def entry_of_create_def)
    have dk: "bk_Docker b' = bk_Docker b @ (case answer of Created i \<Rightarrow> [(name, i)] | CreateRefused (Some i) \<Rightarrow> [(name, i)] | _ \<Rightarrow> [])"
      "bk_Creating b' = bk_Creating b @ (if answer = CreateUnanswered then [name] else [])"
      by (auto simp: b'_def b1_def b0_def docker_create_def split: create_answer.split option.split)
    have settles: "id_settles b' x i" if "id_settles b x i" "sb_name x \<noteq> name" for x i
      using that by (auto simp: id_settles_def dk split: create_answer.splits option.splits if_splits)
    have new: "id_settles b' s (sb_id s)"
      using fresh by (force simp: id_settles_def s_def entry_of_create_def dk split: create_answer.splits option.splits)
    have "entry_ok b' s" using new inv slot name(1) ls_def by (auto simp: entry_ok_def f s broker_inv_def slots_ok_def)
    moreover have "entry_ok b' x" if "x \<in> set (bk_Live b)" for x
    proof -
      have "entry_ok b x" using that inv by (simp add: broker_inv_def live_ok_def)
      then show ?thesis using settles fresh(3) that by (intro entry_ok_mono [OF \<open>entry_ok b x\<close>]) (auto simp: entry_ok_def f)
    qed
    moreover have "distinct (map sb_slot (bk_Live b'))" "distinct (map sb_name (bk_Live b'))"
      using inv slot fresh(3) by (auto simp: f s broker_inv_def live_ok_def entry_ok_def)
    ultimately have live: "live_ok b'" by (auto simp: live_ok_def f)
    have docker: "docker_ok b'" using inv fresh ids
      by (auto simp: broker_inv_def docker_ok_def f s dk create_ids_def split: create_answer.splits option.splits)
    have removal: "removal_ok b' r" if "removal_ok b r" for r
      by (rule removal_ok_mono [OF that]) (use ls settles name(2) slot in \<open>auto simp: f s\<close>)
    have "lease_owned b' l" if "lease_owned b l" for l by (rule lease_owned_mono [OF that]) (auto simp: f)
    moreover have "lease_owned b' lease" by (auto simp: lease_owned_def f s)
    ultimately have "leases_ok b'" using inv ls by (auto simp: broker_inv_def leases_ok_def f) (auto simp: ls_def split: if_splits)
    then show ?thesis unfolding eq using inv live docker removal by (auto simp: broker_inv_def f slots_ok_def)
  qed
qed

lemma broker_step_inv: "broker_step b b' \<Longrightarrow> broker_inv b \<Longrightarrow> broker_inv b'"
proof (induction rule: broker_step.induct)
  case (turns k b r a revoke_ok ctx_done r' b1)
  then show ?case using removal_turn_inv by blast
qed (blast intro: inv_acquire inv_drop inv_prepare inv_revoke inv_remove_begin inv_reaper_stops inv_close inv_sweep inv_complete inv_abandon inv_removed)+

lemma reachable_inv: "broker_reachable limit b \<Longrightarrow> broker_inv b"
  by (induction rule: broker_reachable.induct) (auto intro: inv_new broker_step_inv)

lemma sweep_Max: "bk_Max (sweep listed cleared b) = bk_Max b"
proof -
  have "bk_Max (fold forget ss b) = bk_Max b" for ss b by (induction ss arbitrary: b) (simp_all add: forget_def release_def)
  then have "bk_Max (sweep_container l b) = bk_Max b" for l b
    by (cases l) (simp add: sweep_container_def docker_removed_def)
  then have "bk_Max (fold sweep_container ls b) = bk_Max b" for ls b by (induction ls arbitrary: b) simp_all
  then show ?thesis by (simp add: sweep_def Let_def)
qed

lemma attempt_Max: "attempt_container a s cu b = (cu', b') \<Longrightarrow> bk_Max b' = bk_Max b"
  by (auto simp: attempt_container_def forget_def release_def docker_removed_def split: prod.splits option.splits)

lemma turn_Max: "removal_turn revoke_ok a d r b = (r', b') \<Longrightarrow> bk_Max b' = bk_Max b"
  by (auto simp: removal_turn_def reap_turn_def remove_turn_def Let_def revoke_def dest!: attempt_Max split: prod.splits if_splits)

lemma step_Max: "broker_step b b' \<Longrightarrow> bk_Max b' = bk_Max b"
  by (induction rule: broker_step.induct)
    (auto simp: acquire_def release_def prepare_created_def docker_create_def revoke_def remove_begin_def replace_removal_def
      sweep_Max docker_removed_def Let_def dest: turn_Max split: if_splits create_answer.splits option.splits)

lemma reachable_Max: "broker_reachable limit b \<Longrightarrow> bk_Max b = limit"
  by (induction rule: broker_reachable.induct) (auto simp: newBroker_def dest: step_Max)

lemma inv_count:
  assumes "broker_inv b"
  shows "length (bk_Docker b) + length (bk_Creating b) \<le> bk_Max b"
proof -
  have "length (bk_Docker b) + length (bk_Creating b) = card (set (map fst (bk_Docker b) @ bk_Creating b))"
    using assms distinct_card [of "map fst (bk_Docker b) @ bk_Creating b"] by (simp add: broker_inv_def docker_ok_def)
  also have "\<dots> \<le> card (sb_name ` set (bk_Live b))" using assms by (intro card_mono) (auto simp: broker_inv_def docker_ok_def)
  also have "\<dots> \<le> length (bk_Live b)" by (meson card_image_le card_length finite_set le_trans)
  also have "\<dots> = card (sb_slot ` set (bk_Live b))"
    using assms distinct_card [of "map sb_slot (bk_Live b)"] by (simp add: broker_inv_def live_ok_def)
  also have "\<dots> \<le> card (set (bk_Slots b))" using assms by (intro card_mono) (auto simp: broker_inv_def live_ok_def entry_ok_def)
  also have "\<dots> \<le> bk_Max b" using assms card_length [of "bk_Slots b"] by (auto simp: broker_inv_def slots_ok_def)
  finally show ?thesis .
qed

subsection \<open>A sample\<close>

text \<open>A broker of one slot with a sandbox created under a lease, whose removal has begun and whose lease is not yet revoked.\<close>

definition sample_entry :: sandbox_entry where
  "sample_entry = \<lparr>sb_slot = 0, sb_id = ''c1'', sb_name = ''octomus-1'', sb_lease = ''t1''\<rparr>"

definition sample_broker :: broker_state where
  "sample_broker = (newBroker 1)\<lparr>bk_Slots := [0], bk_NextSlot := 1, bk_Live := [sample_entry], bk_Begun := [0],
     bk_Removals := [\<lparr>rm_Reaper = False, rm_Entry = sample_entry,
       rm_Cleanup = \<lparr>cu_lease = True, cu_container = True, cu_id = ''c1''\<rparr>\<rparr>],
     bk_Leases := [''t1''], bk_Names := [''octomus-1''], bk_Tokens := [''t1''], bk_Docker := [(''octomus-1'', ''c1'')]\<rparr>"

lemma broker_sample_reachable: "broker_reachable 1 sample_broker"
proof -
  let ?b1 = "snd (acquire False False (newBroker 1))"
  let ?b2 = "prepare_created (Created ''c1'') True 0 ''octomus-1'' ''t1'' ?b1"
  have "broker_step (newBroker 1) ?b1" by (rule broker_step.acquires [of False False _ "fst (acquire False False (newBroker 1))"]) simp
  then have 1: "broker_reachable 1 ?b1" by (rule broker_reachable.step [OF broker_reachable.fresh])
  have "broker_step ?b1 ?b2"
    by (rule broker_step.prepares) (simp_all add: acquire_def newBroker_def create_ids_def docker_id_def has_prefix_def)
  with 1 have 2: "broker_reachable 1 ?b2" by (rule broker_reachable.step)
  have eq: "remove_begin False sample_entry ?b2 = sample_broker"
    by (simp add: sample_broker_def sample_entry_def remove_begin_def prepare_created_def docker_create_def revoke_def
        acquire_def newBroker_def entry_of_create_def)
  have "broker_step ?b2 (remove_begin False sample_entry ?b2)"
    by (rule broker_step.removes)
      (simp_all add: sample_entry_def prepare_created_def docker_create_def acquire_def newBroker_def entry_of_create_def)
  then show ?thesis unfolding eq by (rule broker_reachable.step [OF 2])
qed

subsection \<open>Property\<close>



end
