(* ===== verification/Spec2Isabelle.thy ===== *)
theory Spec2Isabelle
  imports Task_Lifecycle Task_Evidence Store_Safety Planning Engine_Scheduler Egress_Gateway Engine_Worker Broker_Slots
begin

text \<open>
  Verification of the octomus agent (\<open>src/\<close>): a service that plans work on Git repositories with coding agents, runs
  each task in a sandbox, reviews and verifies the result, publishes it as a pull request and may merge it.

  \<^bold>\<open>The parts and how they interact.\<close> The control plane is one process. Its durable state is a SQLite database
  (\<open>internal/store\<close>); every write is a transaction whose task changes must pass one policy
  (\<open>internal/model/task_lifecycle.go\<close>). The engine (\<open>internal/engine\<close>) runs a scheduling pass that recovers after a
  restart, checks merges, observes pull requests, plans a cycle, dispatches tasks to workers and serves operator
  actions. A worker drives one task through runner turns, review, verification and publication. Runners and
  verification commands run in containers that a separate process, the broker (\<open>internal/sandbox/broker\<close>), creates
  from its own settings; their only way out is a third process, the egress gateway (\<open>internal/egress\<close>).

  \<^bold>\<open>Theories.\<close> Names follow the code; a record's fields carry a prefix (\<open>t_Status\<close> of a task is \<open>Task.Status\<close>).

  \<^item> \<open>Go_Prelude\<close>, \<open>Go_Regexp\<close>, \<open>Net_Addr\<close>: byte strings, UTF-8, sorted string maps, 64-bit words, error values,
    the expressions and addresses of Go's standard library that the code uses. The collections \<open>go_eval\<close> and the others
    declared there carry the evaluations of the samples.
  \<^item> \<open>Wire_Enums\<close>, \<open>Records\<close>, \<open>Task_Model\<close>, \<open>Task_Lifecycle\<close>, \<open>Task_Evidence\<close> (\<open>internal/model\<close>) and \<open>Config\<close>
    (\<open>internal/config\<close>): the data, its codecs and rules. Every enumeration interprets one locale of text codecs. Reachable
    tasks satisfy the lifecycle invariant, history is never rewritten, and merge authority means reviewed and verified.
  \<^item> \<open>Store_State\<close>, \<open>Store_Tasks\<close>, \<open>Store_Budget\<close>, \<open>Store_Capacity\<close>, \<open>Store_Merge\<close>, \<open>Store_Registry\<close>
    (\<open>internal/store\<close>): the tables as one record, each transaction as a function to a result or an error, with rollback
    written out. A locale over an arbitrary task invariant is proved once and interpreted for each transaction family.
    \<open>Store_Safety\<close> composes all of them: a run of the store refines the lifecycle of single tasks.
  \<^item> \<open>Plan_Graph\<close>, \<open>Plan_Rules\<close>, \<open>Planning\<close>: the rules a plan must meet, exactly characterised, and its commit.
  \<^item> \<open>Engine_State\<close>, \<open>Engine_Tasks\<close>, \<open>Engine_Capacity\<close>, \<open>Engine_Dispatch\<close>, \<open>Engine_Merge\<close>, \<open>Engine_Actions\<close>,
    \<open>Engine_Control\<close>, \<open>Engine_Scheduler\<close>, \<open>Engine_Worker\<close>, \<open>Engine_Evidence\<close>: the runtime state of the process beside
    the database, and each pass over both. What runs concurrently in the code is interleaved at its lock boundaries.
  \<^item> \<open>Git_Footprint\<close>, \<open>Git_Merge\<close> (\<open>internal/git\<close>), \<open>Redact\<close> (\<open>internal/redact\<close>), \<open>Process_Capture\<close>
    (\<open>internal/process\<close>): the readers of machine output, of secrets and of child processes.
  \<^item> \<open>Sandbox_Wire\<close>, \<open>Broker_Spec\<close>, \<open>Broker_Run\<close>, \<open>Broker_Slots\<close> (\<open>internal/sandbox\<close>): the wire contract; the
    broker's settings, the validation of a request and the container built from it; the run of one container up to its
    report; the books of slots, containers and leases under any interleaving.
  \<^item> \<open>Egress_Policy\<close>, \<open>Egress_Hello\<close>, \<open>Egress_Gateway\<close> (\<open>internal/egress\<close>): the allowlist, the inspection of the
    first TLS flight, and the gateway as an interleaved machine of requests.
  \<^item> \<open>Sample_Data\<close>: the concrete records the witnesses are evaluated on.

  \<^bold>\<open>What the properties show.\<close> Nothing unreviewed is published or merged, from the policy through the store and the
  worker to the merge call; evidence is complete, bounded and never rewritten; limits on sessions, pull requests,
  concurrency, containers and gateway slots hold; recovery, work loops and merge passes end; a sandbox is confined and
  its traffic vetted; operator actions that are offered are taken.

  \<^bold>\<open>Parameters.\<close> What lies outside the sources is an argument of the definitions that use it: the tables of Unicode
  (\<open>unicode_tables\<close>); clocks, fresh identifiers and the database's failures (\<open>env\<close>, \<open>serial\<close>); runner turns,
  commands and Git during a task (\<open>worker_remote\<close>); GitHub during merging (\<open>merge_remote\<close>); other writers between two
  lock holds of a pass (\<open>outside\<close>); the file system and environment of the broker (\<open>lstat\<close>, \<open>getenv\<close>); and what the
  Docker daemon answers. Theorems hold for every value of them, except where a hypothesis names documented behaviour.

  \<^bold>\<open>Bounds and fuel.\<close> Loops of the code are structural recursion, recursion on a decreasing measure, or recursion over
  the list of what the environment delivers. The rounds of a worker recurse on the repair rounds that are left; recovery
  and retention recurse on the pages of a finite table, and enough pages are proved to drain it; a merge pass recurses on
  its budget of eight. Machine integers are words of their width wherever the code can overflow them.

  \<^bold>\<open>Not modelled.\<close> The row codec, schema migrations and read queries of the store (JSON and SQL); transport to GitHub,
  git subprocesses and worktrees on disk; the protocols of the runner clients; prompt texts; the HTTP interface, chat,
  notifications and exports, which render the modelled records or call the modelled operations; baseline checks, memory
  and the fleet around the task pipeline; the Docker HTTP client and the start of the broker; process groups and timers
  of the operating system. They are input and output around the modelled decisions.
\<close>

end
